(* ===== verification/IRT_Prelude.thy ===== *)
theory IRT_Prelude
  imports Main "HOL-Library.Word"
begin

unbundle bit_operations_syntax

text \<open>
  Shared vocabulary of the development: the C integer types as words, the return codes of
  \<^verbatim>\<open>include/indurtdb/indurtdb.h\<close>, bounded C strings, and the generic facts on lists and
  circular indices that several components use.
\<close>

section \<open>Machine integers\<close>

type_synonym u8 = "8 word"
type_synonym u16 = "16 word"
type_synonym u32 = "32 word"
type_synonym u64 = "64 word"

named_theorems irt_codes \<open>the numeric values of the return codes and constants\<close>

section \<open>Return codes\<close>

definition INDURTDB_OK :: int where "INDURTDB_OK = 0"
definition INDURTDB_ERR_ARG :: int where "INDURTDB_ERR_ARG = -1"
definition INDURTDB_ERR_NOT_FOUND :: int where "INDURTDB_ERR_NOT_FOUND = -2"
definition INDURTDB_ERR_FULL :: int where "INDURTDB_ERR_FULL = -3"
definition INDURTDB_ERR_NOT_INIT :: int where "INDURTDB_ERR_NOT_INIT = -4"
definition INDURTDB_ERR_BUSY :: int where "INDURTDB_ERR_BUSY = -5"
definition INDURTDB_ERR_READ_ONLY :: int where "INDURTDB_ERR_READ_ONLY = -6"

lemmas return_code_defs =
  INDURTDB_OK_def INDURTDB_ERR_ARG_def INDURTDB_ERR_NOT_FOUND_def INDURTDB_ERR_FULL_def
  INDURTDB_ERR_NOT_INIT_def INDURTDB_ERR_BUSY_def INDURTDB_ERR_READ_ONLY_def

declare return_code_defs [irt_codes]

section \<open>C strings\<close>

text \<open>
  A C string argument is the list of its bytes before the terminating NUL, so the empty
  list is both the empty string and the null pointer: every function of the program that
  takes a name tests \<open>!name || name[0] == 0\<close> and takes the same branch for both.
  \<open>strncpy_to n s\<close> is what a buffer of \<open>n + 1\<close> bytes reads as after
  \<open>strncpy(buf, s, n); buf[n] = 0\<close>.
\<close>

definition strncpy_to :: "nat \<Rightarrow> string \<Rightarrow> string" where
  "strncpy_to n s = take n s"

text \<open>\<open>strncmp(a, b, n) == 0\<close> on two NUL-terminated strings.\<close>

definition strncmp_eq :: "nat \<Rightarrow> string \<Rightarrow> string \<Rightarrow> bool" where
  "strncmp_eq n a b \<longleftrightarrow> take n a = take n b"

lemma strncpy_to_short [simp]: "length s \<le> n \<Longrightarrow> strncpy_to n s = s"
  by (simp add: strncpy_to_def)

lemma strncpy_to_length [simp]: "length (strncpy_to n s) \<le> n"
  by (simp add: strncpy_to_def)

lemma strncpy_to_Nil [simp]: "0 < n \<Longrightarrow> strncpy_to n s = [] \<longleftrightarrow> s = []"
  by (simp add: strncpy_to_def)

lemma strncmp_eq_short: "length a \<le> n \<Longrightarrow> length b \<le> n \<Longrightarrow> strncmp_eq n a b \<longleftrightarrow> a = b"
  by (simp add: strncmp_eq_def)

lemma strncmp_eq_refl [simp]: "strncmp_eq n a a"
  by (simp add: strncmp_eq_def)

section \<open>Circular indices\<close>

text \<open>
  The program's rings are arrays of a fixed capacity indexed modulo it. The facts below are
  about natural numbers below the capacity; the components read their word counters with
  \<open>unat\<close>.
\<close>

lemma mod_add_less_eq: "(a::nat) < c \<Longrightarrow> k < c \<Longrightarrow> (a + k) mod c = (if a + k < c then a + k else a + k - c)"
  by (simp add: mod_if)

lemma mod_add_inj:
  assumes "(a + j) mod c = (a + k) mod c" and "j < c" and "k < (c::nat)"
  shows "j = k"
proof -
  have "a mod c < c" using assms(2) by simp
  moreover have "(a mod c + j) mod c = (a mod c + k) mod c"
    using assms(1) by (simp add: mod_add_left_eq)
  ultimately show ?thesis
    using assms(2,3) by (auto simp: mod_add_less_eq split: if_splits)
qed

section \<open>Arrays indexed by words\<close>

lemma list_update_unat_other [simp]:
  "i \<noteq> j \<Longrightarrow> xs[unat i := v] ! unat j = xs ! unat (j :: 'a :: len word)"
  by (metis nth_list_update_neq unsigned_word_eqI)

text \<open>The values of a word loop variable that runs from 0 below \<open>n\<close>.\<close>

lemma unat_word_below: "i < unat (n :: u32) \<Longrightarrow> unat (word_of_nat i :: u32) = i"
  using unsigned_less [of n, where ?'a = nat] by (simp add: unat_of_nat)

lemma set_words_below: "set (map word_of_nat [0..<unat n]) = {i :: u32. i < n}"
proof (rule set_eqI)
  fix x :: u32
  have "x \<in> set (map word_of_nat [0..<unat n])" if "x < n"
    using that by (auto simp: word_less_nat_alt intro!: image_eqI [where x = "unat x"])
  then show "x \<in> set (map word_of_nat [0..<unat n]) \<longleftrightarrow> x \<in> {i. i < n}"
    by (auto simp: word_less_nat_alt unat_word_below)
qed

lemma distinct_words_below: "distinct (map word_of_nat [0..<unat (n :: u32)] :: u32 list)"
proof -
  have "inj_on (word_of_nat :: nat \<Rightarrow> u32) {0..<unat n}"
    by (rule inj_on_inverseI [where g = unat]) (simp add: unat_word_below)
  then show ?thesis by (simp add: distinct_map)
qed

section \<open>Word enumeration\<close>

lemma u8_and_15_cases:
  fixes x :: u8
  shows "x AND 15 \<in> {0, 1, 2, 3, 4, 5, 6, 7, 8, 9, 10, 11, 12, 13, 14, 15}"
proof -
  have "x AND 15 = take_bit 4 x" by (simp add: take_bit_eq_mask mask_eq_exp_minus_1)
  then have "unat (x AND 15) < 16"
    by (simp add: take_bit_eq_mod unat_mod)
  then have "x AND 15 \<in> word_of_nat ` {..<16}"
    by (intro image_eqI [where x = "unat (x AND 15)"]) simp_all
  then show ?thesis
    by (auto simp: lessThan_nat_numeral lessThan_Suc numeral_eq_Suc)
qed

lemma u8_and_3_cases:
  fixes x :: u8
  shows "x AND 3 \<in> {0, 1, 2, 3}"
proof -
  have "x AND 3 = take_bit 2 x" by (simp add: take_bit_eq_mask mask_eq_exp_minus_1)
  then have "unat (x AND 3) < 4"
    by (simp add: take_bit_eq_mod unat_mod)
  then have "x AND 3 \<in> word_of_nat ` {..<4}"
    by (intro image_eqI [where x = "unat (x AND 3)"]) simp_all
  then show ?thesis
    by (auto simp: lessThan_nat_numeral lessThan_Suc numeral_eq_Suc)
qed

end
