(* ===== verification/Quality.thy ===== *)
theory Quality
  imports IRT_Prelude
begin

text \<open>
  Quality bytes and their OPC UA status codes: the macros of
  \<^verbatim>\<open>include/indurtdb/indurtdb.h\<close> (base code in bits 0-3, limit in bits 4-5) and the two
  mapping functions at the end of \<^verbatim>\<open>src/api/indurtdb.c\<close>. The lemmas say how the fields
  of a quality byte are independent and that the two mappings invert each other.
\<close>

section \<open>Quality codes\<close>

definition QUALITY_GOOD :: u8 where "QUALITY_GOOD = 0"
definition QUALITY_BAD :: u8 where "QUALITY_BAD = 1"
definition QUALITY_TIMEOUT :: u8 where "QUALITY_TIMEOUT = 2"
definition QUALITY_SUBSTITUTED :: u8 where "QUALITY_SUBSTITUTED = 3"
definition QUALITY_UNCERTAIN :: u8 where "QUALITY_UNCERTAIN = 4"
definition QUALITY_NOT_INITIALIZED :: u8 where "QUALITY_NOT_INITIALIZED = 5"
definition QUALITY_OUT_OF_SERVICE :: u8 where "QUALITY_OUT_OF_SERVICE = 6"
definition QUALITY_COMM_FAILURE :: u8 where "QUALITY_COMM_FAILURE = 7"
definition QUALITY_SENSOR_FAILURE :: u8 where "QUALITY_SENSOR_FAILURE = 8"
definition QUALITY_LAST_KNOWN :: u8 where "QUALITY_LAST_KNOWN = 9"
definition QUALITY_CONFIG_ERROR :: u8 where "QUALITY_CONFIG_ERROR = 10"

definition LIMIT_NONE :: u8 where "LIMIT_NONE = 0"
definition LIMIT_LOW :: u8 where "LIMIT_LOW = 1"
definition LIMIT_HIGH :: u8 where "LIMIT_HIGH = 2"
definition LIMIT_CONSTANT :: u8 where "LIMIT_CONSTANT = 3"

lemmas quality_code_defs =
  QUALITY_GOOD_def QUALITY_BAD_def QUALITY_TIMEOUT_def QUALITY_SUBSTITUTED_def
  QUALITY_UNCERTAIN_def QUALITY_NOT_INITIALIZED_def QUALITY_OUT_OF_SERVICE_def
  QUALITY_COMM_FAILURE_def QUALITY_SENSOR_FAILURE_def QUALITY_LAST_KNOWN_def
  QUALITY_CONFIG_ERROR_def LIMIT_NONE_def LIMIT_LOW_def LIMIT_HIGH_def LIMIT_CONSTANT_def

declare quality_code_defs [irt_codes]

section \<open>Packing and unpacking\<close>

definition QUALITY_BASE :: "u8 \<Rightarrow> u8" where
  "QUALITY_BASE q = q AND 0x0F"

definition QUALITY_LIMIT :: "u8 \<Rightarrow> u8" where
  "QUALITY_LIMIT q = drop_bit 4 q AND 0x03"

definition QUALITY_MAKE :: "u8 \<Rightarrow> u8 \<Rightarrow> u8" where
  "QUALITY_MAKE base limit = (base AND 0x0F) OR push_bit 4 (limit AND 0x03)"

lemma quality_limit_cases: "QUALITY_LIMIT q \<in> {0, 1, 2, 3}"
  unfolding QUALITY_LIMIT_def by (rule u8_and_3_cases)

lemma quality_base_cases:
  "QUALITY_BASE q \<in> {0, 1, 2, 3, 4, 5, 6, 7, 8, 9, 10, 11, 12, 13, 14, 15}"
  unfolding QUALITY_BASE_def by (rule u8_and_15_cases)

lemma pack_fields:
  fixes x y :: u8
  assumes "x \<in> {0, 1, 2, 3, 4, 5, 6, 7, 8, 9, 10, 11, 12, 13, 14, 15}" and "y \<in> {0, 1, 2, 3}"
  shows "(x OR push_bit 4 y) AND 15 = x" and "drop_bit 4 (x OR push_bit 4 y) AND 3 = y"
  using assms by auto

lemma quality_base_make [simp]: "QUALITY_BASE (QUALITY_MAKE b l) = b AND 0x0F"
  unfolding QUALITY_BASE_def QUALITY_MAKE_def
  by (rule pack_fields) (rule u8_and_15_cases u8_and_3_cases)+

lemma quality_limit_make [simp]: "QUALITY_LIMIT (QUALITY_MAKE b l) = l AND 0x03"
  unfolding QUALITY_LIMIT_def QUALITY_MAKE_def
  by (rule pack_fields) (rule u8_and_15_cases u8_and_3_cases)+

section \<open>OPC UA status codes\<close>

definition k_quality_to_sc :: "(u8 \<times> u32) list" where
  "k_quality_to_sc =
     [(QUALITY_GOOD, 0x00000000), (QUALITY_BAD, 0x80000000), (QUALITY_TIMEOUT, 0x408F0000),
      (QUALITY_SUBSTITUTED, 0x00D90000), (QUALITY_UNCERTAIN, 0x40000000),
      (QUALITY_NOT_INITIALIZED, 0x408D0000), (QUALITY_OUT_OF_SERVICE, 0x808D0000),
      (QUALITY_COMM_FAILURE, 0x80870000), (QUALITY_SENSOR_FAILURE, 0x808A0000),
      (QUALITY_LAST_KNOWN, 0x40900000), (QUALITY_CONFIG_ERROR, 0x80A10000)]"

text \<open>The two table scans of the code, with the value each starts from.\<close>

fun scan_base :: "(u8 \<times> u32) list \<Rightarrow> u8 \<Rightarrow> u32" where
  "scan_base [] base = 0x80000000"
| "scan_base ((b, sc) # t) base = (if b = base then sc else scan_base t base)"

fun scan_sc :: "(u8 \<times> u32) list \<Rightarrow> u32 \<Rightarrow> u8" where
  "scan_sc [] raw = QUALITY_BAD"
| "scan_sc ((b, sc) # t) raw = (if sc = raw then b else scan_sc t raw)"

definition indurtdb_quality_to_status_code :: "u8 \<Rightarrow> u32" where
  "indurtdb_quality_to_status_code quality =
     (let base = QUALITY_BASE quality;
          limit = QUALITY_LIMIT quality;
          sc = scan_base k_quality_to_sc base
      in sc OR push_bit 28 (ucast limit AND 0x3))"

definition indurtdb_status_code_to_quality :: "u32 \<Rightarrow> u8" where
  "indurtdb_status_code_to_quality status_code =
     (let limit = ucast (drop_bit 28 status_code AND 0x3) :: u8;
          raw = status_code AND NOT (push_bit 28 0x3);
          base = scan_sc k_quality_to_sc raw
      in QUALITY_MAKE base limit)"

definition indurtdb_quality_is_usable :: "u8 \<Rightarrow> bool" where
  "indurtdb_quality_is_usable quality \<longleftrightarrow> QUALITY_BASE quality = QUALITY_GOOD"

text \<open>The severity of a status code is its two top bits (0 good, 1 uncertain, 2 bad).\<close>

definition sc_severity :: "u32 \<Rightarrow> u32" where
  "sc_severity sc = drop_bit 30 sc"

section \<open>Properties\<close>

lemmas status_code_simps =
  indurtdb_quality_to_status_code_def indurtdb_status_code_to_quality_def k_quality_to_sc_def
  Let_def quality_code_defs

text \<open>
  Both mappings read a quality byte through its two fields only, so a proof over all bytes
  is a proof over the eleven base codes and the four limits.
\<close>

definition sc_of_fields :: "u8 \<Rightarrow> u8 \<Rightarrow> u32" where
  "sc_of_fields b l = scan_base k_quality_to_sc b OR push_bit 28 (ucast l AND 0x3)"

lemma status_code_of_fields:
  "indurtdb_quality_to_status_code q = sc_of_fields (QUALITY_BASE q) (QUALITY_LIMIT q)"
  by (simp add: indurtdb_quality_to_status_code_def sc_of_fields_def)

lemma sc_of_fields_inverse_all:
  "list_all (\<lambda>b. list_all (\<lambda>l. indurtdb_status_code_to_quality (sc_of_fields b l) = QUALITY_MAKE b l)
     [0, 1, 2, 3]) [0, 1, 2, 3, 4, 5, 6, 7, 8, 9, 10]"
  by code_simp

lemma sc_of_fields_inverse:
  assumes "b \<in> {0, 1, 2, 3, 4, 5, 6, 7, 8, 9, 10}" and "l \<in> {0, 1, 2, 3}"
  shows "indurtdb_status_code_to_quality (sc_of_fields b l) = QUALITY_MAKE b l"
  using sc_of_fields_inverse_all assms unfolding list_all_iff list.set by blast

lemma quality_base_le_cases:
  "QUALITY_BASE q \<le> 10 \<Longrightarrow> QUALITY_BASE q \<in> {0, 1, 2, 3, 4, 5, 6, 7, 8, 9, 10}"
  using quality_base_cases [of q] by auto

text \<open>
  Encoding a quality byte as an OPC UA status code and decoding it again gives back the
  base code and the limit: the byte itself when its two reserved bits are clear.
\<close>

theorem quality_status_code_roundtrip:
  assumes "QUALITY_BASE q \<le> 10"
  shows "indurtdb_status_code_to_quality (indurtdb_quality_to_status_code q)
           = QUALITY_MAKE (QUALITY_BASE q) (QUALITY_LIMIT q)"
  unfolding status_code_of_fields
  by (rule sc_of_fields_inverse [OF quality_base_le_cases [OF assms] quality_limit_cases])

theorem quality_status_code_roundtrip_witness:
  "QUALITY_BASE 0x27 \<le> 10 \<and>
   indurtdb_status_code_to_quality (indurtdb_quality_to_status_code 0x27)
     = QUALITY_MAKE (QUALITY_BASE 0x27) (QUALITY_LIMIT 0x27)"
proof -
  have h: "QUALITY_BASE 0x27 \<le> 10" by (simp add: QUALITY_BASE_def)
  show ?thesis using h quality_status_code_roundtrip [OF h] by blast
qed

lemma sc_severity_fields_all:
  "list_all (\<lambda>b. list_all (\<lambda>l. sc_severity (sc_of_fields b l) = sc_severity (scan_base k_quality_to_sc b)
      \<and> (sc_of_fields b l AND NOT (push_bit 28 0x3) = 0 \<longleftrightarrow> b = 0))
     [0, 1, 2, 3]) [0, 1, 2, 3, 4, 5, 6, 7, 8, 9, 10, 11, 12, 13, 14, 15]"
  by code_simp

lemma sc_severity_fields:
  assumes "b \<in> {0, 1, 2, 3, 4, 5, 6, 7, 8, 9, 10, 11, 12, 13, 14, 15}" and "l \<in> {0, 1, 2, 3}"
  shows "sc_severity (sc_of_fields b l) = sc_severity (scan_base k_quality_to_sc b)
    \<and> (sc_of_fields b l AND NOT (push_bit 28 0x3) = 0 \<longleftrightarrow> b = 0)"
  using sc_severity_fields_all assms unfolding list_all_iff list.set by blast

text \<open>
  The limit bits never touch the severity of the status code, and a byte is usable exactly
  when its status code, limit bits masked out, is the code Good.
\<close>

theorem status_code_limit_orthogonal:
  "sc_severity (indurtdb_quality_to_status_code q)
     = sc_severity (scan_base k_quality_to_sc (QUALITY_BASE q)) \<and>
   (indurtdb_quality_is_usable q \<longleftrightarrow>
      indurtdb_quality_to_status_code q AND NOT (push_bit 28 0x3) = 0)"
  unfolding status_code_of_fields indurtdb_quality_is_usable_def QUALITY_GOOD_def
  using sc_severity_fields [OF quality_base_cases quality_limit_cases] by blast

end
