(* ===== verification/Shm.thy ===== *)
theory Shm
  imports IRT_Prelude "HOL-Library.While_Combinator"
begin

text \<open>
  The shared segment of \<^verbatim>\<open>src/internal/irt_types.h\<close>, \<^verbatim>\<open>src/core/irt_shm.h\<close> and
  \<^verbatim>\<open>src/core/irt_shm.c\<close>: the header, the point, index, metadata and subscriber regions, the
  layout arithmetic that places them, and the header checksum. Region contents are lists; that
  the regions are disjoint byte ranges, which justifies this, is the layout theorem of this
  theory. Floating-point fields are kept as their IEEE bit patterns.
\<close>

section \<open>Data\<close>

record point =
  pt_value :: "u8 list"            \<comment> \<open>the 32 bytes of the value union\<close>
  timestamp_ns :: u64
  pt_type :: u8
  quality :: u8
  pt_unit :: u16
  access :: u8
  pt_name :: string                \<comment> \<open>\<open>name[64]\<close> up to its NUL; empty = not registered\<close>
  source_timestamp_ns :: u64
  partition :: u32

definition zero_point :: point where
  "zero_point = \<lparr>pt_value = replicate 32 0, timestamp_ns = 0, pt_type = 0, quality = 0,
     pt_unit = 0, access = 0, pt_name = [], source_timestamp_ns = 0, partition = 0\<rparr>"

record meta =
  eur_min :: u64
  eur_max :: u64
  deadband :: u32
  m_flags :: u32

definition zero_meta :: meta where
  "zero_meta = \<lparr>eur_min = 0, eur_max = 0, deadband = 0, m_flags = 0\<rparr>"

record slot =
  sl_hash :: u32
  sl_pid :: u32

record sub_entry =
  sub_pid :: u32
  last_heartbeat_ns :: u64

definition zero_sub :: sub_entry where
  "zero_sub = \<lparr>sub_pid = 0, last_heartbeat_ns = 0\<rparr>"

record irt_header =
  magic :: u32
  version :: u32
  max_points :: u32
  max_subscribers :: u32
  write_seq :: u64
  owner_pid :: u32
  st_writes :: u64
  st_timeouts :: u64
  hdr_crc32 :: u32
  hdr_flags :: u32
  reserved_scan :: u32
  off_points :: u32
  off_index :: u32
  off_meta :: u32
  off_subs :: u32
  index_count :: u32
  scan_skipped :: u32

record segment = irt_header +
  points :: "point list"
  slots :: "slot list"
  metas :: "meta list"
  subs :: "sub_entry list"

text \<open>
  A handle on a mapped segment. \<open>lock_env\<close> is the environment of the process: for each
  coming call of \<open>irt_seqlock_write_begin\<close> whether another process holds the lock when the
  call loads the sequence number. An exhausted list means that nobody interferes. A bounded read
  takes the number of its attempts that a writer disturbs as an argument.
\<close>

record shm = segment +
  s_max_points :: u32
  s_max_subscribers :: u32
  lock_env :: "bool list"

definition IRT_MAGIC :: u32 where "IRT_MAGIC = 0x1DBA1DBA"
definition IRT_SHM_VERSION :: u32 where "IRT_SHM_VERSION = 3"

declare IRT_MAGIC_def [irt_codes] IRT_SHM_VERSION_def [irt_codes]

section \<open>Layout\<close>

text \<open>
  \<open>irt_layout_buckets\<close> doubles a 32-bit capacity from 8 while it is below twice the number
  of points (a 64-bit product) and at most \<open>2 ^ 30\<close>.
\<close>

definition irt_layout_buckets :: "u32 \<Rightarrow> u32" where
  "irt_layout_buckets mp =
     (let want = (ucast mp :: u64) * 2
      in while (\<lambda>cap. (ucast cap :: u64) < want \<and> cap \<le> 0x40000000) (\<lambda>cap. push_bit 1 cap) 8)"

definition irt_layout_index_size :: "u32 \<Rightarrow> u64" where
  "irt_layout_index_size mp = ucast (irt_layout_buckets mp) * 8"

definition irt_layout_meta_size :: "u32 \<Rightarrow> u64" where
  "irt_layout_meta_size mp = ucast mp * 32"

definition irt_layout_off_points :: u32 where
  "irt_layout_off_points = 128"

definition irt_layout_off_index :: "u32 \<Rightarrow> u32" where
  "irt_layout_off_index mp = irt_layout_off_points + ucast ((ucast mp :: u64) * 128)"

definition irt_layout_off_meta :: "u32 \<Rightarrow> u32" where
  "irt_layout_off_meta mp = irt_layout_off_index mp + ucast (irt_layout_index_size mp)"

definition irt_layout_off_subs :: "u32 \<Rightarrow> u32" where
  "irt_layout_off_subs mp = irt_layout_off_meta mp + ucast (irt_layout_meta_size mp)"

definition irt_shm_total_size :: "u32 \<Rightarrow> u32 \<Rightarrow> u64" where
  "irt_shm_total_size mp ms =
     128 + ucast mp * 128 + irt_layout_index_size mp + irt_layout_meta_size mp + ucast ms * 16"

subsection \<open>The bucket loop\<close>

definition bucket_inv :: "u64 \<Rightarrow> u32 \<Rightarrow> bool" where
  "bucket_inv want cap \<longleftrightarrow>
     (\<exists>k. 3 \<le> k \<and> k \<le> 31 \<and> unat cap = 2 ^ k \<and> (unat cap = 8 \<or> unat cap < 2 * unat want))"

lemma bucket_inv_start: "bucket_inv want 8"
  unfolding bucket_inv_def by (rule exI [of _ 3]) simp

lemma unat_ucast_u32_u64 [simp]: "unat (ucast (x :: u32) :: u64) = unat x"
  by (simp add: unsigned_ucast_eq take_bit_nat_eq_self_iff order_less_trans [OF unsigned_less])

lemma bucket_guard_nat:
  "(ucast (cap :: u32) :: u64) < want \<longleftrightarrow> unat cap < unat want"
  by (simp add: word_less_nat_alt)

lemma bucket_step:
  assumes "bucket_inv want cap" and "(ucast cap :: u64) < want" and "cap \<le> 0x40000000"
  shows "bucket_inv want (push_bit 1 cap)" and "unat (push_bit 1 cap) = 2 * unat cap"
proof -
  from assms(1) obtain k where k: "3 \<le> k" "k \<le> 31" "unat cap = 2 ^ k"
    by (auto simp: bucket_inv_def)
  have "unat cap \<le> 2 ^ 30" using assms(3) by (simp add: word_le_nat_alt)
  then have "k \<le> 30" using k(3) by (metis one_less_numeral_iff power_le_imp_le_exp semiring_norm(76))
  have small: "unat cap * 2 < 2 ^ 32" using \<open>unat cap \<le> 2 ^ 30\<close> by simp
  have "unat (push_bit 1 cap) = unat (cap * 2)" by simp
  also have "\<dots> = unat cap * 2 mod 2 ^ 32" by (simp add: unat_word_ariths)
  finally show *: "unat (push_bit 1 cap) = 2 * unat cap" using small by simp
  show "bucket_inv want (push_bit 1 cap)"
    unfolding bucket_inv_def
  proof (intro exI [of _ "Suc k"] conjI)
    show "unat (push_bit 1 cap) = 2 ^ Suc k" using * k(3) by simp
    show "unat (push_bit 1 cap) = 8 \<or> unat (push_bit 1 cap) < 2 * unat want"
      using * assms(2) unfolding bucket_guard_nat by simp
  qed (use k \<open>k \<le> 30\<close> in simp_all)
qed

lemma buckets_while:
  fixes want :: u64
  defines "r \<equiv> while (\<lambda>cap. (ucast cap :: u64) < want \<and> cap \<le> 0x40000000) (\<lambda>cap. push_bit 1 cap) (8 :: u32)"
  shows "bucket_inv want r \<and> \<not> ((ucast r :: u64) < want \<and> r \<le> 0x40000000)"
  unfolding r_def
proof (rule while_rule [where P = "bucket_inv want" and r = "measure (\<lambda>cap :: u32. 2 ^ 32 - unat cap)"])
  fix cap :: u32
  assume *: "bucket_inv want cap" "(ucast cap :: u64) < want \<and> cap \<le> 0x40000000"
  then show "bucket_inv want (push_bit 1 cap)" by (blast intro: bucket_step)
  have "0 < unat cap" using *(1) by (auto simp: bucket_inv_def)
  moreover have "unat (push_bit 1 cap) = 2 * unat cap" using * by (blast intro: bucket_step)
  moreover have "unat cap < 2 ^ 32" using unsigned_less [of cap] by simp
  ultimately show "(push_bit 1 cap, cap) \<in> measure (\<lambda>cap :: u32. 2 ^ 32 - unat cap)" by simp
qed (auto simp: bucket_inv_start)

lemma buckets_pow2:
  obtains k where "3 \<le> k" "k \<le> 31" "unat (irt_layout_buckets mp) = 2 ^ k"
  using buckets_while [of "ucast mp * 2"]
  by (auto simp: irt_layout_buckets_def Let_def bucket_inv_def)

lemma unat_want: "unat ((ucast (mp :: u32) :: u64) * 2) = 2 * unat mp"
proof -
  have "unat mp < 2 ^ 32" using unsigned_less [of mp] by simp
  then show ?thesis by (simp add: unat_word_ariths)
qed

lemma buckets_ge:
  assumes "unat mp \<le> 2 ^ 30"
  shows "2 * unat mp \<le> unat (irt_layout_buckets mp)"
proof (cases "irt_layout_buckets mp \<le> 0x40000000")
  case True
  then show ?thesis
    using buckets_while [of "ucast mp * 2"]
    by (simp add: irt_layout_buckets_def Let_def bucket_guard_nat unat_want)
next
  case False
  obtain k where k: "k \<le> 31" "unat (irt_layout_buckets mp) = 2 ^ k"
    by (rule buckets_pow2 [of mp])
  have "(2::nat) ^ 30 < 2 ^ k" using False k(2) by (simp add: word_le_nat_alt)
  then have "30 < k" by (rule power_less_imp_less_exp [rotated]) simp
  then have "k = 31" using k(1) by simp
  then show ?thesis using k(2) assms by simp
qed

lemma buckets_le:
  "unat (irt_layout_buckets mp) = 8 \<or> unat (irt_layout_buckets mp) < 4 * unat mp"
  using buckets_while [of "ucast mp * 2"]
  by (auto simp: irt_layout_buckets_def Let_def bucket_inv_def unat_want)


subsection \<open>The regions do not overlap\<close>

lemma unat_ucast_u64_u32_small: "unat (x :: u64) < 2 ^ 32 \<Longrightarrow> unat (ucast x :: u32) = unat x"
  by (simp add: unsigned_ucast_eq take_bit_nat_eq_self_iff)

lemma unat_mult_small:
  fixes x y :: u64
  shows "unat x * unat y < 2 ^ 64 \<Longrightarrow> unat (x * y) = unat x * unat y"
  by (simp add: unat_word_ariths)

lemma unat_add_small:
  fixes x y :: u32
  shows "unat x + unat y < 2 ^ 32 \<Longrightarrow> unat (x + y) = unat x + unat y"
  by (simp add: unat_word_ariths)

lemma unat_add_small64:
  fixes x y :: u64
  shows "unat x + unat y < 2 ^ 64 \<Longrightarrow> unat (x + y) = unat x + unat y"
  by (simp add: unat_word_ariths)

lemma index_size_small:
  assumes "unat mp \<le> 2 ^ 24"
  shows "unat (irt_layout_index_size mp) = 8 * unat (irt_layout_buckets mp)"
    and "8 * unat (irt_layout_buckets mp) \<le> 64 + 32 * unat mp"
proof -
  show 2: "8 * unat (irt_layout_buckets mp) \<le> 64 + 32 * unat mp"
    using buckets_le [of mp] by auto
  show "unat (irt_layout_index_size mp) = 8 * unat (irt_layout_buckets mp)"
    unfolding irt_layout_index_size_def using 2 assms
    by (subst unat_mult_small) simp_all
qed

lemma meta_size_small:
  "unat mp \<le> 2 ^ 24 \<Longrightarrow> unat (irt_layout_meta_size mp) = 32 * unat mp"
  unfolding irt_layout_meta_size_def by (subst unat_mult_small) simp_all

lemma off_index_nat:
  assumes "unat mp \<le> 2 ^ 24"
  shows "unat (irt_layout_off_index mp) = 128 + 128 * unat mp"
proof -
  have "unat ((ucast mp :: u64) * 128) = 128 * unat mp"
    using assms by (subst unat_mult_small) simp_all
  moreover from this have "unat (ucast ((ucast mp :: u64) * 128) :: u32) = 128 * unat mp"
    using assms by (subst unat_ucast_u64_u32_small) simp_all
  ultimately show ?thesis
    unfolding irt_layout_off_index_def irt_layout_off_points_def
    using assms by (subst unat_add_small) simp_all
qed

lemma off_meta_nat:
  assumes "unat mp \<le> 2 ^ 24"
  shows "unat (irt_layout_off_meta mp) = 128 + 128 * unat mp + 8 * unat (irt_layout_buckets mp)"
proof -
  have "unat (ucast (irt_layout_index_size mp) :: u32) = 8 * unat (irt_layout_buckets mp)"
    using assms index_size_small [OF assms] by (subst unat_ucast_u64_u32_small) simp_all
  then show ?thesis
    unfolding irt_layout_off_meta_def
    using assms off_index_nat [OF assms] index_size_small [OF assms]
    by (subst unat_add_small) simp_all
qed

lemma off_subs_nat:
  assumes "unat mp \<le> 2 ^ 24"
  shows "unat (irt_layout_off_subs mp) =
    128 + 160 * unat mp + 8 * unat (irt_layout_buckets mp)"
proof -
  have "unat (ucast (irt_layout_meta_size mp) :: u32) = 32 * unat mp"
    using assms meta_size_small [OF assms] by (subst unat_ucast_u64_u32_small) simp_all
  then show ?thesis
    unfolding irt_layout_off_subs_def
    using assms off_meta_nat [OF assms] index_size_small [OF assms]
    by (subst unat_add_small) simp_all
qed

lemma total_size_nat:
  assumes "unat mp \<le> 2 ^ 24"
  shows "unat (irt_shm_total_size mp ms) =
    128 + 160 * unat mp + 8 * unat (irt_layout_buckets mp) + 16 * unat ms"
proof -
  have ms: "unat ms < 2 ^ 32" using unsigned_less [of ms] by simp
  have a: "unat ((ucast mp :: u64) * 128) = 128 * unat mp"
    using assms by (subst unat_mult_small) simp_all
  have b: "unat ((ucast ms :: u64) * 16) = 16 * unat ms"
    using ms by (subst unat_mult_small) simp_all
  have c: "unat (128 + ucast mp * 128 :: u64) = 128 + 128 * unat mp"
    using assms a by (subst unat_add_small64) simp_all
  have d: "unat (128 + ucast mp * 128 + irt_layout_index_size mp) =
      128 + 128 * unat mp + 8 * unat (irt_layout_buckets mp)"
    using assms c index_size_small [OF assms] by (subst unat_add_small64) simp_all
  have e: "unat (128 + ucast mp * 128 + irt_layout_index_size mp + irt_layout_meta_size mp) =
      128 + 160 * unat mp + 8 * unat (irt_layout_buckets mp)"
    using assms d index_size_small [OF assms] meta_size_small [OF assms]
    by (subst unat_add_small64) simp_all
  show ?thesis
    unfolding irt_shm_total_size_def
    using assms ms b e index_size_small [OF assms] by (subst unat_add_small64) simp_all
qed

lemma buckets_mult8: "32 dvd 8 * unat (irt_layout_buckets mp)"
proof -
  obtain k where "3 \<le> k" "unat (irt_layout_buckets mp) = 2 ^ k"
    by (rule buckets_pow2 [of mp])
  moreover have "(8::nat) dvd 2 ^ k" if "3 \<le> k" using le_imp_power_dvd [OF that, of "2::nat"] by simp
  ultimately obtain m where "unat (irt_layout_buckets mp) = 8 * m" by (metis dvdE)
  then show ?thesis by simp
qed

text \<open>
  For every number of points up to \<open>2 ^ 24\<close> the offsets that the owner writes into the
  header place the five regions one after the other with no overlap and no wrap-around of the
  32-bit arithmetic: header, points of 128 bytes, a power-of-two number of 8-byte index slots
  that is at least twice the number of points, metadata of 32 bytes, subscriber entries of 16
  bytes up to the mapped size; and the metadata region is 32-byte aligned.
\<close>

theorem layout_regions_disjoint:
  assumes "unat mp \<le> 2 ^ 24"
  shows "unat irt_layout_off_points = 128
    \<and> unat (irt_layout_off_index mp) = unat irt_layout_off_points + 128 * unat mp
    \<and> unat (irt_layout_off_meta mp) =
        unat (irt_layout_off_index mp) + 8 * unat (irt_layout_buckets mp)
    \<and> unat (irt_layout_off_subs mp) = unat (irt_layout_off_meta mp) + 32 * unat mp
    \<and> unat (irt_shm_total_size mp ms) = unat (irt_layout_off_subs mp) + 16 * unat ms
    \<and> 2 * unat mp \<le> unat (irt_layout_buckets mp)
    \<and> (\<exists>k \<le> 31. unat (irt_layout_buckets mp) = 2 ^ k)
    \<and> unat (irt_layout_off_meta mp) mod 32 = 0"
proof -
  have "2 * unat mp \<le> unat (irt_layout_buckets mp)"
    using assms by (intro buckets_ge) simp
  moreover have "\<exists>k \<le> 31. unat (irt_layout_buckets mp) = 2 ^ k"
    by (rule buckets_pow2 [of mp]) blast
  moreover have "32 dvd (128 + 128 * unat mp + 8 * unat (irt_layout_buckets mp))"
    by (intro dvd_add buckets_mult8) simp_all
  ultimately show ?thesis
    using assms
    by (simp add: off_index_nat off_meta_nat off_subs_nat total_size_nat irt_layout_off_points_def
        mod_eq_0_iff_dvd)
qed

theorem layout_regions_disjoint_witness:
  "unat (irt_layout_off_index 512) = 128 + 128 * 512
    \<and> unat (irt_layout_off_subs 512) = unat (irt_layout_off_meta 512) + 32 * 512"
  using layout_regions_disjoint [of 512 16] by (simp add: irt_layout_off_points_def)

text \<open>
  The arithmetic has no guard: for \<open>2 ^ 25\<close> points the 32-bit offset of the index wraps
  around to that of the points, so the two regions coincide.
\<close>

theorem layout_wraps_at_2_25:
  "irt_layout_off_index 0x2000000 = irt_layout_off_points"
  by (simp add: irt_layout_off_index_def irt_layout_off_points_def)

section \<open>The header checksum\<close>

definition crc32_bit :: "u32 \<Rightarrow> u32" where
  "crc32_bit crc = (if crc AND 1 \<noteq> 0 then drop_bit 1 crc XOR 0xEDB88320 else drop_bit 1 crc)"

definition crc32_byte :: "u32 \<Rightarrow> u32" where
  "crc32_byte crc = (crc32_bit ^^ 8) crc"

fun irt_crc32_update :: "u32 \<Rightarrow> u8 list \<Rightarrow> u32" where
  "irt_crc32_update crc [] = crc"
| "irt_crc32_update crc (b # bs) = irt_crc32_update (crc32_byte (crc XOR ucast b)) bs"

text \<open>The little-endian bytes of a header field, as the program sees it through \<open>uint8_t *\<close>.\<close>

definition le32 :: "u32 \<Rightarrow> u8 list" where
  "le32 w = [ucast w, ucast (drop_bit 8 w), ucast (drop_bit 16 w), ucast (drop_bit 24 w)]"

text \<open>Bytes 0 to 15 and 48 to 71 of the header.\<close>

definition header_ident_fields :: "'a irt_header_scheme \<Rightarrow> u32 list" where
  "header_ident_fields h = [magic h, version h, max_points h, max_subscribers h]"

definition header_layout_fields :: "'a irt_header_scheme \<Rightarrow> u32 list" where
  "header_layout_fields h =
     [hdr_flags h, reserved_scan h, off_points h, off_index h, off_meta h, off_subs h]"

definition irt_header_crc32_of :: "'a irt_header_scheme \<Rightarrow> u32" where
  "irt_header_crc32_of h =
     (let crc = irt_crc32_update 0xFFFFFFFF (concat (map le32 (header_ident_fields h)));
          crc = irt_crc32_update crc (concat (map le32 (header_layout_fields h)))
      in crc XOR 0xFFFFFFFF)"

definition irt_header_seal :: "'a irt_header_scheme \<Rightarrow> 'a irt_header_scheme" where
  "irt_header_seal h = (let h = h\<lparr>hdr_crc32 := 0\<rparr> in h\<lparr>hdr_crc32 := irt_header_crc32_of h\<rparr>)"

definition irt_header_verify :: "'a irt_header_scheme \<Rightarrow> bool" where
  "irt_header_verify h \<longleftrightarrow> magic h = IRT_MAGIC \<and> irt_header_crc32_of h = hdr_crc32 h"

subsection \<open>The register is linear and loses no information\<close>

lemma crc32_bit_alt:
  "crc32_bit x = drop_bit 1 x XOR (if bit x 0 then 0xEDB88320 else 0)"
  by (simp add: crc32_bit_def and_one_eq bit_0 mod2_eq_if)

lemma crc32_bit_xor: "crc32_bit (x XOR y) = crc32_bit x XOR crc32_bit y"
  by (auto simp: crc32_bit_alt bit_xor_iff drop_bit_xor ac_simps)

lemma xor_left_cancel32: "(c :: u32) XOR z = c' XOR z \<longleftrightarrow> c = c'"
  by (metis xor.assoc xor.right_neutral xor_self_eq)

lemma crc32_bit_inj: "crc32_bit x = crc32_bit y \<longleftrightarrow> x = y"
proof
  assume eq: "crc32_bit x = crc32_bit y"
  have top: "bit (crc32_bit z) 31 \<longleftrightarrow> bit z 0" for z :: u32
    using bit_imp_le_length [of z 32] by (auto simp: crc32_bit_alt bit_simps)
  have par: "bit x 0 \<longleftrightarrow> bit y 0" using top [of x] top [of y] eq by simp
  then have "drop_bit 1 x = drop_bit 1 y" using eq by (auto simp: crc32_bit_alt xor_left_cancel32 split: if_splits)
  then have "bit x (Suc n) = bit y (Suc n)" for n
    by (metis bit_drop_bit_eq comp_apply plus_1_eq_Suc)
  then have "bit x n = bit y n" for n using par by (cases n) simp_all
  then show "x = y" by (simp add: bit_eq_iff)
qed simp

lemma crc32_byte_inj: "crc32_byte x = crc32_byte y \<longleftrightarrow> x = y"
proof -
  have "(crc32_bit ^^ n) x = (crc32_bit ^^ n) y \<longleftrightarrow> x = y" for n
    by (induction n) (simp_all add: crc32_bit_inj)
  then show ?thesis by (simp only: crc32_byte_def)
qed

lemma crc32_byte_xor: "crc32_byte (x XOR y) = crc32_byte x XOR crc32_byte y"
proof -
  have "(crc32_bit ^^ n) (x XOR y) = (crc32_bit ^^ n) x XOR (crc32_bit ^^ n) y" for n
    by (induction n) (simp_all add: crc32_bit_xor)
  then show ?thesis by (simp only: crc32_byte_def)
qed

lemma crc32_update_inj: "irt_crc32_update c bs = irt_crc32_update c' bs \<longleftrightarrow> c = c'"
  by (induction bs arbitrary: c c') (simp_all add: crc32_byte_inj xor_left_cancel32)

lemma crc32_update_append: "irt_crc32_update c (xs @ ys) = irt_crc32_update (irt_crc32_update c xs) ys"
  by (induction xs arbitrary: c) simp_all

lemma crc32_bits_low_zero:
  "(\<And>i. i < n \<Longrightarrow> \<not> bit z i) \<Longrightarrow> (crc32_bit ^^ n) z = drop_bit n z"
proof (induction n)
  case (Suc n)
  then have "(crc32_bit ^^ Suc n) z = crc32_bit (drop_bit n z)" by simp
  also have "\<dots> = drop_bit 1 (drop_bit n z)"
    using Suc.prems [of n] by (simp add: crc32_bit_alt bit_drop_bit_eq)
  finally show ?case by simp
qed simp

text \<open>One byte of the register: the low byte is folded in, the rest moves down.\<close>

lemma crc32_byte_split:
  "crc32_byte (x XOR w) = crc32_byte (x XOR ucast (ucast w :: u8)) XOR drop_bit 8 w"
proof -
  let ?hi = "push_bit 8 (drop_bit 8 w)"
  have "w = ucast (ucast w :: u8) XOR ?hi"
    by (rule bit_word_eqI) (auto simp: bit_simps)
  then have "crc32_byte (x XOR w) = crc32_byte (x XOR ucast (ucast w :: u8)) XOR crc32_byte ?hi"
    by (metis crc32_byte_xor xor.assoc)
  moreover have "crc32_byte ?hi = drop_bit 8 ?hi"
    unfolding crc32_byte_def by (rule crc32_bits_low_zero) (simp add: bit_simps)
  moreover have "drop_bit 8 ?hi = drop_bit 8 w"
    by (rule bit_word_eqI) (auto simp: bit_simps dest: bit_imp_le_length)
  ultimately show ?thesis by simp
qed

lemma crc32_update_le32:
  "irt_crc32_update c (le32 w) = crc32_byte (crc32_byte (crc32_byte (crc32_byte (c XOR w))))"
proof -
  have "drop_bit 8 (drop_bit 24 w) = 0"
    by (rule bit_word_eqI) (auto simp: bit_simps dest: bit_imp_le_length)
  then show ?thesis
    by (simp add: le32_def crc32_byte_split [of _ w] crc32_byte_split [of _ "drop_bit 8 w"]
        crc32_byte_split [of _ "drop_bit 16 w"] crc32_byte_split [of _ "drop_bit 24 w"])
qed

lemma crc32_update_le32_inj:
  "irt_crc32_update c (le32 w) = irt_crc32_update c (le32 w') \<longleftrightarrow> w = w'"
  by (simp add: crc32_update_le32 crc32_byte_inj xor_left_cancel32 xor.commute [of c])

lemma crc32_one_field:
  assumes "i < length ws" and "w \<noteq> ws ! i"
  shows "irt_crc32_update c (concat (map le32 (ws[i := w]))) \<noteq> irt_crc32_update c (concat (map le32 ws))"
proof -
  have split: "concat (map le32 us) = concat (map le32 (take i us)) @ le32 (us ! i) @ concat (map le32 (drop (Suc i) us))"
    if "length us = length ws" for us
    using assms(1) that by (subst id_take_nth_drop [of i us]) simp_all
  show ?thesis
    using assms
    by (simp add: split crc32_update_append crc32_update_inj crc32_update_le32_inj)
qed

definition header_fields :: "'a irt_header_scheme \<Rightarrow> u32 list" where
  "header_fields h = header_ident_fields h @ header_layout_fields h"

lemma header_crc_fields:
  "irt_header_crc32_of h = irt_crc32_update 0xFFFFFFFF (concat (map le32 (header_fields h))) XOR 0xFFFFFFFF"
  by (simp add: irt_header_crc32_of_def Let_def header_fields_def crc32_update_append)

lemma header_crc_cong: "header_fields h = header_fields h' \<Longrightarrow> irt_header_crc32_of h = irt_header_crc32_of h'"
  by (simp add: header_crc_fields)

lemma seal_verifies_volatile:
  "magic h = IRT_MAGIC \<Longrightarrow> irt_header_verify ((irt_header_seal h)
      \<lparr>write_seq := a, owner_pid := b, st_writes := c, st_timeouts := d, index_count := e,
       scan_skipped := f\<rparr>)"
  by (auto simp: irt_header_verify_def irt_header_seal_def Let_def header_fields_def
      header_ident_fields_def header_layout_fields_def intro!: header_crc_cong)

definition zero_header :: irt_header where
  "zero_header = \<lparr>magic = 0, version = 0, max_points = 0, max_subscribers = 0, write_seq = 0,
     owner_pid = 0, st_writes = 0, st_timeouts = 0, hdr_crc32 = 0, hdr_flags = 0,
     reserved_scan = 0, off_points = 0, off_index = 0, off_meta = 0, off_subs = 0,
     index_count = 0, scan_skipped = 0\<rparr>"

text \<open>
  A sealed header with the right magic number verifies, and keeps verifying whatever happens
  to the fields that change at run time (sequence number, owner, statistics, index count, skipped
  scans).
\<close>

theorem seal_verifies:
  assumes "magic h = IRT_MAGIC"
  shows "irt_header_verify ((irt_header_seal h)
      \<lparr>write_seq := a, owner_pid := b, st_writes := c, st_timeouts := d, index_count := e,
       scan_skipped := f\<rparr>)"
  using assms by (rule seal_verifies_volatile)

theorem seal_verifies_witness:
  "irt_header_verify ((irt_header_seal (zero_header\<lparr>magic := IRT_MAGIC, off_points := 128\<rparr>))
      \<lparr>write_seq := 8, owner_pid := 77, st_writes := 3, st_timeouts := 1, index_count := 5,
       scan_skipped := 2\<rparr>)"
  by (rule seal_verifies) simp

text \<open>
  C36. The checksum detects every corruption confined to one of the ten 32-bit fields it covers:
  if a header verifies and another one carries the same stored checksum but differs from it in
  exactly one covered field, the other one does not verify.
\<close>

theorem verify_detects_field_corruption:
  assumes "irt_header_verify h"
    and "i < 10" and "header_fields h' = (header_fields h)[i := w]" and "w \<noteq> header_fields h ! i"
    and "hdr_crc32 h' = hdr_crc32 h"
  shows "\<not> irt_header_verify h'"
proof -
  have "length (header_fields h) = 10"
    by (simp add: header_fields_def header_ident_fields_def header_layout_fields_def)
  then have "irt_header_crc32_of h' \<noteq> irt_header_crc32_of h"
    using crc32_one_field [of i "header_fields h" w] assms(2-4)
    by (simp add: header_crc_fields xor_left_cancel32)
  then show ?thesis using assms(1,5) by (simp add: irt_header_verify_def)
qed

theorem verify_detects_field_corruption_witness:
  "\<not> irt_header_verify ((irt_header_seal (zero_header\<lparr>magic := IRT_MAGIC, off_index := 1152\<rparr>))
      \<lparr>off_index := 1024\<rparr>)"
  by (rule verify_detects_field_corruption
        [where h = "irt_header_seal (zero_header\<lparr>magic := IRT_MAGIC, off_index := 1152\<rparr>)"
          and i = 7 and w = 1024])
     (use seal_verifies_volatile [of "zero_header\<lparr>magic := IRT_MAGIC, off_index := 1152\<rparr>"] in
      \<open>auto simp: irt_header_verify_def irt_header_seal_def Let_def header_fields_def
        header_ident_fields_def header_layout_fields_def zero_header_def irt_header_crc32_of_def\<close>)

section \<open>The sequence lock as one process sees it\<close>

text \<open>
  \<open>irt_seqlock_write_begin\<close> returns the even number it found when it takes the lock and an odd
  number when the lock is held; the theory \<^verbatim>\<open>Seqlock\<close> has the interleavings of its loads,
  compare-and-swaps and stores with those of other processes. Under the lock the other processes do not touch
  the regions, so the operations between the two calls are plain state transformers.
\<close>

definition irt_seqlock_write_begin :: "shm \<Rightarrow> u64 \<times> shm" where
  "irt_seqlock_write_begin s =
     (let contended = (case lock_env s of [] \<Rightarrow> False | b # _ \<Rightarrow> b);
          s = s\<lparr>lock_env := tl (lock_env s)\<rparr>
      in if contended \<or> write_seq s AND 1 \<noteq> 0 then (write_seq s OR 1, s)
         else (write_seq s, s\<lparr>write_seq := write_seq s + 1\<rparr>))"

definition irt_seqlock_write_end :: "shm \<Rightarrow> u64 \<Rightarrow> shm" where
  "irt_seqlock_write_end s seq0 = s\<lparr>write_seq := seq0 + 2\<rparr>"

text \<open>
  The bounded optimistic read (\<open>for (attempt = 0; attempt < 16; ++attempt)\<close>): an attempt is
  stable when the sequence number is even and a writer has not moved it during the copy, which
  happens to the first \<open>d\<close> attempts.
\<close>

definition stable_window :: "shm \<Rightarrow> nat \<Rightarrow> bool" where
  "stable_window s d \<longleftrightarrow>
     list_ex (\<lambda>attempt. write_seq s AND 1 = 0 \<and> d \<le> attempt) [0..<16]"

lemma stable_window_iff: "stable_window s d \<longleftrightarrow> write_seq s AND 1 = 0 \<and> d < 16"
  by (auto simp: stable_window_def list_ex_iff intro: exI [of _ 15])

lemma or_one_odd: "((x :: u64) OR 1) AND 1 \<noteq> 0"
proof -
  have "(x OR 1) AND 1 = 1" by (rule bit_word_eqI) (auto simp: bit_simps)
  then show ?thesis by simp
qed

text \<open>The two outcomes of a lock attempt.\<close>

definition lock_free :: "shm \<Rightarrow> bool" where
  "lock_free s \<longleftrightarrow> \<not> (case lock_env s of [] \<Rightarrow> False | b # _ \<Rightarrow> b) \<and> write_seq s AND 1 = 0"

lemma write_begin_free:
  "lock_free s \<Longrightarrow> irt_seqlock_write_begin s =
     (write_seq s, s\<lparr>lock_env := tl (lock_env s), write_seq := write_seq s + 1\<rparr>)"
  by (simp add: irt_seqlock_write_begin_def lock_free_def Let_def)

lemma write_begin_busy:
  "\<not> lock_free s \<Longrightarrow> irt_seqlock_write_begin s =
     (write_seq s OR 1, s\<lparr>lock_env := tl (lock_env s)\<rparr>)"
  by (auto simp: irt_seqlock_write_begin_def lock_free_def Let_def)

lemma add_two_even: "(x :: u64) AND 1 = 0 \<Longrightarrow> (x + 2) AND 1 = 0"
  by (simp add: and_one_eq mod2_eq_if)

lemma lock_free_even: "lock_free s \<Longrightarrow> write_seq s AND 1 = 0"
  by (simp add: lock_free_def)

section \<open>Metadata\<close>

definition irt_meta_set :: "shm \<Rightarrow> u32 \<Rightarrow> meta \<Rightarrow> int \<times> shm" where
  "irt_meta_set s pid m =
     (if s_max_points s \<le> pid then (INDURTDB_ERR_ARG, s)
      else if off_meta s = 0 then (INDURTDB_ERR_ARG, s)
      else let (seq0, s) = irt_seqlock_write_begin s
           in if seq0 AND 1 \<noteq> 0 then (INDURTDB_ERR_BUSY, s)
              else let s = s\<lparr>metas := (metas s)[unat pid := m]\<rparr>
                   in (0, irt_seqlock_write_end s seq0))"

definition irt_meta_get :: "shm \<Rightarrow> nat \<Rightarrow> u32 \<Rightarrow> int \<times> meta option" where
  "irt_meta_get s d pid =
     (if s_max_points s \<le> pid then (INDURTDB_ERR_ARG, None)
      else if off_meta s = 0 then (INDURTDB_ERR_ARG, None)
      else if stable_window s d then (0, Some (metas s ! unat pid))
      else (INDURTDB_ERR_BUSY, None))"

section \<open>Well-formed handles\<close>

text \<open>
  A handle whose regions have the sizes that the creator of the segment gave them and whose
  bounds are those of the segment.
\<close>

definition shm_wf :: "shm \<Rightarrow> bool" where
  "shm_wf s \<longleftrightarrow>
     s_max_points s = max_points s \<and> s_max_subscribers s = max_subscribers s \<and>
     0 < max_points s \<and> unat (max_points s) \<le> 2 ^ 24 \<and>
     off_points s \<noteq> 0 \<and> off_index s \<noteq> 0 \<and> off_meta s \<noteq> 0 \<and> off_subs s \<noteq> 0 \<and>
     length (points s) = unat (max_points s) \<and>
     length (metas s) = unat (max_points s) \<and>
     length (slots s) = unat (irt_layout_buckets (max_points s)) \<and>
     length (subs s) = unat (max_subscribers s)"

lemma shm_wf_bound: "shm_wf s \<Longrightarrow> pid < max_points s \<longleftrightarrow> unat pid < length (points s)"
  by (simp add: shm_wf_def word_less_nat_alt)

lemma irt_meta_set_cases:
  obtains (arg) "s_max_points s \<le> pid \<or> off_meta s = 0" "irt_meta_set s pid m = (INDURTDB_ERR_ARG, s)"
  | (busy) "pid < s_max_points s" "off_meta s \<noteq> 0" "\<not> lock_free s"
      "irt_meta_set s pid m = (INDURTDB_ERR_BUSY, s\<lparr>lock_env := tl (lock_env s)\<rparr>)"
  | (ok) "pid < s_max_points s" "off_meta s \<noteq> 0" "lock_free s"
      "irt_meta_set s pid m = (0, s\<lparr>lock_env := tl (lock_env s), write_seq := write_seq s + 2,
         metas := (metas s)[unat pid := m]\<rparr>)"
proof (cases "s_max_points s \<le> pid \<or> off_meta s = 0")
  case True
  then show ?thesis by (intro arg) (auto simp: irt_meta_set_def)
next
  case False
  show ?thesis
  proof (cases "lock_free s")
    case True
    then show ?thesis
      using False lock_free_even [OF True]
      by (intro ok) (auto simp: irt_meta_set_def write_begin_free irt_seqlock_write_end_def Let_def)
  next
    case busy': False
    then show ?thesis
      using False or_one_odd [of "write_seq s"]
      by (intro busy) (auto simp: irt_meta_set_def write_begin_busy Let_def)
  qed
qed

lemma irt_meta_set_wf: "shm_wf s \<Longrightarrow> shm_wf (snd (irt_meta_set s pid m))"
  by (cases rule: irt_meta_set_cases [of s pid m]) (auto simp: shm_wf_def)

text \<open>
  Metadata written under a free lock is what an undisturbed bounded read returns for that
  point, the metadata of every other point is unchanged, and a lock conflict or an id outside the
  handle changes no metadata.
\<close>

theorem meta_set_get:
  assumes "shm_wf s" and "irt_meta_set s pid m = (rc, s')"
  shows "(rc = 0 \<longrightarrow> (\<forall>d < 16. irt_meta_get s' d pid = (0, Some m)))
    \<and> (\<forall>j. j \<noteq> pid \<longrightarrow> metas s' ! unat j = metas s ! unat j)
    \<and> (rc \<noteq> 0 \<longrightarrow> metas s' = metas s)
    \<and> (rc = 0 \<longleftrightarrow> pid < max_points s \<and> lock_free s)"
  using assms(2)
proof (cases rule: irt_meta_set_cases [of s pid m])
  case ok
  then have "unat pid < length (metas s)"
    using assms(1) by (simp add: shm_wf_def word_less_nat_alt)
  then show ?thesis
    using ok assms lock_free_even [OF ok(3)]
    by (auto simp: irt_meta_get_def stable_window_iff add_two_even shm_wf_def not_le)
qed (use assms in \<open>auto simp: irt_codes shm_wf_def\<close>)

theorem meta_set_get_witness:
  "(let s = \<lparr>magic = IRT_MAGIC, version = 3, max_points = 2, max_subscribers = 0, write_seq = 6,
       owner_pid = 1, st_writes = 0, st_timeouts = 0, hdr_crc32 = 0, hdr_flags = 0,
       reserved_scan = 0, off_points = 128, off_index = 384, off_meta = 448, off_subs = 512,
       index_count = 0, scan_skipped = 0, points = [zero_point, zero_point],
       slots = replicate (unat (irt_layout_buckets 2)) \<lparr>sl_hash = 0, sl_pid = 0\<rparr>,
       metas = [zero_meta, zero_meta], subs = [], s_max_points = 2, s_max_subscribers = 0,
       lock_env = []\<rparr>;
        m = zero_meta\<lparr>deadband := 7\<rparr>
    in \<forall>d < 16. irt_meta_get (snd (irt_meta_set s 1 m)) d 1 = (0, Some m))"
proof -
  let ?s = "\<lparr>magic = IRT_MAGIC, version = 3, max_points = 2, max_subscribers = 0, write_seq = 6,
       owner_pid = 1, st_writes = 0, st_timeouts = 0, hdr_crc32 = 0, hdr_flags = 0,
       reserved_scan = 0, off_points = 128, off_index = 384, off_meta = 448, off_subs = 512,
       index_count = 0, scan_skipped = 0, points = [zero_point, zero_point],
       slots = replicate (unat (irt_layout_buckets 2)) \<lparr>sl_hash = 0, sl_pid = 0\<rparr>,
       metas = [zero_meta, zero_meta], subs = [], s_max_points = 2, s_max_subscribers = 0,
       lock_env = []\<rparr> :: shm"
  let ?m = "zero_meta\<lparr>deadband := 7\<rparr>"
  have wf: "shm_wf ?s" by (simp add: shm_wf_def)
  have rc: "fst (irt_meta_set ?s 1 ?m) = 0"
    by (simp add: irt_meta_set_def irt_seqlock_write_begin_def and_one_eq mod2_eq_if Let_def word_le_nat_alt)
  show ?thesis
    unfolding Let_def
    using meta_set_get [OF wf surjective_pairing, of 1 ?m] rc by blast
qed

end
