(* ===== verification/Name_Index.thy ===== *)
theory Name_Index
  imports Shm
begin

text \<open>
  The open-addressing name index of \<^verbatim>\<open>src/core/irt_index.c\<close>: hashes of (partition, name), the
  probe loops of insertion, removal and lookup, tombstones, and the table invariant. The array
  facts (probe chains survive insertions and tombstones) are proved for an arbitrary match
  predicate; the second half instantiates them with the program's match on the point table.
\<close>

section \<open>Hashes\<close>

definition fnv_mix :: "u32 \<Rightarrow> u32 \<Rightarrow> u32" where
  "fnv_mix h b = (h XOR b) * 0x01000193"

definition irt_hash_fnv1a32 :: "string \<Rightarrow> u32" where
  "irt_hash_fnv1a32 s = fold (\<lambda>c h. fnv_mix h (of_char c)) s 0x811C9DC5"

definition irt_index_compose_hash :: "u32 \<Rightarrow> string \<Rightarrow> u32" where
  "irt_index_compose_hash part name =
     (let h = fold (\<lambda>i h. fnv_mix h (drop_bit (8 * i) part AND 0xFF)) [0..<4] 0x811C9DC5;
          h = fold (\<lambda>c h. fnv_mix h (of_char c)) name h;
          h = h XOR drop_bit 16 h;
          h = h * 0x01000193;
          h = h XOR drop_bit 13 h;
          h = h * 0x01000193
      in h)"

section \<open>The table\<close>

definition IRT_INDEX_EMPTY :: u32 where "IRT_INDEX_EMPTY = 0xFFFFFFFF"
definition IRT_INDEX_TOMBSTONE :: u32 where "IRT_INDEX_TOMBSTONE = 0xFFFFFFFE"

record irt_index =
  capacity :: u32
  index_mask :: u32

definition irt_index_capacity_for :: "u32 \<Rightarrow> u32" where
  "irt_index_capacity_for mp = irt_layout_buckets mp"

definition irt_index_bind :: "shm \<Rightarrow> int + irt_index" where
  "irt_index_bind s =
     (if off_index s = 0 then Inl INDURTDB_ERR_ARG
      else let cap = irt_layout_buckets (s_max_points s)
           in Inr \<lparr>capacity = cap, index_mask = cap - 1\<rparr>)"

definition irt_index_clear :: "shm \<Rightarrow> shm" where
  "irt_index_clear s =
     (case irt_index_bind s of
        Inl _ \<Rightarrow> s
      | Inr ix \<Rightarrow>
          s\<lparr>slots := replicate (unat (capacity ix)) \<lparr>sl_hash = 0xFFFFFFFF, sl_pid = 0xFFFFFFFF\<rparr>
               @ drop (unat (capacity ix)) (slots s),
            index_count := 0\<rparr>)"

definition irt_index_slot_matches ::
  "u32 \<Rightarrow> u32 \<Rightarrow> point list \<Rightarrow> u32 \<Rightarrow> u32 \<Rightarrow> string \<Rightarrow> bool" where
  "irt_index_slot_matches slot_hash slot_pid pts h part name =
     (if slot_hash \<noteq> h then False
      else if slot_pid = IRT_INDEX_EMPTY \<or> slot_pid = IRT_INDEX_TOMBSTONE then False
      else if partition (pts ! unat slot_pid) \<noteq> part then False
      else strncmp_eq 63 (pt_name (pts ! unat slot_pid)) name)"

text \<open>The slots that a probe loop visits, in order: \<open>(home + d) & mask\<close> for \<open>d\<close> below the capacity.\<close>

definition probe_seq :: "irt_index \<Rightarrow> u32 \<Rightarrow> nat list" where
  "probe_seq ix h =
     (let home = h AND index_mask ix
      in map (\<lambda>d. unat ((home + word_of_nat d) AND index_mask ix)) [0..<unat (capacity ix)])"

text \<open>The loop that lookup and removal share, with the match test as a parameter.\<close>

fun index_scan :: "(slot \<Rightarrow> bool) \<Rightarrow> slot list \<Rightarrow> nat list \<Rightarrow> nat option" where
  "index_scan m sls [] = None"
| "index_scan m sls (i # is) =
     (if sl_pid (sls ! i) = IRT_INDEX_EMPTY then None
      else if sl_pid (sls ! i) = IRT_INDEX_TOMBSTONE then index_scan m sls is
      else if m (sls ! i) then Some i
      else index_scan m sls is)"

datatype insert_dest = Place nat | Update nat | Exhausted

text \<open>The loop of the insertion; \<open>tomb\<close> is the first tombstone seen.\<close>

fun insert_scan :: "(slot \<Rightarrow> bool) \<Rightarrow> slot list \<Rightarrow> nat option \<Rightarrow> nat list \<Rightarrow> insert_dest" where
  "insert_scan m sls tomb [] = (case tomb of Some t \<Rightarrow> Place t | None \<Rightarrow> Exhausted)"
| "insert_scan m sls tomb (i # is) =
     (if sl_pid (sls ! i) = IRT_INDEX_EMPTY then
        Place (case tomb of Some t \<Rightarrow> t | None \<Rightarrow> i)
      else if sl_pid (sls ! i) = IRT_INDEX_TOMBSTONE then
        insert_scan m sls (if tomb = None then Some i else tomb) is
      else if m (sls ! i) then Update i
      else insert_scan m sls tomb is)"

definition slot_match :: "point list \<Rightarrow> u32 \<Rightarrow> u32 \<Rightarrow> string \<Rightarrow> slot \<Rightarrow> bool" where
  "slot_match pts h part name sl = irt_index_slot_matches (sl_hash sl) (sl_pid sl) pts h part name"

definition irt_index_insert_locked :: "shm \<Rightarrow> u32 \<Rightarrow> string \<Rightarrow> u32 \<Rightarrow> int \<times> shm" where
  "irt_index_insert_locked s part name pid =
     (if name = [] then (INDURTDB_ERR_ARG, s)
      else case irt_index_bind s of
        Inl rc \<Rightarrow> (rc, s)
      | Inr ix \<Rightarrow>
          if off_points s = 0 \<or> s_max_points s \<le> pid then (INDURTDB_ERR_ARG, s)
          else
            let pts = (points s)[unat pid := (points s ! unat pid)\<lparr>partition := part\<rparr>];
                s = s\<lparr>points := pts\<rparr>;
                h = irt_index_compose_hash part name
            in case insert_scan (slot_match pts h part name) (slots s) None (probe_seq ix h) of
                 Place i \<Rightarrow>
                   (0, s\<lparr>slots := (slots s)[i := \<lparr>sl_hash = h, sl_pid = pid\<rparr>],
                         index_count := index_count s + 1\<rparr>)
               | Update i \<Rightarrow> (0, s\<lparr>slots := (slots s)[i := (slots s ! i)\<lparr>sl_pid := pid\<rparr>]\<rparr>)
               | Exhausted \<Rightarrow> (INDURTDB_ERR_FULL, s))"

definition irt_index_remove_locked :: "shm \<Rightarrow> u32 \<Rightarrow> string \<Rightarrow> int \<times> shm" where
  "irt_index_remove_locked s part name =
     (if name = [] then (INDURTDB_ERR_ARG, s)
      else case irt_index_bind s of
        Inl rc \<Rightarrow> (rc, s)
      | Inr ix \<Rightarrow>
          if off_points s = 0 then (INDURTDB_ERR_ARG, s)
          else
            let h = irt_index_compose_hash part name
            in case index_scan (slot_match (points s) h part name) (slots s) (probe_seq ix h) of
                 None \<Rightarrow> (INDURTDB_ERR_NOT_FOUND, s)
               | Some i \<Rightarrow>
                   (0, s\<lparr>slots := (slots s)[i := (slots s ! i)\<lparr>sl_pid := IRT_INDEX_TOMBSTONE\<rparr>],
                         index_count := (if 0 < index_count s then index_count s - 1
                                         else index_count s)\<rparr>))"

definition irt_index_probe :: "irt_index \<Rightarrow> slot list \<Rightarrow> point list \<Rightarrow> u32 \<Rightarrow> string \<Rightarrow> int \<times> u32 option" where
  "irt_index_probe ix sls pts part name =
     (let h = irt_index_compose_hash part name
      in case index_scan (slot_match pts h part name) sls (probe_seq ix h) of
           None \<Rightarrow> (INDURTDB_ERR_NOT_FOUND, None)
         | Some i \<Rightarrow> (0, Some (sl_pid (sls ! i))))"

definition irt_index_insert :: "shm \<Rightarrow> u32 \<Rightarrow> string \<Rightarrow> u32 \<Rightarrow> int \<times> shm" where
  "irt_index_insert s part name pid =
     (let (seq0, s) = irt_seqlock_write_begin s
      in if seq0 AND 1 \<noteq> 0 then (INDURTDB_ERR_BUSY, s)
         else let (rc, s) = irt_index_insert_locked s part name pid
              in (rc, irt_seqlock_write_end s seq0))"

definition irt_index_remove :: "shm \<Rightarrow> u32 \<Rightarrow> string \<Rightarrow> int \<times> shm" where
  "irt_index_remove s part name =
     (let (seq0, s) = irt_seqlock_write_begin s
      in if seq0 AND 1 \<noteq> 0 then (INDURTDB_ERR_BUSY, s)
         else let (rc, s) = irt_index_remove_locked s part name
              in (rc, irt_seqlock_write_end s seq0))"

definition irt_index_lookup :: "shm \<Rightarrow> nat \<Rightarrow> u32 \<Rightarrow> string \<Rightarrow> int \<times> u32 option" where
  "irt_index_lookup s d part name =
     (if name = [] then (INDURTDB_ERR_ARG, None)
      else case irt_index_bind s of
        Inl rc \<Rightarrow> (rc, None)
      | Inr ix \<Rightarrow>
          if off_points s = 0 then (INDURTDB_ERR_ARG, None)
          else if stable_window s d then irt_index_probe ix (slots s) (points s) part name
          else (INDURTDB_ERR_BUSY, None))"

section \<open>Probe sequences\<close>

lemma unat_and_mask:
  assumes "unat cap = 2 ^ k"
  shows "unat (x AND (cap - 1)) = unat (x :: u32) mod 2 ^ k"
proof -
  have "cap = word_of_nat (unat cap)" by simp
  also have "\<dots> = 2 ^ k" by (simp add: assms)
  finally have "cap = 2 ^ k" .
  then have "cap - 1 = mask k" by (simp add: mask_eq_exp_minus_1)
  then show ?thesis
    by (simp add: unsigned_take_bit_eq flip: take_bit_eq_mask) (simp add: take_bit_eq_mod)
qed

lemma probe_seq_index:
  assumes "unat (capacity ix) = 2 ^ k" "index_mask ix = capacity ix - 1" "d < unat (capacity ix)"
  shows "unat (((h AND index_mask ix) + word_of_nat d) AND index_mask ix) = (unat h + d) mod 2 ^ k"
proof -
  have "k < 32"
    using unsigned_less [of "capacity ix", where ?'a = nat] assms(1)
      power_less_imp_less_exp [of "2 :: nat" k 32] by simp
  then have r: "(2::nat) ^ k dvd 2 ^ 32" by (intro le_imp_power_dvd) simp
  have "d < 2 ^ 32" using assms(3) unsigned_less [of "capacity ix", where ?'a = nat] by simp
  then have "unat ((h AND index_mask ix) + word_of_nat d) = (unat h mod 2 ^ k + d) mod 2 ^ 32"
    by (simp add: unat_word_ariths assms(2) unat_and_mask [OF assms(1)] unat_of_nat)
  then show ?thesis
    unfolding assms(2) unat_and_mask [OF assms(1)]
    using mod_mod_cancel [OF r] by (simp add: mod_add_left_eq assms(2))
qed

lemma probe_seq_set:
  assumes "unat (capacity ix) = 2 ^ k" "index_mask ix = capacity ix - 1"
  shows "set (probe_seq ix h) = {..<unat (capacity ix)}"
proof -
  let ?c = "unat (capacity ix)"
  have "set (probe_seq ix h) = (\<lambda>d. (unat h + d) mod ?c) ` {..<?c}"
    using probe_seq_index [OF assms] by (auto simp: probe_seq_def Let_def assms(1))
  also have "\<dots> = {..<?c}"
  proof (rule card_subset_eq)
    show "(\<lambda>d. (unat h + d) mod ?c) ` {..<?c} \<subseteq> {..<?c}" using assms(1) by auto
    have "inj_on (\<lambda>d. (unat h + d) mod ?c) {..<?c}"
      by (rule inj_onI) (auto intro: mod_add_inj)
    then show "card ((\<lambda>d. (unat h + d) mod ?c) ` {..<?c}) = card {..<?c}" by (rule card_image)
  qed simp
  finally show ?thesis .
qed

section \<open>Probe chains\<close>

definition live :: "slot \<Rightarrow> bool" where
  "live sl \<longleftrightarrow> sl_pid sl \<noteq> IRT_INDEX_EMPTY \<and> sl_pid sl \<noteq> IRT_INDEX_TOMBSTONE"

definition live_slots :: "slot list \<Rightarrow> nat set" where
  "live_slots sls = {i. i < length sls \<and> live (sls ! i)}"

text \<open>Slot \<open>i\<close> is reached by a probe along \<open>is\<close>: no empty slot comes before it.\<close>

fun on_chain :: "slot list \<Rightarrow> nat list \<Rightarrow> nat \<Rightarrow> bool" where
  "on_chain sls [] i = False"
| "on_chain sls (j # is) i = (i = j \<or> sl_pid (sls ! j) \<noteq> IRT_INDEX_EMPTY \<and> on_chain sls is i)"

lemma index_scan_sound:
  "index_scan m sls is = Some i \<Longrightarrow> i \<in> set is \<and> live (sls ! i) \<and> m (sls ! i)"
  by (induction "is") (auto simp: live_def split: if_splits)

lemma index_scan_complete:
  "on_chain sls is i \<Longrightarrow> live (sls ! i) \<Longrightarrow> m (sls ! i) \<Longrightarrow> \<exists>j. index_scan m sls is = Some j"
  by (induction "is") (auto simp: live_def)

lemma insert_scan_place:
  assumes "insert_scan m sls tomb is = Place i"
    and "\<And>t. tomb = Some t \<Longrightarrow> t < length sls \<and> \<not> live (sls ! t)"
    and "set is \<subseteq> {..<length sls}"
  shows "i < length sls \<and> \<not> live (sls ! i) \<and> (on_chain sls is i \<or> tomb = Some i)"
  using assms
proof (induction "is" arbitrary: tomb)
  case (Cons j "is")
  show ?case
  proof (cases "sl_pid (sls ! j) = IRT_INDEX_TOMBSTONE")
    case True
    then have ne: "sl_pid (sls ! j) \<noteq> IRT_INDEX_EMPTY" by (simp add: IRT_INDEX_EMPTY_def IRT_INDEX_TOMBSTONE_def)
    have "insert_scan m sls (if tomb = None then Some j else tomb) is = Place i"
      using Cons.prems(1) True ne by simp
    from Cons.IH [OF this] Cons.prems True ne show ?thesis
      by (auto simp: live_def split: if_splits)
  next
    case False
    then show ?thesis using Cons by (auto simp: live_def split: if_splits option.splits)
  qed
qed (auto split: option.splits)

lemma insert_scan_update:
  "insert_scan m sls tomb is = Update i \<Longrightarrow> i \<in> set is \<and> live (sls ! i) \<and> m (sls ! i)"
  by (induction "is" arbitrary: tomb) (auto simp: live_def split: if_splits option.splits)

lemma insert_scan_update_complete:
  "on_chain sls is i \<Longrightarrow> live (sls ! i) \<Longrightarrow> m (sls ! i) \<Longrightarrow> \<exists>j. insert_scan m sls tomb is = Update j"
  by (induction "is" arbitrary: tomb) (auto simp: live_def)

lemma insert_scan_exhausted:
  "insert_scan m sls tomb is = Exhausted \<Longrightarrow> tomb = None \<and> (\<forall>i \<in> set is. live (sls ! i))"
  by (induction "is" arbitrary: tomb) (auto simp: live_def split: if_splits option.splits)

text \<open>
  Filling a slot that was not live, or a tombstone in place of a live slot, never empties a slot,
  so every chain survives.
\<close>

lemma nonempty_update:
  "sl_pid v \<noteq> IRT_INDEX_EMPTY \<Longrightarrow> sl_pid (sls ! k) \<noteq> IRT_INDEX_EMPTY
    \<Longrightarrow> sl_pid (sls[j := v] ! k) \<noteq> IRT_INDEX_EMPTY"
  by (cases "j < length sls"; cases "k = j") (simp_all add: not_less list_update_beyond)

lemma on_chain_update:
  "on_chain sls is i \<Longrightarrow> sl_pid v \<noteq> IRT_INDEX_EMPTY \<Longrightarrow> on_chain (sls[j := v]) is i"
  by (induction "is") (auto simp: nonempty_update)

lemma live_slots_fill:
  "i < length sls \<Longrightarrow> live v \<Longrightarrow> live_slots (sls[i := v]) = insert i (live_slots sls)"
  by (auto simp: live_slots_def nth_list_update split: if_splits)

lemma live_slots_kill:
  "\<not> live v \<Longrightarrow> live_slots (sls[i := v]) = live_slots sls - {i}"
  by (cases "i < length sls") (auto simp: live_slots_def nth_list_update split: if_splits)

lemma live_slots_finite [simp]: "finite (live_slots sls)"
  by (simp add: live_slots_def)

section \<open>The index of a segment\<close>

definition reg :: "point \<Rightarrow> bool" where
  "reg p \<longleftrightarrow> pt_name p \<noteq> []"

definition pkey :: "point \<Rightarrow> u32 \<times> string" where
  "pkey p = (partition p, pt_name p)"

definition key_hash :: "point \<Rightarrow> u32" where
  "key_hash p = irt_index_compose_hash (partition p) (pt_name p)"

definition reg_ids :: "point list \<Rightarrow> nat set" where
  "reg_ids pts = {i. i < length pts \<and> reg (pts ! i)}"

definition index_of :: "shm \<Rightarrow> irt_index" where
  "index_of s = \<lparr>capacity = irt_layout_buckets (s_max_points s),
     index_mask = irt_layout_buckets (s_max_points s) - 1\<rparr>"

definition slot_id :: "slot list \<Rightarrow> nat \<Rightarrow> nat" where
  "slot_id sls i = unat (sl_pid (sls ! i))"

text \<open>
  The invariant of the point table and its index, except that the points in \<open>S\<close> are registered
  without being indexed (the window between registering a point and indexing it). The live slots
  are in bijection with the indexed points, carry their hashes and are on their probe chains;
  no two registered points share (partition, name); names fit the 63 usable bytes; the header
  counts the live slots.
\<close>

definition index_wf_ex :: "nat set \<Rightarrow> shm \<Rightarrow> bool" where
  "index_wf_ex S s \<longleftrightarrow>
     shm_wf s \<and>
     bij_betw (slot_id (slots s)) (live_slots (slots s)) (reg_ids (points s) - S) \<and>
     (\<forall>i \<in> live_slots (slots s). sl_hash (slots s ! i) = key_hash (points s ! slot_id (slots s) i)) \<and>
     (\<forall>i \<in> live_slots (slots s). on_chain (slots s) (probe_seq (index_of s) (sl_hash (slots s ! i))) i) \<and>
     inj_on (\<lambda>i. pkey (points s ! i)) (reg_ids (points s)) \<and>
     (\<forall>i < length (points s). length (pt_name (points s ! i)) \<le> 63) \<and>
     unat (index_count s) = card (live_slots (slots s))"

definition index_wf :: "shm \<Rightarrow> bool" where
  "index_wf s \<longleftrightarrow> index_wf_ex {} s"

lemma index_wf_ex_parts:
  assumes "index_wf_ex S s"
  shows "bij_betw (slot_id (slots s)) (live_slots (slots s)) (reg_ids (points s) - S)"
    "inj_on (\<lambda>i. pkey (points s ! i)) (reg_ids (points s))"
    "i < length (points s) \<Longrightarrow> length (pt_name (points s ! i)) \<le> 63"
    "unat (index_count s) = card (live_slots (slots s))"
  using assms by (simp_all add: index_wf_ex_def)

lemma index_wf_exD:
  assumes "index_wf_ex S s"
  shows "shm_wf s" "irt_index_bind s = Inr (index_of s)" "off_points s \<noteq> 0"
    "length (points s) \<le> 2 ^ 24"
    "set (probe_seq (index_of s) h) = {..<length (slots s)}"
    "2 * length (points s) \<le> length (slots s)" "0 < length (points s)"
proof -
  show wf: "shm_wf s" using assms by (simp add: index_wf_ex_def)
  then show "irt_index_bind s = Inr (index_of s)" "off_points s \<noteq> 0" "length (points s) \<le> 2 ^ 24"
    by (auto simp: shm_wf_def irt_index_bind_def index_of_def Let_def)
  obtain k where "unat (irt_layout_buckets (max_points s)) = 2 ^ k"
    by (rule buckets_pow2 [of "max_points s"])
  then show "set (probe_seq (index_of s) h) = {..<length (slots s)}"
    using wf by (subst probe_seq_set) (auto simp: index_of_def shm_wf_def)
  show "2 * length (points s) \<le> length (slots s)"
    using wf buckets_ge [of "max_points s"] by (simp add: shm_wf_def)
  show "0 < length (points s)" using wf by (simp add: shm_wf_def word_less_nat_alt)
qed

lemma index_wf_ex_live:
  assumes "index_wf_ex S s" "i \<in> live_slots (slots s)"
  shows "slot_id (slots s) i \<in> reg_ids (points s) - S"
    "sl_hash (slots s ! i) = key_hash (points s ! slot_id (slots s) i)"
    "on_chain (slots s) (probe_seq (index_of s) (sl_hash (slots s ! i))) i"
proof -
  show "slot_id (slots s) i \<in> reg_ids (points s) - S"
    by (rule bij_betw_apply [OF index_wf_ex_parts(1) [OF assms(1)] assms(2)])
qed (use assms in \<open>unfold index_wf_ex_def, blast+\<close>)

lemma index_wf_ex_slot:
  assumes "index_wf_ex S s" "j \<in> reg_ids (points s) - S"
  obtains i where "i \<in> live_slots (slots s)" "slot_id (slots s) i = j"
proof -
  have "j \<in> slot_id (slots s) ` live_slots (slots s)"
    using assms(2) by (simp only: bij_betw_imp_surj_on [OF index_wf_ex_parts(1) [OF assms(1)]])
  then show ?thesis by (elim imageE) (rule that, simp_all)
qed

lemma live_card_less:
  assumes "index_wf_ex S s"
  shows "card (live_slots (slots s)) < length (slots s)"
proof -
  have "card (live_slots (slots s)) = card (reg_ids (points s) - S)"
    by (rule bij_betw_same_card [OF index_wf_ex_parts(1) [OF assms]])
  also have "\<dots> \<le> card {..<length (points s)}"
    by (rule card_mono) (auto simp: reg_ids_def)
  finally show ?thesis using index_wf_exD(6,7) [OF assms] by (simp del: length_greater_0_conv)
qed

text \<open>The program's match on a live slot is equality of the key of the point it refers to.\<close>

lemma slot_match_iff:
  assumes "index_wf_ex S s" "i \<in> live_slots (slots s)" "length name \<le> 63"
  shows "slot_match (points s) (irt_index_compose_hash part name) part name (slots s ! i) \<longleftrightarrow>
    pkey (points s ! slot_id (slots s) i) = (part, name)"
proof -
  let ?p = "points s ! slot_id (slots s) i"
  have live: "live (slots s ! i)" using assms(2) by (simp add: live_slots_def)
  have "slot_id (slots s) i < length (points s)"
    using index_wf_ex_live [OF assms(1,2)] by (simp add: reg_ids_def)
  then have "length (pt_name ?p) \<le> 63" using assms(1) by (simp add: index_wf_ex_def)
  then show ?thesis
    using live assms(3) index_wf_ex_live(2) [OF assms(1,2)]
    by (auto simp: slot_match_def irt_index_slot_matches_def live_def pkey_def key_hash_def
        slot_id_def strncmp_eq_short)
qed

text \<open>What the probe loop finds.\<close>

lemma index_scan_iff:
  fixes part :: u32
  assumes "index_wf_ex S s" "length name \<le> 63"
  defines "h \<equiv> irt_index_compose_hash part name"
  defines "r \<equiv> index_scan (slot_match (points s) h part name) (slots s) (probe_seq (index_of s) h)"
  shows "r = Some i \<longleftrightarrow> i \<in> live_slots (slots s) \<and> pkey (points s ! slot_id (slots s) i) = (part, name)"
proof -
  have sound: "j \<in> live_slots (slots s) \<and> pkey (points s ! slot_id (slots s) j) = (part, name)"
    if "r = Some j" for j
  proof -
    from index_scan_sound [OF that [unfolded r_def]]
    have "j \<in> live_slots (slots s)" "slot_match (points s) h part name (slots s ! j)"
      using index_wf_exD(5) [OF assms(1)] by (auto simp: live_slots_def)
    then show ?thesis using slot_match_iff [OF assms(1) _ assms(2)] by (auto simp: h_def)
  qed
  show ?thesis
  proof
    assume i: "i \<in> live_slots (slots s) \<and> pkey (points s ! slot_id (slots s) i) = (part, name)"
    then have "slot_match (points s) h part name (slots s ! i)"
      using slot_match_iff [OF assms(1) _ assms(2)] by (auto simp: h_def)
    moreover have "sl_hash (slots s ! i) = h"
      using index_wf_ex_live(2) [OF assms(1)] i by (auto simp: h_def key_hash_def pkey_def)
    ultimately obtain j where j: "r = Some j"
      using index_scan_complete [of "slots s" "probe_seq (index_of s) h" i] i
        index_wf_ex_live(3) [OF assms(1), of i]
      by (auto simp: r_def live_slots_def)
    have "slot_id (slots s) j = slot_id (slots s) i"
      using sound [OF j] i index_wf_ex_live(1) [OF assms(1)]
      by (intro inj_onD [OF index_wf_ex_parts(2) [OF assms(1)]]) auto
    then have "j = i"
      using sound [OF j] i bij_betw_imp_inj_on [OF index_wf_ex_parts(1) [OF assms(1)]]
      by (auto dest: inj_onD)
    then show "r = Some i" using j by simp
  qed (use sound in blast)
qed

section \<open>The abstract directory\<close>

text \<open>
  What the index means: the map from (partition, name) to the id of the point registered under
  it, computed by a scan of the point table.
\<close>

definition name_map :: "shm \<Rightarrow> u32 \<times> string \<Rightarrow> u32 option" where
  "name_map s k = map_option word_of_nat
     (List.find (\<lambda>i. reg (points s ! i) \<and> pkey (points s ! i) = k) [0..<length (points s)])"

lemma find_Some_unique:
  assumes "x \<in> set xs" "P x" "\<And>y. y \<in> set xs \<Longrightarrow> P y \<Longrightarrow> y = x"
  shows "List.find P xs = Some x"
proof (cases "List.find P xs")
  case None
  then show ?thesis using assms(1,2) by (auto simp: find_None_iff)
next
  case (Some y)
  then have "y \<in> set xs" "P y" by (auto simp: find_Some_iff)
  then show ?thesis using Some assms(3) by simp
qed

lemma name_map_Some:
  assumes "inj_on (\<lambda>i. pkey (points s ! i)) (reg_ids (points s))" "i \<in> reg_ids (points s)"
  shows "name_map s (pkey (points s ! i)) = Some (word_of_nat i)"
  unfolding name_map_def
  by (subst find_Some_unique [where x = i]) (use assms in \<open>auto simp: reg_ids_def inj_on_def\<close>)

lemma name_map_None:
  "(\<And>i. i \<in> reg_ids (points s) \<Longrightarrow> pkey (points s ! i) \<noteq> k) \<Longrightarrow> name_map s k = None"
  by (auto simp: name_map_def find_None_iff reg_ids_def)

lemma name_map_eq_None_iff:
  "name_map s k = None \<longleftrightarrow> (\<forall>i \<in> reg_ids (points s). pkey (points s ! i) \<noteq> k)"
  by (auto simp: name_map_def find_None_iff reg_ids_def)

lemma name_map_eq_Some_iff:
  assumes "inj_on (\<lambda>i. pkey (points s ! i)) (reg_ids (points s))" "length (points s) \<le> 2 ^ 24"
  shows "name_map s k = Some j \<longleftrightarrow> unat j \<in> reg_ids (points s) \<and> pkey (points s ! unat j) = k"
proof
  assume "name_map s k = Some j"
  then obtain i where i: "i \<in> reg_ids (points s)" "pkey (points s ! i) = k" "j = word_of_nat i"
    by (auto simp: name_map_def find_Some_iff reg_ids_def)
  then have "unat j = i" using assms(2) by (simp add: reg_ids_def unat_of_nat)
  then show "unat j \<in> reg_ids (points s) \<and> pkey (points s ! unat j) = k" using i by simp
next
  assume "unat j \<in> reg_ids (points s) \<and> pkey (points s ! unat j) = k"
  then show "name_map s k = Some j" using name_map_Some [OF assms(1)] by fastforce
qed

lemma index_wf_name_map_iff:
  assumes "index_wf s"
  shows "name_map s k = Some j \<longleftrightarrow> unat j \<in> reg_ids (points s) \<and> pkey (points s ! unat j) = k"
  using assms index_wf_ex_parts(2) index_wf_exD(4) by (intro name_map_eq_Some_iff) (auto simp: index_wf_def)

lemma irt_index_lookup_correct:
  assumes "index_wf s" "name \<noteq> []" "length name \<le> 63" "stable_window s d"
  shows "irt_index_lookup s d part name =
    (case name_map s (part, name) of
       Some j \<Rightarrow> (0, Some j)
     | None \<Rightarrow> (INDURTDB_ERR_NOT_FOUND, None))"
proof -
  have wf: "index_wf_ex {} s" using assms(1) by (simp add: index_wf_def)
  let ?h = "irt_index_compose_hash part name"
  let ?r = "index_scan (slot_match (points s) ?h part name) (slots s) (probe_seq (index_of s) ?h)"
  have lk: "irt_index_lookup s d part name =
    (case ?r of None \<Rightarrow> (INDURTDB_ERR_NOT_FOUND, None) | Some i \<Rightarrow> (0, Some (sl_pid (slots s ! i))))"
    using assms index_wf_exD(2,3) [OF wf]
    by (simp add: irt_index_lookup_def irt_index_probe_def Let_def)
  show ?thesis
  proof (cases ?r)
    case (Some i)
    then have "i \<in> live_slots (slots s)" "pkey (points s ! slot_id (slots s) i) = (part, name)"
      by (simp_all add: index_scan_iff [OF wf assms(3)])
    then have "name_map s (part, name) = Some (sl_pid (slots s ! i))"
      using index_wf_ex_live(1) [OF wf] by (simp add: index_wf_name_map_iff [OF assms(1)] slot_id_def)
    then show ?thesis using lk Some by simp
  next
    case None
    have "pkey (points s ! j) \<noteq> (part, name)" if j: "j \<in> reg_ids (points s)" for j
    proof
      assume "pkey (points s ! j) = (part, name)"
      moreover obtain i where "i \<in> live_slots (slots s)" "slot_id (slots s) i = j"
        using index_wf_ex_slot [OF wf, unfolded Diff_empty, OF j] by blast
      ultimately show False using None index_scan_iff [OF wf assms(3)] by (metis option.distinct(1))
    qed
    then show ?thesis using lk None by (simp add: name_map_None)
  qed
qed

section \<open>Insertion and removal\<close>

lemma live_new: "unat pid < length (points s) \<Longrightarrow> index_wf_ex S s \<Longrightarrow> live \<lparr>sl_hash = h, sl_pid = pid\<rparr>"
  using index_wf_exD(4) [of S s]
  by (auto simp: live_def IRT_INDEX_EMPTY_def IRT_INDEX_TOMBSTONE_def)

lemma live_nonempty: "live v \<Longrightarrow> sl_pid v \<noteq> IRT_INDEX_EMPTY"
  by (simp add: live_def)

lemma tomb_nonempty [simp]: "IRT_INDEX_TOMBSTONE \<noteq> IRT_INDEX_EMPTY"
  by (simp add: IRT_INDEX_EMPTY_def IRT_INDEX_TOMBSTONE_def)

lemma tomb_not_live [simp]: "\<not> live (sl\<lparr>sl_pid := IRT_INDEX_TOMBSTONE\<rparr>)"
  by (simp add: live_def)

lemma insert_locked_fresh:
  assumes wf: "index_wf_ex S s" and name: "name \<noteq> []" "length name \<le> 63"
    and pid: "unat pid < length (points s)" "partition (points s ! unat pid) = part"
    and fresh: "\<And>i. i \<in> live_slots (slots s) \<Longrightarrow> pkey (points s ! slot_id (slots s) i) \<noteq> (part, name)"
  obtains j where "j < length (slots s)" "j \<notin> live_slots (slots s)"
    "on_chain (slots s) (probe_seq (index_of s) (irt_index_compose_hash part name)) j"
    "irt_index_insert_locked s part name pid =
       (0, s\<lparr>slots := (slots s)[j := \<lparr>sl_hash = irt_index_compose_hash part name, sl_pid = pid\<rparr>],
             index_count := index_count s + 1\<rparr>)"
proof -
  let ?h = "irt_index_compose_hash part name"
  let ?scan = "insert_scan (slot_match (points s) ?h part name) (slots s) None (probe_seq (index_of s) ?h)"
  have seq: "set (probe_seq (index_of s) ?h) = {..<length (slots s)}" by (rule index_wf_exD(5) [OF wf])
  have same: "(points s)[unat pid := (points s ! unat pid)\<lparr>partition := part\<rparr>] = points s"
    using pid by (metis list_update_id point.surjective point.update_convs(9))
  have bound: "pid < s_max_points s"
    using pid(1) index_wf_exD(1) [OF wf] by (simp add: shm_wf_def word_less_nat_alt)
  have "?scan \<noteq> Exhausted"
  proof
    assume "?scan = Exhausted"
    then have "\<forall>i \<in> set (probe_seq (index_of s) ?h). live (slots s ! i)"
      by (blast dest: insert_scan_exhausted)
    then have "live_slots (slots s) = {..<length (slots s)}" by (auto simp: live_slots_def seq)
    then show False using live_card_less [OF wf] by simp
  qed
  moreover have "?scan \<noteq> Update i" for i
  proof
    assume "?scan = Update i"
    from insert_scan_update [OF this] have "i \<in> live_slots (slots s)"
      and "slot_match (points s) ?h part name (slots s ! i)" by (auto simp: live_slots_def seq)
    then show False using slot_match_iff [OF wf _ name(2)] fresh by blast
  qed
  ultimately obtain j where j: "?scan = Place j" by (cases ?scan) auto
  from insert_scan_place [OF j] seq
  have "j < length (slots s)" "\<not> live (slots s ! j)" "on_chain (slots s) (probe_seq (index_of s) ?h) j"
    by auto
  moreover have "irt_index_insert_locked s part name pid =
      (0, s\<lparr>slots := (slots s)[j := \<lparr>sl_hash = ?h, sl_pid = pid\<rparr>], index_count := index_count s + 1\<rparr>)"
    using name(1) bound index_wf_exD(2,3) [OF wf] j
    by (simp add: irt_index_insert_locked_def Let_def same not_le [THEN iffD2, OF bound])
  ultimately show ?thesis by (intro that) (auto simp: live_slots_def)
qed

lemma index_count_bound:
  assumes "index_wf_ex S s"
  shows "unat (index_count s) \<le> 2 ^ 24"
proof -
  have "card (live_slots (slots s)) = card (reg_ids (points s) - S)"
    by (rule bij_betw_same_card [OF index_wf_ex_parts(1) [OF assms]])
  also have "\<dots> \<le> card {..<length (points s)}"
    by (rule card_mono) (auto simp: reg_ids_def)
  finally show ?thesis using index_wf_ex_parts(4) [OF assms] index_wf_exD(4) [OF assms] by simp
qed

lemma slot_id_update:
  "j < length sls \<Longrightarrow> slot_id (sls[j := v]) i = (if i = j then unat (sl_pid v) else slot_id sls i)"
  by (simp add: slot_id_def nth_list_update)

text \<open>Placing an exempt registered point into a dead slot of its chain indexes it.\<close>

lemma index_place_wf:
  assumes wf: "index_wf_ex S s"
    and j: "j < length (slots s)" "j \<notin> live_slots (slots s)"
    and chain: "on_chain (slots s) (probe_seq (index_of s) h) j"
    and pid: "unat pid \<in> reg_ids (points s)" "unat pid \<in> S" and h: "h = key_hash (points s ! unat pid)"
  shows "index_wf_ex (S - {unat pid})
    (s\<lparr>slots := (slots s)[j := \<lparr>sl_hash = h, sl_pid = pid\<rparr>], index_count := index_count s + 1\<rparr>)"
proof -
  let ?v = "\<lparr>sl_hash = h, sl_pid = pid\<rparr>"
  let ?sls = "(slots s)[j := ?v]"
  have lv: "live ?v" using pid(1) wf by (intro live_new) (auto simp: reg_ids_def)
  have ls: "live_slots ?sls = insert j (live_slots (slots s))"
    using j(1) lv by (rule live_slots_fill)
  have old: "slot_id ?sls i = slot_id (slots s) i \<and> ?sls ! i = slots s ! i"
    if "i \<in> live_slots (slots s)" for i
    using that j by (auto simp: slot_id_update nth_list_update)
  have new: "slot_id ?sls j = unat pid" "?sls ! j = ?v"
    using j(1) by (simp_all add: slot_id_update)
  have b0: "bij_betw (slot_id ?sls) (live_slots (slots s)) (reg_ids (points s) - S)"
    using index_wf_ex_parts(1) [OF wf] by (rule bij_betw_cong [THEN iffD1, rotated]) (simp add: old)
  have "bij_betw (slot_id ?sls) (live_slots (slots s) \<union> {j}) ((reg_ids (points s) - S) \<union> {slot_id ?sls j})"
    by (rule notIn_Un_bij_betw [OF j(2) _ b0]) (simp add: new pid)
  moreover have "(reg_ids (points s) - S) \<union> {slot_id ?sls j} = reg_ids (points s) - (S - {unat pid})"
    using pid by (auto simp: new)
  ultimately have bij: "bij_betw (slot_id ?sls) (live_slots ?sls) (reg_ids (points s) - (S - {unat pid}))"
    by (simp add: ls)
  have hash: "sl_hash (?sls ! i) = key_hash (points s ! slot_id ?sls i)" if "i \<in> live_slots ?sls" for i
  proof (cases "i = j")
    case True
    show ?thesis by (simp only: True new) (simp add: h)
  next
    case False
    then have "i \<in> live_slots (slots s)" using that by (simp add: ls)
    then show ?thesis using index_wf_ex_live(2) [OF wf] old by simp
  qed
  have ix: "index_of (s\<lparr>slots := ?sls, index_count := index_count s + 1\<rparr>) = index_of s"
    by (simp add: index_of_def)
  have ch: "on_chain ?sls (probe_seq (index_of s) (sl_hash (?sls ! i))) i" if "i \<in> live_slots ?sls" for i
  proof (cases "i = j")
    case True
    have "on_chain ?sls (probe_seq (index_of s) h) j"
      by (rule on_chain_update [OF chain live_nonempty [OF lv]])
    then show ?thesis by (simp only: True new slot.simps)
  next
    case False
    then have i: "i \<in> live_slots (slots s)" using that by (simp add: ls)
    have "on_chain ?sls (probe_seq (index_of s) (sl_hash (slots s ! i))) i"
      by (rule on_chain_update [OF index_wf_ex_live(3) [OF wf i] live_nonempty [OF lv]])
    then show ?thesis using old [OF i] by simp
  qed
  have "card (live_slots ?sls) = Suc (card (live_slots (slots s)))"
    using j(2) by (simp add: ls)
  moreover have "unat (index_count s + 1) = Suc (unat (index_count s))"
    using index_count_bound [OF wf] by (simp add: unat_word_ariths)
  ultimately have "unat (index_count s + 1) = card (live_slots ?sls)"
    using index_wf_ex_parts(4) [OF wf] by simp
  then show ?thesis
    unfolding index_wf_ex_def ix
    using index_wf_exD(1) [OF wf] index_wf_ex_parts(2,3) [OF wf] bij hash ch
    by (simp add: shm_wf_def)
qed

text \<open>Removal finds the one slot of a registered point and exempts the point.\<close>

lemma remove_locked_hit:
  assumes wf: "index_wf_ex S s" and pid: "j \<in> reg_ids (points s)" "j \<notin> S"
    and key: "pkey (points s ! j) = (part, name)"
  obtains i where "i \<in> live_slots (slots s)" "slot_id (slots s) i = j"
    "irt_index_remove_locked s part name =
       (0, s\<lparr>slots := (slots s)[i := (slots s ! i)\<lparr>sl_pid := IRT_INDEX_TOMBSTONE\<rparr>],
             index_count := index_count s - 1\<rparr>)"
proof -
  obtain i where i: "i \<in> live_slots (slots s)" "slot_id (slots s) i = j"
    using index_wf_ex_slot [OF wf, of j] pid by blast
  have name: "name \<noteq> []" "length name \<le> 63"
    using pid(1) key index_wf_ex_parts(3) [OF wf, of j] by (auto simp: reg_ids_def reg_def pkey_def)
  have "0 < card (live_slots (slots s))" using i(1) by (auto simp: card_gt_0_iff)
  then have cnt: "0 < index_count s"
    using index_wf_ex_parts(4) [OF wf] by (simp add: word_less_nat_alt)
  have "index_scan (slot_match (points s) (irt_index_compose_hash part name) part name) (slots s)
      (probe_seq (index_of s) (irt_index_compose_hash part name)) = Some i"
    using i key by (simp add: index_scan_iff [OF wf name(2)])
  then show ?thesis
    using i name(1) cnt index_wf_exD(2,3) [OF wf]
    by (intro that [of i]) (simp_all add: irt_index_remove_locked_def Let_def)
qed

lemma index_unplace_wf:
  assumes wf: "index_wf_ex S s" and i: "i \<in> live_slots (slots s)" and id: "slot_id (slots s) i = j"
  shows "index_wf_ex (insert j S)
    (s\<lparr>slots := (slots s)[i := (slots s ! i)\<lparr>sl_pid := IRT_INDEX_TOMBSTONE\<rparr>],
       index_count := index_count s - 1\<rparr>)"
proof -
  let ?v = "(slots s ! i)\<lparr>sl_pid := IRT_INDEX_TOMBSTONE\<rparr>"
  let ?sls = "(slots s)[i := ?v]"
  have il: "i < length (slots s)" using i by (simp add: live_slots_def)
  have ls: "live_slots ?sls = live_slots (slots s) - {i}" by (rule live_slots_kill) simp
  have old: "slot_id ?sls k = slot_id (slots s) k \<and> ?sls ! k = slots s ! k" if "k \<noteq> i" for k
    using that by (simp add: slot_id_def)
  have bij0: "bij_betw (slot_id (slots s)) (live_slots (slots s)) (reg_ids (points s) - S)"
    by (rule index_wf_ex_parts(1) [OF wf])
  have "bij_betw (slot_id (slots s)) (live_slots (slots s) - {i}) (reg_ids (points s) - S - {j})"
    using bij_betw_DiffI [OF bij0, of "{i}" "{j}"] i id bij_betw_apply [OF bij0 i]
    by (simp add: bij_betw_def)
  then have "bij_betw (slot_id ?sls) (live_slots ?sls) (reg_ids (points s) - S - {j})"
    unfolding ls by (rule bij_betw_cong [THEN iffD1, rotated]) (simp add: old)
  then have bij: "bij_betw (slot_id ?sls) (live_slots ?sls) (reg_ids (points s) - insert j S)"
    by (metis Diff_insert)
  have hash: "sl_hash (?sls ! k) = key_hash (points s ! slot_id ?sls k)" if "k \<in> live_slots ?sls" for k
    using that index_wf_ex_live(2) [OF wf, of k] old [of k] by (auto simp: ls)
  have ix: "index_of (s\<lparr>slots := ?sls, index_count := index_count s - 1\<rparr>) = index_of s"
    by (simp add: index_of_def)
  have ch: "on_chain ?sls (probe_seq (index_of s) (sl_hash (?sls ! k))) k" if "k \<in> live_slots ?sls" for k
    using that index_wf_ex_live(3) [OF wf, of k] old [of k] by (auto simp: ls intro: on_chain_update)
  have "Suc (card (live_slots ?sls)) = card (live_slots (slots s))"
    by (simp only: ls card.remove [OF live_slots_finite i])
  moreover from this have "unat (index_count s - 1) = unat (index_count s) - 1"
    using index_wf_ex_parts(4) [OF wf] by (intro unat_minus_one) auto
  ultimately have "unat (index_count s - 1) = card (live_slots ?sls)"
    using index_wf_ex_parts(4) [OF wf] by simp
  then show ?thesis
    unfolding index_wf_ex_def ix
    using index_wf_exD(1) [OF wf] index_wf_ex_parts(2,3) [OF wf] bij hash ch
    by (simp add: shm_wf_def)
qed

section \<open>Changes of the point table\<close>

lemma reg_ids_update:
  "j < length pts \<Longrightarrow> reg_ids (pts[j := p]) = (if reg p then insert j (reg_ids pts) else reg_ids pts - {j})"
  by (auto simp: reg_ids_def nth_list_update split: if_splits)

text \<open>Only these parts of the state matter to the invariant.\<close>

lemma index_wf_ex_cong:
  assumes "index_wf_ex S s" and "shm_wf t"
    and "slots t = slots s" "index_count t = index_count s" "max_points t = max_points s"
    and "length (points t) = length (points s)"
    and "\<And>i. i < length (points s) \<Longrightarrow> pkey (points t ! i) = pkey (points s ! i)"
  shows "index_wf_ex S t"
proof -
  have reg: "reg_ids (points t) = reg_ids (points s)"
    using assms(6,7) by (auto simp: reg_ids_def reg_def pkey_def)
  have ix: "index_of t = index_of s"
    using assms(2,5) index_wf_exD(1) [OF assms(1)] by (simp add: index_of_def shm_wf_def)
  have kh: "key_hash (points t ! slot_id (slots s) i) = key_hash (points s ! slot_id (slots s) i)"
    if "i \<in> live_slots (slots s)" for i
    using index_wf_ex_live(1) [OF assms(1) that] assms(7)
    by (auto simp: reg_ids_def key_hash_def pkey_def)
  have inj: "inj_on (\<lambda>i. pkey (points t ! i)) (reg_ids (points s))"
    using index_wf_ex_parts(2) [OF assms(1)]
    by (rule inj_on_cong [THEN iffD1, rotated]) (simp add: reg_ids_def assms(7))
  have len: "length (pt_name (points t ! i)) \<le> 63" if "i < length (points s)" for i
    using index_wf_ex_parts(3) [OF assms(1) that] assms(7) [OF that] by (simp add: pkey_def)
  show ?thesis
    unfolding index_wf_ex_def reg ix assms(3,4,6)
    using assms(2) index_wf_ex_parts(1,4) [OF assms(1)] inj len kh
      index_wf_ex_live(2,3) [OF assms(1)] by simp
qed

text \<open>A point outside the index may be given any key that is not in use, or none.\<close>

lemma index_set_point:
  assumes wf: "index_wf_ex S s" and j: "j < length (points s)" "j \<notin> reg_ids (points s) - S"
    and len: "length (pt_name p) \<le> 63"
    and fresh: "\<And>i. reg p \<Longrightarrow> i \<in> reg_ids (points s) \<Longrightarrow> i \<noteq> j \<Longrightarrow> pkey (points s ! i) \<noteq> pkey p"
  shows "index_wf_ex (insert j S) (s\<lparr>points := (points s)[j := p]\<rparr>)"
proof -
  let ?pts = "(points s)[j := p]"
  have regs: "reg_ids ?pts - insert j S = reg_ids (points s) - S"
    using j by (auto simp: reg_ids_update)
  have other: "slot_id (slots s) i \<noteq> j" if "i \<in> live_slots (slots s)" for i
    using index_wf_ex_live(1) [OF wf that] j(2) by auto
  have ix: "index_of (s\<lparr>points := ?pts\<rparr>) = index_of s" by (simp add: index_of_def)
  have kh: "key_hash (?pts ! slot_id (slots s) i) = key_hash (points s ! slot_id (slots s) i)"
    if "i \<in> live_slots (slots s)" for i
    using other [OF that] by simp
  have inj: "inj_on (\<lambda>i. pkey (?pts ! i)) (reg_ids ?pts)"
  proof (rule inj_onI)
    fix a b assume ab: "a \<in> reg_ids ?pts" "b \<in> reg_ids ?pts" "pkey (?pts ! a) = pkey (?pts ! b)"
    have regp: "reg p" if "a = j \<or> b = j" using that ab(1,2) j(1) by (auto simp: reg_ids_def)
    have mem: "c \<in> reg_ids (points s)" if "c \<in> reg_ids ?pts" "c \<noteq> j" for c
      using that by (auto simp: reg_ids_def)
    consider "a = j" "b = j" | "a = j" "b \<noteq> j" | "a \<noteq> j" "b = j" | "a \<noteq> j" "b \<noteq> j" by blast
    then show "a = b"
    proof cases
      case 2
      then show ?thesis using ab fresh [OF regp mem [OF ab(2)]] j(1) by auto
    next
      case 3
      then show ?thesis using ab fresh [OF regp mem [OF ab(1)]] j(1) by auto
    next
      case 4
      then show ?thesis
        using ab mem [OF ab(1)] mem [OF ab(2)] inj_onD [OF index_wf_ex_parts(2) [OF wf], of a b]
        by simp
    qed simp
  qed
  have lens: "length (pt_name (?pts ! i)) \<le> 63" if "i < length (points s)" for i
    using index_wf_ex_parts(3) [OF wf that] len that by (cases "i = j") simp_all
  show ?thesis
    unfolding index_wf_ex_def ix
    using index_wf_exD(1) [OF wf] index_wf_ex_parts(1,4) [OF wf] inj lens kh regs
      index_wf_ex_live(2,3) [OF wf] by (simp add: shm_wf_def)
qed

lemma index_wf_ex_unreg:
  "index_wf_ex S s \<Longrightarrow> j \<notin> reg_ids (points s) \<Longrightarrow> index_wf_ex (S - {j}) s"
  unfolding index_wf_ex_def by (metis Diff_insert0 Diff_insert2 insert_Diff_single)

text \<open>Renaming in place to a key with the same hash, and dirtying a dead slot.\<close>

lemma index_rekey_same_hash:
  assumes wf: "index_wf_ex S s" and j: "j \<in> reg_ids (points s)"
    and p: "reg p" "length (pt_name p) \<le> 63" "key_hash p = key_hash (points s ! j)"
    and fresh: "\<And>i. i \<in> reg_ids (points s) \<Longrightarrow> i \<noteq> j \<Longrightarrow> pkey (points s ! i) \<noteq> pkey p"
  shows "index_wf_ex S (s\<lparr>points := (points s)[j := p]\<rparr>)"
proof -
  let ?pts = "(points s)[j := p]"
  have jl: "j < length (points s)" using j by (simp add: reg_ids_def)
  have regs: "reg_ids ?pts = reg_ids (points s)"
    using j p(1) by (auto simp: reg_ids_update [OF jl])
  have ix: "index_of (s\<lparr>points := ?pts\<rparr>) = index_of s" by (simp add: index_of_def)
  have kh: "key_hash (?pts ! i) = key_hash (points s ! i)" for i
    using p(3) jl by (cases "i = j") simp_all
  have inj: "inj_on (\<lambda>i. pkey (?pts ! i)) (reg_ids (points s))"
  proof (rule inj_onI)
    fix a b assume ab: "a \<in> reg_ids (points s)" "b \<in> reg_ids (points s)" "pkey (?pts ! a) = pkey (?pts ! b)"
    then show "a = b"
      using fresh [OF ab(1)] fresh [OF ab(2)] inj_onD [OF index_wf_ex_parts(2) [OF wf], of a b] jl
      by (cases "a = j"; cases "b = j") auto
  qed
  have lens: "length (pt_name (?pts ! i)) \<le> 63" if "i < length (points s)" for i
    using index_wf_ex_parts(3) [OF wf that] p(2) that by (cases "i = j") simp_all
  show ?thesis
    unfolding index_wf_ex_def ix
    using index_wf_exD(1) [OF wf] index_wf_ex_parts(1,4) [OF wf] inj lens kh regs
      index_wf_ex_live(2,3) [OF wf] by (simp add: shm_wf_def)
qed

lemma index_dead_tomb:
  assumes wf: "index_wf_ex S s" and j: "j \<notin> live_slots (slots s)"
    and v: "sl_pid v = IRT_INDEX_TOMBSTONE"
  shows "index_wf_ex S (s\<lparr>slots := (slots s)[j := v]\<rparr>)"
proof -
  let ?sls = "(slots s)[j := v]"
  have dead: "\<not> live v" using v by (simp add: live_def)
  have ls: "live_slots ?sls = live_slots (slots s)"
    using live_slots_kill [OF dead, of "slots s" j] j by simp
  have old: "slot_id ?sls i = slot_id (slots s) i \<and> ?sls ! i = slots s ! i"
    if "i \<in> live_slots (slots s)" for i
    using that j by (cases "i = j") (auto simp: slot_id_def)
  have bij: "bij_betw (slot_id ?sls) (live_slots (slots s)) (reg_ids (points s) - S)"
    using index_wf_ex_parts(1) [OF wf] by (rule bij_betw_cong [THEN iffD1, rotated]) (simp add: old)
  have ix: "index_of (s\<lparr>slots := ?sls\<rparr>) = index_of s" by (simp add: index_of_def)
  have ch: "on_chain ?sls (probe_seq (index_of s) (sl_hash (slots s ! i))) i"
    if "i \<in> live_slots (slots s)" for i
    by (rule on_chain_update [OF index_wf_ex_live(3) [OF wf that]]) (simp add: v)
  show ?thesis
    unfolding index_wf_ex_def ix
    using index_wf_exD(1) [OF wf] index_wf_ex_parts(2,3,4) [OF wf] bij ch old
      index_wf_ex_live(2) [OF wf] by (simp add: shm_wf_def ls)
qed

section \<open>Moving a point to another key\<close>

text \<open>
  The rename path inserts the new key while the point still carries the old one and then removes
  the old one. When the two keys have the same 32-bit hash the removal may hit the slot that was
  just placed; the older slot then serves the new key.
\<close>

lemma index_rename_wf:
  assumes wf: "index_wf s" and pid: "unat pid \<in> reg_ids (points s)"
    and key: "pkey (points s ! unat pid) = (part, old)"
    and name: "name \<noteq> []" "length name \<le> 63"
    and fresh: "\<And>i. i \<in> reg_ids (points s) \<Longrightarrow> pkey (points s ! i) \<noteq> (part, name)"
  obtains s1 s2 where "irt_index_insert_locked s part name pid = (0, s1)"
    "irt_index_remove_locked s1 part old = (0, s2)"
    "points s1 = points s" "points s2 = points s"
    "s2 = s\<lparr>slots := slots s2, index_count := index_count s2\<rparr>"
    "index_wf (s2\<lparr>points := (points s)[unat pid := (points s ! unat pid)\<lparr>pt_name := name\<rparr>]\<rparr>)"
proof -
  have wf0: "index_wf_ex {} s" using wf by (simp add: index_wf_def)
  let ?p = "(points s ! unat pid)\<lparr>pt_name := name\<rparr>"
  let ?pts = "(points s)[unat pid := ?p]"
  let ?h' = "irt_index_compose_hash part name" and ?h = "irt_index_compose_hash part old"
  let ?v = "\<lparr>sl_hash = ?h', sl_pid = pid\<rparr>"
  have pl: "unat pid < length (points s)" and oldne: "old \<noteq> []" and oldlen: "length old \<le> 63"
    using pid key index_wf_ex_parts(3) [OF wf0, of "unat pid"] by (auto simp: reg_ids_def reg_def pkey_def)
  have pkp: "pkey ?p = (part, name)" and khp: "key_hash ?p = ?h'" and regp: "reg ?p"
    using key name(1) by (simp_all add: pkey_def key_hash_def reg_def)
  obtain j where j: "j < length (slots s)" "j \<notin> live_slots (slots s)"
    "on_chain (slots s) (probe_seq (index_of s) ?h') j"
    "irt_index_insert_locked s part name pid =
       (0, s\<lparr>slots := (slots s)[j := ?v], index_count := index_count s + 1\<rparr>)"
    by (rule insert_locked_fresh [OF wf0 name pl, of part])
       (use key fresh index_wf_ex_live(1) [OF wf0] in \<open>auto simp: pkey_def\<close>)
  let ?s1 = "s\<lparr>slots := (slots s)[j := ?v], index_count := index_count s + 1\<rparr>"
  have lv: "live ?v" by (rule live_new [OF pl wf0])
  have ls1: "live_slots (slots ?s1) = insert j (live_slots (slots s))"
    using live_slots_fill [OF j(1) lv] by simp
  obtain i0 where i0: "i0 \<in> live_slots (slots s)" "slot_id (slots s) i0 = unat pid"
    using index_wf_ex_slot [OF wf0, of "unat pid"] pid by auto
  have h0: "sl_hash (slots s ! i0) = ?h"
    using index_wf_ex_live(2) [OF wf0 i0(1)] i0(2) key by (simp add: key_hash_def pkey_def)
  have ij: "i0 \<noteq> j" using i0(1) j(2) by blast
  let ?m = "slot_match (points s) ?h part old"
  have m0: "?m (slots s ! i0)"
    using slot_match_iff [OF wf0 i0(1) oldlen] i0(2) key by simp
  have seq: "set (probe_seq (index_of s) ?h) = {..<length (slots s)}" by (rule index_wf_exD(5) [OF wf0])
  obtain i where i: "index_scan ?m (slots ?s1) (probe_seq (index_of s) ?h) = Some i"
  proof (rule exE [OF index_scan_complete [of "slots ?s1" _ i0]])
    show "on_chain (slots ?s1) (probe_seq (index_of s) ?h) i0"
      using on_chain_update [OF index_wf_ex_live(3) [OF wf0 i0(1)] live_nonempty [OF lv], of j] h0
      by simp
    show "live (slots ?s1 ! i0)" "?m (slots ?s1 ! i0)"
      using i0(1) ij m0 by (simp_all add: live_slots_def)
  qed (rule that)
  have i_live: "i \<in> insert j (live_slots (slots s))" and i_m: "?m (slots ?s1 ! i)"
    using index_scan_sound [OF i] seq ls1 by (auto simp: live_slots_def)
  have i_cases: "i = i0 \<or> i = j \<and> ?h' = ?h"
  proof (cases "i = j")
    case True
    then show ?thesis
      using i_m j(1) by (auto simp: slot_match_def irt_index_slot_matches_def split: if_splits)
  next
    case False
    then have il: "i \<in> live_slots (slots s)" using i_live by simp
    then have "pkey (points s ! slot_id (slots s) i) = (part, old)"
      using i_m False slot_match_iff [OF wf0 il oldlen] by simp
    then have "slot_id (slots s) i = slot_id (slots s) i0"
      using key i0(2) index_wf_ex_live(1) [OF wf0 il] pid
      by (intro inj_onD [OF index_wf_ex_parts(2) [OF wf0]]) auto
    then show ?thesis
      using inj_onD [OF bij_betw_imp_inj_on [OF index_wf_ex_parts(1) [OF wf0]] _ il i0(1)] by simp
  qed
  have cnt: "0 < index_count s + 1"
    using index_count_bound [OF wf0] by (simp add: word_less_nat_alt unat_word_ariths)
  let ?s2 = "?s1\<lparr>slots := (slots ?s1)[i := (slots ?s1 ! i)\<lparr>sl_pid := IRT_INDEX_TOMBSTONE\<rparr>],
      index_count := index_count s\<rparr>"
  have bind: "irt_index_bind ?s1 = Inr (index_of s)"
    using index_wf_exD(2) [OF wf0] by (simp add: irt_index_bind_def split: if_splits)
  have op: "off_points ?s1 \<noteq> 0" using index_wf_exD(3) [OF wf0] by simp
  have i': "index_scan (slot_match (points ?s1) ?h part old) (slots ?s1) (probe_seq (index_of s) ?h) = Some i"
    using i by simp
  have rm: "irt_index_remove_locked ?s1 part old = (0, ?s2)"
    unfolding irt_index_remove_locked_def Let_def bind sum.case i' option.case
    using oldne cnt op by simp
  have final: "index_wf_ex {} (?s2\<lparr>points := ?pts\<rparr>)"
  proof (cases "i = i0")
    case True
    let ?dead = "(slots s ! i0)\<lparr>sl_pid := IRT_INDEX_TOMBSTONE\<rparr>"
    let ?a = "s\<lparr>slots := (slots s)[i0 := ?dead], index_count := index_count s - 1\<rparr>"
    have a: "index_wf_ex {unat pid} ?a" by (rule index_unplace_wf [OF wf0 i0])
    let ?b = "?a\<lparr>points := ?pts\<rparr>"
    have b: "index_wf_ex {unat pid} ?b"
      using index_set_point [OF a, of "unat pid" ?p] pl name(2) fresh pkp by simp
    have "index_wf_ex ({unat pid} - {unat pid})
      (?b\<lparr>slots := (slots ?b)[j := ?v], index_count := index_count ?b + 1\<rparr>)"
    proof (rule index_place_wf [OF b])
      show "j \<notin> live_slots (slots ?b)"
        using j(2) live_slots_kill [of ?dead "slots s" i0] by simp
      show "on_chain (slots ?b) (probe_seq (index_of ?b) ?h') j"
        using on_chain_update [OF j(3), of ?dead i0] by (simp add: index_of_def)
    qed (use j(1) pid pl regp khp in \<open>simp_all add: reg_ids_update\<close>)
    moreover have "?b\<lparr>slots := (slots ?b)[j := ?v], index_count := index_count ?b + 1\<rparr> = ?s2\<lparr>points := ?pts\<rparr>"
      using ij by (simp add: True list_update_swap)
    ultimately show ?thesis by simp
  next
    case False
    then have ijh: "i = j" "?h' = ?h" using i_cases by auto
    let ?dead = "?v\<lparr>sl_pid := IRT_INDEX_TOMBSTONE\<rparr>"
    have a: "index_wf_ex {} (s\<lparr>slots := (slots s)[j := ?dead]\<rparr>)"
      by (rule index_dead_tomb [OF wf0 j(2)]) simp
    have "index_wf_ex {} (s\<lparr>slots := (slots s)[j := ?dead], points := ?pts\<rparr>)"
      using index_rekey_same_hash [OF a, of "unat pid" ?p] pid regp name(2) khp ijh(2) key fresh pkp
      by (simp add: key_hash_def pkey_def)
    moreover have "s\<lparr>slots := (slots s)[j := ?dead], points := ?pts\<rparr> = ?s2\<lparr>points := ?pts\<rparr>"
      using j(1) by (simp add: ijh(1))
    ultimately show ?thesis by simp
  qed
  show ?thesis
    by (rule that [OF j(4) rm]) (use final in \<open>simp_all add: index_wf_def\<close>)
qed

end
