(* ===== verification/Attach.thy ===== *)
theory Attach
  imports Name_Index
begin

text \<open>
  Creating and attaching a segment (\<open>irt_shm_init\<close> of \<^verbatim>\<open>src/core/irt_shm.c\<close>). The mapping of the
  OS layer is a parameter: \<open>None\<close> when it fails, otherwise whether this process created the
  segment and what it contains; so are the process id and the test whether a process exists. A
  freshly created segment is zero-filled (POSIX \<open>ftruncate\<close>), which is \<open>zero_segment\<close>.
\<close>

definition IRT_SHM_ERR_ARG :: int where "IRT_SHM_ERR_ARG = -1"
definition IRT_SHM_ERR_VERSION :: int where "IRT_SHM_ERR_VERSION = -2"
definition IRT_SHM_ERR_CRC :: int where "IRT_SHM_ERR_CRC = -3"

definition IRT_SHM_PREFIX :: string where "IRT_SHM_PREFIX = ''/indurtdb_''"

definition zero_segment :: "u32 \<Rightarrow> u32 \<Rightarrow> segment" where
  "zero_segment mp ms = \<lparr>magic = 0, version = 0, max_points = 0, max_subscribers = 0, write_seq = 0,
     owner_pid = 0, st_writes = 0, st_timeouts = 0, hdr_crc32 = 0, hdr_flags = 0,
     reserved_scan = 0, off_points = 0, off_index = 0, off_meta = 0, off_subs = 0,
     index_count = 0, scan_skipped = 0,
     points = replicate (unat mp) zero_point,
     slots = replicate (unat (irt_layout_buckets mp)) \<lparr>sl_hash = 0, sl_pid = 0\<rparr>,
     metas = replicate (unat mp) zero_meta,
     subs = replicate (unat ms) zero_sub\<rparr>"

definition handle_on :: "segment \<Rightarrow> u32 \<Rightarrow> u32 \<Rightarrow> shm" where
  "handle_on g mp ms = segment.extend g
     \<lparr>s_max_points = mp, s_max_subscribers = ms, lock_env = []\<rparr>"

text \<open>The owner's branch: clear and fill the header, seal it, clear the index and the metadata.\<close>

definition init_owner :: "shm \<Rightarrow> u32 \<Rightarrow> u32 \<Rightarrow> u32 \<Rightarrow> shm" where
  "init_owner s mp ms mypid =
     (let s = s\<lparr>magic := IRT_MAGIC, version := IRT_SHM_VERSION, max_points := mp,
                max_subscribers := ms, write_seq := 0, owner_pid := mypid, st_writes := 0,
                st_timeouts := 0, hdr_crc32 := 0, hdr_flags := 0, reserved_scan := 0,
                off_points := irt_layout_off_points, off_index := irt_layout_off_index mp,
                off_meta := irt_layout_off_meta mp, off_subs := irt_layout_off_subs mp,
                index_count := 0, scan_skipped := 0\<rparr>;
          s = irt_header_seal s;
          s = irt_index_clear s
      in if off_meta s \<noteq> 0
         then s\<lparr>metas := replicate (unat mp) zero_meta @ drop (unat mp) (metas s)\<rparr>
         else s)"

text \<open>The attacher's branch: take over a dead owner, release a lock that was left behind.\<close>

definition init_attach :: "shm \<Rightarrow> u32 \<Rightarrow> (u32 \<Rightarrow> bool) \<Rightarrow> shm \<times> bool" where
  "init_attach s mypid alive =
     (let stored_pid = owner_pid s;
          takeover = (0 < sint stored_pid \<and> stored_pid \<noteq> mypid \<and> \<not> alive stored_pid);
          s = (if takeover then s\<lparr>owner_pid := mypid\<rparr> else s);
          sq = write_seq s;
          s = (if sq AND 1 \<noteq> 0 then s\<lparr>write_seq := sq + 1\<rparr> else s)
      in (s, takeover))"

definition irt_shm_init ::
  "string \<Rightarrow> u32 \<Rightarrow> u32 \<Rightarrow> u32 \<Rightarrow> (u32 \<Rightarrow> bool) \<Rightarrow> (bool \<times> segment) option \<Rightarrow> int \<times> (shm \<times> bool) option"
where
  "irt_shm_init instance_id mp ms mypid alive mapped =
     (if instance_id = [] \<or> mp = 0 then (IRT_SHM_ERR_ARG, None)
      else if 128 \<le> length (IRT_SHM_PREFIX @ instance_id) then (-1, None)
      else case mapped of
        None \<Rightarrow> (-1, None)
      | Some (owner, g) \<Rightarrow>
          let s = handle_on g mp ms
          in if owner then (0, Some (init_owner s mp ms mypid, True))
             else if magic s \<noteq> IRT_MAGIC \<or> version s \<noteq> IRT_SHM_VERSION
             then (IRT_SHM_ERR_VERSION, None)
             else if max_points s < mp \<or> max_subscribers s < ms then (IRT_SHM_ERR_ARG, None)
             else if \<not> irt_header_verify s then (IRT_SHM_ERR_CRC, None)
             else (0, Some (init_attach s mypid alive)))"

section \<open>The created segment\<close>

definition fresh_shm :: "u32 \<Rightarrow> u32 \<Rightarrow> u32 \<Rightarrow> shm" where
  "fresh_shm mp ms mypid = init_owner (handle_on (zero_segment mp ms) mp ms) mp ms mypid"

lemma handle_on_sel [simp]:
  "magic (handle_on g mp ms) = magic g" "version (handle_on g mp ms) = version g"
  "max_points (handle_on g mp ms) = max_points g"
  "max_subscribers (handle_on g mp ms) = max_subscribers g"
  "write_seq (handle_on g mp ms) = write_seq g" "owner_pid (handle_on g mp ms) = owner_pid g"
  "points (handle_on g mp ms) = points g" "slots (handle_on g mp ms) = slots g"
  "metas (handle_on g mp ms) = metas g" "subs (handle_on g mp ms) = subs g"
  "s_max_points (handle_on g mp ms) = mp" "s_max_subscribers (handle_on g mp ms) = ms"
  "lock_env (handle_on g mp ms) = []"
  by (simp_all add: handle_on_def segment.defs)

lemma off_nonzero:
  assumes "unat mp \<le> 2 ^ 24"
  shows "irt_layout_off_points \<noteq> 0" "irt_layout_off_index mp \<noteq> 0" "irt_layout_off_meta mp \<noteq> 0"
    "irt_layout_off_subs mp \<noteq> 0"
  using off_index_nat [OF assms] off_meta_nat [OF assms] off_subs_nat [OF assms]
  by (auto simp: irt_layout_off_points_def simp flip: unsigned_eq_0_iff)

lemma fresh_shm_fields:
  assumes "unat mp \<le> 2 ^ 24"
  shows "points (fresh_shm mp ms me) = replicate (unat mp) zero_point"
    "slots (fresh_shm mp ms me) = replicate (unat (irt_layout_buckets mp)) \<lparr>sl_hash = 0xFFFFFFFF, sl_pid = 0xFFFFFFFF\<rparr>"
    "metas (fresh_shm mp ms me) = replicate (unat mp) zero_meta"
    "subs (fresh_shm mp ms me) = replicate (unat ms) zero_sub"
    "max_points (fresh_shm mp ms me) = mp" "max_subscribers (fresh_shm mp ms me) = ms"
    "s_max_points (fresh_shm mp ms me) = mp" "s_max_subscribers (fresh_shm mp ms me) = ms"
    "index_count (fresh_shm mp ms me) = 0" "lock_env (fresh_shm mp ms me) = []"
    "write_seq (fresh_shm mp ms me) = 0" "owner_pid (fresh_shm mp ms me) = me"
    "off_points (fresh_shm mp ms me) = irt_layout_off_points"
    "off_index (fresh_shm mp ms me) = irt_layout_off_index mp"
    "off_meta (fresh_shm mp ms me) = irt_layout_off_meta mp"
    "off_subs (fresh_shm mp ms me) = irt_layout_off_subs mp"
    "magic (fresh_shm mp ms me) = IRT_MAGIC" "version (fresh_shm mp ms me) = IRT_SHM_VERSION"
  using off_nonzero [OF assms]
  by (simp_all add: fresh_shm_def init_owner_def Let_def irt_header_seal_def irt_index_clear_def
      irt_index_bind_def zero_segment_def)

lemma fresh_shm_wf:
  "0 < mp \<Longrightarrow> unat mp \<le> 2 ^ 24 \<Longrightarrow> shm_wf (fresh_shm mp ms me)"
  using off_nonzero [of mp] by (simp add: shm_wf_def fresh_shm_fields)

lemma fresh_index_wf:
  assumes "0 < mp" "unat mp \<le> 2 ^ 24"
  shows "index_wf (fresh_shm mp ms me)"
proof -
  have "live_slots (slots (fresh_shm mp ms me)) = {}"
    using assms(2) by (auto simp: live_slots_def fresh_shm_fields live_def IRT_INDEX_EMPTY_def)
  moreover have "reg_ids (points (fresh_shm mp ms me)) = {}"
    using assms(2) by (auto simp: reg_ids_def fresh_shm_fields reg_def zero_point_def)
  ultimately show ?thesis
    using fresh_shm_wf [OF assms, of ms me] assms(2)
    by (simp add: index_wf_def index_wf_ex_def fresh_shm_fields zero_point_def bij_betw_def)
qed

lemma fresh_header_verifies:
  assumes "unat mp \<le> 2 ^ 24"
  shows "irt_header_verify (fresh_shm mp ms me)"
proof -
  let ?s = "(handle_on (zero_segment mp ms) mp ms)\<lparr>magic := IRT_MAGIC, version := IRT_SHM_VERSION, max_points := mp,
                max_subscribers := ms, write_seq := 0, owner_pid := me, st_writes := 0,
                st_timeouts := 0, hdr_crc32 := 0, hdr_flags := 0, reserved_scan := 0,
                off_points := irt_layout_off_points, off_index := irt_layout_off_index mp,
                off_meta := irt_layout_off_meta mp, off_subs := irt_layout_off_subs mp,
                index_count := 0, scan_skipped := 0\<rparr>"
  have crc: "hdr_crc32 (fresh_shm mp ms me) = irt_header_crc32_of (?s\<lparr>hdr_crc32 := 0\<rparr>)"
    by (simp add: fresh_shm_def init_owner_def Let_def irt_header_seal_def irt_index_clear_def
        split: sum.splits)
  have "header_fields (fresh_shm mp ms me) = header_fields (?s\<lparr>hdr_crc32 := 0\<rparr>)"
    by (simp add: fresh_shm_def init_owner_def Let_def irt_header_seal_def irt_index_clear_def
        header_fields_def header_ident_fields_def header_layout_fields_def split: sum.splits)
  then show ?thesis
    using crc assms by (simp add: irt_header_verify_def fresh_shm_fields header_crc_fields)
qed

text \<open>
  C34. Creating a segment: on a zero-filled mapping the initialisation succeeds for every non-zero
  number of points up to \<open>2 ^ 24\<close> and yields a handle that satisfies the table invariant, has no
  registered name, carries a header that verifies, has default metadata for every point and is
  not locked.
\<close>

theorem init_creates_empty_directory:
  assumes "instance_id \<noteq> []" "length instance_id < 118" "0 < mp" "unat mp \<le> 2 ^ 24"
  shows "\<exists>s. irt_shm_init instance_id mp ms me alive (Some (True, zero_segment mp ms)) = (0, Some (s, True))
    \<and> index_wf s \<and> name_map s = (\<lambda>k. None) \<and> irt_header_verify s
    \<and> metas s = replicate (unat mp) zero_meta \<and> lock_free s"
proof (intro exI conjI)
  show "irt_shm_init instance_id mp ms me alive (Some (True, zero_segment mp ms)) =
      (0, Some (fresh_shm mp ms me, True))"
    using assms by (auto simp: irt_shm_init_def IRT_SHM_PREFIX_def fresh_shm_def Let_def)
  show "name_map (fresh_shm mp ms me) = (\<lambda>k. None)"
    using assms by (auto simp: fun_eq_iff name_map_eq_None_iff reg_ids_def fresh_shm_fields reg_def zero_point_def)
qed (use assms in \<open>simp_all add: fresh_index_wf fresh_header_verifies fresh_shm_fields lock_free_def\<close>)

theorem init_creates_empty_directory_witness:
  "\<exists>s. irt_shm_init ''plc1'' 512 16 77 (\<lambda>_. True) (Some (True, zero_segment 512 16)) = (0, Some (s, True))
    \<and> index_wf s \<and> name_map s = (\<lambda>k. None) \<and> irt_header_verify s
    \<and> metas s = replicate (unat (512 :: u32)) zero_meta \<and> lock_free s"
  by (rule init_creates_empty_directory) simp_all

section \<open>Attaching\<close>

lemma odd_plus_one: "(x :: u64) AND 1 \<noteq> 0 \<Longrightarrow> (x + 1) AND 1 = 0"
  by (simp add: and_one_eq mod2_eq_if split: if_splits)

lemma init_attach_fields:
  assumes "init_attach s mypid alive = (s', own)"
  shows "points s' = points s" "slots s' = slots s" "metas s' = metas s" "subs s' = subs s"
    "header_fields s' = header_fields s" "hdr_crc32 s' = hdr_crc32 s" "magic s' = magic s"
    "write_seq s' AND 1 = 0" "write_seq s AND 1 = 0 \<Longrightarrow> write_seq s' = write_seq s"
    "own \<longleftrightarrow> 0 < sint (owner_pid s) \<and> owner_pid s \<noteq> mypid \<and> \<not> alive (owner_pid s)"
    "owner_pid s' = (if own then mypid else owner_pid s)" "index_count s' = index_count s"
  using assms odd_plus_one [of "write_seq s"]
  by (auto simp: init_attach_def Let_def header_fields_def header_ident_fields_def
      header_layout_fields_def split: if_splits)

text \<open>
  C35. Attaching to an existing segment succeeds exactly when its magic number, version, checksum
  and capacity fit; it then changes no point, index slot, metadata or subscriber, keeps the header
  verifiable, takes ownership exactly when the recorded owner is another process that no longer
  exists, and leaves the sequence number even. The errors are reported in the order version,
  capacity, checksum.
\<close>

theorem attach_guard:
  assumes "instance_id \<noteq> []" "length instance_id < 118" "0 < mp"
  shows "case irt_shm_init instance_id mp ms me alive (Some (False, g)) of
      (rc, None) \<Rightarrow>
        rc = (if magic g \<noteq> IRT_MAGIC \<or> version g \<noteq> IRT_SHM_VERSION then IRT_SHM_ERR_VERSION
              else if max_points g < mp \<or> max_subscribers g < ms then IRT_SHM_ERR_ARG
              else IRT_SHM_ERR_CRC) \<and>
        (magic g \<noteq> IRT_MAGIC \<or> version g \<noteq> IRT_SHM_VERSION \<or> max_points g < mp
          \<or> max_subscribers g < ms \<or> \<not> irt_header_verify (handle_on g mp ms))
    | (rc, Some (s, own)) \<Rightarrow>
        rc = 0 \<and> magic g = IRT_MAGIC \<and> version g = IRT_SHM_VERSION \<and> mp \<le> max_points g \<and>
        ms \<le> max_subscribers g \<and> irt_header_verify s \<and>
        points s = points g \<and> slots s = slots g \<and> metas s = metas g \<and> subs s = subs g \<and>
        (own = (0 < sint (owner_pid g) \<and> owner_pid g \<noteq> me \<and> \<not> alive (owner_pid g))) \<and>
        write_seq s AND 1 = 0"
proof -
  let ?h = "handle_on g mp ms"
  obtain s own where a: "init_attach ?h me alive = (s, own)" by (cases "init_attach ?h me alive")
  note f = init_attach_fields [OF a]
  have "irt_header_verify s" if "irt_header_verify ?h"
    using that f(5,6,7) header_crc_cong [OF f(5)] by (simp add: irt_header_verify_def)
  then show ?thesis
    using assms a f by (auto simp: irt_shm_init_def IRT_SHM_PREFIX_def Let_def)
qed

theorem attach_guard_witness:
  "irt_shm_init ''plc1'' 4 0 9 (\<lambda>_. True) (Some (False, zero_segment 4 0)) = (-2, None)"
  using attach_guard [where instance_id = "''plc1''" and mp = 4 and ms = 0 and me = 9
      and alive = "\<lambda>_. True" and g = "zero_segment 4 0"]
  by (auto simp: zero_segment_def IRT_MAGIC_def IRT_SHM_ERR_VERSION_def split: prod.splits option.splits)

text \<open>
  The recovery of an abandoned lock does not ask whether the lock is abandoned: attaching while
  the write lock is held (odd sequence number) makes the lock free for the attacher, whatever the
  test for living processes says.
\<close>

theorem attach_releases_held_lock:
  assumes "write_seq s AND 1 \<noteq> 0" "lock_env s = []"
  shows "\<not> lock_free s \<and> lock_free (fst (init_attach s me alive))
    \<and> fst (irt_seqlock_write_begin (fst (init_attach s me alive))) = write_seq s + 1"
  using assms odd_plus_one [of "write_seq s"]
  by (auto simp: lock_free_def init_attach_def Let_def irt_seqlock_write_begin_def)

theorem attach_releases_held_lock_witness:
  "lock_free (fst (init_attach ((fresh_shm 4 0 1)\<lparr>write_seq := 1\<rparr>) 2 (\<lambda>_. True)))"
  using attach_releases_held_lock [of "(fresh_shm 4 0 1)\<lparr>write_seq := 1\<rparr>" 2 "\<lambda>_. True"]
  by (simp add: fresh_shm_fields)

end
