(* ===== verification/Point_Manager.thy ===== *)
theory Point_Manager
  imports Attach Quality
begin

text \<open>
  The point manager of \<^verbatim>\<open>src/core/irt_point_manager.c\<close>: typed writes under the sequence lock,
  the optimistic read loop, explicit quality, and the timeout scan. Values are the bytes the
  caller's pointer refers to; the clock is an argument.
\<close>

section \<open>Types and access\<close>

definition INDURTDB_TYPE_BOOL :: u8 where "INDURTDB_TYPE_BOOL = 0"
definition INDURTDB_TYPE_INT32 :: u8 where "INDURTDB_TYPE_INT32 = 1"
definition INDURTDB_TYPE_DOUBLE :: u8 where "INDURTDB_TYPE_DOUBLE = 2"
definition INDURTDB_TYPE_STRING :: u8 where "INDURTDB_TYPE_STRING = 3"
definition INDURTDB_TYPE_INT64 :: u8 where "INDURTDB_TYPE_INT64 = 4"
definition INDURTDB_TYPE_UINT32 :: u8 where "INDURTDB_TYPE_UINT32 = 5"
definition INDURTDB_TYPE_FLOAT :: u8 where "INDURTDB_TYPE_FLOAT = 6"

definition INDURTDB_ACCESS_READ_ONLY :: u8 where "INDURTDB_ACCESS_READ_ONLY = 1"
definition INDURTDB_ACCESS_READ_WRITE :: u8 where "INDURTDB_ACCESS_READ_WRITE = 3"

lemmas point_type_defs = INDURTDB_TYPE_BOOL_def INDURTDB_TYPE_INT32_def INDURTDB_TYPE_DOUBLE_def
  INDURTDB_TYPE_STRING_def INDURTDB_TYPE_INT64_def INDURTDB_TYPE_UINT32_def INDURTDB_TYPE_FLOAT_def

declare point_type_defs [irt_codes] INDURTDB_ACCESS_READ_ONLY_def [irt_codes]
  INDURTDB_ACCESS_READ_WRITE_def [irt_codes]

definition IRT_SEQLOCK_MAX_RETRY :: nat where "IRT_SEQLOCK_MAX_RETRY = 3"

section \<open>Locking with retry\<close>

fun lock_retry :: "nat \<Rightarrow> shm \<Rightarrow> u64 \<Rightarrow> u64 \<times> shm" where
  "lock_retry 0 s seq0 = (seq0, s)"
| "lock_retry (Suc n) s seq0 =
     (let (seq0, s) = irt_seqlock_write_begin s
      in if seq0 AND 1 = 0 then (seq0, s) else lock_retry n s seq0)"

text \<open>Whether one of the next \<open>n\<close> attempts succeeds, and the environment left afterwards.\<close>

definition lockable :: "nat \<Rightarrow> shm \<Rightarrow> bool" where
  "lockable n s \<longleftrightarrow> write_seq s AND 1 = 0 \<and> (length (lock_env s) < n \<or> (\<exists>i < n. \<not> lock_env s ! i))"

lemma lock_free_lockable: "lock_free s \<Longrightarrow> 0 < n \<Longrightarrow> lockable n s"
  by (cases "lock_env s") (auto simp: lock_free_def lockable_def)

lemma lock_env_update_simps [simp]:
  "write_seq (s\<lparr>lock_env := e\<rparr>) = write_seq s" "lock_env (s\<lparr>lock_env := e\<rparr>) = e"
  by simp_all

lemma lockable_Suc:
  "lockable (Suc n) s \<longleftrightarrow> lock_free s \<or> (\<not> lock_free s \<and> lockable n (s\<lparr>lock_env := tl (lock_env s)\<rparr>))"
proof (cases "lock_env s")
  case (Cons b e)
  have "(\<exists>i < Suc n. \<not> (b # e) ! i) \<longleftrightarrow> \<not> b \<or> (\<exists>i < n. \<not> e ! i)"
    by (auto simp: less_Suc_eq_0_disj)
  then show ?thesis using Cons by (auto simp: lockable_def lock_free_def)
qed (auto simp: lockable_def lock_free_def)

lemma lock_retry_spec:
  assumes "lock_retry n s q = (seq0, s')" "0 < n"
  shows "lockable n s \<and> seq0 = write_seq s \<and> seq0 AND 1 = 0 \<and>
      (\<exists>e. s' = s\<lparr>lock_env := e, write_seq := write_seq s + 1\<rparr>)
    \<or> \<not> lockable n s \<and> seq0 AND 1 \<noteq> 0 \<and> (\<exists>e. s' = s\<lparr>lock_env := e\<rparr>)"
  using assms
proof (induction n arbitrary: s q)
  case (Suc n)
  show ?case
  proof (cases "lock_free s")
    case True
    then show ?thesis
      using Suc.prems lock_free_even [OF True]
      by (auto simp: write_begin_free lockable_Suc)
  next
    case False
    let ?s = "s\<lparr>lock_env := tl (lock_env s)\<rparr>"
    have r: "lock_retry n ?s (write_seq s OR 1) = (seq0, s')"
      using Suc.prems(1) or_one_odd [of "write_seq s"] by (simp add: write_begin_busy [OF False])
    show ?thesis
    proof (cases "n = 0")
      case True
      then have "\<not> lockable (Suc n) s" using False by (simp add: lockable_Suc) (simp add: lockable_def)
      then show ?thesis using r True or_one_odd [of "write_seq s"] by auto
    next
      case n: False
      then show ?thesis using Suc.IH [OF r] False by (auto simp: lockable_Suc)
    qed
  qed
qed simp

section \<open>Writing\<close>

definition irt_pm_validate_id :: "shm \<Rightarrow> u32 \<Rightarrow> bool" where
  "irt_pm_validate_id s pid \<longleftrightarrow> pid < max_points s"

definition c_str32 :: "u8 list \<Rightarrow> u8 list" where
  "c_str32 v = (let t = take 31 (takeWhile (\<lambda>b. b \<noteq> 0) v) in t @ replicate (32 - length t) 0)"

text \<open>The assignment to one member of the value union: the other bytes keep their contents.\<close>

definition store_value :: "u8 \<Rightarrow> u8 list \<Rightarrow> u8 list \<Rightarrow> u8 list" where
  "store_value t v old =
     (if t = INDURTDB_TYPE_BOOL then take 1 v @ drop 1 old
      else if t = INDURTDB_TYPE_INT32 then take 4 v @ drop 4 old
      else if t = INDURTDB_TYPE_INT64 then take 8 v @ drop 8 old
      else if t = INDURTDB_TYPE_UINT32 then take 4 v @ drop 4 old
      else if t = INDURTDB_TYPE_FLOAT then take 4 v @ drop 4 old
      else if t = INDURTDB_TYPE_DOUBLE then take 8 v @ drop 8 old
      else if t = INDURTDB_TYPE_STRING then c_str32 v
      else old)"

definition pm_write_impl_q ::
  "shm \<Rightarrow> u64 \<Rightarrow> u32 \<Rightarrow> u8 \<Rightarrow> u8 list \<Rightarrow> u64 \<Rightarrow> u8 \<Rightarrow> int \<times> shm" where
  "pm_write_impl_q s now pid t v source_ts q =
     (if \<not> irt_pm_validate_id s pid then (-1, s)
      else if off_points s = 0 then (-1, s)
      else
        let (seq0, s) = lock_retry IRT_SEQLOCK_MAX_RETRY s 0
        in if seq0 AND 1 \<noteq> 0 then (-2, s)
           else
             let p = points s ! unat pid
             in if access p = INDURTDB_ACCESS_READ_ONLY then (-3, irt_seqlock_write_end s seq0)
                else
                  let p = p\<lparr>pt_type := t, pt_value := store_value t v (pt_value p),
                            timestamp_ns := now, quality := q, source_timestamp_ns := source_ts\<rparr>;
                      s = s\<lparr>points := (points s)[unat pid := p]\<rparr>;
                      s = irt_seqlock_write_end s seq0
                  in (0, s\<lparr>st_writes := st_writes s + 1\<rparr>))"

definition pm_write_impl :: "shm \<Rightarrow> u64 \<Rightarrow> u32 \<Rightarrow> u8 \<Rightarrow> u8 list \<Rightarrow> u64 \<Rightarrow> int \<times> shm" where
  "pm_write_impl s now pid t v source_ts = pm_write_impl_q s now pid t v source_ts QUALITY_GOOD"

definition irt_pm_write_quality_ts ::
  "shm \<Rightarrow> u64 \<Rightarrow> u32 \<Rightarrow> u8 \<Rightarrow> u8 list \<Rightarrow> u64 \<Rightarrow> u8 \<Rightarrow> int \<times> shm" where
  "irt_pm_write_quality_ts s now pid t v source_ts q = pm_write_impl_q s now pid t v source_ts q"

text \<open>Little-endian object representations of the C arguments.\<close>

definition bytes_of_bool :: "bool \<Rightarrow> u8 list" where
  "bytes_of_bool b = [if b then 1 else 0]"

definition bytes_of_u64 :: "u64 \<Rightarrow> u8 list" where
  "bytes_of_u64 w = map (\<lambda>i. ucast (drop_bit (8 * i) w)) [0..<8]"

definition bytes_of_string :: "string \<Rightarrow> u8 list" where
  "bytes_of_string cs = map of_char cs @ [0]"

definition irt_pm_write_bool :: "shm \<Rightarrow> u64 \<Rightarrow> u32 \<Rightarrow> bool \<Rightarrow> int \<times> shm" where
  "irt_pm_write_bool s now pid v = pm_write_impl s now pid INDURTDB_TYPE_BOOL (bytes_of_bool v) 0"
definition irt_pm_write_int32 :: "shm \<Rightarrow> u64 \<Rightarrow> u32 \<Rightarrow> u32 \<Rightarrow> int \<times> shm" where
  "irt_pm_write_int32 s now pid v = pm_write_impl s now pid INDURTDB_TYPE_INT32 (le32 v) 0"
definition irt_pm_write_double :: "shm \<Rightarrow> u64 \<Rightarrow> u32 \<Rightarrow> u64 \<Rightarrow> int \<times> shm" where
  "irt_pm_write_double s now pid v = pm_write_impl s now pid INDURTDB_TYPE_DOUBLE (bytes_of_u64 v) 0"
definition irt_pm_write_int64 :: "shm \<Rightarrow> u64 \<Rightarrow> u32 \<Rightarrow> u64 \<Rightarrow> int \<times> shm" where
  "irt_pm_write_int64 s now pid v = pm_write_impl s now pid INDURTDB_TYPE_INT64 (bytes_of_u64 v) 0"
definition irt_pm_write_uint32 :: "shm \<Rightarrow> u64 \<Rightarrow> u32 \<Rightarrow> u32 \<Rightarrow> int \<times> shm" where
  "irt_pm_write_uint32 s now pid v = pm_write_impl s now pid INDURTDB_TYPE_UINT32 (le32 v) 0"
definition irt_pm_write_float :: "shm \<Rightarrow> u64 \<Rightarrow> u32 \<Rightarrow> u32 \<Rightarrow> int \<times> shm" where
  "irt_pm_write_float s now pid v = pm_write_impl s now pid INDURTDB_TYPE_FLOAT (le32 v) 0"
definition irt_pm_write_string :: "shm \<Rightarrow> u64 \<Rightarrow> u32 \<Rightarrow> string \<Rightarrow> int \<times> shm" where
  "irt_pm_write_string s now pid v = pm_write_impl s now pid INDURTDB_TYPE_STRING (bytes_of_string v) 0"

definition irt_pm_write_bool_ts :: "shm \<Rightarrow> u64 \<Rightarrow> u32 \<Rightarrow> bool \<Rightarrow> u64 \<Rightarrow> int \<times> shm" where
  "irt_pm_write_bool_ts s now pid v ts = pm_write_impl s now pid INDURTDB_TYPE_BOOL (bytes_of_bool v) ts"
definition irt_pm_write_int32_ts :: "shm \<Rightarrow> u64 \<Rightarrow> u32 \<Rightarrow> u32 \<Rightarrow> u64 \<Rightarrow> int \<times> shm" where
  "irt_pm_write_int32_ts s now pid v ts = pm_write_impl s now pid INDURTDB_TYPE_INT32 (le32 v) ts"
definition irt_pm_write_double_ts :: "shm \<Rightarrow> u64 \<Rightarrow> u32 \<Rightarrow> u64 \<Rightarrow> u64 \<Rightarrow> int \<times> shm" where
  "irt_pm_write_double_ts s now pid v ts = pm_write_impl s now pid INDURTDB_TYPE_DOUBLE (bytes_of_u64 v) ts"
definition irt_pm_write_int64_ts :: "shm \<Rightarrow> u64 \<Rightarrow> u32 \<Rightarrow> u64 \<Rightarrow> u64 \<Rightarrow> int \<times> shm" where
  "irt_pm_write_int64_ts s now pid v ts = pm_write_impl s now pid INDURTDB_TYPE_INT64 (bytes_of_u64 v) ts"
definition irt_pm_write_uint32_ts :: "shm \<Rightarrow> u64 \<Rightarrow> u32 \<Rightarrow> u32 \<Rightarrow> u64 \<Rightarrow> int \<times> shm" where
  "irt_pm_write_uint32_ts s now pid v ts = pm_write_impl s now pid INDURTDB_TYPE_UINT32 (le32 v) ts"
definition irt_pm_write_float_ts :: "shm \<Rightarrow> u64 \<Rightarrow> u32 \<Rightarrow> u32 \<Rightarrow> u64 \<Rightarrow> int \<times> shm" where
  "irt_pm_write_float_ts s now pid v ts = pm_write_impl s now pid INDURTDB_TYPE_FLOAT (le32 v) ts"
definition irt_pm_write_string_ts :: "shm \<Rightarrow> u64 \<Rightarrow> u32 \<Rightarrow> string \<Rightarrow> u64 \<Rightarrow> int \<times> shm" where
  "irt_pm_write_string_ts s now pid v ts = pm_write_impl s now pid INDURTDB_TYPE_STRING (bytes_of_string v) ts"

definition irt_pm_set_quality :: "shm \<Rightarrow> u32 \<Rightarrow> u8 \<Rightarrow> int \<times> shm" where
  "irt_pm_set_quality s pid q =
     (if \<not> irt_pm_validate_id s pid then (-1, s)
      else if off_points s = 0 then (-1, s)
      else let (seq0, s) = irt_seqlock_write_begin s
           in if seq0 AND 1 \<noteq> 0 then (-2, s)
              else let s = s\<lparr>points := (points s)[unat pid := (points s ! unat pid)\<lparr>quality := q\<rparr>]\<rparr>
                   in (0, irt_seqlock_write_end s seq0))"

definition irt_pm_write_count :: "shm \<Rightarrow> u64" where
  "irt_pm_write_count s = st_writes s"

section \<open>Reading\<close>

text \<open>
  The read loop \<open>do { s0 = seq; if (s0 & 1) continue; copy; s1 = seq; } while (s0 != s1)\<close> over the
  values its iterations observe: the first load, the copy, the second load. In C \<open>continue\<close> jumps
  to the loop condition, which then compares \<open>s0\<close> with the \<open>s1\<close> of an earlier iteration
  (1 initially). \<open>None\<close>: the loop is still running when the observations end.
\<close>

fun pm_read_loop :: "(u64 \<times> point \<times> u64) list \<Rightarrow> u64 \<Rightarrow> point \<Rightarrow> point option" where
  "pm_read_loop [] s1 out = None"
| "pm_read_loop ((s0, copy, s1') # obs) s1 out =
     (if s0 AND 1 \<noteq> 0 then (if s0 \<noteq> s1 then pm_read_loop obs s1 out else Some out)
      else if s0 \<noteq> s1' then pm_read_loop obs s1' copy
      else Some copy)"

text \<open>A reader that nobody interferes with observes the current state in every iteration.\<close>

definition quiet :: "shm \<Rightarrow> u32 \<Rightarrow> (u64 \<times> point \<times> u64) list" where
  "quiet s pid = [(write_seq s, points s ! unat pid, write_seq s)]"

definition irt_pm_read ::
  "shm \<Rightarrow> (u64 \<times> point \<times> u64) list \<Rightarrow> u32 \<Rightarrow> point \<Rightarrow> (int \<times> point) option" where
  "irt_pm_read s obs pid out =
     (if \<not> irt_pm_validate_id s pid then Some (-1, out)
      else if off_points s = 0 then Some (-1, out)
      else map_option (Pair 0) (pm_read_loop obs 1 out))"

definition irt_pm_peek :: "shm \<Rightarrow> (u64 \<times> point \<times> u64) list \<Rightarrow> u32 \<Rightarrow> point \<Rightarrow> point option option" where
  "irt_pm_peek s obs pid buf =
     (if \<not> irt_pm_validate_id s pid then Some None
      else if off_points s = 0 then Some None
      else map_option Some (pm_read_loop obs 1 buf))"

section \<open>The timeout scan\<close>

text \<open>One iteration of the scan; \<open>None\<close> when its read loop never ends.\<close>

definition check_timeout_at :: "u64 \<Rightarrow> u64 \<Rightarrow> u32 \<Rightarrow> int \<times> shm \<Rightarrow> (int \<times> shm) option" where
  "check_timeout_at now timeout_ns pid st =
     (let (detected, s) = st
      in case pm_read_loop (quiet s pid) 1 zero_point of
        None \<Rightarrow> None
      | Some r \<Rightarrow>
          let ts = timestamp_ns r; q = quality r
          in if ts = 0 then Some (detected, s)
             else if q = QUALITY_TIMEOUT then Some (detected, s)
             else if now \<le> ts then Some (detected, s)
             else if now - ts \<le> timeout_ns then Some (detected, s)
             else
               let (seq0, s) = irt_seqlock_write_begin s
               in if seq0 AND 1 \<noteq> 0
                  then Some (detected, s\<lparr>scan_skipped := scan_skipped s + 1\<rparr>)
                  else
                    let p = points s ! unat pid
                    in if timestamp_ns p = 0 \<or> now \<le> timestamp_ns p \<or> quality p = QUALITY_TIMEOUT
                          \<or> now - timestamp_ns p \<le> timeout_ns
                       then Some (detected, irt_seqlock_write_end s seq0)
                       else
                         let p = p\<lparr>quality := QUALITY_MAKE QUALITY_TIMEOUT (QUALITY_LIMIT (quality p))\<rparr>;
                             s = s\<lparr>points := (points s)[unat pid := p]\<rparr>;
                             s = irt_seqlock_write_end s seq0
                         in Some (detected + 1, s\<lparr>st_timeouts := st_timeouts s + 1\<rparr>))"

fun check_timeouts_from :: "u64 \<Rightarrow> u64 \<Rightarrow> u32 list \<Rightarrow> int \<times> shm \<Rightarrow> (int \<times> shm) option" where
  "check_timeouts_from now timeout_ns [] st = Some st"
| "check_timeouts_from now timeout_ns (pid # pids) st =
     (case check_timeout_at now timeout_ns pid st of
        None \<Rightarrow> None
      | Some st \<Rightarrow> check_timeouts_from now timeout_ns pids st)"

definition irt_pm_check_timeouts :: "shm \<Rightarrow> u64 \<Rightarrow> u64 \<Rightarrow> (int \<times> shm) option" where
  "irt_pm_check_timeouts s now timeout_ns =
     (if timeout_ns = 0 then Some (0, s)
      else if off_points s = 0 then Some (0, s)
      else if now = 0 then Some (0, s)
      else check_timeouts_from now timeout_ns (map word_of_nat [0..<unat (max_points s)]) (0, s))"

section \<open>Writes: what happens on every branch\<close>

definition written_point :: "point \<Rightarrow> u64 \<Rightarrow> u8 \<Rightarrow> u8 list \<Rightarrow> u64 \<Rightarrow> u8 \<Rightarrow> point" where
  "written_point p now t v source_ts q =
     p\<lparr>pt_type := t, pt_value := store_value t v (pt_value p), timestamp_ns := now, quality := q,
       source_timestamp_ns := source_ts\<rparr>"

lemma pm_write_cases:
  obtains (arg) "\<not> irt_pm_validate_id s pid \<or> off_points s = 0"
      "pm_write_impl_q s now pid t v ts q = (-1, s)"
  | (busy) e where "irt_pm_validate_id s pid" "off_points s \<noteq> 0" "\<not> lockable 3 s"
      "pm_write_impl_q s now pid t v ts q = (-2, s\<lparr>lock_env := e\<rparr>)"
  | (read_only) e where "irt_pm_validate_id s pid" "off_points s \<noteq> 0" "lockable 3 s"
      "access (points s ! unat pid) = INDURTDB_ACCESS_READ_ONLY"
      "pm_write_impl_q s now pid t v ts q = (-3, s\<lparr>lock_env := e, write_seq := write_seq s + 2\<rparr>)"
  | (ok) e where "irt_pm_validate_id s pid" "off_points s \<noteq> 0" "lockable 3 s"
      "access (points s ! unat pid) \<noteq> INDURTDB_ACCESS_READ_ONLY"
      "pm_write_impl_q s now pid t v ts q =
        (0, s\<lparr>lock_env := e,
             points := (points s)[unat pid := written_point (points s ! unat pid) now t v ts q],
             write_seq := write_seq s + 2, st_writes := st_writes s + 1\<rparr>)"
proof (cases "\<not> irt_pm_validate_id s pid \<or> off_points s = 0")
  case True
  then show ?thesis by (intro arg) (auto simp: pm_write_impl_q_def)
next
  case False
  obtain seq0 s1 where l: "lock_retry 3 s 0 = (seq0, s1)" by (cases "lock_retry 3 s 0")
  consider e where "lockable 3 s" "seq0 = write_seq s" "seq0 AND 1 = 0"
      "s1 = s\<lparr>lock_env := e, write_seq := write_seq s + 1\<rparr>"
    | e where "\<not> lockable 3 s" "seq0 AND 1 \<noteq> 0" "s1 = s\<lparr>lock_env := e\<rparr>"
    using lock_retry_spec [OF l] by auto
  then show ?thesis
  proof cases
    case 1
    then show ?thesis
    proof (cases "access (points s ! unat pid) = INDURTDB_ACCESS_READ_ONLY")
      case True
      then show ?thesis
        using False 1 l
        by (intro read_only) (auto simp: pm_write_impl_q_def IRT_SEQLOCK_MAX_RETRY_def Let_def irt_seqlock_write_end_def)
    next
      case rw: False
      then show ?thesis
        using False 1 l
        by (intro ok [of e]) (auto simp: pm_write_impl_q_def IRT_SEQLOCK_MAX_RETRY_def Let_def
            irt_seqlock_write_end_def written_point_def)
    qed
  next
    case 2
    then show ?thesis
      using False l by (intro busy) (auto simp: pm_write_impl_q_def IRT_SEQLOCK_MAX_RETRY_def Let_def)
  qed
qed

lemma lockable_even: "lockable n s \<Longrightarrow> write_seq s AND 1 = 0"
  by (simp add: lockable_def)

lemma written_point_key [simp]: "pkey (written_point p now t v ts q) = pkey p"
  by (simp add: written_point_def pkey_def)

text \<open>Fields outside the regions do not matter to the invariant.\<close>

lemma index_wf_cong:
  assumes "index_wf s" "shm_wf s \<Longrightarrow> shm_wf t"
    "slots t = slots s" "index_count t = index_count s" "max_points t = max_points s"
    "length (points t) = length (points s)"
    "\<And>i. i < length (points s) \<Longrightarrow> pkey (points t ! i) = pkey (points s ! i)"
  shows "index_wf t"
  using index_wf_ex_cong [of "{}" s t] index_wf_exD(1) [of "{}" s] assms by (simp add: index_wf_def)

lemma pkey_list_update:
  "pkey p = pkey (xs ! j) \<Longrightarrow> pkey (xs[j := p] ! i) = pkey (xs ! i)"
  by (cases "i = j"; cases "j < length xs") (auto simp: list_update_beyond)

lemma index_wf_frame:
  assumes "index_wf s"
  shows "index_wf (s\<lparr>lock_env := e\<rparr>)" "index_wf (s\<lparr>lock_env := e, write_seq := w\<rparr>)"
    "index_wf (s\<lparr>write_seq := w\<rparr>)" "index_wf (s\<lparr>st_writes := a\<rparr>)" "index_wf (s\<lparr>st_timeouts := a\<rparr>)"
    "index_wf (s\<lparr>scan_skipped := b\<rparr>)"
  by (rule index_wf_cong [OF assms]; simp add: shm_wf_def)+

lemma index_wf_point_update:
  assumes "index_wf s" "pkey p = pkey (points s ! j)"
  shows "index_wf (s\<lparr>points := (points s)[j := p]\<rparr>)"
  by (rule index_wf_cong [OF assms(1)]) (simp_all add: shm_wf_def pkey_list_update assms(2))

lemma pm_write_index_wf:
  assumes "index_wf s" shows "index_wf (snd (pm_write_impl_q s now pid t v ts q))"
proof (cases rule: pm_write_cases [of s pid now t v ts q])
  case (ok e)
  then show ?thesis
    using index_wf_point_update [OF index_wf_frame(1) [OF assms]]
    by (auto intro!: index_wf_frame)
qed (use assms in \<open>simp_all add: index_wf_frame\<close>)

lemma pm_read_quiet:
  assumes "irt_pm_validate_id s pid" "off_points s \<noteq> 0" "write_seq s AND 1 = 0"
  shows "irt_pm_read s (quiet s pid) pid buf = Some (0, points s ! unat pid)"
  using assms by (simp add: irt_pm_read_def quiet_def)

text \<open>
  C9. A write to a registered or unregistered point slot of a well-formed segment has one of four
  outcomes. Out of range: code -1 and nothing changes. Lock not obtained in three attempts: code
  -2 and nothing but the environment changes. Read-only point: code -3, no point changes. Otherwise
  code 0: an undisturbed read returns the point with the new type, value bytes, timestamps and
  quality and with its name, partition, unit and access unchanged; every other point is unchanged,
  the write counter grows by one, the sequence number by two and the table invariant is kept.
\<close>

theorem pm_write_functional:
  assumes "index_wf s" and "pm_write_impl_q s now pid t v ts q = (rc, s')"
  shows "rc = (if max_points s \<le> pid then -1 else if \<not> lockable 3 s then -2
               else if access (points s ! unat pid) = INDURTDB_ACCESS_READ_ONLY then -3 else 0)
    \<and> index_wf s'
    \<and> (rc \<noteq> 0 \<longrightarrow> points s' = points s \<and> st_writes s' = st_writes s)
    \<and> (rc = 0 \<longrightarrow>
        irt_pm_read s' (quiet s' pid) pid buf =
          Some (0, (points s ! unat pid)\<lparr>pt_type := t, pt_value := store_value t v (pt_value (points s ! unat pid)),
            timestamp_ns := now, quality := q, source_timestamp_ns := ts\<rparr>)
        \<and> (\<forall>j. j \<noteq> pid \<longrightarrow> points s' ! unat j = points s ! unat j)
        \<and> st_writes s' = st_writes s + 1 \<and> write_seq s' = write_seq s + 2)"
proof -
  have wf: "shm_wf s" using assms(1) by (simp add: index_wf_def index_wf_ex_def)
  have wf': "index_wf s'" using pm_write_index_wf [OF assms(1), of now pid t v ts q] assms(2) by simp
  show ?thesis
  proof (cases rule: pm_write_cases [of s pid now t v ts q])
    case (ok e)
    then have "unat pid < length (points s)"
      using wf by (simp add: irt_pm_validate_id_def shm_wf_def word_less_nat_alt)
    then show ?thesis
      using ok assms(2) wf' lockable_even [OF ok(3)]
      by (auto simp: irt_pm_validate_id_def irt_pm_read_def quiet_def add_two_even written_point_def)
  qed (use assms(2) wf wf' in \<open>auto simp: irt_pm_validate_id_def shm_wf_def\<close>)
qed

section \<open>The timeout scan marks exactly the overdue points\<close>

text \<open>
  A point is stale when it was written at least once and its last write is older than the timeout, and
  timed out when the base code of its quality says so, whatever its limit bits are. The scan is meant
  for the overdue points: the stale ones that are not timed out. The code compares the whole quality
  byte with the timeout code, so it also takes the stale points that are timed out and carry other bits.
\<close>

definition stale :: "u64 \<Rightarrow> u64 \<Rightarrow> point \<Rightarrow> bool" where
  "stale now timeout_ns p \<longleftrightarrow>
     timestamp_ns p \<noteq> 0 \<and> timestamp_ns p < now \<and> timeout_ns < now - timestamp_ns p"

definition timed_out :: "point \<Rightarrow> bool" where
  "timed_out p \<longleftrightarrow> QUALITY_BASE (quality p) = QUALITY_TIMEOUT"

definition overdue :: "u64 \<Rightarrow> u64 \<Rightarrow> point \<Rightarrow> bool" where
  "overdue now timeout_ns p \<longleftrightarrow> stale now timeout_ns p \<and> \<not> timed_out p"

definition redetected :: "u64 \<Rightarrow> u64 \<Rightarrow> point \<Rightarrow> bool" where
  "redetected now timeout_ns p \<longleftrightarrow> stale now timeout_ns p \<and> timed_out p \<and> quality p \<noteq> QUALITY_TIMEOUT"

definition scan_due :: "u64 \<Rightarrow> u64 \<Rightarrow> point \<Rightarrow> bool" where
  "scan_due now timeout_ns p \<longleftrightarrow> overdue now timeout_ns p \<or> redetected now timeout_ns p"

definition mark_timeout :: "point \<Rightarrow> point" where
  "mark_timeout p = p\<lparr>quality := QUALITY_MAKE QUALITY_TIMEOUT (QUALITY_LIMIT (quality p))\<rparr>"

text \<open>
  Which of the points that need the lock get it: one attempt each, in the order of the scan, and
  \<open>env\<close> says for each attempt whether another process holds the lock.
\<close>

fun lock_winners :: "bool list \<Rightarrow> u32 list \<Rightarrow> u32 list" where
  "lock_winners env [] = []"
| "lock_winners [] (i # is) = i # is"
| "lock_winners (contended # env) (i # is) =
     (if contended then lock_winners env is else i # lock_winners env is)"

lemma lock_winners_free [simp]: "lock_winners [] is = is"
  by (cases "is") simp_all

lemma lock_winners_Cons:
  "lock_winners env (i # is) =
     (if (case env of [] \<Rightarrow> False | b # _ \<Rightarrow> b) then lock_winners (tl env) is else i # lock_winners (tl env) is)"
  by (cases env) simp_all

lemma lock_winners_subset: "set (lock_winners env is) \<subseteq> set is"
  by (induction env "is" rule: lock_winners.induct) auto

lemma lock_winners_distinct: "distinct is \<Longrightarrow> distinct (lock_winners env is)"
  by (induction env "is" rule: lock_winners.induct) (auto dest: subsetD [OF lock_winners_subset])

lemma lock_winners_length: "length (lock_winners env is) \<le> length is"
  by (induction env "is" rule: lock_winners.induct) auto

lemma timed_out_timeout: "quality p = QUALITY_TIMEOUT \<Longrightarrow> timed_out p"
  by (simp add: timed_out_def QUALITY_BASE_def QUALITY_TIMEOUT_def)

lemma scan_due_guard:
  "scan_due now timeout_ns p \<longleftrightarrow> timestamp_ns p \<noteq> 0 \<and> quality p \<noteq> QUALITY_TIMEOUT \<and>
     timestamp_ns p < now \<and> timeout_ns < now - timestamp_ns p"
  using timed_out_timeout [of p] by (auto simp: scan_due_def overdue_def redetected_def stale_def)

lemma check_timeout_at_cases:
  assumes "write_seq s AND 1 = 0"
  obtains (not_due) "\<not> scan_due now tmo (points s ! unat pid)"
      "check_timeout_at now tmo pid (d, s) = Some (d, s)"
  | (skipped) "scan_due now tmo (points s ! unat pid)" "\<not> lock_free s"
      "check_timeout_at now tmo pid (d, s) =
        Some (d, s\<lparr>lock_env := tl (lock_env s), scan_skipped := scan_skipped s + 1\<rparr>)"
  | (marked) "scan_due now tmo (points s ! unat pid)" "lock_free s"
      "check_timeout_at now tmo pid (d, s) =
        Some (d + 1, s\<lparr>lock_env := tl (lock_env s),
          points := (points s)[unat pid := mark_timeout (points s ! unat pid)],
          write_seq := write_seq s + 2, st_timeouts := st_timeouts s + 1\<rparr>)"
proof -
  let ?p = "points s ! unat pid"
  have r: "pm_read_loop (quiet s pid) 1 zero_point = Some ?p"
    using assms by (simp add: quiet_def)
  show ?thesis
  proof (cases "scan_due now tmo ?p")
    case False
    then show ?thesis
      by (intro not_due) (auto simp: check_timeout_at_def r Let_def scan_due_guard not_less not_le)
  next
    case due: True
    then have g: "timestamp_ns ?p \<noteq> 0" "quality ?p \<noteq> QUALITY_TIMEOUT" "\<not> now \<le> timestamp_ns ?p"
      "\<not> now - timestamp_ns ?p \<le> tmo" by (auto simp: scan_due_guard)
    show ?thesis
    proof (cases "lock_free s")
      case True
      then show ?thesis
        using due g assms
        by (intro marked) (simp_all add: check_timeout_at_def r Let_def write_begin_free
            irt_seqlock_write_end_def mark_timeout_def)
    next
      case False
      then show ?thesis
        using due g or_one_odd [of "write_seq s"]
        by (intro skipped) (simp_all add: check_timeout_at_def r Let_def write_begin_busy)
    qed
  qed
qed

lemma check_timeouts_from_spec:
  fixes now tmo :: u64
  assumes "write_seq s AND 1 = 0" "distinct ids" "\<forall>i \<in> set ids. unat i < length (points s)"
  defines "due \<equiv> filter (\<lambda>i. scan_due now tmo (points s ! unat i)) ids"
  defines "W \<equiv> lock_winners (lock_env s) due"
  shows "\<exists>s'. check_timeouts_from now tmo ids (d, s) = Some (d + int (length W), s')
    \<and> (\<forall>i. points s' ! unat i = (if i \<in> set W then mark_timeout (points s ! unat i) else points s ! unat (i :: u32)))
    \<and> length (points s') = length (points s)
    \<and> scan_skipped s' = scan_skipped s + word_of_nat (length due - length W)
    \<and> st_timeouts s' = st_timeouts s + word_of_nat (length W)
    \<and> lock_env s' = drop (length due) (lock_env s) \<and> write_seq s' AND 1 = 0
    \<and> (index_wf s \<longrightarrow> index_wf s')"
  using assms(1-3) unfolding W_def due_def
proof (induction ids arbitrary: d s)
  case Nil
  then show ?case by (intro exI [of _ s]) simp
next
  case (Cons a ids)
  let ?due = "\<lambda>s. filter (\<lambda>i. scan_due now tmo (points s ! unat i)) ids"
  let ?W = "\<lambda>s. lock_winners (lock_env s) (?due s)"
  show ?case
  proof (cases rule: check_timeout_at_cases [OF Cons.prems(1), of now tmo a d])
    case 1
    then show ?thesis using Cons.IH [of s d] Cons.prems by simp
  next
    case 2
    let ?s = "s\<lparr>lock_env := tl (lock_env s), scan_skipped := scan_skipped s + 1\<rparr>"
    obtain env where env: "lock_env s = True # env"
      using 2(2) Cons.prems(1) by (auto simp: lock_free_def split: list.splits)
    have le: "length (lock_winners env (?due s)) \<le> length (?due s)" by (rule lock_winners_length)
    obtain s' where IH: "check_timeouts_from now tmo ids (d, ?s) = Some (d + int (length (?W ?s)), s')"
      "\<forall>i. points s' ! unat i = (if i \<in> set (?W ?s) then mark_timeout (points s ! unat i) else points s ! unat i)"
      "length (points s') = length (points s)"
      "scan_skipped s' = scan_skipped s + 1 + word_of_nat (length (?due s) - length (?W ?s))"
      "st_timeouts s' = st_timeouts s + word_of_nat (length (?W ?s))"
      "lock_env s' = drop (length (?due s)) (tl (lock_env s))" "write_seq s' AND 1 = 0"
      "index_wf ?s \<longrightarrow> index_wf s'"
      using Cons.IH [of ?s d] Cons.prems by auto
    then show ?thesis
      using 2(1,3) env le index_wf_frame(1,6)
      by (intro exI [of _ s']) (auto simp: Suc_diff_le ac_simps)
  next
    case 3
    let ?s = "s\<lparr>lock_env := tl (lock_env s), points := (points s)[unat a := mark_timeout (points s ! unat a)],
          write_seq := write_seq s + 2, st_timeouts := st_timeouts s + 1\<rparr>"
    have al: "unat a < length (points s)" using Cons.prems(3) by simp
    have same: "points ?s ! unat i = points s ! unat i" if "i \<in> set ids" for i
    proof -
      have "a \<noteq> i" using that Cons.prems(2) by auto
      then show ?thesis by simp
    qed
    have due: "?due ?s = ?due s" by (rule filter_cong [OF refl]) (use same in simp)
    have W: "lock_winners (lock_env s) (a # ?due s) = a # ?W ?s"
      using 3(2) unfolding lock_winners_Cons due by (auto simp: lock_free_def split: list.splits)
    have aW: "a \<notin> set (?W ?s)" "set (?W ?s) \<subseteq> set ids"
      using lock_winners_subset [of "lock_env ?s" "?due ?s"] Cons.prems(2) by auto
    obtain s' where IH: "check_timeouts_from now tmo ids (d + 1, ?s) = Some (d + 1 + int (length (?W ?s)), s')"
      "\<forall>i. points s' ! unat i = (if i \<in> set (?W ?s) then mark_timeout (points ?s ! unat i) else points ?s ! unat i)"
      "length (points s') = length (points s)"
      "scan_skipped s' = scan_skipped s + word_of_nat (length (?due s) - length (?W ?s))"
      "st_timeouts s' = st_timeouts s + 1 + word_of_nat (length (?W ?s))"
      "lock_env s' = drop (length (?due s)) (tl (lock_env s))" "write_seq s' AND 1 = 0"
      "index_wf ?s \<longrightarrow> index_wf s'"
      using Cons.IH [of ?s "d + 1"] Cons.prems unfolding due by (auto simp: add_two_even)
    have "index_wf s \<longrightarrow> index_wf ?s"
      using index_wf_point_update [OF index_wf_frame(1) [of s "tl (lock_env s)"], of "mark_timeout (points s ! unat a)" "unat a"]
      by (auto intro!: index_wf_frame simp: mark_timeout_def pkey_def)
    moreover have "points s' ! unat i = (if i \<in> set (a # ?W ?s) then mark_timeout (points s ! unat i) else points s ! unat i)" for i
      using IH(2) aW al same by (cases "i = a") auto
    moreover have "filter (\<lambda>i. scan_due now tmo (points s ! unat i)) (a # ids) = a # ?due s" using 3(1) by simp
    ultimately show ?thesis
      using 3(3) IH(1,3-8) W by (intro exI [of _ s']) (simp add: drop_Suc ac_simps)
  qed
qed

lemma check_timeouts_spec:
  fixes now timeout_ns :: u64
  assumes "index_wf s" "write_seq s AND 1 = 0" "timeout_ns \<noteq> 0" "now \<noteq> 0"
  defines "due \<equiv> filter (\<lambda>i. scan_due now timeout_ns (points s ! unat i)) (map word_of_nat [0..<unat (max_points s)])"
  defines "W \<equiv> set (lock_winners (lock_env s) due)"
  shows "\<exists>s'. irt_pm_check_timeouts s now timeout_ns = Some (int (card W), s')
    \<and> (\<forall>i < max_points s. points s' ! unat i = (if i \<in> W then mark_timeout (points s ! unat i) else points s ! unat i))
    \<and> scan_skipped s' = scan_skipped s + word_of_nat (length due - card W)
    \<and> st_timeouts s' = st_timeouts s + word_of_nat (card W)
    \<and> lock_env s' = drop (length due) (lock_env s) \<and> index_wf s'
    \<and> max_points s' = max_points s \<and> write_seq s' AND 1 = 0"
proof -
  let ?N = "unat (max_points s)"
  let ?ids = "map word_of_nat [0..<?N] :: u32 list"
  have wf: "shm_wf s" using assms(1) by (simp add: index_wf_def index_wf_ex_def)
  have dist: "distinct ?ids" and set: "set ?ids = {i. i < max_points s}"
    by (rule distinct_words_below, rule set_words_below)
  have "distinct due" using dist by (simp add: due_def)
  then have card: "card W = length (lock_winners (lock_env s) due)"
    unfolding W_def by (intro distinct_card lock_winners_distinct)
  have "\<forall>i \<in> set ?ids. unat i < length (points s)"
    using wf unfolding set by (simp add: shm_wf_def word_less_nat_alt)
  from check_timeouts_from_spec [OF assms(2) dist this, of now timeout_ns 0, folded due_def, folded W_def card]
  obtain s' where s': "check_timeouts_from now timeout_ns ?ids (0, s) = Some (int (card W), s')"
    "\<forall>i. points s' ! unat i = (if i \<in> W then mark_timeout (points s ! unat i) else points s ! unat i)"
    "scan_skipped s' = scan_skipped s + word_of_nat (length due - card W)"
    "st_timeouts s' = st_timeouts s + word_of_nat (card W)"
    "lock_env s' = drop (length due) (lock_env s)" "index_wf s'" "write_seq s' AND 1 = 0"
    "length (points s') = length (points s)"
    using assms(1) by auto
  have "unat (max_points s') = unat (max_points s)"
    using s'(6,8) wf by (simp add: index_wf_def index_wf_ex_def shm_wf_def)
  then have "max_points s' = max_points s" by (simp add: word_unat_eq_iff)
  moreover have "irt_pm_check_timeouts s now timeout_ns = Some (int (card W), s')"
    using s'(1) assms(3,4) wf by (simp add: irt_pm_check_timeouts_def shm_wf_def)
  ultimately show ?thesis
    using s'(2-) by (intro exI [of _ s']) simp
qed

text \<open>
  A marked point is due again exactly when it carries limit bits, because the scan compares the
  whole quality byte with the timeout code.
\<close>

lemma quality_limit_timeout: "QUALITY_LIMIT QUALITY_TIMEOUT = 0"
  by (simp add: QUALITY_LIMIT_def QUALITY_TIMEOUT_def)

lemma mark_timeout_quality:
  "quality (mark_timeout p) = QUALITY_TIMEOUT \<longleftrightarrow> QUALITY_LIMIT (quality p) = 0"
proof
  assume "quality (mark_timeout p) = QUALITY_TIMEOUT"
  then have "QUALITY_LIMIT (quality (mark_timeout p)) = 0" by (simp only: quality_limit_timeout)
  then show "QUALITY_LIMIT (quality p) = 0"
    using quality_limit_cases [of "quality p"] by (auto simp: mark_timeout_def quality_limit_make)
qed (simp add: mark_timeout_def QUALITY_MAKE_def QUALITY_TIMEOUT_def)

lemma scan_due_mark:
  "scan_due now tmo p \<Longrightarrow> scan_due now tmo (mark_timeout p) \<longleftrightarrow> QUALITY_LIMIT (quality p) \<noteq> 0"
  using mark_timeout_quality [of p] by (simp add: scan_due_guard) (simp add: mark_timeout_def)

text \<open>
  C26. The timeout scan on an unlocked segment ends and marks the overdue points: those written at
  least once, last written longer ago than the timeout, whose base code is not the timeout code yet.
  It also takes, again, the points as old whose base code is the timeout code already but which carry
  limit (or other) bits, because it compares the whole byte. Each of these points needs the lock for
  one attempt, in the order of the ids, and \<open>W\<close> are those that get it under the given contention:
  their quality becomes the timeout code with their limit bits kept, nothing else changes, the result
  and the growth of the statistic are their number, and the others are counted as skipped. Without
  contention all are marked.
\<close>

theorem check_timeouts_marks_overdue:
  fixes now timeout_ns :: u64
  assumes "index_wf s" "write_seq s AND 1 = 0" "timeout_ns \<noteq> 0" "now \<noteq> 0"
  defines "due \<equiv> filter (\<lambda>i. overdue now timeout_ns (points s ! unat i) \<or> redetected now timeout_ns (points s ! unat i))
     (map word_of_nat [0..<unat (max_points s)])"
  defines "W \<equiv> set (lock_winners (lock_env s) due)"
  shows "\<exists>s'. irt_pm_check_timeouts s now timeout_ns = Some (int (card W), s')
    \<and> (\<forall>i < max_points s. points s' ! unat i =
         (if i \<in> W then (points s ! unat i)\<lparr>quality := QUALITY_MAKE QUALITY_TIMEOUT (QUALITY_LIMIT (quality (points s ! unat i)))\<rparr>
          else points s ! unat i))
    \<and> scan_skipped s' = scan_skipped s + word_of_nat (length due - card W)
    \<and> st_timeouts s' = st_timeouts s + word_of_nat (card W)
    \<and> (lock_env s = [] \<longrightarrow> (\<forall>i < max_points s. overdue now timeout_ns (points s ! unat i) \<longrightarrow>
         timed_out (points s' ! unat i)))
    \<and> index_wf s'"
proof -
  have due: "due = filter (\<lambda>i. scan_due now timeout_ns (points s ! unat i)) (map word_of_nat [0..<unat (max_points s)])"
    unfolding due_def scan_due_def ..
  have mem: "i \<in> set due \<longleftrightarrow> i < max_points s \<and> scan_due now timeout_ns (points s ! unat i)" for i
    unfolding due set_filter set_words_below by simp
  have "timed_out (mark_timeout p)" for p
    by (simp add: timed_out_def mark_timeout_def) (simp add: QUALITY_TIMEOUT_def)
  then show ?thesis
    using check_timeouts_spec [OF assms(1-4), folded due, folded W_def] mem
    unfolding mark_timeout_def [symmetric] by (auto simp: W_def scan_due_def)
qed

text \<open>
  The scan is not idempotent: on an unlocked segment with nobody interfering, a second scan with
  the same clock and timeout detects again exactly those points of the first one that carry limit bits.
\<close>

theorem check_timeouts_repeats_limited:
  fixes now timeout_ns :: u64
  assumes "index_wf s" "write_seq s AND 1 = 0" "timeout_ns \<noteq> 0" "now \<noteq> 0" "lock_env s = []"
    and "irt_pm_check_timeouts s now timeout_ns = Some (n, s')"
  shows "\<exists>s''. irt_pm_check_timeouts s' now timeout_ns =
    Some (int (card {i. i < max_points s \<and> scan_due now timeout_ns (points s ! unat i)
                        \<and> QUALITY_LIMIT (quality (points s ! unat i)) \<noteq> 0}), s'')"
proof -
  let ?D = "\<lambda>s. set (filter (\<lambda>i. scan_due now timeout_ns (points s ! unat i)) (map word_of_nat [0..<unat (max_points s)])) :: u32 set"
  have D: "?D s = {i. i < max_points s \<and> scan_due now timeout_ns (points s ! unat i)}" for s :: shm
    unfolding set_filter set_words_below by simp
  have s': "index_wf s'" "write_seq s' AND 1 = 0" "lock_env s' = []" "max_points s' = max_points s"
    "\<forall>i < max_points s. points s' ! unat i = (if i \<in> ?D s then mark_timeout (points s ! unat i) else points s ! unat i)"
    using check_timeouts_spec [OF assms(1-4)] assms(5,6) by auto
  have "scan_due now timeout_ns (points s' ! unat i) \<longleftrightarrow>
      scan_due now timeout_ns (points s ! unat i) \<and> QUALITY_LIMIT (quality (points s ! unat i)) \<noteq> 0"
    if "i < max_points s" for i
    using that s'(5) scan_due_mark unfolding D by auto
  then have "?D s' = {i. i < max_points s \<and> scan_due now timeout_ns (points s ! unat i)
                        \<and> QUALITY_LIMIT (quality (points s ! unat i)) \<noteq> 0}"
    using s'(4) unfolding D by auto
  then show ?thesis
    using check_timeouts_spec [OF s'(1,2) assms(3,4)] s'(3) by auto
qed

section \<open>A small segment\<close>

text \<open>Four points of which point 1 was last written at time 5 and carries a low-limit bit.\<close>

definition demo_shm :: shm where
  "demo_shm = (fresh_shm 4 1 7)\<lparr>points := (points (fresh_shm 4 1 7))
     [1 := (points (fresh_shm 4 1 7) ! 1)\<lparr>timestamp_ns := 5, quality := 0x10\<rparr>]\<rparr>"

lemma demo_shm_wf: "index_wf demo_shm"
  unfolding demo_shm_def
  by (rule index_wf_point_update) (simp_all add: fresh_index_wf pkey_def word_less_nat_alt)

lemma demo_shm_fields: "write_seq demo_shm = 0" "lock_env demo_shm = []" "max_points demo_shm = 4"
  by (simp_all add: demo_shm_def fresh_shm_fields)

theorem pm_write_functional_witness:
  "fst (pm_write_impl_q demo_shm 99 2 INDURTDB_TYPE_INT32 (le32 5) 0 0) = 0"
proof -
  obtain rc s' where r: "pm_write_impl_q demo_shm 99 2 INDURTDB_TYPE_INT32 (le32 5) 0 0 = (rc, s')"
    by (cases "pm_write_impl_q demo_shm 99 2 INDURTDB_TYPE_INT32 (le32 5) 0 0")
  have "access (points demo_shm ! 2) \<noteq> INDURTDB_ACCESS_READ_ONLY"
    by (simp add: demo_shm_def fresh_shm_fields zero_point_def INDURTDB_ACCESS_READ_ONLY_def)
  then show ?thesis
    using pm_write_functional [OF demo_shm_wf r, of zero_point] r
    by (simp add: demo_shm_fields lockable_def word_le_nat_alt)
qed

text \<open>
  The same with point 2 timed out already and carrying a low-limit bit, on a segment whose lock is held
  by another process at the second attempt.
\<close>

definition demo_scan :: shm where
  "demo_scan = demo_shm\<lparr>points := (points demo_shm)[2 := (points demo_shm ! 2)\<lparr>timestamp_ns := 5, quality := 0x12\<rparr>],
     lock_env := [False, True]\<rparr>"

lemma demo_scan_wf: "index_wf demo_scan"
proof -
  have "index_wf (demo_shm\<lparr>points := (points demo_shm)[2 := (points demo_shm ! 2)\<lparr>timestamp_ns := 5, quality := 0x12\<rparr>]\<rparr>)"
    by (rule index_wf_point_update [OF demo_shm_wf])
      (simp_all add: demo_shm_def fresh_shm_fields pkey_def)
  then show ?thesis unfolding demo_scan_def by (auto intro: index_wf_frame)
qed

lemma demo_scan_due:
  "filter (\<lambda>i. overdue 100 10 (points demo_scan ! unat i) \<or> redetected 100 10 (points demo_scan ! unat i))
     (map word_of_nat [0..<unat (max_points demo_scan)]) = [1, 2 :: u32]"
proof -
  let ?p = "\<lambda>q. zero_point\<lparr>timestamp_ns := 5, quality := q\<rparr>"
  have n: "unat (max_points demo_scan) = 4" by (simp add: demo_scan_def demo_shm_fields)
  have p: "points demo_scan ! 0 = zero_point" "points demo_scan ! 1 = ?p 0x10" "points demo_scan ! 2 = ?p 0x12"
    "points demo_scan ! 3 = zero_point"
    by (simp_all add: demo_scan_def demo_shm_def fresh_shm_fields)
  have d: "\<not> scan_due 100 10 zero_point" "scan_due 100 10 (?p 0x10)" "scan_due 100 10 (?p 0x12)"
    by (simp_all add: scan_due_guard QUALITY_TIMEOUT_def word_less_nat_alt) (simp add: zero_point_def)
  have ids: "[0..<4] = [0, 1, 2, 3]" by (simp add: upt_rec)
  show ?thesis unfolding n ids scan_due_def [symmetric] by (simp add: p [simplified] d)
qed

theorem check_timeouts_marks_overdue_witness:
  "\<exists>s'. irt_pm_check_timeouts demo_scan 100 10 = Some (1, s') \<and> quality (points s' ! 1) = 0x12
     \<and> scan_skipped s' = scan_skipped demo_scan + 1"
proof -
  have f: "write_seq demo_scan AND 1 = 0" "(10 :: u64) \<noteq> 0" "(100 :: u64) \<noteq> 0" "lock_env demo_scan = [False, True]"
    "max_points demo_scan = 4" "quality (points demo_scan ! 1) = 0x10"
    by (simp_all add: demo_scan_def demo_shm_fields) (simp add: demo_shm_def fresh_shm_fields)
  from check_timeouts_marks_overdue [OF demo_scan_wf f(1-3), unfolded demo_scan_due f(4)] obtain s' where
    s': "irt_pm_check_timeouts demo_scan 100 10 = Some (1, s')" "scan_skipped s' = scan_skipped demo_scan + 1"
      "\<forall>i < max_points demo_scan. points s' ! unat i =
         (if i \<in> {1} then (points demo_scan ! unat i)\<lparr>quality := QUALITY_MAKE QUALITY_TIMEOUT (QUALITY_LIMIT (quality (points demo_scan ! unat i)))\<rparr>
          else points demo_scan ! unat i)"
    by auto
  have "(1 :: u32) < max_points demo_scan" by (simp add: f(5) word_less_nat_alt)
  then have "quality (points s' ! 1) = 0x12"
    using s'(3) f(6) by (auto simp: QUALITY_MAKE_def QUALITY_TIMEOUT_def QUALITY_LIMIT_def)
  then show ?thesis using s'(1,2) by blast
qed

theorem check_timeouts_repeats_limited_witness:
  "\<exists>n s' s''. irt_pm_check_timeouts demo_shm 100 10 = Some (n, s')
    \<and> irt_pm_check_timeouts s' 100 10 =
      Some (int (card {i. i < max_points demo_shm \<and> scan_due 100 10 (points demo_shm ! unat i)
                        \<and> QUALITY_LIMIT (quality (points demo_shm ! unat i)) \<noteq> 0}), s'')"
proof -
  obtain n s' where r: "irt_pm_check_timeouts demo_shm 100 10 = Some (n, s')"
    using check_timeouts_spec [OF demo_shm_wf, of 10 100] by (auto simp: demo_shm_fields)
  then show ?thesis
    using check_timeouts_repeats_limited [OF demo_shm_wf _ _ _ _ r] by (auto simp: demo_shm_fields)
qed

end
