(* ===== verification/Subscription.thy ===== *)
theory Subscription
  imports Attach "HOL-Library.Multiset"
begin

text \<open>
  The subscription manager of \<^verbatim>\<open>src/core/irt_subscription.c\<close>: the process-local table of
  callbacks and the heartbeat table in the segment. A callback is a number (0 is the null
  pointer); what a callback does to the table when it runs is a parameter of the notification.
\<close>

definition IRT_SUB_MAX_CALLBACKS :: nat where "IRT_SUB_MAX_CALLBACKS = 256"

record irt_sub_slot =
  ss_point_id :: u32
  callback :: nat
  user_data :: nat
  ss_active :: bool

definition zero_sub_slot :: irt_sub_slot where
  "zero_sub_slot = \<lparr>ss_point_id = 0, callback = 0, user_data = 0, ss_active = False\<rparr>"

record irt_sub =
  sub_slots :: "irt_sub_slot list"
  slot_count :: nat

definition irt_sub_init :: irt_sub where
  "irt_sub_init = \<lparr>sub_slots = replicate IRT_SUB_MAX_CALLBACKS zero_sub_slot, slot_count = 0\<rparr>"

definition irt_sub_subscribe :: "irt_sub \<Rightarrow> u32 \<Rightarrow> nat \<Rightarrow> nat \<Rightarrow> int \<times> irt_sub" where
  "irt_sub_subscribe sub pid cb ud =
     (if cb = 0 then (-1, sub)
      else if IRT_SUB_MAX_CALLBACKS \<le> slot_count sub then (-1, sub)
      else (0, sub\<lparr>sub_slots := (sub_slots sub)[slot_count sub :=
                     \<lparr>ss_point_id = pid, callback = cb, user_data = ud, ss_active = True\<rparr>],
                   slot_count := slot_count sub + 1\<rparr>))"

text \<open>The removal loop over \<open>i\<close>: a hit is overwritten with the last slot and \<open>i\<close> stays.\<close>

function unsubscribe_loop :: "u32 \<Rightarrow> nat \<Rightarrow> nat \<Rightarrow> irt_sub_slot list \<times> nat \<Rightarrow> nat \<times> irt_sub_slot list \<times> nat" where
  "unsubscribe_loop pid removed i (sls, cnt) =
     (if i < cnt then
        (if ss_active (sls ! i) \<and> ss_point_id (sls ! i) = pid
         then unsubscribe_loop pid (removed + 1) i
                (sls[i := sls ! (cnt - 1), cnt - 1 := zero_sub_slot], cnt - 1)
         else unsubscribe_loop pid removed (i + 1) (sls, cnt))
      else (removed, sls, cnt))"
  by pat_completeness auto
termination by (relation "measure (\<lambda>(pid, removed, i, sls, cnt). 2 * cnt - i)") auto

declare unsubscribe_loop.simps [simp del]

definition irt_sub_unsubscribe :: "irt_sub \<Rightarrow> u32 \<Rightarrow> int \<times> irt_sub" where
  "irt_sub_unsubscribe sub pid =
     (let (removed, sls, cnt) = unsubscribe_loop pid 0 0 (sub_slots sub, slot_count sub)
      in (if 0 < removed then 0 else -2, sub\<lparr>sub_slots := sls, slot_count := cnt\<rparr>))"

text \<open>A call \<open>callback(id, data, user_data)\<close>.\<close>

type_synonym sub_call = "nat \<times> u32 \<times> point \<times> nat"

text \<open>
  The notification loop: \<open>react c\<close> is what the invoked callback does to the table. The bound is
  the slot count at entry, the slots are read afresh in every iteration.
\<close>

fun notify_loop :: "(sub_call \<Rightarrow> irt_sub \<Rightarrow> irt_sub) \<Rightarrow> u32 \<Rightarrow> point \<Rightarrow> nat list \<Rightarrow> irt_sub \<Rightarrow> sub_call list \<times> irt_sub" where
  "notify_loop react pid data [] sub = ([], sub)"
| "notify_loop react pid data (i # is) sub =
     (let sl = sub_slots sub ! i
      in if ss_active sl \<and> ss_point_id sl = pid \<and> callback sl \<noteq> 0
         then let c = (callback sl, pid, data, user_data sl);
                  (cs, sub) = notify_loop react pid data is (react c sub)
              in (c # cs, sub)
         else notify_loop react pid data is sub)"

definition irt_sub_notify :: "(sub_call \<Rightarrow> irt_sub \<Rightarrow> irt_sub) \<Rightarrow> irt_sub \<Rightarrow> u32 \<Rightarrow> point \<Rightarrow> sub_call list \<times> irt_sub" where
  "irt_sub_notify react sub pid data = notify_loop react pid data [0..<slot_count sub] sub"

definition irt_sub_count :: "irt_sub \<Rightarrow> nat" where
  "irt_sub_count sub = length (filter ss_active (take (slot_count sub) (sub_slots sub)))"

section \<open>Heartbeats\<close>

text \<open>The index loops that look for the first entry of a process.\<close>

fun first_pid :: "u32 \<Rightarrow> sub_entry list \<Rightarrow> nat \<Rightarrow> nat option" where
  "first_pid p [] i = None"
| "first_pid p (e # es) i = (if sub_pid e = p then Some i else first_pid p es (i + 1))"

text \<open>\<open>shm_table\<close> is null when the segment has no subscriber region.\<close>

definition has_sub_table :: "shm \<Rightarrow> bool" where
  "has_sub_table s \<longleftrightarrow> s_max_subscribers s \<noteq> 0 \<and> off_subs s \<noteq> 0"

definition irt_sub_update_heartbeat :: "shm \<Rightarrow> u32 \<Rightarrow> u64 \<Rightarrow> shm" where
  "irt_sub_update_heartbeat s p now =
     (if \<not> has_sub_table s then s
      else let tab = take (unat (s_max_subscribers s)) (subs s)
           in case first_pid p tab 0 of
                Some i \<Rightarrow> s\<lparr>subs := (subs s)[i := (subs s ! i)\<lparr>last_heartbeat_ns := now\<rparr>]\<rparr>
              | None \<Rightarrow>
                  (case first_pid 0 tab 0 of
                     Some i \<Rightarrow> s\<lparr>subs := (subs s)[i := (subs s ! i)\<lparr>sub_pid := p, last_heartbeat_ns := now\<rparr>]\<rparr>
                   | None \<Rightarrow> s))"

definition irt_sub_cleanup_zombies :: "shm \<Rightarrow> u64 \<Rightarrow> u64 \<Rightarrow> shm" where
  "irt_sub_cleanup_zombies s timeout_ns now =
     (if \<not> has_sub_table s \<or> timeout_ns = 0 then s
      else let n = unat (s_max_subscribers s)
           in s\<lparr>subs := map (\<lambda>e. if sub_pid e \<noteq> 0 \<and> timeout_ns < now - last_heartbeat_ns e
                                then zero_sub else e) (take n (subs s)) @ drop n (subs s)\<rparr>)"

section \<open>Properties of the callback table\<close>

definition sub_wf :: "irt_sub \<Rightarrow> bool" where
  "sub_wf sub \<longleftrightarrow> length (sub_slots sub) = IRT_SUB_MAX_CALLBACKS \<and> slot_count sub \<le> IRT_SUB_MAX_CALLBACKS
     \<and> (\<forall>i < slot_count sub. ss_active (sub_slots sub ! i) \<and> callback (sub_slots sub ! i) \<noteq> 0)
     \<and> (\<forall>i. slot_count sub \<le> i \<longrightarrow> i < IRT_SUB_MAX_CALLBACKS \<longrightarrow> \<not> ss_active (sub_slots sub ! i))"

definition sub_mset :: "irt_sub \<Rightarrow> irt_sub_slot multiset" where
  "sub_mset sub = mset (take (slot_count sub) (sub_slots sub))"

lemma sub_init_wf: "sub_wf irt_sub_init"
  by (simp add: sub_wf_def irt_sub_init_def zero_sub_slot_def)

lemma take_Suc_update: "n < length xs \<Longrightarrow> take (Suc n) (xs[n := v]) = take n xs @ [v]"
  by (simp add: take_Suc_conv_app_nth)

lemma subscribe_wf: "sub_wf sub \<Longrightarrow> sub_wf (snd (irt_sub_subscribe sub pid cb ud))"
  by (auto simp: sub_wf_def irt_sub_subscribe_def nth_list_update less_Suc_eq)

lemma subscribe_mset:
  assumes "sub_wf sub" "irt_sub_subscribe sub pid cb ud = (0, sub')"
  shows "sub_mset sub' = add_mset \<lparr>ss_point_id = pid, callback = cb, user_data = ud, ss_active = True\<rparr> (sub_mset sub)"
  using assms
  by (auto simp: irt_sub_subscribe_def sub_mset_def sub_wf_def take_Suc_update split: if_splits)

text \<open>The swap-with-last step, seen on the used prefix.\<close>

lemma take_swap_last:
  assumes "i < cnt" "cnt \<le> length sls"
  shows "mset (take cnt sls) = add_mset (sls ! i) (mset (take (cnt - 1) (sls[i := sls ! (cnt - 1), cnt - 1 := z])))"
proof -
  obtain c where c: "cnt = Suc c" using assms(1) by (cases cnt) auto
  have 1: "take c (sls[i := sls ! c, c := z]) = (take c sls)[i := sls ! c]"
    by (simp add: take_update_swap list_update_beyond)
  have 2: "mset (take cnt sls) = add_mset (sls ! c) (mset (take c sls))"
    using assms(2) by (simp add: c take_Suc_conv_app_nth)
  show ?thesis
  proof (cases "i = c")
    case True
    then show ?thesis using 1 2 by (simp add: c)
  next
    case False
    then have i: "i < length (take c sls)" using assms c by simp
    then have mem: "take c sls ! i \<in># mset (take c sls)" using nth_mem [OF i] by (simp only: set_mset_mset)
    have "add_mset (take c sls ! i) (mset ((take c sls)[i := sls ! c])) = add_mset (sls ! c) (mset (take c sls))"
      unfolding mset_update [OF i] using insert_DiffM [OF mem] by (metis add_mset_commute)
    then show ?thesis using 1 2 i by (simp add: c)
  qed
qed

definition hits :: "u32 \<Rightarrow> irt_sub_slot \<Rightarrow> bool" where
  "hits pid sl \<longleftrightarrow> ss_active sl \<and> ss_point_id sl = pid"

lemma unsubscribe_loop_spec:
  assumes "unsubscribe_loop pid removed i (sls, cnt) = (removed', sls', cnt')"
    and "i \<le> cnt" "cnt \<le> length sls" "\<forall>j < i. \<not> hits pid (sls ! j)"
    and "\<forall>j. cnt \<le> j \<longrightarrow> j < length sls \<longrightarrow> \<not> ss_active (sls ! j)"
  shows "length sls' = length sls \<and> cnt' \<le> cnt \<and> removed' + cnt' = removed + cnt
    \<and> mset (take cnt' sls') = filter_mset (\<lambda>s. \<not> hits pid s) (mset (take cnt sls))
    \<and> (\<forall>j. cnt' \<le> j \<longrightarrow> j < length sls \<longrightarrow> \<not> ss_active (sls' ! j))"
  using assms
proof (induction pid removed i "(sls, cnt)" arbitrary: sls cnt rule: unsubscribe_loop.induct)
  case (1 pid removed i sls cnt)
  show ?case
  proof (cases "i < cnt")
    case False
    then have e: "removed' = removed" "sls' = sls" "cnt' = cnt" "i = cnt"
      using 1(3,4) by (simp_all add: unsubscribe_loop.simps)
    have "filter (\<lambda>s. \<not> hits pid s) (take cnt sls) = take cnt sls"
      using 1(5,6) e(4) by (auto intro!: filter_True simp: in_set_conv_nth)
    then show ?thesis using e 1(7) by (metis le_refl mset_filter)
  next
    case True
    show ?thesis
    proof (cases "hits pid (sls ! i)")
      case hit: True
      let ?sls = "sls[i := sls ! (cnt - 1), cnt - 1 := zero_sub_slot]"
      have m: "mset (take cnt sls) = add_mset (sls ! i) (mset (take (cnt - 1) ?sls))"
        using True 1(5) by (rule take_swap_last)
      have "unsubscribe_loop pid (removed + 1) i (?sls, cnt - 1) = (removed', sls', cnt')"
        using 1(3) True hit by (simp add: unsubscribe_loop.simps [of pid removed i sls cnt] hits_def)
      then have r: "length sls' = length ?sls \<and> cnt' \<le> cnt - 1 \<and> removed' + cnt' = removed + 1 + (cnt - 1)
        \<and> mset (take cnt' sls') = filter_mset (\<lambda>s. \<not> hits pid s) (mset (take (cnt - 1) ?sls))
        \<and> (\<forall>j. cnt' \<le> j \<longrightarrow> j < length ?sls \<longrightarrow> \<not> ss_active (sls' ! j))"
      proof (intro 1(1))
        show "\<forall>j < i. \<not> hits pid (?sls ! j)" using True 1(6) by simp
        show "\<forall>j. cnt - 1 \<le> j \<longrightarrow> j < length ?sls \<longrightarrow> \<not> ss_active (?sls ! j)"
        proof (intro allI impI)
          fix j assume j: "cnt - 1 \<le> j" "j < length ?sls"
          show "\<not> ss_active (?sls ! j)"
          proof (cases "j = cnt - 1")
            case True
            then show ?thesis using j(2) by (simp add: zero_sub_slot_def)
          next
            case False
            then have "cnt \<le> j" "j \<noteq> i" using j(1) \<open>i < cnt\<close> by auto
            then show ?thesis using False j(2) 1(7) by simp
          qed
        qed
      qed (use True hit 1(5) in \<open>simp_all add: hits_def\<close>)
      moreover have "cnt' \<le> cnt" using r by linarith
      ultimately show ?thesis using True m hit by simp
    next
      case miss: False
      have "unsubscribe_loop pid removed (i + 1) (sls, cnt) = (removed', sls', cnt')"
        using 1(3) True miss by (auto simp: unsubscribe_loop.simps [of pid removed i sls cnt] hits_def split: if_splits)
      moreover have "\<forall>j < i + 1. \<not> hits pid (sls ! j)" using miss 1(6) by (simp add: less_Suc_eq)
      moreover have "\<not> (ss_active (sls ! i) \<and> ss_point_id (sls ! i) = pid)" using miss by (simp add: hits_def)
      ultimately show ?thesis
        using True 1(5,7) by (intro 1(2)) simp_all
    qed
  qed
qed

lemma unsubscribe_facts:
  assumes wf: "sub_wf sub" and u: "irt_sub_unsubscribe sub pid = (rc, sub')"
  shows "sub_mset sub' = filter_mset (\<lambda>s. ss_point_id s \<noteq> pid) (sub_mset sub)"
    "rc = (if \<exists>s \<in># sub_mset sub. ss_point_id s = pid then 0 else -2)"
    "length (sub_slots sub') = IRT_SUB_MAX_CALLBACKS" "slot_count sub' \<le> slot_count sub"
    "\<forall>j. slot_count sub' \<le> j \<longrightarrow> j < IRT_SUB_MAX_CALLBACKS \<longrightarrow> \<not> ss_active (sub_slots sub' ! j)"
proof -
  obtain removed sls cnt where l: "unsubscribe_loop pid 0 0 (sub_slots sub, slot_count sub) = (removed, sls, cnt)"
    by (cases "unsubscribe_loop pid 0 0 (sub_slots sub, slot_count sub)")
  have r: "rc = (if 0 < removed then 0 else -2)" "sub' = sub\<lparr>sub_slots := sls, slot_count := cnt\<rparr>"
    using u l by (auto simp: irt_sub_unsubscribe_def)
  have S: "length sls = length (sub_slots sub)" "cnt \<le> slot_count sub" "removed + cnt = slot_count sub"
    "mset (take cnt sls) = filter_mset (\<lambda>s. \<not> hits pid s) (sub_mset sub)"
    "\<forall>j. cnt \<le> j \<longrightarrow> j < length (sub_slots sub) \<longrightarrow> \<not> ss_active (sls ! j)"
    using unsubscribe_loop_spec [OF l] wf by (auto simp: sub_wf_def sub_mset_def)
  have act: "hits pid s \<longleftrightarrow> ss_point_id s = pid" if "s \<in># sub_mset sub" for s
    using wf that by (auto simp: sub_wf_def sub_mset_def in_set_conv_nth hits_def)
  then have f: "filter_mset (\<lambda>s. \<not> hits pid s) (sub_mset sub) = filter_mset (\<lambda>s. ss_point_id s \<noteq> pid) (sub_mset sub)"
    by (auto intro: filter_mset_cong)
  then show "sub_mset sub' = filter_mset (\<lambda>s. ss_point_id s \<noteq> pid) (sub_mset sub)"
    using S(4) by (simp add: r(2) sub_mset_def)
  have sz: "size (sub_mset sub) = slot_count sub" "size (mset (take cnt sls)) = cnt"
    using wf S(1,2) by (simp_all add: sub_wf_def sub_mset_def)
  have "removed = 0 \<longleftrightarrow> filter_mset (\<lambda>s. ss_point_id s \<noteq> pid) (sub_mset sub) = sub_mset sub"
  proof
    assume "removed = 0"
    then have "size (filter_mset (\<lambda>s. ss_point_id s \<noteq> pid) (sub_mset sub)) = size (sub_mset sub)"
      using S(3,4) sz f by simp
    then show "filter_mset (\<lambda>s. ss_point_id s \<noteq> pid) (sub_mset sub) = sub_mset sub"
      by (metis multiset_filter_subset mset_subset_eqD mset_subset_size nat_less_le subset_mset.le_neq_trans)
  next
    assume "filter_mset (\<lambda>s. ss_point_id s \<noteq> pid) (sub_mset sub) = sub_mset sub"
    then have "cnt = slot_count sub" using S(4) sz f by simp
    then show "removed = 0" using S(3) by simp
  qed
  then have "removed = 0 \<longleftrightarrow> (\<forall>s \<in># sub_mset sub. ss_point_id s \<noteq> pid)"
    by (simp add: filter_mset_eq_conv)
  then show "rc = (if \<exists>s \<in># sub_mset sub. ss_point_id s = pid then 0 else -2)"
    using r(1) by auto
  show "length (sub_slots sub') = IRT_SUB_MAX_CALLBACKS" "slot_count sub' \<le> slot_count sub"
    "\<forall>j. slot_count sub' \<le> j \<longrightarrow> j < IRT_SUB_MAX_CALLBACKS \<longrightarrow> \<not> ss_active (sub_slots sub' ! j)"
    using S wf by (simp_all add: r(2) sub_wf_def)
qed

lemma unsubscribe_wf:
  assumes wf: "sub_wf sub" shows "sub_wf (snd (irt_sub_unsubscribe sub pid))"
proof -
  obtain rc sub' where u: "irt_sub_unsubscribe sub pid = (rc, sub')" by (cases "irt_sub_unsubscribe sub pid")
  note f = unsubscribe_facts [OF wf u]
  have len: "slot_count sub' \<le> length (sub_slots sub')" using f(3,4) wf by (simp add: sub_wf_def)
  have "sub_slots sub' ! i \<in># sub_mset sub" if "i < slot_count sub'" for i
  proof -
    have "sub_slots sub' ! i \<in># sub_mset sub'"
      using that len by (auto simp: sub_mset_def in_set_conv_nth)
    then show ?thesis by (simp add: f(1))
  qed
  then have "ss_active (sub_slots sub' ! i) \<and> callback (sub_slots sub' ! i) \<noteq> 0" if "i < slot_count sub'" for i
    using that wf by (fastforce simp: sub_mset_def in_set_conv_nth sub_wf_def)
  then show ?thesis using u f(3-5) wf by (auto simp: sub_wf_def)
qed

text \<open>
  C33. The callback table is a bag of subscriptions: subscribing adds one (or is refused when the
  table is full or the callback is null), and unsubscribing a point removes all its subscriptions
  and no other, whatever order the swap-with-last deletion leaves them in; it reports -2 exactly
  when there was none.
\<close>

theorem subscription_table_bag:
  assumes "sub_wf sub"
  shows "(case irt_sub_subscribe sub pid cb ud of (rc, sub') \<Rightarrow>
       sub_wf sub' \<and> rc = (if cb = 0 \<or> slot_count sub = IRT_SUB_MAX_CALLBACKS then -1 else 0) \<and>
       sub_mset sub' = (if rc = 0 then {#\<lparr>ss_point_id = pid, callback = cb, user_data = ud, ss_active = True\<rparr>#} else {#}) + sub_mset sub)
    \<and> (case irt_sub_unsubscribe sub pid of (rc, sub') \<Rightarrow>
       sub_wf sub' \<and> sub_mset sub' = filter_mset (\<lambda>s. ss_point_id s \<noteq> pid) (sub_mset sub) \<and>
       rc = (if \<exists>s \<in># sub_mset sub. ss_point_id s = pid then 0 else -2))"
proof -
  obtain rc sub' where u: "irt_sub_unsubscribe sub pid = (rc, sub')" by (cases "irt_sub_unsubscribe sub pid")
  have "case irt_sub_subscribe sub pid cb ud of (rc, sub') \<Rightarrow>
       sub_wf sub' \<and> rc = (if cb = 0 \<or> slot_count sub = IRT_SUB_MAX_CALLBACKS then -1 else 0) \<and>
       sub_mset sub' = (if rc = 0 then {#\<lparr>ss_point_id = pid, callback = cb, user_data = ud, ss_active = True\<rparr>#} else {#}) + sub_mset sub"
    using subscribe_wf [OF assms, of pid cb ud] subscribe_mset [OF assms, of pid cb ud] assms
    by (cases "irt_sub_subscribe sub pid cb ud")
      (auto simp: irt_sub_subscribe_def sub_wf_def split: if_splits)
  then show ?thesis
    using u unsubscribe_wf [OF assms, of pid] unsubscribe_facts(1,2) [OF assms u] by simp
qed

text \<open>
  When the callbacks leave the table alone, a notification calls every subscription of the
  point exactly once, in table order, with the point's data, and changes nothing.
\<close>

theorem notify_calls_each_once:
  "sub_wf sub \<Longrightarrow> irt_sub_notify (\<lambda>_ s. s) sub pid data =
    (map (\<lambda>sl. (callback sl, pid, data, user_data sl))
       (filter (\<lambda>sl. ss_point_id sl = pid) (take (slot_count sub) (sub_slots sub))), sub)"
proof -
  assume wf: "sub_wf sub"
  have "notify_loop (\<lambda>_ s. s) pid data is sub =
      (map (\<lambda>sl. (callback sl, pid, data, user_data sl))
        (filter (\<lambda>sl. ss_point_id sl = pid) (map ((!) (sub_slots sub)) is)), sub)"
    if "\<forall>i \<in> set is. ss_active (sub_slots sub ! i) \<and> callback (sub_slots sub ! i) \<noteq> 0" for "is"
    using that by (induction "is") (auto simp: Let_def)
  moreover have "map ((!) (sub_slots sub)) [0..<slot_count sub] = take (slot_count sub) (sub_slots sub)"
    using wf by (intro nth_equalityI) (auto simp: sub_wf_def)
  ultimately show ?thesis
    using wf by (simp add: irt_sub_notify_def sub_wf_def)
qed

theorem subscription_table_bag_witness:
  "fst (irt_sub_subscribe irt_sub_init 7 1 0) = 0 \<and> fst (irt_sub_unsubscribe irt_sub_init 7) = -2"
  using subscription_table_bag [OF sub_init_wf, where pid = 7 and cb = 1 and ud = 0]
  by (auto simp: irt_sub_init_def IRT_SUB_MAX_CALLBACKS_def sub_mset_def split: prod.splits)

theorem notify_calls_each_once_witness:
  "irt_sub_notify (\<lambda>_ s. s) (snd (irt_sub_subscribe irt_sub_init 7 1 9)) 7 zero_point = ([(1, 7, zero_point, 9)],
     snd (irt_sub_subscribe irt_sub_init 7 1 9))"
  using notify_calls_each_once [OF subscribe_wf [OF sub_init_wf], of 7 1 9 7 zero_point]
  by (simp add: irt_sub_subscribe_def irt_sub_init_def IRT_SUB_MAX_CALLBACKS_def take_update_swap)

definition sub_three :: irt_sub where
  "sub_three = snd (irt_sub_subscribe (snd (irt_sub_subscribe (snd (irt_sub_subscribe irt_sub_init
     2 10 0)) 1 11 0)) 1 12 0)"

text \<open>
  A callback that unsubscribes another point can make the running notification skip a
  subscriber: with slots for points 2, 1, 1, when the first callback of point 1 unsubscribes point
  2, the last slot is swapped to the front, behind the loop index, and the second subscriber of
  point 1 is not called although it was subscribed before, and still is after, the notification.
\<close>

theorem notify_skips_after_reentrant_unsubscribe:
  "map fst (fst (irt_sub_notify (\<lambda>c s. if fst c = 11 then snd (irt_sub_unsubscribe s 2) else s)
       sub_three 1 zero_point)) = [11]
   \<and> map callback (filter (\<lambda>sl. ss_point_id sl = 1) (take (slot_count sub_three) (sub_slots sub_three))) = [11, 12]"
proof -
  define tl0 where "tl0 = replicate 253 zero_sub_slot"
  have r: "replicate IRT_SUB_MAX_CALLBACKS zero_sub_slot = zero_sub_slot # zero_sub_slot # zero_sub_slot # tl0"
    by (simp add: IRT_SUB_MAX_CALLBACKS_def tl0_def numeral_eq_Suc)
  have M: "\<not> IRT_SUB_MAX_CALLBACKS \<le> 0" "\<not> IRT_SUB_MAX_CALLBACKS \<le> 1" "\<not> IRT_SUB_MAX_CALLBACKS \<le> 2"
    by (simp_all add: IRT_SUB_MAX_CALLBACKS_def)
  let ?a = "\<lparr>ss_point_id = 2, callback = 10, user_data = 0, ss_active = True\<rparr>"
  let ?b = "\<lparr>ss_point_id = 1, callback = 11, user_data = 0, ss_active = True\<rparr>"
  let ?c = "\<lparr>ss_point_id = 1, callback = 12, user_data = 0, ss_active = True\<rparr>"
  have three: "sub_three = \<lparr>sub_slots = ?a # ?b # ?c # tl0, slot_count = 3\<rparr>"
    using M by (simp add: sub_three_def irt_sub_subscribe_def irt_sub_init_def r numeral_2_eq_2 numeral_3_eq_3)
  have "snd (irt_sub_unsubscribe sub_three 2) = \<lparr>sub_slots = ?c # ?b # zero_sub_slot # tl0, slot_count = 2\<rparr>"
    by (simp add: three irt_sub_unsubscribe_def unsubscribe_loop.simps numeral_2_eq_2 numeral_3_eq_3)
  moreover have "[0..<3] = [0, 1, 2 :: nat]" by (simp add: upt_rec)
  ultimately show ?thesis
    unfolding irt_sub_notify_def by (simp add: three Let_def zero_sub_slot_def split_beta numeral_2_eq_2)
qed

section \<open>Properties of the heartbeat table\<close>

lemma first_pid_Some: "first_pid p es k = Some i \<Longrightarrow> k \<le> i \<and> i < k + length es \<and> sub_pid (es ! (i - k)) = p"
  by (induction es arbitrary: k) (fastforce simp: nth_Cons' split: if_splits)+

lemma first_pid_None: "first_pid p es k = None \<longleftrightarrow> (\<forall>e \<in> set es. sub_pid e \<noteq> p)"
  by (induction es arbitrary: k) auto

text \<open>
  Heartbeats: after a heartbeat of a process at time \<open>now\<close> the table holds an entry of that
  process stamped \<open>now\<close>, unless it had none and the table was full; and a clean-up keeps exactly the
  entries that are free or whose stamp is at most the timeout old (in 64-bit wrap-around
  difference), clearing the others, so a process that has just sent a heartbeat survives it.
\<close>

theorem heartbeat_then_cleanup:
  assumes "shm_wf s" "max_subscribers s \<noteq> 0" "p \<noteq> 0"
    and room: "\<exists>e \<in> set (subs s). sub_pid e = p \<or> sub_pid e = 0"
  shows "let s1 = irt_sub_update_heartbeat s p now; s2 = irt_sub_cleanup_zombies s1 tmo now
    in \<lparr>sub_pid = p, last_heartbeat_ns = now\<rparr> \<in> set (subs s1)
     \<and> \<lparr>sub_pid = p, last_heartbeat_ns = now\<rparr> \<in> set (subs s2)
     \<and> (tmo \<noteq> 0 \<longrightarrow> subs s2 = map (\<lambda>e. if sub_pid e = 0 \<or> now - last_heartbeat_ns e \<le> tmo then e else zero_sub) (subs s1))"
proof -
  have tab: "has_sub_table s" "take (unat (s_max_subscribers s)) (subs s) = subs s"
    using assms(1,2) by (auto simp: has_sub_table_def shm_wf_def)
  define s1 where "s1 = irt_sub_update_heartbeat s p now"
  obtain i where i: "i < length (subs s)" "subs s1 = (subs s)[i := \<lparr>sub_pid = p, last_heartbeat_ns = now\<rparr>]"
    "s_max_subscribers s1 = s_max_subscribers s" "off_subs s1 = off_subs s"
  proof (cases "first_pid p (subs s) 0")
    case (Some i)
    then have "i < length (subs s)" "sub_pid (subs s ! i) = p"
      using first_pid_Some [of p "subs s" 0 i] by auto
    note il = this(1)
    from \<open>sub_pid (subs s ! i) = p\<close> have u: "(subs s ! i)\<lparr>last_heartbeat_ns := now\<rparr> = \<lparr>sub_pid = p, last_heartbeat_ns = now\<rparr>"
      by (cases "subs s ! i") simp
    have "subs s1 = (subs s)[i := (subs s ! i)\<lparr>last_heartbeat_ns := now\<rparr>]"
      "s_max_subscribers s1 = s_max_subscribers s" "off_subs s1 = off_subs s"
      using Some tab by (simp_all add: s1_def irt_sub_update_heartbeat_def Let_def)
    then show ?thesis unfolding u by (rule that [OF il])
  next
    case None
    then obtain i where z: "first_pid 0 (subs s) 0 = Some i"
      using room by (cases "first_pid 0 (subs s) 0") (auto simp: first_pid_None)
    then have il: "i < length (subs s)" using first_pid_Some [of 0 "subs s" 0 i] by simp
    have u: "(subs s ! i)\<lparr>sub_pid := p, last_heartbeat_ns := now\<rparr> = \<lparr>sub_pid = p, last_heartbeat_ns = now\<rparr>"
      by (cases "subs s ! i") simp
    have "subs s1 = (subs s)[i := (subs s ! i)\<lparr>sub_pid := p, last_heartbeat_ns := now\<rparr>]"
      "s_max_subscribers s1 = s_max_subscribers s" "off_subs s1 = off_subs s"
      using None z tab by (simp_all add: s1_def irt_sub_update_heartbeat_def Let_def)
    then show ?thesis unfolding u by (rule that [OF il])
  qed
  have n: "unat (s_max_subscribers s) = length (subs s1)"
    using i(2) assms(1) by (simp add: shm_wf_def)
  have s2: "tmo \<noteq> 0 \<longrightarrow> subs (irt_sub_cleanup_zombies s1 tmo now) =
      map (\<lambda>e. if sub_pid e = 0 \<or> now - last_heartbeat_ns e \<le> tmo then e else zero_sub) (subs s1)"
    using tab(1) i(3,4) n by (auto simp: irt_sub_cleanup_zombies_def has_sub_table_def Let_def not_less)
  have mem: "\<lparr>sub_pid = p, last_heartbeat_ns = now\<rparr> \<in> set (subs s1)"
    using i(1) by (simp add: i(2) set_update_memI)
  have mem2: "\<lparr>sub_pid = p, last_heartbeat_ns = now\<rparr> \<in> set (subs (irt_sub_cleanup_zombies s1 tmo now))"
  proof (cases "tmo = 0")
    case True
    then show ?thesis using mem by (simp add: irt_sub_cleanup_zombies_def)
  next
    case False
    then show ?thesis using s2 mem by (auto intro!: image_eqI [OF _ mem])
  qed
  show ?thesis using mem mem2 s2 by (simp add: Let_def s1_def)
qed

theorem heartbeat_then_cleanup_witness:
  "\<lparr>sub_pid = 42, last_heartbeat_ns = 5\<rparr> \<in> set (subs (irt_sub_update_heartbeat (fresh_shm 4 2 7) 42 5))"
  using heartbeat_then_cleanup [of "fresh_shm 4 2 7" 42 5 1] fresh_shm_wf [of 4 2 7]
  by (simp add: fresh_shm_fields word_less_nat_alt zero_sub_def Let_def)

end
