(* ===== verification/Delta.thy ===== *)
theory Delta
  imports Shm "HOL-Library.Char_ord"
begin

text \<open>
  The log of run-time changes of \<^verbatim>\<open>src/core/irt_delta.c\<close> at the level of bytes: 80-byte records,
  the append with its short writes, and the replay loop. What the operating system answers to a
  write (number of bytes, outcome of \<open>fsync\<close>) and where a read fails are parameters.
\<close>

definition IRT_DELTA_MAGIC :: u32 where "IRT_DELTA_MAGIC = 0x444C5441"
definition IRT_DELTA_VERSION :: u16 where "IRT_DELTA_VERSION = 1"
definition IRT_DELTA_OP_CREATE :: u16 where "IRT_DELTA_OP_CREATE = 1"
definition IRT_DELTA_OP_DELETE :: u16 where "IRT_DELTA_OP_DELETE = 2"
definition IRT_DELTA_OP_RENAME :: u16 where "IRT_DELTA_OP_RENAME = 3"

lemmas delta_const_defs = IRT_DELTA_MAGIC_def IRT_DELTA_VERSION_def IRT_DELTA_OP_CREATE_def
  IRT_DELTA_OP_DELETE_def IRT_DELTA_OP_RENAME_def

record irt_delta_rec =
  d_magic :: u32
  d_version :: u16
  d_op :: u16
  d_point_id :: u32
  d_type :: u8
  d_access :: u8
  d_name :: string

definition le16 :: "u16 \<Rightarrow> u8 list" where
  "le16 w = [ucast w, ucast (drop_bit 8 w)]"

definition c_buf :: "nat \<Rightarrow> string \<Rightarrow> u8 list" where
  "c_buf n s = (let t = map of_char (take (n - 1) s) in t @ replicate (n - length t) 0)"

definition delta_bytes :: "irt_delta_rec \<Rightarrow> u8 list" where
  "delta_bytes r = le32 (d_magic r) @ le16 (d_version r) @ le16 (d_op r) @ le32 (d_point_id r)
     @ [d_type r, d_access r, 0, 0] @ c_buf 64 (d_name r)"

definition of_le :: "u8 list \<Rightarrow> 'a::len word" where
  "of_le bs = fold (\<lambda>b w. push_bit 8 w OR ucast b) (rev bs) 0"

definition c_string :: "u8 list \<Rightarrow> string" where
  "c_string bs = map (\<lambda>b. char_of (unat b)) (takeWhile (\<lambda>b. b \<noteq> 0) bs)"

definition delta_of_bytes :: "u8 list \<Rightarrow> irt_delta_rec" where
  "delta_of_bytes bs =
     \<lparr>d_magic = of_le (take 4 bs), d_version = of_le (take 2 (drop 4 bs)),
      d_op = of_le (take 2 (drop 6 bs)), d_point_id = of_le (take 4 (drop 8 bs)),
      d_type = bs ! 12, d_access = bs ! 13, d_name = c_string (take 64 (drop 16 bs))\<rparr>"

text \<open>
  \<open>irt_delta_append\<close>: the bytes that reach the file, and the result. \<open>n\<close> is what \<open>write\<close> returns.
\<close>

definition irt_delta_append :: "int \<Rightarrow> u8 list \<Rightarrow> irt_delta_rec \<Rightarrow> int \<Rightarrow> bool \<Rightarrow> int \<times> u8 list" where
  "irt_delta_append fd file r n fsync_ok =
     (if fd < 0 then (-1, file)
      else let file = file @ take (nat n) (delta_bytes r)
           in if n \<noteq> 80 then (-1, file)
              else if \<not> fsync_ok then (-1, file)
              else (0, file))"

text \<open>
  The replay loop over the rest of the file; \<open>io = Some k\<close> means that the read of the \<open>k\<close>-th coming
  record fails.
\<close>

function replay_loop ::
  "(irt_delta_rec \<Rightarrow> 's \<Rightarrow> int \<times> 's) \<Rightarrow> nat option \<Rightarrow> u8 list \<Rightarrow> int \<Rightarrow> 's \<Rightarrow> int \<times> 's" where
  "replay_loop app io file applied st =
     (if io = Some 0 then (-1, st)
      else if file = [] then (applied, st)
      else if length file < 80 then (applied, st)
      else
        let r = delta_of_bytes (take 80 file)
        in if d_magic r \<noteq> IRT_DELTA_MAGIC \<or> d_version r \<noteq> IRT_DELTA_VERSION then (applied, st)
           else if d_op r \<noteq> IRT_DELTA_OP_CREATE \<and> d_op r \<noteq> IRT_DELTA_OP_DELETE
                \<and> d_op r \<noteq> IRT_DELTA_OP_RENAME then (applied, st)
           else let (rc, st) = app r st
                in if rc \<noteq> 0 then (applied, st)
                   else replay_loop app (map_option (\<lambda>k. k - 1) io) (drop 80 file) (applied + 1) st)"
  by pat_completeness auto
termination by (relation "measure (\<lambda>(app, io, file, applied, st). length file)") auto

declare replay_loop.simps [simp del]

definition irt_delta_replay ::
  "(irt_delta_rec \<Rightarrow> 's \<Rightarrow> int \<times> 's) \<Rightarrow> string \<Rightarrow> u8 list option \<Rightarrow> nat option \<Rightarrow> 's \<Rightarrow> int \<times> 's" where
  "irt_delta_replay app path file io st =
     (if path = [] then (0, st)
      else case file of None \<Rightarrow> (0, st) | Some bs \<Rightarrow> replay_loop app io bs 0 st)"

section \<open>Records survive the encoding\<close>

lemma of_le_le32 [simp]: "of_le (le32 w) = w"
proof (rule bit_word_eqI)
  fix n :: nat
  assume "n < LENGTH(32)"
  consider "n < 8" | "8 \<le> n" "n < 16" | "16 \<le> n" "n < 24" | "24 \<le> n" "n < 32"
    using \<open>n < LENGTH(32)\<close> by fastforce
  then show "bit (of_le (le32 w) :: u32) n = bit w n"
    by cases (auto simp: of_le_def le32_def bit_simps)
qed

lemma of_le_le16 [simp]: "of_le (le16 w) = w"
proof (rule bit_word_eqI)
  fix n :: nat
  assume "n < LENGTH(16)"
  then consider "n < 8" | "8 \<le> n" "n < 16" by fastforce
  then show "bit (of_le (le16 w) :: u16) n = bit w n"
    by cases (auto simp: of_le_def le16_def bit_simps)
qed

lemma length_le [simp]: "length (le32 w) = 4" "length (le16 v) = 2"
  by (simp_all add: le32_def le16_def)

lemma length_c_buf: "0 < n \<Longrightarrow> length (c_buf n s) = n"
  by (auto simp: c_buf_def Let_def)

lemma length_delta_bytes [simp]: "length (delta_bytes r) = 80"
  by (simp add: delta_bytes_def length_c_buf)

lemma delta_bytes_not_Nil [simp]: "delta_bytes r \<noteq> []"
  by (metis length_delta_bytes list.size(3) zero_neq_numeral)

lemma unat_of_char [simp]: "unat (of_char c :: u8) = of_char c"
proof -
  have "(of_char c :: u8) = word_of_nat (of_char c)" by (simp only: of_nat_of_char)
  then show ?thesis by (simp add: unat_of_nat)
qed

lemma of_char_zero: "(of_char c :: u8) = 0 \<longleftrightarrow> c = CHR 0x00"
proof -
  have "(of_char c :: u8) = 0 \<longleftrightarrow> (of_char c :: nat) = of_char (CHR 0x00)"
    by (simp add: word_unat_eq_iff)
  also have "\<dots> \<longleftrightarrow> c = CHR 0x00" by (rule of_char_eq_iff)
  finally show ?thesis .
qed

definition no_nul :: "string \<Rightarrow> bool" where
  "no_nul s \<longleftrightarrow> CHR 0x00 \<notin> set s"

lemma c_string_c_buf:
  assumes "no_nul s" "length s < n"
  shows "c_string (c_buf n s) = s"
proof -
  have "takeWhile (\<lambda>b. b \<noteq> 0) (map of_char s @ replicate (n - length s) 0) = (map of_char s :: u8 list)"
    using assms by (subst takeWhile_append2) (auto simp: no_nul_def of_char_zero takeWhile_replicate)
  moreover have "take (n - 1) s = s" using assms(2) by simp
  ultimately show ?thesis
    by (simp add: c_string_def c_buf_def Let_def o_def)
qed

lemma delta_bytes_inverse:
  assumes "no_nul (d_name r)" "length (d_name r) \<le> 63"
  shows "delta_of_bytes (delta_bytes r) = r"
proof -
  have l: "length (c_buf 64 (d_name r)) = 64" by (simp add: length_c_buf)
  have "c_string (take 64 (c_buf 64 (d_name r))) = d_name r"
    using assms l by (simp add: c_string_c_buf)
  then show ?thesis
    unfolding delta_of_bytes_def delta_bytes_def by (simp add: nth_append)
qed

definition delta_ok :: "irt_delta_rec \<Rightarrow> bool" where
  "delta_ok r \<longleftrightarrow> d_magic r = IRT_DELTA_MAGIC \<and> d_version r = IRT_DELTA_VERSION
     \<and> d_op r \<in> {IRT_DELTA_OP_CREATE, IRT_DELTA_OP_DELETE, IRT_DELTA_OP_RENAME}
     \<and> no_nul (d_name r) \<and> length (d_name r) \<le> 63"

lemma replay_loop_records:
  assumes "\<forall>r \<in> set rs. delta_ok r" "\<And>r st. delta_ok r \<Longrightarrow> fst (app r st) = 0" "length frag < 80"
  shows "replay_loop app None (concat (map delta_bytes rs) @ frag) k st =
    (k + int (length rs), fold (\<lambda>r st. snd (app r st)) rs st)"
  using assms(1)
proof (induction rs arbitrary: k st)
  case Nil
  then show ?case using assms(3) by (subst replay_loop.simps) simp
next
  case (Cons r rs)
  then have r: "delta_of_bytes (delta_bytes r) = r" "delta_ok r"
    by (auto intro: delta_bytes_inverse simp: delta_ok_def)
  obtain st' where a: "app r st = (0, st')" using assms(2) [of r st] r(2) by (cases "app r st") simp
  show ?case
    using Cons r a by (subst replay_loop.simps) (auto simp: Let_def delta_ok_def)
qed

text \<open>
  Round trip of the log: after any sequence of successful appends to an empty file, followed by
  at most one write that broke off, a replay whose callback accepts every record applies exactly
  the appended records, in order, and returns their number.
\<close>

theorem delta_append_replay:
  assumes "\<forall>r \<in> set rs. delta_ok r" "\<And>r st. delta_ok r \<Longrightarrow> fst (app r st) = 0" "path \<noteq> []"
    and "0 \<le> fd" "n < 80"
  shows "let file = fold (\<lambda>r f. snd (irt_delta_append fd f r 80 True)) rs [];
             file = snd (irt_delta_append fd file last_rec n True)
    in irt_delta_replay app path (Some file) None st =
       (int (length rs), fold (\<lambda>r st. snd (app r st)) rs st)"
proof -
  have appended: "fold (\<lambda>r f. snd (irt_delta_append fd f r 80 True)) rs bs = bs @ concat (map delta_bytes rs)" for bs
    using assms(4) by (induction rs arbitrary: bs) (simp_all add: irt_delta_append_def)
  have "snd (irt_delta_append fd bs last_rec n True) = bs @ take (nat n) (delta_bytes last_rec)" for bs
    using assms(4) by (simp add: irt_delta_append_def Let_def)
  then show ?thesis
    using replay_loop_records [OF assms(1,2), where frag = "take (nat n) (delta_bytes last_rec)" and k = 0 and st = st] assms(3,5)
    by (simp add: Let_def appended irt_delta_replay_def)
qed

definition demo_rec :: "string \<Rightarrow> irt_delta_rec" where
  "demo_rec name = \<lparr>d_magic = IRT_DELTA_MAGIC, d_version = IRT_DELTA_VERSION, d_op = IRT_DELTA_OP_CREATE,
     d_point_id = 3, d_type = 1, d_access = 3, d_name = name\<rparr>"

theorem delta_append_replay_witness:
  "let file = fold (\<lambda>r f. snd (irt_delta_append 5 f r 80 True)) [demo_rec ''pump1''] [];
             file = snd (irt_delta_append 5 file (demo_rec ''valve2'') 17 True)
    in irt_delta_replay (\<lambda>r st. (0, d_name r # st)) ''/d'' (Some file) None [] = (1, [''pump1''])"
  using delta_append_replay [of "[demo_rec ''pump1'']" "\<lambda>r st. (0, d_name r # st)" "''/d''" 5 17
      "demo_rec ''valve2''" "[]"]
  by (simp add: delta_ok_def demo_rec_def no_nul_def)

text \<open>
  A short write in the middle of the log is not recognised: when the write of one record breaks
  off after 20 bytes and the next record is appended completely, the replay reads the 80 bytes that
  start with the fragment as a valid record whose name is the beginning of the first name followed
  by the magic number of the next record, and applies it.
\<close>

theorem delta_short_write_forges_record:
  "let file = snd (irt_delta_append 5 [] (demo_rec ''valve2'') 20 True);
       file = snd (irt_delta_append 5 file (demo_rec ''pump1'') 80 True)
   in irt_delta_replay (\<lambda>r st. (0, d_name r # st)) ''/d'' (Some file) None [] =
      (1, [''valv'' @ [CHR 0x41, CHR 0x54, CHR 0x4C, CHR 0x44, CHR 0x01]])"
  by code_simp

end
