(* ===== verification/Semantics.thy ===== *)
theory Semantics
  imports Point_Manager Delta
begin

text \<open>
  The pure functions of \<^verbatim>\<open>src/core/irt_semantics.c\<close> (conversion of a value to double, range limit
  bits, dead band) and the metadata validation of \<^verbatim>\<open>src/api/indurtdb.c\<close>. Doubles are the values
  of IEEE binary64: NaN, the infinities, and finite values as integers in units of \<open>2 ^ -1074\<close>,
  so that comparisons are exact and subtraction and multiplication round to nearest even. The sign
  of zero, which no comparison of the program sees, is not kept.
\<close>

section \<open>IEEE binary64 values\<close>

datatype f64 = NaN | PInf | NInf | Fin int

fun bit_len :: "nat \<Rightarrow> nat" where
  "bit_len n = (if n = 0 then 0 else Suc (bit_len (n div 2)))"

declare bit_len.simps [simp del]

definition round_half_even :: "nat \<Rightarrow> nat \<Rightarrow> nat" where
  "round_half_even n k =
     (let q = n div 2 ^ k; r = 2 * (n mod 2 ^ k)
      in if r < 2 ^ k then q else if 2 ^ k < r then q + 1 else if even q then q else q + 1)"

text \<open>
  The value \<open>n / 2 ^ k\<close> (in units of \<open>2 ^ -1074\<close>) rounded to a binary64 value: \<open>e\<close> is the exponent
  of the last place, the result overflows from \<open>2 ^ 1024\<close> on, which is \<open>2 ^ 2098\<close> units.
\<close>

definition f64_round_mag :: "nat \<Rightarrow> nat \<Rightarrow> nat" where
  "f64_round_mag n k = (let e = bit_len n - (53 + k) in round_half_even n (k + e) * 2 ^ e)"

definition f64_round :: "int \<Rightarrow> nat \<Rightarrow> f64" where
  "f64_round n k =
     (let m = f64_round_mag (nat \<bar>n\<bar>) k
      in if 2 ^ 2098 \<le> m then (if n < 0 then NInf else PInf)
         else Fin (if n < 0 then - int m else int m))"

fun f64_less :: "f64 \<Rightarrow> f64 \<Rightarrow> bool" where
  "f64_less NaN y = False"
| "f64_less x NaN = False"
| "f64_less PInf y = False"
| "f64_less x NInf = False"
| "f64_less NInf y = True"
| "f64_less x PInf = True"
| "f64_less (Fin a) (Fin b) = (a < b)"

fun f64_le :: "f64 \<Rightarrow> f64 \<Rightarrow> bool" where
  "f64_le NaN y = False"
| "f64_le x NaN = False"
| "f64_le NInf y = True"
| "f64_le x PInf = True"
| "f64_le PInf y = False"
| "f64_le x NInf = False"
| "f64_le (Fin a) (Fin b) = (a \<le> b)"

fun f64_sub :: "f64 \<Rightarrow> f64 \<Rightarrow> f64" where
  "f64_sub NaN y = NaN"
| "f64_sub x NaN = NaN"
| "f64_sub PInf y = (if y = PInf then NaN else PInf)"
| "f64_sub NInf y = (if y = NInf then NaN else NInf)"
| "f64_sub x PInf = NInf"
| "f64_sub x NInf = PInf"
| "f64_sub (Fin a) (Fin b) = f64_round (a - b) 0"

definition f64_sgn :: "f64 \<Rightarrow> int" where
  "f64_sgn x = (case x of NaN \<Rightarrow> 0 | PInf \<Rightarrow> 1 | NInf \<Rightarrow> -1 | Fin a \<Rightarrow> sgn a)"

definition f64_mul :: "f64 \<Rightarrow> f64 \<Rightarrow> f64" where
  "f64_mul x y =
     (if x = NaN \<or> y = NaN then NaN
      else case (x, y) of
        (Fin a, Fin b) \<Rightarrow> f64_round (a * b) 1074
      | _ \<Rightarrow> (let g = f64_sgn x * f64_sgn y
              in if g = 0 then NaN else if 0 < g then PInf else NInf))"

definition f64_of_int :: "int \<Rightarrow> f64" where
  "f64_of_int n = f64_round (n * 2 ^ 1074) 0"

definition f64_isfinite :: "f64 \<Rightarrow> bool" where
  "f64_isfinite x \<longleftrightarrow> (case x of Fin _ \<Rightarrow> True | _ \<Rightarrow> False)"

text \<open>Reading the object representations.\<close>

definition f64_of_bits :: "u64 \<Rightarrow> f64" where
  "f64_of_bits w =
     (let neg = bit w 63; e = unat (drop_bit 52 w AND 0x7FF); m = unat (w AND 0xFFFFFFFFFFFFF)
      in if e = 0x7FF then (if m \<noteq> 0 then NaN else if neg then NInf else PInf)
         else let v = (if e = 0 then int m else (2 ^ 52 + int m) * 2 ^ (e - 1))
              in Fin (if neg then - v else v))"

definition f64_of_f32_bits :: "u32 \<Rightarrow> f64" where
  "f64_of_f32_bits w =
     (let neg = bit w 31; e = unat (drop_bit 23 w AND 0xFF); m = unat (w AND 0x7FFFFF)
      in if e = 0xFF then (if m \<noteq> 0 then NaN else if neg then NInf else PInf)
         else let v = (if e = 0 then int m else (2 ^ 23 + int m) * 2 ^ (e - 1)) * 2 ^ 925
              in Fin (if neg then - v else v))"

section \<open>Value semantics\<close>

definition indurtdb_value_to_double :: "u8 \<Rightarrow> u8 list \<Rightarrow> f64" where
  "indurtdb_value_to_double t bits =
     (if t = INDURTDB_TYPE_BOOL then (if bits ! 0 \<noteq> 0 then Fin (2 ^ 1074) else Fin 0)
      else if t = INDURTDB_TYPE_INT32 then f64_of_int (sint (of_le (take 4 bits) :: u32))
      else if t = INDURTDB_TYPE_UINT32 then f64_of_int (uint (of_le (take 4 bits) :: u32))
      else if t = INDURTDB_TYPE_INT64 then f64_of_int (sint (of_le (take 8 bits) :: u64))
      else if t = INDURTDB_TYPE_FLOAT then f64_of_f32_bits (of_le (take 4 bits))
      else if t = INDURTDB_TYPE_DOUBLE then f64_of_bits (of_le (take 8 bits))
      else Fin 0)"

definition indurtdb_eurange_limit :: "bool \<Rightarrow> f64 \<Rightarrow> f64 \<Rightarrow> f64 \<Rightarrow> u8" where
  "indurtdb_eurange_limit eur_enabled lo hi v =
     (if \<not> eur_enabled then LIMIT_NONE
      else if f64_less v lo then LIMIT_LOW
      else if f64_less hi v then LIMIT_HIGH
      else LIMIT_NONE)"

definition f64_0_01 :: f64 where "f64_0_01 = f64_of_bits 0x3F847AE147AE147B"

definition indurtdb_deadband_exceeded :: "bool \<Rightarrow> f64 \<Rightarrow> f64 \<Rightarrow> f64 \<Rightarrow> f64 \<Rightarrow> f64 \<Rightarrow> bool" where
  "indurtdb_deadband_exceeded abs_mode db lo hi prev cur =
     (let delta = (if f64_less prev cur then f64_sub cur prev else f64_sub prev cur)
      in if abs_mode then f64_less db delta
         else let span = f64_sub hi lo
              in if f64_le span (Fin 0) then False
                 else f64_less (f64_mul (f64_mul db f64_0_01) span) delta)"

section \<open>Metadata validation\<close>

definition META_FLAG_EUR :: u32 where "META_FLAG_EUR = 1"
definition META_FLAG_DEADBAND :: u32 where "META_FLAG_DEADBAND = 2"
definition META_FLAG_DEADBAND_PCT :: u32 where "META_FLAG_DEADBAND_PCT = 4"
definition IRT_META_FLAG_KNOWN :: u32 where
  "IRT_META_FLAG_KNOWN = (META_FLAG_EUR OR META_FLAG_DEADBAND OR META_FLAG_DEADBAND_PCT)"

datatype cfg_error = CFG_OK | CFG_ERR_NULL | CFG_ERR_EUR_RANGE | CFG_ERR_DEADBAND
  | CFG_ERR_DEADBAND_PCT | CFG_ERR_FLAGS | CFG_ERR_TYPE | CFG_ERR_NAME | CFG_ERR_ACCESS

datatype cfg_field = FLD_NONE | FLD_EUR_MIN | FLD_EUR_MAX | FLD_DEADBAND | FLD_FLAGS
  | FLD_TYPE | FLD_NAME | FLD_ACCESS

fun fld_num :: "cfg_field \<Rightarrow> nat" where
  "fld_num FLD_NONE = 0" | "fld_num FLD_EUR_MIN = 1" | "fld_num FLD_EUR_MAX = 2"
| "fld_num FLD_DEADBAND = 3" | "fld_num FLD_FLAGS = 4" | "fld_num FLD_TYPE = 5"
| "fld_num FLD_NAME = 6" | "fld_num FLD_ACCESS = 7"

fun cfg_num :: "cfg_error \<Rightarrow> int" where
  "cfg_num CFG_OK = 0" | "cfg_num CFG_ERR_NULL = 1" | "cfg_num CFG_ERR_EUR_RANGE = 2"
| "cfg_num CFG_ERR_DEADBAND = 3" | "cfg_num CFG_ERR_DEADBAND_PCT = 4" | "cfg_num CFG_ERR_FLAGS = 5"
| "cfg_num CFG_ERR_TYPE = 6" | "cfg_num CFG_ERR_NAME = 7" | "cfg_num CFG_ERR_ACCESS = 8"

definition indurtdb_validate_point_meta :: "meta \<Rightarrow> cfg_error \<times> cfg_field" where
  "indurtdb_validate_point_meta m =
     (if m_flags m AND NOT IRT_META_FLAG_KNOWN \<noteq> 0 then (CFG_ERR_FLAGS, FLD_FLAGS)
      else
        let lo = f64_of_bits (eur_min m); hi = f64_of_bits (eur_max m); db = f64_of_f32_bits (deadband m)
        in if m_flags m AND META_FLAG_EUR \<noteq> 0 \<and>
              (\<not> f64_isfinite lo \<or> \<not> f64_isfinite hi \<or> \<not> f64_less lo hi)
           then (CFG_ERR_EUR_RANGE, if f64_le hi lo then FLD_EUR_MIN else FLD_EUR_MAX)
           else if \<not> f64_le (Fin 0) db then (CFG_ERR_DEADBAND, FLD_DEADBAND)
           else if m_flags m AND META_FLAG_DEADBAND_PCT \<noteq> 0 \<and> \<not> f64_le db (Fin (100 * 2 ^ 1074))
           then (CFG_ERR_DEADBAND_PCT, FLD_DEADBAND)
           else (CFG_OK, FLD_NONE))"

definition indurtdb_cfg_error_reason :: "cfg_error \<Rightarrow> string" where
  "indurtdb_cfg_error_reason e =
     (case e of
        CFG_OK \<Rightarrow> ''ok''
      | CFG_ERR_NULL \<Rightarrow> ''meta pointer is NULL''
      | CFG_ERR_EUR_RANGE \<Rightarrow> ''EUR enabled but eur_min >= eur_max''
      | CFG_ERR_DEADBAND \<Rightarrow> ''deadband is negative''
      | CFG_ERR_DEADBAND_PCT \<Rightarrow> ''percent deadband not in [0,100]''
      | CFG_ERR_FLAGS \<Rightarrow> ''meta flags contains unknown bits''
      | CFG_ERR_TYPE \<Rightarrow> ''point type out of range''
      | CFG_ERR_NAME \<Rightarrow> ''point name is empty''
      | CFG_ERR_ACCESS \<Rightarrow> ''point access is neither read-only nor read-write'')"

definition indurtdb_meta_pct_without_range :: "meta \<Rightarrow> bool" where
  "indurtdb_meta_pct_without_range m =
     (if m_flags m AND META_FLAG_DEADBAND_PCT = 0 then False
      else \<not> f64_less (f64_of_bits (eur_min m)) (f64_of_bits (eur_max m)))"

section \<open>Integers are exact\<close>

lemma bit_len_le: "n < 2 ^ b \<Longrightarrow> bit_len n \<le> b"
proof (induction b arbitrary: n)
  case 0
  then show ?case by (simp add: bit_len.simps)
next
  case (Suc b)
  then have "bit_len (n div 2) \<le> b" by (intro Suc.IH) simp
  then show ?case by (simp add: bit_len.simps [of n])
qed

lemma round_half_even_exact: "2 ^ k dvd n \<Longrightarrow> round_half_even n k = n div 2 ^ k"
  by (simp add: round_half_even_def Let_def)

lemma f64_round_exact:
  assumes "\<bar>c\<bar> < 2 ^ 53"
  shows "f64_round (c * 2 ^ 1074) 0 = Fin (c * 2 ^ 1074)"
proof -
  let ?n = "nat \<bar>c\<bar> * 2 ^ 1074"
  have n: "nat \<bar>c * 2 ^ 1074\<bar> = ?n" by (simp add: abs_mult nat_mult_distrib)
  have c: "nat \<bar>c\<bar> < 2 ^ 53" using assms by (simp add: nat_less_iff)
  then have "?n < 2 ^ 53 * 2 ^ 1074" by simp
  then have "?n < 2 ^ (53 + 1074)" by (simp only: power_add)
  then have e: "bit_len ?n - (53 + 0) \<le> 1074" using bit_len_le [of ?n "53 + 1074"] by simp
  then have dvd: "2 ^ (bit_len ?n - (53 + 0)) dvd ?n"
    by (intro dvd_mult le_imp_power_dvd)
  then have mag: "f64_round_mag ?n 0 = ?n"
    by (simp add: f64_round_mag_def Let_def round_half_even_exact)
  have "?n < 2 ^ 2098"
  proof -
    have "?n < 2 ^ 53 * 2 ^ 1074" using c by simp
    also have "\<dots> \<le> 2 ^ 2098" by (simp only: flip: power_add) simp
    finally show ?thesis .
  qed
  then show ?thesis
    using mag n by (simp add: f64_round_def Let_def not_le mult_less_0_iff del: power_numeral)
qed

lemma f64_of_int_exact: "\<bar>c\<bar> < 2 ^ 53 \<Longrightarrow> f64_of_int c = Fin (c * 2 ^ 1074)"
  by (simp only: f64_of_int_def f64_round_exact)

lemma sint32_bounds: "- (2 ^ 31) \<le> sint (w :: u32)" "sint (w :: u32) < 2 ^ 31"
  using sint_ge [of w] sint_lt [of w] by simp_all

lemma value_int32:
  "indurtdb_value_to_double INDURTDB_TYPE_INT32 (le32 w @ rest) = Fin (sint w * 2 ^ 1074)"
proof -
  have "\<bar>sint w\<bar> < 2 ^ 53" using sint32_bounds [of w] by simp
  moreover have "take 4 (le32 w @ rest) = le32 w" by simp
  ultimately show ?thesis
    unfolding indurtdb_value_to_double_def
    by (simp add: point_type_defs f64_of_int_exact del: power_numeral)
qed

lemma f64_sub_int:
  "\<bar>a\<bar> \<le> 2 ^ 31 \<Longrightarrow> \<bar>b\<bar> \<le> 2 ^ 31 \<Longrightarrow> f64_sub (Fin (a * 2 ^ 1074)) (Fin (b * 2 ^ 1074)) = Fin ((a - b) * 2 ^ 1074)"
proof -
  assume "\<bar>a\<bar> \<le> 2 ^ 31" "\<bar>b\<bar> \<le> 2 ^ 31"
  then have "\<bar>a - b\<bar> < 2 ^ 53" by simp
  then show ?thesis by (simp only: f64_sub.simps left_diff_distrib [symmetric] f64_round_exact)
qed

text \<open>
  C37. For 32-bit integer points the conversion to double and the subtraction of the dead-band test
  lose nothing: with an absolute dead band the test fires exactly when the distance of the two
  integers exceeds the dead band (a tie does not fire).
\<close>

theorem deadband_int32_exact:
  "indurtdb_deadband_exceeded True (Fin D) lo hi
      (indurtdb_value_to_double INDURTDB_TYPE_INT32 (le32 a))
      (indurtdb_value_to_double INDURTDB_TYPE_INT32 (le32 b))
    \<longleftrightarrow> D < \<bar>sint b - sint a\<bar> * 2 ^ 1074"
proof -
  define P :: int where "P = 2 ^ 1074"
  have P: "0 < P" by (simp add: P_def)
  have bnd: "\<bar>sint a\<bar> \<le> 2 ^ 31" "\<bar>sint b\<bar> \<le> 2 ^ 31"
    using sint32_bounds [of a] sint32_bounds [of b] by auto
  have val: "indurtdb_value_to_double INDURTDB_TYPE_INT32 (le32 w) = Fin (sint w * P)" for w
    using value_int32 [of w "[]"] by (simp add: P_def del: power_numeral)
  have sub: "f64_sub (Fin (sint b * P)) (Fin (sint a * P)) = Fin ((sint b - sint a) * P)"
    "f64_sub (Fin (sint a * P)) (Fin (sint b * P)) = Fin ((sint a - sint b) * P)"
    using bnd by (simp_all only: P_def f64_sub_int)
  show ?thesis
    unfolding indurtdb_deadband_exceeded_def Let_def val P_def [symmetric] if_True sub
    using P by (cases "sint a < sint b") (simp_all add: sub)
qed

text \<open>
  Range bits: for metadata that the validation accepts with range checking on, a value that is
  not NaN gets the low bit exactly when it is below the range, the high bit exactly when it is
  above, and none exactly when it lies within the closed range; the first two exclude each other.
\<close>

theorem eurange_limit_partition:
  assumes "indurtdb_validate_point_meta m = (CFG_OK, fld)" "m_flags m AND META_FLAG_EUR \<noteq> 0" "v \<noteq> NaN"
  defines "lo \<equiv> f64_of_bits (eur_min m)" and "hi \<equiv> f64_of_bits (eur_max m)"
  shows "(indurtdb_eurange_limit True lo hi v = LIMIT_LOW \<longleftrightarrow> f64_less v lo)
    \<and> (indurtdb_eurange_limit True lo hi v = LIMIT_HIGH \<longleftrightarrow> f64_less hi v)
    \<and> (indurtdb_eurange_limit True lo hi v = LIMIT_NONE \<longleftrightarrow> f64_le lo v \<and> f64_le v hi)
    \<and> \<not> (f64_less v lo \<and> f64_less hi v)"
proof -
  have "f64_isfinite lo" "f64_isfinite hi" "f64_less lo hi"
    using assms(1,2) by (auto simp: indurtdb_validate_point_meta_def Let_def lo_def hi_def split: if_splits)
  then obtain a b where ab: "lo = Fin a" "hi = Fin b" "a < b"
    by (auto simp: f64_isfinite_def split: f64.splits)
  show ?thesis
    using assms(3) ab(3) unfolding ab
    by (cases v) (auto simp: indurtdb_eurange_limit_def LIMIT_LOW_def LIMIT_HIGH_def LIMIT_NONE_def)
qed

text \<open>0.0 to 100.0 with range checking on.\<close>

definition demo_meta :: meta where
  "demo_meta = \<lparr>eur_min = 0, eur_max = 0x4059000000000000, deadband = 0, m_flags = 1\<rparr>"

lemma f64_zero: "f64_of_bits 0 = Fin 0" "f64_of_f32_bits 0 = Fin 0"
  by (simp_all add: f64_of_bits_def f64_of_f32_bits_def)

lemma f64_hundred: "f64_of_bits 0x4059000000000000 = Fin (0x19000000000000 * 2 ^ 1028)"
proof -
  have neg: "\<not> bit (0x4059000000000000 :: u64) 63" by simp
  have e: "unat (drop_bit 52 (0x4059000000000000 :: u64) AND 0x7FF) = 1029" by simp
  have m: "unat ((0x4059000000000000 :: u64) AND 0xFFFFFFFFFFFFF) = 0x9000000000000" by simp
  have "(1029 :: nat) \<noteq> 0x7FF" "(1029 :: nat) \<noteq> 0" "(1029 :: nat) - 1 = 1028" by simp_all
  moreover have "2 ^ 52 + int 0x9000000000000 = 0x19000000000000" by simp
  ultimately show ?thesis
    unfolding f64_of_bits_def Let_def e m by (simp only: neg if_False)
qed

lemma demo_meta_valid: "indurtdb_validate_point_meta demo_meta = (CFG_OK, FLD_NONE)"
  by (simp add: indurtdb_validate_point_meta_def demo_meta_def f64_zero f64_hundred f64_isfinite_def
      IRT_META_FLAG_KNOWN_def META_FLAG_EUR_def META_FLAG_DEADBAND_def META_FLAG_DEADBAND_PCT_def
      del: power_numeral)

theorem eurange_limit_partition_witness:
  "indurtdb_eurange_limit True (f64_of_bits 0) (f64_of_bits 0x4059000000000000) PInf = LIMIT_HIGH"
proof -
  have "m_flags demo_meta AND META_FLAG_EUR \<noteq> 0"
    by (simp add: demo_meta_def META_FLAG_EUR_def)
  then have "indurtdb_eurange_limit True (f64_of_bits (eur_min demo_meta)) (f64_of_bits (eur_max demo_meta)) PInf = LIMIT_HIGH
      \<longleftrightarrow> f64_less (f64_of_bits (eur_max demo_meta)) PInf"
    using eurange_limit_partition [OF demo_meta_valid, of PInf] by simp
  moreover have "f64_less (f64_of_bits (eur_max demo_meta)) PInf"
    by (simp add: demo_meta_def f64_hundred del: power_numeral)
  ultimately show ?thesis by (simp add: demo_meta_def)
qed

end
