(* ===== verification/C_Lib.thy ===== *)
theory C_Lib
  imports IRT_Prelude "HOL-Library.Char_ord"
begin

text \<open>
  The functions of the C library that the parsers use, on NUL-free strings: \<open>isspace\<close>,
  \<open>strchr\<close>, \<open>strtoul\<close> in the bases 0, 10 and 16, and reading a text file line by line with
  \<open>fgets\<close> into a buffer of bounded size.
\<close>

definition isspace :: "char \<Rightarrow> bool" where
  "isspace c \<longleftrightarrow> c \<in> {CHR '' '', CHR 0x09, CHR 0x0A, CHR 0x0B, CHR 0x0C, CHR 0x0D}"

definition code :: "char \<Rightarrow> nat" where
  "code c = of_char c"

definition digit_val :: "char \<Rightarrow> nat option" where
  "digit_val c =
     (if code CHR ''0'' \<le> code c \<and> code c \<le> code CHR ''9'' then Some (code c - code CHR ''0'')
      else if code CHR ''a'' \<le> code c \<and> code c \<le> code CHR ''z'' then Some (code c - code CHR ''a'' + 10)
      else if code CHR ''A'' \<le> code c \<and> code c \<le> code CHR ''Z'' then Some (code c - code CHR ''A'' + 10)
      else None)"

definition is_digit :: "nat \<Rightarrow> char \<Rightarrow> bool" where
  "is_digit b c \<longleftrightarrow> (case digit_val c of None \<Rightarrow> False | Some d \<Rightarrow> d < b)"

definition digits_val :: "nat \<Rightarrow> string \<Rightarrow> nat" where
  "digits_val b ds = fold (\<lambda>c n. n * b + the (digit_val c)) ds 0"

text \<open>
  \<open>strtoul(s, &end, base)\<close>: the value, whether \<open>errno\<close> is \<open>ERANGE\<close>, and \<open>end\<close> as the rest of the
  string (\<open>None\<close> when no conversion was performed, that is \<open>end == s\<close>). A minus sign negates the
  value in the unsigned 64-bit type.
\<close>

record strtoul_result =
  su_value :: u64
  su_erange :: bool
  su_end :: "string option"

definition c_strtoul :: "string \<Rightarrow> nat \<Rightarrow> strtoul_result" where
  "c_strtoul s base =
     (let t = dropWhile isspace s;
          neg = (t \<noteq> [] \<and> hd t = CHR ''-'');
          t = (if t \<noteq> [] \<and> (hd t = CHR ''-'' \<or> hd t = CHR ''+'') then tl t else t);
          hex = (length t \<ge> 3 \<and> t ! 0 = CHR ''0'' \<and> (t ! 1 = CHR ''x'' \<or> t ! 1 = CHR ''X'') \<and> is_digit 16 (t ! 2));
          b = (if base = 0 then (if hex then 16 else if t \<noteq> [] \<and> hd t = CHR ''0'' then 8 else 10) else base);
          t = (if b = 16 \<and> hex then drop 2 t else t);
          ds = takeWhile (is_digit b) t;
          n = digits_val b ds
      in if ds = [] then \<lparr>su_value = 0, su_erange = False, su_end = None\<rparr>
         else if 2 ^ 64 \<le> n then \<lparr>su_value = - 1, su_erange = True, su_end = Some (drop (length ds) t)\<rparr>
         else \<lparr>su_value = (if neg then - word_of_nat n else word_of_nat n), su_erange = False,
               su_end = Some (drop (length ds) t)\<rparr>)"

text \<open>The pieces that successive calls of \<open>fgets(line, n, f)\<close> return.\<close>

definition fgets_piece :: "nat \<Rightarrow> string \<Rightarrow> string" where
  "fgets_piece n s =
     (let l = takeWhile (\<lambda>c. c \<noteq> CHR 0x0A) s;
          l = (if length l < length s then l @ [CHR 0x0A] else l)
      in take (n - 1) l)"

function fgets_lines :: "nat \<Rightarrow> string \<Rightarrow> string list" where
  "fgets_lines n s =
     (if s = [] \<or> n \<le> 1 then []
      else let p = fgets_piece n s in p # fgets_lines n (drop (length p) s))"
  by pat_completeness auto
termination
proof (relation "measure (\<lambda>(n, s). length s)", goal_cases)
  case (2 n s p)
  have "fgets_piece n s \<noteq> []"
    using 2(1) by (cases s) (auto simp: fgets_piece_def Let_def)
  then show ?case using 2 by simp
qed simp

declare fgets_lines.simps [simp del]

text \<open>The conversion \<open>%u\<close>.\<close>

fun dec_digits :: "nat \<Rightarrow> string" where
  "dec_digits n = (if n < 10 then [char_of (n + 48)] else dec_digits (n div 10) @ [char_of (n mod 10 + 48)])"

declare dec_digits.simps [simp del]

section \<open>Facts\<close>

text \<open>Reading never loses or invents a character.\<close>

lemma take_of_prefix: "take k l @ drop (length (take k l)) (l @ r) = l @ r"
  by (cases "k \<le> length l") (simp_all add: min_def)

lemma fgets_piece_prefix: "fgets_piece n s @ drop (length (fgets_piece n s)) s = s"
proof (cases "dropWhile (\<lambda>c. c \<noteq> CHR 0x0A) s")
  case Nil
  then have "takeWhile (\<lambda>c. c \<noteq> CHR 0x0A) s = s"
    by (metis append_Nil2 takeWhile_dropWhile_id)
  then have p: "fgets_piece n s = take (n - 1) s"
    unfolding fgets_piece_def Let_def by (simp only: less_irrefl if_False)
  show ?thesis using take_of_prefix [of "n - 1" s "[]"] unfolding p append_Nil2 .
next
  case (Cons c r)
  then have c: "c = CHR 0x0A" using hd_dropWhile [of "\<lambda>c. c \<noteq> CHR 0x0A" s] by simp
  define w where "w = takeWhile (\<lambda>c. c \<noteq> CHR 0x0A) s"
  have s: "s = (w @ [CHR 0x0A]) @ r"
    using takeWhile_dropWhile_id [of "\<lambda>c. c \<noteq> CHR 0x0A" s] Cons c by (simp add: w_def)
  have "length w < length s" by (simp add: s)
  then have p: "fgets_piece n s = take (n - 1) (w @ [CHR 0x0A])"
    by (simp add: fgets_piece_def Let_def w_def [symmetric])
  show ?thesis unfolding p using take_of_prefix [of "n - 1" "w @ [CHR 0x0A]" r] unfolding s [symmetric] .
qed

lemma concat_fgets_lines: "1 < n \<Longrightarrow> concat (fgets_lines n s) = s"
proof (induction n s rule: fgets_lines.induct)
  case (1 n s)
  then show ?case
    using fgets_piece_prefix [of n s] by (subst fgets_lines.simps) (auto simp: Let_def)
qed

lemma fgets_lines_bound: "p \<in> set (fgets_lines n s) \<Longrightarrow> length p < n"
proof (induction n s rule: fgets_lines.induct)
  case (1 n s)
  then show ?case
    by (subst (asm) (2) fgets_lines.simps) (auto simp: Let_def fgets_piece_def split: if_splits)
qed

end
