(* ===== verification/Config.thy ===== *)
theory Config
  imports C_Lib Semantics
begin

text \<open>
  The configuration readers of \<^verbatim>\<open>src/core/irt_config.c\<close>: the \<open>key=value\<close> file of the library and
  the YAML point list. A file is its contents; the parser state is the record under construction
  and the list of finished ones. Memory never runs out. Hexadecimal floating constants, which
  \<open>strtod\<close> also reads, are outside the model of \<open>c_strtod\<close>.
\<close>

section \<open>Decimal constants\<close>

text \<open>The rational \<open>p / q\<close> rounded to binary64 as bits; \<open>None\<close> for a result out of range.\<close>

definition ratio_half_even :: "nat \<Rightarrow> nat \<Rightarrow> nat" where
  "ratio_half_even a b =
     (let q = a div b; r = 2 * (a mod b)
      in if r < b then q else if b < r then q + 1 else if even q then q else q + 1)"

definition f64_bits_of_ratio :: "nat \<Rightarrow> nat \<Rightarrow> u64 option" where
  "f64_bits_of_ratio p q =
     (let a = p * 2 ^ 1074; e = bit_len (a div q) - 53; m = ratio_half_even a (q * 2 ^ e);
          bits = e * 2 ^ 52 + m
      in if 0x7FF * 2 ^ 52 \<le> bits then None
         else if bits < 2 ^ 52 \<and> m * q \<noteq> a then None
         else Some (word_of_nat bits))"

text \<open>\<open>strtod\<close>: the bits, whether the range was exceeded, and the rest; \<open>None\<close> for no conversion.\<close>

definition c_strtod :: "string \<Rightarrow> (u64 \<times> bool \<times> string) option" where
  "c_strtod s =
     (let t = dropWhile isspace s;
          neg = (t \<noteq> [] \<and> hd t = CHR ''-'');
          t = (if t \<noteq> [] \<and> (hd t = CHR ''-'' \<or> hd t = CHR ''+'') then tl t else t);
          ip = takeWhile (is_digit 10) t; t = dropWhile (is_digit 10) t;
          fp = (if t \<noteq> [] \<and> hd t = CHR ''.'' then takeWhile (is_digit 10) (tl t) else []);
          t' = (if t \<noteq> [] \<and> hd t = CHR ''.'' then dropWhile (is_digit 10) (tl t) else t)
      in if ip = [] \<and> fp = [] then None
         else
           let x = (if t' \<noteq> [] \<and> (hd t' = CHR ''e'' \<or> hd t' = CHR ''E'') then tl t' else []);
               xneg = (x \<noteq> [] \<and> hd x = CHR ''-'');
               x = (if x \<noteq> [] \<and> (hd x = CHR ''-'' \<or> hd x = CHR ''+'') then tl x else x);
               xd = takeWhile (is_digit 10) x;
               ex = (if xneg then - int (digits_val 10 xd) else int (digits_val 10 xd)) - int (length fp);
               rest = (if xd = [] then t' else dropWhile (is_digit 10) x);
               m = digits_val 10 (ip @ fp);
               ex = (if xd = [] then - int (length fp) else ex);
               r = (if 0 \<le> ex then f64_bits_of_ratio (m * 10 ^ nat ex) 1
                    else f64_bits_of_ratio m (10 ^ nat (- ex)));
               sg = (if neg then 0x8000000000000000 else 0)
           in (case r of None \<Rightarrow> Some (sg, True, rest) | Some b \<Rightarrow> Some (b OR sg, False, rest)))"

text \<open>The conversion \<open>(float)d\<close> of a finite double.\<close>

definition f32_bits_of_f64 :: "u64 \<Rightarrow> u32" where
  "f32_bits_of_f64 w =
     (case f64_of_bits w of
        Fin a \<Rightarrow>
          (let n = nat \<bar>a\<bar>; e = bit_len n - (24 + 925); q = round_half_even n (925 + e);
               bits = min (e * 2 ^ 23 + q) (0xFF * 2 ^ 23)
           in word_of_nat bits OR (if bit w 63 then 0x80000000 else 0))
      | _ \<Rightarrow> 0)"

section \<open>The key=value file\<close>

definition IRT_CONFIG_ID_MAX :: nat where "IRT_CONFIG_ID_MAX = 64"
definition IRT_CONFIG_LINE_MAX :: nat where "IRT_CONFIG_LINE_MAX = 256"

record irt_config =
  cfg_instance_id :: string
  cfg_max_points :: u32
  cfg_max_subscribers :: u32

definition irt_config_init_defaults :: irt_config where
  "irt_config_init_defaults =
     \<lparr>cfg_instance_id = ''default'', cfg_max_points = 10000, cfg_max_subscribers = 32\<rparr>"

definition strip_newline :: "string \<Rightarrow> string" where
  "strip_newline l = rev (dropWhile (\<lambda>c. c = CHR 0x0A \<or> c = CHR 0x0D) (rev l))"

definition config_line :: "string \<Rightarrow> irt_config \<Rightarrow> irt_config" where
  "config_line l cfg =
     (let l = strip_newline l
      in if l = [] \<or> hd l = CHR ''#'' then cfg
         else if CHR ''='' \<notin> set l then cfg
         else
           let key = takeWhile (\<lambda>c. c \<noteq> CHR ''='') l;
               value = tl (dropWhile (\<lambda>c. c \<noteq> CHR ''='') l)
           in if key = ''instance_id'' then cfg\<lparr>cfg_instance_id := strncpy_to (IRT_CONFIG_ID_MAX - 1) value\<rparr>
              else if key = ''max_points'' then cfg\<lparr>cfg_max_points := ucast (su_value (c_strtoul value 10))\<rparr>
              else if key = ''max_subscribers'' then cfg\<lparr>cfg_max_subscribers := ucast (su_value (c_strtoul value 10))\<rparr>
              else cfg)"

definition irt_config_load_file :: "irt_config \<Rightarrow> string option \<Rightarrow> int \<times> irt_config" where
  "irt_config_load_file cfg f =
     (case f of
        None \<Rightarrow> (-1, cfg)
      | Some txt \<Rightarrow> (0, fold config_line (fgets_lines IRT_CONFIG_LINE_MAX txt) cfg))"

section \<open>The YAML point list\<close>

record irt_point_meta =
  pm_id :: u32
  pm_type :: u8
  pm_unit :: u16
  pm_access :: u8
  pm_name :: string
  pm_eur_min :: u64
  pm_eur_max :: u64
  pm_deadband :: u32
  pm_flags :: u32
  has_meta :: bool
  bad_value :: bool

definition zero_pm :: irt_point_meta where
  "zero_pm = \<lparr>pm_id = 0, pm_type = 0, pm_unit = 0, pm_access = 0, pm_name = [], pm_eur_min = 0,
     pm_eur_max = 0, pm_deadband = 0, pm_flags = 0, has_meta = False, bad_value = False\<rparr>"

definition rtrim :: "string \<Rightarrow> string" where
  "rtrim s = rev (dropWhile isspace (rev s))"

definition yaml_trim :: "string \<Rightarrow> string" where
  "yaml_trim s = rtrim (dropWhile isspace s)"

definition yaml_strip_quotes :: "string \<Rightarrow> string" where
  "yaml_strip_quotes s =
     (if 2 \<le> length s \<and> ((hd s = CHR 0x22 \<and> last s = CHR 0x22) \<or> (hd s = CHR 0x27 \<and> last s = CHR 0x27))
      then butlast (tl s) else s)"

text \<open>The key buffer keeps its leading blanks: the pointer that \<open>yaml_trim\<close> returns is ignored.\<close>

definition yaml_parse_kv :: "string \<Rightarrow> nat \<Rightarrow> nat \<Rightarrow> (string \<times> string) option" where
  "yaml_parse_kv line key_sz val_sz =
     (if CHR '':'' \<notin> set line then None
      else
        let key = take (key_sz - 1) (takeWhile (\<lambda>c. c \<noteq> CHR '':'') line);
            key = (if list_all isspace key then key else rtrim key);
            val = take (val_sz - 1) (tl (dropWhile (\<lambda>c. c \<noteq> CHR '':'') line))
        in Some (key, yaml_strip_quotes (yaml_trim val)))"

definition irt_config_parse_type :: "string \<Rightarrow> u8" where
  "irt_config_parse_type s =
     (if s = ''bool'' then INDURTDB_TYPE_BOOL
      else if s = ''int'' \<or> s = ''int32'' then INDURTDB_TYPE_INT32
      else if s = ''int64'' then INDURTDB_TYPE_INT64
      else if s = ''uint32'' then INDURTDB_TYPE_UINT32
      else if s = ''double'' \<or> s = ''float'' then INDURTDB_TYPE_DOUBLE
      else if s = ''str'' \<or> s = ''string'' then INDURTDB_TYPE_STRING
      else 0xFF)"

text \<open>\<open>Some v\<close> when the C function returns 0; the output is untouched otherwise.\<close>

definition parse_double :: "string \<Rightarrow> u64 option" where
  "parse_double s =
     (case c_strtod s of
        None \<Rightarrow> None
      | Some (v, erange, rest) \<Rightarrow>
          if rest \<noteq> [] then None else if erange then None
          else if \<not> f64_isfinite (f64_of_bits v) then None else Some v)"

definition parse_u32 :: "string \<Rightarrow> nat \<Rightarrow> u32 option" where
  "parse_u32 s base =
     (let r = c_strtoul s base
      in case su_end r of
           None \<Rightarrow> None
         | Some rest \<Rightarrow>
             if rest \<noteq> [] then None else if su_erange r then None
             else if 0xFFFFFFFF < su_value r then None else Some (ucast (su_value r)))"

definition opt_field :: "'v option \<Rightarrow> ('v \<Rightarrow> irt_point_meta \<Rightarrow> irt_point_meta) \<Rightarrow> irt_point_meta \<Rightarrow> irt_point_meta" where
  "opt_field r upd cur =
     (let cur = cur\<lparr>has_meta := True\<rparr>
      in case r of None \<Rightarrow> cur\<lparr>bad_value := True\<rparr> | Some v \<Rightarrow> upd v cur)"

definition yaml_field :: "string \<Rightarrow> string \<Rightarrow> irt_point_meta \<Rightarrow> irt_point_meta" where
  "yaml_field key val cur =
     (if key = ''id'' then cur\<lparr>pm_id := ucast (su_value (c_strtoul val 10))\<rparr>
      else if key = ''name'' then cur\<lparr>pm_name := strncpy_to 63 val\<rparr>
      else if key = ''type'' then cur\<lparr>pm_type := irt_config_parse_type val\<rparr>
      else if key = ''unit'' then cur\<lparr>pm_unit := ucast (su_value (c_strtoul val 10))\<rparr>
      else if key = ''access'' then cur\<lparr>pm_access := ucast (su_value (c_strtoul val 10))\<rparr>
      else if key = ''eur_min'' then opt_field (parse_double val) (\<lambda>v c. c\<lparr>pm_eur_min := v\<rparr>) cur
      else if key = ''eur_max'' then opt_field (parse_double val) (\<lambda>v c. c\<lparr>pm_eur_max := v\<rparr>) cur
      else if key = ''deadband'' then
        (let r = parse_double val
         in (opt_field r (\<lambda>v c. c) cur)\<lparr>pm_deadband := f32_bits_of_f64 (case r of None \<Rightarrow> 0 | Some v \<Rightarrow> v)\<rparr>)
      else if key = ''flags'' then
        (let r = parse_u32 val 0
         in (opt_field r (\<lambda>v c. c) cur)\<lparr>pm_flags := (case r of None \<Rightarrow> 0 | Some v \<Rightarrow> v)\<rparr>)
      else cur)"

record yaml_state =
  in_points :: bool
  cur_point :: irt_point_meta
  done_points :: "irt_point_meta list"

definition yaml_push :: "yaml_state \<Rightarrow> yaml_state" where
  "yaml_push st =
     (if pm_id (cur_point st) \<noteq> 0 \<or> pm_name (cur_point st) \<noteq> []
      then st\<lparr>done_points := done_points st @ [cur_point st]\<rparr> else st)"

definition yaml_line :: "string \<Rightarrow> yaml_state \<Rightarrow> yaml_state" where
  "yaml_line line st =
     (let t = yaml_trim line
      in if t = [] \<or> hd t = CHR ''#'' then st
         else if strncmp_eq 7 t ''points:'' then st\<lparr>in_points := True\<rparr>
         else if \<not> in_points st then st
         else
           let item = (2 \<le> length t \<and> t ! 0 = CHR ''-'' \<and> t ! 1 = CHR '' '');
               st = (if item then (yaml_push st)\<lparr>cur_point := zero_pm\<rparr> else st);
               t = (if item then dropWhile (\<lambda>c. c = CHR '' '') (drop 2 t) else t)
           in case yaml_parse_kv t 64 128 of
                None \<Rightarrow> st
              | Some (key, val) \<Rightarrow> st\<lparr>cur_point := yaml_field key val (cur_point st)\<rparr>)"

definition irt_point_config_parse_yaml :: "string option \<Rightarrow> int \<times> irt_point_meta list" where
  "irt_point_config_parse_yaml f =
     (case f of
        None \<Rightarrow> (-1, [])
      | Some txt \<Rightarrow>
          let st = fold yaml_line (fgets_lines 512 txt)
                     \<lparr>in_points = False, cur_point = zero_pm, done_points = []\<rparr>;
              ps = done_points (yaml_push st)
          in (int (length ps), ps))"

end
