(* ===== verification/Api.thy ===== *)
theory Api
  imports Config Subscription
begin

text \<open>
  The handle interface of \<^verbatim>\<open>src/api/indurtdb.c\<close>: one function per entry point, over a record that
  holds the segment, the callback table, the change log and the text of the last error. A null or
  closed handle is one with \<open>initialized = False\<close>. The number \<open>d\<close> of an operation is how many
  attempts of its bounded index or metadata read a writer disturbs; \<open>ob\<close> is what an unbounded read
  loop observes; \<open>now\<close> is the clock.
\<close>

section \<open>The handle\<close>

record indurtdb =
  h_shm :: shm
  h_sub :: irt_sub
  initialized :: bool
  h_owner_pid :: u32
  delta_fd :: int
  default_partition :: u32
  delta_file :: "u8 list"
  delta_env :: "(int \<times> bool) list"
  last_error :: string

type_synonym reaction = "sub_call \<Rightarrow> irt_sub \<Rightarrow> irt_sub"
type_synonym obs = "(u64 \<times> point \<times> u64) list"

definition set_error :: "indurtdb \<Rightarrow> string \<Rightarrow> indurtdb" where
  "set_error h msg = h\<lparr>last_error := strncpy_to 255 msg\<rparr>"

definition h_default_partition :: "indurtdb \<Rightarrow> u32" where
  "h_default_partition h = default_partition h"

text \<open>\<open>ENSURE_H\<close>, for the shapes of result of the functions that use it.\<close>

definition ensure_h :: "indurtdb \<Rightarrow> int \<times> indurtdb \<Rightarrow> int \<times> indurtdb" where
  "ensure_h h r = (if \<not> initialized h then (INDURTDB_ERR_NOT_INIT, set_error h ''not initialized'') else r)"

definition ensure_h3 :: "indurtdb \<Rightarrow> int \<times> sub_call list \<times> indurtdb \<Rightarrow> int \<times> sub_call list \<times> indurtdb" where
  "ensure_h3 h r =
     (if \<not> initialized h then (INDURTDB_ERR_NOT_INIT, [], set_error h ''not initialized'') else r)"

section \<open>Writing\<close>

definition h_translate_write_rc :: "int \<Rightarrow> int" where
  "h_translate_write_rc rc =
     (if rc = 0 then INDURTDB_OK
      else if rc = -1 then INDURTDB_ERR_ARG
      else if rc = -2 then INDURTDB_ERR_BUSY
      else if rc = -3 then INDURTDB_ERR_READ_ONLY
      else rc)"

text \<open>
  After a successful write the point is read back for the callbacks. The writer has just released
  the lock, so the read loop ends; a loop that does not end would notify nobody.
\<close>

definition h_write_and_notify ::
  "reaction \<Rightarrow> indurtdb \<Rightarrow> int \<times> shm \<Rightarrow> u32 \<Rightarrow> int \<times> sub_call list \<times> indurtdb" where
  "h_write_and_notify react h w pid =
     (let (rc, s) = w;
          h = h\<lparr>h_shm := s\<rparr>
      in if rc = 0 then
           (case irt_pm_read s (quiet s pid) pid zero_point of
              Some (r, pt) \<Rightarrow>
                if r = 0 then
                  let (cs, sub) = irt_sub_notify react (h_sub h) pid pt
                  in (h_translate_write_rc rc, cs, h\<lparr>h_sub := sub\<rparr>)
                else (h_translate_write_rc rc, [], h)
            | None \<Rightarrow> (h_translate_write_rc rc, [], h))
         else (h_translate_write_rc rc, [], h))"

definition indurtdb_h_write_bool :: "reaction \<Rightarrow> indurtdb \<Rightarrow> u64 \<Rightarrow> u32 \<Rightarrow> bool \<Rightarrow> int \<times> sub_call list \<times> indurtdb" where
  "indurtdb_h_write_bool react h now pid v =
     ensure_h3 h (h_write_and_notify react h (irt_pm_write_bool (h_shm h) now pid v) pid)"

definition indurtdb_h_write_int32 :: "reaction \<Rightarrow> indurtdb \<Rightarrow> u64 \<Rightarrow> u32 \<Rightarrow> u32 \<Rightarrow> int \<times> sub_call list \<times> indurtdb" where
  "indurtdb_h_write_int32 react h now pid v =
     ensure_h3 h (h_write_and_notify react h (irt_pm_write_int32 (h_shm h) now pid v) pid)"

definition indurtdb_h_write_double :: "reaction \<Rightarrow> indurtdb \<Rightarrow> u64 \<Rightarrow> u32 \<Rightarrow> u64 \<Rightarrow> int \<times> sub_call list \<times> indurtdb" where
  "indurtdb_h_write_double react h now pid v =
     ensure_h3 h (h_write_and_notify react h (irt_pm_write_double (h_shm h) now pid v) pid)"

definition indurtdb_h_write_string :: "reaction \<Rightarrow> indurtdb \<Rightarrow> u64 \<Rightarrow> u32 \<Rightarrow> string \<Rightarrow> int \<times> sub_call list \<times> indurtdb" where
  "indurtdb_h_write_string react h now pid v =
     ensure_h3 h (h_write_and_notify react h (irt_pm_write_string (h_shm h) now pid v) pid)"

definition indurtdb_h_write_int64 :: "reaction \<Rightarrow> indurtdb \<Rightarrow> u64 \<Rightarrow> u32 \<Rightarrow> u64 \<Rightarrow> int \<times> sub_call list \<times> indurtdb" where
  "indurtdb_h_write_int64 react h now pid v =
     ensure_h3 h (h_write_and_notify react h (irt_pm_write_int64 (h_shm h) now pid v) pid)"

definition indurtdb_h_write_uint32 :: "reaction \<Rightarrow> indurtdb \<Rightarrow> u64 \<Rightarrow> u32 \<Rightarrow> u32 \<Rightarrow> int \<times> sub_call list \<times> indurtdb" where
  "indurtdb_h_write_uint32 react h now pid v =
     ensure_h3 h (h_write_and_notify react h (irt_pm_write_uint32 (h_shm h) now pid v) pid)"

definition indurtdb_h_write_float :: "reaction \<Rightarrow> indurtdb \<Rightarrow> u64 \<Rightarrow> u32 \<Rightarrow> u32 \<Rightarrow> int \<times> sub_call list \<times> indurtdb" where
  "indurtdb_h_write_float react h now pid v =
     ensure_h3 h (h_write_and_notify react h (irt_pm_write_float (h_shm h) now pid v) pid)"

definition indurtdb_h_write_bool_ts :: "reaction \<Rightarrow> indurtdb \<Rightarrow> u64 \<Rightarrow> u32 \<Rightarrow> bool \<Rightarrow> u64 \<Rightarrow> int \<times> sub_call list \<times> indurtdb" where
  "indurtdb_h_write_bool_ts react h now pid v ts =
     ensure_h3 h (h_write_and_notify react h (irt_pm_write_bool_ts (h_shm h) now pid v ts) pid)"

definition indurtdb_h_write_int32_ts :: "reaction \<Rightarrow> indurtdb \<Rightarrow> u64 \<Rightarrow> u32 \<Rightarrow> u32 \<Rightarrow> u64 \<Rightarrow> int \<times> sub_call list \<times> indurtdb" where
  "indurtdb_h_write_int32_ts react h now pid v ts =
     ensure_h3 h (h_write_and_notify react h (irt_pm_write_int32_ts (h_shm h) now pid v ts) pid)"

definition indurtdb_h_write_double_ts :: "reaction \<Rightarrow> indurtdb \<Rightarrow> u64 \<Rightarrow> u32 \<Rightarrow> u64 \<Rightarrow> u64 \<Rightarrow> int \<times> sub_call list \<times> indurtdb" where
  "indurtdb_h_write_double_ts react h now pid v ts =
     ensure_h3 h (h_write_and_notify react h (irt_pm_write_double_ts (h_shm h) now pid v ts) pid)"

definition indurtdb_h_write_string_ts :: "reaction \<Rightarrow> indurtdb \<Rightarrow> u64 \<Rightarrow> u32 \<Rightarrow> string \<Rightarrow> u64 \<Rightarrow> int \<times> sub_call list \<times> indurtdb" where
  "indurtdb_h_write_string_ts react h now pid v ts =
     ensure_h3 h (h_write_and_notify react h (irt_pm_write_string_ts (h_shm h) now pid v ts) pid)"

definition indurtdb_h_write_int64_ts :: "reaction \<Rightarrow> indurtdb \<Rightarrow> u64 \<Rightarrow> u32 \<Rightarrow> u64 \<Rightarrow> u64 \<Rightarrow> int \<times> sub_call list \<times> indurtdb" where
  "indurtdb_h_write_int64_ts react h now pid v ts =
     ensure_h3 h (h_write_and_notify react h (irt_pm_write_int64_ts (h_shm h) now pid v ts) pid)"

definition indurtdb_h_write_uint32_ts :: "reaction \<Rightarrow> indurtdb \<Rightarrow> u64 \<Rightarrow> u32 \<Rightarrow> u32 \<Rightarrow> u64 \<Rightarrow> int \<times> sub_call list \<times> indurtdb" where
  "indurtdb_h_write_uint32_ts react h now pid v ts =
     ensure_h3 h (h_write_and_notify react h (irt_pm_write_uint32_ts (h_shm h) now pid v ts) pid)"

definition indurtdb_h_write_float_ts :: "reaction \<Rightarrow> indurtdb \<Rightarrow> u64 \<Rightarrow> u32 \<Rightarrow> u32 \<Rightarrow> u64 \<Rightarrow> int \<times> sub_call list \<times> indurtdb" where
  "indurtdb_h_write_float_ts react h now pid v ts =
     ensure_h3 h (h_write_and_notify react h (irt_pm_write_float_ts (h_shm h) now pid v ts) pid)"
definition indurtdb_h_write_quality_ts ::
  "reaction \<Rightarrow> indurtdb \<Rightarrow> u64 \<Rightarrow> u32 \<Rightarrow> u8 \<Rightarrow> u8 list \<Rightarrow> u64 \<Rightarrow> u8 \<Rightarrow> int \<times> sub_call list \<times> indurtdb" where
  "indurtdb_h_write_quality_ts react h now pid t v ts q =
     ensure_h3 h (h_write_and_notify react h (irt_pm_write_quality_ts (h_shm h) now pid t v ts q) pid)"

text \<open>The range writes stop at the first failure and return how many points they wrote.\<close>

fun write_range_bool :: "reaction \<Rightarrow> indurtdb \<Rightarrow> u64 \<Rightarrow> u32 \<Rightarrow> nat \<Rightarrow> bool list \<Rightarrow> int \<times> sub_call list \<times> indurtdb" where
  "write_range_bool react h now start i [] = (int i, [], h)"
| "write_range_bool react h now start i (v # vs) =
     (let pid = start + word_of_nat i;
          (rc, cs, h) = h_write_and_notify react h (irt_pm_write_bool (h_shm h) now pid v) pid
      in if rc \<noteq> 0 then (int i, cs, h)
         else let (n, cs', h) = write_range_bool react h now start (i + 1) vs in (n, cs @ cs', h))"

definition indurtdb_h_write_range_bool :: "reaction \<Rightarrow> indurtdb \<Rightarrow> u64 \<Rightarrow> u32 \<Rightarrow> bool list \<Rightarrow> int \<times> sub_call list \<times> indurtdb" where
  "indurtdb_h_write_range_bool react h now start vs = ensure_h3 h (write_range_bool react h now start 0 vs)"

fun write_range_int32 :: "reaction \<Rightarrow> indurtdb \<Rightarrow> u64 \<Rightarrow> u32 \<Rightarrow> nat \<Rightarrow> u32 list \<Rightarrow> int \<times> sub_call list \<times> indurtdb" where
  "write_range_int32 react h now start i [] = (int i, [], h)"
| "write_range_int32 react h now start i (v # vs) =
     (let pid = start + word_of_nat i;
          (rc, cs, h) = h_write_and_notify react h (irt_pm_write_int32 (h_shm h) now pid v) pid
      in if rc \<noteq> 0 then (int i, cs, h)
         else let (n, cs', h) = write_range_int32 react h now start (i + 1) vs in (n, cs @ cs', h))"

definition indurtdb_h_write_range_int32 :: "reaction \<Rightarrow> indurtdb \<Rightarrow> u64 \<Rightarrow> u32 \<Rightarrow> u32 list \<Rightarrow> int \<times> sub_call list \<times> indurtdb" where
  "indurtdb_h_write_range_int32 react h now start vs = ensure_h3 h (write_range_int32 react h now start 0 vs)"

fun write_range_double :: "reaction \<Rightarrow> indurtdb \<Rightarrow> u64 \<Rightarrow> u32 \<Rightarrow> nat \<Rightarrow> u64 list \<Rightarrow> int \<times> sub_call list \<times> indurtdb" where
  "write_range_double react h now start i [] = (int i, [], h)"
| "write_range_double react h now start i (v # vs) =
     (let pid = start + word_of_nat i;
          (rc, cs, h) = h_write_and_notify react h (irt_pm_write_double (h_shm h) now pid v) pid
      in if rc \<noteq> 0 then (int i, cs, h)
         else let (n, cs', h) = write_range_double react h now start (i + 1) vs in (n, cs @ cs', h))"

definition indurtdb_h_write_range_double :: "reaction \<Rightarrow> indurtdb \<Rightarrow> u64 \<Rightarrow> u32 \<Rightarrow> u64 list \<Rightarrow> int \<times> sub_call list \<times> indurtdb" where
  "indurtdb_h_write_range_double react h now start vs = ensure_h3 h (write_range_double react h now start 0 vs)"

section \<open>Reading\<close>

text \<open>
  The pattern of the typed reads; the outer option is \<open>None\<close> while the read loop still runs, the
  inner one is the output parameter.
\<close>

definition h_read :: "(point \<Rightarrow> 'v) \<Rightarrow> indurtdb \<Rightarrow> obs \<Rightarrow> u32 \<Rightarrow> ((int \<times> 'v option) \<times> indurtdb) option" where
  "h_read get h ob pid =
     (if \<not> initialized h then Some ((INDURTDB_ERR_NOT_INIT, None), set_error h ''not initialized'')
      else case irt_pm_read (h_shm h) ob pid zero_point of
        None \<Rightarrow> None
      | Some (rc, pt) \<Rightarrow>
          if rc \<noteq> 0 then Some ((INDURTDB_ERR_ARG, None), set_error h ''read failed'')
          else Some ((0, Some (get pt)), h))"

definition indurtdb_h_read_bool :: "indurtdb \<Rightarrow> obs \<Rightarrow> u32 \<Rightarrow> ((int \<times> bool option) \<times> indurtdb) option" where
  "indurtdb_h_read_bool h ob pid = h_read (\<lambda>p. pt_value p ! 0 \<noteq> 0) h ob pid"

definition indurtdb_h_read_int32 :: "indurtdb \<Rightarrow> obs \<Rightarrow> u32 \<Rightarrow> ((int \<times> u32 option) \<times> indurtdb) option" where
  "indurtdb_h_read_int32 h ob pid = h_read (\<lambda>p. of_le (take 4 (pt_value p))) h ob pid"

definition indurtdb_h_read_double :: "indurtdb \<Rightarrow> obs \<Rightarrow> u32 \<Rightarrow> ((int \<times> u64 option) \<times> indurtdb) option" where
  "indurtdb_h_read_double h ob pid = h_read (\<lambda>p. of_le (take 8 (pt_value p))) h ob pid"

definition indurtdb_h_read_int64 :: "indurtdb \<Rightarrow> obs \<Rightarrow> u32 \<Rightarrow> ((int \<times> u64 option) \<times> indurtdb) option" where
  "indurtdb_h_read_int64 h ob pid = h_read (\<lambda>p. of_le (take 8 (pt_value p))) h ob pid"

definition indurtdb_h_read_uint32 :: "indurtdb \<Rightarrow> obs \<Rightarrow> u32 \<Rightarrow> ((int \<times> u32 option) \<times> indurtdb) option" where
  "indurtdb_h_read_uint32 h ob pid = h_read (\<lambda>p. of_le (take 4 (pt_value p))) h ob pid"

definition indurtdb_h_read_float :: "indurtdb \<Rightarrow> obs \<Rightarrow> u32 \<Rightarrow> ((int \<times> u32 option) \<times> indurtdb) option" where
  "indurtdb_h_read_float h ob pid = h_read (\<lambda>p. of_le (take 4 (pt_value p))) h ob pid"

text \<open>\<open>snprintf(buffer, buffer_size, "%s", str)\<close>: the string cut to the buffer.\<close>

definition indurtdb_h_read_string :: "indurtdb \<Rightarrow> obs \<Rightarrow> u32 \<Rightarrow> nat \<Rightarrow> ((int \<times> string option) \<times> indurtdb) option" where
  "indurtdb_h_read_string h ob pid buffer_size =
     (if \<not> initialized h then Some ((INDURTDB_ERR_NOT_INIT, None), set_error h ''not initialized'')
      else if buffer_size = 0 then Some ((INDURTDB_ERR_ARG, None), set_error h ''null or zero-size buffer'')
      else h_read (\<lambda>p. strncpy_to (buffer_size - 1) (c_string (pt_value p))) h ob pid)"

definition indurtdb_h_read_point :: "indurtdb \<Rightarrow> obs \<Rightarrow> u32 \<Rightarrow> point \<Rightarrow> ((int \<times> point) \<times> indurtdb) option" where
  "indurtdb_h_read_point h ob pid out =
     (if \<not> initialized h then Some ((INDURTDB_ERR_NOT_INIT, out), set_error h ''not initialized'')
      else map_option (\<lambda>r. (r, h)) (irt_pm_read (h_shm h) ob pid out))"

definition indurtdb_h_peek :: "indurtdb \<Rightarrow> obs \<Rightarrow> u32 \<Rightarrow> point \<Rightarrow> (point option \<times> indurtdb) option" where
  "indurtdb_h_peek h ob pid buf =
     (if \<not> initialized h then Some (None, set_error h ''not initialized'')
      else map_option (\<lambda>r. (r, h)) (irt_pm_peek (h_shm h) ob pid buf))"

text \<open>The range read when nobody writes; the points read so far are in the buffer on failure too.\<close>

fun read_range :: "indurtdb \<Rightarrow> u32 \<Rightarrow> nat list \<Rightarrow> point list \<Rightarrow> ((bool \<times> point list) \<times> indurtdb) option" where
  "read_range h start [] out = Some ((True, out), h)"
| "read_range h start (i # is) out =
     (let pid = start + word_of_nat i
      in case irt_pm_read (h_shm h) (quiet (h_shm h) pid) pid zero_point of
           None \<Rightarrow> None
         | Some (rc, pt) \<Rightarrow>
             if rc \<noteq> 0 then Some ((False, out), set_error h ''read failed'')
             else read_range h start is (out @ [pt]))"

definition indurtdb_h_read_range :: "indurtdb \<Rightarrow> u32 \<Rightarrow> u16 \<Rightarrow> u16 \<Rightarrow> ((int \<times> point list) \<times> indurtdb) option" where
  "indurtdb_h_read_range h start cnt out_cap =
     (if \<not> initialized h then Some ((INDURTDB_ERR_NOT_INIT, []), set_error h ''not initialized'')
      else if cnt = 0 then Some ((INDURTDB_ERR_ARG, []), set_error h ''invalid argument'')
      else
        let n = (if cnt < out_cap then cnt else out_cap)
        in case read_range h start [0..<unat n] [] of
             None \<Rightarrow> None
           | Some ((ok, out), h) \<Rightarrow> Some ((if ok then int (unat n) else INDURTDB_ERR_ARG, out), h))"

section \<open>Subscriptions, quality, heartbeat\<close>

definition indurtdb_h_subscribe :: "indurtdb \<Rightarrow> u32 \<Rightarrow> nat \<Rightarrow> nat \<Rightarrow> int \<times> indurtdb" where
  "indurtdb_h_subscribe h pid cb ud =
     ensure_h h (let (rc, sub) = irt_sub_subscribe (h_sub h) pid cb ud in (rc, h\<lparr>h_sub := sub\<rparr>))"

definition indurtdb_h_unsubscribe :: "indurtdb \<Rightarrow> u32 \<Rightarrow> int \<times> indurtdb" where
  "indurtdb_h_unsubscribe h pid =
     ensure_h h (let (rc, sub) = irt_sub_unsubscribe (h_sub h) pid in (rc, h\<lparr>h_sub := sub\<rparr>))"

definition indurtdb_h_set_quality :: "indurtdb \<Rightarrow> u32 \<Rightarrow> u8 \<Rightarrow> int \<times> indurtdb" where
  "indurtdb_h_set_quality h pid q =
     ensure_h h (let (rc, s) = irt_pm_set_quality (h_shm h) pid q in (rc, h\<lparr>h_shm := s\<rparr>))"

definition indurtdb_h_update_heartbeat :: "indurtdb \<Rightarrow> u32 \<Rightarrow> u64 \<Rightarrow> indurtdb" where
  "indurtdb_h_update_heartbeat h mypid now =
     (if \<not> initialized h then h else h\<lparr>h_shm := irt_sub_update_heartbeat (h_shm h) mypid now\<rparr>)"

section \<open>Names and metadata\<close>

definition indurtdb_h_find_by_name_in :: "nat \<Rightarrow> indurtdb \<Rightarrow> u32 \<Rightarrow> string \<Rightarrow> (int \<times> u32 option) \<times> indurtdb" where
  "indurtdb_h_find_by_name_in d h part name =
     (if \<not> initialized h then ((INDURTDB_ERR_NOT_INIT, None), set_error h ''not initialized'')
      else if name = [] then ((INDURTDB_ERR_ARG, None), set_error h ''invalid argument'')
      else
        let (rc, out) = irt_index_lookup (h_shm h) d part name
        in ((rc, out),
            if rc = INDURTDB_ERR_NOT_FOUND then set_error h ''point name not found''
            else if rc = INDURTDB_ERR_BUSY then set_error h ''index busy, retry''
            else if rc \<noteq> INDURTDB_OK then set_error h ''index lookup failed''
            else h))"

definition indurtdb_h_find_by_name :: "nat \<Rightarrow> indurtdb \<Rightarrow> string \<Rightarrow> (int \<times> u32 option) \<times> indurtdb" where
  "indurtdb_h_find_by_name d h name = indurtdb_h_find_by_name_in d h (h_default_partition h) name"

definition indurtdb_h_get_meta :: "nat \<Rightarrow> indurtdb \<Rightarrow> u32 \<Rightarrow> (int \<times> meta option) \<times> indurtdb" where
  "indurtdb_h_get_meta d h pid =
     (if \<not> initialized h then ((INDURTDB_ERR_NOT_INIT, None), set_error h ''not initialized'')
      else
        let (rc, m) = irt_meta_get (h_shm h) d pid
        in ((rc, m),
            if rc = INDURTDB_ERR_ARG then set_error h ''id out of range''
            else if rc = INDURTDB_ERR_BUSY then set_error h ''meta busy, retry''
            else if rc \<noteq> INDURTDB_OK then set_error h ''meta get failed''
            else h))"

definition indurtdb_h_set_meta :: "indurtdb \<Rightarrow> u32 \<Rightarrow> meta \<Rightarrow> int \<times> indurtdb" where
  "indurtdb_h_set_meta h pid m =
     ensure_h h
       (let (vrc, fld) = indurtdb_validate_point_meta m
        in if vrc \<noteq> CFG_OK
           then (INDURTDB_ERR_ARG, set_error h (strncpy_to 191 (''invalid meta: '' @ indurtdb_cfg_error_reason vrc
                  @ '' (field='' @ dec_digits (fld_num fld) @ '')'')))
           else
             let (rc, s) = irt_meta_set (h_shm h) pid m;
                 h = h\<lparr>h_shm := s\<rparr>
             in (rc,
                 if rc = INDURTDB_ERR_ARG then set_error h ''id out of range''
                 else if rc = INDURTDB_ERR_BUSY then set_error h ''meta busy, retry''
                 else if rc \<noteq> INDURTDB_OK then set_error h ''meta set failed''
                 else h))"

section \<open>The change log\<close>


definition delta_log :: "indurtdb \<Rightarrow> u16 \<Rightarrow> u32 \<Rightarrow> u8 \<Rightarrow> u8 \<Rightarrow> string \<Rightarrow> indurtdb" where
  "delta_log h op pid ty acc name =
     (if delta_fd h < 0 then h
      else
        let r = \<lparr>d_magic = IRT_DELTA_MAGIC, d_version = IRT_DELTA_VERSION, d_op = op, d_point_id = pid,
                 d_type = ty, d_access = acc, d_name = strncpy_to 63 name\<rparr>;
            (n, fs) = (case delta_env h of [] \<Rightarrow> (80, True) | e # _ \<Rightarrow> e);
            (rc, f) = irt_delta_append (delta_fd h) (delta_file h) r n fs;
            h = h\<lparr>delta_file := f, delta_env := tl (delta_env h)\<rparr>
        in if rc \<noteq> 0 then set_error h ''delta append failed (persistence lost)'' else h)"

text \<open>
  \<open>opened\<close> is what \<open>open\<close> yields: a descriptor (negative on failure) and the file's contents. The
  path is not null; a null path is refused before the old log is closed.
\<close>

definition indurtdb_h_enable_delta :: "indurtdb \<Rightarrow> string \<Rightarrow> int \<times> u8 list \<Rightarrow> int \<times> indurtdb" where
  "indurtdb_h_enable_delta h path opened =
     ensure_h h
       (if path = [] then (INDURTDB_ERR_ARG, set_error (h\<lparr>delta_fd := -1\<rparr>) ''cannot open delta file'')
        else if fst opened < 0
        then (INDURTDB_ERR_ARG, set_error (h\<lparr>delta_fd := -1\<rparr>) ''cannot open delta file'')
        else (INDURTDB_OK, h\<lparr>delta_fd := fst opened, delta_file := snd opened\<rparr>))"

section \<open>Creating, deleting and renaming points\<close>

definition h_point_register :: "shm \<Rightarrow> u32 \<Rightarrow> u32 \<Rightarrow> string \<Rightarrow> int \<Rightarrow> int \<Rightarrow> shm" where
  "h_point_register s part pid name ty acc =
     s\<lparr>points := (points s)[unat pid := (points s ! unat pid)
        \<lparr>pt_type := word_of_int ty, access := word_of_int acc, pt_unit := 0, partition := part,
         quality := QUALITY_GOOD, pt_value := replicate 32 0, pt_name := strncpy_to 63 name\<rparr>]\<rparr>"

definition indurtdb_h_set_partition :: "indurtdb \<Rightarrow> u32 \<Rightarrow> int \<times> indurtdb" where
  "indurtdb_h_set_partition h part = ensure_h h (INDURTDB_OK, h\<lparr>default_partition := part\<rparr>)"

text \<open>The roll-back of a registration whose indexing failed: best effort under the lock.\<close>

definition create_rollback :: "shm \<Rightarrow> u32 \<Rightarrow> shm" where
  "create_rollback s pid =
     (let (s2, s) = lock_retry IRT_SEQLOCK_MAX_RETRY s 0
      in if s2 AND 1 \<noteq> 0 then s
         else irt_seqlock_write_end
                (s\<lparr>points := (points s)[unat pid := (points s ! unat pid)\<lparr>pt_name := []\<rparr>]\<rparr>) s2)"

text \<open>The part of the creation after the checks: register under the lock, then index.\<close>

definition create_body :: "indurtdb \<Rightarrow> u32 \<Rightarrow> u32 \<Rightarrow> string \<Rightarrow> int \<Rightarrow> int \<Rightarrow> int \<times> indurtdb" where
  "create_body h part pid name ty acc =
     (let (seq0, s) = lock_retry IRT_SEQLOCK_MAX_RETRY (h_shm h) 0
      in if seq0 AND 1 \<noteq> 0 then (INDURTDB_ERR_BUSY, set_error (h\<lparr>h_shm := s\<rparr>) ''busy, retry'')
         else if pt_name (points s ! unat pid) \<noteq> []
         then (INDURTDB_ERR_FULL,
               set_error (h\<lparr>h_shm := irt_seqlock_write_end s seq0\<rparr>) ''point id already registered'')
         else
           let s = h_point_register s part pid name ty acc;
               s = irt_seqlock_write_end s seq0;
               (irc, s) = irt_index_insert s part name pid
           in if irc = 0
              then (irc, delta_log (h\<lparr>h_shm := s\<rparr>) IRT_DELTA_OP_CREATE pid (word_of_int ty)
                           (word_of_int acc) name)
              else (irc, set_error (h\<lparr>h_shm := create_rollback s pid\<rparr>)
                           (if irc = INDURTDB_ERR_FULL then ''index full'' else ''index busy'')))"

definition indurtdb_h_create_point_in ::
  "nat \<Rightarrow> indurtdb \<Rightarrow> u32 \<Rightarrow> u32 \<Rightarrow> string \<Rightarrow> int \<Rightarrow> int \<Rightarrow> int \<times> indurtdb" where
  "indurtdb_h_create_point_in d h part pid name ty acc =
     ensure_h h
       (if name = [] then (INDURTDB_ERR_ARG, set_error h ''empty name'')
        else if ty < 0 \<or> uint INDURTDB_TYPE_FLOAT < ty then (INDURTDB_ERR_ARG, set_error h ''bad type'')
        else if acc \<noteq> uint INDURTDB_ACCESS_READ_ONLY \<and> acc \<noteq> uint INDURTDB_ACCESS_READ_WRITE
        then (INDURTDB_ERR_ARG, set_error h ''bad access (1=read-only,3=read-write)'')
        else if s_max_points (h_shm h) \<le> pid then (INDURTDB_ERR_ARG, set_error h ''id out of range'')
        else
          let (lrc, exist) = irt_index_lookup (h_shm h) d part name
          in if lrc = 0 \<and> exist \<noteq> Some pid then (INDURTDB_ERR_ARG, set_error h ''name already exists'')
             else create_body h part pid name ty acc)"

definition indurtdb_h_create_point :: "nat \<Rightarrow> indurtdb \<Rightarrow> u32 \<Rightarrow> string \<Rightarrow> int \<Rightarrow> int \<Rightarrow> int \<times> indurtdb" where
  "indurtdb_h_create_point d h pid name ty acc =
     indurtdb_h_create_point_in d h (h_default_partition h) pid name ty acc"

definition indurtdb_h_delete_point_in :: "indurtdb \<Rightarrow> u32 \<Rightarrow> u32 \<Rightarrow> int \<times> indurtdb" where
  "indurtdb_h_delete_point_in h part pid =
     ensure_h h
       (if s_max_points (h_shm h) \<le> pid then (INDURTDB_ERR_ARG, set_error h ''id out of range'')
        else
          let (seq0, s) = lock_retry IRT_SEQLOCK_MAX_RETRY (h_shm h) 0
          in if seq0 AND 1 \<noteq> 0 then (INDURTDB_ERR_BUSY, set_error (h\<lparr>h_shm := s\<rparr>) ''busy, retry'')
             else
               let p = points s ! unat pid
               in if pt_name p = []
                  then (INDURTDB_ERR_NOT_FOUND,
                        set_error (h\<lparr>h_shm := irt_seqlock_write_end s seq0\<rparr>) ''point not found'')
                  else if partition p \<noteq> part
                  then (INDURTDB_ERR_NOT_FOUND,
                        set_error (h\<lparr>h_shm := irt_seqlock_write_end s seq0\<rparr>) ''point not found in partition'')
                  else
                    let (_, s) = irt_index_remove_locked s (partition p) (pt_name p);
                        s = s\<lparr>points := (points s)[unat pid := (points s ! unat pid)\<lparr>pt_name := []\<rparr>]\<rparr>;
                        s = irt_seqlock_write_end s seq0
                    in (INDURTDB_OK, delta_log (h\<lparr>h_shm := s\<rparr>) IRT_DELTA_OP_DELETE pid 0 0 []))"

definition indurtdb_h_delete_point :: "indurtdb \<Rightarrow> u32 \<Rightarrow> int \<times> indurtdb" where
  "indurtdb_h_delete_point h pid = indurtdb_h_delete_point_in h (h_default_partition h) pid"

text \<open>The part of the renaming after the checks, all of it under the lock.\<close>

definition rename_body :: "indurtdb \<Rightarrow> u32 \<Rightarrow> u32 \<Rightarrow> string \<Rightarrow> int \<times> indurtdb" where
  "rename_body h part pid name =
     (let (seq0, s) = lock_retry IRT_SEQLOCK_MAX_RETRY (h_shm h) 0
      in if seq0 AND 1 \<noteq> 0 then (INDURTDB_ERR_BUSY, set_error (h\<lparr>h_shm := s\<rparr>) ''busy, retry'')
         else
           let p = points s ! unat pid
           in if pt_name p = [] \<or> partition p \<noteq> part
              then (INDURTDB_ERR_NOT_FOUND,
                    set_error (h\<lparr>h_shm := irt_seqlock_write_end s seq0\<rparr>) ''point not found'')
              else if strncmp_eq 64 (pt_name p) name
              then (INDURTDB_OK, h\<lparr>h_shm := irt_seqlock_write_end s seq0\<rparr>)
              else
                let (irc, s) = irt_index_insert_locked s part name pid
                in if irc \<noteq> 0
                   then (INDURTDB_ERR_FULL,
                         set_error (h\<lparr>h_shm := irt_seqlock_write_end s seq0\<rparr>) ''index full'')
                   else
                     let (_, s) = irt_index_remove_locked s part (pt_name (points s ! unat pid));
                         s = s\<lparr>points := (points s)[unat pid :=
                               (points s ! unat pid)\<lparr>pt_name := strncpy_to 63 name\<rparr>]\<rparr>;
                         s = irt_seqlock_write_end s seq0;
                         p = points s ! unat pid
                     in (INDURTDB_OK, delta_log (h\<lparr>h_shm := s\<rparr>) IRT_DELTA_OP_RENAME pid
                                       (pt_type p) (access p) name))"

definition indurtdb_h_rename_point_in :: "nat \<Rightarrow> indurtdb \<Rightarrow> u32 \<Rightarrow> u32 \<Rightarrow> string \<Rightarrow> int \<times> indurtdb" where
  "indurtdb_h_rename_point_in d h part pid name =
     ensure_h h
       (if name = [] then (INDURTDB_ERR_ARG, set_error h ''empty name'')
        else if s_max_points (h_shm h) \<le> pid then (INDURTDB_ERR_ARG, set_error h ''id out of range'')
        else
          let (lrc, exist) = irt_index_lookup (h_shm h) d part name
          in if lrc = 0 \<and> exist \<noteq> Some pid then (INDURTDB_ERR_ARG, set_error h ''name already exists'')
             else rename_body h part pid name)"

definition indurtdb_h_rename_point :: "nat \<Rightarrow> indurtdb \<Rightarrow> u32 \<Rightarrow> string \<Rightarrow> int \<times> indurtdb" where
  "indurtdb_h_rename_point d h pid name = indurtdb_h_rename_point_in d h (h_default_partition h) pid name"

section \<open>Replaying the change log\<close>

definition delta_apply :: "irt_delta_rec \<Rightarrow> indurtdb \<Rightarrow> int \<times> indurtdb" where
  "delta_apply r h =
     (if d_op r = IRT_DELTA_OP_CREATE then
        (0, snd (indurtdb_h_create_point_in 0 h 0 (d_point_id r) (d_name r) (uint (d_type r)) (uint (d_access r))))
      else if d_op r = IRT_DELTA_OP_DELETE then (0, snd (indurtdb_h_delete_point_in h 0 (d_point_id r)))
      else if d_op r = IRT_DELTA_OP_RENAME then
        (0, snd (indurtdb_h_rename_point_in 0 h 0 (d_point_id r) (d_name r)))
      else (-1, h))"

definition indurtdb_h_delta_replay :: "indurtdb \<Rightarrow> string \<Rightarrow> u8 list option \<Rightarrow> nat option \<Rightarrow> int \<times> indurtdb" where
  "indurtdb_h_delta_replay h path f io =
     ensure_h h
       (let saved_fd = delta_fd h;
            (n, h) = irt_delta_replay delta_apply path f io (h\<lparr>delta_fd := -1\<rparr>);
            h = h\<lparr>delta_fd := saved_fd\<rparr>
        in if n < 0 then (INDURTDB_ERR_ARG, set_error h ''delta replay failed'') else (n, h))"

section \<open>Loading the point configuration\<close>

text \<open>
  The retry loop of one configured point: at most three rounds of taking the lock, filling the
  point and indexing it. The first component is \<open>Some rc\<close> when the load ends at once with that code.
\<close>

fun configure_loop :: "nat \<Rightarrow> irt_point_meta \<Rightarrow> shm \<Rightarrow> int option \<times> bool \<times> shm" where
  "configure_loop 0 pm s = (None, False, s)"
| "configure_loop (Suc n) pm s =
     (let (seq0, s) = irt_seqlock_write_begin s
      in if seq0 AND 1 \<noteq> 0 then configure_loop n pm s
         else
           let p = (points s ! unat (pm_id pm))
                 \<lparr>pt_type := pm_type pm, pt_unit := pm_unit pm, access := pm_access pm, partition := 0,
                  pt_name := strncpy_to 63 (pm_name pm)\<rparr>;
               s = irt_seqlock_write_end (s\<lparr>points := (points s)[unat (pm_id pm) := p]\<rparr>) seq0;
               (irc, s) = irt_index_insert s 0 (pt_name p) (pm_id pm)
           in if irc = INDURTDB_ERR_FULL then (Some INDURTDB_ERR_FULL, False, s)
              else if irc = INDURTDB_ERR_BUSY then configure_loop n pm s
              else (None, True, s))"

definition configure_meta :: "irt_point_meta \<Rightarrow> int \<times> shm \<Rightarrow> int \<times> shm" where
  "configure_meta pm st =
     (let (overall, s) = st
      in if has_meta pm then
           let (rc, s) = irt_meta_set s (pm_id pm)
                 \<lparr>eur_min = pm_eur_min pm, eur_max = pm_eur_max pm, deadband = pm_deadband pm, m_flags = pm_flags pm\<rparr>
           in (if rc \<noteq> INDURTDB_OK then INDURTDB_ERR_BUSY else overall, s)
         else (overall, s))"

fun load_points :: "irt_point_meta list \<Rightarrow> int \<times> indurtdb \<Rightarrow> int \<times> indurtdb" where
  "load_points [] (overall, h) = (overall, h)"
| "load_points (pm # pms) (overall, h) =
     (if s_max_points (h_shm h) \<le> pm_id pm then load_points pms (overall, h)
      else if INDURTDB_TYPE_FLOAT < pm_type pm then load_points pms (overall, h)
      else if bad_value pm then
        (INDURTDB_ERR_ARG,
         set_error h (''config point '' @ dec_digits (unat (pm_id pm)) @ '': malformed numeric value''))
      else
        case configure_loop IRT_SEQLOCK_MAX_RETRY pm (h_shm h) of
          (Some rc, _, s) \<Rightarrow> (rc, h\<lparr>h_shm := s\<rparr>)
        | (None, configured, s) \<Rightarrow>
            let (overall, s) = configure_meta pm (if configured then overall else INDURTDB_ERR_BUSY, s)
            in load_points pms (overall, h\<lparr>h_shm := s\<rparr>))"

text \<open>
  The argument holds the contents of the file, \<open>None\<close> when it cannot be opened; without a path the code
  answers with the same error and another message.
\<close>

definition indurtdb_h_load_config :: "indurtdb \<Rightarrow> string option \<Rightarrow> int \<times> indurtdb" where
  "indurtdb_h_load_config h f =
     ensure_h h
       (let (n, batch) = irt_point_config_parse_yaml f
        in if n < 0 then (INDURTDB_ERR_ARG, set_error h ''config parse failed'')
           else if off_points (h_shm h) = 0 \<or> s_max_points (h_shm h) = 0 then (INDURTDB_ERR_ARG, h)
           else load_points batch (0, h))"

section \<open>Checks and statistics\<close>

definition INDURTDB_HEALTH_OK :: int where "INDURTDB_HEALTH_OK = 0"
definition INDURTDB_HEALTH_DEGRADED :: int where "INDURTDB_HEALTH_DEGRADED = 1"
definition INDURTDB_HEALTH_UNHEALTHY :: int where "INDURTDB_HEALTH_UNHEALTHY = 2"

definition indurtdb_h_check_timeouts :: "indurtdb \<Rightarrow> u64 \<Rightarrow> u64 \<Rightarrow> (int \<times> indurtdb) option" where
  "indurtdb_h_check_timeouts h now timeout_ns =
     (if \<not> initialized h then Some (INDURTDB_ERR_NOT_INIT, set_error h ''not initialized'')
      else map_option (\<lambda>(n, s). (n, h\<lparr>h_shm := s\<rparr>)) (irt_pm_check_timeouts (h_shm h) now timeout_ns))"

definition indurtdb_h_get_write_count :: "indurtdb \<Rightarrow> u64" where
  "indurtdb_h_get_write_count h = (if \<not> initialized h then 0 else irt_pm_write_count (h_shm h))"

definition indurtdb_h_get_timeout_count :: "indurtdb \<Rightarrow> u64" where
  "indurtdb_h_get_timeout_count h = (if \<not> initialized h then 0 else st_timeouts (h_shm h))"

definition indurtdb_h_get_scan_skipped :: "indurtdb \<Rightarrow> u64" where
  "indurtdb_h_get_scan_skipped h = (if \<not> initialized h then 0 else ucast (scan_skipped (h_shm h)))"

definition indurtdb_h_self_check :: "indurtdb \<Rightarrow> int \<times> indurtdb" where
  "indurtdb_h_self_check h =
     (if \<not> initialized h then
        (INDURTDB_HEALTH_UNHEALTHY, set_error h ''self_check: instance not initialized'')
      else if magic (h_shm h) \<noteq> IRT_MAGIC then
        (INDURTDB_HEALTH_UNHEALTHY, set_error h ''self_check: bad magic'')
      else if version (h_shm h) \<noteq> IRT_SHM_VERSION then
        (INDURTDB_HEALTH_UNHEALTHY, set_error h ''self_check: shm version mismatch'')
      else (INDURTDB_HEALTH_OK, h))"

definition indurtdb_h_validate_id :: "indurtdb \<Rightarrow> u32 \<Rightarrow> int" where
  "indurtdb_h_validate_id h pid =
     (if \<not> initialized h then 0 else if irt_pm_validate_id (h_shm h) pid then 1 else 0)"

text \<open>
  \<open>indurtdb_validate_config\<close> on a handle nobody else writes to: the code, and the offending id and
  field of the first bad point. The message that reading the metadata of an id outside the handle leaves
  behind is not kept.
\<close>

fun validate_points :: "indurtdb \<Rightarrow> u32 list \<Rightarrow> (cfg_error \<times> u32 \<times> cfg_field) option" where
  "validate_points h [] = Some (CFG_OK, 0, FLD_NONE)"
| "validate_points h (pid # pids) =
     (case irt_pm_read (h_shm h) (quiet (h_shm h) pid) pid zero_point of
        None \<Rightarrow> None
      | Some (rc, pt) \<Rightarrow>
          if rc \<noteq> 0 then validate_points h pids
          else if pt_name pt = [] then validate_points h pids
          else if INDURTDB_TYPE_FLOAT < pt_type pt then Some (CFG_ERR_TYPE, pid, FLD_TYPE)
          else if access pt \<noteq> INDURTDB_ACCESS_READ_ONLY \<and> access pt \<noteq> INDURTDB_ACCESS_READ_WRITE
          then Some (CFG_ERR_ACCESS, pid, FLD_ACCESS)
          else
            let m = (case snd (irt_meta_get (h_shm h) 0 pid) of None \<Rightarrow> zero_meta | Some m \<Rightarrow> m);
                (vrc, fld) = indurtdb_validate_point_meta m
            in if vrc \<noteq> CFG_OK then Some (vrc, pid, fld) else validate_points h pids)"

definition indurtdb_validate_config :: "indurtdb option \<Rightarrow> (cfg_error \<times> u32 \<times> cfg_field) option" where
  "indurtdb_validate_config g =
     (case g of
        None \<Rightarrow> Some (CFG_ERR_NULL, 0, FLD_NONE)
      | Some h \<Rightarrow>
          if \<not> initialized h then Some (CFG_ERR_NULL, 0, FLD_NONE)
          else validate_points h (map word_of_nat [0..<unat (max_points (h_shm h))]))"

end
