(* ===== verification/Api_Directory.thy ===== *)
theory Api_Directory
  imports Api
begin

text \<open>
  The directory of points as the handle interface maintains it: creating, deleting and renaming
  points under the sequence lock keep the table invariant of \<^verbatim>\<open>Name_Index\<close> and act on the abstract
  map from (partition, name) to id as insertion, deletion and re-insertion; lookups through the
  hash index agree with that map.
\<close>

section \<open>Frames\<close>

lemma index_wf_ex_frame:
  assumes "index_wf_ex S s"
  shows "index_wf_ex S (s\<lparr>lock_env := e\<rparr>)" "index_wf_ex S (s\<lparr>lock_env := e, write_seq := w\<rparr>)"
    "index_wf_ex S (s\<lparr>write_seq := w\<rparr>)"
  by (rule index_wf_ex_cong [OF assms]; use index_wf_exD(1) [OF assms] in \<open>simp add: shm_wf_def\<close>)+

lemma name_map_cong: "points t = points s \<Longrightarrow> name_map t = name_map s"
  by (simp add: name_map_def fun_eq_iff)

lemma map_ext_Some: "(\<And>k j. m k = Some j \<longleftrightarrow> n k = Some j) \<Longrightarrow> m = n"
  by (metis ext option.expand option.exhaust_sel option.sel)

lemma name_map_set:
  assumes "index_wf s" "index_wf t" "points t = (points s)[unat pid := p]" "unat pid < length (points s)"
    "reg p" "\<not> reg (points s ! unat pid)"
  shows "name_map t = (name_map s)(pkey p \<mapsto> pid)"
proof (rule map_ext_Some)
  fix k j
  have notk: "pkey (points s ! i) \<noteq> pkey p" if "i \<in> reg_ids (points s)" for i
  proof
    assume eq: "pkey (points s ! i) = pkey p"
    have i: "i \<in> reg_ids (points t)" "unat pid \<in> reg_ids (points t)" "i \<noteq> unat pid"
      using that assms(3-6) by (auto simp: reg_ids_def nth_list_update)
    have "pkey (points t ! i) = pkey (points t ! unat pid)"
      using eq i(3) assms(3,4) by simp
    then show False
      using i index_wf_ex_parts(2) [of "{}" t] assms(2) by (auto simp: index_wf_def dest: inj_onD)
  qed
  have regs: "reg_ids (points t) = insert (unat pid) (reg_ids (points s))"
    using assms(3-5) by (simp add: reg_ids_update)
  show "name_map t k = Some j \<longleftrightarrow> ((name_map s)(pkey p \<mapsto> pid)) k = Some j"
  proof (cases "j = pid")
    case True
    then show ?thesis
      unfolding index_wf_name_map_iff [OF assms(2)] regs
      using assms(3,4,6) index_wf_name_map_iff [OF assms(1), of k pid]
      by (auto simp: reg_ids_def)
  next
    case False
    then have "points t ! unat j = points s ! unat j" by (simp add: assms(3))
    moreover have "unat j \<noteq> unat pid" using False by (simp add: word_unat_eq_iff)
    ultimately show ?thesis
      unfolding index_wf_name_map_iff [OF assms(2)] regs
      using False notk [of "unat j"] index_wf_name_map_iff [OF assms(1), of k j]
      by auto
  qed
qed

lemma name_map_clear:
  fixes pid :: u32
  assumes "index_wf s" "index_wf t" "points t = (points s)[unat pid := p]" "unat pid < length (points s)"
    "\<not> reg p" "reg (points s ! unat pid)"
  shows "name_map t = (name_map s)(pkey (points s ! unat pid) := None)"
proof (rule map_ext_Some)
  fix k j
  let ?k = "pkey (points s ! unat pid)"
  have inreg: "unat pid \<in> reg_ids (points s)" using assms(4,6) by (simp add: reg_ids_def)
  have regs: "reg_ids (points t) = reg_ids (points s) - {unat pid}"
    using assms(3-5) by (simp add: reg_ids_update)
  have uniq: "i = unat pid" if "i \<in> reg_ids (points s)" "pkey (points s ! i) = ?k" for i
    using that inreg index_wf_ex_parts(2) [of "{}" s] assms(1) by (auto simp: index_wf_def dest: inj_onD)
  show "name_map t k = Some j \<longleftrightarrow> ((name_map s)(?k := None)) k = Some j"
  proof (cases "j = pid")
    case True
    then show ?thesis
      unfolding index_wf_name_map_iff [OF assms(2)] regs
      using index_wf_name_map_iff [OF assms(1), of k pid] by auto
  next
    case False
    then have "points t ! unat j = points s ! unat j" by (simp add: assms(3))
    moreover have "unat j \<noteq> unat pid" using False by (simp add: word_unat_eq_iff)
    ultimately show ?thesis
      unfolding index_wf_name_map_iff [OF assms(2)] regs
      using uniq [of "unat j"] index_wf_name_map_iff [OF assms(1), of k j] by auto
  qed
qed

lemma lock_retry_env: "lock_retry n s q = (seq0, s') \<Longrightarrow> lock_env s = [] \<Longrightarrow> lock_env s' = []"
proof (induction n arbitrary: s q)
  case (Suc n)
  obtain q1 t where w: "irt_seqlock_write_begin s = (q1, t)" by (cases "irt_seqlock_write_begin s")
  have t: "lock_env t = []"
    using w Suc.prems(2)
    by (cases "lock_free s") (auto simp: write_begin_free write_begin_busy)
  show ?case
  proof (cases "q1 AND 1 = 0")
    case True
    then show ?thesis using Suc.prems(1) w t by simp
  next
    case False
    then have "lock_retry n t q1 = (seq0, s')" using Suc.prems(1) w by simp
    then show ?thesis using Suc.IH t by blast
  qed
qed simp

section \<open>Indexing a registered point\<close>

lemma index_insert_registered:
  assumes wf: "index_wf_ex {unat pid} s" and pid: "unat pid \<in> reg_ids (points s)"
    and key: "pkey (points s ! unat pid) = (part, name)"
  obtains (free) t where "lock_free s" "irt_index_insert s part name pid = (0, t)" "index_wf t"
      "t = s\<lparr>lock_env := tl (lock_env s), slots := slots t, index_count := index_count t,
             write_seq := write_seq s + 2\<rparr>"
  | (busy) "\<not> lock_free s"
      "irt_index_insert s part name pid = (INDURTDB_ERR_BUSY, s\<lparr>lock_env := tl (lock_env s)\<rparr>)"
proof (cases "lock_free s")
  case False
  then show ?thesis
    using or_one_odd [of "write_seq s"]
    by (intro busy) (simp_all add: irt_index_insert_def write_begin_busy Let_def)
next
  case True
  let ?s = "s\<lparr>lock_env := tl (lock_env s), write_seq := write_seq s + 1\<rparr>"
  have wf': "index_wf_ex {unat pid} ?s" by (rule index_wf_ex_frame(2) [OF wf])
  have pl: "unat pid < length (points s)" and ne: "name \<noteq> []" and len: "length name \<le> 63"
    and pp: "partition (points s ! unat pid) = part"
    using pid key index_wf_ex_parts(3) [OF wf, of "unat pid"] by (auto simp: reg_ids_def reg_def pkey_def)
  have fresh: "pkey (points ?s ! slot_id (slots ?s) i) \<noteq> (part, name)" if "i \<in> live_slots (slots ?s)" for i
  proof
    assume eq: "pkey (points ?s ! slot_id (slots ?s) i) = (part, name)"
    have m: "slot_id (slots s) i \<in> reg_ids (points s) - {unat pid}"
      using index_wf_ex_live(1) [OF wf] that by simp
    then have "slot_id (slots s) i = unat pid"
      using eq key pid by (intro inj_onD [OF index_wf_ex_parts(2) [OF wf]]) auto
    then show False using m by simp
  qed
  have pl': "unat pid < length (points ?s)" and pp': "partition (points ?s ! unat pid) = part"
    using pl pp by simp_all
  obtain j where j: "j < length (slots ?s)" "j \<notin> live_slots (slots ?s)"
    "on_chain (slots ?s) (probe_seq (index_of ?s) (irt_index_compose_hash part name)) j"
    "irt_index_insert_locked ?s part name pid =
       (0, ?s\<lparr>slots := (slots ?s)[j := \<lparr>sl_hash = irt_index_compose_hash part name, sl_pid = pid\<rparr>],
             index_count := index_count ?s + 1\<rparr>)"
    by (rule insert_locked_fresh [OF wf' ne len pl' pp' fresh])
  let ?t = "?s\<lparr>slots := (slots ?s)[j := \<lparr>sl_hash = irt_index_compose_hash part name, sl_pid = pid\<rparr>],
             index_count := index_count ?s + 1\<rparr>"
  have "index_wf_ex ({unat pid} - {unat pid}) ?t"
    by (rule index_place_wf [OF wf' j(1-3)]) (use pid key in \<open>simp_all add: key_hash_def pkey_def\<close>)
  from index_wf_ex_frame(3) [OF this, of "write_seq s + 2"]
  have t: "index_wf (?t\<lparr>write_seq := write_seq s + 2\<rparr>)" by (simp add: index_wf_def)
  show ?thesis
  proof (rule free [OF True _ t])
    show "irt_index_insert s part name pid = (0, ?t\<lparr>write_seq := write_seq s + 2\<rparr>)"
      using True lock_free_even [OF True] j(4)
      by (simp add: irt_index_insert_def write_begin_free irt_seqlock_write_end_def Let_def)
  qed simp
qed

section \<open>Creating a point\<close>

definition created_point :: "point \<Rightarrow> u32 \<Rightarrow> string \<Rightarrow> int \<Rightarrow> int \<Rightarrow> point" where
  "created_point p part name ty acc =
     p\<lparr>pt_type := word_of_int ty, access := word_of_int acc, pt_unit := 0, partition := part,
       quality := QUALITY_GOOD, pt_value := replicate 32 0, pt_name := name\<rparr>"

text \<open>The state after the registration, before the indexing.\<close>

lemma register_step:
  fixes ty acc :: int
  assumes wf: "index_wf s" and pid: "unat pid < length (points s)" "\<not> reg (points s ! unat pid)"
    and name: "name \<noteq> []" "length name \<le> 63" and fresh: "name_map s (part, name) = None"
  defines "t \<equiv> h_point_register s part pid name ty acc"
  shows "index_wf_ex {unat pid} t" "unat pid \<in> reg_ids (points t)" "pkey (points t ! unat pid) = (part, name)"
    "points t = (points s)[unat pid := created_point (points s ! unat pid) part name ty acc]"
    "t = s\<lparr>points := points t\<rparr>"
proof -
  show pts: "points t = (points s)[unat pid := created_point (points s ! unat pid) part name ty acc]"
    "t = s\<lparr>points := points t\<rparr>"
    using name(2) by (simp_all add: t_def h_point_register_def created_point_def)
  show "unat pid \<in> reg_ids (points t)" "pkey (points t ! unat pid) = (part, name)"
    using pid name(1) by (simp_all add: pts(1) reg_ids_def created_point_def reg_def pkey_def)
  have "index_wf_ex (insert (unat pid) {}) (s\<lparr>points := points t\<rparr>)"
    unfolding pts(1)
  proof (rule index_set_point)
    show "index_wf_ex {} s" using wf by (simp add: index_wf_def)
    show "unat pid \<notin> reg_ids (points s) - {}" using pid(2) by (simp add: reg_ids_def)
    show "pkey (points s ! i) \<noteq> pkey (created_point (points s ! unat pid) part name ty acc)"
      if "i \<in> reg_ids (points s)" for i
      using fresh that unfolding name_map_eq_None_iff by (simp add: created_point_def pkey_def)
  qed (use pid name(2) in \<open>simp_all add: created_point_def\<close>)
  then show "index_wf_ex {unat pid} t" using pts(2) by simp
qed

lemma unregister_step:
  assumes "index_wf_ex {j} s" "j < length (points s)"
  shows "index_wf (s\<lparr>points := (points s)[j := (points s ! j)\<lparr>pt_name := []\<rparr>]\<rparr>)"
proof -
  let ?p = "(points s ! j)\<lparr>pt_name := []\<rparr>"
  have "index_wf_ex (insert j {j}) (s\<lparr>points := (points s)[j := ?p]\<rparr>)"
    using assms by (intro index_set_point) (auto simp: reg_def)
  then have "index_wf_ex ({j} - {j}) (s\<lparr>points := (points s)[j := ?p]\<rparr>)"
    using assms(2) by (intro index_wf_ex_unreg) (auto simp: reg_ids_def reg_def)
  then show ?thesis by (simp add: index_wf_def)
qed

lemma delta_log_shm [simp]: "h_shm (delta_log h op pid ty acc name) = h_shm h"
  "initialized (delta_log h op pid ty acc name) = initialized h"
  "h_sub (delta_log h op pid ty acc name) = h_sub h"
  by (auto simp: delta_log_def set_error_def Let_def split: prod.splits list.splits)

lemma set_error_shm [simp]: "h_shm (set_error h msg) = h_shm h" "initialized (set_error h msg) = initialized h"
  "h_sub (set_error h msg) = h_sub h" "delta_file (set_error h msg) = delta_file h"
  by (simp_all add: set_error_def)

text \<open>What the arguments and the directory must satisfy for a creation to go ahead.\<close>

definition create_error :: "shm \<Rightarrow> u32 \<Rightarrow> u32 \<Rightarrow> string \<Rightarrow> int \<Rightarrow> int \<Rightarrow> int" where
  "create_error s part pid name ty acc =
     (if name = [] \<or> ty < 0 \<or> 6 < ty \<or> acc \<notin> {1, 3} \<or> max_points s \<le> pid then INDURTDB_ERR_ARG
      else if write_seq s AND 1 = 0 \<and> (\<exists>j. name_map s (part, name) = Some j \<and> j \<noteq> pid) then INDURTDB_ERR_ARG
      else if \<not> lockable 3 s then INDURTDB_ERR_BUSY
      else if reg (points s ! unat pid) then INDURTDB_ERR_FULL
      else 0)"

lemma lookup_cases:
  assumes "index_wf s" "name \<noteq> []" "length name \<le> 63" "d < 16" "irt_index_lookup s d part name = (rc, out)"
  shows "(rc = 0 \<and> out \<noteq> Some pid) \<longleftrightarrow> (write_seq s AND 1 = 0 \<and> (\<exists>j. name_map s (part, name) = Some j \<and> j \<noteq> pid))"
proof (cases "stable_window s d")
  case True
  then show ?thesis
    using irt_index_lookup_correct [OF assms(1-3) True, of part] assms(5)
    by (auto simp: stable_window_iff irt_codes split: option.splits)
next
  case False
  have wf: "index_wf_ex {} s" using assms(1) by (simp add: index_wf_def)
  have "rc = INDURTDB_ERR_BUSY"
    using False assms(2,5) index_wf_exD(2,3) [OF wf] by (simp add: irt_index_lookup_def)
  then show ?thesis using False assms(4) by (simp add: stable_window_iff irt_codes)
qed

lemma create_point_in_eq:
  assumes "initialized h" "s_max_points (h_shm h) = max_points (h_shm h)"
    "irt_index_lookup (h_shm h) d part name = (lrc, ex)"
  shows "indurtdb_h_create_point_in d h part pid name ty acc =
    (if name = [] then (INDURTDB_ERR_ARG, set_error h ''empty name'')
     else if ty < 0 \<or> 6 < ty then (INDURTDB_ERR_ARG, set_error h ''bad type'')
     else if acc \<notin> {1, 3} then (INDURTDB_ERR_ARG, set_error h ''bad access (1=read-only,3=read-write)'')
     else if max_points (h_shm h) \<le> pid then (INDURTDB_ERR_ARG, set_error h ''id out of range'')
     else if lrc = 0 \<and> ex \<noteq> Some pid then (INDURTDB_ERR_ARG, set_error h ''name already exists'')
     else create_body h part pid name ty acc)"
  by (simp add: assms indurtdb_h_create_point_in_def ensure_h_def point_type_defs
      INDURTDB_ACCESS_READ_ONLY_def INDURTDB_ACCESS_READ_WRITE_def)

lemma create_checks:
  assumes "index_wf (h_shm h)" "initialized h" "length name \<le> 63" "d < 16"
  shows "(\<exists>m. create_error (h_shm h) part pid name ty acc = INDURTDB_ERR_ARG \<and>
      indurtdb_h_create_point_in d h part pid name ty acc = (INDURTDB_ERR_ARG, set_error h m))
    \<or> (indurtdb_h_create_point_in d h part pid name ty acc = create_body h part pid name ty acc
      \<and> name \<noteq> [] \<and> ty \<in> {0..6} \<and> acc \<in> {1, 3} \<and> pid < max_points (h_shm h)
      \<and> (write_seq (h_shm h) AND 1 = 0 \<longrightarrow> (\<forall>j. name_map (h_shm h) (part, name) = Some j \<longrightarrow> j = pid))
      \<and> create_error (h_shm h) part pid name ty acc =
        (if \<not> lockable 3 (h_shm h) then INDURTDB_ERR_BUSY
         else if reg (points (h_shm h) ! unat pid) then INDURTDB_ERR_FULL else 0))"
proof -
  let ?bad = "name = [] \<or> ty < 0 \<or> 6 < ty \<or> acc \<notin> {1, 3} \<or> max_points (h_shm h) \<le> pid"
  have smax: "s_max_points (h_shm h) = max_points (h_shm h)"
    using assms(1) by (simp add: index_wf_def index_wf_ex_def shm_wf_def)
  obtain lrc ex where l: "irt_index_lookup (h_shm h) d part name = (lrc, ex)"
    by (cases "irt_index_lookup (h_shm h) d part name")
  note eq = create_point_in_eq [OF assms(2) smax l, of pid ty acc]
  show ?thesis
  proof (cases ?bad)
    case True
    then have "\<exists>m. indurtdb_h_create_point_in d h part pid name ty acc = (INDURTDB_ERR_ARG, set_error h m)"
      unfolding eq by (cases "name = []"; cases "ty < 0 \<or> 6 < ty"; cases "acc \<notin> {1, 3}") (simp; blast)+
    moreover have "create_error (h_shm h) part pid name ty acc = INDURTDB_ERR_ARG"
      using True by (simp only: create_error_def if_True)
    ultimately show ?thesis by blast
  next
    case False
    then have ok: "name \<noteq> []" "ty \<in> {0..6}" "acc \<in> {1, 3}" "pid < max_points (h_shm h)" by auto
    note err = create_error_def [of "h_shm h" part pid name ty acc, unfolded if_not_P [OF False]]
    have dup: "(lrc = 0 \<and> ex \<noteq> Some pid) \<longleftrightarrow>
        (write_seq (h_shm h) AND 1 = 0 \<and> (\<exists>j. name_map (h_shm h) (part, name) = Some j \<and> j \<noteq> pid))"
      using lookup_cases [OF assms(1) _ assms(3,4) l] ok(1) by blast
    have g: "\<not> (ty < 0 \<or> 6 < ty)" "\<not> max_points (h_shm h) \<le> pid" "\<not> acc \<notin> {1, 3}" using ok by auto
    note eq' = eq [unfolded if_not_P [OF ok(1)] if_not_P [OF g(1)] if_not_P [OF g(2)] if_not_P [OF g(3)] dup]
    show ?thesis
    proof (cases "write_seq (h_shm h) AND 1 = 0 \<and> (\<exists>j. name_map (h_shm h) (part, name) = Some j \<and> j \<noteq> pid)")
      case True
      then show ?thesis unfolding eq' err if_P [OF True] by blast
    next
      case nodup: False
      then show ?thesis unfolding eq' err if_not_P [OF nodup] using ok by blast
    qed
  qed
qed

text \<open>Every outcome of the part under the lock.\<close>

lemma create_body_outcome:
  assumes wf: "index_wf (h_shm h)" and name: "name \<noteq> []" "length name \<le> 63"
    and pid: "pid < max_points (h_shm h)"
    and fresh: "write_seq (h_shm h) AND 1 = 0 \<and> \<not> reg (points (h_shm h) ! unat pid) \<longrightarrow>
      name_map (h_shm h) (part, name) = None"
    and c: "create_body h part pid name ty acc = (rc, h')"
  obtains (busy) e where "\<not> lockable 3 (h_shm h)" "rc = INDURTDB_ERR_BUSY"
      "h_shm h' = (h_shm h)\<lparr>lock_env := e\<rparr>" "initialized h' = initialized h"
  | (full) e where "lockable 3 (h_shm h)" "reg (points (h_shm h) ! unat pid)" "rc = INDURTDB_ERR_FULL"
      "h_shm h' = (h_shm h)\<lparr>lock_env := e, write_seq := write_seq (h_shm h) + 2\<rparr>" "initialized h' = initialized h"
      "lock_env (h_shm h) = [] \<longrightarrow> e = []"
  | (ok) "lockable 3 (h_shm h)" "\<not> reg (points (h_shm h) ! unat pid)" "rc = 0" "index_wf (h_shm h')"
      "points (h_shm h') = (points (h_shm h))[unat pid := created_point (points (h_shm h) ! unat pid) part name ty acc]"
      "initialized h' = initialized h" "write_seq (h_shm h') = write_seq (h_shm h) + 2 + 2"
      "lock_env (h_shm h) = [] \<longrightarrow> lock_env (h_shm h') = []" "max_points (h_shm h') = max_points (h_shm h)"
  | (lost) "lockable 3 (h_shm h)" "\<not> reg (points (h_shm h) ! unat pid)" "rc = INDURTDB_ERR_BUSY"
      "lock_env (h_shm h) \<noteq> []" "initialized h' = initialized h"
      "index_wf (h_shm h') \<and> points (h_shm h') = (points (h_shm h))[unat pid :=
          (created_point (points (h_shm h) ! unat pid) part name ty acc)\<lparr>pt_name := []\<rparr>]
       \<or> index_wf_ex {unat pid} (h_shm h')"
proof -
  let ?s = "h_shm h"
  obtain seq0 s1 where r: "lock_retry 3 ?s 0 = (seq0, s1)" by (cases "lock_retry 3 ?s 0")
  consider (free) e where "lockable 3 ?s" "seq0 = write_seq ?s" "seq0 AND 1 = 0"
      "s1 = ?s\<lparr>lock_env := e, write_seq := write_seq ?s + 1\<rparr>"
    | (held) e where "\<not> lockable 3 ?s" "seq0 AND 1 \<noteq> 0" "s1 = ?s\<lparr>lock_env := e\<rparr>"
    using lock_retry_spec [OF r] by auto
  then show ?thesis
  proof cases
    case held
    then show ?thesis
      using c r by (intro busy [of e]) (auto simp: create_body_def IRT_SEQLOCK_MAX_RETRY_def)
  next
    case free
    show ?thesis
    proof (cases "reg (points ?s ! unat pid)")
      case True
      then show ?thesis
        using c r free lock_retry_env [OF r]
        by (intro full [of e]) (auto simp: create_body_def IRT_SEQLOCK_MAX_RETRY_def reg_def irt_seqlock_write_end_def)
    next
      case unreg: False
      have pl: "unat pid < length (points ?s)"
        using pid wf by (simp add: index_wf_def index_wf_ex_def shm_wf_def word_less_nat_alt)
      have even: "write_seq ?s AND 1 = 0" using free(2,3) by simp
      have env: "lock_env ?s = [] \<longrightarrow> e = []"
        using lock_retry_env [OF r] free(4) by simp
      let ?s1 = "?s\<lparr>lock_env := e, write_seq := write_seq ?s + 2\<rparr>"
      have wf1: "index_wf ?s1" by (rule index_wf_frame(2) [OF wf])
      let ?t = "h_point_register ?s1 part pid name ty acc"
      have nm: "name_map ?s1 (part, name) = None"
        using fresh even unreg name_map_cong [of ?s1 ?s] by simp
      have reg1: "unat pid < length (points ?s1)" "\<not> reg (points ?s1 ! unat pid)" using pl unreg by simp_all
      note t = register_step [OF wf1 reg1 name nm, of ty acc]
      have teq: "irt_seqlock_write_end (h_point_register s1 part pid name ty acc) seq0 = ?t"
        using free by (simp add: irt_seqlock_write_end_def h_point_register_def)
      have unf: "create_body h part pid name ty acc =
         (let (irc, s) = irt_index_insert ?t part name pid
          in if irc = 0
              then (irc, delta_log (h\<lparr>h_shm := s\<rparr>) IRT_DELTA_OP_CREATE pid (word_of_int ty) (word_of_int acc) name)
              else (irc, set_error (h\<lparr>h_shm := create_rollback s pid\<rparr>)
                           (if irc = INDURTDB_ERR_FULL then ''index full'' else ''index busy'')))"
        using r free unreg
        by (simp add: create_body_def IRT_SEQLOCK_MAX_RETRY_def reg_def teq [unfolded free(2,4)])
      from t(1-3) show ?thesis
      proof (cases rule: index_insert_registered)
        case (free u)
        have "rc = 0" "h_shm h' = u" "initialized h' = initialized h" using c unfolding unf free(2) by auto
        moreover have "points u = points ?t" "write_seq u = write_seq ?s + 2 + 2"
          "lock_env u = tl e" "max_points u = max_points ?s"
          by (subst free(4), simp add: h_point_register_def)+
        ultimately show ?thesis
          using \<open>lockable 3 ?s\<close> unreg free(3) t(4) env by (intro ok) auto
      next
        case busy
        let ?u = "?t\<lparr>lock_env := tl (lock_env ?t)\<rparr>"
        have rc: "rc = INDURTDB_ERR_BUSY" "h_shm h' = create_rollback ?u pid" "initialized h' = initialized h"
          using c unfolding unf busy(2) by (auto simp: irt_codes)
        have "lock_env ?t \<noteq> []"
          using busy(1) add_two_even [OF even] by (auto simp: lock_free_def h_point_register_def)
        then have env': "lock_env ?s \<noteq> []" using env by (auto simp: h_point_register_def)
        have wfu: "index_wf_ex {unat pid} ?u" by (rule index_wf_ex_frame(1) [OF t(1)])
        obtain s2 v where rb: "lock_retry 3 ?u 0 = (s2, v)" by (cases "lock_retry 3 ?u 0")
        have undone: "index_wf (create_rollback ?u pid) \<and> points (create_rollback ?u pid) = (points ?s)[unat pid :=
            (created_point (points ?s ! unat pid) part name ty acc)\<lparr>pt_name := []\<rparr>]
          \<or> index_wf_ex {unat pid} (create_rollback ?u pid)"
        proof (cases "s2 AND 1 = 0")
          case True
          then obtain e2 where v: "v = ?u\<lparr>lock_env := e2, write_seq := write_seq ?u + 1\<rparr>"
            using lock_retry_spec [OF rb] by auto
          have "index_wf_ex {unat pid} v" unfolding v by (rule index_wf_ex_frame(2) [OF wfu])
          then have "index_wf (v\<lparr>points := (points v)[unat pid := (points v ! unat pid)\<lparr>pt_name := []\<rparr>]\<rparr>)"
            by (rule unregister_step) (simp add: v t(4) pl)
          then have "index_wf (create_rollback ?u pid)"
            using rb True index_wf_frame(3)
            by (simp add: create_rollback_def IRT_SEQLOCK_MAX_RETRY_def irt_seqlock_write_end_def)
          moreover have "points (create_rollback ?u pid) = (points ?s)[unat pid :=
            (created_point (points ?s ! unat pid) part name ty acc)\<lparr>pt_name := []\<rparr>]"
            using rb True pl
            by (simp add: create_rollback_def IRT_SEQLOCK_MAX_RETRY_def irt_seqlock_write_end_def v t(4))
          ultimately show ?thesis by simp
        next
          case False
          then obtain e2 where v: "v = ?u\<lparr>lock_env := e2\<rparr>"
            using lock_retry_spec [OF rb] by auto
          have "create_rollback ?u pid = v"
            using rb False by (simp add: create_rollback_def IRT_SEQLOCK_MAX_RETRY_def)
          then show ?thesis using index_wf_ex_frame(1) [OF wfu] v by simp
        qed
        show ?thesis
          using \<open>lockable 3 ?s\<close> unreg rc env' undone by (intro lost) auto
      qed
    qed
  qed
qed

end
