(* ===== verification/Refinement.thy ===== *)
theory Refinement
  imports IRT_Prelude
begin

text \<open>
  The interface through which a component's operations are related to an abstract machine: a step
  function of the model, a step function of the specification, an invariant and an abstraction.
  What holds of single steps is lifted here once to whole command sequences.
\<close>

primrec run :: "('c \<Rightarrow> 's \<Rightarrow> 'r \<times> 's) \<Rightarrow> 'c list \<Rightarrow> 's \<Rightarrow> 'r list \<times> 's" where
  "run step [] s = ([], s)"
| "run step (c # cs) s =
     (let (r, s') = step c s; (rs, s'') = run step cs s' in (r # rs, s''))"

lemma run_Cons_pair:
  "step c s = (r, s') \<Longrightarrow> run step cs s' = (rs, s'') \<Longrightarrow> run step (c # cs) s = (r # rs, s'')"
  by simp

lemma run_append:
  "run step (xs @ ys) s =
     (fst (run step xs s) @ fst (run step ys (snd (run step xs s))), snd (run step ys (snd (run step xs s))))"
  by (induction xs arbitrary: s) (simp_all add: Let_def split: prod.splits)

lemma run_length: "length (fst (run step cs s)) = length cs"
  by (induction cs arbitrary: s) (simp_all split: prod.splits, metis fst_conv)

locale refinement =
  fixes step :: "'c \<Rightarrow> 's \<Rightarrow> 'r \<times> 's" and spec :: "'c \<Rightarrow> 'a \<Rightarrow> 'r \<times> 'a"
    and inv :: "'s \<Rightarrow> bool" and abst :: "'s \<Rightarrow> 'a" and admissible :: "'c \<Rightarrow> bool"
  assumes step_inv: "inv s \<Longrightarrow> admissible c \<Longrightarrow> inv (snd (step c s))"
    and step_spec: "inv s \<Longrightarrow> admissible c \<Longrightarrow> spec c (abst s) = (fst (step c s), abst (snd (step c s)))"
begin

lemma run_inv: "inv s \<Longrightarrow> list_all admissible cs \<Longrightarrow> inv (snd (run step cs s))"
  by (induction cs arbitrary: s) (simp_all add: split_beta step_inv)

lemma run_spec:
  "inv s \<Longrightarrow> list_all admissible cs \<Longrightarrow>
     run spec cs (abst s) = (fst (run step cs s), abst (snd (run step cs s)))"
proof (induction cs arbitrary: s)
  case (Cons c cs)
  obtain r s' where s': "step c s = (r, s')" by (cases "step c s")
  have "spec c (abst s) = (r, abst s')" using step_spec [of s c] Cons.prems s' by simp
  moreover have "inv s'" using step_inv [of s c] Cons.prems s' by simp
  ultimately show ?case using Cons.IH [of s'] Cons.prems(2) s' by (simp add: split_beta)
qed simp

text \<open>A predicate that the specification keeps holds of the abstraction of every reachable state.\<close>

lemma run_abst_invariant:
  assumes "inv s" "list_all admissible cs" "P (abst s)"
    "\<And>c a. admissible c \<Longrightarrow> P a \<Longrightarrow> P (snd (spec c a))"
  shows "P (abst (snd (run step cs s)))"
  using assms
proof (induction cs arbitrary: s)
  case (Cons c cs)
  obtain r s' where s': "step c s = (r, s')" by (cases "step c s")
  have "spec c (abst s) = (r, abst s')" using step_spec [of s c] Cons.prems(1,2) s' by simp
  then have "P (abst s')" using Cons.prems(4) [of c "abst s"] Cons.prems(2,3) by simp
  moreover have "inv s'" using step_inv [of s c] Cons.prems s' by simp
  ultimately show ?case using Cons.IH [of s'] Cons.prems(2,4) s' by (simp add: split_beta)
qed simp

end

end
