(* ===== verification/Directory.thy ===== *)
theory Directory
  imports Api_Directory Refinement
begin

text \<open>
  What the three management operations of the handle promise: on the abstract map from (partition,
  name) to id they are insertion, deletion and re-insertion, each with the return code of its
  contract, and every operation keeps the invariant of the name index. A run of any sequence of
  commands refines the same run on the abstract map.
\<close>

section \<open>The abstract map under a renaming and an unregistered update\<close>

lemma name_map_unreg_update:
  assumes "index_wf s" "index_wf t" "points t = (points s)[unat (pid :: u32) := p]"
    "\<not> reg p" "\<not> reg (points s ! unat pid)"
  shows "name_map t = name_map s"
proof (rule map_ext_Some)
  fix k j
  have regs: "reg_ids (points t) = reg_ids (points s)"
  proof (cases "unat pid < length (points s)")
    case True
    then show ?thesis using assms(3-5) by (auto simp: reg_ids_update) (simp add: reg_ids_def)
  qed (simp add: assms(3) list_update_beyond)
  have same: "points t ! i = points s ! i" if "i \<in> reg_ids (points s)" for i
    using that assms(3,5) by (cases "i = unat pid") (auto simp: reg_ids_def)
  show "name_map t k = Some j \<longleftrightarrow> name_map s k = Some j"
    unfolding index_wf_name_map_iff [OF assms(2)] index_wf_name_map_iff [OF assms(1)] regs
    using same by auto
qed

lemma name_map_rename:
  fixes pid :: u32
  assumes "index_wf s" "index_wf t" "points t = (points s)[unat pid := p]"
    "unat pid \<in> reg_ids (points s)" "reg p"
  shows "name_map t = (name_map s)(pkey (points s ! unat pid) := None, pkey p \<mapsto> pid)"
proof (rule map_ext_Some)
  fix k j
  let ?k = "pkey (points s ! unat pid)"
  have pl: "unat pid < length (points s)" using assms(4) by (simp add: reg_ids_def)
  have regs: "reg_ids (points t) = reg_ids (points s)"
    using assms(3-5) pl by (simp add: reg_ids_update insert_absorb)
  have inj: "inj_on (\<lambda>i. pkey (points s ! i)) (reg_ids (points s))"
    using index_wf_ex_parts(2) [of "{}" s] assms(1) by (simp add: index_wf_def)
  have injt: "inj_on (\<lambda>i. pkey (points t ! i)) (reg_ids (points t))"
    using index_wf_ex_parts(2) [of "{}" t] assms(2) by (simp add: index_wf_def)
  have pt: "points t ! unat pid = p" using pl assms(3) by simp
  show "name_map t k = Some j \<longleftrightarrow> ((name_map s)(?k := None, pkey p \<mapsto> pid)) k = Some j"
  proof (cases "j = pid")
    case True
    then show ?thesis
      unfolding index_wf_name_map_iff [OF assms(2)] regs
      using assms(4) pt index_wf_name_map_iff [OF assms(1), of k pid] by auto
  next
    case False
    then have ne: "unat j \<noteq> unat pid" by (simp add: word_unat_eq_iff)
    then have same: "points t ! unat j = points s ! unat j" by (simp add: assms(3))
    have "pkey (points t ! unat j) \<noteq> pkey p" "pkey (points s ! unat j) \<noteq> ?k"
      if "unat j \<in> reg_ids (points s)"
      using that ne pt assms(4) inj_onD [OF injt, of "unat j" "unat pid"]
        inj_onD [OF inj, of "unat j" "unat pid"] by (auto simp: regs)
    then show ?thesis
      unfolding index_wf_name_map_iff [OF assms(2)] regs
      using False same index_wf_name_map_iff [OF assms(1), of k j] by auto
  qed
qed

section \<open>The shared segment between operations\<close>

text \<open>
  What every management operation leaves: the invariant, the geometry, an even sequence counter and,
  where no writer interferes, no interference pending.
\<close>

definition dir_inv :: "u32 \<Rightarrow> indurtdb \<Rightarrow> bool" where
  "dir_inv N h \<longleftrightarrow> initialized h \<and> index_wf (h_shm h) \<and> max_points (h_shm h) = N
     \<and> write_seq (h_shm h) AND 1 = 0"

definition quiet_handle :: "indurtdb \<Rightarrow> bool" where
  "quiet_handle h \<longleftrightarrow> lock_env (h_shm h) = []"

definition dir_map :: "indurtdb \<Rightarrow> u32 \<times> string \<Rightarrow> u32 option" where
  "dir_map h = name_map (h_shm h)"

lemma dir_inv_frame:
  assumes "dir_inv N h" "initialized h' = initialized h"
    "h_shm h' = (h_shm h)\<lparr>lock_env := e\<rparr> \<or>
     h_shm h' = (h_shm h)\<lparr>lock_env := e, write_seq := write_seq (h_shm h) + 2\<rparr>"
  shows "dir_inv N h'" "dir_map h' = dir_map h"
proof -
  show "dir_map h' = dir_map h"
    unfolding dir_map_def by (rule name_map_cong) (use assms(3) in auto)
  show "dir_inv N h'"
    using assms index_wf_frame add_two_even [of "write_seq (h_shm h)"] by (auto simp: dir_inv_def)
qed

lemma lock_retry_quiet:
  "lock_env s = [] \<Longrightarrow> lockable 3 s \<longleftrightarrow> write_seq s AND 1 = 0"
  by (simp add: lockable_def)

lemma dir_invD:
  assumes "dir_inv N h"
  shows "initialized h" "index_wf (h_shm h)" "max_points (h_shm h) = N" "s_max_points (h_shm h) = N"
    "write_seq (h_shm h) AND 1 = 0" "length (points (h_shm h)) = unat N" "index_wf_ex {} (h_shm h)"
proof -
  show wf: "initialized h" "index_wf (h_shm h)" "max_points (h_shm h) = N" "write_seq (h_shm h) AND 1 = 0"
    using assms by (simp_all add: dir_inv_def)
  show ex: "index_wf_ex {} (h_shm h)" using wf(2) by (simp add: index_wf_def)
  have "shm_wf (h_shm h)" using ex by (simp only: index_wf_ex_def)
  then show "s_max_points (h_shm h) = N" "length (points (h_shm h)) = unat N"
    using wf(3) by (simp_all add: shm_wf_def)
qed

lemma lock_cases:
  assumes r: "lock_retry 3 s 0 = (seq0, s1)"
  obtains (free) e where "lockable 3 s" "seq0 = write_seq s" "write_seq s AND 1 = 0"
      "s1 = s\<lparr>lock_env := e, write_seq := write_seq s + 1\<rparr>" "lock_env s = [] \<longrightarrow> e = []"
  | (held) e where "\<not> lockable 3 s" "seq0 AND 1 \<noteq> 0" "s1 = s\<lparr>lock_env := e\<rparr>" "lock_env s = [] \<longrightarrow> e = []"
proof -
  have env: "lock_env s = [] \<longrightarrow> lock_env s1 = []" using lock_retry_env [OF r] by blast
  have "0 < (3 :: nat)" by simp
  from lock_retry_spec [OF r this] show ?thesis
  proof (elim disjE conjE exE)
    fix e
    assume "lockable 3 s" "seq0 = write_seq s" "seq0 AND 1 = 0"
      "s1 = s\<lparr>lock_env := e, write_seq := write_seq s + 1\<rparr>"
    then show ?thesis using env by (intro free [of e]) simp_all
  next
    fix e
    assume "\<not> lockable 3 s" "seq0 AND 1 \<noteq> 0" "s1 = s\<lparr>lock_env := e\<rparr>"
    then show ?thesis using env by (intro held [of e]) simp_all
  qed
qed

section \<open>Deletion\<close>

definition delete_error :: "shm \<Rightarrow> u32 \<Rightarrow> u32 \<Rightarrow> int" where
  "delete_error s part pid =
     (if max_points s \<le> pid then INDURTDB_ERR_ARG
      else if \<not> lockable 3 s then INDURTDB_ERR_BUSY
      else if \<not> reg (points s ! unat pid) \<or> partition (points s ! unat pid) \<noteq> part then INDURTDB_ERR_NOT_FOUND
      else 0)"

lemma remove_locked_frame:
  "irt_index_remove_locked s part name = (rc, t) \<Longrightarrow>
     t = s\<lparr>slots := slots t, index_count := index_count t\<rparr>"
  by (auto simp: irt_index_remove_locked_def Let_def split: if_splits sum.splits option.splits)

lemma delete_registered:
  assumes wf: "index_wf s" and pid: "unat pid \<in> reg_ids (points s)"
    and key: "pkey (points s ! unat pid) = (part, name)"
  obtains t where "irt_index_remove_locked s part name = (0, t)" "points t = points s"
    "t = s\<lparr>slots := slots t, index_count := index_count t\<rparr>"
    "index_wf (t\<lparr>points := (points s)[unat pid := (points s ! unat pid)\<lparr>pt_name := []\<rparr>]\<rparr>)"
proof -
  have wf0: "index_wf_ex {} s" using wf by (simp add: index_wf_def)
  obtain i where i: "i \<in> live_slots (slots s)" "slot_id (slots s) i = unat pid"
    and rm: "irt_index_remove_locked s part name =
       (0, s\<lparr>slots := (slots s)[i := (slots s ! i)\<lparr>sl_pid := IRT_INDEX_TOMBSTONE\<rparr>],
             index_count := index_count s - 1\<rparr>)"
    by (rule remove_locked_hit [OF wf0 pid _ key]) simp
  let ?t = "s\<lparr>slots := (slots s)[i := (slots s ! i)\<lparr>sl_pid := IRT_INDEX_TOMBSTONE\<rparr>],
      index_count := index_count s - 1\<rparr>"
  have "index_wf_ex {unat pid} ?t" by (rule index_unplace_wf [OF wf0 i])
  then have "index_wf (?t\<lparr>points := (points ?t)[unat pid := (points ?t ! unat pid)\<lparr>pt_name := []\<rparr>]\<rparr>)"
    by (rule unregister_step) (use pid in \<open>simp add: reg_ids_def\<close>)
  then show ?thesis by (intro that [OF rm]) simp_all
qed

lemma delete_outcome:
  assumes inv: "dir_inv N h" and del: "indurtdb_h_delete_point_in h part pid = (rc, h')"
  shows "rc = delete_error (h_shm h) part pid \<and> dir_inv N h' \<and> (quiet_handle h \<longrightarrow> quiet_handle h') \<and>
    dir_map h' = (if rc = 0 then (dir_map h)(pkey (points (h_shm h) ! unat pid) := None) else dir_map h)"
proof -
  let ?s = "h_shm h" and ?p = "points (h_shm h) ! unat pid"
  note init = dir_invD(1) [OF inv] and wf = dir_invD(2) [OF inv] and even = dir_invD(5) [OF inv]
  have mp: "s_max_points ?s = max_points ?s" and pl: "length (points ?s) = unat (max_points ?s)"
    using dir_invD(3,4,6) [OF inv] by simp_all
  show ?thesis
  proof (cases "max_points ?s \<le> pid")
    case True
    then have d: "rc = INDURTDB_ERR_ARG" "h' = set_error h ''id out of range''"
      using del init mp by (simp_all add: indurtdb_h_delete_point_in_def ensure_h_def)
    then show ?thesis
      using True inv by (simp add: delete_error_def dir_inv_def dir_map_def quiet_handle_def irt_codes)
  next
    case False
    obtain seq0 s1 where r: "lock_retry 3 ?s 0 = (seq0, s1)" by (cases "lock_retry 3 ?s 0")
    from r show ?thesis
    proof (cases rule: lock_cases)
      case (held e)
      then have d: "rc = INDURTDB_ERR_BUSY" "h_shm h' = ?s\<lparr>lock_env := e\<rparr>" "initialized h' = initialized h"
        using del init mp False r
        by (auto simp: indurtdb_h_delete_point_in_def ensure_h_def IRT_SEQLOCK_MAX_RETRY_def)
      show ?thesis
        using False held d dir_inv_frame [OF inv d(3), of e]
        by (simp add: delete_error_def quiet_handle_def irt_codes)
    next
      case (free e)
      let ?s2 = "?s\<lparr>lock_env := e, write_seq := write_seq ?s + 2\<rparr>"
      show ?thesis
      proof (cases "\<not> reg ?p \<or> partition ?p \<noteq> part")
        case True
        then have d: "rc = INDURTDB_ERR_NOT_FOUND" "h_shm h' = ?s2" "initialized h' = initialized h"
          using del init mp False r free(1-4)
          by (auto simp: indurtdb_h_delete_point_in_def ensure_h_def IRT_SEQLOCK_MAX_RETRY_def reg_def
              irt_seqlock_write_end_def Let_def split: if_splits)
        show ?thesis
          using False True free(1,5) d dir_inv_frame [OF inv d(3), of e]
          by (simp add: delete_error_def quiet_handle_def irt_codes)
      next
        case there: False
        have reg: "unat pid \<in> reg_ids (points s1)" and key: "pkey (points s1 ! unat pid) = (part, pt_name ?p)"
          using there False pl free(4) by (simp_all add: reg_ids_def pkey_def word_less_nat_alt not_le)
        have wf1: "index_wf s1" unfolding free(4) by (rule index_wf_frame(2) [OF wf])
        obtain t where t: "irt_index_remove_locked s1 part (pt_name ?p) = (0, t)" "points t = points s1"
          "t = s1\<lparr>slots := slots t, index_count := index_count t\<rparr>"
          "index_wf (t\<lparr>points := (points s1)[unat pid := (points s1 ! unat pid)\<lparr>pt_name := []\<rparr>]\<rparr>)"
          by (rule delete_registered [OF wf1 reg key])
        let ?u = "t\<lparr>points := (points s1)[unat pid := (points s1 ! unat pid)\<lparr>pt_name := []\<rparr>]\<rparr>"
        have d: "rc = 0" "h_shm h' = irt_seqlock_write_end ?u seq0" "initialized h' = initialized h"
          using del init mp False r free(1-4) there t(1,2)
          by (auto simp: indurtdb_h_delete_point_in_def ensure_h_def IRT_SEQLOCK_MAX_RETRY_def reg_def irt_codes Let_def)
        have f: "lock_env t = e" "max_points t = max_points ?s" by (subst t(3), simp add: free(4))+
        have wf': "index_wf (h_shm h')"
          unfolding d(2) irt_seqlock_write_end_def by (rule index_wf_frame(3) [OF t(4)])
        have pts: "points (h_shm h') = (points ?s)[unat pid := ?p\<lparr>pt_name := []\<rparr>]"
          by (simp add: d(2) irt_seqlock_write_end_def free(4))
        have "name_map (h_shm h') = (name_map ?s)(pkey ?p := None)"
          by (rule name_map_clear [OF wf wf' pts]) (use there False pl in \<open>simp_all add: reg_def word_less_nat_alt not_le\<close>)
        moreover have "delete_error ?s part pid = 0" using False free(1) there by (simp add: delete_error_def)
        moreover have "dir_inv N h'"
          using inv wf' d(2,3) f(2) free(2) add_two_even [OF even]
          by (simp add: dir_inv_def irt_seqlock_write_end_def)
        ultimately show ?thesis
          using d f(1) free(5) by (simp add: dir_map_def quiet_handle_def irt_seqlock_write_end_def)
      qed
    qed
  qed
qed

section \<open>Renaming\<close>

definition rename_error :: "shm \<Rightarrow> u32 \<Rightarrow> u32 \<Rightarrow> string \<Rightarrow> int" where
  "rename_error s part pid name =
     (if name = [] \<or> max_points s \<le> pid then INDURTDB_ERR_ARG
      else if \<exists>j. name_map s (part, name) = Some j \<and> j \<noteq> pid then INDURTDB_ERR_ARG
      else if \<not> lockable 3 s then INDURTDB_ERR_BUSY
      else if \<not> reg (points s ! unat pid) \<or> partition (points s ! unat pid) \<noteq> part then INDURTDB_ERR_NOT_FOUND
      else 0)"

lemma rename_body_outcome:
  assumes inv: "dir_inv N h" and name: "name \<noteq> []" "length name \<le> 63" and pid: "pid < N"
    and nodup: "\<And>j. name_map (h_shm h) (part, name) = Some j \<Longrightarrow> j = pid"
    and ren: "rename_body h part pid name = (rc, h')"
  shows "rc = rename_error (h_shm h) part pid name \<and> dir_inv N h' \<and> (quiet_handle h \<longrightarrow> quiet_handle h') \<and>
    dir_map h' = (if rc = 0
      then (dir_map h)(pkey (points (h_shm h) ! unat pid) := None, (part, name) \<mapsto> pid) else dir_map h)"
proof -
  let ?s = "h_shm h" and ?p = "points (h_shm h) ! unat pid"
  note init = dir_invD(1) [OF inv] and wf = dir_invD(2) [OF inv] and even = dir_invD(5) [OF inv]
  have pl: "unat pid < length (points ?s)" and inr: "\<not> max_points ?s \<le> pid"
    using dir_invD(3,6) [OF inv] pid by (simp_all add: word_less_nat_alt not_le)
  have err: "rename_error ?s part pid name =
      (if \<not> lockable 3 ?s then INDURTDB_ERR_BUSY
       else if \<not> reg ?p \<or> partition ?p \<noteq> part then INDURTDB_ERR_NOT_FOUND else 0)"
    using name(1) inr nodup by (auto simp: rename_error_def)
  obtain seq0 s1 where r: "lock_retry 3 ?s 0 = (seq0, s1)" by (cases "lock_retry 3 ?s 0")
  from r show ?thesis
  proof (cases rule: lock_cases)
    case (held e)
    then have d: "rc = INDURTDB_ERR_BUSY" "h_shm h' = ?s\<lparr>lock_env := e\<rparr>" "initialized h' = initialized h"
      using ren r by (auto simp: rename_body_def IRT_SEQLOCK_MAX_RETRY_def)
    show ?thesis
      using held d dir_inv_frame [OF inv d(3), of e] by (simp add: err quiet_handle_def irt_codes)
  next
    case (free e)
    let ?s2 = "?s\<lparr>lock_env := e, write_seq := write_seq ?s + 2\<rparr>"
    show ?thesis
    proof (cases "\<not> reg ?p \<or> partition ?p \<noteq> part")
      case True
      then have d: "rc = INDURTDB_ERR_NOT_FOUND" "h_shm h' = ?s2" "initialized h' = initialized h"
        using ren r free(1-4)
        by (auto simp: rename_body_def IRT_SEQLOCK_MAX_RETRY_def reg_def irt_seqlock_write_end_def Let_def
            split: if_splits)
      show ?thesis
        using True free(1,5) d dir_inv_frame [OF inv d(3), of e] by (simp add: err quiet_handle_def irt_codes)
    next
      case there: False
      have e0: "rename_error ?s part pid name = 0" using free(1) there by (simp add: err)
      have regs: "unat pid \<in> reg_ids (points ?s)" using there pl by (simp add: reg_ids_def)
      have key: "pkey ?p = (part, pt_name ?p)" using there by (simp add: pkey_def)
      have old: "name_map ?s (part, pt_name ?p) = Some pid"
        using index_wf_name_map_iff [OF wf] regs key by simp
      have len: "length (pt_name ?p) \<le> 63"
        using index_wf_ex_parts(3) [OF dir_invD(7) [OF inv] pl] .
      show ?thesis
      proof (cases "pt_name ?p = name")
        case True
        then have d: "rc = 0" "h_shm h' = ?s2" "initialized h' = initialized h"
          using ren r free(1-4) there
          by (auto simp: rename_body_def IRT_SEQLOCK_MAX_RETRY_def reg_def irt_seqlock_write_end_def irt_codes Let_def)
        have "(dir_map h)(pkey ?p := None, (part, name) \<mapsto> pid) = dir_map h"
          using old key True by (auto simp: dir_map_def fun_eq_iff)
        then show ?thesis
          using e0 free(5) d dir_inv_frame [OF inv d(3), of e] by (simp add: quiet_handle_def)
      next
        case new: False
        have "name_map ?s (part, name) = None"
        proof (rule ccontr)
          assume "name_map ?s (part, name) \<noteq> None"
          then have "name_map ?s (part, name) = Some pid" using nodup by auto
          then show False using index_wf_name_map_iff [OF wf] key new by simp
        qed
        then have fresh: "pkey (points s1 ! i) \<noteq> (part, name)" if "i \<in> reg_ids (points s1)" for i
          using that free(4) by (simp add: name_map_eq_None_iff)
        have wf1: "index_wf s1" unfolding free(4) by (rule index_wf_frame(2) [OF wf])
        obtain t u where t: "irt_index_insert_locked s1 part name pid = (0, t)"
          "irt_index_remove_locked t part (pt_name ?p) = (0, u)"
          "points t = points s1" "points u = points s1"
          "u = s1\<lparr>slots := slots u, index_count := index_count u\<rparr>"
          "index_wf (u\<lparr>points := (points s1)[unat pid := (points s1 ! unat pid)\<lparr>pt_name := name\<rparr>]\<rparr>)"
          by (rule index_rename_wf [OF wf1 _ _ name fresh])
             (use regs key free(4) in simp_all)
        let ?v = "u\<lparr>points := (points s1)[unat pid := (points s1 ! unat pid)\<lparr>pt_name := name\<rparr>]\<rparr>"
        have d: "rc = 0" "h_shm h' = irt_seqlock_write_end ?v seq0" "initialized h' = initialized h"
          using ren r free(1-4) there t(1-4) new len name(2)
          by (auto simp: rename_body_def IRT_SEQLOCK_MAX_RETRY_def reg_def irt_codes Let_def strncmp_eq_short)
        have f: "lock_env u = e" "max_points u = max_points ?s" by (subst t(5), simp add: free(4))+
        have wf': "index_wf (h_shm h')"
          unfolding d(2) irt_seqlock_write_end_def by (rule index_wf_frame(3) [OF t(6)])
        have pts: "points (h_shm h') = (points ?s)[unat pid := ?p\<lparr>pt_name := name\<rparr>]"
          by (simp add: d(2) irt_seqlock_write_end_def free(4))
        have "name_map (h_shm h') = (name_map ?s)(pkey ?p := None, pkey (?p\<lparr>pt_name := name\<rparr>) \<mapsto> pid)"
          by (rule name_map_rename [OF wf wf' pts regs]) (simp add: reg_def name(1))
        moreover have "pkey (?p\<lparr>pt_name := name\<rparr>) = (part, name)" using there by (simp add: pkey_def)
        moreover have "dir_inv N h'"
          using inv wf' d(2,3) f(2) free(2) add_two_even [OF even]
          by (simp add: dir_inv_def irt_seqlock_write_end_def)
        ultimately show ?thesis
          using d f(1) free(5) e0 by (simp add: dir_map_def quiet_handle_def irt_seqlock_write_end_def)
      qed
    qed
  qed
qed

lemma rename_outcome:
  assumes inv: "dir_inv N h" and len: "length name \<le> 63" and d: "d < 16"
    and ren: "indurtdb_h_rename_point_in d h part pid name = (rc, h')"
  shows "rc = rename_error (h_shm h) part pid name \<and> dir_inv N h' \<and> (quiet_handle h \<longrightarrow> quiet_handle h') \<and>
    dir_map h' = (if rc = 0
      then (dir_map h)(pkey (points (h_shm h) ! unat pid) := None, (part, name) \<mapsto> pid) else dir_map h)"
proof -
  let ?s = "h_shm h"
  obtain lrc ex where l: "irt_index_lookup ?s d part name = (lrc, ex)" by (cases "irt_index_lookup ?s d part name")
  have unf: "(rc, h') =
      (if name = [] then (INDURTDB_ERR_ARG, set_error h ''empty name'')
       else if N \<le> pid then (INDURTDB_ERR_ARG, set_error h ''id out of range'')
       else if lrc = 0 \<and> ex \<noteq> Some pid then (INDURTDB_ERR_ARG, set_error h ''name already exists'')
       else rename_body h part pid name)"
    using ren [symmetric] dir_invD(1,4) [OF inv] l by (simp add: indurtdb_h_rename_point_in_def ensure_h_def)
  have same: "dir_inv N (set_error h m)" "dir_map (set_error h m) = dir_map h"
    "quiet_handle h \<longrightarrow> quiet_handle (set_error h m)" for m
    using inv by (simp_all add: dir_inv_def dir_map_def quiet_handle_def)
  have refused: ?thesis if "h' = set_error h m" "rc = INDURTDB_ERR_ARG"
    "rename_error ?s part pid name = INDURTDB_ERR_ARG" for m
    using that same by (simp add: irt_codes)
  show ?thesis
  proof (cases "name = [] \<or> N \<le> pid")
    case True
    then have "rename_error ?s part pid name = INDURTDB_ERR_ARG"
      using dir_invD(3) [OF inv] by (simp add: rename_error_def)
    then show ?thesis using True unf refused by (auto split: if_splits)
  next
    case False
    then have dup: "(lrc = 0 \<and> ex \<noteq> Some pid) \<longleftrightarrow> (\<exists>j. name_map ?s (part, name) = Some j \<and> j \<noteq> pid)"
      using lookup_cases [OF dir_invD(2) [OF inv] _ len d l] dir_invD(5) [OF inv] by simp
    show ?thesis
    proof (cases "lrc = 0 \<and> ex \<noteq> Some pid")
      case True
      then have "rename_error ?s part pid name = INDURTDB_ERR_ARG"
        using dup by (auto simp: rename_error_def)
      then show ?thesis using True False unf refused by simp
    next
      case nodup: False
      then have "rename_body h part pid name = (rc, h')" using False unf nodup by (auto simp only: if_False simp_thms)
      then show ?thesis
        using False nodup dup by (intro rename_body_outcome [OF inv _ len]) auto
    qed
  qed
qed

section \<open>Creation\<close>

lemma create_outcome:
  assumes inv: "dir_inv N h" and len: "length name \<le> 63" and d: "d < 16"
    and cre: "indurtdb_h_create_point_in d h part pid name ty acc = (rc, h')"
  shows "rc = create_error (h_shm h) part pid name ty acc \<and> dir_inv N h' \<and> (quiet_handle h \<longrightarrow> quiet_handle h') \<and>
      dir_map h' = (if rc = 0 then (dir_map h)((part, name) \<mapsto> pid) else dir_map h)
    \<or> \<not> quiet_handle h \<and> create_error (h_shm h) part pid name ty acc = 0 \<and> rc = INDURTDB_ERR_BUSY \<and>
      (index_wf (h_shm h') \<and> dir_map h' = dir_map h \<or> index_wf_ex {unat pid} (h_shm h'))"
proof -
  let ?s = "h_shm h"
  note wf = dir_invD(2) [OF inv]
  from create_checks [OF wf dir_invD(1) [OF inv] len d, of part pid ty acc] show ?thesis
  proof (elim disjE exE conjE)
    fix m
    assume "create_error ?s part pid name ty acc = INDURTDB_ERR_ARG"
      "indurtdb_h_create_point_in d h part pid name ty acc = (INDURTDB_ERR_ARG, set_error h m)"
    then show ?thesis using cre inv by (auto simp: dir_inv_def dir_map_def quiet_handle_def irt_codes)
  next
    assume b: "indurtdb_h_create_point_in d h part pid name ty acc = create_body h part pid name ty acc"
      and name: "name \<noteq> []" and pid: "pid < max_points ?s"
      and nodup: "write_seq ?s AND 1 = 0 \<longrightarrow> (\<forall>j. name_map ?s (part, name) = Some j \<longrightarrow> j = pid)"
      and err: "create_error ?s part pid name ty acc =
        (if \<not> lockable 3 ?s then INDURTDB_ERR_BUSY else if reg (points ?s ! unat pid) then INDURTDB_ERR_FULL else 0)"
    have pl: "unat pid < length (points ?s)"
      using pid dir_invD(3,6) [OF inv] by (simp add: word_less_nat_alt)
    have fresh: "write_seq ?s AND 1 = 0 \<and> \<not> reg (points ?s ! unat pid) \<longrightarrow> name_map ?s (part, name) = None"
    proof (rule impI, rule ccontr)
      assume unreg: "write_seq ?s AND 1 = 0 \<and> \<not> reg (points ?s ! unat pid)"
      assume "name_map ?s (part, name) \<noteq> None"
      then have "name_map ?s (part, name) = Some pid" using nodup dir_invD(5) [OF inv] by auto
      then show False using unreg index_wf_name_map_iff [OF wf] by (simp add: reg_ids_def)
    qed
    have c: "create_body h part pid name ty acc = (rc, h')" using b cre by simp
    from wf name len pid fresh c show ?thesis
    proof (cases rule: create_body_outcome)
      case (busy e)
      then show ?thesis
        using err dir_inv_frame [OF inv busy(4), of e] lockable_def by (auto simp: quiet_handle_def irt_codes dir_invD(5) [OF inv])
    next
      case (full e)
      then show ?thesis
        using err dir_inv_frame [OF inv full(5), of e] by (auto simp: quiet_handle_def irt_codes)
    next
      case ok
      have "name_map (h_shm h') = (name_map ?s)(pkey (created_point (points ?s ! unat pid) part name ty acc) \<mapsto> pid)"
        by (rule name_map_set [OF wf ok(4,5) pl]) (use name ok(2) in \<open>simp_all add: reg_def created_point_def\<close>)
      then show ?thesis
        using ok err inv add_two_even [of "write_seq ?s"] add_two_even [of "write_seq ?s + 2"]
        by (auto simp: dir_inv_def dir_map_def quiet_handle_def created_point_def pkey_def)
    next
      case lost
      have "name_map (h_shm h') = name_map ?s" if "index_wf (h_shm h')"
        "points (h_shm h') = (points ?s)[unat pid :=
          (created_point (points ?s ! unat pid) part name ty acc)\<lparr>pt_name := []\<rparr>]"
        by (rule name_map_unreg_update [OF wf that]) (use lost(2) in \<open>simp_all add: reg_def\<close>)
      then show ?thesis
        using lost err by (auto simp: dir_map_def quiet_handle_def irt_codes)
    qed
  qed
qed

section \<open>The contracts\<close>

definition demo_handle :: indurtdb where
  "demo_handle = \<lparr>h_shm = fresh_shm 4 1 7, h_sub = irt_sub_init, initialized = True, h_owner_pid = 7,
     delta_fd = -1, default_partition = 0, delta_file = [], delta_env = [], last_error = []\<rparr>"

lemma demo_handle_inv: "dir_inv 4 demo_handle" "quiet_handle demo_handle" "dir_map demo_handle = Map.empty"
  by (simp_all add: dir_inv_def quiet_handle_def dir_map_def demo_handle_def fresh_shm_fields fresh_index_wf
      name_map_eq_None_iff reg_ids_def fun_eq_iff zero_point_def reg_def)

text \<open>The same handle after the creation of point 2, and what it holds.\<close>

definition demo_handle1 :: indurtdb where
  "demo_handle1 = snd (indurtdb_h_create_point_in 3 demo_handle 9 2 ''pump'' 1 3)"

lemma demo_create_error: "create_error (h_shm demo_handle) 9 2 ''pump'' 1 3 = 0"
  using demo_handle_inv(3)
  by (simp add: create_error_def demo_handle_def fresh_shm_fields dir_map_def lockable_def reg_def zero_point_def)

lemma dir_map_point:
  assumes "dir_inv N h" "dir_map h (part, name) = Some pid"
  shows "reg (points (h_shm h) ! unat pid)" "partition (points (h_shm h) ! unat pid) = part"
    "pt_name (points (h_shm h) ! unat pid) = name" "pid < N"
  using index_wf_name_map_iff [OF dir_invD(2) [OF assms(1)], of "(part, name)" pid] assms(2) dir_invD(6) [OF assms(1)]
  by (simp_all add: dir_map_def reg_ids_def pkey_def word_less_nat_alt)

lemma demo_handle1: "dir_inv 4 demo_handle1" "quiet_handle demo_handle1" "dir_map demo_handle1 = [(9, ''pump'') \<mapsto> 2]"
proof -
  obtain rc h' where c: "indurtdb_h_create_point_in 3 demo_handle 9 2 ''pump'' 1 3 = (rc, h')"
    by (cases "indurtdb_h_create_point_in 3 demo_handle 9 2 ''pump'' 1 3")
  have "rc = 0 \<and> dir_inv 4 h' \<and> quiet_handle h' \<and> dir_map h' = [(9, ''pump'') \<mapsto> 2]"
    using create_outcome [OF demo_handle_inv(1) _ _ c] demo_create_error demo_handle_inv by simp
  then show "dir_inv 4 demo_handle1" "quiet_handle demo_handle1" "dir_map demo_handle1 = [(9, ''pump'') \<mapsto> 2]"
    by (simp_all add: demo_handle1_def c)
qed

lemmas demo_point = dir_map_point [OF demo_handle1(1), of 9 "''pump''" 2, unfolded demo_handle1(3), simplified]

text \<open>
  C4. Creating a point refines insertion into the abstract map. On a well-formed directory of a
  handle, with a name of at most 63 bytes, \<open>indurtdb_h_create_point_in\<close> returns exactly the code of
  its contract (ARG for an empty name, a bad type or access, an id out of range or a name that
  another id of the partition has; BUSY when the three attempts fail; FULL when the id is taken),
  keeps the invariant of the name index, and maps (partition, name) to the id when it returns 0 and
  leaves the map as it was otherwise. The exception is contention between the registration and the
  indexing: then BUSY is returned and either the registration was rolled back or the point stays
  registered without an index slot.
\<close>

theorem create_point_refines_insert:
  assumes "dir_inv N h" "length name \<le> 63" "d < 16"
  shows "case indurtdb_h_create_point_in d h part pid name ty acc of (rc, h') \<Rightarrow>
      rc = create_error (h_shm h) part pid name ty acc \<and> dir_inv N h' \<and> (quiet_handle h \<longrightarrow> quiet_handle h') \<and>
      dir_map h' = (if rc = 0 then (dir_map h)((part, name) \<mapsto> pid) else dir_map h)
    \<or> \<not> quiet_handle h \<and> create_error (h_shm h) part pid name ty acc = 0 \<and> rc = INDURTDB_ERR_BUSY \<and>
      (index_wf (h_shm h') \<and> dir_map h' = dir_map h \<or> index_wf_ex {unat pid} (h_shm h'))"
  by (cases "indurtdb_h_create_point_in d h part pid name ty acc")
     (use create_outcome [OF assms] in simp)

theorem create_point_refines_insert_witness:
  "dir_map (snd (indurtdb_h_create_point_in 3 demo_handle 9 2 ''pump'' 1 3)) = [(9, ''pump'') \<mapsto> 2]"
  using create_point_refines_insert [of 4 demo_handle "''pump''" 3 9 2 1 3] demo_handle_inv demo_create_error
  by (auto split: prod.splits)

text \<open>
  C5. Deleting a point refines deletion from the abstract map, whatever writers interfere: the
  return code is the one of the contract (ARG, BUSY, NOT_FOUND for a free slot or another partition),
  the invariant of the name index is kept (no slot leaks), and exactly the key of the deleted point
  leaves the map.
\<close>

theorem delete_point_refines_remove:
  assumes "dir_inv N h"
  shows "case indurtdb_h_delete_point_in h part pid of (rc, h') \<Rightarrow>
    rc = delete_error (h_shm h) part pid \<and> dir_inv N h' \<and> (quiet_handle h \<longrightarrow> quiet_handle h') \<and>
    dir_map h' = (if rc = 0 then (dir_map h)(pkey (points (h_shm h) ! unat pid) := None) else dir_map h)"
  by (cases "indurtdb_h_delete_point_in h part pid") (use delete_outcome [OF assms] in simp)

theorem delete_point_refines_remove_witness:
  "fst (indurtdb_h_delete_point_in demo_handle1 9 2) = 0 \<and>
   dir_map (snd (indurtdb_h_delete_point_in demo_handle1 9 2)) = Map.empty"
proof -
  have "delete_error (h_shm demo_handle1) 9 2 = 0"
    using demo_point demo_handle1(2) dir_invD(3,5) [OF demo_handle1(1)]
    by (simp add: delete_error_def quiet_handle_def lockable_def)
  then show ?thesis
    using delete_point_refines_remove [of 4 demo_handle1 9 2] demo_handle1 demo_point
    by (auto simp: pkey_def split: prod.splits)
qed

text \<open>
  C6. Renaming a point moves its key: the new (partition, name) is mapped to the id, the old key
  leaves the map, no other key changes, and the index invariant holds after it although the new slot
  is placed before the old one is removed, also when both names have the same hash.
\<close>

theorem rename_point_refines_rekey:
  assumes "dir_inv N h" "length name \<le> 63" "d < 16"
  shows "case indurtdb_h_rename_point_in d h part pid name of (rc, h') \<Rightarrow>
    rc = rename_error (h_shm h) part pid name \<and> dir_inv N h' \<and> (quiet_handle h \<longrightarrow> quiet_handle h') \<and>
    dir_map h' = (if rc = 0
      then (dir_map h)(pkey (points (h_shm h) ! unat pid) := None, (part, name) \<mapsto> pid) else dir_map h)"
  by (cases "indurtdb_h_rename_point_in d h part pid name") (use rename_outcome [OF assms] in simp)

theorem rename_point_refines_rekey_witness:
  "dir_map (snd (indurtdb_h_rename_point_in 2 demo_handle1 9 2 ''valve'')) = [(9, ''valve'') \<mapsto> 2]"
proof -
  have "rename_error (h_shm demo_handle1) 9 2 ''valve'' = 0"
    using demo_point demo_handle1(2,3) dir_invD(3,5) [OF demo_handle1(1)]
    by (simp add: rename_error_def quiet_handle_def lockable_def dir_map_def)
  then show ?thesis
    using rename_point_refines_rekey [of 4 demo_handle1 "''valve''" 2 9 2] demo_handle1 demo_point
    by (auto simp: pkey_def split: prod.splits)
qed

section \<open>Command sequences\<close>

datatype dir_cmd =
    Create nat u32 u32 string int int
  | Delete u32 u32
  | Rename nat u32 u32 string
  | Find nat u32 string

primrec dir_step :: "dir_cmd \<Rightarrow> indurtdb \<Rightarrow> (int \<times> u32 option) \<times> indurtdb" where
  "dir_step (Create d part pid name ty acc) h =
     (let (rc, h) = indurtdb_h_create_point_in d h part pid name ty acc in ((rc, None), h))"
| "dir_step (Delete part pid) h = (let (rc, h) = indurtdb_h_delete_point_in h part pid in ((rc, None), h))"
| "dir_step (Rename d part pid name) h =
     (let (rc, h) = indurtdb_h_rename_point_in d h part pid name in ((rc, None), h))"
| "dir_step (Find d part name) h = indurtdb_h_find_by_name_in d h part name"

text \<open>The specification: a finite map, \<open>N\<close> ids, no hash table, no locks.\<close>

definition owns :: "(u32 \<times> string \<Rightarrow> u32 option) \<Rightarrow> u32 \<Rightarrow> u32 \<Rightarrow> bool" where
  "owns m part pid \<longleftrightarrow> (\<exists>name. m (part, name) = Some pid)"

definition without :: "(u32 \<times> string \<Rightarrow> u32 option) \<Rightarrow> u32 \<Rightarrow> u32 \<times> string \<Rightarrow> u32 option" where
  "without m pid = (\<lambda>k. if m k = Some pid then None else m k)"

lemma owns_upd [simp]: "owns (m((part, name) \<mapsto> pid)) part pid"
  by (auto simp: owns_def)

lemma without_upd [simp]:
  "without (m(k \<mapsto> pid)) pid = (without m pid)(k := None)" "without Map.empty pid = Map.empty"
  by (auto simp: without_def fun_eq_iff)

primrec dir_spec :: "u32 \<Rightarrow> dir_cmd \<Rightarrow> (u32 \<times> string \<Rightarrow> u32 option) \<Rightarrow>
    (int \<times> u32 option) \<times> (u32 \<times> string \<Rightarrow> u32 option)" where
  "dir_spec N (Create d part pid name ty acc) m =
     (if name = [] \<or> ty < 0 \<or> 6 < ty \<or> acc \<notin> {1, 3} \<or> N \<le> pid \<or> (\<exists>j. m (part, name) = Some j \<and> j \<noteq> pid)
      then ((INDURTDB_ERR_ARG, None), m)
      else if \<exists>k. m k = Some pid then ((INDURTDB_ERR_FULL, None), m)
      else ((0, None), m((part, name) \<mapsto> pid)))"
| "dir_spec N (Delete part pid) m =
     (if N \<le> pid then ((INDURTDB_ERR_ARG, None), m)
      else if \<not> owns m part pid then ((INDURTDB_ERR_NOT_FOUND, None), m)
      else ((0, None), without m pid))"
| "dir_spec N (Rename d part pid name) m =
     (if name = [] \<or> N \<le> pid \<or> (\<exists>j. m (part, name) = Some j \<and> j \<noteq> pid) then ((INDURTDB_ERR_ARG, None), m)
      else if \<not> owns m part pid then ((INDURTDB_ERR_NOT_FOUND, None), m)
      else ((0, None), (without m pid)((part, name) \<mapsto> pid)))"
| "dir_spec N (Find d part name) m =
     (if name = [] then ((INDURTDB_ERR_ARG, None), m)
      else case m (part, name) of Some j \<Rightarrow> ((0, Some j), m) | None \<Rightarrow> ((INDURTDB_ERR_NOT_FOUND, None), m))"

text \<open>Names that fit the field, reads disturbed less often than they retry.\<close>

primrec dir_admissible :: "dir_cmd \<Rightarrow> bool" where
  "dir_admissible (Create d part pid name ty acc) = (length name \<le> 63 \<and> d < 16)"
| "dir_admissible (Delete part pid) = True"
| "dir_admissible (Rename d part pid name) = (length name \<le> 63 \<and> d < 16)"
| "dir_admissible (Find d part name) = (length name \<le> 63 \<and> d < 16)"

lemma reg_iff_range:
  assumes "dir_inv N h" "pid < N"
  shows "reg (points (h_shm h) ! unat pid) \<longleftrightarrow> (\<exists>k. dir_map h k = Some pid)"
  using index_wf_name_map_iff [OF dir_invD(2) [OF assms(1)]] dir_invD(6) [OF assms(1)] assms(2)
  by (simp add: dir_map_def reg_ids_def word_less_nat_alt)

lemma owns_iff:
  assumes "dir_inv N h" "pid < N"
  shows "owns (dir_map h) part pid \<longleftrightarrow>
    reg (points (h_shm h) ! unat pid) \<and> partition (points (h_shm h) ! unat pid) = part"
  using index_wf_name_map_iff [OF dir_invD(2) [OF assms(1)]] dir_invD(6) [OF assms(1)] assms(2)
  by (auto simp: owns_def dir_map_def reg_ids_def word_less_nat_alt pkey_def)

lemma without_eq:
  assumes "dir_inv N h" "pid < N" "reg (points (h_shm h) ! unat pid)"
  shows "without (dir_map h) pid = (dir_map h)(pkey (points (h_shm h) ! unat pid) := None)"
  using index_wf_name_map_iff [OF dir_invD(2) [OF assms(1)]] dir_invD(6) [OF assms(1)] assms(2,3)
  by (auto simp: without_def dir_map_def reg_ids_def word_less_nat_alt fun_eq_iff)

lemma quiet_lockable: "dir_inv N h \<Longrightarrow> quiet_handle h \<Longrightarrow> lockable 3 (h_shm h)"
  by (simp add: lockable_def quiet_handle_def dir_inv_def)

lemma dir_step_refines:
  assumes inv: "dir_inv N h \<and> quiet_handle h" and adm: "dir_admissible c"
  shows "dir_inv N (snd (dir_step c h)) \<and> quiet_handle (snd (dir_step c h))"
    "dir_spec N c (dir_map h) = (fst (dir_step c h), dir_map (snd (dir_step c h)))"
proof -
  have I: "dir_inv N h" and Q: "quiet_handle h" and L: "lockable 3 (h_shm h)"
    using inv quiet_lockable by auto
  note mp = dir_invD(3) [OF I] and even = dir_invD(5) [OF I]
  have "(dir_inv N (snd (dir_step c h)) \<and> quiet_handle (snd (dir_step c h)))
    \<and> dir_spec N c (dir_map h) = (fst (dir_step c h), dir_map (snd (dir_step c h)))"
  proof (cases c)
    case (Create d part pid name ty acc)
    obtain rc h' where s: "indurtdb_h_create_point_in d h part pid name ty acc = (rc, h')"
      by (cases "indurtdb_h_create_point_in d h part pid name ty acc")
    then have o: "rc = create_error (h_shm h) part pid name ty acc" "dir_inv N h'" "quiet_handle h'"
      "dir_map h' = (if rc = 0 then (dir_map h)((part, name) \<mapsto> pid) else dir_map h)"
      using create_outcome [OF I _ _ s] adm Q by (auto simp: Create)
    have "create_error (h_shm h) part pid name ty acc =
        fst (fst (dir_spec N (Create d part pid name ty acc) (dir_map h)))"
    proof (cases "pid < N")
      case True
      then show ?thesis
        using L mp even reg_iff_range [OF I True] by (auto simp: create_error_def dir_map_def)
    qed (simp add: create_error_def mp not_less)
    then show ?thesis using o s by (simp add: Create irt_codes split: if_splits)
  next
    case (Delete part pid)
    obtain rc h' where s: "indurtdb_h_delete_point_in h part pid = (rc, h')"
      by (cases "indurtdb_h_delete_point_in h part pid")
    note o = delete_outcome [OF I s]
    show ?thesis
      using o Q L mp s owns_iff [OF I, of pid part] without_eq [OF I, of pid]
      by (auto simp: Delete delete_error_def irt_codes not_le)
  next
    case (Rename d part pid name)
    obtain rc h' where s: "indurtdb_h_rename_point_in d h part pid name = (rc, h')"
      by (cases "indurtdb_h_rename_point_in d h part pid name")
    have o: "rc = rename_error (h_shm h) part pid name" "dir_inv N h'" "quiet_handle h'"
      "dir_map h' = (if rc = 0 then (dir_map h)(pkey (points (h_shm h) ! unat pid) := None, (part, name) \<mapsto> pid)
                     else dir_map h)"
      using rename_outcome [OF I _ _ s] adm Q by (auto simp: Rename)
    show ?thesis
      using o L mp s owns_iff [OF I, of pid part] without_eq [OF I, of pid]
      by (auto simp: Rename rename_error_def dir_map_def irt_codes not_le)
  next
    case (Find d part name)
    have "irt_index_lookup (h_shm h) d part name =
        (case dir_map h (part, name) of Some j \<Rightarrow> (0, Some j) | None \<Rightarrow> (INDURTDB_ERR_NOT_FOUND, None))"
      if "name \<noteq> []"
      using irt_index_lookup_correct [OF dir_invD(2) [OF I] that] adm even
      by (simp add: Find dir_map_def stable_window_iff)
    then show ?thesis
      using I Q by (auto simp: Find indurtdb_h_find_by_name_in_def dir_inv_def quiet_handle_def dir_map_def
          irt_codes split: option.splits)
  qed
  then show "dir_inv N (snd (dir_step c h)) \<and> quiet_handle (snd (dir_step c h))"
    "dir_spec N c (dir_map h) = (fst (dir_step c h), dir_map (snd (dir_step c h)))" by blast+
qed

interpretation dir: refinement dir_step "dir_spec N" "\<lambda>h. dir_inv N h \<and> quiet_handle h" dir_map dir_admissible
  for N
  by unfold_locales (use dir_step_refines in blast)+

text \<open>
  C1. Any sequence of creations, deletions, renamings and lookups on a handle behaves as the same
  sequence on a plain finite map: the same return codes, the same ids found, and at the end the map
  that the specification computes; the index invariant holds throughout.
\<close>

theorem directory_simulation:
  assumes "dir_inv N h" "quiet_handle h" "list_all dir_admissible cs"
  shows "run (dir_spec N) cs (dir_map h) = (fst (run dir_step cs h), dir_map (snd (run dir_step cs h)))
    \<and> dir_inv N (snd (run dir_step cs h))"
  using dir.run_spec [of N h cs] dir.run_inv [of N h cs] assms by simp

definition demo_cmds :: "dir_cmd list" where
  "demo_cmds = [Create 0 1 2 ''pump'' 1 3, Find 3 1 ''pump'', Rename 0 1 2 ''valve'', Find 0 1 ''pump'',
     Find 0 1 ''valve'', Delete 1 2, Find 1 1 ''valve'']"

lemma demo_spec: "fst (run (dir_spec 4) demo_cmds Map.empty) =
    [(0, None), (0, Some 2), (0, None), (INDURTDB_ERR_NOT_FOUND, None), (0, Some 2), (0, None),
     (INDURTDB_ERR_NOT_FOUND, None)]"
  by (simp add: demo_cmds_def)

theorem directory_simulation_witness:
  "fst (run dir_step demo_cmds demo_handle) =
    [(0, None), (0, Some 2), (0, None), (INDURTDB_ERR_NOT_FOUND, None), (0, Some 2), (0, None),
     (INDURTDB_ERR_NOT_FOUND, None)]"
proof -
  have "list_all dir_admissible demo_cmds" by (simp add: demo_cmds_def)
  then show ?thesis
    using directory_simulation [OF demo_handle_inv(1,2), of demo_cmds] demo_spec
    by (simp add: demo_handle_inv(3))
qed

end
