(* ===== verification/Ring.thy ===== *)
theory Ring
  imports IRT_Prelude
begin

text \<open>
  Circular buffers: an array read from a start index modulo its length. The lemmas relate writing
  at the end, removing at the front and overwriting the oldest entry to the list of the entries in
  order; the locale is the contract of a log that keeps the newest entries.
\<close>

definition window :: "'a list \<Rightarrow> nat \<Rightarrow> nat \<Rightarrow> 'a list" where
  "window arr start n = map (\<lambda>i. arr ! ((start + i) mod length arr)) [0..<n]"

lemma window_length [simp]: "length (window arr start n) = n"
  by (simp add: window_def)

lemma window_0 [simp]: "window arr start 0 = []"
  by (simp add: window_def)

lemma window_nth: "i < n \<Longrightarrow> window arr start n ! i = arr ! ((start + i) mod length arr)"
  by (simp add: window_def)

lemma window_start_mod: "window arr (start mod length arr) n = window arr start n"
  by (simp add: window_def mod_simps)

lemma window_update_outside:
  assumes "n < length arr"
  shows "window (arr[(start + n) mod length arr := x]) start n = window arr start n"
proof (rule nth_equalityI)
  fix i assume i: "i < length (window (arr[(start + n) mod length arr := x]) start n)"
  then have "(start + i) mod length arr \<noteq> (start + n) mod length arr"
    using mod_add_inj [of start i "length arr" n] assms by auto
  then show "window (arr[(start + n) mod length arr := x]) start n ! i = window arr start n ! i"
    using i by (simp add: window_nth)
qed simp

lemma window_update_inside:
  assumes "n \<le> length arr" "i < n"
  shows "window (arr[(start + i) mod length arr := x]) start n = (window arr start n)[i := x]"
proof (rule nth_equalityI)
  fix j assume "j < length (window (arr[(start + i) mod length arr := x]) start n)"
  then have j: "j < n" by simp
  show "window (arr[(start + i) mod length arr := x]) start n ! j = (window arr start n)[i := x] ! j"
  proof (cases "j = i")
    case True
    have "0 < length arr" using assms by linarith
    then have "(start + i) mod length arr < length arr" by simp
    then show ?thesis using assms j True by (simp add: window_nth)
  next
    case False
    then have "(start + i) mod length arr \<noteq> (start + j) mod length arr"
      using mod_add_inj [of start i "length arr" j] assms j by auto
    then show ?thesis using assms j False by (simp add: window_nth)
  qed
qed simp

lemma window_push:
  assumes "n < length arr"
  shows "window (arr[(start + n) mod length arr := x]) start (Suc n) = window arr start n @ [x]"
proof -
  have "0 < length arr" using assms by (rule le_less_trans [OF le0])
  then have "(start + n) mod length arr < length arr" by simp
  then have "window (arr[(start + n) mod length arr := x]) start (Suc n)
      = window (arr[(start + n) mod length arr := x]) start n @ [x]"
    by (simp add: window_def)
  then show ?thesis using window_update_outside [OF assms] by simp
qed

lemma window_pop:
  "0 < n \<Longrightarrow> window arr start n = arr ! (start mod length arr) # window arr (Suc start mod length arr) (n - 1)"
proof -
  assume "0 < n"
  then have "[0..<n] = 0 # map Suc [0..<n - 1]" by (cases n) (simp_all add: upt_conv_Cons map_Suc_upt)
  then show ?thesis by (simp add: window_def mod_simps)
qed

lemma window_overwrite:
  assumes "arr \<noteq> []"
  shows "window (arr[start mod length arr := x]) (Suc start mod length arr) (length arr)
    = tl (window arr start (length arr)) @ [x]"
proof -
  let ?l = "length arr"
  have len: "0 < ?l" using assms by simp
  have pos: "(Suc start mod ?l + (?l - 1)) mod ?l = start mod ?l"
  proof -
    have "(Suc start mod ?l + (?l - 1)) mod ?l = (Suc start + (?l - 1)) mod ?l" by (simp add: mod_simps)
    also have "Suc start + (?l - 1) = start + ?l" using len by simp
    finally show ?thesis by simp
  qed
  have "?l - 1 < ?l" using len by simp
  from window_push [OF this, of "Suc start mod ?l" x, unfolded pos]
  have "window (arr[start mod ?l := x]) (Suc start mod ?l) ?l = window arr (Suc start mod ?l) (?l - 1) @ [x]"
    using len by simp
  then show ?thesis using window_pop [of ?l arr start] len by simp
qed

section \<open>Logs that keep the newest entries\<close>

definition lastn :: "nat \<Rightarrow> 'a list \<Rightarrow> 'a list" where
  "lastn n xs = drop (length xs - n) xs"

lemma lastn_short [simp]: "length xs \<le> n \<Longrightarrow> lastn n xs = xs"
  by (simp add: lastn_def)

lemma lastn_length [simp]: "length (lastn n xs) = min n (length xs)"
  by (auto simp: lastn_def)

lemma lastn_append_one: "length xs = n \<Longrightarrow> 0 < n \<Longrightarrow> lastn n (xs @ [x]) = tl xs @ [x]"
  by (cases xs) (auto simp: lastn_def)

lemma lastn_append: "lastn n (xs @ ys) = drop (length xs + length ys - n) xs @ drop (length ys - n) ys"
  by (cases "n \<le> length ys") (simp_all add: lastn_def)

lemma lastn_lastn_append: "lastn n (lastn n xs @ ys) = lastn n (xs @ ys)"
  unfolding lastn_append by (cases "n \<le> length xs") (auto simp: lastn_def add.commute)

text \<open>\<open>stored e\<close> is what the log keeps of an entry (a text may be cut to its field).\<close>

locale bounded_log =
  fixes emit :: "'e \<Rightarrow> 's \<Rightarrow> 's" and kept :: "'s \<Rightarrow> 'f list" and inv :: "'s \<Rightarrow> bool"
    and stored :: "'e \<Rightarrow> 'f" and cap :: nat
  assumes inv_emit: "inv s \<Longrightarrow> inv (emit e s)"
    and kept_emit: "inv s \<Longrightarrow> kept (emit e s) = lastn cap (kept s @ [stored e])"
begin

lemma emit_all_inv: "inv s \<Longrightarrow> inv (fold emit es s)"
  by (induction es arbitrary: s) (simp_all add: inv_emit)

lemma emit_all:
  "inv s \<Longrightarrow> length (kept s) \<le> cap \<Longrightarrow> kept (fold emit es s) = lastn cap (kept s @ map stored es)"
proof (induction es arbitrary: s)
  case (Cons e es)
  have "kept (fold emit es (emit e s)) = lastn cap (kept (emit e s) @ map stored es)"
    using Cons.prems by (intro Cons.IH) (simp_all add: inv_emit kept_emit)
  also have "\<dots> = lastn cap ((kept s @ [stored e]) @ map stored es)"
    using Cons.prems by (simp only: kept_emit lastn_lastn_append)
  finally show ?case by simp
qed simp

lemma emit_all_fresh: "inv s \<Longrightarrow> kept s = [] \<Longrightarrow> kept (fold emit es s) = lastn cap (map stored es)"
  using emit_all [of s es] by simp

end

end
