(* ===== verification/Rtdbd_Logs.thy ===== *)
theory Rtdbd_Logs
  imports Ring Api
begin

text \<open>
  The observability of the daemon: the audit trail (\<^verbatim>\<open>rtdbd/src/audit.c\<close>), the run-time log
  (\<^verbatim>\<open>rtdbd/src/logbuf.c\<close>), both rings of fixed capacity, and the counters with the health
  classification (\<^verbatim>\<open>rtdbd/src/stats.c\<close>). Clocks are arguments; the console output of the log is
  not modelled.
\<close>

section \<open>The audit trail\<close>

definition RTDBD_AUDIT_CAPACITY :: u32 where "RTDBD_AUDIT_CAPACITY = 256"

record audit_entry =
  ae_pid :: u32
  ae_uid :: u32
  ae_point_id :: u32
  ae_partition :: u32
  ae_ts_ns :: u64

record irt_audit =
  aud_entries :: "audit_entry list"
  aud_head :: u32
  aud_count :: u32

definition zero_audit_entry :: audit_entry where
  "zero_audit_entry = \<lparr>ae_pid = 0, ae_uid = 0, ae_point_id = 0, ae_partition = 0, ae_ts_ns = 0\<rparr>"

definition irt_audit_init :: irt_audit where
  "irt_audit_init =
     \<lparr>aud_entries = replicate (unat RTDBD_AUDIT_CAPACITY) zero_audit_entry, aud_head = 0, aud_count = 0\<rparr>"

definition irt_audit_record :: "u32 \<Rightarrow> u32 \<Rightarrow> u32 \<Rightarrow> u32 \<Rightarrow> u64 \<Rightarrow> irt_audit \<Rightarrow> irt_audit" where
  "irt_audit_record pid uid part point ts a =
     (let e = \<lparr>ae_pid = pid, ae_uid = uid, ae_point_id = point, ae_partition = part, ae_ts_ns = ts\<rparr>;
          a = a\<lparr>aud_entries := (aud_entries a)[unat (aud_head a) := e],
                aud_head := (aud_head a + 1) mod RTDBD_AUDIT_CAPACITY\<rparr>
      in if aud_count a < RTDBD_AUDIT_CAPACITY then a\<lparr>aud_count := aud_count a + 1\<rparr> else a)"

definition irt_audit_dump :: "irt_audit \<Rightarrow> u32 \<Rightarrow> audit_entry list" where
  "irt_audit_dump a cap =
     (if cap = 0 then []
      else
        let n = (if aud_count a < cap then aud_count a else cap);
            start = (aud_head a + RTDBD_AUDIT_CAPACITY - n) mod RTDBD_AUDIT_CAPACITY
        in map (\<lambda>i. aud_entries a ! unat ((start + word_of_nat i) mod RTDBD_AUDIT_CAPACITY)) [0..<unat n])"

section \<open>The run-time log\<close>

definition RTDBD_LOG_CAPACITY :: u32 where "RTDBD_LOG_CAPACITY = 128"
definition RTDBD_LOG_ENTRY_MSG_MAX :: nat where "RTDBD_LOG_ENTRY_MSG_MAX = 116"
definition RTDBD_LOG_INFO :: u8 where "RTDBD_LOG_INFO = 0"
definition RTDBD_LOG_WARN :: u8 where "RTDBD_LOG_WARN = 1"
definition RTDBD_LOG_ERROR :: u8 where "RTDBD_LOG_ERROR = 2"

record log_entry =
  le_ts_ns :: u64
  le_level :: u8
  le_msg :: string

record irt_logbuf =
  log_entries :: "log_entry list"
  log_head :: u32
  log_count :: u32

definition zero_log_entry :: log_entry where
  "zero_log_entry = \<lparr>le_ts_ns = 0, le_level = 0, le_msg = []\<rparr>"

definition irt_logbuf_init :: irt_logbuf where
  "irt_logbuf_init =
     \<lparr>log_entries = replicate (unat RTDBD_LOG_CAPACITY) zero_log_entry, log_head = 0, log_count = 0\<rparr>"

text \<open>\<open>msg\<close> is the formatted text, which \<open>vsnprintf\<close> cuts to the buffer.\<close>

definition irt_logbuf_emit :: "u64 \<Rightarrow> u8 \<Rightarrow> string \<Rightarrow> irt_logbuf \<Rightarrow> irt_logbuf" where
  "irt_logbuf_emit wall level msg b =
     (let e = \<lparr>le_ts_ns = wall, le_level = level, le_msg = strncpy_to (RTDBD_LOG_ENTRY_MSG_MAX - 1) msg\<rparr>;
          b = b\<lparr>log_entries := (log_entries b)[unat (log_head b) := e],
                log_head := (log_head b + 1) mod RTDBD_LOG_CAPACITY\<rparr>
      in if log_count b < RTDBD_LOG_CAPACITY then b\<lparr>log_count := log_count b + 1\<rparr> else b)"

definition irt_logbuf_dump :: "irt_logbuf \<Rightarrow> u32 \<Rightarrow> log_entry list" where
  "irt_logbuf_dump b cap =
     (if cap = 0 then []
      else
        let n = (if log_count b < cap then log_count b else cap);
            start = (if log_count b = RTDBD_LOG_CAPACITY then log_head b else 0)
        in map (\<lambda>i. log_entries b ! unat ((start + word_of_nat i) mod RTDBD_LOG_CAPACITY)) [0..<unat n])"

section \<open>Counters and health\<close>

definition RTDBD_HEALTH_OK :: int where "RTDBD_HEALTH_OK = 0"
definition RTDBD_HEALTH_DEGRADED :: int where "RTDBD_HEALTH_DEGRADED = 1"
definition RTDBD_HEALTH_UNHEALTHY :: int where "RTDBD_HEALTH_UNHEALTHY = 2"

definition RTDBD_DEGRADED_WINDOW_NS :: u64 where "RTDBD_DEGRADED_WINDOW_NS = 60 * 1000000000"

record rtdbd_stats =
  n_writes :: u64
  n_notifies :: u64
  decode_fail :: u64
  write_rejected :: u64
  write_error :: u64
  notify_drop :: u64
  notify_send_fail :: u64
  uptime_ns :: u64
  health :: int
  start_ns :: u64
  last_err_ns :: u64

definition zero_stats :: rtdbd_stats where
  "zero_stats = \<lparr>n_writes = 0, n_notifies = 0, decode_fail = 0, write_rejected = 0, write_error = 0,
     notify_drop = 0, notify_send_fail = 0, uptime_ns = 0, health = 0, start_ns = 0, last_err_ns = 0\<rparr>"

definition rtdbd_stats_note_error :: "u64 \<Rightarrow> rtdbd_stats \<Rightarrow> rtdbd_stats" where
  "rtdbd_stats_note_error now g = g\<lparr>last_err_ns := now\<rparr>"

definition rtdbd_stats_mark_start :: "u64 \<Rightarrow> rtdbd_stats \<Rightarrow> rtdbd_stats" where
  "rtdbd_stats_mark_start now g = g\<lparr>start_ns := now\<rparr>"

definition classify :: "u64 \<Rightarrow> rtdbd_stats \<Rightarrow> int" where
  "classify now g =
     (if last_err_ns g = 0 then RTDBD_HEALTH_OK
      else if now < last_err_ns g then RTDBD_HEALTH_OK
      else if now - last_err_ns g > RTDBD_DEGRADED_WINDOW_NS then RTDBD_HEALTH_OK
      else RTDBD_HEALTH_DEGRADED)"

definition rtdbd_self_check_core :: "u64 \<Rightarrow> indurtdb \<Rightarrow> rtdbd_stats \<Rightarrow> int \<times> indurtdb \<times> rtdbd_stats" where
  "rtdbd_self_check_core now h g =
     (let (core, h) = indurtdb_h_self_check h;
          g = (if core = INDURTDB_HEALTH_UNHEALTHY then g\<lparr>health := RTDBD_HEALTH_UNHEALTHY\<rparr>
               else g\<lparr>health := classify now g\<rparr>);
          g = g\<lparr>uptime_ns := (if start_ns g \<noteq> 0 then now - start_ns g else 0)\<rparr>
      in (health g, h, g))"

definition stats_line :: "string \<Rightarrow> string \<Rightarrow> string" where
  "stats_line label v = label @ '' = '' @ v @ [CHR 0x0A]"

definition rtdbd_stats_dump :: "u64 \<Rightarrow> rtdbd_stats \<Rightarrow> string \<times> rtdbd_stats" where
  "rtdbd_stats_dump now g =
     (let g = g\<lparr>uptime_ns := (if start_ns g \<noteq> 0 then now - start_ns g else 0)\<rparr>;
          u = (\<lambda>x :: u64. dec_digits (unat x))
      in (''# rtdbd stats'' @ [CHR 0x0A]
          @ stats_line ''health           '' (dec_digits (nat (health g)))
          @ stats_line ''uptime_ns        '' (u (uptime_ns g))
          @ stats_line ''n_writes         '' (u (n_writes g))
          @ stats_line ''n_notifies       '' (u (n_notifies g))
          @ stats_line ''decode_fail      '' (u (decode_fail g))
          @ stats_line ''write_rejected   '' (u (write_rejected g))
          @ stats_line ''write_error      '' (u (write_error g))
          @ stats_line ''notify_drop      '' (u (notify_drop g))
          @ stats_line ''notify_send_fail '' (u (notify_send_fail g)), g))"

section \<open>The rings keep the newest entries\<close>

definition audit_inv :: "irt_audit \<Rightarrow> bool" where
  "audit_inv a \<longleftrightarrow> length (aud_entries a) = 256 \<and> aud_head a < 256 \<and> aud_count a \<le> 256"

definition audit_kept :: "irt_audit \<Rightarrow> audit_entry list" where
  "audit_kept a = window (aud_entries a) (unat (aud_head a) + 256 - unat (aud_count a)) (unat (aud_count a))"

definition logbuf_inv :: "irt_logbuf \<Rightarrow> bool" where
  "logbuf_inv b \<longleftrightarrow> length (log_entries b) = 128 \<and> log_head b < 128 \<and> log_count b \<le> 128
     \<and> (log_count b < 128 \<longrightarrow> log_head b = log_count b)"

definition logbuf_kept :: "irt_logbuf \<Rightarrow> log_entry list" where
  "logbuf_kept b = window (log_entries b) (unat (log_head b) + 128 - unat (log_count b)) (unat (log_count b))"

text \<open>One ring step on any array: append below the capacity, overwrite the oldest at it.\<close>

lemma ring_step:
  assumes "h0 < length arr" "n \<le> length arr"
  shows "window (arr[h0 := e]) (Suc h0 mod length arr + length arr - min (Suc n) (length arr)) (min (Suc n) (length arr))
     = lastn (length arr) (window arr (h0 + length arr - n) n @ [e])"
proof (cases "n < length arr")
  case True
  let ?l = "length arr" and ?s = "h0 + length arr - n"
  have m: "min (Suc n) ?l = Suc n" using True by simp
  have pos: "(?s + n) mod ?l = h0" using assms by simp
  have st: "(Suc h0 mod ?l + ?l - Suc n) mod ?l = ?s mod ?l"
  proof (cases "Suc h0 < ?l")
    case False
    then have eq: "Suc h0 = ?l" using assms(1) by simp
    then have "?s = (?l - Suc n) + ?l" using True by linarith
    then have "?s mod ?l = (?l - Suc n) mod ?l" by (simp only: mod_add_self2)
    then show ?thesis using eq by simp
  qed simp
  have "window (arr[h0 := e]) (Suc h0 mod ?l + ?l - Suc n) (Suc n) = window (arr[h0 := e]) ?s (Suc n)"
    using window_start_mod [of "arr[h0 := e]" "Suc h0 mod ?l + ?l - Suc n" "Suc n"]
      window_start_mod [of "arr[h0 := e]" ?s "Suc n"] st by simp
  also have "\<dots> = window arr ?s n @ [e]" using window_push [OF True, of ?s e] pos by simp
  finally show ?thesis using m True by simp
next
  case False
  let ?l = "length arr"
  have n: "n = ?l" and l: "0 < ?l" using False assms by auto
  have "window (arr[h0 := e]) (Suc h0 mod ?l) ?l = tl (window arr h0 ?l) @ [e]"
    using window_overwrite [of arr h0 e] assms(1) l by auto
  then show ?thesis using n l by (simp add: lastn_append_one)
qed

lemma audit_kept_record:
  assumes "audit_inv a"
  shows "audit_inv (irt_audit_record pid uid part point ts a)"
    "audit_kept (irt_audit_record pid uid part point ts a) = lastn 256 (audit_kept a @
       [\<lparr>ae_pid = pid, ae_uid = uid, ae_point_id = point, ae_partition = part, ae_ts_ns = ts\<rparr>])"
proof -
  let ?a = "irt_audit_record pid uid part point ts a"
  let ?e = "\<lparr>ae_pid = pid, ae_uid = uid, ae_point_id = point, ae_partition = part, ae_ts_ns = ts\<rparr>"
  have len: "length (aud_entries a) = 256" and h: "unat (aud_head a) < 256" and c: "unat (aud_count a) \<le> 256"
    using assms by (simp_all add: audit_inv_def word_less_nat_alt word_le_nat_alt)
  have arr: "aud_entries ?a = (aud_entries a)[unat (aud_head a) := ?e]"
    and hd': "unat (aud_head ?a) = Suc (unat (aud_head a)) mod 256"
    and cnt: "unat (aud_count ?a) = min (Suc (unat (aud_count a))) 256"
    using h c by (auto simp: irt_audit_record_def RTDBD_AUDIT_CAPACITY_def Let_def word_less_nat_alt
        unat_mod unat_word_ariths)
  show "audit_inv ?a"
    using len hd' cnt arr by (simp add: audit_inv_def word_less_nat_alt word_le_nat_alt)
  show "audit_kept ?a = lastn 256 (audit_kept a @ [?e])"
    using ring_step [of "unat (aud_head a)" "aud_entries a" "unat (aud_count a)" ?e] len h c
    by (simp add: audit_kept_def arr hd' cnt)
qed

lemma audit_entry_eta:
  "\<lparr>ae_pid = ae_pid e, ae_uid = ae_uid e, ae_point_id = ae_point_id e, ae_partition = ae_partition e,
     ae_ts_ns = ae_ts_ns e\<rparr> = (e :: audit_entry)"
  by simp

interpretation audit: bounded_log
  "\<lambda>e. irt_audit_record (ae_pid e) (ae_uid e) (ae_partition e) (ae_point_id e) (ae_ts_ns e)"
  audit_kept audit_inv "\<lambda>e. e" 256
  by unfold_locales (simp_all add: audit_kept_record audit_entry_eta)

lemma logbuf_kept_emit:
  assumes "logbuf_inv b"
  shows "logbuf_inv (irt_logbuf_emit wall level msg b)"
    "logbuf_kept (irt_logbuf_emit wall level msg b) = lastn 128 (logbuf_kept b @
       [\<lparr>le_ts_ns = wall, le_level = level, le_msg = strncpy_to 115 msg\<rparr>])"
proof -
  let ?b = "irt_logbuf_emit wall level msg b"
  let ?e = "\<lparr>le_ts_ns = wall, le_level = level, le_msg = strncpy_to 115 msg\<rparr>"
  have len: "length (log_entries b) = 128" and h: "unat (log_head b) < 128" and c: "unat (log_count b) \<le> 128"
    and hc: "unat (log_count b) < 128 \<Longrightarrow> unat (log_head b) = unat (log_count b)"
    using assms by (auto simp: logbuf_inv_def word_less_nat_alt word_le_nat_alt)
  have arr: "log_entries ?b = (log_entries b)[unat (log_head b) := ?e]"
    and hd': "unat (log_head ?b) = Suc (unat (log_head b)) mod 128"
    and cnt: "unat (log_count ?b) = min (Suc (unat (log_count b))) 128"
    using h c by (auto simp: irt_logbuf_emit_def RTDBD_LOG_CAPACITY_def RTDBD_LOG_ENTRY_MSG_MAX_def Let_def
        word_less_nat_alt unat_mod unat_word_ariths)
  have "unat (log_count ?b) < 128 \<Longrightarrow> unat (log_head ?b) = unat (log_count ?b)"
    using hc hd' cnt by auto
  then show "logbuf_inv ?b"
    using len hd' cnt arr by (simp add: logbuf_inv_def word_less_nat_alt word_le_nat_alt word_unat_eq_iff)
  show "logbuf_kept ?b = lastn 128 (logbuf_kept b @ [?e])"
    using ring_step [of "unat (log_head b)" "log_entries b" "unat (log_count b)" ?e] len h c
    by (simp add: logbuf_kept_def arr hd' cnt)
qed

lemma log_entry_eta:
  "\<lparr>le_ts_ns = le_ts_ns e, le_level = le_level e, le_msg = m\<rparr> = (e :: log_entry)\<lparr>le_msg := m\<rparr>"
  by (cases e) simp

interpretation logbuf: bounded_log
  "\<lambda>e. irt_logbuf_emit (le_ts_ns e) (le_level e) (le_msg e)" logbuf_kept logbuf_inv
  "\<lambda>e. e\<lparr>le_msg := strncpy_to 115 (le_msg e)\<rparr>" 128
  by unfold_locales (simp_all add: logbuf_kept_emit log_entry_eta)

section \<open>What a dump returns\<close>

lemma audit_dump_kept:
  assumes "audit_inv a"
  shows "irt_audit_dump a cap = lastn (unat cap) (audit_kept a)"
proof (cases "cap = 0")
  case True
  then show ?thesis by (simp add: irt_audit_dump_def lastn_def audit_kept_def)
next
  case False
  have len: "length (aud_entries a) = 256" and h: "unat (aud_head a) < 256" and c: "unat (aud_count a) \<le> 256"
    using assms by (simp_all add: audit_inv_def word_less_nat_alt word_le_nat_alt)
  define n where "n = min (unat (aud_count a)) (unat cap)"
  have n: "unat (if aud_count a < cap then aud_count a else cap) = n"
    by (auto simp: n_def word_less_nat_alt)
  let ?n = "if aud_count a < cap then aud_count a else cap"
  have nb: "n \<le> 256" using c by (simp add: n_def)
  have start: "unat ((aud_head a + RTDBD_AUDIT_CAPACITY - ?n) mod RTDBD_AUDIT_CAPACITY)
      = (unat (aud_head a) + 256 - n) mod 256"
  proof -
    have "unat (aud_head a + RTDBD_AUDIT_CAPACITY) = unat (aud_head a) + 256"
      using h by (simp add: RTDBD_AUDIT_CAPACITY_def unat_word_ariths)
    then have "unat (aud_head a + RTDBD_AUDIT_CAPACITY - ?n) = unat (aud_head a) + 256 - n"
      using n nb by (subst unat_sub) (simp_all add: word_le_nat_alt)
    then show ?thesis by (simp add: RTDBD_AUDIT_CAPACITY_def unat_mod)
  qed
  have idx: "unat ((((aud_head a + RTDBD_AUDIT_CAPACITY - ?n) mod RTDBD_AUDIT_CAPACITY) + word_of_nat i) mod
      RTDBD_AUDIT_CAPACITY) = (unat (aud_head a) + 256 - n + i) mod 256" if "i < n" for i
  proof -
    have "unat (word_of_nat i :: u32) = i" using that nb by (simp add: unat_of_nat)
    then have "unat (((aud_head a + RTDBD_AUDIT_CAPACITY - ?n) mod RTDBD_AUDIT_CAPACITY) + word_of_nat i)
        = (unat (aud_head a) + 256 - n) mod 256 + i"
      using start that nb by (subst unat_add_lem [THEN iffD1]) (simp_all add: less_imp_le_nat)
    then show ?thesis by (simp add: RTDBD_AUDIT_CAPACITY_def unat_mod mod_simps)
  qed
  have "irt_audit_dump a cap = window (aud_entries a) (unat (aud_head a) + 256 - n) n"
    using False idx by (simp add: irt_audit_dump_def Let_def n window_def len cong: map_cong)
  also have "\<dots> = lastn (unat cap) (audit_kept a)"
  proof (rule nth_equalityI)
    fix i assume "i < length (window (aud_entries a) (unat (aud_head a) + 256 - n) n)"
    then have i: "i < n" by simp
    have k: "length (audit_kept a) = unat (aud_count a)" by (simp add: audit_kept_def)
    have off: "unat (aud_count a) - unat cap + i < unat (aud_count a)" "unat (aud_count a) - unat cap + n = unat (aud_count a)"
      using i by (auto simp: n_def)
    have "lastn (unat cap) (audit_kept a) ! i = audit_kept a ! (unat (aud_count a) - unat cap + i)"
      using off(1) by (simp add: lastn_def k nth_drop add.commute)
    also have "\<dots> = aud_entries a ! ((unat (aud_head a) + 256 - n + i) mod 256)"
    proof -
      have "unat (aud_head a) + 256 - unat (aud_count a) + (unat (aud_count a) - unat cap + i)
          = unat (aud_head a) + 256 - n + i"
        using off(2) c nb by linarith
      then show ?thesis using off(1) by (simp only: audit_kept_def window_nth len)
    qed
    finally show "window (aud_entries a) (unat (aud_head a) + 256 - n) n ! i = lastn (unat cap) (audit_kept a) ! i"
      using i by (simp add: window_nth len)
  qed (simp add: n_def audit_kept_def min.commute)
  finally show ?thesis .
qed

lemma logbuf_dump_kept:
  assumes "logbuf_inv b"
  shows "irt_logbuf_dump b cap = take (unat cap) (logbuf_kept b)"
proof (cases "cap = 0")
  case True
  then show ?thesis by (simp add: irt_logbuf_dump_def)
next
  case False
  have len: "length (log_entries b) = 128" and h: "unat (log_head b) < 128" and c: "unat (log_count b) \<le> 128"
    and hc: "unat (log_count b) < 128 \<Longrightarrow> unat (log_head b) = unat (log_count b)"
    using assms by (auto simp: logbuf_inv_def word_less_nat_alt word_le_nat_alt)
  define n where "n = min (unat (log_count b)) (unat cap)"
  have n: "unat (if log_count b < cap then log_count b else cap) = n"
    by (auto simp: n_def word_less_nat_alt)
  let ?s = "if log_count b = RTDBD_LOG_CAPACITY then log_head b else 0"
  have s: "unat ?s mod 128 = (unat (log_head b) + 128 - unat (log_count b)) mod 128" and sb: "unat ?s < 128"
    using hc c h by (auto simp: RTDBD_LOG_CAPACITY_def word_unat_eq_iff)
  have idx: "unat ((?s + word_of_nat i) mod RTDBD_LOG_CAPACITY) =
      (unat (log_head b) + 128 - unat (log_count b) + i) mod 128" if "i < n" for i
  proof -
    have i: "i < 128" using that c by (simp add: n_def)
    then have "unat (word_of_nat i :: u32) = i" by (simp add: unat_of_nat)
    then have "unat (?s + word_of_nat i) = unat ?s + i"
      using sb i by (subst unat_add_lem [THEN iffD1]) (simp_all add: less_imp_le_nat)
    then have "unat ((?s + word_of_nat i) mod RTDBD_LOG_CAPACITY) = (unat ?s mod 128 + i) mod 128"
      by (simp add: RTDBD_LOG_CAPACITY_def unat_mod mod_simps)
    then show ?thesis unfolding s by (simp add: mod_simps)
  qed
  have "irt_logbuf_dump b cap = window (log_entries b) (unat (log_head b) + 128 - unat (log_count b)) n"
    using False idx by (simp add: irt_logbuf_dump_def Let_def n window_def len cong: map_cong)
  also have "\<dots> = take (unat cap) (logbuf_kept b)"
    by (rule nth_equalityI) (auto simp: n_def logbuf_kept_def window_nth)
  finally show ?thesis .
qed

lemma audit_init: "audit_inv irt_audit_init" "audit_kept irt_audit_init = []"
  by (simp_all add: irt_audit_init_def audit_inv_def audit_kept_def RTDBD_AUDIT_CAPACITY_def)

lemma logbuf_init: "logbuf_inv irt_logbuf_init" "logbuf_kept irt_logbuf_init = []"
  by (simp_all add: irt_logbuf_init_def logbuf_inv_def logbuf_kept_def RTDBD_LOG_CAPACITY_def)

text \<open>
  However many operations were recorded, a dump of the audit trail returns the newest ones, at
  most 256 and at most as many as asked for, oldest first; the ring never mixes up their order when
  its index wraps.
\<close>

theorem audit_dump_newest:
  "irt_audit_dump (fold (\<lambda>e. irt_audit_record (ae_pid e) (ae_uid e) (ae_partition e) (ae_point_id e) (ae_ts_ns e)) es
     irt_audit_init) cap = lastn (min 256 (unat cap)) es"
proof -
  have "audit_kept (fold (\<lambda>e. irt_audit_record (ae_pid e) (ae_uid e) (ae_partition e) (ae_point_id e) (ae_ts_ns e)) es
      irt_audit_init) = lastn 256 es"
    using audit.emit_all_fresh [OF audit_init] by simp
  moreover have "lastn (unat cap) (lastn 256 es) = lastn (min 256 (unat cap)) es"
    by (cases "256 \<le> length es") (auto simp: lastn_def min_def)
  ultimately show ?thesis
    using audit_dump_kept [OF audit.emit_all_inv [OF audit_init(1)]] by simp
qed

text \<open>
  The run-time log keeps the newest 128 messages, each cut to 115 bytes, but a dump limited to
  \<open>cap\<close> entries returns the oldest of those, where the audit trail returns the newest.
\<close>

theorem log_dump_oldest_of_kept:
  "irt_logbuf_dump (fold (\<lambda>e. irt_logbuf_emit (le_ts_ns e) (le_level e) (le_msg e)) es irt_logbuf_init) cap
   = take (unat cap) (lastn 128 (map (\<lambda>e. e\<lparr>le_msg := strncpy_to 115 (le_msg e)\<rparr>) es))"
  using logbuf_dump_kept [OF logbuf.emit_all_inv [OF logbuf_init(1)]] logbuf.emit_all_fresh [OF logbuf_init]
  by simp

text \<open>
  Health recovers by itself: with a sound segment, \<open>rtdbd_self_check_core\<close> reports DEGRADED
  exactly when an error was noted and the last one is at most 60 seconds old on a clock that did not
  go backwards, and OK otherwise; a damaged header is UNHEALTHY whatever the counters say.
\<close>

theorem health_window:
  "fst (rtdbd_self_check_core now h g) =
     (if initialized h \<and> magic (h_shm h) = IRT_MAGIC \<and> version (h_shm h) = IRT_SHM_VERSION
      then if last_err_ns g \<noteq> 0 \<and> last_err_ns g \<le> now \<and> unat now - unat (last_err_ns g) \<le> 60 * 10 ^ 9
           then RTDBD_HEALTH_DEGRADED else RTDBD_HEALTH_OK
      else RTDBD_HEALTH_UNHEALTHY)"
proof -
  have "now - last_err_ns g > RTDBD_DEGRADED_WINDOW_NS \<longleftrightarrow> \<not> unat now - unat (last_err_ns g) \<le> 60 * 10 ^ 9"
    if "last_err_ns g \<le> now"
    using that by (simp add: RTDBD_DEGRADED_WINDOW_NS_def word_less_nat_alt unat_sub not_le)
  then show ?thesis
    by (auto simp: rtdbd_self_check_core_def indurtdb_h_self_check_def classify_def Let_def not_less
        RTDBD_HEALTH_OK_def RTDBD_HEALTH_DEGRADED_def RTDBD_HEALTH_UNHEALTHY_def
        INDURTDB_HEALTH_OK_def INDURTDB_HEALTH_UNHEALTHY_def)
qed

end
