(* ===== verification/Policy.thy ===== *)
theory Policy
  imports C_Lib
begin

text \<open>
  The write policy of the daemon (\<^verbatim>\<open>rtdbd/src/policy.c\<close>) and its partition white list
  (\<^verbatim>\<open>rtdbd/src/rtdbd_conf.c\<close>): the line readers, the field parsers, the loaders with the number
  of the offending line, and the two decisions. A file is its contents (\<open>None\<close> when it cannot be
  opened), without NUL bytes.
\<close>

section \<open>Lines with a bounded buffer\<close>

text \<open>
  The lines a loader sees: what \<open>fgets\<close> puts into a buffer of \<open>n\<close> bytes, and whether the line was
  longer, in which case the loader discards the rest of it.
\<close>

function fgets_swallow :: "nat \<Rightarrow> string \<Rightarrow> (string \<times> bool) list" where
  "fgets_swallow n s =
     (if s = [] \<or> n \<le> 1 then []
      else
        let p = fgets_piece n s;
            overlong = (CHR 0x0A \<notin> set p \<and> length p = n - 1);
            rest = drop (length p) s
        in (p, overlong) # fgets_swallow n (if overlong then drop 1 (dropWhile (\<lambda>c. c \<noteq> CHR 0x0A) rest) else rest))"
  by pat_completeness auto
termination
proof (relation "measure (\<lambda>(n, s). length s)", goal_cases)
  case (2 n s p ov rest)
  have ne: "fgets_piece n s \<noteq> []"
    using 2(1) by (cases s) (auto simp: fgets_piece_def Let_def)
  have "length (drop 1 (dropWhile (\<lambda>c. c \<noteq> CHR 0x0A) rest)) \<le> length rest"
    using length_dropWhile_le [of "\<lambda>c. c \<noteq> CHR 0x0A" rest] by simp
  moreover have "length rest < length s"
    using 2 ne by (cases s) (auto simp: length_greater_0_conv)
  ultimately show ?case by simp
qed simp

declare fgets_swallow.simps [simp del]

fun split_on :: "char \<Rightarrow> string \<Rightarrow> string list" where
  "split_on c [] = [[]]"
| "split_on c (x # xs) =
     (if x = c then [] # split_on c xs
      else case split_on c xs of [] \<Rightarrow> [[x]] | f # fs \<Rightarrow> (x # f) # fs)"

definition strip :: "(char \<Rightarrow> bool) \<Rightarrow> string \<Rightarrow> string" where
  "strip ws s = rev (dropWhile ws (rev (dropWhile ws s)))"

section \<open>The policy file\<close>

definition IRT_POLICY_MAX_RULES :: nat where "IRT_POLICY_MAX_RULES = 32"
definition IRT_POLICY_LINE_MAX :: nat where "IRT_POLICY_LINE_MAX = 128"

definition IRT_POLICY_OK :: int where "IRT_POLICY_OK = 0"
definition IRT_POLICY_ERR_ARG :: int where "IRT_POLICY_ERR_ARG = -1"
definition IRT_POLICY_ERR_OPEN :: int where "IRT_POLICY_ERR_OPEN = -2"
definition IRT_POLICY_ERR_TOOMANY :: int where "IRT_POLICY_ERR_TOOMANY = -3"
definition IRT_POLICY_ERR_FIELDS :: int where "IRT_POLICY_ERR_FIELDS = -4"
definition IRT_POLICY_ERR_NUMBER :: int where "IRT_POLICY_ERR_NUMBER = -5"
definition IRT_POLICY_ERR_RANGE :: int where "IRT_POLICY_ERR_RANGE = -6"
definition IRT_POLICY_ERR_LINELEN :: int where "IRT_POLICY_ERR_LINELEN = -7"

lemmas policy_codes = IRT_POLICY_OK_def IRT_POLICY_ERR_ARG_def IRT_POLICY_ERR_OPEN_def
  IRT_POLICY_ERR_TOOMANY_def IRT_POLICY_ERR_FIELDS_def IRT_POLICY_ERR_NUMBER_def
  IRT_POLICY_ERR_RANGE_def IRT_POLICY_ERR_LINELEN_def

record irt_policy_rule =
  r_uid :: u32
  r_partition :: u32
  r_min_id :: u32
  r_max_id :: u32
  wildcard_partition :: bool

type_synonym irt_policy = "irt_policy_rule list"

definition irt_policy_init :: irt_policy where
  "irt_policy_init = []"

definition irt_policy_strerror :: "int \<Rightarrow> string" where
  "irt_policy_strerror rc =
     (if rc = IRT_POLICY_OK then ''ok''
      else if rc = IRT_POLICY_ERR_ARG then ''null argument''
      else if rc = IRT_POLICY_ERR_OPEN then ''cannot open policy file''
      else if rc = IRT_POLICY_ERR_TOOMANY then ''too many rules''
      else if rc = IRT_POLICY_ERR_FIELDS then ''expected 4 fields: uid:partition|*:min_id:max_id''
      else if rc = IRT_POLICY_ERR_NUMBER then ''field is not a decimal uint32''
      else if rc = IRT_POLICY_ERR_RANGE then ''min_id greater than max_id''
      else if rc = IRT_POLICY_ERR_LINELEN then ''line exceeds IRT_POLICY_LINE_MAX''
      else ''unknown policy error'')"

fun dec_loop :: "nat \<Rightarrow> string \<Rightarrow> nat option" where
  "dec_loop v [] = Some v"
| "dec_loop v (c # cs) =
     (if \<not> is_digit 10 c then None
      else let v = v * 10 + (code c - code CHR ''0'')
           in if 0xFFFFFFFF < v then None else dec_loop v cs)"

definition policy_parse_u32 :: "string \<Rightarrow> u32 option" where
  "policy_parse_u32 s = (if s = [] then None else map_option word_of_nat (dec_loop 0 s))"

definition policy_trim :: "string \<Rightarrow> string" where
  "policy_trim s = strip (\<lambda>c. c \<in> {CHR '' '', CHR 0x09, CHR 0x0D, CHR 0x0A}) s"

definition trim_field :: "string \<Rightarrow> string" where
  "trim_field s = strip (\<lambda>c. c \<in> {CHR '' '', CHR 0x09}) s"

definition policy_rule_of :: "string list \<Rightarrow> int + irt_policy_rule" where
  "policy_rule_of fs =
     (case fs of
        [f0, f1, f2, f3] \<Rightarrow>
          (case (policy_parse_u32 f0, if f1 = ''*'' then Some 0 else policy_parse_u32 f1,
                 policy_parse_u32 f2, policy_parse_u32 f3) of
             (Some uid, Some part, Some lo, Some hi) \<Rightarrow>
               if hi < lo then Inl IRT_POLICY_ERR_RANGE
               else Inr \<lparr>r_uid = uid, r_partition = part, r_min_id = lo, r_max_id = hi,
                         wildcard_partition = (f1 = ''*'')\<rparr>
           | _ \<Rightarrow> Inl IRT_POLICY_ERR_NUMBER)
      | _ \<Rightarrow> Inl IRT_POLICY_ERR_FIELDS)"

text \<open>One line: an error, or the rules with at most one more.\<close>

definition policy_line :: "string \<times> bool \<Rightarrow> irt_policy \<Rightarrow> int + irt_policy" where
  "policy_line lo p =
     (let (line, overlong) = lo;
          s = policy_trim (takeWhile (\<lambda>c. c \<noteq> CHR ''#'') line)
      in if overlong then (if s \<noteq> [] then Inl IRT_POLICY_ERR_LINELEN else Inr p)
         else if s = [] then Inr p
         else case policy_rule_of (map trim_field (split_on CHR '':'' s)) of
           Inl e \<Rightarrow> Inl e
         | Inr r \<Rightarrow> if IRT_POLICY_MAX_RULES \<le> length p then Inl IRT_POLICY_ERR_TOOMANY else Inr (p @ [r]))"

fun policy_lines :: "u32 \<Rightarrow> (string \<times> bool) list \<Rightarrow> irt_policy \<Rightarrow> int \<times> irt_policy \<times> u32" where
  "policy_lines lineno [] p = (IRT_POLICY_OK, p, 0)"
| "policy_lines lineno (l # ls) p =
     (let lineno = lineno + 1
      in case policy_line l p of
           Inl e \<Rightarrow> (e, p, lineno)
         | Inr p \<Rightarrow> policy_lines lineno ls p)"

definition irt_policy_load :: "irt_policy \<Rightarrow> string option \<Rightarrow> int \<times> irt_policy \<times> u32" where
  "irt_policy_load p f =
     (case f of
        None \<Rightarrow> (IRT_POLICY_ERR_OPEN, p, 0)
      | Some txt \<Rightarrow> policy_lines 0 (fgets_swallow IRT_POLICY_LINE_MAX txt) irt_policy_init)"

fun irt_policy_allows :: "irt_policy \<Rightarrow> u32 \<Rightarrow> u32 \<Rightarrow> u32 \<Rightarrow> bool" where
  "irt_policy_allows [] uid part pid = False"
| "irt_policy_allows (r # rs) uid part pid =
     (if r_uid r \<noteq> uid then irt_policy_allows rs uid part pid
      else if \<not> wildcard_partition r \<and> r_partition r \<noteq> part then irt_policy_allows rs uid part pid
      else if pid < r_min_id r then irt_policy_allows rs uid part pid
      else if r_max_id r < pid then irt_policy_allows rs uid part pid
      else True)"

section \<open>The partition white list\<close>

definition RTDBD_CONF_LINE_MAX :: nat where "RTDBD_CONF_LINE_MAX = 512"
definition RTDBD_CONF_MAX_PARTITIONS :: nat where "RTDBD_CONF_MAX_PARTITIONS = 64"
definition RTDBD_CONF_MAX_ALIASES :: nat where "RTDBD_CONF_MAX_ALIASES = 64"
definition RTDBD_CONF_ALIAS_MAX :: nat where "RTDBD_CONF_ALIAS_MAX = 64"

record partition_alias =
  pa_key :: u32
  pa_name :: string
  pa_line :: u32

record rtdbd_conf =
  cf_partitions :: "u32 list"
  cf_aliases :: "partition_alias list"

definition rtdbd_conf_init :: rtdbd_conf where
  "rtdbd_conf_init = \<lparr>cf_partitions = [], cf_aliases = []\<rparr>"

definition is_ws :: "char \<Rightarrow> bool" where
  "is_ws c \<longleftrightarrow> c = CHR '' '' \<or> c = CHR 0x09"

definition conf_trim :: "string \<Rightarrow> string" where
  "conf_trim s = rev (dropWhile (\<lambda>c. c = CHR 0x0D \<or> is_ws c) (rev (dropWhile is_ws s)))"

definition skip_ws :: "string \<Rightarrow> string" where
  "skip_ws s = dropWhile is_ws s"

text \<open>The number at the front of a string, and the rest.\<close>

definition conf_parse_u32 :: "string \<Rightarrow> (u32 \<times> string) option" where
  "conf_parse_u32 s =
     (let ds = takeWhile (is_digit 10) s
      in if ds = [] then None
         else case dec_loop 0 ds of None \<Rightarrow> None | Some v \<Rightarrow> Some (word_of_nat v, drop (length ds) s))"

text \<open>
  The element loops recurse on the rest of the value; \<open>fuel\<close> bounds the iterations by the length of
  the value, since every iteration consumes a digit. The list collected so far is the state of the
  configuration when an error stops the loop.
\<close>

fun partition_items :: "nat \<Rightarrow> string \<Rightarrow> u32 list \<Rightarrow> bool \<times> u32 list" where
  "partition_items 0 s acc = (False, acc)"
| "partition_items (Suc fuel) s acc =
     (case conf_parse_u32 (skip_ws s) of
        None \<Rightarrow> (False, acc)
      | Some (v, t) \<Rightarrow>
          if RTDBD_CONF_MAX_PARTITIONS \<le> length acc then (False, acc)
          else
            let acc = acc @ [v]; t = skip_ws t
            in if t \<noteq> [] \<and> hd t = CHR '','' then partition_items fuel (tl t) acc
               else if t \<noteq> [] \<and> hd t = CHR '']'' then (True, acc)
               else (False, acc))"

definition parse_partitions :: "string \<Rightarrow> rtdbd_conf \<Rightarrow> bool \<times> rtdbd_conf" where
  "parse_partitions v c =
     (let p = skip_ws v
      in if p = [] \<or> hd p \<noteq> CHR ''['' then (False, c)
         else
           let c = c\<lparr>cf_partitions := []\<rparr>; p = skip_ws (tl p)
           in if p \<noteq> [] \<and> hd p = CHR '']'' then (True, c)
              else let (ok, ps) = partition_items (Suc (length p)) p [] in (ok, c\<lparr>cf_partitions := ps\<rparr>))"

fun alias_items :: "nat \<Rightarrow> u32 \<Rightarrow> string \<Rightarrow> partition_alias list \<Rightarrow> bool \<times> partition_alias list" where
  "alias_items 0 line s acc = (False, acc)"
| "alias_items (Suc fuel) line s acc =
     (case conf_parse_u32 (skip_ws s) of
        None \<Rightarrow> (False, acc)
      | Some (key, t) \<Rightarrow>
          let t = skip_ws t
          in if t = [] \<or> hd t \<noteq> CHR '':'' then (False, acc)
             else
               let t = skip_ws (tl t)
               in if t = [] \<or> hd t \<notin> {CHR 0x22, CHR 0x27} then (False, acc)
                  else
                    let quote = hd t;
                        name = strncpy_to (RTDBD_CONF_ALIAS_MAX - 1) (takeWhile (\<lambda>c. c \<noteq> quote) (tl t));
                        t = dropWhile (\<lambda>c. c \<noteq> quote) (tl t)
                    in if t = [] then (False, acc)
                       else if RTDBD_CONF_MAX_ALIASES \<le> length acc then (False, acc)
                       else
                         let acc = acc @ [\<lparr>pa_key = key, pa_name = name, pa_line = line\<rparr>];
                             t = skip_ws (tl t)
                         in if t \<noteq> [] \<and> hd t = CHR '','' then alias_items fuel line (tl t) acc
                            else if t \<noteq> [] \<and> hd t = CHR ''}'' then (True, acc)
                            else (False, acc))"

definition parse_aliases :: "string \<Rightarrow> rtdbd_conf \<Rightarrow> u32 \<Rightarrow> bool \<times> rtdbd_conf" where
  "parse_aliases v c line =
     (let p = skip_ws v
      in if p = [] \<or> hd p \<noteq> CHR ''{'' then (False, c)
         else
           let p = skip_ws (tl p)
           in if p \<noteq> [] \<and> hd p = CHR ''}'' then (True, c)
              else let (ok, as) = alias_items (Suc (length p)) line p (cf_aliases c) in (ok, c\<lparr>cf_aliases := as\<rparr>))"

text \<open>One line of the file: an error, the end of the keys, or the next configuration.\<close>

datatype conf_next = Conf_Error rtdbd_conf | Conf_Stop rtdbd_conf | Conf_Go rtdbd_conf

definition conf_line :: "u32 \<Rightarrow> string \<times> bool \<Rightarrow> rtdbd_conf \<Rightarrow> conf_next" where
  "conf_line lineno lt c =
     (let (line, truncated) = lt;
          line = rev (dropWhile (\<lambda>x. x = CHR 0x0A \<or> x = CHR 0x0D) (rev line));
          t = conf_trim line
      in if t = [] \<or> hd t = CHR ''#'' then Conf_Go c
         else if strncmp_eq 7 t ''points:'' then Conf_Stop c
         else if CHR '':'' \<notin> set t then Conf_Go c
         else
           let key = conf_trim (takeWhile (\<lambda>x. x \<noteq> CHR '':'') t);
               val = conf_trim (tl (dropWhile (\<lambda>x. x \<noteq> CHR '':'') t))
           in if key = ''partitions'' then
                (if truncated then Conf_Error c
                 else case parse_partitions val c of (ok, c) \<Rightarrow> if ok then Conf_Go c else Conf_Error c)
              else if key = ''partition_alias'' then
                (if truncated then Conf_Error c
                 else case parse_aliases val c lineno of (ok, c) \<Rightarrow> if ok then Conf_Go c else Conf_Error c)
              else Conf_Go c)"

fun conf_lines :: "u32 \<Rightarrow> (string \<times> bool) list \<Rightarrow> rtdbd_conf \<Rightarrow> (rtdbd_conf \<times> u32) + rtdbd_conf" where
  "conf_lines lineno [] c = Inr c"
| "conf_lines lineno (l # ls) c =
     (let lineno = lineno + 1
      in case conf_line lineno l c of
           Conf_Error c \<Rightarrow> Inl (c, lineno)
         | Conf_Stop c \<Rightarrow> Inr c
         | Conf_Go c \<Rightarrow> conf_lines lineno ls c)"

text \<open>The first alias whose key is not in the white list.\<close>

definition stray_alias :: "rtdbd_conf \<Rightarrow> partition_alias option" where
  "stray_alias c = find (\<lambda>a. pa_key a \<notin> set (cf_partitions c)) (cf_aliases c)"

text \<open>\<open>path = None\<close>: no file is configured; \<open>Some None\<close>: it cannot be opened.\<close>

definition rtdbd_conf_load :: "string option option \<Rightarrow> int \<times> rtdbd_conf \<times> u32" where
  "rtdbd_conf_load path =
     (case path of
        None \<Rightarrow> (0, rtdbd_conf_init, 0)
      | Some None \<Rightarrow> (-2, rtdbd_conf_init, 0)
      | Some (Some txt) \<Rightarrow>
          (case conf_lines 0 (fgets_swallow RTDBD_CONF_LINE_MAX txt) rtdbd_conf_init of
             Inl (c, line) \<Rightarrow> (-1, c, line)
           | Inr c \<Rightarrow>
               if cf_partitions c \<noteq> [] then
                 (case stray_alias c of Some a \<Rightarrow> (-1, c, pa_line a) | None \<Rightarrow> (0, c, 0))
               else (0, c, 0)))"

definition rtdbd_conf_partition_allowed :: "rtdbd_conf \<Rightarrow> u32 \<Rightarrow> bool" where
  "rtdbd_conf_partition_allowed c p = (cf_partitions c = [] \<or> p \<in> set (cf_partitions c))"

end
