(* ===== verification/Policy_Props.thy ===== *)
theory Policy_Props
  imports Policy
begin

text \<open>
  The policy file: printing rules and loading them gives the rules back, the decision is membership
  in one of the rules, and what is loaded never grants more than its lines say. The partition white
  list: the loader accepts exactly the lists it can hold, and aliases stay inside the list.
\<close>

section \<open>Decimal numbers\<close>

lemma digit_char:
  assumes "n < 10"
  shows "is_digit 10 (char_of (n + 48))" "code (char_of (n + 48)) = n + 48"
proof -
  show c: "code (char_of (n + 48)) = n + 48" using assms by (simp add: code_def)
  have "code CHR ''0'' = 48" "code CHR ''9'' = 57" by (simp_all add: code_def)
  then show "is_digit 10 (char_of (n + 48))" using assms c by (simp add: is_digit_def digit_val_def)
qed

lemma code_zero: "code CHR ''0'' = 48"
  by (simp add: code_def)

lemma dec_loop_append:
  "dec_loop v (xs @ ys) = (case dec_loop v xs of None \<Rightarrow> None | Some w \<Rightarrow> dec_loop w ys)"
  by (induction xs arbitrary: v) (simp_all add: Let_def)

lemma dec_digits_loop: "n \<le> 0xFFFFFFFF \<Longrightarrow> dec_loop 0 (dec_digits n) = Some n"
proof (induction n rule: dec_digits.induct)
  case (1 n)
  show ?case
  proof (cases "n < 10")
    case True
    then show ?thesis using digit_char [OF True] by (subst dec_digits.simps) (simp add: code_zero)
  next
    case False
    have d: "n mod 10 < 10" by simp
    have "dec_loop 0 (dec_digits (n div 10)) = Some (n div 10)" using 1 False by simp
    then show ?thesis
      using digit_char [OF d] False 1(2)
      by (subst dec_digits.simps) (simp add: dec_loop_append code_zero)
  qed
qed

lemma dec_digits_nonempty [simp]: "dec_digits n \<noteq> []"
  by (subst dec_digits.simps) simp

lemma dec_digits_digits: "c \<in> set (dec_digits n) \<Longrightarrow> is_digit 10 c"
proof (induction n rule: dec_digits.induct)
  case (1 n)
  then show ?case
    using digit_char(1) [of n] digit_char(1) [of "n mod 10"]
    by (subst (asm) (2) dec_digits.simps) (auto split: if_splits)
qed

lemma dec_digits_length: "n < 10 ^ k \<Longrightarrow> 0 < k \<Longrightarrow> length (dec_digits n) \<le> k"
proof (induction k arbitrary: n)
  case (Suc k)
  show ?case
  proof (cases "n < 10")
    case False
    then have "0 < k" using Suc.prems(1) by (cases k) auto
    moreover have "n div 10 < 10 ^ k" using Suc.prems(1) by (simp add: less_mult_imp_div_less)
    ultimately have "length (dec_digits (n div 10)) \<le> k" by (rule Suc.IH [rotated])
    then show ?thesis using False by (subst dec_digits.simps) simp
  qed (subst dec_digits.simps, simp)
qed simp

lemma dec_u32_length: "length (dec_digits (unat (x :: u32))) \<le> 10"
proof -
  have "unat x < 2 ^ 32" using unsigned_less [of x, where ?'a = nat] by simp
  then show ?thesis by (intro dec_digits_length) simp_all
qed

lemma parse_dec_u32: "policy_parse_u32 (dec_digits (unat (x :: u32))) = Some x"
proof -
  have "unat x < 2 ^ 32" using unsigned_less [of x, where ?'a = nat] by simp
  then show ?thesis by (simp add: policy_parse_u32_def dec_digits_loop)
qed

section \<open>Lines and fields\<close>

lemma fgets_piece_line:
  assumes "CHR 0x0A \<notin> set w" "length w + 1 < n"
  shows "fgets_piece n (w @ CHR 0x0A # s) = w @ [CHR 0x0A]"
proof -
  have "takeWhile (\<lambda>c. c \<noteq> CHR 0x0A) (w @ CHR 0x0A # s) = w"
    using assms(1) by (subst takeWhile_append2) auto
  then show ?thesis using assms(2) by (simp add: fgets_piece_def Let_def)
qed

lemma fgets_swallow_lines:
  assumes "\<And>w. w \<in> set ws \<Longrightarrow> CHR 0x0A \<notin> set w \<and> length w + 1 < n"
  shows "fgets_swallow n (concat (map (\<lambda>w. w @ [CHR 0x0A]) ws)) = map (\<lambda>w. (w @ [CHR 0x0A], False)) ws"
  using assms
proof (induction ws)
  case Nil
  then show ?case by (simp add: fgets_swallow.simps)
next
  case (Cons w ws)
  let ?r = "concat (map (\<lambda>w. w @ [CHR 0x0A]) ws)"
  have p: "fgets_piece n (w @ CHR 0x0A # ?r) = w @ [CHR 0x0A]"
    by (rule fgets_piece_line) (use Cons.prems in auto)
  have "length w + 1 < n" using Cons.prems [of w] by simp
  then have n: "\<not> n \<le> Suc 0" by linarith
  have "fgets_swallow n (w @ CHR 0x0A # ?r) = (w @ [CHR 0x0A], False) # fgets_swallow n ?r"
    by (subst fgets_swallow.simps) (simp add: p n Let_def)
  then show ?case using Cons by simp
qed

lemma split_on_plain: "c \<notin> set f \<Longrightarrow> split_on c f = [f]"
  by (induction f) auto

lemma split_on_append: "c \<notin> set f \<Longrightarrow> split_on c (f @ c # r) = f # split_on c r"
  by (induction f) auto

lemma dropWhile_none: "(\<And>c. c \<in> set s \<Longrightarrow> \<not> ws c) \<Longrightarrow> dropWhile ws s = s"
  by (cases s) auto

lemma strip_plain: "(\<And>c. c \<in> set s \<Longrightarrow> \<not> ws c) \<Longrightarrow> strip ws s = s"
  using dropWhile_none [of s ws] dropWhile_none [of "rev s" ws] by (simp add: strip_def)

lemma strip_end:
  assumes "\<And>c. c \<in> set s \<Longrightarrow> \<not> ws c" "s \<noteq> []" "ws x"
  shows "strip ws (s @ [x]) = s"
proof -
  have "dropWhile ws (s @ [x]) = s @ [x]" using assms(1,2) by (cases s) auto
  moreover have "dropWhile ws (rev s) = rev s" using assms(1,2) by (cases s rule: rev_cases) auto
  ultimately show ?thesis using assms(3) by (simp add: strip_def)
qed

section \<open>Printing a rule\<close>

definition partition_text :: "irt_policy_rule \<Rightarrow> string" where
  "partition_text r = (if wildcard_partition r then ''*'' else dec_digits (unat (r_partition r)))"

definition rule_text :: "irt_policy_rule \<Rightarrow> string" where
  "rule_text r = dec_digits (unat (r_uid r)) @ CHR '':'' # partition_text r @ CHR '':''
     # dec_digits (unat (r_min_id r)) @ CHR '':'' # dec_digits (unat (r_max_id r))"

definition rule_ok :: "irt_policy_rule \<Rightarrow> bool" where
  "rule_ok r \<longleftrightarrow> r_min_id r \<le> r_max_id r \<and> (wildcard_partition r \<longrightarrow> r_partition r = 0)"

definition policy_char :: "char \<Rightarrow> bool" where
  "policy_char c \<longleftrightarrow> is_digit 10 c \<or> c = CHR ''*'' \<or> c = CHR '':''"

lemma policy_char_not:
  "policy_char c \<Longrightarrow> c \<notin> {CHR '' '', CHR 0x09, CHR 0x0A, CHR 0x0D, CHR ''#''}"
  by (auto simp: policy_char_def is_digit_def digit_val_def code_def)

lemma digit_not_colon: "is_digit 10 c \<Longrightarrow> c \<noteq> CHR '':'' \<and> c \<noteq> CHR ''*''"
  by (auto simp: is_digit_def digit_val_def code_def)

lemma rule_text_chars: "c \<in> set (rule_text r) \<Longrightarrow> policy_char c"
  by (auto simp: rule_text_def partition_text_def policy_char_def dest: dec_digits_digits split: if_splits)

lemma rule_text_length: "length (rule_text r) \<le> 43"
  using dec_u32_length [of "r_uid r"] dec_u32_length [of "r_partition r"] dec_u32_length [of "r_min_id r"]
    dec_u32_length [of "r_max_id r"]
  by (simp add: rule_text_def partition_text_def)

lemma rule_text_fields:
  "map trim_field (split_on CHR '':'' (rule_text r)) =
     [dec_digits (unat (r_uid r)), partition_text r, dec_digits (unat (r_min_id r)), dec_digits (unat (r_max_id r))]"
proof -
  have nc: "CHR '':'' \<notin> set (dec_digits n)" for n using dec_digits_digits digit_not_colon by blast
  have pc: "CHR '':'' \<notin> set (partition_text r)" using nc by (simp add: partition_text_def)
  have s: "split_on CHR '':'' (rule_text r) =
     [dec_digits (unat (r_uid r)), partition_text r, dec_digits (unat (r_min_id r)), dec_digits (unat (r_max_id r))]"
    unfolding rule_text_def
    by (simp only: split_on_append [OF nc] split_on_append [OF pc] split_on_plain [OF nc])
  have "trim_field f = f" if "\<And>c. c \<in> set f \<Longrightarrow> policy_char c" for f
    unfolding trim_field_def by (rule strip_plain) (use that policy_char_not in blast)
  moreover have "policy_char c" if "c \<in> set (dec_digits n)" for c n
    using that dec_digits_digits by (auto simp: policy_char_def)
  moreover have "policy_char c" if "c \<in> set (partition_text r)" for c
    using that dec_digits_digits by (auto simp: policy_char_def partition_text_def split: if_splits)
  ultimately show ?thesis by (simp add: s)
qed

lemma rule_of_text:
  assumes "rule_ok r"
  shows "policy_rule_of (map trim_field (split_on CHR '':'' (rule_text r))) = Inr r"
proof -
  have "\<not> is_digit 10 CHR ''*''" using digit_not_colon by blast
  then have "dec_digits n \<noteq> ''*''" for n using dec_digits_digits [of "CHR ''*''" n] by auto
  then have w: "partition_text r = ''*'' \<longleftrightarrow> wildcard_partition r"
    by (simp add: partition_text_def)
  have p: "(if wildcard_partition r then Some 0 else policy_parse_u32 (partition_text r)) = Some (r_partition r)"
    using assms by (simp add: partition_text_def parse_dec_u32 rule_ok_def)
  show ?thesis
    unfolding rule_text_fields
    using assms p by (simp add: policy_rule_of_def w parse_dec_u32 rule_ok_def not_less)
qed

lemma policy_line_text:
  assumes "rule_ok r" "length p < 32"
  shows "policy_line (rule_text r @ [CHR 0x0A], False) p = Inr (p @ [r])"
proof -
  have c: "c \<notin> {CHR '' '', CHR 0x09, CHR 0x0A, CHR 0x0D, CHR ''#''}" if "c \<in> set (rule_text r)" for c
    using rule_text_chars [OF that] policy_char_not by blast
  have tw: "takeWhile (\<lambda>c. c \<noteq> CHR ''#'') (rule_text r @ [CHR 0x0A]) = rule_text r @ [CHR 0x0A]"
    using c by (subst takeWhile_append2) auto
  have ne: "rule_text r \<noteq> []" by (simp add: rule_text_def)
  have "policy_trim (rule_text r @ [CHR 0x0A]) = rule_text r"
    unfolding policy_trim_def by (rule strip_end) (use c ne in auto)
  then show ?thesis
    using rule_of_text [OF assms(1)] assms(2) ne by (simp add: policy_line_def tw IRT_POLICY_MAX_RULES_def)
qed

lemma policy_lines_text:
  "length (p @ rs) \<le> 32 \<Longrightarrow> list_all rule_ok rs \<Longrightarrow>
     policy_lines n (map (\<lambda>w. (w @ [CHR 0x0A], False)) (map rule_text rs)) p = (IRT_POLICY_OK, p @ rs, 0)"
proof (induction rs arbitrary: p n)
  case (Cons r rs)
  then show ?case
    using policy_line_text [of r p] Cons.IH [of "p @ [r]" "n + 1"] by simp
qed simp

section \<open>The properties\<close>

lemma load_text:
  assumes "length rs \<le> 32" "list_all rule_ok rs"
  shows "irt_policy_load p (Some (concat (map (\<lambda>r. rule_text r @ [CHR 0x0A]) rs))) = (IRT_POLICY_OK, rs, 0)"
proof -
  have w: "CHR 0x0A \<notin> set w \<and> length w + 1 < 128" if "w \<in> set (map rule_text rs)" for w
  proof -
    obtain r where r: "w = rule_text r" using \<open>w \<in> set (map rule_text rs)\<close> by auto
    then have "CHR 0x0A \<notin> set w" using rule_text_chars policy_char_not by blast
    then show ?thesis using rule_text_length [of r] r by simp
  qed
  have "concat (map (\<lambda>r. rule_text r @ [CHR 0x0A]) rs) = concat (map (\<lambda>w. w @ [CHR 0x0A]) (map rule_text rs))"
    by (simp add: comp_def)
  then show ?thesis
    using fgets_swallow_lines [of "map rule_text rs" 128] w policy_lines_text [of "[]" rs 0] assms
    by (simp add: irt_policy_load_def IRT_POLICY_LINE_MAX_def irt_policy_init_def)
qed

text \<open>
  C38. Writing up to 32 rules in the file format and loading the file yields exactly these rules in
  order and no error line, for every user id, partition or wildcard and id range with
  \<open>min_id <= max_id\<close>; what was in the policy before is gone.
\<close>

theorem policy_print_load:
  assumes "length rs \<le> 32" "list_all rule_ok rs"
  shows "irt_policy_load p (Some (concat (map (\<lambda>r. rule_text r @ [CHR 0x0A]) rs))) = (IRT_POLICY_OK, rs, 0)"
  by (rule load_text [OF assms])

definition demo_rules :: irt_policy where
  "demo_rules = [\<lparr>r_uid = 1000, r_partition = 2, r_min_id = 0, r_max_id = 99, wildcard_partition = False\<rparr>,
     \<lparr>r_uid = 0, r_partition = 0, r_min_id = 5, r_max_id = 4294967295, wildcard_partition = True\<rparr>]"

theorem policy_print_load_witness:
  "irt_policy_load [] (Some (concat (map (\<lambda>r. rule_text r @ [CHR 0x0A]) demo_rules))) = (IRT_POLICY_OK, demo_rules, 0)"
  by (rule policy_print_load) (simp_all add: demo_rules_def rule_ok_def)

lemma policy_allows_iff:
  "irt_policy_allows p uid part pid \<longleftrightarrow>
     (\<exists>r \<in> set p. r_uid r = uid \<and> (wildcard_partition r \<or> r_partition r = part) \<and> r_min_id r \<le> pid \<and> pid \<le> r_max_id r)"
  by (induction p) auto

lemma policy_rule_of_range: "policy_rule_of fs = Inr r \<Longrightarrow> r_min_id r \<le> r_max_id r"
  by (auto simp: policy_rule_of_def not_less split: list.splits option.splits if_splits)

lemma policy_line_adds:
  "policy_line l p = Inr q \<Longrightarrow> q = p \<or> (\<exists>r. q = p @ [r] \<and> r_min_id r \<le> r_max_id r \<and> length p < 32)"
  by (auto simp: policy_line_def Let_def IRT_POLICY_MAX_RULES_def not_le dest: policy_rule_of_range
      split: prod.splits if_splits sum.splits)

lemma policy_lines_shape:
  assumes "policy_lines n ls p = (rc, q, line)" "length p \<le> 32" "\<forall>r \<in> set p. r_min_id r \<le> r_max_id r"
  shows "length q \<le> 32 \<and> (\<forall>r \<in> set q. r_min_id r \<le> r_max_id r) \<and> (\<exists>rs. q = p @ rs)"
  using assms
proof (induction ls arbitrary: p n)
  case (Cons l ls)
  show ?case
  proof (cases "policy_line l p")
    case (Inl e)
    then show ?thesis using Cons.prems by simp
  next
    case (Inr p')
    have l: "policy_lines (n + 1) ls p' = (rc, q, line)" using Cons.prems(1) Inr by simp
    from policy_line_adds [OF Inr] Cons.prems(2,3)
    have "length p' \<le> 32" "\<forall>r \<in> set p'. r_min_id r \<le> r_max_id r" "\<exists>rs. p' = p @ rs" by auto
    then show ?thesis using Cons.IH [OF l] by auto
  qed
qed simp

text \<open>
  C14. Denial is the default and every grant has a reason: after loading any file, with any result,
  the policy grants a write only through one of its at most 32 rules, whose user id matches, whose
  partition is the asked one or the wildcard, and whose non-empty id range contains the point.
\<close>

theorem policy_deny_by_default:
  assumes "irt_policy_load p (Some txt) = (rc, q, line)"
  shows "length q \<le> 32 \<and> (irt_policy_allows q uid part pid \<longleftrightarrow>
    (\<exists>r \<in> set q. r_uid r = uid \<and> (wildcard_partition r \<or> r_partition r = part)
       \<and> r_min_id r \<le> r_max_id r \<and> r_min_id r \<le> pid \<and> pid \<le> r_max_id r))"
proof -
  have "policy_lines 0 (fgets_swallow IRT_POLICY_LINE_MAX txt) [] = (rc, q, line)"
    using assms by (simp add: irt_policy_load_def irt_policy_init_def)
  from policy_lines_shape [OF this] show ?thesis by (auto simp: policy_allows_iff)
qed

theorem policy_deny_by_default_witness:
  "\<not> irt_policy_allows demo_rules 1000 3 5 \<and> irt_policy_allows demo_rules 1000 2 5"
proof -
  have "irt_policy_load [] (Some (concat (map (\<lambda>r. rule_text r @ [CHR 0x0A]) demo_rules))) = (IRT_POLICY_OK, demo_rules, 0)"
    by (rule load_text) (simp_all add: demo_rules_def rule_ok_def)
  from policy_deny_by_default [OF this] show ?thesis by (simp add: demo_rules_def)
qed

section \<open>The white list\<close>

text \<open>The fuel of the element loops is never exhausted: every iteration consumes a digit.\<close>

lemma conf_parse_u32_shorter: "conf_parse_u32 s = Some (v, t) \<Longrightarrow> length t < length s"
proof -
  assume a: "conf_parse_u32 s = Some (v, t)"
  let ?ds = "takeWhile (is_digit 10) s"
  have "?ds \<noteq> []" "t = drop (length ?ds) s"
    using a by (auto simp: conf_parse_u32_def Let_def split: if_splits option.splits)
  moreover have "length ?ds \<le> length s" by (rule length_takeWhile_le)
  ultimately show "length t < length s" by (cases ?ds) auto
qed

lemma skip_ws_length: "length (skip_ws s) \<le> length s"
  by (simp add: skip_ws_def length_dropWhile_le)

lemma partition_items_fuel:
  "length s < n \<Longrightarrow> n \<le> m \<Longrightarrow> partition_items n s acc = partition_items m s acc"
proof (induction n arbitrary: m s acc)
  case (Suc n)
  then obtain m' where m: "m = Suc m'" "n \<le> m'" by (cases m) auto
  show ?case
  proof (cases "conf_parse_u32 (skip_ws s)")
    case (Some vt)
    obtain v t where vt: "vt = (v, t)" by (cases vt)
    have "length (tl (skip_ws t)) < n"
      using conf_parse_u32_shorter [of "skip_ws s" v t] Some vt skip_ws_length [of s] skip_ws_length [of t]
        Suc.prems(1) by (cases "skip_ws t") auto
    then show ?thesis using Suc.IH m Some vt by (auto simp: Let_def)
  qed (simp add: m)
qed simp

lemma alias_items_fuel:
  "length s < n \<Longrightarrow> n \<le> m \<Longrightarrow> alias_items n line s acc = alias_items m line s acc"
proof (induction n arbitrary: m s acc)
  case (Suc n)
  then obtain m' where m: "m = Suc m'" "n \<le> m'" by (cases m) auto
  show ?case
  proof (cases "conf_parse_u32 (skip_ws s)")
    case (Some vt)
    obtain v t where vt: "vt = (v, t)" by (cases vt)
    let ?t2 = "skip_ws (tl (skip_ws t))"
    let ?t3 = "dropWhile (\<lambda>c. c \<noteq> hd ?t2) (tl ?t2)"
    let ?t4 = "skip_ws (tl ?t3)"
    have "length t < length s"
      using conf_parse_u32_shorter [of "skip_ws s" v t] Some vt skip_ws_length [of s] by simp
    moreover have "length ?t2 \<le> length t" "length ?t3 \<le> length ?t2" "length ?t4 \<le> length ?t3"
      using skip_ws_length [of "tl (skip_ws t)"] skip_ws_length [of t] length_dropWhile_le [of "\<lambda>c. c \<noteq> hd ?t2" "tl ?t2"]
        skip_ws_length [of "tl ?t3"] by (auto intro: order_trans)
    ultimately have "length (tl ?t4) < n" if "?t4 \<noteq> []"
      using that Suc.prems(1) by (cases ?t4) auto
    then show ?thesis using Suc.IH m Some vt by (auto simp: Let_def)
  qed (simp add: m)
qed simp

lemma partition_items_bound:
  "partition_items n s acc = (ok, ps) \<Longrightarrow> length acc \<le> 64 \<Longrightarrow> length ps \<le> 64"
  by (induction n arbitrary: s acc)
     (auto simp: Let_def RTDBD_CONF_MAX_PARTITIONS_def split: option.splits if_splits)

text \<open>The text \<open>[a, b, ...]\<close> of a list of partitions.\<close>

fun items_text :: "u32 list \<Rightarrow> string" where
  "items_text [] = []"
| "items_text [x] = dec_digits (unat x) @ '']''"
| "items_text (x # y # xs) = dec_digits (unat x) @ '', '' @ items_text (y # xs)"

lemma conf_parse_dec:
  assumes "r = [] \<or> \<not> is_digit 10 (hd r)"
  shows "conf_parse_u32 (dec_digits (unat (x :: u32)) @ r) = Some (x, r)"
proof -
  have tw: "takeWhile (is_digit 10) (dec_digits (unat x) @ r) = dec_digits (unat x)"
  proof -
    have "takeWhile (is_digit 10) r = []" using assms by (cases r) auto
    then show ?thesis using dec_digits_digits by (subst takeWhile_append2) auto
  qed
  have "unat x < 2 ^ 32" using unsigned_less [of x, where ?'a = nat] by simp
  then show ?thesis by (simp add: conf_parse_u32_def tw dec_digits_loop)
qed

lemma skip_ws_dec: "skip_ws (dec_digits n @ r) = dec_digits n @ r"
proof -
  have "\<not> is_ws (hd (dec_digits n))"
    using dec_digits_digits [of "hd (dec_digits n)" n] by (auto simp: is_ws_def is_digit_def digit_val_def code_def)
  then show ?thesis by (cases "dec_digits n") (auto simp: skip_ws_def)
qed

lemma partition_items_ws: "partition_items n (CHR '' '' # s) acc = partition_items n s acc"
  by (cases n) (simp_all add: skip_ws_def is_ws_def)

lemma bracket_not_digit: "\<not> is_digit 10 CHR '']''" "\<not> is_digit 10 CHR '',''"
  by (simp_all add: is_digit_def digit_val_def code_def)

lemma partition_items_text:
  "xs \<noteq> [] \<Longrightarrow> length acc + length xs \<le> 64 \<Longrightarrow> length xs \<le> n \<Longrightarrow>
     partition_items n (items_text xs) acc = (True, acc @ xs)"
proof (induction xs arbitrary: n acc rule: items_text.induct)
  case (2 x)
  then obtain m where n: "n = Suc m" by (cases n) auto
  show ?case
    using 2 by (simp add: n skip_ws_dec conf_parse_dec bracket_not_digit RTDBD_CONF_MAX_PARTITIONS_def
        skip_ws_def [of "'']''"] is_ws_def Let_def)
next
  case (3 x y xs)
  then obtain m where n: "n = Suc m" by (cases n) auto
  have s: "skip_ws (CHR '','' # CHR '' '' # items_text (y # xs)) = CHR '','' # CHR '' '' # items_text (y # xs)"
    by (simp add: skip_ws_def is_ws_def)
  have "partition_items m (items_text (y # xs)) (acc @ [x]) = (True, (acc @ [x]) @ y # xs)"
    using 3 n by (intro "3.IH") simp_all
  then show ?case
    using 3(3) by (simp add: n skip_ws_dec conf_parse_dec bracket_not_digit RTDBD_CONF_MAX_PARTITIONS_def
        s partition_items_ws Let_def)
qed simp

lemma items_text_length: "xs \<noteq> [] \<Longrightarrow> length xs \<le> length (items_text xs)"
  by (induction xs rule: items_text.induct) auto

lemma parse_partitions_text:
  assumes "xs \<noteq> []" "length xs \<le> 64"
  shows "parse_partitions (CHR ''['' # items_text xs) c = (True, c\<lparr>cf_partitions := xs\<rparr>)"
proof -
  obtain d r where dr: "items_text xs = d # r" "is_digit 10 d" "skip_ws (items_text xs) = items_text xs"
  proof -
    obtain x ys where x: "xs = x # ys" using assms(1) by (cases xs) auto
    obtain r where r: "items_text xs = dec_digits (unat x) @ r" by (cases ys) (auto simp: x)
    obtain d ds where d: "dec_digits (unat x) = d # ds" by (cases "dec_digits (unat x)") auto
    show ?thesis
      by (rule that [of d "ds @ r"]) (use r d dec_digits_digits [of d "unat x"] skip_ws_dec [of "unat x" r] in auto)
  qed
  have b: "skip_ws (CHR ''['' # r) = CHR ''['' # r" for r
    by (simp add: skip_ws_def is_ws_def)
  have "d \<noteq> CHR '']''" using dr(2) bracket_not_digit by auto
  then show ?thesis
    using dr partition_items_text [of xs "[]" "Suc (length (items_text xs))"] items_text_length [OF assms(1)] assms
    by (simp add: parse_partitions_def b Let_def del: partition_items.simps)
qed

lemma parse_partitions_bound:
  "parse_partitions v c = (ok, c') \<Longrightarrow> length (cf_partitions c) \<le> 64 \<Longrightarrow> length (cf_partitions c') \<le> 64"
  by (auto simp: parse_partitions_def Let_def simp del: partition_items.simps dest!: partition_items_bound
      split: if_splits prod.splits)

lemma parse_aliases_partitions: "parse_aliases v c line = (ok, c') \<Longrightarrow> cf_partitions c' = cf_partitions c"
  by (auto simp: parse_aliases_def Let_def split: if_splits prod.splits)

lemma conf_line_bound:
  assumes "length (cf_partitions c) \<le> 64"
  shows "conf_line n l c = Conf_Go c' \<Longrightarrow> length (cf_partitions c') \<le> 64"
    "conf_line n l c = Conf_Stop c' \<Longrightarrow> length (cf_partitions c') \<le> 64"
  using assms parse_partitions_bound parse_aliases_partitions
  by (auto simp: conf_line_def Let_def split: prod.splits if_splits)

lemma conf_lines_bound:
  "conf_lines n ls c = Inr c' \<Longrightarrow> length (cf_partitions c) \<le> 64 \<Longrightarrow> length (cf_partitions c') \<le> 64"
proof (induction ls arbitrary: n c)
  case (Cons l ls)
  show ?case
    using Cons.prems Cons.IH conf_line_bound [OF Cons.prems(2), of "n + 1" l]
    by (cases "conf_line (n + 1) l c") auto
qed simp

text \<open>
  The white list is fail-closed and never exceeds its array: whatever the configuration file
  says, after a load that reports success at most 64 partitions are listed, every alias refers to a
  listed partition, and exactly the listed partitions are allowed; only without a list is every
  partition allowed.
\<close>

theorem white_list_fail_closed:
  assumes "rtdbd_conf_load path = (0, c, line)"
  shows "length (cf_partitions c) \<le> 64
    \<and> (cf_partitions c \<noteq> [] \<longrightarrow> (\<forall>a \<in> set (cf_aliases c). rtdbd_conf_partition_allowed c (pa_key a)))
    \<and> (\<forall>p. rtdbd_conf_partition_allowed c p \<longleftrightarrow> cf_partitions c = [] \<or> p \<in> set (cf_partitions c))"
proof -
  have "length (cf_partitions c) \<le> 64"
    using assms conf_lines_bound [of 0 _ rtdbd_conf_init c]
    by (auto simp: rtdbd_conf_load_def rtdbd_conf_init_def split: option.splits sum.splits if_splits)
  moreover have "stray_alias c = None" if "cf_partitions c \<noteq> []"
    using assms that by (auto simp: rtdbd_conf_load_def rtdbd_conf_init_def split: option.splits sum.splits if_splits)
  ultimately show ?thesis
    by (auto simp: stray_alias_def find_None_iff rtdbd_conf_partition_allowed_def)
qed

lemma items_text_chars: "c \<in> set (items_text xs) \<Longrightarrow> is_digit 10 c \<or> c \<in> {CHR '','', CHR '' '', CHR '']''}"
  by (induction xs rule: items_text.induct) (auto dest: dec_digits_digits)

lemma items_text_last: "xs \<noteq> [] \<Longrightarrow> \<exists>r. items_text xs = r @ '']''"
proof (induction xs rule: items_text.induct)
  case (3 x y xs)
  then obtain r where "items_text (y # xs) = r @ '']''" by auto
  then show ?case by (intro exI [of _ "dec_digits (unat x) @ '', '' @ r"]) simp
qed auto

lemma items_text_short: "length (items_text xs) \<le> 12 * length xs"
proof (induction xs rule: items_text.induct)
  case (2 x)
  then show ?case using dec_u32_length [of x] by simp
next
  case (3 x y xs)
  then show ?case using dec_u32_length [of x] by simp
qed simp

lemma items_no_newline: "CHR 0x0A \<notin> set (items_text xs)"
proof
  assume "CHR 0x0A \<in> set (items_text xs)"
  then have "is_digit 10 CHR 0x0A" using items_text_chars [of "CHR 0x0A" xs] by auto
  then show False by (simp add: is_digit_def digit_val_def code_def)
qed

lemma conf_line_text:
  assumes "xs \<noteq> []" "length xs \<le> 64"
  shows "conf_line n (''partitions: ['' @ items_text xs @ [CHR 0x0A], False) c = Conf_Go (c\<lparr>cf_partitions := xs\<rparr>)"
proof -
  obtain r where r: "items_text xs = r @ '']''" using items_text_last [OF assms(1)] by auto
  have ends: "rev (dropWhile (\<lambda>x. x = CHR 0x0A \<or> x = CHR 0x0D) (rev (''partitions: ['' @ items_text xs @ [CHR 0x0A])))
      = ''partitions: ['' @ items_text xs"
    by (simp add: r)
  have trim: "conf_trim (''partitions: ['' @ items_text xs) = ''partitions: ['' @ items_text xs"
    "conf_trim ('' ['' @ items_text xs) = CHR ''['' # items_text xs"
    "conf_trim ''partitions'' = ''partitions''"
    by (simp_all add: conf_trim_def is_ws_def r)
  show ?thesis
    using parse_partitions_text [OF assms, of c] trim
    by (simp add: conf_line_def ends [simplified] trim [simplified] strncmp_eq_def Let_def)
qed

lemma conf_load_text:
  assumes "xs \<noteq> []" "length xs \<le> 32"
  shows "rtdbd_conf_load (Some (Some (''partitions: ['' @ items_text xs @ [CHR 0x0A]))) =
    (0, \<lparr>cf_partitions = xs, cf_aliases = []\<rparr>, 0)"
proof -
  let ?w = "''partitions: ['' @ items_text xs"
  have "fgets_swallow 512 (concat (map (\<lambda>w. w @ [CHR 0x0A]) [?w])) = map (\<lambda>w. (w @ [CHR 0x0A], False)) [?w]"
    by (rule fgets_swallow_lines) (use items_no_newline items_text_short [of xs] assms(2) in auto)
  then have l: "fgets_swallow 512 (''partitions: ['' @ items_text xs @ [CHR 0x0A]) = [(?w @ [CHR 0x0A], False)]"
    by simp
  show ?thesis
    using conf_line_text [of xs 1 rtdbd_conf_init] assms
    by (simp add: rtdbd_conf_load_def RTDBD_CONF_LINE_MAX_def l [simplified] stray_alias_def rtdbd_conf_init_def)
qed

theorem white_list_fail_closed_witness:
  "\<not> rtdbd_conf_partition_allowed (fst (snd (rtdbd_conf_load (Some (Some (''partitions: ['' @ items_text [1, 7]
     @ [CHR 0x0A])))))) 0"
proof -
  have l: "rtdbd_conf_load (Some (Some (''partitions: ['' @ items_text [1, 7] @ [CHR 0x0A]))) =
      (0, \<lparr>cf_partitions = [1, 7], cf_aliases = []\<rparr>, 0)"
    by (rule conf_load_text) simp_all
  show ?thesis using white_list_fail_closed [OF l] unfolding l by simp
qed

end
