(* ===== verification/Rbe.thy ===== *)
theory Rbe
  imports Semantics
begin

text \<open>
  Reporting by exception (\<^verbatim>\<open>rtdbd/src/rbe.c\<close>): per connection the last reported value of each
  subscribed point, and the decision whether a new value is worth a notification. The abstraction
  is a partial map from point ids to last reported values.
\<close>

definition RTDBD_RBE_MAX :: nat where "RTDBD_RBE_MAX = 32"

record rbe_slot =
  rb_point_id :: u32
  last_reported :: f64
  rb_valid :: bool

type_synonym rbe_state = "rbe_slot list"

definition rbe_state_init :: rbe_state where
  "rbe_state_init = replicate RTDBD_RBE_MAX \<lparr>rb_point_id = 0, last_reported = Fin 0, rb_valid = False\<rparr>"

fun rbe_clear :: "u32 \<Rightarrow> rbe_state \<Rightarrow> rbe_state" where
  "rbe_clear pid [] = []"
| "rbe_clear pid (sl # s) =
     (if rb_point_id sl = pid then sl\<lparr>rb_point_id := 0, rb_valid := False\<rparr> # s
      else sl # rbe_clear pid s)"

text \<open>The search for a slot from index \<open>i\<close> on; \<open>idx\<close> is the first free slot seen.\<close>

fun rbe_find :: "u32 \<Rightarrow> nat \<Rightarrow> nat option \<Rightarrow> rbe_state \<Rightarrow> nat option" where
  "rbe_find pid i idx [] = idx"
| "rbe_find pid i idx (sl # s) =
     (if rb_point_id sl = pid then Some i
      else rbe_find pid (i + 1)
        (if idx = None \<and> rb_point_id sl = 0 \<and> \<not> rb_valid sl then Some i else idx) s)"

text \<open>The decision on a valid slot: whether the value is reported.\<close>

definition rbe_report :: "meta option \<Rightarrow> f64 \<Rightarrow> f64 \<Rightarrow> bool" where
  "rbe_report m prev v =
     (let flags = (case m of None \<Rightarrow> 0 | Some m \<Rightarrow> m_flags m);
          mm = (case m of None \<Rightarrow> zero_meta | Some m \<Rightarrow> m);
          lo = f64_of_bits (eur_min mm); hi = f64_of_bits (eur_max mm);
          rbe_on = (flags AND (META_FLAG_DEADBAND OR META_FLAG_DEADBAND_PCT) \<noteq> 0);
          eur_on = (flags AND META_FLAG_EUR \<noteq> 0)
      in if \<not> rbe_on \<and> \<not> eur_on then True
         else
           let pct = (flags AND META_FLAG_DEADBAND_PCT \<noteq> 0);
               exceeded = (rbe_on \<and> indurtdb_deadband_exceeded (\<not> pct) (f64_of_f32_bits (deadband mm)) lo hi prev v);
               eur_cross = (eur_on \<and> indurtdb_eurange_limit True lo hi prev \<noteq> indurtdb_eurange_limit True lo hi v)
           in exceeded \<or> eur_cross)"

definition rbe_decide :: "rbe_state \<Rightarrow> u32 \<Rightarrow> f64 \<Rightarrow> meta option \<Rightarrow> bool \<times> rbe_state" where
  "rbe_decide s pid v m =
     (case rbe_find pid 0 None s of
        None \<Rightarrow> (True, s)
      | Some i \<Rightarrow>
          let sl = s ! i
          in if \<not> rb_valid sl then
               (True, s[i := \<lparr>rb_point_id = pid, last_reported = v, rb_valid = True\<rparr>])
             else if rbe_report m (last_reported sl) v then (True, s[i := sl\<lparr>last_reported := v\<rparr>])
             else (False, s))"

section \<open>The map of reported values\<close>

definition rbe_inv :: "rbe_state \<Rightarrow> bool" where
  "rbe_inv s \<longleftrightarrow> (\<forall>i < length s. \<forall>j < length s.
      rb_point_id (s ! i) = rb_point_id (s ! j) \<longrightarrow> rb_point_id (s ! i) \<noteq> 0 \<longrightarrow> i = j)
    \<and> (\<forall>i < length s. rb_point_id (s ! i) \<noteq> 0 \<longleftrightarrow> rb_valid (s ! i))"

definition rbe_map :: "rbe_state \<Rightarrow> u32 \<Rightarrow> f64 option" where
  "rbe_map s pid = map_option last_reported (find (\<lambda>sl. rb_point_id sl = pid \<and> rb_valid sl) s)"

definition rbe_room :: "rbe_state \<Rightarrow> bool" where
  "rbe_room s \<longleftrightarrow> (\<exists>sl \<in> set s. rb_point_id sl = 0)"

lemma rbe_find_gen:
  "(\<exists>k < length s. rbe_find pid i idx s = Some (i + k) \<and> rb_point_id (s ! k) = pid)
   \<or> (\<forall>sl \<in> set s. rb_point_id sl \<noteq> pid) \<and>
     (idx \<noteq> None \<and> rbe_find pid i idx s = idx
      \<or> idx = None \<and> (\<exists>k < length s. rbe_find pid i idx s = Some (i + k) \<and> rb_point_id (s ! k) = 0 \<and> \<not> rb_valid (s ! k))
      \<or> idx = None \<and> rbe_find pid i idx s = None \<and> (\<forall>sl \<in> set s. rb_point_id sl = 0 \<longrightarrow> rb_valid sl))"
proof (induction s arbitrary: i idx)
  case (Cons sl s)
  show ?case
  proof (cases "rb_point_id sl = pid")
    case True
    then show ?thesis by (intro disjI1 exI [of _ 0]) simp
  next
    case False
    let ?idx = "if idx = None \<and> rb_point_id sl = 0 \<and> \<not> rb_valid sl then Some i else idx"
    have r: "rbe_find pid i idx (sl # s) = rbe_find pid (i + 1) ?idx s" using False by simp
    from Cons.IH [of "i + 1" ?idx] show ?thesis
    proof (elim disjE conjE exE)
      fix k assume "k < length s" "rbe_find pid (i + 1) ?idx s = Some (i + 1 + k)" "rb_point_id (s ! k) = pid"
      then have "Suc k < length (sl # s)" "rbe_find pid (i + 1) ?idx s = Some (i + Suc k)"
        "rb_point_id ((sl # s) ! Suc k) = pid" by simp_all
      then show ?thesis unfolding r by (intro disjI1 exI [of _ "Suc k"] conjI)
    next
      assume "\<forall>sl \<in> set s. rb_point_id sl \<noteq> pid" "?idx \<noteq> None" "rbe_find pid (i + 1) ?idx s = ?idx"
      then show ?thesis using False
        by (cases idx) (auto split: if_splits intro!: exI [of _ "0 :: nat"])
    next
      fix k assume "\<forall>sl \<in> set s. rb_point_id sl \<noteq> pid" "?idx = None" "k < length s"
        "rbe_find pid (i + 1) ?idx s = Some (i + 1 + k)" "rb_point_id (s ! k) = 0" "\<not> rb_valid (s ! k)"
      then have "idx = None" "Suc k < length (sl # s)" "rbe_find pid (i + 1) ?idx s = Some (i + Suc k)"
        "rb_point_id ((sl # s) ! Suc k) = 0" "\<not> rb_valid ((sl # s) ! Suc k)" "\<forall>x \<in> set (sl # s). rb_point_id x \<noteq> pid"
        using False by (auto split: if_splits)
      then show ?thesis unfolding r by (intro disjI2 disjI1 exI [of _ "Suc k"] conjI)
    next
      assume "\<forall>sl \<in> set s. rb_point_id sl \<noteq> pid" "?idx = None" "rbe_find pid (i + 1) ?idx s = None"
        "\<forall>sl \<in> set s. rb_point_id sl = 0 \<longrightarrow> rb_valid sl"
      then show ?thesis using False by (auto split: if_splits)
    qed
  qed
qed (auto simp: not_None_eq [symmetric] simp del: not_None_eq)

lemma rbe_find_Some:
  assumes "rbe_find pid 0 None s = Some k"
  shows "k < length s \<and> (rb_point_id (s ! k) = pid
    \<or> (\<forall>sl \<in> set s. rb_point_id sl \<noteq> pid) \<and> rb_point_id (s ! k) = 0 \<and> \<not> rb_valid (s ! k))"
  using rbe_find_gen [of s pid 0 None] assms by auto

lemma rbe_find_None:
  assumes "rbe_find pid 0 None s = None"
  shows "(\<forall>sl \<in> set s. rb_point_id sl \<noteq> pid) \<and> (\<forall>sl \<in> set s. rb_point_id sl = 0 \<longrightarrow> rb_valid sl)"
  using rbe_find_gen [of s pid 0 None] assms by auto

lemma rbe_invD:
  assumes "rbe_inv s"
  shows "i < length s \<Longrightarrow> j < length s \<Longrightarrow> rb_point_id (s ! i) = rb_point_id (s ! j) \<Longrightarrow> rb_point_id (s ! i) \<noteq> 0 \<Longrightarrow> i = j"
    "i < length s \<Longrightarrow> rb_valid (s ! i) \<longleftrightarrow> rb_point_id (s ! i) \<noteq> 0"
  using assms unfolding rbe_inv_def by blast+

lemma rbe_map_iff:
  assumes inv: "rbe_inv s" and pid: "pid \<noteq> 0"
  shows "rbe_map s pid = Some v \<longleftrightarrow> (\<exists>k < length s. rb_point_id (s ! k) = pid \<and> last_reported (s ! k) = v)"
proof
  assume "rbe_map s pid = Some v"
  then show "\<exists>k < length s. rb_point_id (s ! k) = pid \<and> last_reported (s ! k) = v"
    by (auto simp: rbe_map_def find_Some_iff)
next
  assume "\<exists>k < length s. rb_point_id (s ! k) = pid \<and> last_reported (s ! k) = v"
  then obtain k where k: "k < length s" "rb_point_id (s ! k) = pid" "last_reported (s ! k) = v" by blast
  have "find (\<lambda>sl. rb_point_id sl = pid \<and> rb_valid sl) s \<noteq> None"
    using k rbe_invD(2) [OF inv k(1)] pid nth_mem [OF k(1)] by (auto simp: find_None_iff)
  then obtain x where x: "find (\<lambda>sl. rb_point_id sl = pid \<and> rb_valid sl) s = Some x" by blast
  then obtain i where i: "i < length s" "rb_point_id (s ! i) = pid" "x = s ! i" by (auto simp: find_Some_iff)
  then have "i = k" using rbe_invD(1) [OF inv i(1) k(1)] k(2) pid by simp
  then show "rbe_map s pid = Some v" using x i k by (simp add: rbe_map_def)
qed

lemma rbe_map_at: "rbe_inv s \<Longrightarrow> k < length s \<Longrightarrow> rb_point_id (s ! k) = pid \<Longrightarrow> pid \<noteq> 0 \<Longrightarrow>
    rbe_map s pid = Some (last_reported (s ! k))"
  by (auto simp: rbe_map_iff)

lemma rbe_map_absent: "rbe_inv s \<Longrightarrow> pid \<noteq> 0 \<Longrightarrow> \<forall>sl \<in> set s. rb_point_id sl \<noteq> pid \<Longrightarrow> rbe_map s pid = None"
  by (metis (no_types, lifting) nth_mem not_None_eq rbe_map_iff)

lemma rbe_put:
  fixes v :: f64
  assumes inv: "rbe_inv s" and k: "k < length s" and pid: "pid \<noteq> 0"
    and at: "rb_point_id (s ! k) = pid \<or> rb_point_id (s ! k) = 0 \<and> (\<forall>sl \<in> set s. rb_point_id sl \<noteq> pid)"
  defines "t \<equiv> s[k := \<lparr>rb_point_id = pid, last_reported = v, rb_valid = True\<rparr>]"
  shows "rbe_inv t" "q \<noteq> 0 \<Longrightarrow> rbe_map t q = ((rbe_map s)(pid \<mapsto> v)) q"
proof -
  have other: "rb_point_id (s ! i) \<noteq> pid" if "i < length s" "i \<noteq> k" for i
    using at that k pid inv nth_mem [of i s] by (auto simp: rbe_inv_def)
  show invt: "rbe_inv t"
    using inv k pid other unfolding rbe_inv_def t_def by (auto simp: nth_list_update)
  assume q: "q \<noteq> 0"
  show "rbe_map t q = ((rbe_map s)(pid \<mapsto> v)) q"
  proof (cases "q = pid")
    case True
    have "rb_point_id (t ! k) = pid" "last_reported (t ! k) = v" "k < length t" using k by (simp_all add: t_def)
    then show ?thesis using True rbe_map_at [OF invt] pid by auto
  next
    case False
    have "rbe_map t q = Some w \<longleftrightarrow> rbe_map s q = Some w" for w
      unfolding rbe_map_iff [OF invt q] rbe_map_iff [OF inv q]
      using False at k q by (auto simp: t_def nth_list_update)
    then show ?thesis using False by (metis fun_upd_other not_None_eq)
  qed
qed

lemma rbe_clear_cases:
  "(\<exists>k < length s. rb_point_id (s ! k) = pid \<and> rbe_clear pid s = s[k := (s ! k)\<lparr>rb_point_id := 0, rb_valid := False\<rparr>])
   \<or> (\<forall>sl \<in> set s. rb_point_id sl \<noteq> pid) \<and> rbe_clear pid s = s"
proof (induction s)
  case (Cons sl s)
  show ?case
  proof (cases "rb_point_id sl = pid")
    case True
    then show ?thesis by (intro disjI1 exI [of _ 0]) simp
  next
    case False
    from Cons.IH show ?thesis
    proof (elim disjE exE conjE)
      fix k assume "k < length s" "rb_point_id (s ! k) = pid"
        "rbe_clear pid s = s[k := (s ! k)\<lparr>rb_point_id := 0, rb_valid := False\<rparr>]"
      then show ?thesis using False by (intro disjI1 exI [of _ "Suc k"]) simp
    qed (use False in simp)
  qed
qed simp

lemma rbe_clear_map:
  assumes inv: "rbe_inv s" and pid: "pid \<noteq> 0"
  shows "rbe_inv (rbe_clear pid s)" "q \<noteq> 0 \<Longrightarrow> rbe_map (rbe_clear pid s) q = (if q = pid then None else rbe_map s q)"
proof -
  from rbe_clear_cases [of s pid] have "rbe_inv (rbe_clear pid s) \<and>
      (q \<noteq> 0 \<longrightarrow> rbe_map (rbe_clear pid s) q = (if q = pid then None else rbe_map s q))"
  proof (elim disjE exE conjE)
    fix k assume k: "k < length s" "rb_point_id (s ! k) = pid"
      and c: "rbe_clear pid s = s[k := (s ! k)\<lparr>rb_point_id := 0, rb_valid := False\<rparr>]"
    let ?t = "s[k := (s ! k)\<lparr>rb_point_id := 0, rb_valid := False\<rparr>]"
    have other: "rb_point_id (s ! i) \<noteq> pid" if "i < length s" "i \<noteq> k" for i
      using k that pid inv by (auto simp: rbe_inv_def)
    have invt: "rbe_inv ?t"
      using inv k(1) unfolding rbe_inv_def by (auto simp: nth_list_update)
    have "rbe_map ?t q = (if q = pid then None else rbe_map s q)" if q: "q \<noteq> 0"
    proof (cases "q = pid")
      case True
      have "rb_point_id (?t ! i) \<noteq> q" if "i < length s" for i
        using other [of i] pid k True that by (cases "i = k") simp_all
      then have "\<forall>sl \<in> set ?t. rb_point_id sl \<noteq> q" by (metis in_set_conv_nth length_list_update)
      then show ?thesis using rbe_map_absent [OF invt q] True by simp
    next
      case False
      have "rbe_map ?t q = Some w \<longleftrightarrow> rbe_map s q = Some w" for w
        unfolding rbe_map_iff [OF invt q] rbe_map_iff [OF inv q]
        using False k q by (auto simp: nth_list_update)
      then show ?thesis using False by (metis not_None_eq)
    qed
    then show ?thesis using invt c by simp
  next
    assume "\<forall>sl \<in> set s. rb_point_id sl \<noteq> pid" "rbe_clear pid s = s"
    then show ?thesis using inv rbe_map_absent [OF inv pid] by auto
  qed
  then show "rbe_inv (rbe_clear pid s)" "q \<noteq> 0 \<Longrightarrow> rbe_map (rbe_clear pid s) q = (if q = pid then None else rbe_map s q)"
    by blast+
qed

lemma rbe_init_inv: "rbe_inv rbe_state_init" "rbe_map rbe_state_init pid = None" "rbe_room rbe_state_init"
  by (simp_all add: rbe_inv_def rbe_state_init_def rbe_map_def RTDBD_RBE_MAX_def find_None_iff rbe_room_def)

lemma rbe_decide_map:
  assumes "rbe_inv s" "pid \<noteq> 0" "rbe_decide s pid v m = (send, s')"
  shows "rbe_inv s' \<and>
    (if rbe_map s pid = None \<and> \<not> rbe_room s then send \<and> s' = s
     else send = (case rbe_map s pid of None \<Rightarrow> True | Some prev \<Rightarrow> rbe_report m prev v)
       \<and> (\<forall>q. q \<noteq> 0 \<longrightarrow> rbe_map s' q = (if send \<and> q = pid then Some v else rbe_map s q)))"
proof (cases "rbe_find pid 0 None s")
  case None
  then have n: "\<forall>sl \<in> set s. rb_point_id sl \<noteq> pid" "\<forall>sl \<in> set s. rb_point_id sl = 0 \<longrightarrow> rb_valid sl"
    using rbe_find_None by auto
  then have "\<not> rbe_room s"
    using rbe_invD(2) [OF assms(1)] by (metis in_set_conv_nth rbe_room_def)
  then show ?thesis using None assms rbe_map_absent [OF assms(1,2) n(1)] by (simp add: rbe_decide_def)
next
  case (Some k)
  from rbe_find_Some [OF Some] have k: "k < length s" by simp
  consider (hit) "rb_point_id (s ! k) = pid"
    | (free) "\<forall>sl \<in> set s. rb_point_id sl \<noteq> pid" "rb_point_id (s ! k) = 0" "\<not> rb_valid (s ! k)"
    using rbe_find_Some [OF Some] by blast
  then show ?thesis
  proof cases
    case hit
    have valid: "rb_valid (s ! k)" using assms(1,2) hit k by (auto simp: rbe_inv_def)
    have prev: "rbe_map s pid = Some (last_reported (s ! k))" by (rule rbe_map_at [OF assms(1) k hit assms(2)])
    have upd: "s[k := (s ! k)\<lparr>last_reported := v\<rparr>] = s[k := \<lparr>rb_point_id = pid, last_reported = v, rb_valid = True\<rparr>]"
      using hit valid by (cases "s ! k") simp
    note put = rbe_put [OF assms(1) k assms(2) disjI1 [OF hit], where v = v]
    show ?thesis
      using assms(3) Some valid prev put assms(1) by (auto simp: rbe_decide_def upd Let_def split: if_splits)
  next
    case free
    have none: "rbe_map s pid = None" by (rule rbe_map_absent [OF assms(1,2) free(1)])
    have room: "rbe_room s" using free(2) k by (auto simp: rbe_room_def intro: bexI [of _ "s ! k"])
    have at: "rb_point_id (s ! k) = pid \<or> rb_point_id (s ! k) = 0 \<and> (\<forall>sl \<in> set s. rb_point_id sl \<noteq> pid)"
      using free by blast
    note put = rbe_put [OF assms(1) k assms(2) at, where v = v]
    show ?thesis
      using assms(3) Some free(3) none room put by (auto simp: rbe_decide_def Let_def)
  qed
qed

section \<open>What is worth a notification\<close>

text \<open>
  The reporting rule, independently of the code: the distance of two values, the zone of a value
  relative to the engineering range, and the conditions under which the metadata of a point ask for a
  notification of \<open>v\<close> when \<open>prev\<close> was the last reported value.
\<close>

datatype zone = Below | Within | Above

definition zone_of :: "f64 \<Rightarrow> f64 \<Rightarrow> f64 \<Rightarrow> zone" where
  "zone_of lo hi v = (if f64_less v lo then Below else if f64_less hi v then Above else Within)"

definition distance :: "f64 \<Rightarrow> f64 \<Rightarrow> f64" where
  "distance x y = (if f64_less x y then f64_sub y x else f64_sub x y)"

definition has_flag :: "u32 \<Rightarrow> meta \<Rightarrow> bool" where
  "has_flag f m \<longleftrightarrow> m_flags m AND f \<noteq> 0"

definition band_left :: "meta \<Rightarrow> f64 \<Rightarrow> f64 \<Rightarrow> bool" where
  "band_left m prev v \<longleftrightarrow>
     (let db = f64_of_f32_bits (deadband m); span = f64_sub (f64_of_bits (eur_max m)) (f64_of_bits (eur_min m))
      in if has_flag META_FLAG_DEADBAND_PCT m
         then \<not> f64_le span (Fin 0) \<and> f64_less (f64_mul (f64_mul db f64_0_01) span) (distance prev v)
         else has_flag META_FLAG_DEADBAND m \<and> f64_less db (distance prev v))"

definition zone_left :: "meta \<Rightarrow> f64 \<Rightarrow> f64 \<Rightarrow> bool" where
  "zone_left m prev v \<longleftrightarrow> has_flag META_FLAG_EUR m \<and>
     zone_of (f64_of_bits (eur_min m)) (f64_of_bits (eur_max m)) prev \<noteq>
     zone_of (f64_of_bits (eur_min m)) (f64_of_bits (eur_max m)) v"

definition no_filter :: "meta \<Rightarrow> bool" where
  "no_filter m \<longleftrightarrow> \<not> has_flag META_FLAG_DEADBAND m \<and> \<not> has_flag META_FLAG_DEADBAND_PCT m \<and> \<not> has_flag META_FLAG_EUR m"

definition worth_reporting :: "meta option \<Rightarrow> f64 \<Rightarrow> f64 \<Rightarrow> bool" where
  "worth_reporting mo prev v \<longleftrightarrow>
     (case mo of None \<Rightarrow> True | Some m \<Rightarrow> no_filter m \<or> band_left m prev v \<or> zone_left m prev v)"

lemma eurange_limit_zone:
  "indurtdb_eurange_limit True lo hi u = indurtdb_eurange_limit True lo hi v \<longleftrightarrow> zone_of lo hi u = zone_of lo hi v"
  by (simp add: indurtdb_eurange_limit_def zone_of_def LIMIT_LOW_def LIMIT_HIGH_def LIMIT_NONE_def)

lemma deadband_exceeded_distance:
  "indurtdb_deadband_exceeded abs_mode db lo hi prev v \<longleftrightarrow>
     (if abs_mode then f64_less db (distance prev v)
      else \<not> f64_le (f64_sub hi lo) (Fin 0) \<and> f64_less (f64_mul (f64_mul db f64_0_01) (f64_sub hi lo)) (distance prev v))"
  by (simp add: indurtdb_deadband_exceeded_def distance_def Let_def)

lemma either_flag:
  "has_flag (META_FLAG_DEADBAND OR META_FLAG_DEADBAND_PCT) m \<longleftrightarrow>
     has_flag META_FLAG_DEADBAND m \<or> has_flag META_FLAG_DEADBAND_PCT m"
  by (simp add: has_flag_def bit.conj_disj_distrib or_eq_0_iff)

lemma rbe_report_worth: "rbe_report mo prev v = worth_reporting mo prev v"
proof (cases mo)
  case (Some m)
  show ?thesis
    unfolding rbe_report_def worth_reporting_def Some option.case Let_def eurange_limit_zone deadband_exceeded_distance
      has_flag_def [symmetric] either_flag
    by (auto simp: no_filter_def band_left_def zone_left_def Let_def)
qed (simp add: rbe_report_def worth_reporting_def)

text \<open>
  C16. Reporting by exception, on points other than 0: the first value of a point is always reported;
  afterwards a value is reported exactly when the metadata ask for it (\<open>worth_reporting\<close>): the point
  has no metadata or neither dead band nor range, or its distance from the last \<open>reported\<close> value (not
  the last written one) exceeds the dead band (absolute, or in percent of a positive range), or it lies
  in another zone of the range than the last reported one. A reported value becomes the reference, a
  suppressed one changes nothing, other points are not touched; with all slots taken everything is
  reported.
\<close>

theorem rbe_decide_refines_map:
  assumes "rbe_inv s" "pid \<noteq> 0" "rbe_decide s pid v m = (send, s')"
  shows "rbe_inv s' \<and>
    (if rbe_map s pid = None \<and> \<not> rbe_room s then send \<and> s' = s
     else send = (case rbe_map s pid of None \<Rightarrow> True | Some prev \<Rightarrow> worth_reporting m prev v)
       \<and> (\<forall>q. q \<noteq> 0 \<longrightarrow> rbe_map s' q = (if send \<and> q = pid then Some v else rbe_map s q)))"
  using rbe_decide_map [OF assms] unfolding rbe_report_worth .

text \<open>
  A point with an infinite dead band and the range from 0 to 0 whose value 0 has been reported: the
  same value is suppressed, the value 1 is reported because it leaves the range.
\<close>

definition demo_band :: meta where
  "demo_band = zero_meta\<lparr>m_flags := 3, deadband := 0x7F800000\<rparr>"

definition demo_slots :: rbe_state where
  "demo_slots = snd (rbe_decide rbe_state_init 7 (Fin 0) (Some demo_band))"

lemma demo_slots: "rbe_inv demo_slots" "rbe_map demo_slots 7 = Some (Fin 0)"
proof -
  obtain send s' where d: "rbe_decide rbe_state_init 7 (Fin 0) (Some demo_band) = (send, s')"
    by (cases "rbe_decide rbe_state_init 7 (Fin 0) (Some demo_band)")
  have "(7 :: u32) \<noteq> 0" by simp
  from rbe_decide_map [OF rbe_init_inv(1) this d] show "rbe_inv demo_slots" "rbe_map demo_slots 7 = Some (Fin 0)"
    using rbe_init_inv(2,3) d by (simp_all add: demo_slots_def)
qed

lemma demo_band_worth: "\<not> worth_reporting (Some demo_band) (Fin 0) (Fin 0)" "worth_reporting (Some demo_band) (Fin 0) (Fin 1)"
proof -
  have "f64_of_f32_bits 0x7F800000 = PInf" by (simp add: f64_of_f32_bits_def Let_def)
  moreover have "f64_of_bits 0 = Fin 0" by (simp add: f64_of_bits_def Let_def)
  moreover have "\<not> f64_less PInf y" for y by (cases y) simp_all
  ultimately show "\<not> worth_reporting (Some demo_band) (Fin 0) (Fin 0)" "worth_reporting (Some demo_band) (Fin 0) (Fin 1)"
    by (simp_all add: worth_reporting_def no_filter_def band_left_def zone_left_def has_flag_def demo_band_def zero_meta_def
        zone_of_def META_FLAG_EUR_def META_FLAG_DEADBAND_def META_FLAG_DEADBAND_PCT_def)
qed

theorem rbe_decide_refines_map_witness:
  "\<exists>s1 s2. rbe_decide demo_slots 7 (Fin 0) (Some demo_band) = (False, s1) \<and> rbe_map s1 7 = Some (Fin 0)
     \<and> rbe_decide s1 7 (Fin 1) (Some demo_band) = (True, s2) \<and> rbe_map s2 7 = Some (Fin 1)"
proof -
  have p: "(7 :: u32) \<noteq> 0" by simp
  obtain send1 s1 where d1: "rbe_decide demo_slots 7 (Fin 0) (Some demo_band) = (send1, s1)"
    by (cases "rbe_decide demo_slots 7 (Fin 0) (Some demo_band)")
  from rbe_decide_refines_map [OF demo_slots(1) p d1] have r1: "rbe_inv s1" "\<not> send1" "rbe_map s1 7 = Some (Fin 0)"
    using demo_slots(2) demo_band_worth(1) by simp_all
  obtain send2 s2 where d2: "rbe_decide s1 7 (Fin 1) (Some demo_band) = (send2, s2)"
    by (cases "rbe_decide s1 7 (Fin 1) (Some demo_band)")
  from rbe_decide_refines_map [OF r1(1) p d2] have "send2" "rbe_map s2 7 = Some (Fin 1)"
    using r1(3) demo_band_worth(2) by simp_all
  then show ?thesis using d1 d2 r1 by simp
qed

lemma f64_round_zero: "f64_round 0 0 = Fin 0"
  by (simp add: f64_round_def f64_round_mag_def round_half_even_def Let_def)

lemma deadband_zero_same: "\<not> rbe_report (Some (zero_meta\<lparr>m_flags := 2\<rparr>)) (Fin 0) (Fin 0)"
proof -
  have "(2 :: u32) AND META_FLAG_EUR = 0" "(2 :: u32) AND META_FLAG_DEADBAND_PCT = 0"
    "(2 :: u32) AND (META_FLAG_DEADBAND OR META_FLAG_DEADBAND_PCT) \<noteq> 0"
    by (simp_all add: META_FLAG_EUR_def META_FLAG_DEADBAND_PCT_def META_FLAG_DEADBAND_def)
  moreover have "f64_of_f32_bits 0 = Fin 0" by (simp add: f64_of_f32_bits_def Let_def)
  ultimately show ?thesis
    by (simp add: rbe_report_def indurtdb_deadband_exceeded_def zero_meta_def f64_round_zero Let_def)
qed

text \<open>
  Point 0 is confused with the mark of a free slot: when another point is unsubscribed in front
  of it, its reference value is forgotten, so a value that the dead band should suppress is reported.
\<close>

theorem rbe_point_zero_forgotten:
  "let m = Some (zero_meta\<lparr>m_flags := 2\<rparr>);
       s = snd (rbe_decide (snd (rbe_decide rbe_state_init 5 (Fin 0) m)) 0 (Fin 0) m)
   in fst (rbe_decide s 0 (Fin 0) m) = False \<and> fst (rbe_decide (rbe_clear 5 s) 0 (Fin 0) m) = True"
  by (simp add: rbe_state_init_def RTDBD_RBE_MAX_def rbe_decide_def Let_def numeral_eq_Suc deadband_zero_same)

end
