(* ===== verification/Conn.thy ===== *)
theory Conn
  imports Rbe Rtdbd_Logs Refinement "HOL-Library.Sublist"
begin

text \<open>
  The connections of the daemon (\<^verbatim>\<open>rtdbd/src/rtdbd.c\<close>): the subscriptions and the bounded outbound
  queue of one connection, its non-blocking flush, the broadcast of a write, the check of the table.
  The answers of \<open>send\<close> are a list of results; when it is exhausted the socket takes nothing more.
  The host is little-endian.
\<close>

section \<open>Frames\<close>

definition RTDBD_MAGIC :: u32 where "RTDBD_MAGIC = 0x52424431"
definition RTDBD_PROTO_VERSION :: u16 where "RTDBD_PROTO_VERSION = 3"
definition RTDBD_OP_NOTIFY :: u16 where "RTDBD_OP_NOTIFY = 6"
definition RTDBD_SUB_MAX :: nat where "RTDBD_SUB_MAX = 32"
definition RTDBD_OUTQ_CAP :: u16 where "RTDBD_OUTQ_CAP = 64"

definition le64 :: "u64 \<Rightarrow> u8 list" where
  "le64 w = le32 (ucast w) @ le32 (ucast (drop_bit 32 w))"

text \<open>Request and response header: the third field is the operation or the status.\<close>

definition hdr_bytes :: "u32 \<Rightarrow> u16 \<Rightarrow> u16 \<Rightarrow> u32 \<Rightarrow> u8 list" where
  "hdr_bytes mg v op len = le32 mg @ le16 v @ le16 op @ le32 len"

record notify =
  nt_point_id :: u32
  nt_type :: u8
  nt_value_bits :: u64
  nt_timestamp_ns :: u64
  nt_source_ts_ns :: u64

definition notify_bytes :: "notify \<Rightarrow> u8 list" where
  "notify_bytes nt = le32 (nt_point_id nt) @ [nt_type nt, 0, 0, 0] @ le64 (nt_value_bits nt)
     @ le64 (nt_timestamp_ns nt) @ le64 (nt_source_ts_ns nt)"

definition RTDBD_NOTIFY_FRAME_LEN :: nat where "RTDBD_NOTIFY_FRAME_LEN = 12 + 32"

definition notify_frame :: "notify \<Rightarrow> u8 list" where
  "notify_frame nt = hdr_bytes RTDBD_MAGIC RTDBD_PROTO_VERSION RTDBD_OP_NOTIFY 32 @ notify_bytes nt"

lemma le32_length [simp]: "length (le32 w) = 4" by (simp add: le32_def)
lemma le64_length [simp]: "length (le64 w) = 8" by (simp add: le64_def)
lemma hdr_bytes_length [simp]: "length (hdr_bytes mg v op len) = 12" by (simp add: hdr_bytes_def le16_def)
lemma notify_frame_length [simp]: "length (notify_frame nt) = 44"
  by (simp add: notify_frame_def notify_bytes_def)

lemma notify_frame_ne [simp]: "notify_frame nt \<noteq> []"
  using notify_frame_length [of nt] by (cases "notify_frame nt") simp_all

section \<open>A connection\<close>

record conn =
  c_fd :: int
  c_partition :: u32
  c_subs :: "u32 list"
  c_rbe :: rbe_state
  c_outq :: "notify list"
  c_outq_head :: u16
  c_outq_tail :: u16
  c_outq_count :: u16
  c_outq_sent :: u16

definition conn_init :: "conn \<Rightarrow> conn" where
  "conn_init c = c\<lparr>c_fd := -1, c_partition := 0, c_subs := [], c_rbe := rbe_state_init,
     c_outq_head := 0, c_outq_tail := 0, c_outq_count := 0, c_outq_sent := 0\<rparr>"

definition conn_has_sub :: "conn \<Rightarrow> u32 \<Rightarrow> bool" where
  "conn_has_sub c pid \<longleftrightarrow> pid \<in> set (c_subs c)"

definition conn_add_sub :: "conn \<Rightarrow> u32 \<Rightarrow> int \<times> conn" where
  "conn_add_sub c pid =
     (if conn_has_sub c pid then (0, c)
      else if RTDBD_SUB_MAX \<le> length (c_subs c) then (-1, c)
      else (0, c\<lparr>c_subs := c_subs c @ [pid]\<rparr>))"

fun sub_index :: "u32 \<Rightarrow> u32 list \<Rightarrow> nat option" where
  "sub_index pid [] = None"
| "sub_index pid (x # xs) = (if x = pid then Some 0 else map_option Suc (sub_index pid xs))"

definition conn_del_sub :: "conn \<Rightarrow> u32 \<Rightarrow> conn" where
  "conn_del_sub c pid =
     (let c = c\<lparr>c_rbe := rbe_clear pid (c_rbe c)\<rparr>
      in case sub_index pid (c_subs c) of
           None \<Rightarrow> c
         | Some i \<Rightarrow> c\<lparr>c_subs := butlast ((c_subs c)[i := last (c_subs c)])\<rparr>)"

definition conn_discard_outq :: "u64 \<Rightarrow> conn \<Rightarrow> rtdbd_stats \<Rightarrow> conn \<times> rtdbd_stats" where
  "conn_discard_outq now c g =
     (let g = (if 0 < c_outq_count c
               then rtdbd_stats_note_error now (g\<lparr>notify_drop := notify_drop g + ucast (c_outq_count c)\<rparr>)
               else g)
      in (c\<lparr>c_outq_count := 0, c_outq_head := 0, c_outq_tail := 0, c_outq_sent := 0\<rparr>, g))"

definition outq_push :: "u64 \<Rightarrow> notify \<Rightarrow> conn \<times> rtdbd_stats \<Rightarrow> conn \<times> rtdbd_stats" where
  "outq_push now nt cg =
     (let (c, g) = cg;
          full = (c_outq_count c = RTDBD_OUTQ_CAP)
      in if full \<and> 0 < c_outq_sent c
         then (c, rtdbd_stats_note_error now (g\<lparr>notify_drop := notify_drop g + 1\<rparr>))
         else
           let (c, g) = (if full
                 then (c\<lparr>c_outq_head := (c_outq_head c + 1) mod RTDBD_OUTQ_CAP, c_outq_count := c_outq_count c - 1\<rparr>,
                       rtdbd_stats_note_error now (g\<lparr>notify_drop := notify_drop g + 1\<rparr>))
                 else (c, g))
           in (c\<lparr>c_outq := (c_outq c)[unat (c_outq_tail c) := nt],
                 c_outq_tail := (c_outq_tail c + 1) mod RTDBD_OUTQ_CAP,
                 c_outq_count := c_outq_count c + 1\<rparr>,
               g\<lparr>n_notifies := n_notifies g + 1\<rparr>))"

text \<open>A result of \<open>send\<close>: up to \<open>k\<close> bytes are taken, or the call fails.\<close>

datatype send_res = Takes nat | Eintr | Eagain | Send_fails

text \<open>\<open>outq_flush\<close>: the bytes that reach the socket, the result, the connection, the counters.\<close>

fun outq_flush ::
  "u64 \<Rightarrow> send_res list \<Rightarrow> conn \<Rightarrow> rtdbd_stats \<Rightarrow> (u8 list \<times> int) \<times> conn \<times> rtdbd_stats" where
  "outq_flush now [] c g = (([], 0), c, g)"
| "outq_flush now (r # rs) c g =
     (if c_outq_count c = 0 then (([], 0), c, g)
      else case r of
        Eintr \<Rightarrow> outq_flush now rs c g
      | Eagain \<Rightarrow> (([], 0), c, g)
      | Send_fails \<Rightarrow>
          let (c, g) = conn_discard_outq now c g
          in (([], -1), c, rtdbd_stats_note_error now (g\<lparr>notify_send_fail := notify_send_fail g + 1\<rparr>))
      | Takes k \<Rightarrow>
          let frame = notify_frame (c_outq c ! unat (c_outq_head c));
              out = take k (drop (unat (c_outq_sent c)) frame)
          in if out = [] then (([], 0), c, g)
             else
               let c = c\<lparr>c_outq_sent := c_outq_sent c + word_of_nat (length out)\<rparr>
               in if unat (c_outq_sent c) < RTDBD_NOTIFY_FRAME_LEN then ((out, 0), c, g)
                  else
                    let c = c\<lparr>c_outq_head := (c_outq_head c + 1) mod RTDBD_OUTQ_CAP,
                              c_outq_count := c_outq_count c - 1, c_outq_sent := 0\<rparr>;
                        ((bs, rc), cg) = outq_flush now rs c g
                    in ((out @ bs, rc), cg))"

section \<open>The broadcast of a write\<close>

record write_req =
  w_point_id :: u32
  w_type :: u8
  w_value_bits :: u64
  w_source_ts_ns :: u64

fun broadcast_loop ::
  "u64 \<Rightarrow> notify \<Rightarrow> f64 \<Rightarrow> meta \<Rightarrow> conn list \<Rightarrow> rtdbd_stats \<Rightarrow> conn list \<times> rtdbd_stats" where
  "broadcast_loop now nt v m [] g = ([], g)"
| "broadcast_loop now nt v m (c # cs) g =
     (let (c, g) =
            (if c_fd c < 0 \<or> \<not> conn_has_sub c (nt_point_id nt) then (c, g)
             else
               let (send, rbe) = rbe_decide (c_rbe c) (nt_point_id nt) v (Some m);
                   c = c\<lparr>c_rbe := rbe\<rparr>
               in if send then outq_push now nt (c, g) else (c, g));
          (cs, g) = broadcast_loop now nt v m cs g
      in (c # cs, g))"

text \<open>
  \<open>ob\<close> is what the read of the time stamp observes; \<open>now\<close> is the last clock reading of the
  broadcast.
\<close>

definition notify_broadcast ::
  "u64 \<Rightarrow> obs \<Rightarrow> indurtdb \<Rightarrow> conn list \<Rightarrow> write_req \<Rightarrow> meta \<Rightarrow> rtdbd_stats \<Rightarrow>
   (indurtdb \<times> conn list \<times> rtdbd_stats) option" where
  "notify_broadcast now ob h conns w m g =
     (case indurtdb_h_read_point h ob (w_point_id w) zero_point of
        None \<Rightarrow> None
      | Some ((rc, pt), h) \<Rightarrow>
          let nt = \<lparr>nt_point_id = w_point_id w, nt_type = w_type w, nt_value_bits = w_value_bits w,
                    nt_timestamp_ns = (if rc = 0 then timestamp_ns pt else 0),
                    nt_source_ts_ns = w_source_ts_ns w\<rparr>;
              v = indurtdb_value_to_double (w_type w) (le64 (w_value_bits w));
              (conns, g) = broadcast_loop now nt v m conns g
          in Some (h, conns, g))"

definition conn_table_check :: "conn list \<Rightarrow> int" where
  "conn_table_check conns =
     (if \<exists>c \<in> set conns. RTDBD_SUB_MAX < length (c_subs c) \<or> c_fd c < 0 \<and> c_subs c \<noteq> [] then -1 else 0)"

section \<open>The queue as a list\<close>

text \<open>
  The abstract queue: the pending notifications, how many bytes of the first frame are on the wire,
  and the number of dropped notifications (modulo \<open>2 ^ 64\<close>).
\<close>

type_synonym outq_spec = "notify list \<times> nat \<times> u64"

datatype outq_cmd = Push notify | Flush "send_res list"

fun flush_spec :: "send_res list \<Rightarrow> outq_spec \<Rightarrow> (u8 list \<times> int) \<times> outq_spec" where
  "flush_spec [] s = (([], 0), s)"
| "flush_spec (r # rs) ([], k, d) = (([], 0), [], k, d)"
| "flush_spec (r # rs) (p # ps, k, d) =
     (case r of
        Eintr \<Rightarrow> flush_spec rs (p # ps, k, d)
      | Eagain \<Rightarrow> (([], 0), p # ps, k, d)
      | Send_fails \<Rightarrow> (([], -1), [], 0, d + word_of_nat (length (p # ps)))
      | Takes n \<Rightarrow>
          let out = take n (drop k (notify_frame p))
          in if out = [] then (([], 0), p # ps, k, d)
             else if k + length out < 44 then ((out, 0), p # ps, k + length out, d)
             else let ((bs, rc), s) = flush_spec rs (ps, 0, d) in ((out @ bs, rc), s))"

fun outq_spec_step :: "outq_cmd \<Rightarrow> outq_spec \<Rightarrow> (u8 list \<times> int) \<times> outq_spec" where
  "outq_spec_step (Push nt) (ps, k, d) =
     (([], 0), if length ps = 64 then (if 0 < k then (ps, k, d + 1) else (tl ps @ [nt], 0, d + 1))
               else (ps @ [nt], k, d))"
| "outq_spec_step (Flush rs) s = flush_spec rs s"

fun outq_step :: "u64 \<Rightarrow> outq_cmd \<Rightarrow> conn \<times> rtdbd_stats \<Rightarrow> (u8 list \<times> int) \<times> conn \<times> rtdbd_stats" where
  "outq_step now (Push nt) s = (([], 0), outq_push now nt s)"
| "outq_step now (Flush rs) (c, g) = outq_flush now rs c g"

definition pending :: "conn \<Rightarrow> notify list" where
  "pending c = window (c_outq c) (unat (c_outq_head c)) (unat (c_outq_count c))"

definition outq_inv :: "conn \<Rightarrow> bool" where
  "outq_inv c \<longleftrightarrow> length (c_outq c) = 64 \<and> unat (c_outq_head c) < 64 \<and> unat (c_outq_count c) \<le> 64
     \<and> unat (c_outq_tail c) = (unat (c_outq_head c) + unat (c_outq_count c)) mod 64
     \<and> unat (c_outq_sent c) < 44 \<and> (unat (c_outq_count c) = 0 \<longrightarrow> unat (c_outq_sent c) = 0)"

definition outq_abst :: "conn \<times> rtdbd_stats \<Rightarrow> outq_spec" where
  "outq_abst cg = (pending (fst cg), unat (c_outq_sent (fst cg)), notify_drop (snd cg))"

lemma pending_length [simp]: "length (pending c) = unat (c_outq_count c)"
  by (simp add: pending_def)

lemma outq_invD:
  assumes "outq_inv c"
  shows "length (c_outq c) = 64" "unat (c_outq_head c) < 64" "unat (c_outq_count c) \<le> 64"
    "unat (c_outq_tail c) = (unat (c_outq_head c) + unat (c_outq_count c)) mod 64"
    "unat (c_outq_sent c) < 44" "unat (c_outq_count c) = 0 \<Longrightarrow> unat (c_outq_sent c) = 0"
  using assms by (simp_all add: outq_inv_def)

lemma ring_next: "unat (x :: u16) < 64 \<Longrightarrow> unat ((x + 1) mod 64) = Suc (unat x) mod 64"
  by (simp add: unat_mod unat_word_ariths)

lemma stats_note_error_fields [simp]:
  "notify_drop (rtdbd_stats_note_error now g) = notify_drop g"
  "n_notifies (rtdbd_stats_note_error now g) = n_notifies g"
  by (simp_all add: rtdbd_stats_note_error_def)

lemma outq_push_append:
  fixes nt :: notify
  assumes inv: "outq_inv c" and room: "unat (c_outq_count c) < 64"
  defines "c' \<equiv> c\<lparr>c_outq := (c_outq c)[unat (c_outq_tail c) := nt],
     c_outq_tail := (c_outq_tail c + 1) mod RTDBD_OUTQ_CAP, c_outq_count := c_outq_count c + 1\<rparr>"
  shows "outq_inv c' \<and> pending c' = pending c @ [nt]"
proof -
  note I = outq_invD [OF inv]
  have cnt: "unat (c_outq_count c + 1) = Suc (unat (c_outq_count c))"
    using room by (simp add: unat_word_ariths)
  have "unat (c_outq_tail c) < 64" using I(4) by simp
  note tl' = ring_next [OF this]
  have "outq_inv c'"
    using I room cnt tl' by (simp add: outq_inv_def c'_def RTDBD_OUTQ_CAP_def mod_simps)
  moreover have "pending c' = pending c @ [nt]"
    using window_push [of "unat (c_outq_count c)" "c_outq c" "unat (c_outq_head c)" nt] I(1,4) room cnt
    by (simp add: pending_def c'_def)
  ultimately show ?thesis by simp
qed

lemma outq_pop:
  assumes inv: "outq_inv c" and ne: "c_outq_count c \<noteq> 0"
  defines "c' \<equiv> c\<lparr>c_outq_head := (c_outq_head c + 1) mod RTDBD_OUTQ_CAP,
     c_outq_count := c_outq_count c - 1, c_outq_sent := 0\<rparr>"
  shows "outq_inv c'" "pending c = c_outq c ! unat (c_outq_head c) # pending c'"
proof -
  note I = outq_invD [OF inv]
  have pos: "0 < unat (c_outq_count c)" using ne by (simp add: unat_gt_0)
  then have cnt: "unat (c_outq_count c - 1) = unat (c_outq_count c) - 1"
    by (subst unat_sub) (simp_all add: word_le_nat_alt)
  note hd' = ring_next [OF I(2)]
  have tl': "unat (c_outq_tail c) = (Suc (unat (c_outq_head c)) mod 64 + (unat (c_outq_count c) - 1)) mod 64"
    using I(4) pos by (cases "unat (c_outq_count c)") (simp_all add: mod_simps)
  show "outq_inv c'"
    using I(1,3) cnt hd' tl' by (simp add: outq_inv_def c'_def RTDBD_OUTQ_CAP_def)
  show "pending c = c_outq c ! unat (c_outq_head c) # pending c'"
    using window_pop [OF pos, of "c_outq c" "unat (c_outq_head c)"] I(1,2) hd' cnt
    by (simp add: pending_def c'_def RTDBD_OUTQ_CAP_def)
qed

lemma outq_push_spec:
  assumes inv: "outq_inv c"
  shows "outq_inv (fst (outq_push now nt (c, g)))"
    "outq_spec_step (Push nt) (outq_abst (c, g)) = (([], 0), outq_abst (outq_push now nt (c, g)))"
proof -
  note I = outq_invD [OF inv]
  have full: "c_outq_count c = RTDBD_OUTQ_CAP \<longleftrightarrow> unat (c_outq_count c) = 64"
    by (simp add: RTDBD_OUTQ_CAP_def word_unat_eq_iff)
  have sent: "0 < c_outq_sent c \<longleftrightarrow> 0 < unat (c_outq_sent c)" by (simp add: word_less_nat_alt)
  have "outq_inv (fst (outq_push now nt (c, g))) \<and>
    outq_spec_step (Push nt) (outq_abst (c, g)) = (([], 0), outq_abst (outq_push now nt (c, g)))"
  proof (cases "unat (c_outq_count c) = 64")
    case False
    then have "unat (c_outq_count c) < 64" using I(3) by simp
    from outq_push_append [OF inv this, of nt] show ?thesis
      using False by (simp add: outq_push_def full outq_abst_def)
  next
    case True
    show ?thesis
    proof (cases "0 < c_outq_sent c")
      case False
      let ?c = "c\<lparr>c_outq_head := (c_outq_head c + 1) mod RTDBD_OUTQ_CAP,
         c_outq_count := c_outq_count c - 1, c_outq_sent := 0\<rparr>"
      have s0: "c_outq_sent c = 0" using False word_neq_0_conv by blast
      have ne: "c_outq_count c \<noteq> 0" using True by auto
      have c63: "unat (c_outq_count c - 1) = 63" using True ne by (simp add: unat_sub word_le_nat_alt)
      then have room: "unat (c_outq_count ?c) < 64" by simp
      have push: "outq_push now nt (c, g) =
          (?c\<lparr>c_outq := (c_outq ?c)[unat (c_outq_tail ?c) := nt],
             c_outq_tail := (c_outq_tail ?c + 1) mod RTDBD_OUTQ_CAP, c_outq_count := c_outq_count ?c + 1\<rparr>,
           (rtdbd_stats_note_error now (g\<lparr>notify_drop := notify_drop g + 1\<rparr>))
             \<lparr>n_notifies := n_notifies g + 1\<rparr>)"
        using True False s0 by (cases c) (simp add: outq_push_def RTDBD_OUTQ_CAP_def word_unat_eq_iff)
      from outq_push_append [OF outq_pop(1) [OF inv ne] room, of nt] show ?thesis
        using True s0 c63 outq_pop(2) [OF inv ne] unfolding push by (simp add: outq_abst_def)
    qed (use True inv sent in \<open>simp add: outq_push_def full outq_abst_def\<close>)
  qed
  then show "outq_inv (fst (outq_push now nt (c, g)))"
    "outq_spec_step (Push nt) (outq_abst (c, g)) = (([], 0), outq_abst (outq_push now nt (c, g)))"
    by simp_all
qed

lemma outq_discard_spec:
  assumes "outq_inv c"
  shows "outq_inv (fst (conn_discard_outq now c g))"
    "pending (fst (conn_discard_outq now c g)) = []"
    "notify_drop (snd (conn_discard_outq now c g)) = notify_drop g + word_of_nat (length (pending c))"
proof -
  show "outq_inv (fst (conn_discard_outq now c g))" "pending (fst (conn_discard_outq now c g)) = []"
    using outq_invD(1) [OF assms] by (simp_all add: conn_discard_outq_def outq_inv_def pending_def)
  have "ucast (c_outq_count c) = (word_of_nat (unat (c_outq_count c)) :: u64)" by simp
  moreover have "c_outq_count c = 0" if "\<not> 0 < c_outq_count c" using that word_neq_0_conv by blast
  ultimately show "notify_drop (snd (conn_discard_outq now c g)) = notify_drop g + word_of_nat (length (pending c))"
    by (cases "0 < c_outq_count c") (simp_all add: conn_discard_outq_def)
qed

lemma outq_flush_spec:
  "outq_inv c \<Longrightarrow> outq_inv (fst (snd (outq_flush now rs c g)))
     \<and> flush_spec rs (outq_abst (c, g)) = (fst (outq_flush now rs c g), outq_abst (snd (outq_flush now rs c g)))"
proof (induction rs arbitrary: c g)
  case (Cons r rs)
  note I = outq_invD [OF Cons.prems]
  show ?case
  proof (cases "c_outq_count c = 0")
    case True
    then have "pending c = []" by (simp add: pending_def)
    then show ?thesis using True Cons.prems by (simp add: outq_abst_def)
  next
    case False
    let ?p = "c_outq c ! unat (c_outq_head c)"
    let ?c1 = "c\<lparr>c_outq_head := (c_outq_head c + 1) mod RTDBD_OUTQ_CAP,
       c_outq_count := c_outq_count c - 1, c_outq_sent := 0\<rparr>"
    note pop = outq_pop [OF Cons.prems False]
    have abst: "outq_abst (c, g) = (?p # pending ?c1, unat (c_outq_sent c), notify_drop g)"
      by (simp add: outq_abst_def pop(2))
    show ?thesis
    proof (cases r)
      case Eintr
      then show ?thesis using Cons.IH [OF Cons.prems, of g] False abst by simp
    next
      case Eagain
      then show ?thesis using Cons.prems False abst by (simp add: outq_abst_def pop(2))
    next
      case Send_fails
      have "length (pending c) = Suc (length (pending ?c1))" by (simp only: pop(2) list.size(4))
      then show ?thesis
        using Send_fails False outq_discard_spec [OF Cons.prems, of now g] abst
        by (simp add: outq_abst_def split_beta conn_discard_outq_def Let_def)
    next
      case (Takes k)
      let ?out = "take k (drop (unat (c_outq_sent c)) (notify_frame ?p))"
      let ?c2 = "c\<lparr>c_outq_sent := c_outq_sent c + word_of_nat (length ?out)\<rparr>"
      have "length ?out \<le> 44 - unat (c_outq_sent c)" by simp
      then have le: "unat (c_outq_sent c) + length ?out \<le> 44" using I(5) by linarith
      have sent: "unat (c_outq_sent c + word_of_nat (length ?out)) = unat (c_outq_sent c) + length ?out"
        using le by (simp add: unat_word_ariths unat_of_nat del: length_take length_drop)
      show ?thesis
      proof (cases "?out = []")
        case True
        then have f: "outq_flush now (r # rs) c g = (([], 0), c, g)"
          using Takes False by (simp del: take_eq_Nil drop_eq_Nil)
        have "flush_spec (r # rs) (outq_abst (c, g)) = (([], 0), outq_abst (c, g))"
          using True Takes abst by (simp del: take_eq_Nil drop_eq_Nil)
        then show ?thesis unfolding f using Cons.prems by simp
      next
        case ne: False
        show ?thesis
        proof (cases "unat (c_outq_sent c) + length ?out < 44")
          case True
          have f: "outq_flush now (r # rs) c g = ((?out, 0), ?c2, g)"
            using Takes False ne True sent
            by (simp add: Let_def RTDBD_NOTIFY_FRAME_LEN_def del: take_eq_Nil drop_eq_Nil length_take length_drop)
          have "flush_spec (r # rs) (outq_abst (c, g)) =
              ((?out, 0), ?p # pending ?c1, unat (c_outq_sent c) + length ?out, notify_drop g)"
            using Takes ne True abst by (simp add: Let_def del: take_eq_Nil drop_eq_Nil length_take length_drop)
          moreover have "pending ?c2 = ?p # pending ?c1"
            using pop(2) by (simp add: pending_def)
          moreover have "outq_inv ?c2"
            using I True sent False by (simp add: outq_inv_def unat_eq_0 del: length_take length_drop)
          ultimately show ?thesis unfolding f using sent by (simp add: outq_abst_def del: length_take length_drop)
        next
          case False': False
          have step: "?c2\<lparr>c_outq_head := (c_outq_head ?c2 + 1) mod RTDBD_OUTQ_CAP,
              c_outq_count := c_outq_count ?c2 - 1, c_outq_sent := 0\<rparr> = ?c1"
            by simp
          have f: "outq_flush now (r # rs) c g =
              ((?out @ fst (fst (outq_flush now rs ?c1 g)), snd (fst (outq_flush now rs ?c1 g))),
               snd (outq_flush now rs ?c1 g))"
            using Takes False ne False' sent
            by (simp add: Let_def RTDBD_NOTIFY_FRAME_LEN_def split_beta del: take_eq_Nil drop_eq_Nil length_take length_drop)
          have a1: "outq_abst (?c1, g) = (pending ?c1, 0, notify_drop g)"
            by (simp add: outq_abst_def)
          have "flush_spec (r # rs) (outq_abst (c, g)) =
              ((?out @ fst (fst (flush_spec rs (outq_abst (?c1, g)))), snd (fst (flush_spec rs (outq_abst (?c1, g))))),
               snd (flush_spec rs (outq_abst (?c1, g))))"
            using Takes ne False' abst unfolding a1
            by (simp add: Let_def split_beta del: take_eq_Nil drop_eq_Nil length_take length_drop)
          then show ?thesis unfolding f using Cons.IH [OF pop(1), of g] by simp
        qed
      qed
    qed
  qed
qed simp

interpretation outq: refinement "outq_step now" outq_spec_step "\<lambda>cg. outq_inv (fst cg)" outq_abst "\<lambda>_. True"
proof unfold_locales
  fix s :: "conn \<times> rtdbd_stats" and cmd
  assume inv: "outq_inv (fst s)"
  obtain c g where s: "s = (c, g)" by (cases s)
  show "outq_inv (fst (snd (outq_step now cmd s)))"
    using inv outq_push_spec(1) [of c now _ g] outq_flush_spec [of c now _ g] s by (cases cmd) auto
  show "outq_spec_step cmd (outq_abst s) = (fst (outq_step now cmd s), outq_abst (snd (outq_step now cmd s)))"
    using inv outq_push_spec(2) [of c _ g now] outq_flush_spec [of c now _ g] s by (cases cmd) auto
qed

section \<open>The byte stream of a connection\<close>

definition frames :: "notify list \<Rightarrow> u8 list" where
  "frames nts = concat (map notify_frame nts)"

lemma frames_simps [simp]:
  "frames [] = []" "frames (nt # nts) = notify_frame nt @ frames nts" "frames (xs @ ys) = frames xs @ frames ys"
  by (simp_all add: frames_def)

fun pushed :: "outq_cmd list \<Rightarrow> notify list" where
  "pushed [] = []"
| "pushed (Push nt # cmds) = nt # pushed cmds"
| "pushed (Flush rs # cmds) = pushed cmds"

definition spec_ok :: "outq_spec \<Rightarrow> bool" where
  "spec_ok s \<longleftrightarrow> (case s of (ps, k, d) \<Rightarrow> k < 44 \<and> (ps = [] \<longrightarrow> k = 0))"

text \<open>
  \<open>advances s new out s'\<close>: with \<open>new\<close> offered in state \<open>s\<close> and \<open>out\<close> written, the first \<open>done\<close>
  notifications have left completely and the rest is \<open>s'\<close>.
\<close>

definition advances :: "outq_spec \<Rightarrow> notify list \<Rightarrow> u8 list \<Rightarrow> outq_spec \<Rightarrow> bool" where
  "advances s new out s' \<longleftrightarrow>
     (case (s, s') of ((ps, k, d), (ps', k', d')) \<Rightarrow>
        spec_ok s' \<and> (\<exists>done. take k (frames ps) @ out = frames done @ take k' (frames ps')
          \<and> subseq (done @ ps') (ps @ new)
          \<and> d' + word_of_nat (length done + length ps') = d + word_of_nat (length ps + length new)))"

lemma advances_refl: "spec_ok s \<Longrightarrow> advances s [] [] s"
  by (auto simp: advances_def split_beta intro: exI [of _ "[]"])

lemma add_chain:
  fixes d :: "'a :: ab_group_add"
  assumes "d1 + (a + p1) = d + (p + n)" "d2 + (b + p2) = d1 + (p1 + n')"
  shows "d2 + (a + b + p2) = d + (p + (n + n'))"
proof -
  have "d1 = d + (p + n) - (a + p1)" "d2 = d1 + (p1 + n') - (b + p2)"
    using assms by (simp_all add: eq_diff_eq)
  then show ?thesis by (simp add: algebra_simps)
qed

lemma spec_ok_le: "spec_ok (ps, k, d) \<Longrightarrow> k \<le> length (frames ps)"
  by (cases ps) (simp_all add: spec_ok_def)

lemma advances_trans:
  assumes "advances s new out s1" "advances s1 new' out' s2"
  shows "advances s (new @ new') (out @ out') s2"
proof -
  obtain ps k d ps1 k1 d1 ps2 k2 d2 where s: "s = (ps, k, d)" "s1 = (ps1, k1, d1)" "s2 = (ps2, k2, d2)"
    by (metis prod_cases3)
  obtain done1 where 1: "take k (frames ps) @ out = frames done1 @ take k1 (frames ps1)"
      "subseq (done1 @ ps1) (ps @ new)" "d1 + word_of_nat (length done1 + length ps1) = d + word_of_nat (length ps + length new)"
    using assms(1) unfolding s advances_def by auto
  obtain done2 where 2: "take k1 (frames ps1) @ out' = frames done2 @ take k2 (frames ps2)"
      "subseq (done2 @ ps2) (ps1 @ new')" "d2 + word_of_nat (length done2 + length ps2) = d1 + word_of_nat (length ps1 + length new')"
      "spec_ok s2"
    using assms(2) unfolding s advances_def by auto
  have "take k (frames ps) @ out @ out' = frames (done1 @ done2) @ take k2 (frames ps2)"
    using 1(1) 2(1) by (metis append_assoc frames_simps(3))
  moreover have "subseq ((done1 @ done2) @ ps2) (ps @ new @ new')"
  proof -
    have "subseq (done1 @ (done2 @ ps2)) (done1 @ (ps1 @ new'))" using 2(2) by (rule list_emb_append_mono [OF subseq_order.order_refl])
    moreover have "subseq ((done1 @ ps1) @ new') ((ps @ new) @ new')" using 1(2) by (rule list_emb_append_mono) simp
    ultimately show ?thesis by (metis append_assoc subseq_order.order_trans)
  qed
  moreover have "d2 + word_of_nat (length (done1 @ done2) + length ps2) = d + word_of_nat (length ps + length (new @ new'))"
    using add_chain [of d1 _ _ d _ _ d2] 1(3) 2(3) unfolding length_append of_nat_add by blast
  ultimately show ?thesis using 2(4) unfolding s advances_def prod.case append_assoc [symmetric]
    by (intro conjI exI [of _ "done1 @ done2"]) (simp_all only: append_assoc)
qed

lemma flush_spec_advances:
  "spec_ok s \<Longrightarrow> flush_spec rs s = ((out, 0), s') \<Longrightarrow> advances s [] out s'"
proof (induction rs s arbitrary: out s' rule: flush_spec.induct)
  case (1 s)
  then show ?case by (simp add: advances_refl)
next
  case (2 r rs k d)
  then show ?case by (auto simp: advances_refl)
next
  case (3 r rs p ps k d)
  show ?case
  proof (cases r)
    case Eintr
    then show ?thesis using 3 by simp
  next
    case Eagain
    then show ?thesis using 3 by (auto simp: advances_refl)
  next
    case Send_fails
    then show ?thesis using 3 by simp
  next
    case (Takes n)
    let ?out = "take n (drop k (notify_frame p))"
    have k: "k < 44" using 3 by (simp add: spec_ok_def)
    have fr: "take (k + length ?out) (notify_frame p) = take k (notify_frame p) @ ?out"
      by (simp add: take_add min_def)
    show ?thesis
    proof (cases "?out = []")
      case True
      then have "out = []" "s' = (p # ps, k, d)" using 3(4) Takes by (auto simp del: take_eq_Nil drop_eq_Nil)
      then show ?thesis using advances_refl [OF 3(3)] by simp
    next
      case ne: False
      show ?thesis
      proof (cases "k + length ?out < 44")
        case True
        then have o: "out = ?out" and s': "s' = (p # ps, k + length ?out, d)"
          using 3(4) Takes ne by (auto simp: Let_def simp del: take_eq_Nil drop_eq_Nil length_take length_drop)
        show ?thesis unfolding s' o advances_def
          using k True fr by (auto simp: spec_ok_def simp del: length_take length_drop intro!: exI [of _ "[]"])
      next
        case False
        let ?r = "flush_spec rs (ps, 0, d)"
        have full: "length ?out = 44 - k" using False k by auto
        have o: "out = ?out @ fst (fst ?r)" and rc: "snd (fst ?r) = 0" and s': "s' = snd ?r"
          using 3(4) Takes ne False
          by (auto simp: Let_def split_beta simp del: take_eq_Nil drop_eq_Nil length_take length_drop)
        have whole: "take k (notify_frame p) @ ?out = notify_frame p"
          using fr full k by simp
        have "advances (p # ps, k, d) [] ?out (ps, 0, d)"
          using k whole by (auto simp: advances_def spec_ok_def intro!: exI [of _ "[p]"])
        moreover have "flush_spec rs (ps, 0, d) = ((fst (fst ?r), 0), snd ?r)"
          using rc by (metis prod.collapse)
        then have "advances (ps, 0, d) [] (fst (fst ?r)) (snd ?r)"
          using 3(1) [OF Takes refl ne False] by (simp add: spec_ok_def)
        ultimately show ?thesis unfolding o s' by (metis advances_trans append_Nil)
      qed
    qed
  qed
qed

lemma outq_spec_step_advances:
  assumes "spec_ok s" "outq_spec_step cmd s = ((out, 0), s')"
  shows "advances s (pushed [cmd]) out s'"
proof (cases cmd)
  case (Flush rs)
  then show ?thesis using flush_spec_advances [OF assms(1)] assms(2) by simp
next
  case (Push nt)
  obtain ps k d where s: "s = (ps, k, d)" by (cases s)
  show ?thesis
  proof (cases "length ps = 64 \<and> k = 0")
    case True
    then obtain p ps0 where ps: "ps = p # ps0" by (cases ps) auto
    have "subseq (ps0 @ [nt]) (ps @ [nt])" unfolding ps by (simp add: list_emb_Cons)
    then show ?thesis using assms Push s True ps by (auto simp: advances_def spec_ok_def intro!: exI [of _ "[]"])
  next
    case False
    then show ?thesis
      using assms Push s spec_ok_le [of ps k d]
      by (auto simp: advances_def spec_ok_def split: if_splits intro!: exI [of _ "[]"])
  qed
qed

lemma outq_run_advances:
  "spec_ok s \<Longrightarrow> run outq_spec_step cmds s = (rs, s') \<Longrightarrow> \<forall>r \<in> set rs. snd r = 0 \<Longrightarrow>
     advances s (pushed cmds) (concat (map fst rs)) s'"
proof (induction cmds arbitrary: s rs)
  case (Cons cmd cmds)
  obtain out rc s1 where step: "outq_spec_step cmd s = ((out, rc), s1)" by (metis prod.collapse)
  obtain rs1 where rs: "rs = (out, rc) # rs1" and rest: "run outq_spec_step cmds s1 = (rs1, s')"
    using Cons.prems(2) step by (auto split: prod.splits)
  have a: "advances s (pushed [cmd]) out s1"
    using outq_spec_step_advances [OF Cons.prems(1)] step Cons.prems(3) rs by simp
  then have "spec_ok s1" by (cases s, cases s1) (simp add: advances_def)
  from advances_trans [OF a Cons.IH [OF this rest]] Cons.prems(3) rs show ?case by (cases cmd) auto
qed (simp add: advances_refl)

text \<open>
  C13. No mixed frames under back pressure: whatever sequence of notifications is queued on a fresh
  connection and however the socket takes the bytes (short writes, interrupts, nothing at all), as
  long as it does not fail, what has been written is a list of complete notification frames followed
  by the sent part of the frame at the head of the queue; the frames on the wire and in the queue are
  an ordered selection of the queued ones, and every one that is missing has been counted as dropped.
\<close>

theorem outq_stream_whole_frames:
  assumes "outq_inv c" "c_outq_count c = 0"
    "run (outq_step now) cmds (c, g) = (rs, (c', g'))" "\<forall>r \<in> set rs. snd r = 0"
  shows "outq_inv c' \<and> (\<exists>sent.
      concat (map fst rs) = concat (map notify_frame sent) @ take (unat (c_outq_sent c')) (concat (map notify_frame (pending c')))
      \<and> subseq (sent @ pending c') (pushed cmds)
      \<and> notify_drop g' = notify_drop g + word_of_nat (length (pushed cmds) - (length sent + length (pending c'))))"
proof -
  have a: "list_all (\<lambda>_. True) cmds" by (simp add: list_all_iff)
  have p: "pending c = []" and s0: "unat (c_outq_sent c) = 0"
    using assms(1,2) by (simp_all add: pending_def outq_inv_def)
  have inv: "outq_inv c'"
    using outq.run_inv [of "(c, g)" cmds now] assms(1,3) a by simp
  have spec: "run outq_spec_step cmds ([], 0, notify_drop g) = (rs, outq_abst (c', g'))"
    using outq.run_spec [of "(c, g)" cmds now] assms(1,3) a p s0 by (simp add: outq_abst_def)
  have "advances ([], 0, notify_drop g) (pushed cmds) (concat (map fst rs)) (outq_abst (c', g'))"
    by (rule outq_run_advances [OF _ spec assms(4)]) (simp add: spec_ok_def)
  then obtain sent where o: "concat (map fst rs) = frames sent @ take (unat (c_outq_sent c')) (frames (pending c'))"
      and sub: "subseq (sent @ pending c') (pushed cmds)"
      and d: "notify_drop g' + word_of_nat (length sent + length (pending c'))
         = notify_drop g + word_of_nat (length (pushed cmds))"
    by (auto simp: advances_def outq_abst_def)
  have le: "length sent + length (pending c') \<le> length (pushed cmds)"
    using list_emb_length [OF sub] by simp
  have "notify_drop g' = notify_drop g + word_of_nat (length (pushed cmds) - (length sent + length (pending c')))"
    using d le by (simp only: of_nat_diff diff_add_eq [symmetric]) (simp add: algebra_simps)
  then show ?thesis using inv o sub unfolding frames_def by blast
qed

definition demo_conn :: conn where
  "demo_conn = \<lparr>c_fd = 5, c_partition = 0, c_subs = [7], c_rbe = rbe_state_init,
     c_outq = replicate 64 \<lparr>nt_point_id = 0, nt_type = 0, nt_value_bits = 0, nt_timestamp_ns = 0, nt_source_ts_ns = 0\<rparr>,
     c_outq_head = 0, c_outq_tail = 0, c_outq_count = 0, c_outq_sent = 0\<rparr>"

definition demo_notify :: "u64 \<Rightarrow> notify" where
  "demo_notify v = \<lparr>nt_point_id = 7, nt_type = 4, nt_value_bits = v, nt_timestamp_ns = 9, nt_source_ts_ns = 8\<rparr>"

lemma demo_conn_inv: "outq_inv demo_conn" "c_outq_count demo_conn = 0"
  by (simp_all add: outq_inv_def demo_conn_def)

theorem outq_stream_whole_frames_witness:
  "\<exists>sent. take 20 (notify_frame (demo_notify 1)) = concat (map notify_frame sent)
     @ take (unat (c_outq_sent (fst (snd (run (outq_step 3) [Push (demo_notify 1), Flush [Eintr, Takes 20]] (demo_conn, zero_stats))))))
        (concat (map notify_frame (pending (fst (snd (run (outq_step 3) [Push (demo_notify 1), Flush [Eintr, Takes 20]] (demo_conn, zero_stats)))))))"
proof -
  let ?cmds = "[Push (demo_notify 1), Flush [Eintr, Takes 20]]"
  obtain rs c' g' where r: "run (outq_step 3) ?cmds (demo_conn, zero_stats) = (rs, (c', g'))"
    by (metis prod_cases3)
  have rs: "rs = [([], 0), (take 20 (notify_frame (demo_notify 1)), 0)]"
    using r by (auto simp: outq_push_def demo_conn_def RTDBD_OUTQ_CAP_def RTDBD_NOTIFY_FRAME_LEN_def Let_def)
  have "\<forall>r \<in> set rs. snd r = 0" by (simp add: rs)
  from outq_stream_whole_frames [OF demo_conn_inv r this] show ?thesis unfolding r rs by auto
qed

text \<open>
  C39. A queue drains: when the socket takes whole frames again, as many answers as there are queued
  notifications empty the queue, and exactly the unsent rest of the queued frames is written.
\<close>

theorem outq_drains:
  assumes "outq_inv c" "unat (c_outq_count c) \<le> n"
  shows "\<exists>c'. outq_flush now (replicate n (Takes 44)) c g = ((drop (unat (c_outq_sent c)) (concat (map notify_frame (pending c))), 0), c', g)
    \<and> c_outq_count c' = 0"
  using assms
proof (induction n arbitrary: c)
  case 0
  then have "c_outq_count c = 0" by (simp add: unat_eq_0)
  then show ?case by (simp add: pending_def)
next
  case (Suc n)
  show ?case
  proof (cases "c_outq_count c = 0")
    case True
    then show ?thesis by (simp add: pending_def)
  next
    case False
    let ?c1 = "c\<lparr>c_outq_head := (c_outq_head c + 1) mod RTDBD_OUTQ_CAP,
       c_outq_count := c_outq_count c - 1, c_outq_sent := 0\<rparr>"
    let ?p = "c_outq c ! unat (c_outq_head c)" and ?s = "unat (c_outq_sent c)"
    note pop = outq_pop [OF Suc.prems(1) False] and I = outq_invD [OF Suc.prems(1)]
    have "length (pending c) = Suc (length (pending ?c1))" by (simp only: pop(2) list.size(4))
    then have "unat (c_outq_count ?c1) \<le> n" using Suc.prems(2) by simp
    from Suc.IH [OF pop(1) this] obtain c' where c': "outq_flush now (replicate n (Takes 44)) ?c1 g =
        ((concat (map notify_frame (pending ?c1)), 0), c', g)" "c_outq_count c' = 0"
      by auto
    have out: "take 44 (drop ?s (notify_frame ?p)) = drop ?s (notify_frame ?p)" by simp
    have ne: "drop ?s (notify_frame ?p) \<noteq> []" using I(5) by simp
    have sent: "unat (c_outq_sent c + word_of_nat (44 - ?s)) = 44"
      using I(5) by (simp add: unat_word_ariths unat_of_nat)
    have "outq_flush now (replicate (Suc n) (Takes 44)) c g =
        ((drop ?s (notify_frame ?p) @ concat (map notify_frame (pending ?c1)), 0), c', g)"
      using False ne sent c'(1) by (simp add: out RTDBD_NOTIFY_FRAME_LEN_def Let_def)
    then show ?thesis using c'(2) I(5) by (simp add: pop(2))
  qed
qed

text \<open>Two notifications are queued and 20 bytes of the first have been sent.\<close>

definition demo_busy :: "conn \<times> rtdbd_stats" where
  "demo_busy = snd (run (outq_step 3) [Push (demo_notify 1), Push (demo_notify 2), Flush [Takes 20]] (demo_conn, zero_stats))"

lemma demo_busy: "outq_inv (fst demo_busy)" "pending (fst demo_busy) = [demo_notify 1, demo_notify 2]"
  "unat (c_outq_sent (fst demo_busy)) = 20"
proof -
  let ?cmds = "[Push (demo_notify 1), Push (demo_notify 2), Flush [Takes 20]]"
  have i: "outq_inv (fst (demo_conn, zero_stats))" and a: "list_all (\<lambda>_. True) ?cmds"
    using demo_conn_inv(1) by simp_all
  have "pending demo_conn = []" "unat (c_outq_sent demo_conn) = 0" using demo_conn_inv(2) by (simp_all add: pending_def demo_conn_def)
  then have "outq_abst demo_busy = ([demo_notify 1, demo_notify 2], 20, notify_drop zero_stats)"
    using outq.run_spec [OF i a, of 3] unfolding demo_busy_def by (simp add: outq_abst_def split_beta Let_def)
  then show "pending (fst demo_busy) = [demo_notify 1, demo_notify 2]" "unat (c_outq_sent (fst demo_busy)) = 20"
    by (simp_all add: outq_abst_def)
  show "outq_inv (fst demo_busy)" using outq.run_inv [OF i a, of 3] unfolding demo_busy_def by simp
qed

theorem outq_drains_witness:
  "\<exists>c'. outq_flush 3 (replicate 2 (Takes 44)) (fst demo_busy) zero_stats =
      ((drop 20 (notify_frame (demo_notify 1) @ notify_frame (demo_notify 2)), 0), c', zero_stats)
    \<and> c_outq_count c' = 0"
proof -
  have "unat (c_outq_count (fst demo_busy)) = length (pending (fst demo_busy))" by simp
  then have "unat (c_outq_count (fst demo_busy)) \<le> 2" by (simp add: demo_busy(2))
  from outq_drains [OF demo_busy(1) this, of 3 zero_stats] show ?thesis
    unfolding demo_busy(2,3) by simp
qed

section \<open>A broadcast to a blocked subscriber\<close>

lemma broadcast_one:
  assumes "0 \<le> c_fd c" "nt_point_id nt \<in> set (c_subs c)" "rbe_decide (c_rbe c) (nt_point_id nt) v (Some m) = (send, rbe)"
  shows "broadcast_loop now nt v m [c] g =
    (if send then ([fst (outq_push now nt (c\<lparr>c_rbe := rbe\<rparr>, g))], snd (outq_push now nt (c\<lparr>c_rbe := rbe\<rparr>, g)))
     else ([c\<lparr>c_rbe := rbe\<rparr>], g))"
  using assms by (simp add: conn_has_sub_def split_beta Let_def)

text \<open>
  A dropped notification still becomes the reference of the dead band: when the queue of a
  subscriber is full and its first frame partly sent, a value that should be reported is dropped, but
  remembered as the last reported one, so a following value within the dead band of the dropped one
  is suppressed although the subscriber has seen neither.
\<close>

theorem dropped_notification_moves_reference:
  assumes "rbe_inv (c_rbe c)" "nt_point_id nt \<noteq> 0" "0 \<le> c_fd c" "nt_point_id nt \<in> set (c_subs c)"
    "c_outq_count c = RTDBD_OUTQ_CAP" "0 < c_outq_sent c"
    "rbe_map (c_rbe c) (nt_point_id nt) = Some old" "rbe_report (Some m) old v"
    "nt_point_id nt' = nt_point_id nt" "\<not> rbe_report (Some m) v v'"
  shows "case broadcast_loop now nt v m [c] g of (cs, g1) \<Rightarrow>
    (case broadcast_loop now' nt' v' m cs g1 of (cs', g2) \<Rightarrow>
       length cs' = 1 \<and> pending (cs' ! 0) = pending c \<and> notify_drop g2 = notify_drop g + 1)"
proof -
  let ?pid = "nt_point_id nt"
  obtain send rbe1 where d1: "rbe_decide (c_rbe c) ?pid v (Some m) = (send, rbe1)" by (metis prod.collapse)
  have m1: "rbe_inv rbe1" "send" "rbe_map rbe1 ?pid = Some v"
    using rbe_decide_map [OF assms(1,2) d1] assms(2,7,8) by auto
  let ?c1 = "c\<lparr>c_rbe := rbe1\<rparr>" and ?g1 = "rtdbd_stats_note_error now (g\<lparr>notify_drop := notify_drop g + 1\<rparr>)"
  have push: "outq_push now nt (?c1, g) = (?c1, ?g1)"
    using assms(5,6) by (simp add: outq_push_def)
  have b1: "broadcast_loop now nt v m [c] g = ([?c1], ?g1)"
    using broadcast_one [OF assms(3,4) d1] m1(2) push by simp
  obtain send2 rbe2 where d2: "rbe_decide rbe1 ?pid v' (Some m) = (send2, rbe2)" by (metis prod.collapse)
  have "\<not> send2"
    using rbe_decide_map [OF m1(1) assms(2) d2] m1(3) assms(10) by auto
  then have b2: "broadcast_loop now' nt' v' m [?c1] ?g1 = ([?c1\<lparr>c_rbe := rbe2\<rparr>], ?g1)"
    using broadcast_one [of ?c1 nt' v' m send2 rbe2 now' ?g1] assms(3,4,9) d2 by simp
  show ?thesis unfolding b1 prod.case b2 by (simp add: pending_def)
qed

definition full_conn :: conn where
  "full_conn = demo_conn\<lparr>c_outq_count := 64, c_outq_sent := 20,
     c_rbe := snd (rbe_decide rbe_state_init 7 (Fin 0) None)\<rparr>"

definition deadband_meta :: meta where
  "deadband_meta = zero_meta\<lparr>m_flags := 2\<rparr>"

lemma full_conn_rbe:
  "rbe_inv (c_rbe full_conn)" "rbe_map (c_rbe full_conn) 7 = Some (Fin 0)"
proof -
  obtain send s' where d: "rbe_decide rbe_state_init 7 (Fin 0) None = (send, s')" by (metis prod.collapse)
  have "(7 :: u32) \<noteq> 0" by simp
  from rbe_decide_map [OF rbe_init_inv(1) this d] have "rbe_inv s'" "rbe_map s' 7 = Some (Fin 0)"
    using rbe_init_inv(2,3) by auto
  then show "rbe_inv (c_rbe full_conn)" "rbe_map (c_rbe full_conn) 7 = Some (Fin 0)"
    using d by (simp_all add: full_conn_def)
qed

lemma deadband_meta_report: "rbe_report (Some deadband_meta) (Fin 0) (Fin 1)" "\<not> rbe_report (Some deadband_meta) (Fin 1) (Fin 1)"
proof -
  have "(2 :: u32) AND META_FLAG_EUR = 0" "(2 :: u32) AND META_FLAG_DEADBAND_PCT = 0"
    "(2 :: u32) AND (META_FLAG_DEADBAND OR META_FLAG_DEADBAND_PCT) \<noteq> 0"
    by (simp_all add: META_FLAG_EUR_def META_FLAG_DEADBAND_PCT_def META_FLAG_DEADBAND_def)
  moreover have "f64_of_f32_bits 0 = Fin 0" by (simp add: f64_of_f32_bits_def Let_def)
  moreover have "f64_round 1 0 = Fin 1"
    by (simp add: f64_round_def f64_round_mag_def round_half_even_def bit_len.simps [of "Suc 0"] bit_len.simps [of 0] Let_def)
  ultimately show "rbe_report (Some deadband_meta) (Fin 0) (Fin 1)" "\<not> rbe_report (Some deadband_meta) (Fin 1) (Fin 1)"
    by (simp_all add: rbe_report_def indurtdb_deadband_exceeded_def deadband_meta_def zero_meta_def f64_round_zero Let_def)
qed

theorem dropped_notification_moves_reference_witness:
  "case broadcast_loop 3 (demo_notify 1) (Fin 1) deadband_meta [full_conn] zero_stats of (cs, g1) \<Rightarrow>
    (case broadcast_loop 4 (demo_notify 1) (Fin 1) deadband_meta cs g1 of (cs', g2) \<Rightarrow>
       length cs' = 1 \<and> pending (cs' ! 0) = pending full_conn \<and> notify_drop g2 = notify_drop zero_stats + 1)"
  by (rule dropped_notification_moves_reference [where old = "Fin 0"])
     (simp_all add: full_conn_rbe deadband_meta_report demo_notify_def, simp_all add: full_conn_def demo_conn_def RTDBD_OUTQ_CAP_def)

end
