(* ===== verification/Server.thy ===== *)
theory Server
  imports Conn Policy
begin

text \<open>
  The request handlers of the daemon (\<^verbatim>\<open>rtdbd/src/rtdbd.c\<close>): blocking reads and writes of a socket,
  the handler of every operation, the dispatch. A socket is the list of what \<open>recv\<close> will return, the
  bytes written so far and the answers that blocking \<open>send\<close> calls will give (an exhausted list takes
  everything). Clocks and what the unbounded read loops of the library observe are the fields of
  \<open>req_env\<close>; a handler returns \<open>None\<close> while such a loop does not end.
\<close>

section \<open>Sockets\<close>

datatype rx_event = Data "u8 list" | Rx_eintr | Rx_error

record io =
  io_rx :: "rx_event list"
  io_tx :: "u8 list"
  io_env :: "send_res list"
  io_cred :: "(u32 \<times> u32) option"       \<comment> \<open>pid and uid of the peer, if the kernel tells\<close>

fun send_all :: "u8 list \<Rightarrow> send_res list \<Rightarrow> (u8 list \<times> int) \<times> send_res list" where
  "send_all bs [] = ((bs, 0), [])"
| "send_all bs (r # rs) =
     (if bs = [] then (([], 0), r # rs)
      else case r of
        Eintr \<Rightarrow> send_all bs rs
      | Eagain \<Rightarrow> (([], -1), rs)
      | Send_fails \<Rightarrow> (([], -1), rs)
      | Takes k \<Rightarrow>
          if take k bs = [] then (([], -1), rs)
          else let ((out, rc), rs) = send_all (drop k bs) rs in ((take k bs @ out, rc), rs))"

text \<open>A read at the end of the list, or of no data, means that the peer has closed.\<close>

function recv_all :: "nat \<Rightarrow> rx_event list \<Rightarrow> u8 list option \<times> rx_event list" where
  "recv_all len evs =
     (if len = 0 then (Some [], evs)
      else case evs of
        [] \<Rightarrow> (None, [])
      | Rx_eintr # evs \<Rightarrow> recv_all len evs
      | Rx_error # evs \<Rightarrow> (None, evs)
      | Data bs # evs \<Rightarrow>
          if bs = [] then (None, evs)
          else
            case recv_all (len - length (take len bs)) (if length bs \<le> len then evs else Data (drop len bs) # evs) of
              (None, evs) \<Rightarrow> (None, evs)
            | (Some r, evs) \<Rightarrow> (Some (take len bs @ r), evs))"
  by pat_completeness auto
termination
  by (relation "measure (\<lambda>(len, evs). len + length evs)") (auto simp: min_def neq_Nil_conv split: if_splits)

declare recv_all.simps [simp del]

section \<open>The daemon's state\<close>

record srv =
  s_h :: indurtdb
  s_policy :: irt_policy
  s_conf :: rtdbd_conf
  s_audit :: irt_audit
  s_log :: irt_logbuf
  s_stats :: rtdbd_stats
  s_conns :: "conn list"
  s_io :: "int \<Rightarrow> io"
  g_max_points :: u32

record req_env =
  en_now :: u64             \<comment> \<open>the monotonic clock in the handler\<close>
  en_later :: u64           \<comment> \<open>the same during the broadcast\<close>
  en_wall :: u64            \<comment> \<open>the wall clock of log entries\<close>
  en_write :: u64           \<comment> \<open>the clock of the library's write\<close>
  en_d :: nat               \<comment> \<open>disturbed attempts of a bounded read\<close>
  en_ob :: "u32 \<Rightarrow> obs"     \<comment> \<open>what the read loop of a point observes\<close>
  en_torn :: meta           \<comment> \<open>what a metadata read that gives up leaves in the buffer\<close>

record req_hdr =
  rq_magic :: u32
  rq_version :: u16
  rq_opcode :: u16
  rq_len :: u32

definition req_hdr_of :: "u8 list \<Rightarrow> req_hdr" where
  "req_hdr_of bs = \<lparr>rq_magic = of_le (take 4 bs), rq_version = of_le (take 2 (drop 4 bs)),
     rq_opcode = of_le (take 2 (drop 6 bs)), rq_len = of_le (take 4 (drop 8 bs))\<rparr>"

definition RTDBD_ST_OK :: u16 where "RTDBD_ST_OK = 0"
definition RTDBD_ST_BAD_REQUEST :: u16 where "RTDBD_ST_BAD_REQUEST = 1"
definition RTDBD_ST_DENIED :: u16 where "RTDBD_ST_DENIED = 2"
definition RTDBD_ST_INTERNAL :: u16 where "RTDBD_ST_INTERNAL = 3"
definition RTDBD_ST_NOT_FOUND :: u16 where "RTDBD_ST_NOT_FOUND = 4"
definition RTDBD_PARTITION_ALL :: u32 where "RTDBD_PARTITION_ALL = 0xFFFFFFFF"
definition RTDBD_LIST_CHUNK :: u32 where "RTDBD_LIST_CHUNK = 1024"

text \<open>Writing to and reading from the socket \<open>fd\<close>.\<close>

definition send_bytes :: "int \<Rightarrow> u8 list \<Rightarrow> srv \<Rightarrow> int \<times> srv" where
  "send_bytes fd bs s =
     (let io = s_io s fd; ((out, rc), rs) = send_all bs (io_env io)
      in (rc, s\<lparr>s_io := (s_io s)(fd := io\<lparr>io_tx := io_tx io @ out, io_env := rs\<rparr>)\<rparr>))"

definition recv_bytes :: "int \<Rightarrow> nat \<Rightarrow> srv \<Rightarrow> u8 list option \<times> srv" where
  "recv_bytes fd len s =
     (let io = s_io s fd; (r, evs) = recv_all len (io_rx io)
      in (r, s\<lparr>s_io := (s_io s)(fd := io\<lparr>io_rx := evs\<rparr>)\<rparr>))"

definition send_resp :: "int \<Rightarrow> u16 \<Rightarrow> u32 \<Rightarrow> srv \<Rightarrow> int \<times> srv" where
  "send_resp fd status len s = send_bytes fd (hdr_bytes RTDBD_MAGIC RTDBD_PROTO_VERSION status len) s"

text \<open>
  The ways in which the handlers answer: a status; a status before closing; a record; a list of
  records, which may be empty.
\<close>

definition answer :: "int \<Rightarrow> u16 \<Rightarrow> srv \<Rightarrow> int \<times> srv" where
  "answer fd status s = send_resp fd status 0 s"

definition answer_close :: "int \<Rightarrow> u16 \<Rightarrow> srv \<Rightarrow> int \<times> srv" where
  "answer_close fd status s = (1, snd (send_resp fd status 0 s))"

definition answer_data :: "int \<Rightarrow> u8 list \<Rightarrow> srv \<Rightarrow> int \<times> srv" where
  "answer_data fd bs s =
     (let (rc, s) = send_resp fd RTDBD_ST_OK (word_of_nat (length bs)) s
      in if rc \<noteq> 0 then (1, s)
         else send_bytes fd bs s)"

definition answer_list :: "int \<Rightarrow> u8 list \<Rightarrow> srv \<Rightarrow> int \<times> srv" where
  "answer_list fd bs s =
     (let (rc, s) = send_resp fd RTDBD_ST_OK (word_of_nat (length bs)) s
      in if rc \<noteq> 0 then (1, s)
         else if bs = [] then (0, s)
         else let (rc, s) = send_bytes fd bs s in (if rc \<noteq> 0 then 1 else 0, s))"

text \<open>The payload of a request: its length must be \<open>n\<close>.\<close>

definition payload :: "int \<Rightarrow> req_hdr \<Rightarrow> nat \<Rightarrow> srv \<Rightarrow> u8 list option \<times> srv" where
  "payload fd rq n s = (if rq_len rq \<noteq> word_of_nat n then (None, s) else recv_bytes fd n s)"

definition reject_write :: "u64 \<Rightarrow> srv \<Rightarrow> srv" where
  "reject_write now s =
     s\<lparr>s_stats := rtdbd_stats_note_error now ((s_stats s)\<lparr>write_rejected := write_rejected (s_stats s) + 1\<rparr>)\<rparr>"

definition audit_op :: "u64 \<Rightarrow> u32 \<times> u32 \<Rightarrow> u32 \<Rightarrow> u32 \<Rightarrow> srv \<Rightarrow> srv" where
  "audit_op now cred part pid s =
     s\<lparr>s_audit := irt_audit_record (fst cred) (snd cred) part pid now (s_audit s)\<rparr>"

definition log_info :: "u64 \<Rightarrow> string \<Rightarrow> srv \<Rightarrow> srv" where
  "log_info wall msg s = s\<lparr>s_log := irt_logbuf_emit wall RTDBD_LOG_INFO msg (s_log s)\<rparr>"

section \<open>Reading and writing points\<close>

definition write_req_of :: "u8 list \<Rightarrow> write_req" where
  "write_req_of bs = \<lparr>w_point_id = of_le (take 4 bs), w_type = bs ! 4,
     w_value_bits = of_le (take 8 (drop 8 bs)), w_source_ts_ns = of_le (take 8 (drop 16 bs))\<rparr>"

text \<open>The daemon registers no callback of its own with the library.\<close>

definition no_reaction :: reaction where "no_reaction = (\<lambda>c s. s)"

definition do_write :: "req_env \<Rightarrow> indurtdb \<Rightarrow> write_req \<Rightarrow> int \<times> meta \<times> indurtdb" where
  "do_write e h w =
     (if w_type w = INDURTDB_TYPE_STRING \<or> INDURTDB_TYPE_FLOAT < w_type w then (-99, zero_meta, h)
      else
        let ((grc, gm), h) = indurtdb_h_get_meta (en_d e) h (w_point_id w);
            bits = le64 (w_value_bits w);
            m = (case gm of Some m \<Rightarrow> m | None \<Rightarrow> if grc = INDURTDB_ERR_BUSY then en_torn e else zero_meta);
            lim = (if grc = 0
                   then indurtdb_eurange_limit (m_flags m AND META_FLAG_EUR \<noteq> 0) (f64_of_bits (eur_min m))
                          (f64_of_bits (eur_max m)) (indurtdb_value_to_double (w_type w) bits)
                   else LIMIT_NONE);
            (rc, _, h) = indurtdb_h_write_quality_ts no_reaction h (en_write e) (w_point_id w) (w_type w) bits
                           (w_source_ts_ns w) (QUALITY_MAKE QUALITY_GOOD lim)
        in (rc, m, h))"

text \<open>The 64 bytes of the answer to a read.\<close>

definition get_resp_bytes :: "u32 \<Rightarrow> point \<Rightarrow> u8 list" where
  "get_resp_bytes pid pt = le32 pid @ [pt_type pt, quality pt, 0, 0] @ take 8 (pt_value pt)
     @ (if pt_type pt = INDURTDB_TYPE_STRING then pt_value pt else replicate 32 0)
     @ le64 (timestamp_ns pt) @ le64 (source_timestamp_ns pt)"

definition do_get :: "req_env \<Rightarrow> indurtdb \<Rightarrow> u32 \<Rightarrow> (u8 list option \<times> indurtdb) option" where
  "do_get e h pid =
     (case indurtdb_h_read_point h (en_ob e pid) pid zero_point of
        None \<Rightarrow> None
      | Some ((rc, pt), h) \<Rightarrow>
          Some (if rc \<noteq> 0 \<or> pt_name pt = [] then None else Some (get_resp_bytes pid pt), h))"

definition point_info_bytes :: "u32 \<Rightarrow> point \<Rightarrow> u8 list" where
  "point_info_bytes pid pt = le32 pid @ [pt_type pt, access pt, 0, 0] @ c_buf 64 (pt_name pt) @ le32 (partition pt)"

fun list_loop ::
  "req_env \<Rightarrow> u32 \<Rightarrow> nat \<Rightarrow> u32 list \<Rightarrow> indurtdb \<Rightarrow> u8 list list \<Rightarrow> (u8 list list \<times> indurtdb) option" where
  "list_loop e filt cap [] h out = Some (out, h)"
| "list_loop e filt cap (pid # pids) h out =
     (if cap \<le> length out then Some (out, h)
      else case indurtdb_h_read_point h (en_ob e pid) pid zero_point of
        None \<Rightarrow> None
      | Some ((rc, pt), h) \<Rightarrow>
          if rc \<noteq> 0 then list_loop e filt cap pids h out
          else if pt_name pt = [] then list_loop e filt cap pids h out
          else if filt \<noteq> RTDBD_PARTITION_ALL \<and> partition pt \<noteq> filt then list_loop e filt cap pids h out
          else list_loop e filt cap pids h (out @ [point_info_bytes pid pt]))"

definition do_list :: "req_env \<Rightarrow> u32 \<Rightarrow> indurtdb \<Rightarrow> u32 \<Rightarrow> u32 \<Rightarrow> u32 \<Rightarrow> (u8 list \<times> indurtdb) option" where
  "do_list e mx h filt max_n offset =
     (if mx \<le> offset then Some ([], h)
      else
        let cap = (if max_n = 0 then RTDBD_LIST_CHUNK else max_n);
            cap = (if RTDBD_LIST_CHUNK < cap then RTDBD_LIST_CHUNK else cap)
        in map_option (\<lambda>(out, h). (concat out, h))
             (list_loop e filt (unat cap) (map word_of_nat [unat offset..<unat mx]) h []))"

section \<open>The handlers\<close>

text \<open>
  Every handler gets the socket, the index \<open>k\<close> of the connection in the table and the header of the
  request; its result is 0 when the connection is kept.
\<close>

definition op_ping :: "int \<Rightarrow> srv \<Rightarrow> (int \<times> srv) option" where
  "op_ping fd s = Some (answer fd RTDBD_ST_OK s)"

definition audit_entry_bytes :: "audit_entry \<Rightarrow> u8 list" where
  "audit_entry_bytes a = le32 (ae_pid a) @ le32 (ae_uid a) @ le32 (ae_point_id a) @ le32 (ae_partition a) @ le64 (ae_ts_ns a)"

definition op_audit_dump :: "int \<Rightarrow> srv \<Rightarrow> (int \<times> srv) option" where
  "op_audit_dump fd s =
     Some (answer_list fd (concat (map audit_entry_bytes (irt_audit_dump (s_audit s) RTDBD_AUDIT_CAPACITY))) s)"

definition op_write :: "req_env \<Rightarrow> int \<Rightarrow> nat \<Rightarrow> req_hdr \<Rightarrow> srv \<Rightarrow> (int \<times> srv) option" where
  "op_write e fd k rq s =
     (case payload fd rq 24 s of
        (None, s) \<Rightarrow> Some (answer_close fd RTDBD_ST_BAD_REQUEST s)
      | (Some bs, s) \<Rightarrow>
          let w = write_req_of bs
          in case io_cred (s_io s fd) of
               None \<Rightarrow> Some (answer_close fd RTDBD_ST_INTERNAL s)
             | Some cred \<Rightarrow>
                 let part = c_partition (s_conns s ! k)
                 in if \<not> irt_policy_allows (s_policy s) (snd cred) part (w_point_id w)
                    then Some (answer fd RTDBD_ST_DENIED (reject_write (en_now e) s))
                    else if \<not> rtdbd_conf_partition_allowed (s_conf s) part
                    then Some (answer fd RTDBD_ST_DENIED (reject_write (en_now e) s))
                    else
                      let (rc, m, h) = do_write e (s_h s) w; s = s\<lparr>s_h := h\<rparr>
                      in if rc = -99 then Some (answer fd RTDBD_ST_BAD_REQUEST s)
                         else if rc \<noteq> 0 then
                           Some (answer fd RTDBD_ST_INTERNAL
                             (s\<lparr>s_stats := rtdbd_stats_note_error (en_now e)
                                  ((s_stats s)\<lparr>write_error := write_error (s_stats s) + 1\<rparr>)\<rparr>))
                         else
                           let s = audit_op (en_now e) cred part (w_point_id w) s;
                               s = s\<lparr>s_stats := (s_stats s)\<lparr>n_writes := n_writes (s_stats s) + 1\<rparr>\<rparr>;
                               (rc, s) = answer fd RTDBD_ST_OK s
                           in if rc \<noteq> 0 then Some (1, s)
                              else case notify_broadcast (en_later e) (en_ob e (w_point_id w)) (s_h s)
                                          (s_conns s) w m (s_stats s) of
                                     None \<Rightarrow> None
                                   | Some (h, conns, g) \<Rightarrow> Some (0, s\<lparr>s_h := h, s_conns := conns, s_stats := g\<rparr>))"

definition RTDBD_OP_SUBSCRIBE :: u16 where "RTDBD_OP_SUBSCRIBE = 4"
definition RTDBD_OP_UNSUBSCRIBE :: u16 where "RTDBD_OP_UNSUBSCRIBE = 5"

definition op_subscribe :: "int \<Rightarrow> nat \<Rightarrow> req_hdr \<Rightarrow> srv \<Rightarrow> (int \<times> srv) option" where
  "op_subscribe fd k rq s =
     (case payload fd rq 4 s of
        (None, s) \<Rightarrow> Some (answer_close fd RTDBD_ST_BAD_REQUEST s)
      | (Some bs, s) \<Rightarrow>
          let pid = of_le bs;
              (rc, c) = (if rq_opcode rq = RTDBD_OP_SUBSCRIBE then conn_add_sub (s_conns s ! k) pid
                         else (0, conn_del_sub (s_conns s ! k) pid));
              s = s\<lparr>s_conns := (s_conns s)[k := c]\<rparr>
          in Some (answer fd (if rc = 0 then RTDBD_ST_OK else RTDBD_ST_INTERNAL) s))"

text \<open>The name in a request: 64 bytes, of which the last is overwritten by NUL.\<close>

definition name_of :: "u8 list \<Rightarrow> string" where
  "name_of bs = c_string (take 63 bs)"

definition op_find_by_name :: "req_env \<Rightarrow> int \<Rightarrow> req_hdr \<Rightarrow> srv \<Rightarrow> (int \<times> srv) option" where
  "op_find_by_name e fd rq s =
     (case payload fd rq 68 s of
        (None, s) \<Rightarrow> Some (answer_close fd RTDBD_ST_BAD_REQUEST s)
      | (Some bs, s) \<Rightarrow>
          let part = of_le (drop 64 bs)
          in if \<not> rtdbd_conf_partition_allowed (s_conf s) part then Some (answer fd RTDBD_ST_NOT_FOUND s)
             else
               let ((rc, found), h) = indurtdb_h_find_by_name_in (en_d e) (s_h s) part (name_of bs);
                   s = s\<lparr>s_h := h\<rparr>
               in if rc = INDURTDB_ERR_NOT_FOUND then Some (answer fd RTDBD_ST_NOT_FOUND s)
                  else if rc \<noteq> 0 then Some (answer fd RTDBD_ST_INTERNAL s)
                  else Some (answer_data fd (le32 (case found of Some pid \<Rightarrow> pid | None \<Rightarrow> 0)) s))"

definition meta_bytes :: "meta \<Rightarrow> u8 list" where
  "meta_bytes m = le64 (eur_min m) @ le64 (eur_max m) @ le32 (deadband m) @ le32 (m_flags m) @ replicate 8 0"

definition meta_of :: "u8 list \<Rightarrow> meta" where
  "meta_of bs = \<lparr>eur_min = of_le (take 8 bs), eur_max = of_le (take 8 (drop 8 bs)),
     deadband = of_le (take 4 (drop 16 bs)), m_flags = of_le (take 4 (drop 20 bs))\<rparr>"

definition op_get_meta :: "req_env \<Rightarrow> int \<Rightarrow> req_hdr \<Rightarrow> srv \<Rightarrow> (int \<times> srv) option" where
  "op_get_meta e fd rq s =
     (case payload fd rq 4 s of
        (None, s) \<Rightarrow> Some (answer_close fd RTDBD_ST_BAD_REQUEST s)
      | (Some bs, s) \<Rightarrow>
          let ((rc, m), h) = indurtdb_h_get_meta (en_d e) (s_h s) (of_le bs); s = s\<lparr>s_h := h\<rparr>
          in if rc = INDURTDB_ERR_NOT_FOUND then Some (answer fd RTDBD_ST_NOT_FOUND s)
             else if rc = INDURTDB_ERR_ARG then Some (answer fd RTDBD_ST_BAD_REQUEST s)
             else if rc \<noteq> 0 then Some (answer fd RTDBD_ST_INTERNAL s)
             else Some (answer_data fd (meta_bytes (case m of Some m \<Rightarrow> m | None \<Rightarrow> zero_meta)) s))"

definition op_set_meta :: "req_env \<Rightarrow> int \<Rightarrow> nat \<Rightarrow> req_hdr \<Rightarrow> srv \<Rightarrow> (int \<times> srv) option" where
  "op_set_meta e fd k rq s =
     (case payload fd rq 40 s of
        (None, s) \<Rightarrow> Some (answer_close fd RTDBD_ST_BAD_REQUEST s)
      | (Some bs, s) \<Rightarrow>
          let pid = of_le (take 4 bs); m = meta_of (drop 8 bs)
          in case io_cred (s_io s fd) of
               None \<Rightarrow> Some (answer_close fd RTDBD_ST_INTERNAL s)
             | Some cred \<Rightarrow>
                 let part = c_partition (s_conns s ! k)
                 in if \<not> irt_policy_allows (s_policy s) (snd cred) part pid then Some (answer fd RTDBD_ST_DENIED s)
                    else if \<not> rtdbd_conf_partition_allowed (s_conf s) part then Some (answer fd RTDBD_ST_DENIED s)
                    else
                      let (rc, h) = indurtdb_h_set_meta (s_h s) pid m; s = s\<lparr>s_h := h\<rparr>
                      in if rc = INDURTDB_ERR_NOT_FOUND then Some (answer fd RTDBD_ST_NOT_FOUND s)
                         else if rc = INDURTDB_ERR_ARG then Some (answer fd RTDBD_ST_BAD_REQUEST s)
                         else if rc \<noteq> 0 then Some (answer fd RTDBD_ST_INTERNAL s)
                         else Some (answer fd RTDBD_ST_OK (audit_op (en_now e) cred part pid s)))"

text \<open>The status of a management operation by the return code of the library.\<close>

definition status_of_rc :: "int \<Rightarrow> u16" where
  "status_of_rc rc =
     (if rc = INDURTDB_ERR_ARG \<or> rc = INDURTDB_ERR_FULL then RTDBD_ST_BAD_REQUEST
      else if rc = INDURTDB_ERR_NOT_FOUND then RTDBD_ST_NOT_FOUND
      else if rc \<noteq> 0 then RTDBD_ST_INTERNAL
      else RTDBD_ST_OK)"

definition u32_text :: "u32 \<Rightarrow> string" where
  "u32_text w = dec_digits (unat w)"

definition op_create_point :: "req_env \<Rightarrow> int \<Rightarrow> req_hdr \<Rightarrow> srv \<Rightarrow> (int \<times> srv) option" where
  "op_create_point e fd rq s =
     (case payload fd rq 76 s of
        (None, s) \<Rightarrow> Some (answer_close fd RTDBD_ST_BAD_REQUEST s)
      | (Some bs, s) \<Rightarrow>
          let pid = of_le (take 4 bs); ty = bs ! 4; acc = bs ! 5; nm = name_of (take 64 (drop 8 bs));
              part = of_le (drop 72 bs)
          in case io_cred (s_io s fd) of
               None \<Rightarrow> Some (answer_close fd RTDBD_ST_INTERNAL s)
             | Some cred \<Rightarrow>
                 if \<not> irt_policy_allows (s_policy s) (snd cred) part pid then Some (answer fd RTDBD_ST_DENIED s)
                 else if \<not> rtdbd_conf_partition_allowed (s_conf s) part then Some (answer fd RTDBD_ST_DENIED s)
                 else
                   let (rc, h) = indurtdb_h_create_point_in (en_d e) (s_h s) part pid nm (uint ty) (uint acc);
                       s = s\<lparr>s_h := h\<rparr>;
                       s = (if rc = 0
                            then log_info (en_wall e) (''create point id='' @ u32_text pid @ '' name='' @ nm @ '' partition=''
                                   @ u32_text part @ '' (uid='' @ u32_text (snd cred) @ '')'')
                                   (audit_op (en_now e) cred part pid s)
                            else s)
                   in Some (answer fd (status_of_rc rc) s))"

definition op_delete_point :: "req_env \<Rightarrow> int \<Rightarrow> req_hdr \<Rightarrow> srv \<Rightarrow> (int \<times> srv) option" where
  "op_delete_point e fd rq s =
     (case payload fd rq 8 s of
        (None, s) \<Rightarrow> Some (answer_close fd RTDBD_ST_BAD_REQUEST s)
      | (Some bs, s) \<Rightarrow>
          let pid = of_le (take 4 bs); part = of_le (drop 4 bs)
          in case io_cred (s_io s fd) of
               None \<Rightarrow> Some (answer_close fd RTDBD_ST_INTERNAL s)
             | Some cred \<Rightarrow>
                 if \<not> irt_policy_allows (s_policy s) (snd cred) part pid then Some (answer fd RTDBD_ST_DENIED s)
                 else if \<not> rtdbd_conf_partition_allowed (s_conf s) part then Some (answer fd RTDBD_ST_DENIED s)
                 else
                   let (rc, h) = indurtdb_h_delete_point_in (s_h s) part pid; s = s\<lparr>s_h := h\<rparr>
                   in if rc = INDURTDB_ERR_NOT_FOUND then Some (answer fd RTDBD_ST_NOT_FOUND s)
                      else if rc = INDURTDB_ERR_ARG then Some (answer fd RTDBD_ST_BAD_REQUEST s)
                      else if rc \<noteq> 0 then Some (answer fd RTDBD_ST_INTERNAL s)
                      else Some (answer fd RTDBD_ST_OK
                        (log_info (en_wall e) (''delete point id='' @ u32_text pid @ '' partition='' @ u32_text part
                            @ '' (uid='' @ u32_text (snd cred) @ '')'')
                          (audit_op (en_now e) cred part pid s))))"

definition op_rename_point :: "req_env \<Rightarrow> int \<Rightarrow> req_hdr \<Rightarrow> srv \<Rightarrow> (int \<times> srv) option" where
  "op_rename_point e fd rq s =
     (case payload fd rq 72 s of
        (None, s) \<Rightarrow> Some (answer_close fd RTDBD_ST_BAD_REQUEST s)
      | (Some bs, s) \<Rightarrow>
          let pid = of_le (take 4 bs); nm = name_of (take 64 (drop 4 bs)); part = of_le (drop 68 bs)
          in case io_cred (s_io s fd) of
               None \<Rightarrow> Some (answer_close fd RTDBD_ST_INTERNAL s)
             | Some cred \<Rightarrow>
                 if \<not> irt_policy_allows (s_policy s) (snd cred) part pid then Some (answer fd RTDBD_ST_DENIED s)
                 else if \<not> rtdbd_conf_partition_allowed (s_conf s) part then Some (answer fd RTDBD_ST_DENIED s)
                 else
                   let (rc, h) = indurtdb_h_rename_point_in (en_d e) (s_h s) part pid nm; s = s\<lparr>s_h := h\<rparr>;
                       s = (if rc = 0
                            then log_info (en_wall e) (''rename point id='' @ u32_text pid @ '' -> '' @ nm @ '' partition=''
                                   @ u32_text part @ '' (uid='' @ u32_text (snd cred) @ '')'')
                                   (audit_op (en_now e) cred part pid s)
                            else s)
                   in Some (answer fd (status_of_rc rc) s))"

definition op_get :: "req_env \<Rightarrow> int \<Rightarrow> req_hdr \<Rightarrow> srv \<Rightarrow> (int \<times> srv) option" where
  "op_get e fd rq s =
     (case payload fd rq 4 s of
        (None, s) \<Rightarrow> Some (answer_close fd RTDBD_ST_BAD_REQUEST s)
      | (Some bs, s) \<Rightarrow>
          case do_get e (s_h s) (of_le bs) of
            None \<Rightarrow> None
          | Some (None, h) \<Rightarrow> Some (answer fd RTDBD_ST_NOT_FOUND (s\<lparr>s_h := h\<rparr>))
          | Some (Some r, h) \<Rightarrow> Some (answer_data fd r (s\<lparr>s_h := h\<rparr>)))"

definition op_list :: "req_env \<Rightarrow> int \<Rightarrow> req_hdr \<Rightarrow> srv \<Rightarrow> (int \<times> srv) option" where
  "op_list e fd rq s =
     (case payload fd rq 12 s of
        (None, s) \<Rightarrow> Some (answer_close fd RTDBD_ST_BAD_REQUEST s)
      | (Some bs, s) \<Rightarrow>
          let mx = of_le (take 4 bs); offset = of_le (take 4 (drop 4 bs)); part = of_le (drop 8 bs)
          in if part \<noteq> RTDBD_PARTITION_ALL \<and> \<not> rtdbd_conf_partition_allowed (s_conf s) part
             then Some (answer fd RTDBD_ST_OK s)
             else case do_list e (g_max_points s) (s_h s) part mx offset of
                    None \<Rightarrow> None
                  | Some (bs, h) \<Rightarrow> Some (answer_list fd bs (s\<lparr>s_h := h\<rparr>)))"

definition log_entry_bytes :: "log_entry \<Rightarrow> u8 list" where
  "log_entry_bytes l = le64 (le_ts_ns l) @ [le_level l, 0, 0, 0] @ c_buf RTDBD_LOG_ENTRY_MSG_MAX (le_msg l)"

definition op_get_log :: "int \<Rightarrow> req_hdr \<Rightarrow> srv \<Rightarrow> (int \<times> srv) option" where
  "op_get_log fd rq s =
     (case payload fd rq 4 s of
        (None, s) \<Rightarrow> Some (answer_close fd RTDBD_ST_BAD_REQUEST s)
      | (Some bs, s) \<Rightarrow>
          let mx = of_le bs; cap = (if mx = 0 \<or> RTDBD_LOG_CAPACITY < mx then RTDBD_LOG_CAPACITY else mx)
          in Some (answer_list fd (concat (map log_entry_bytes (irt_logbuf_dump (s_log s) cap))) s))"

definition n_open :: "conn list \<Rightarrow> nat" where
  "n_open cs = length (filter (\<lambda>c. 0 \<le> c_fd c) cs)"

definition health_bytes :: "rtdbd_stats \<Rightarrow> int \<Rightarrow> nat \<Rightarrow> u8 list" where
  "health_bytes g hl nc = le64 (n_writes g) @ le64 (n_notifies g) @ le64 (decode_fail g) @ le64 (write_rejected g)
     @ le64 (write_error g) @ le64 (notify_drop g) @ le64 (notify_send_fail g) @ le64 (uptime_ns g)
     @ le32 (word_of_int hl) @ le32 (word_of_nat nc)"

definition note_decode_fail :: "u64 \<Rightarrow> srv \<Rightarrow> srv" where
  "note_decode_fail now s =
     s\<lparr>s_stats := rtdbd_stats_note_error now ((s_stats s)\<lparr>decode_fail := decode_fail (s_stats s) + 1\<rparr>)\<rparr>"

text \<open>The self check with the check of the connection table.\<close>

definition full_self_check :: "u64 \<Rightarrow> srv \<Rightarrow> int \<times> srv" where
  "full_self_check now s =
     (let (hl, h, g) = rtdbd_self_check_core now (s_h s) (s_stats s)
      in if hl \<noteq> RTDBD_HEALTH_UNHEALTHY \<and> conn_table_check (s_conns s) \<noteq> 0
         then (RTDBD_HEALTH_UNHEALTHY, s\<lparr>s_h := h, s_stats := g\<lparr>health := RTDBD_HEALTH_UNHEALTHY\<rparr>\<rparr>)
         else (hl, s\<lparr>s_h := h, s_stats := g\<rparr>))"

definition op_health :: "req_env \<Rightarrow> int \<Rightarrow> req_hdr \<Rightarrow> srv \<Rightarrow> (int \<times> srv) option" where
  "op_health e fd rq s =
     (if rq_len rq \<noteq> 0 then Some (answer_close fd RTDBD_ST_BAD_REQUEST (note_decode_fail (en_now e) s))
      else
        let (hl, s) = full_self_check (en_now e) s
        in Some (answer_data fd (health_bytes (s_stats s) hl (n_open (s_conns s))) s))"

definition op_select :: "int \<Rightarrow> nat \<Rightarrow> req_hdr \<Rightarrow> srv \<Rightarrow> (int \<times> srv) option" where
  "op_select fd k rq s =
     (case payload fd rq 4 s of
        (None, s) \<Rightarrow> Some (answer_close fd RTDBD_ST_BAD_REQUEST s)
      | (Some bs, s) \<Rightarrow>
          let p = of_le bs
          in if \<not> rtdbd_conf_partition_allowed (s_conf s) p then Some (answer fd RTDBD_ST_DENIED s)
             else Some (answer fd RTDBD_ST_OK (s\<lparr>s_conns := (s_conns s)[k := (s_conns s ! k)\<lparr>c_partition := p\<rparr>]\<rparr>)))"

section \<open>The dispatch\<close>

definition kOps :: "(u16 \<times> (req_env \<Rightarrow> int \<Rightarrow> nat \<Rightarrow> req_hdr \<Rightarrow> srv \<Rightarrow> (int \<times> srv) option)) list" where
  "kOps =
     [(1, \<lambda>e fd k rq. op_ping fd), (2, op_write), (4, \<lambda>e. op_subscribe), (5, \<lambda>e. op_subscribe),
      (3, \<lambda>e fd k rq. op_audit_dump fd), (7, \<lambda>e fd k. op_find_by_name e fd), (8, \<lambda>e fd k. op_get_meta e fd),
      (9, op_set_meta), (12, \<lambda>e fd k. op_create_point e fd), (13, \<lambda>e fd k. op_delete_point e fd),
      (14, \<lambda>e fd k. op_rename_point e fd), (10, \<lambda>e fd k. op_get e fd), (11, \<lambda>e fd k. op_list e fd),
      (15, \<lambda>e fd k. op_get_log fd), (16, \<lambda>e fd k. op_health e fd), (17, \<lambda>e. op_select)]"

definition handle_request :: "req_env \<Rightarrow> int \<Rightarrow> nat \<Rightarrow> srv \<Rightarrow> (int \<times> srv) option" where
  "handle_request e fd k s =
     (case recv_bytes fd 12 s of
        (None, s) \<Rightarrow> Some (1, s)
      | (Some bs, s) \<Rightarrow>
          let rq = req_hdr_of bs
          in if rq_magic rq \<noteq> RTDBD_MAGIC \<or> rq_version rq \<noteq> RTDBD_PROTO_VERSION
             then Some (1, note_decode_fail (en_now e) s)
             else case map_of kOps (rq_opcode rq) of
                    Some fn \<Rightarrow> fn e fd k rq s
                  | None \<Rightarrow> Some (answer_close fd RTDBD_ST_BAD_REQUEST s))"

end
