(* ===== verification/Server_Props.thy ===== *)
theory Server_Props
  imports Server
begin

text \<open>
  Properties of the daemon's request handlers: what a request may change and under which grant, the
  framing of the responses, the refusal of bad headers, and the interleaving of responses with
  partly sent notifications.
\<close>

section \<open>What the library operations change\<close>

text \<open>Between two states of the segment only the record and the metadata of one point differ.\<close>

definition confined :: "u32 \<Rightarrow> shm \<Rightarrow> shm \<Rightarrow> bool" where
  "confined pid s t \<longleftrightarrow> (\<exists>p. points t = (points s)[unat pid := p]) \<and> (\<exists>m. metas t = (metas s)[unat pid := m])"

lemma confined_same: "points t = points s \<Longrightarrow> metas t = metas s \<Longrightarrow> confined pid s t"
  unfolding confined_def by (metis list_update_id)

lemma confined_refl [simp]: "confined pid s s"
  by (rule confined_same) simp_all

lemma confined_point: "points t = (points s)[unat pid := p] \<Longrightarrow> metas t = metas s \<Longrightarrow> confined pid s t"
  unfolding confined_def by (metis list_update_id)

lemma confined_meta: "points t = points s \<Longrightarrow> metas t = (metas s)[unat pid := m] \<Longrightarrow> confined pid s t"
  unfolding confined_def by (metis list_update_id)

lemma confined_trans: "confined pid s t \<Longrightarrow> confined pid t u \<Longrightarrow> confined pid s u"
  unfolding confined_def by (metis list_update_overwrite)

lemma confined_others:
  assumes "confined pid s t" "q \<noteq> pid"
  shows "points t ! unat q = points s ! unat q" "metas t ! unat q = metas s ! unat q"
proof -
  have "unat pid \<noteq> unat q" using assms(2) by (simp add: word_unat_eq_iff)
  then show "points t ! unat q = points s ! unat q" "metas t ! unat q = metas s ! unat q"
    using assms(1) by (auto simp: confined_def)
qed

lemma write_begin_frame:
  "points (snd (irt_seqlock_write_begin s)) = points s" "metas (snd (irt_seqlock_write_begin s)) = metas s"
  by (simp_all add: irt_seqlock_write_begin_def Let_def)

lemma write_end_frame [simp]:
  "points (irt_seqlock_write_end s q) = points s" "metas (irt_seqlock_write_end s q) = metas s"
  by (simp_all add: irt_seqlock_write_end_def)

lemma lock_retry_frame:
  "points (snd (lock_retry n s q)) = points s" "metas (snd (lock_retry n s q)) = metas s"
proof (induction n arbitrary: s q)
  case (Suc n)
  { case 1 then show ?case using Suc.IH write_begin_frame [of s] by (auto simp: Let_def split: prod.splits) }
  { case 2 then show ?case using Suc.IH write_begin_frame [of s] by (auto simp: Let_def split: prod.splits) }
qed simp_all

lemma lock_retry_pairD:
  "lock_retry n s q = (q', t) \<Longrightarrow> points t = points s \<and> metas t = metas s"
  using lock_retry_frame [of n s q] by simp

lemma write_begin_pairD:
  "irt_seqlock_write_begin s = (q', t) \<Longrightarrow> points t = points s \<and> metas t = metas s"
  using write_begin_frame [of s] by simp

lemma insert_locked_confined: "confined pid s (snd (irt_index_insert_locked s part name pid))"
proof -
  let ?p = "(points s ! unat pid)\<lparr>partition := part\<rparr>"
  have "\<exists>p. points (snd (irt_index_insert_locked s part name pid)) = (points s)[unat pid := p]
      \<and> metas (snd (irt_index_insert_locked s part name pid)) = metas s"
    by (auto simp: irt_index_insert_locked_def Let_def intro: exI [of _ "points s ! unat pid"]
        split: sum.splits insert_dest.splits)
  then show ?thesis by (metis confined_point)
qed

lemma remove_locked_regions:
  "points (snd (irt_index_remove_locked s part name)) = points s"
  "metas (snd (irt_index_remove_locked s part name)) = metas s"
  by (simp_all add: irt_index_remove_locked_def Let_def split: sum.split option.split)

lemma index_insert_confined: "confined pid s (snd (irt_index_insert s part name pid))"
proof -
  obtain q t where b: "irt_seqlock_write_begin s = (q, t)" by (cases "irt_seqlock_write_begin s")
  obtain rc u where i: "irt_index_insert_locked t part name pid = (rc, u)" by (cases "irt_index_insert_locked t part name pid")
  have "confined pid s t" using write_begin_pairD [OF b] by (simp add: confined_same)
  moreover have "confined pid t u" using insert_locked_confined [of pid t part name] i by simp
  moreover have "confined pid u (irt_seqlock_write_end u q)" by (rule confined_same) simp_all
  ultimately show ?thesis
    using b i by (auto simp: irt_index_insert_def intro: confined_trans)
qed

lemma create_rollback_confined: "confined pid s (create_rollback s pid)"
proof -
  obtain q t where b: "lock_retry IRT_SEQLOCK_MAX_RETRY s 0 = (q, t)" by (cases "lock_retry IRT_SEQLOCK_MAX_RETRY s 0")
  then have "points t = points s" "metas t = metas s" using lock_retry_pairD by blast+
  then show ?thesis using b by (auto simp: create_rollback_def intro: confined_same confined_point)
qed

lemma delta_log_shm' [simp]: "h_shm (delta_log h op pid ty acc name) = h_shm h"
  by (simp add: delta_log_def set_error_def Let_def split: list.split prod.split)

lemma set_error_h [simp]: "h_shm (set_error h msg) = h_shm h"
  by (simp add: set_error_def)

lemma create_body_confined: "confined pid (h_shm h) (h_shm (snd (create_body h part pid name ty acc)))"
proof -
  let ?s = "h_shm h"
  obtain q t where b: "lock_retry IRT_SEQLOCK_MAX_RETRY ?s 0 = (q, t)" by (cases "lock_retry IRT_SEQLOCK_MAX_RETRY ?s 0")
  have st: "confined pid ?s t" using lock_retry_pairD [OF b] by (simp add: confined_same)
  have te: "confined pid ?s (irt_seqlock_write_end t q)"
    by (rule confined_trans [OF st], rule confined_same) simp_all
  let ?r = "irt_seqlock_write_end (h_point_register t part pid name ty acc) q"
  obtain irc u where i: "irt_index_insert ?r part name pid = (irc, u)" by (cases "irt_index_insert ?r part name pid")
  have "confined pid t ?r" by (rule confined_point) (simp_all add: h_point_register_def)
  then have su: "confined pid ?s u"
    using index_insert_confined [of pid ?r part name] i st by (auto intro: confined_trans)
  have sr: "confined pid ?s (create_rollback u pid)"
    using su create_rollback_confined by (rule confined_trans)
  show ?thesis
    using b i st te su sr by (simp add: create_body_def)
qed

lemma create_point_confined: "confined pid (h_shm h) (h_shm (snd (indurtdb_h_create_point_in d h part pid name ty acc)))"
  using create_body_confined by (simp add: indurtdb_h_create_point_in_def ensure_h_def split: prod.split)

lemma delete_point_confined: "confined pid (h_shm h) (h_shm (snd (indurtdb_h_delete_point_in h part pid)))"
proof -
  let ?s = "h_shm h"
  obtain q t where b: "lock_retry IRT_SEQLOCK_MAX_RETRY ?s 0 = (q, t)" by (cases "lock_retry IRT_SEQLOCK_MAX_RETRY ?s 0")
  note t = lock_retry_pairD [OF b]
  let ?p = "points t ! unat pid"
  obtain rc u where r: "irt_index_remove_locked t (partition ?p) (pt_name ?p) = (rc, u)"
    by (cases "irt_index_remove_locked t (partition ?p) (pt_name ?p)")
  have u: "points u = points t" "metas u = metas t" using remove_locked_regions [of t "partition ?p" "pt_name ?p"] r by simp_all
  show ?thesis
    using b r t u
    by (auto simp: indurtdb_h_delete_point_in_def ensure_h_def Let_def intro: confined_same confined_point)
qed

lemma rename_body_confined: "confined pid (h_shm h) (h_shm (snd (rename_body h part pid name)))"
proof -
  let ?s = "h_shm h"
  obtain q t where b: "lock_retry IRT_SEQLOCK_MAX_RETRY ?s 0 = (q, t)" by (cases "lock_retry IRT_SEQLOCK_MAX_RETRY ?s 0")
  have st: "confined pid ?s t" using lock_retry_pairD [OF b] by (simp add: confined_same)
  have te: "confined pid ?s (irt_seqlock_write_end x q)" if "confined pid ?s x" for x
    by (rule confined_trans [OF that], rule confined_same) simp_all
  obtain irc u where i: "irt_index_insert_locked t part name pid = (irc, u)" by (cases "irt_index_insert_locked t part name pid")
  have su: "confined pid ?s u" using confined_trans [OF st] insert_locked_confined [of pid t part name] i by simp
  let ?old = "pt_name (points u ! unat pid)"
  obtain rc v where r: "irt_index_remove_locked u part ?old = (rc, v)" by (cases "irt_index_remove_locked u part ?old")
  have sv: "confined pid ?s v"
    using confined_trans [OF su] confined_same [of v u] remove_locked_regions [of u part ?old] r by simp
  have sw: "confined pid ?s (v\<lparr>points := (points v)[unat pid := p]\<rparr>)" for p
    by (rule confined_trans [OF sv], rule confined_point) simp_all
  show ?thesis
    using b i r te [OF st] te [OF su] te [OF sw] st by (simp add: rename_body_def Let_def)
qed

lemma rename_point_confined: "confined pid (h_shm h) (h_shm (snd (indurtdb_h_rename_point_in d h part pid name)))"
  using rename_body_confined by (simp add: indurtdb_h_rename_point_in_def ensure_h_def split: prod.split)

lemma set_meta_confined: "confined pid (h_shm h) (h_shm (snd (indurtdb_h_set_meta h pid m)))"
proof -
  have "confined pid s (snd (irt_meta_set s pid m))" for s
    using write_begin_frame [of s]
    by (auto simp: irt_meta_set_def Let_def split: prod.split intro: confined_same confined_meta)
  moreover obtain rc s' where s': "irt_meta_set (h_shm h) pid m = (rc, s')" by (cases "irt_meta_set (h_shm h) pid m")
  ultimately have "confined pid (h_shm h) s'" by (metis snd_conv)
  then show ?thesis
    using s' by (simp add: indurtdb_h_set_meta_def ensure_h_def Let_def split: prod.split)
qed

lemma pm_write_confined: "confined pid s (snd (pm_write_impl_q s now pid t v ts q))"
proof -
  obtain q0 t' where b: "lock_retry IRT_SEQLOCK_MAX_RETRY s 0 = (q0, t')" by (cases "lock_retry IRT_SEQLOCK_MAX_RETRY s 0")
  show ?thesis
    using b lock_retry_pairD [OF b] by (auto simp: pm_write_impl_q_def Let_def intro: confined_same confined_point)
qed

lemma write_quality_confined:
  "confined pid (h_shm h) (h_shm (snd (snd (indurtdb_h_write_quality_ts react h now pid t v ts q))))"
  using pm_write_confined [of pid "h_shm h" now t v ts q]
  by (auto simp: indurtdb_h_write_quality_ts_def ensure_h3_def h_write_and_notify_def irt_pm_write_quality_ts_def Let_def
      split: prod.split option.split)

lemma get_meta_shm [simp]: "h_shm (snd (indurtdb_h_get_meta d h pid)) = h_shm h"
  by (simp add: indurtdb_h_get_meta_def split: prod.split)

lemma find_by_name_shm [simp]: "h_shm (snd (indurtdb_h_find_by_name_in d h part name)) = h_shm h"
  by (simp add: indurtdb_h_find_by_name_in_def split: prod.split)

lemma read_point_shm: "indurtdb_h_read_point h ob pid out = Some (r, h') \<Longrightarrow> h_shm h' = h_shm h"
  by (auto simp: indurtdb_h_read_point_def split: if_splits)

lemma do_write_confined: "confined (w_point_id w) (h_shm h) (h_shm (snd (snd (do_write e h w))))"
proof -
  obtain grc gm h1 where g: "indurtdb_h_get_meta (en_d e) h (w_point_id w) = ((grc, gm), h1)" by (metis prod.collapse)
  have "h_shm h1 = h_shm h" using get_meta_shm [of "en_d e" h "w_point_id w"] g by simp
  then show ?thesis
    using g write_quality_confined [of "w_point_id w" h1]
    by (simp add: do_write_def Let_def split_beta)
qed

lemma do_get_shm: "do_get e h pid = Some (r, h') \<Longrightarrow> h_shm h' = h_shm h"
  by (auto simp: do_get_def split: option.splits dest: read_point_shm)

lemma list_loop_shm: "list_loop e filt cap pids h out = Some (r, h') \<Longrightarrow> h_shm h' = h_shm h"
proof (induction pids arbitrary: h out)
  case (Cons pid pids)
  show ?case
  proof (cases "cap \<le> length out")
    case False
    with Cons.prems obtain rc pt h1 where r: "indurtdb_h_read_point h (en_ob e pid) pid zero_point = Some ((rc, pt), h1)"
      by (cases "indurtdb_h_read_point h (en_ob e pid) pid zero_point") auto
    from False r Cons.prems obtain out' where "list_loop e filt cap pids h1 out' = Some (r, h')"
      by (auto split: if_splits)
    from Cons.IH [OF this] show ?thesis by (simp add: read_point_shm [OF r])
  qed (use Cons.prems in simp)
qed simp

lemma do_list_shm: "do_list e mx h filt n off = Some (r, h') \<Longrightarrow> h_shm h' = h_shm h"
  by (auto simp: do_list_def Let_def split: if_splits dest: list_loop_shm)

lemma notify_broadcast_shm: "notify_broadcast now ob h conns w m g = Some (h', r) \<Longrightarrow> h_shm h' = h_shm h"
  by (auto simp: notify_broadcast_def Let_def split: option.splits prod.splits dest: read_point_shm)

lemma self_check_shm [simp]: "h_shm (snd (indurtdb_h_self_check h)) = h_shm h"
  by (simp add: indurtdb_h_self_check_def)

section \<open>What a request changes\<close>

text \<open>The parts of the state that a request without a grant leaves alone.\<close>

definition untouched :: "srv \<Rightarrow> srv \<Rightarrow> bool" where
  "untouched s t \<longleftrightarrow> h_shm (s_h t) = h_shm (s_h s) \<and> s_audit t = s_audit s \<and> s_log t = s_log s"

definition same_rules :: "srv \<Rightarrow> srv \<Rightarrow> bool" where
  "same_rules s t \<longleftrightarrow> s_policy t = s_policy s \<and> s_conf t = s_conf s \<and> g_max_points t = g_max_points s
     \<and> (\<forall>fd. io_cred (s_io t fd) = io_cred (s_io s fd))"

text \<open>A request under a grant: the peer's uid may write the point in the partition.\<close>

definition granted :: "srv \<Rightarrow> int \<Rightarrow> u32 \<Rightarrow> u32 \<Rightarrow> bool" where
  "granted s fd part pid \<longleftrightarrow> (\<exists>cred. io_cred (s_io s fd) = Some cred
     \<and> irt_policy_allows (s_policy s) (snd cred) part pid \<and> rtdbd_conf_partition_allowed (s_conf s) part)"

text \<open>The outcome of a handler: nothing, or the record of a granted point.\<close>

definition lawful :: "int \<Rightarrow> srv \<Rightarrow> srv \<Rightarrow> bool" where
  "lawful fd s t \<longleftrightarrow> same_rules s t
     \<and> (untouched s t \<or> (\<exists>part pid. granted s fd part pid \<and> confined pid (h_shm (s_h s)) (h_shm (s_h t))))"

lemma untouched_refl [simp]: "untouched s s" and same_rules_refl [simp]: "same_rules s s"
  by (simp_all add: untouched_def same_rules_def)

lemma untouched_trans: "untouched s t \<Longrightarrow> untouched t u \<Longrightarrow> untouched s u"
  by (simp add: untouched_def)

lemma same_rules_trans: "same_rules s t \<Longrightarrow> same_rules t u \<Longrightarrow> same_rules s u"
  by (simp add: same_rules_def)

lemma lawful_untouched: "same_rules s t \<Longrightarrow> untouched s t \<Longrightarrow> lawful fd s t"
  by (simp add: lawful_def)

lemma lawful_granted:
  "same_rules s t \<Longrightarrow> granted s fd part pid \<Longrightarrow> confined pid (h_shm (s_h s)) (h_shm (s_h t)) \<Longrightarrow> lawful fd s t"
  by (auto simp: lawful_def)

lemma lawful_trans1: "untouched s t \<Longrightarrow> same_rules s t \<Longrightarrow> lawful fd t u \<Longrightarrow> lawful fd s u"
  by (auto simp: lawful_def untouched_def same_rules_def granted_def)

lemma lawful_trans2: "lawful fd s t \<Longrightarrow> untouched t u \<Longrightarrow> same_rules t u \<Longrightarrow> lawful fd s u"
  by (auto simp: lawful_def untouched_def same_rules_def)

text \<open>The answers touch the socket only.\<close>

definition quiet_step :: "srv \<Rightarrow> srv \<Rightarrow> bool" where
  "quiet_step s t \<longleftrightarrow> untouched s t \<and> same_rules s t"

lemma quiet_lawful: "quiet_step s t \<Longrightarrow> lawful fd s t"
  by (simp add: quiet_step_def lawful_untouched)

lemma quiet_refl [simp]: "quiet_step s s"
  by (simp add: quiet_step_def)

lemma quiet_trans: "quiet_step s t \<Longrightarrow> quiet_step t u \<Longrightarrow> quiet_step s u"
  unfolding quiet_step_def by (blast intro: untouched_trans same_rules_trans)

lemma send_bytes_quiet: "quiet_step s (snd (send_bytes fd bs s))"
  by (simp add: send_bytes_def Let_def quiet_step_def untouched_def same_rules_def split: prod.split)

lemma recv_bytes_quiet: "recv_bytes fd n s = (r, t) \<Longrightarrow> quiet_step s t"
  by (auto simp: recv_bytes_def Let_def quiet_step_def untouched_def same_rules_def split: prod.splits)

lemma payload_quiet: "payload fd rq n s = (r, t) \<Longrightarrow> quiet_step s t"
  using recv_bytes_quiet by (auto simp: payload_def split: if_splits)

lemma answers_quiet:
  "quiet_step s (snd (answer fd st s))" "quiet_step s (snd (answer_close fd st s))"
  "quiet_step s (snd (answer_data fd bs s))" "quiet_step s (snd (answer_list fd bs s))"
proof -
  note q = send_bytes_quiet
  show a: "quiet_step s (snd (answer fd st s))" "quiet_step s (snd (answer_close fd st s))"
    using q by (simp_all add: answer_def answer_close_def send_resp_def)
  let ?h = "hdr_bytes RTDBD_MAGIC RTDBD_PROTO_VERSION RTDBD_ST_OK (word_of_nat (length bs))"
  obtain rc t where t: "send_bytes fd ?h s = (rc, t)" by (cases "send_bytes fd ?h s")
  have st: "quiet_step s t" using q [of s fd ?h] t by simp
  have "quiet_step s (snd (send_bytes fd bs t))" by (rule quiet_trans [OF st q])
  then show "quiet_step s (snd (answer_data fd bs s))" "quiet_step s (snd (answer_list fd bs s))"
    using t st by (simp_all add: answer_data_def answer_list_def send_resp_def split_beta)
qed

lemma quiet_conns [simp]: "quiet_step s (s\<lparr>s_conns := c\<rparr>)" "quiet_step s (s\<lparr>s_stats := g\<rparr>)"
  by (simp_all add: quiet_step_def untouched_def same_rules_def)

lemma quiet_h: "h_shm h = h_shm (s_h s) \<Longrightarrow> quiet_step s (s\<lparr>s_h := h\<rparr>)"
  by (simp add: quiet_step_def untouched_def same_rules_def)

lemma granted_quiet:
  assumes "granted s fd part pid" "confined pid (h_shm (s_h s)) (h_shm (s_h u))" "same_rules s u" "quiet_step u t"
  shows "lawful fd s t"
proof -
  have "h_shm (s_h t) = h_shm (s_h u)" "same_rules s t"
    using assms(3,4) by (auto simp: quiet_step_def untouched_def intro: same_rules_trans)
  then show ?thesis using assms(1,2) lawful_granted by metis
qed

lemma lawful_quiet_first: "quiet_step s s1 \<Longrightarrow> lawful fd s1 t \<Longrightarrow> lawful fd s t"
  unfolding quiet_step_def by (blast intro: lawful_trans1)

lemma same_rules_updates [simp]:
  "same_rules s (s\<lparr>s_h := h\<rparr>)" "same_rules s (s\<lparr>s_h := h, s_stats := g\<rparr>)"
  "same_rules s (audit_op now cred part pid t) = same_rules s t" "same_rules s (log_info wall msg t) = same_rules s t"
  "same_rules s (t\<lparr>s_stats := g\<rparr>) = same_rules s t" "same_rules s (reject_write now t) = same_rules s t"
  by (simp_all add: same_rules_def audit_op_def log_info_def reject_write_def)

lemma shm_updates [simp]:
  "s_h (audit_op now cred part pid t) = s_h t" "s_h (log_info wall msg t) = s_h t" "s_h (reject_write now t) = s_h t"
  by (simp_all add: audit_op_def log_info_def reject_write_def)

lemma reject_write_quiet [simp]: "quiet_step s (reject_write now s)" "quiet_step s (note_decode_fail now s)"
  by (simp_all add: reject_write_def note_decode_fail_def)

text \<open>The common shape of the handlers that need a grant.\<close>

lemma guarded_lawful:
  assumes res: "(case payload fd rq n s of
        (None, s1) \<Rightarrow> Some (answer_close fd RTDBD_ST_BAD_REQUEST s1)
      | (Some bs, s1) \<Rightarrow>
          (case io_cred (s_io s1 fd) of
             None \<Rightarrow> Some (answer_close fd RTDBD_ST_INTERNAL s1)
           | Some cred \<Rightarrow>
               if \<not> irt_policy_allows (s_policy s1) (snd cred) (part s1 bs) (pid bs) then Some (den s1)
               else if \<not> rtdbd_conf_partition_allowed (s_conf s1) (part s1 bs) then Some (den s1)
               else body s1 bs cred)) = Some (rc, t)"
    and den: "\<And>s1. quiet_step s1 (snd (den s1))"
    and body: "\<And>s1 bs cred. granted s1 fd (part s1 bs) (pid bs) \<Longrightarrow> body s1 bs cred = Some (rc, t) \<Longrightarrow> lawful fd s1 t"
  shows "lawful fd s t"
proof -
  obtain r s1 where p: "payload fd rq n s = (r, s1)" by (cases "payload fd rq n s")
  note q = payload_quiet [OF p]
  have "lawful fd s1 t"
  proof (cases r)
    case None
    then have "t = snd (answer_close fd RTDBD_ST_BAD_REQUEST s1)" using res p by simp
    then show ?thesis using answers_quiet(2) by (simp add: quiet_lawful)
  next
    case (Some bs)
    note r = Some
    show ?thesis
    proof (cases "io_cred (s_io s1 fd)")
      case None
      then have "t = snd (answer_close fd RTDBD_ST_INTERNAL s1)" using res p r by simp
      then show ?thesis using answers_quiet(2) by (simp add: quiet_lawful)
    next
      case (Some cred)
      show ?thesis
      proof (cases "irt_policy_allows (s_policy s1) (snd cred) (part s1 bs) (pid bs)
          \<and> rtdbd_conf_partition_allowed (s_conf s1) (part s1 bs)")
        case False
        then have "t = snd (den s1)" using res p r Some by (auto split: if_splits)
        then show ?thesis using den by (simp add: quiet_lawful)
      next
        case True
        then have "granted s1 fd (part s1 bs) (pid bs)" using Some by (auto simp: granted_def)
        moreover have "body s1 bs cred = Some (rc, t)" using res p r Some True by simp
        ultimately show ?thesis by (rule body)
      qed
    qed
  qed
  then show ?thesis by (rule lawful_quiet_first [OF q])
qed

text \<open>After the library operation: answers, entries of the trail and of the log, counters.\<close>

lemma granted_answer:
  assumes "granted s fd part pid" "answer fd st u = (rc, t)"
    "confined pid (h_shm (s_h s)) (h_shm (s_h u))" "same_rules s u"
  shows "lawful fd s t"
  using granted_quiet [OF assms(1,3,4) answers_quiet(1)] assms(2) by (metis snd_conv)

lemma broadcast_quiet:
  assumes "(if src \<noteq> 0 then Some (1, u)
      else case notify_broadcast now ob (s_h u) (s_conns u) w m (s_stats u) of
        None \<Rightarrow> None | Some (h, conns, g) \<Rightarrow> Some (0, u\<lparr>s_h := h, s_conns := conns, s_stats := g\<rparr>)) = Some (rc, t)"
  shows "quiet_step u t"
  using assms
  by (auto simp: quiet_step_def untouched_def same_rules_def split: if_splits option.splits dest: notify_broadcast_shm)

lemma op_write_lawful:
  assumes "op_write e fd k rq s = Some (rc, t)"
  shows "lawful fd s t"
  using assms unfolding op_write_def Let_def
proof (rule guarded_lawful, goal_cases)
  case (1 s1)
  show ?case by (rule quiet_trans [OF reject_write_quiet(1) answers_quiet(1)])
next
  case (2 s1 bs cred)
  let ?w = "write_req_of bs" and ?part = "c_partition (s_conns s1 ! k)"
  obtain wrc m h where w: "do_write e (s_h s1) ?w = (wrc, m, h)" by (metis prod_cases3)
  have c: "confined (w_point_id ?w) (h_shm (s_h s1)) (h_shm h)" using do_write_confined [of ?w "s_h s1" e] w by simp
  let ?u = "s1\<lparr>s_h := h\<rparr>"
  let ?a = "audit_op (en_now e) cred ?part (w_point_id ?w) ?u"
  let ?v = "?a\<lparr>s_stats := (s_stats ?a)\<lparr>n_writes := n_writes (s_stats ?a) + 1\<rparr>\<rparr>"
  show ?case
  proof (cases "wrc = 0")
    case False
    then show ?thesis
      using 2(2) w c by (cases "wrc = -99") (auto elim!: granted_answer [OF 2(1)])
  next
    case True
    obtain src u where a: "answer fd RTDBD_ST_OK ?v = (src, u)" by (cases "answer fd RTDBD_ST_OK ?v")
    have vu: "quiet_step ?v u" using answers_quiet(1) [of ?v fd RTDBD_ST_OK] a by simp
    have "quiet_step u t" by (rule broadcast_quiet) (use 2(2) w True a in simp)
    then show ?thesis using granted_quiet [OF 2(1), of ?v] c vu by (auto intro: quiet_trans)
  qed
qed

lemma op_set_meta_lawful:
  assumes "op_set_meta e fd k rq s = Some (rc, t)"
  shows "lawful fd s t"
  using assms unfolding op_set_meta_def Let_def
proof (rule guarded_lawful, goal_cases)
  case (2 s1 bs cred)
  obtain mrc h where m: "indurtdb_h_set_meta (s_h s1) (of_le (take 4 bs)) (meta_of (drop 8 bs)) = (mrc, h)"
    by (metis prod.collapse)
  then have c: "confined (of_le (take 4 bs)) (h_shm (s_h s1)) (h_shm h)"
    using set_meta_confined [of "of_le (take 4 bs)" "s_h s1" "meta_of (drop 8 bs)"] by simp
  show ?case using 2(2) m c by (auto split: if_splits elim!: granted_answer [OF 2(1)])
qed (rule answers_quiet)

lemma op_create_point_lawful:
  assumes "op_create_point e fd rq s = Some (rc, t)"
  shows "lawful fd s t"
  using assms unfolding op_create_point_def Let_def
proof (rule guarded_lawful, goal_cases)
  case (2 s1 bs cred)
  let ?op = "indurtdb_h_create_point_in (en_d e) (s_h s1) (of_le (drop 72 bs)) (of_le (take 4 bs))
    (name_of (take 64 (drop 8 bs))) (uint (bs ! 4)) (uint (bs ! 5))"
  obtain mrc h where m: "?op = (mrc, h)" by (metis prod.collapse)
  then have c: "confined (of_le (take 4 bs)) (h_shm (s_h s1)) (h_shm h)" by (metis create_point_confined snd_conv)
  show ?case using 2(2) m c by (auto split: if_splits elim!: granted_answer [OF 2(1)])
qed (rule answers_quiet)

lemma op_delete_point_lawful:
  assumes "op_delete_point e fd rq s = Some (rc, t)"
  shows "lawful fd s t"
  using assms unfolding op_delete_point_def Let_def
proof (rule guarded_lawful, goal_cases)
  case (2 s1 bs cred)
  obtain mrc h where m: "indurtdb_h_delete_point_in (s_h s1) (of_le (drop 4 bs)) (of_le (take 4 bs)) = (mrc, h)"
    by (metis prod.collapse)
  then have c: "confined (of_le (take 4 bs)) (h_shm (s_h s1)) (h_shm h)" by (metis delete_point_confined snd_conv)
  show ?case using 2(2) m c by (auto split: if_splits elim!: granted_answer [OF 2(1)])
qed (rule answers_quiet)

lemma op_rename_point_lawful:
  assumes "op_rename_point e fd rq s = Some (rc, t)"
  shows "lawful fd s t"
  using assms unfolding op_rename_point_def Let_def
proof (rule guarded_lawful, goal_cases)
  case (2 s1 bs cred)
  let ?op = "indurtdb_h_rename_point_in (en_d e) (s_h s1) (of_le (drop 68 bs)) (of_le (take 4 bs)) (name_of (take 64 (drop 4 bs)))"
  obtain mrc h where m: "?op = (mrc, h)" by (metis prod.collapse)
  then have c: "confined (of_le (take 4 bs)) (h_shm (s_h s1)) (h_shm h)" by (metis rename_point_confined snd_conv)
  show ?case using 2(2) m c by (auto split: if_splits elim!: granted_answer [OF 2(1)])
qed (rule answers_quiet)

text \<open>The common shape of the handlers that need no grant.\<close>

lemma open_quiet:
  assumes res: "(case payload fd rq n s of
        (None, s1) \<Rightarrow> Some (answer_close fd RTDBD_ST_BAD_REQUEST s1)
      | (Some bs, s1) \<Rightarrow> body s1 bs) = Some (rc, t)"
    and body: "\<And>s1 bs. body s1 bs = Some (rc, t) \<Longrightarrow> quiet_step s1 t"
  shows "quiet_step s t"
proof -
  obtain r s1 where p: "payload fd rq n s = (r, s1)" by (cases "payload fd rq n s")
  note q = payload_quiet [OF p]
  show ?thesis
  proof (cases r)
    case None
    then have "t = snd (answer_close fd RTDBD_ST_BAD_REQUEST s1)" using res p by simp
    then show ?thesis using quiet_trans [OF q answers_quiet(2)] by simp
  next
    case (Some bs)
    then show ?thesis using quiet_trans [OF q body] res p by simp
  qed
qed

lemma quiet_answers:
  "quiet_step s u \<Longrightarrow> answer fd st u = (rc, t) \<Longrightarrow> quiet_step s t"
  "quiet_step s u \<Longrightarrow> answer_close fd st u = (rc, t) \<Longrightarrow> quiet_step s t"
  "quiet_step s u \<Longrightarrow> answer_data fd bs u = (rc, t) \<Longrightarrow> quiet_step s t"
  "quiet_step s u \<Longrightarrow> answer_list fd bs u = (rc, t) \<Longrightarrow> quiet_step s t"
  using answers_quiet by (metis quiet_trans snd_conv)+

lemma op_subscribe_quiet: "op_subscribe fd k rq s = Some (rc, t) \<Longrightarrow> quiet_step s t"
  unfolding op_subscribe_def Let_def
  by (erule open_quiet) (auto split: prod.splits intro: quiet_answers(1) [rotated])

lemma op_select_quiet: "op_select fd k rq s = Some (rc, t) \<Longrightarrow> quiet_step s t"
  unfolding op_select_def Let_def
  by (erule open_quiet) (auto split: if_splits intro: quiet_answers(1) [rotated])

lemma op_find_by_name_quiet: "op_find_by_name e fd rq s = Some (rc, t) \<Longrightarrow> quiet_step s t"
  unfolding op_find_by_name_def Let_def
proof (erule open_quiet, goal_cases)
  case (1 s1 bs)
  obtain frc found h where f: "indurtdb_h_find_by_name_in (en_d e) (s_h s1) (of_le (drop 64 bs)) (name_of bs) = ((frc, found), h)"
    by (metis prod.collapse)
  then have "quiet_step s1 (s1\<lparr>s_h := h\<rparr>)" by (intro quiet_h) (metis find_by_name_shm snd_conv)
  then show ?case using 1 f by (auto split: if_splits intro: quiet_answers(1,3) [rotated] quiet_answers(1) [OF quiet_refl])
qed

lemma op_get_meta_quiet: "op_get_meta e fd rq s = Some (rc, t) \<Longrightarrow> quiet_step s t"
  unfolding op_get_meta_def Let_def
proof (erule open_quiet, goal_cases)
  case (1 s1 bs)
  obtain grc m h where f: "indurtdb_h_get_meta (en_d e) (s_h s1) (of_le bs) = ((grc, m), h)"
    by (metis prod.collapse)
  then have "quiet_step s1 (s1\<lparr>s_h := h\<rparr>)" by (intro quiet_h) (metis get_meta_shm snd_conv)
  then show ?case using 1 f by (auto split: if_splits intro: quiet_answers(1,3) [rotated])
qed

lemma op_get_quiet: "op_get e fd rq s = Some (rc, t) \<Longrightarrow> quiet_step s t"
  unfolding op_get_def
proof (erule open_quiet, goal_cases)
  case (1 s1 bs)
  then obtain r h where g: "do_get e (s_h s1) (of_le bs) = Some (r, h)" by (auto split: option.splits)
  then have "quiet_step s1 (s1\<lparr>s_h := h\<rparr>)" by (intro quiet_h) (rule do_get_shm)
  then show ?case using 1 g by (auto split: option.splits intro: quiet_answers(1,3) [rotated])
qed

lemma op_list_quiet: "op_list e fd rq s = Some (rc, t) \<Longrightarrow> quiet_step s t"
  unfolding op_list_def Let_def
proof (erule open_quiet, goal_cases)
  case (1 s1 bs)
  have "quiet_step s1 (s1\<lparr>s_h := h\<rparr>)" if "do_list e (g_max_points s1) (s_h s1) part mx off = Some (r, h)" for part mx off r h
    using that by (intro quiet_h) (rule do_list_shm)
  then show ?case
    using 1 by (auto split: if_splits option.splits intro: quiet_answers(1) [OF quiet_refl] quiet_answers(4) [rotated])
qed

lemma op_get_log_quiet: "op_get_log fd rq s = Some (rc, t) \<Longrightarrow> quiet_step s t"
  unfolding op_get_log_def Let_def
  by (erule open_quiet) (auto intro: quiet_answers(4) [OF quiet_refl])

lemma full_self_check_quiet: "quiet_step s (snd (full_self_check now s))"
proof -
  have "quiet_step s (s\<lparr>s_h := h, s_stats := g\<rparr>)" if "h_shm h = h_shm (s_h s)" for h g
    using that by (simp add: quiet_step_def untouched_def same_rules_def)
  moreover have "h_shm (fst (snd (rtdbd_self_check_core now (s_h s) (s_stats s)))) = h_shm (s_h s)"
    by (simp add: rtdbd_self_check_core_def split_beta Let_def)
  ultimately show ?thesis by (simp add: full_self_check_def split_beta)
qed

lemma op_health_quiet: "op_health e fd rq s = Some (rc, t) \<Longrightarrow> quiet_step s t"
  using full_self_check_quiet [of s "en_now e"]
  by (auto simp: op_health_def split: if_splits prod.splits intro: quiet_answers(2,3) [rotated])

lemma handler_lawful:
  assumes "map_of kOps op = Some fn" "fn e fd k rq s = Some (rc, t)"
  shows "lawful fd s t"
proof -
  have "quiet_step s t" if "op_ping fd s = Some (rc, t) \<or> op_audit_dump fd s = Some (rc, t)"
    using that by (auto simp: op_ping_def op_audit_dump_def intro: quiet_answers(1,4) [OF quiet_refl])
  then show ?thesis
    using assms
    by (auto simp: kOps_def split: if_splits
        intro: op_write_lawful op_set_meta_lawful op_create_point_lawful op_delete_point_lawful op_rename_point_lawful
          quiet_lawful [OF op_subscribe_quiet] quiet_lawful [OF op_select_quiet] quiet_lawful [OF op_find_by_name_quiet]
          quiet_lawful [OF op_get_meta_quiet] quiet_lawful [OF op_get_quiet] quiet_lawful [OF op_list_quiet]
          quiet_lawful [OF op_get_log_quiet] quiet_lawful [OF op_health_quiet] quiet_lawful)
qed

lemma handle_request_lawful:
  assumes "handle_request e fd k s = Some (rc, t)"
  shows "lawful fd s t"
proof -
  obtain r s1 where p: "recv_bytes fd 12 s = (r, s1)" by (cases "recv_bytes fd 12 s")
  note q = recv_bytes_quiet [OF p]
  have "lawful fd s1 t"
  proof (cases r)
    case None
    then show ?thesis using assms p by (simp add: handle_request_def quiet_lawful)
  next
    case (Some bs)
    then show ?thesis
      using assms p
      by (auto simp: handle_request_def Let_def split: if_splits option.splits
          intro: handler_lawful quiet_lawful quiet_answers(2) [OF quiet_refl])
  qed
  then show ?thesis by (rule lawful_quiet_first [OF q])
qed

text \<open>
  C8. Requests stay within the grants of the policy: whatever bytes a client sends, a request
  either leaves the whole segment, the audit trail and the log as they are, or the kernel-reported
  uid of the peer has a rule of the policy for some point in some partition that the white list
  allows, and then only the record and the metadata of that one point can differ (besides the name
  index and the header). The policy and the white list themselves cannot be changed by a request.
\<close>

theorem requests_stay_within_grants:
  assumes "handle_request e fd k s = Some (rc, s')"
  shows "s_policy s' = s_policy s \<and> s_conf s' = s_conf s \<and>
    (h_shm (s_h s') = h_shm (s_h s) \<and> s_audit s' = s_audit s \<and> s_log s' = s_log s
     \<or> (\<exists>pid uid part point. io_cred (s_io s fd) = Some (pid, uid)
          \<and> irt_policy_allows (s_policy s) uid part point \<and> rtdbd_conf_partition_allowed (s_conf s) part
          \<and> (\<forall>q. q \<noteq> point \<longrightarrow> points (h_shm (s_h s')) ! unat q = points (h_shm (s_h s)) ! unat q
                \<and> metas (h_shm (s_h s')) ! unat q = metas (h_shm (s_h s)) ! unat q)))"
proof -
  have l: "lawful fd s s'" by (rule handle_request_lawful [OF assms])
  then have r: "s_policy s' = s_policy s \<and> s_conf s' = s_conf s" by (simp add: lawful_def same_rules_def)
  from l consider "untouched s s'"
    | part point where "granted s fd part point" "confined point (h_shm (s_h s)) (h_shm (s_h s'))"
    by (auto simp: lawful_def)
  then show ?thesis
  proof cases
    case 1
    then show ?thesis using r by (simp add: untouched_def)
  next
    case 2
    then show ?thesis using r confined_others [OF 2(2)] unfolding granted_def by (metis prod.collapse)
  qed
qed

text \<open>A daemon with one connection of uid 1000, which may write point 2 of partition 9.\<close>

definition demo_srv :: "rx_event list \<Rightarrow> srv" where
  "demo_srv rx = \<lparr>s_h = \<lparr>h_shm = fresh_shm 4 1 7, h_sub = irt_sub_init, initialized = True, h_owner_pid = 7,
       delta_fd = -1, default_partition = 0, delta_file = [], delta_env = [], last_error = []\<rparr>,
     s_policy = [\<lparr>r_uid = 1000, r_partition = 9, r_min_id = 2, r_max_id = 2, wildcard_partition = False\<rparr>],
     s_conf = rtdbd_conf_init, s_audit = irt_audit_init, s_log = irt_logbuf_init, s_stats = zero_stats,
     s_conns = [demo_conn],
     s_io = (\<lambda>fd. \<lparr>io_rx = rx, io_tx = [], io_env = [], io_cred = Some (77, 1000)\<rparr>),
     g_max_points = 4\<rparr>"

definition demo_env :: req_env where
  "demo_env = \<lparr>en_now = 5, en_later = 6, en_wall = 7, en_write = 8, en_d = 0,
     en_ob = (\<lambda>_. [(0, zero_point, 0)]), en_torn = zero_meta\<rparr>"

text \<open>The bytes of a request to delete point 2 of partition 9, in two pieces.\<close>

definition demo_delete :: "rx_event list" where
  "demo_delete = [Data (hdr_bytes RTDBD_MAGIC RTDBD_PROTO_VERSION 13 8), Data (le32 2 @ le32 9)]"

lemma recv_one: "bs \<noteq> [] \<Longrightarrow> recv_all (length bs) (Data bs # evs) = (Some bs, evs)"
  by (subst recv_all.simps) (simp add: recv_all.simps [of 0])

lemma hdr_bytes_ne: "hdr_bytes mg v op len \<noteq> []"
  using hdr_bytes_length [of mg v op len] by (metis length_0_conv zero_neq_numeral)

lemma demo_delete_answered: "\<exists>rc s'. handle_request demo_env 5 0 (demo_srv demo_delete) = Some (rc, s')"
proof -
  let ?hdr = "hdr_bytes RTDBD_MAGIC RTDBD_PROTO_VERSION 13 8"
  have r: "recv_all 12 demo_delete = (Some ?hdr, [Data (le32 2 @ le32 9)])"
    using recv_one [of ?hdr "[Data (le32 2 @ le32 9)]"] by (simp add: demo_delete_def hdr_bytes_ne)
  have h: "req_hdr_of ?hdr = \<lparr>rq_magic = RTDBD_MAGIC, rq_version = RTDBD_PROTO_VERSION, rq_opcode = 13, rq_len = 8\<rparr>"
    by (simp add: req_hdr_of_def hdr_bytes_def)
  show ?thesis
    by (simp add: handle_request_def recv_bytes_def demo_srv_def r h kOps_def op_delete_point_def payload_def Let_def
        split: option.split prod.split)
qed

theorem requests_stay_within_grants_witness:
  "\<exists>rc s'. handle_request demo_env 5 0 (demo_srv demo_delete) = Some (rc, s')
     \<and> points (h_shm (s_h s')) ! 3 = points (h_shm (s_h (demo_srv demo_delete))) ! 3"
proof -
  obtain rc s' where r: "handle_request demo_env 5 0 (demo_srv demo_delete) = Some (rc, s')"
    using demo_delete_answered by blast
  have g: "point = 2" if "irt_policy_allows (s_policy (demo_srv demo_delete)) uid part point" for uid part point
    using that by (simp add: demo_srv_def split: if_splits)
  have "points (h_shm (s_h s')) ! unat (3 :: u32) = points (h_shm (s_h (demo_srv demo_delete))) ! unat (3 :: u32)"
    using requests_stay_within_grants [OF r]
  proof (elim conjE disjE exE)
    fix pid uid part point
    assume a: "irt_policy_allows (s_policy (demo_srv demo_delete)) uid part point"
      and o: "\<forall>q. q \<noteq> point \<longrightarrow> points (h_shm (s_h s')) ! unat q = points (h_shm (s_h (demo_srv demo_delete))) ! unat q
        \<and> metas (h_shm (s_h s')) ! unat q = metas (h_shm (s_h (demo_srv demo_delete))) ! unat q"
    have "(3 :: u32) \<noteq> point" using g [OF a] by simp
    then show ?thesis using o by blast
  qed simp
  then show ?thesis using r by auto
qed

section \<open>Reading and writing a fragmented stream\<close>

fun rx_data :: "rx_event list \<Rightarrow> u8 list" where
  "rx_data [] = []"
| "rx_data (Data bs # evs) = bs @ rx_data evs"
| "rx_data (_ # evs) = rx_data evs"

text \<open>The peer keeps the connection open while it sends.\<close>

definition rx_sound :: "rx_event list \<Rightarrow> bool" where
  "rx_sound evs \<longleftrightarrow> Rx_error \<notin> set evs \<and> Data [] \<notin> set evs"

lemma recv_all_0 [simp]: "recv_all 0 evs = (Some [], evs)"
  by (simp add: recv_all.simps)

lemma recv_all_take:
  assumes "rx_sound evs" "len \<le> length (rx_data evs)"
  shows "\<exists>evs'. recv_all len evs = (Some (take len (rx_data evs)), evs')
    \<and> rx_data evs' = drop len (rx_data evs) \<and> rx_sound evs'"
  using assms
proof (induction len evs rule: recv_all.induct)
  case (1 len evs)
  show ?case
  proof (cases "len = 0")
    case False
    show ?thesis
    proof (cases evs)
      case Nil
      then show ?thesis using 1(4) False by simp
    next
      case (Cons ev rest)
      show ?thesis
      proof (cases ev)
        case Rx_eintr
        then show ?thesis
          using 1(2) [OF False Cons Rx_eintr] 1(3,4) Cons False by (subst recv_all.simps) (simp add: rx_sound_def)
      next
        case Rx_error
        then show ?thesis using 1(3) Cons by (simp add: rx_sound_def)
      next
        case (Data bs)
        have ne: "bs \<noteq> []" using 1(3) Cons Data by (auto simp: rx_sound_def)
        let ?rest = "if length bs \<le> len then rest else Data (drop len bs) # rest"
        have snd: "rx_sound ?rest" using 1(3) Cons Data by (auto simp: rx_sound_def)
        have dat: "rx_data ?rest = drop (length (take len bs)) (rx_data evs)" using Cons Data by auto
        have "len - length (take len bs) \<le> length (rx_data ?rest)" using 1(4) unfolding dat by simp
        from 1(1) [OF False Cons Data ne snd this] obtain evs' where
          r: "recv_all (len - length (take len bs)) ?rest = (Some (take (len - length (take len bs)) (rx_data ?rest)), evs')"
          and e: "rx_data evs' = drop (len - length (take len bs)) (rx_data ?rest)" "rx_sound evs'"
          by blast
        have "recv_all len evs = (Some (take len bs @ take (len - length (take len bs)) (rx_data ?rest)), evs')"
          using False Cons Data ne r by (subst recv_all.simps) simp
        moreover have "take len bs @ take (len - length (take len bs)) (rx_data ?rest) = take len (rx_data evs)"
          using Cons Data by (auto simp: min_def)
        moreover have "rx_data evs' = drop len (rx_data evs)"
          using e(1) Cons Data by (auto simp: min_def)
        ultimately show ?thesis using e(2) by simp
      qed
    qed
  qed (use 1(3) in simp)
qed

text \<open>
  A request is read correctly however the stream is cut into pieces: if the peer sends at least
  \<open>len\<close> bytes, \<open>recv_all\<close> returns exactly the first \<open>len\<close> of them and leaves the rest for the next
  read; pieces, coalesced requests and interrupted calls make no difference.
\<close>

theorem recv_all_exact:
  assumes "rx_sound evs" "len \<le> length (rx_data evs)"
  shows "\<exists>evs'. recv_all len evs = (Some (take len (rx_data evs)), evs')
    \<and> rx_data evs' = drop len (rx_data evs) \<and> rx_sound evs'"
  using assms by (rule recv_all_take)

theorem recv_all_exact_witness:
  "\<exists>evs'. recv_all 3 [Data [1], Rx_eintr, Data [2, 3, 4]] = (Some [1, 2, 3], evs') \<and> rx_data evs' = [4]"
  using recv_all_exact [of "[Data [1], Rx_eintr, Data [2, 3, 4]]" 3] by (auto simp: rx_sound_def)

lemma send_all_prefix:
  "send_all bs rs = ((out, rc), rs') \<Longrightarrow> (\<exists>r. bs = out @ r) \<and> (rc = 0 \<longleftrightarrow> out = bs) \<and> rc \<in> {0, -1}"
proof (induction bs rs arbitrary: out rc rs' rule: send_all.induct)
  case (2 bs r rs)
  show ?case
  proof (cases "bs = []")
    case False
    show ?thesis
    proof (cases r)
      case (Takes k)
      show ?thesis
      proof (cases "take k bs = []")
        case f: False
        obtain out1 where o: "send_all (drop k bs) rs = ((out1, rc), rs')" "out = take k bs @ out1"
          using 2(3) False Takes f by (auto simp: Let_def split: prod.splits)
        from 2(1) [OF False Takes f o(1)] obtain r' where r': "drop k bs = out1 @ r'" "(rc = 0) = (out1 = drop k bs)" "rc \<in> {0, -1}"
          by blast
        have "bs = out @ r'" using r'(1) o(2) by (metis append_assoc append_take_drop_id)
        moreover have "out1 = drop k bs \<longleftrightarrow> out = bs" using o(2) by (metis append_take_drop_id same_append_eq)
        ultimately show ?thesis using r'(2,3) by blast
      qed (use 2(3) False Takes in auto)
    qed (use 2 False in auto)
  qed (use 2(3) in auto)
qed auto

end
