(* ===== verification/Daemon.thy ===== *)
theory Daemon
  imports Server Policy Config
begin

text \<open>
  The life of the daemon (\<^verbatim>\<open>rtdbd/src/rtdbd.c\<close>): the command line, the start in its order of
  fail-fast phases, the poll loop, the shutdown, and the supervisor. What \<open>poll\<close>, \<open>accept\<close>,
  \<open>fork\<close> and \<open>waitpid\<close> answer is given round by round; a loop whose list of rounds is exhausted is
  still running.
\<close>

section \<open>Constants and the command line\<close>

definition RTDBD_MAX_CLIENTS :: nat where "RTDBD_MAX_CLIENTS = 32"
definition RTDBD_MAX_POINTS_LIMIT :: u32 where "RTDBD_MAX_POINTS_LIMIT = 1000000"
definition RTDBD_EXIT_OK :: int where "RTDBD_EXIT_OK = 0"
definition RTDBD_EXIT_ERROR :: int where "RTDBD_EXIT_ERROR = 1"
definition RTDBD_EXIT_CONFIG :: int where "RTDBD_EXIT_CONFIG = 2"
definition RTDBD_EXIT_SHM :: int where "RTDBD_EXIT_SHM = 3"
definition RTDBD_EXIT_SELFCHECK :: int where "RTDBD_EXIT_SELFCHECK = 4"

definition parse_u32_cli :: "string \<Rightarrow> u32 option" where
  "parse_u32_cli s =
     (if s = [] then None
      else let r = c_strtoul s 10
           in case su_end r of
                None \<Rightarrow> None
              | Some rest \<Rightarrow>
                  if rest \<noteq> [] then None
                  else if su_erange r \<or> 0xFFFFFFFF < su_value r then None
                  else Some (ucast (su_value r)))"

record cli =
  cl_socket :: string
  cl_instance :: string
  cl_policy :: "string option"
  cl_config :: "string option"
  cl_max_points :: u32
  cl_max_subs :: u32
  cl_supervise :: bool
  cl_pidfile :: "string option"
  cl_stats_file :: string
  cl_delta :: "string option"

definition cli_defaults :: cli where
  "cli_defaults = \<lparr>cl_socket = ''/run/indurtdb/default.sock'', cl_instance = ''default'', cl_policy = None,
     cl_config = None, cl_max_points = 10000, cl_max_subs = 32, cl_supervise = False, cl_pidfile = None,
     cl_stats_file = ''/tmp/rtdbd.stats'', cl_delta = None\<rparr>"

text \<open>The options in the order in which \<open>getopt_long\<close> yields them, each with its argument.\<close>

fun parse_opts :: "(char \<times> string) list \<Rightarrow> cli \<Rightarrow> int + cli" where
  "parse_opts [] c = Inr c"
| "parse_opts ((opt, arg) # opts) c =
     (if opt = CHR ''s'' then parse_opts opts (c\<lparr>cl_socket := arg\<rparr>)
      else if opt = CHR ''i'' then parse_opts opts (c\<lparr>cl_instance := arg\<rparr>)
      else if opt = CHR ''p'' then parse_opts opts (c\<lparr>cl_policy := Some arg\<rparr>)
      else if opt = CHR ''c'' then parse_opts opts (c\<lparr>cl_config := Some arg\<rparr>)
      else if opt = CHR ''m'' then
        (case parse_u32_cli arg of None \<Rightarrow> Inl RTDBD_EXIT_ERROR | Some n \<Rightarrow> parse_opts opts (c\<lparr>cl_max_points := n\<rparr>))
      else if opt = CHR ''b'' then
        (case parse_u32_cli arg of None \<Rightarrow> Inl RTDBD_EXIT_ERROR | Some n \<Rightarrow> parse_opts opts (c\<lparr>cl_max_subs := n\<rparr>))
      else if opt = CHR ''S'' then parse_opts opts (c\<lparr>cl_supervise := True\<rparr>)
      else if opt = CHR ''P'' then parse_opts opts (c\<lparr>cl_pidfile := Some arg\<rparr>)
      else if opt = CHR ''F'' then parse_opts opts (c\<lparr>cl_stats_file := strncpy_to 255 arg\<rparr>)
      else if opt = CHR ''D'' then parse_opts opts (c\<lparr>cl_delta := Some arg\<rparr>)
      else parse_opts opts c)"

definition instance_char :: "char \<Rightarrow> bool" where
  "instance_char q \<longleftrightarrow> (code CHR ''a'' \<le> code q \<and> code q \<le> code CHR ''z'')
     \<or> (code CHR ''A'' \<le> code q \<and> code q \<le> code CHR ''Z'')
     \<or> (code CHR ''0'' \<le> code q \<and> code q \<le> code CHR ''9'') \<or> q = CHR ''_'' \<or> q = CHR ''-''"

text \<open>The checks of the parameters; \<open>sun_path\<close> has 108 bytes on Linux.\<close>

definition check_cli :: "cli \<Rightarrow> int option" where
  "check_cli c =
     (if cl_instance c = [] then Some RTDBD_EXIT_ERROR
      else if \<not> list_all instance_char (cl_instance c) then Some RTDBD_EXIT_ERROR
      else if cl_max_points c = 0 \<or> RTDBD_MAX_POINTS_LIMIT < cl_max_points c then Some RTDBD_EXIT_ERROR
      else if cl_max_subs c = 0 \<or> word_of_nat RTDBD_SUB_MAX < cl_max_subs c then Some RTDBD_EXIT_ERROR
      else if cl_socket c = [] \<or> 108 \<le> length (cl_socket c) then Some RTDBD_EXIT_ERROR
      else None)"

section \<open>The start\<close>

text \<open>
  What the start finds: the files (\<open>None\<close> when they cannot be opened), the result of opening the
  instance, the change log and what opening it for appending yields; the interference that reads of
  metadata meet, and what the last torn copy of the metadata of a point is when such a read gives up,
  in the validation and in the loop of warnings.
\<close>

record boot_env =
  be_policy :: "string option"
  be_config :: "string option"
  be_open :: "indurtdb option"
  be_delta :: "u8 list option"
  be_delta_io :: "nat option"
  be_delta_open :: "int \<times> u8 list"
  be_now :: u64
  be_wall :: u64
  be_d :: nat
  be_torn_check :: "u32 \<Rightarrow> meta"
  be_torn_warn :: "u32 \<Rightarrow> meta"

text \<open>
  The return code of \<open>indurtdb_h_get_meta\<close> is ignored: the variable, zero before the call, holds the
  metadata, the last torn copy when the read gives up, and zeros when there are none.
\<close>

definition read_meta :: "nat \<Rightarrow> (u32 \<Rightarrow> meta) \<Rightarrow> indurtdb \<Rightarrow> u32 \<Rightarrow> meta" where
  "read_meta d torn h pid =
     (case fst (indurtdb_h_get_meta d h pid) of
        (_, Some m) \<Rightarrow> m
      | (rc, None) \<Rightarrow> if rc = INDURTDB_ERR_BUSY then torn pid else zero_meta)"

text \<open>The validation of the stored points in the daemon; reads of points are not disturbed.\<close>

fun rtdbd_validate_points ::
  "nat \<Rightarrow> (u32 \<Rightarrow> meta) \<Rightarrow> indurtdb \<Rightarrow> u32 list \<Rightarrow> (cfg_error \<times> u32 \<times> cfg_field) option" where
  "rtdbd_validate_points d torn h [] = Some (CFG_OK, 0, FLD_NONE)"
| "rtdbd_validate_points d torn h (pid # pids) =
     (case indurtdb_h_read_point h (quiet (h_shm h) pid) pid zero_point of
        None \<Rightarrow> None
      | Some ((rc, pt), _) \<Rightarrow>
          if rc \<noteq> 0 \<or> pt_name pt = [] then rtdbd_validate_points d torn h pids
          else if INDURTDB_TYPE_FLOAT < pt_type pt then Some (CFG_ERR_TYPE, pid, FLD_TYPE)
          else if access pt \<noteq> INDURTDB_ACCESS_READ_ONLY \<and> access pt \<noteq> INDURTDB_ACCESS_READ_WRITE
          then Some (CFG_ERR_ACCESS, pid, FLD_ACCESS)
          else
            let (vrc, fld) = indurtdb_validate_point_meta (read_meta d torn h pid)
            in if vrc \<noteq> CFG_OK then Some (vrc, pid, fld) else rtdbd_validate_points d torn h pids)"

definition rtdbd_validate_config ::
  "nat \<Rightarrow> (u32 \<Rightarrow> meta) \<Rightarrow> u32 \<Rightarrow> indurtdb option \<Rightarrow> (cfg_error \<times> u32 \<times> cfg_field) option" where
  "rtdbd_validate_config d torn mx g =
     (case g of
        None \<Rightarrow> Some (CFG_ERR_NULL, 0, FLD_NONE)
      | Some h \<Rightarrow>
          if \<not> initialized h then Some (CFG_ERR_NULL, 0, FLD_NONE)
          else rtdbd_validate_points d torn h (map word_of_nat [0..<unat mx]))"

definition empty_conn :: conn where
  "empty_conn = conn_init \<lparr>c_fd = 0, c_partition = 0, c_subs = [], c_rbe = rbe_state_init,
     c_outq = replicate 64 \<lparr>nt_point_id = 0, nt_type = 0, nt_value_bits = 0, nt_timestamp_ns = 0, nt_source_ts_ns = 0\<rparr>,
     c_outq_head = 0, c_outq_tail = 0, c_outq_count = 0, c_outq_sent = 0\<rparr>"

text \<open>
  The phases from the policy to the self check: an exit code and the handle as the phase left it, or
  the state in which the loop starts.
  \<open>None\<close>: a read loop of the validation does not end.
\<close>

definition load_phase :: "cli \<Rightarrow> boot_env \<Rightarrow> int + (irt_policy \<times> rtdbd_conf)" where
  "load_phase c e =
     (let (prc, policy, _) = (if cl_policy c = None then (IRT_POLICY_OK, irt_policy_init, 0)
                              else irt_policy_load irt_policy_init (be_policy e));
          (crc, conf, _) = (if cl_config c = None then (0, rtdbd_conf_init, 0)
                            else rtdbd_conf_load (Some (be_config e)))
      in if prc \<noteq> IRT_POLICY_OK then Inl RTDBD_EXIT_CONFIG
         else if crc \<noteq> 0 then Inl RTDBD_EXIT_CONFIG
         else Inr (policy, conf))"

definition data_phase :: "cli \<Rightarrow> boot_env \<Rightarrow> indurtdb \<Rightarrow> irt_logbuf \<Rightarrow> int \<times> indurtdb \<times> irt_logbuf" where
  "data_phase c e h lg =
     (let (lrc, h) = (if cl_config c = None then (0, h) else indurtdb_h_load_config h (be_config e))
      in if lrc \<noteq> 0 then (RTDBD_EXIT_CONFIG, h, lg)
         else case cl_delta c of
           None \<Rightarrow> (RTDBD_EXIT_OK, h, lg)
         | Some path \<Rightarrow>
             let (applied, h) = indurtdb_h_delta_replay h path (be_delta e) (be_delta_io e)
             in if applied < 0 then (RTDBD_EXIT_CONFIG, h, lg)
                else let (erc, h) = indurtdb_h_enable_delta h path (be_delta_open e)
                     in if erc \<noteq> INDURTDB_OK then (RTDBD_EXIT_CONFIG, h, lg)
                        else (RTDBD_EXIT_OK, h, irt_logbuf_emit (be_wall e) RTDBD_LOG_INFO
                               (''rtdbd: delta '' @ [CHR 0x27] @ path @ [CHR 0x27] @ '' replayed '' @ dec_digits (nat applied) @ '' record(s)'') lg))"

text \<open>The warnings about percent dead bands without a range.\<close>

fun percent_warnings :: "boot_env \<Rightarrow> indurtdb \<Rightarrow> u32 list \<Rightarrow> irt_logbuf \<Rightarrow> irt_logbuf option" where
  "percent_warnings e h [] lg = Some lg"
| "percent_warnings e h (pid # pids) lg =
     (case indurtdb_h_read_point h (quiet (h_shm h) pid) pid zero_point of
        None \<Rightarrow> None
      | Some ((rc, pt), _) \<Rightarrow>
          if rc \<noteq> 0 \<or> pt_name pt = [] then percent_warnings e h pids lg
          else
            let lg = (if indurtdb_meta_pct_without_range (read_meta (be_d e) (be_torn_warn e) h pid)
                      then irt_logbuf_emit (be_wall e) RTDBD_LOG_WARN
                        (''rtdbd: point '' @ dec_digits (unat pid) @ '' has percent deadband but invalid EURange ''
                         @ ''span (eur_max <= eur_min): deadband never triggers'') lg
                      else lg)
            in percent_warnings e h pids lg)"

definition legacy_warning :: "boot_env \<Rightarrow> cfg_error \<Rightarrow> u32 \<Rightarrow> irt_logbuf \<Rightarrow> irt_logbuf" where
  "legacy_warning e verr bad lg =
     (if bad \<noteq> 0
      then irt_logbuf_emit (be_wall e) RTDBD_LOG_WARN
        (''rtdbd: legacy segment has invalid meta at point '' @ dec_digits (unat bad) @ '': ''
         @ indurtdb_cfg_error_reason verr @ '' (continuing; fix config or clear segment to remove)'') lg
      else lg)"

datatype boot_res = Boot_exit int "indurtdb option" | Boot_ok srv

definition boot :: "cli \<Rightarrow> boot_env \<Rightarrow> boot_res option" where
  "boot c e =
     (case load_phase c e of
        Inl rc \<Rightarrow> Some (Boot_exit rc None)
      | Inr (policy, conf) \<Rightarrow>
          case be_open e of
            None \<Rightarrow> Some (Boot_exit RTDBD_EXIT_SHM None)
          | Some h \<Rightarrow>
              let (drc, h, lg) = data_phase c e h irt_logbuf_init
              in if drc \<noteq> RTDBD_EXIT_OK then Some (Boot_exit drc (Some h))
                 else case rtdbd_validate_config (be_d e) (be_torn_check e) (cl_max_points c) (Some h) of
                    None \<Rightarrow> None
                  | Some (verr, bad, _) \<Rightarrow>
                      if verr \<noteq> CFG_OK \<and> cl_config c \<noteq> None then Some (Boot_exit RTDBD_EXIT_CONFIG (Some h))
                      else case percent_warnings e h (map word_of_nat [0..<unat (cl_max_points c)]) (legacy_warning e verr bad lg) of
                        None \<Rightarrow> None
                      | Some lg \<Rightarrow>
                          if fst (indurtdb_h_self_check h) \<noteq> INDURTDB_HEALTH_OK
                          then Some (Boot_exit RTDBD_EXIT_SELFCHECK (Some h))
                          else Some (Boot_ok
                            \<lparr>s_h = h, s_policy = policy, s_conf = conf, s_audit = irt_audit_init,
                             s_log = irt_logbuf_emit (be_wall e) RTDBD_LOG_INFO
                               (''rtdbd listening on '' @ cl_socket c @ '' (instance='' @ cl_instance c @ '')'') lg,
                             s_stats = rtdbd_stats_mark_start (be_now e) zero_stats,
                             s_conns = replicate RTDBD_MAX_CLIENTS empty_conn,
                             s_io = (\<lambda>fd. \<lparr>io_rx = [], io_tx = [], io_env = [], io_cred = None\<rparr>),
                             g_max_points = cl_max_points c\<rparr>))"

section \<open>The poll loop\<close>

datatype poll_res = Poll_ready | Poll_eintr | Poll_error

text \<open>
  One round: the stop and dump flags, the outcome of \<open>poll\<close>, the accepted descriptor with all that
  its peer will ever send and who the peer is, for each descriptor whether it can be read and, if it
  can be written, what \<open>send\<close> will answer.
\<close>

record round =
  ro_stop :: bool
  ro_poll :: poll_res
  ro_dump :: bool
  ro_accept :: "(int \<times> io) option"
  ro_out :: "int \<Rightarrow> send_res list option"
  ro_in :: "int \<Rightarrow> bool"
  ro_env :: "int \<Rightarrow> req_env"

text \<open>The polled descriptors, each with whether writability is asked for.\<close>

definition poll_set :: "conn list \<Rightarrow> (int \<times> bool) list" where
  "poll_set conns = map (\<lambda>c. (c_fd c, 0 < c_outq_count c)) (filter (\<lambda>c. 0 \<le> c_fd c) conns)"

definition dump_stats :: "u64 \<Rightarrow> srv \<Rightarrow> string \<times> srv" where
  "dump_stats now s =
     (let (_, s) = full_self_check now s;
          (txt, g) = rtdbd_stats_dump now (s_stats s)
      in (''n_conns          = '' @ dec_digits (n_open (s_conns s)) @ [CHR 0x0A] @ txt, s\<lparr>s_stats := g\<rparr>))"

text \<open>The first free slot takes the new connection; a full table refuses it.\<close>

fun place_conn :: "int \<Rightarrow> conn list \<Rightarrow> conn list" where
  "place_conn fd [] = []"
| "place_conn fd (c # cs) = (if c_fd c < 0 then (conn_init c)\<lparr>c_fd := fd\<rparr> # cs else c # place_conn fd cs)"

definition accept_conn :: "(int \<times> io) option \<Rightarrow> srv \<Rightarrow> srv" where
  "accept_conn a s =
     (case a of
        None \<Rightarrow> s
      | Some (fd, io) \<Rightarrow>
          if fd < 0 then s else s\<lparr>s_conns := place_conn fd (s_conns s), s_io := (s_io s)(fd := io)\<rparr>)"

definition conn_index :: "int \<Rightarrow> conn list \<Rightarrow> nat option" where
  "conn_index fd conns = find (\<lambda>k. c_fd (conns ! k) = fd) [0..<length conns]"

definition put_conn :: "nat \<Rightarrow> conn \<Rightarrow> srv \<Rightarrow> srv" where
  "put_conn k c s = s\<lparr>s_conns := (s_conns s)[k := c]\<rparr>"

text \<open>The flush of a writable connection; the flag is false when the connection was closed.\<close>

definition flush_conn :: "u64 \<Rightarrow> send_res list \<Rightarrow> int \<Rightarrow> nat \<Rightarrow> srv \<Rightarrow> bool \<times> srv" where
  "flush_conn now rs fd k s =
     (let ((bs, rc), c, g) = outq_flush now rs (s_conns s ! k) (s_stats s);
          io = s_io s fd;
          s = (put_conn k c s)\<lparr>s_stats := g, s_io := (s_io s)(fd := io\<lparr>io_tx := io_tx io @ bs\<rparr>)\<rparr>
      in if rc \<noteq> 0 then (False, put_conn k (conn_init c) s) else (True, s))"

definition close_conn :: "u64 \<Rightarrow> nat \<Rightarrow> srv \<Rightarrow> srv" where
  "close_conn now k s =
     (let (c, g) = conn_discard_outq now (s_conns s ! k) (s_stats s)
      in (put_conn k (conn_init c) s)\<lparr>s_stats := g\<rparr>)"

definition serve_conn :: "round \<Rightarrow> int \<times> bool \<Rightarrow> srv \<Rightarrow> srv option" where
  "serve_conn r p s =
     (case conn_index (fst p) (s_conns s) of
        None \<Rightarrow> Some s
      | Some k \<Rightarrow>
          let fd = fst p; e = ro_env r fd;
              (alive, s) =
                (case (if snd p then ro_out r fd else None) of
                   None \<Rightarrow> (True, s)
                 | Some rs \<Rightarrow> if 0 < c_outq_count (s_conns s ! k) then flush_conn (en_now e) rs fd k s else (True, s))
          in if \<not> alive then Some s
             else if \<not> ro_in r fd then Some s
             else case handle_request e fd k s of
                    None \<Rightarrow> None
                  | Some (rc, s) \<Rightarrow> Some (if rc \<noteq> 0 then close_conn (en_later e) k s else s))"

fun serve_all :: "round \<Rightarrow> (int \<times> bool) list \<Rightarrow> srv \<Rightarrow> srv option" where
  "serve_all r [] s = Some s"
| "serve_all r (p # ps) s = (case serve_conn r p s of None \<Rightarrow> None | Some s \<Rightarrow> serve_all r ps s)"

definition loop_round :: "round \<Rightarrow> srv \<Rightarrow> srv option" where
  "loop_round r s =
     (let fds = poll_set (s_conns s);
          s = (if ro_dump r then snd (dump_stats (en_now (ro_env r 0)) s) else s)
      in serve_all r fds (accept_conn (ro_accept r) s))"

text \<open>The loop: the state when it ends, and whether it has ended.\<close>

fun main_loop :: "round list \<Rightarrow> srv \<Rightarrow> (bool \<times> srv) option" where
  "main_loop [] s = Some (False, s)"
| "main_loop (r # rs) s =
     (if ro_stop r then Some (True, s)
      else case ro_poll r of
        Poll_eintr \<Rightarrow> main_loop rs s
      | Poll_error \<Rightarrow> Some (True, s)
      | Poll_ready \<Rightarrow> (case loop_round r s of None \<Rightarrow> None | Some s \<Rightarrow> main_loop rs s))"

section \<open>The shutdown\<close>

fun drain_conns :: "round \<Rightarrow> int list \<Rightarrow> srv \<Rightarrow> srv" where
  "drain_conns r [] s = s"
| "drain_conns r (fd # fds) s =
     (case ro_out r fd of
        None \<Rightarrow> drain_conns r fds s
      | Some rs \<Rightarrow>
          (case find (\<lambda>k. c_fd (s_conns s ! k) = fd \<and> 0 < c_outq_count (s_conns s ! k)) [0..<length (s_conns s)] of
             None \<Rightarrow> drain_conns r fds s
           | Some k \<Rightarrow>
               let ((bs, rc), c, g) = outq_flush (en_now (ro_env r fd)) rs (s_conns s ! k) (s_stats s);
                   io = s_io s fd
               in drain_conns r fds ((put_conn k c s)\<lparr>s_stats := g, s_io := (s_io s)(fd := io\<lparr>io_tx := io_tx io @ bs\<rparr>)\<rparr>)))"

definition drain_slice :: "nat \<Rightarrow> nat" where
  "drain_slice deadline = (if deadline < 100 then deadline else 100)"

fun drain :: "nat \<Rightarrow> round list \<Rightarrow> srv \<Rightarrow> srv" where
  "drain deadline [] s = s"
| "drain deadline (r # rs) s =
     (if deadline = 0 then s
      else
        let fds = map c_fd (filter (\<lambda>c. 0 \<le> c_fd c \<and> 0 < c_outq_count c) (s_conns s))
        in if fds = [] then s
           else case ro_poll r of
             Poll_eintr \<Rightarrow> drain (deadline - drain_slice deadline) rs s
           | Poll_error \<Rightarrow> s
           | Poll_ready \<Rightarrow> drain (deadline - drain_slice deadline) rs (drain_conns r fds s))"

fun discard_all :: "u64 \<Rightarrow> conn list \<Rightarrow> rtdbd_stats \<Rightarrow> conn list \<times> rtdbd_stats" where
  "discard_all now [] g = ([], g)"
| "discard_all now (c # cs) g =
     (let (c, g) = conn_discard_outq now c g; (cs, g) = discard_all now cs g in (c # cs, g))"

definition shutdown :: "u64 \<Rightarrow> round list \<Rightarrow> srv \<Rightarrow> srv" where
  "shutdown now rs s =
     (let s = drain 1000 rs s; (conns, g) = discard_all now (s_conns s) (s_stats s)
      in s\<lparr>s_conns := conns, s_stats := g\<rparr>)"

end
