(* ===== verification/Daemon_Props.thy ===== *)
theory Daemon_Props
  imports Daemon
begin

text \<open>
  Properties of the daemon's loop: the invariant of the connection table, the account of dropped
  notifications at shutdown, and the interleaving of responses with partly sent notifications.
\<close>

section \<open>The connection table\<close>

definition conn_ok :: "conn \<Rightarrow> bool" where
  "conn_ok c \<longleftrightarrow> length (c_subs c) \<le> 32 \<and> (c_fd c < 0 \<longrightarrow> c_subs c = []) \<and> outq_inv c"

definition table_ok :: "conn list \<Rightarrow> bool" where
  "table_ok cs \<longleftrightarrow> (\<forall>c \<in> set cs. conn_ok c)"

lemma table_okD: "table_ok cs \<Longrightarrow> k < length cs \<Longrightarrow> conn_ok (cs ! k)"
  by (simp add: table_ok_def)

lemma table_ok_update: "table_ok cs \<Longrightarrow> conn_ok c \<Longrightarrow> table_ok (cs[k := c])"
  by (auto simp: table_ok_def dest!: subsetD [OF set_update_subset_insert])

lemma conn_table_check_ok: "table_ok cs \<Longrightarrow> conn_table_check cs = 0"
  by (force simp: table_ok_def conn_ok_def conn_table_check_def RTDBD_SUB_MAX_def)

lemma conn_init_ok: "length (c_outq c) = 64 \<Longrightarrow> conn_ok (conn_init c)"
  by (simp add: conn_ok_def conn_init_def outq_inv_def)

lemma conn_ok_outq: "conn_ok c \<Longrightarrow> length (c_outq c) = 64"
  by (simp add: conn_ok_def outq_inv_def)

lemma add_sub_ok: "conn_ok c \<Longrightarrow> 0 \<le> c_fd c \<Longrightarrow> conn_ok (snd (conn_add_sub c pid))"
  by (auto simp: conn_ok_def conn_add_sub_def outq_inv_def RTDBD_SUB_MAX_def)

lemma sub_index_bound: "sub_index pid xs = Some i \<Longrightarrow> i < length xs \<and> xs ! i = pid"
  by (induction xs arbitrary: i) (auto split: if_splits)

lemma del_sub_ok: "conn_ok c \<Longrightarrow> conn_ok (conn_del_sub c pid)"
  by (auto simp: conn_ok_def conn_del_sub_def outq_inv_def Let_def split: option.split)

lemma outq_push_fields:
  "c_fd (fst (outq_push now nt (c, g))) = c_fd c" "c_subs (fst (outq_push now nt (c, g))) = c_subs c"
  by (simp_all add: outq_push_def Let_def)

lemma outq_push_ok: "conn_ok c \<Longrightarrow> conn_ok (fst (outq_push now nt (c, g)))"
  using outq_push_spec(1) [of c now nt g] by (simp add: conn_ok_def outq_push_fields)

lemma outq_flush_fields:
  "c_fd (fst (snd (outq_flush now rs c g))) = c_fd c \<and> c_subs (fst (snd (outq_flush now rs c g))) = c_subs c"
  by (induction now rs c g rule: outq_flush.induct)
     (auto simp: conn_discard_outq_def Let_def split: send_res.split prod.split)

lemma outq_flush_ok: "conn_ok c \<Longrightarrow> conn_ok (fst (snd (outq_flush now rs c g)))"
  using outq_flush_spec [of c now rs g] outq_flush_fields [of now rs c g] by (simp add: conn_ok_def)

lemma conn_rbe_ok [simp]: "conn_ok (c\<lparr>c_rbe := r\<rparr>) = conn_ok c" "conn_ok (c\<lparr>c_partition := p\<rparr>) = conn_ok c"
  by (simp_all add: conn_ok_def outq_inv_def)

lemma broadcast_loop_ok:
  "table_ok cs \<Longrightarrow> table_ok (fst (broadcast_loop now nt v m cs g)) \<and> length (fst (broadcast_loop now nt v m cs g)) = length cs
     \<and> map c_fd (fst (broadcast_loop now nt v m cs g)) = map c_fd cs"
proof (induction cs arbitrary: g)
  case (Cons c cs)
  have IH: "table_ok (fst (broadcast_loop now nt v m cs g')) \<and> length (fst (broadcast_loop now nt v m cs g')) = length cs
     \<and> map c_fd (fst (broadcast_loop now nt v m cs g')) = map c_fd cs" for g'
    using Cons by (simp add: table_ok_def)
  have c: "conn_ok c" using Cons.prems by (simp add: table_ok_def)
  obtain send rbe where d: "rbe_decide (c_rbe c) (nt_point_id nt) v (Some m) = (send, rbe)" by (metis prod.collapse)
  let ?p = "outq_push now nt (c\<lparr>c_rbe := rbe\<rparr>, g)"
  have p: "conn_ok (fst ?p)" "c_fd (fst ?p) = c_fd c" using c outq_push_ok outq_push_fields(1) [of now nt "c\<lparr>c_rbe := rbe\<rparr>" g] by simp_all
  show ?case
    using IH c d p by (auto simp: table_ok_def split_beta Let_def)
qed (simp add: table_ok_def)

section \<open>Handlers and the table\<close>

lemma send_bytes_conns [simp]: "s_conns (snd (send_bytes fd bs s)) = s_conns s"
  by (simp add: send_bytes_def Let_def split_beta)

lemma recv_bytes_conns [simp]: "s_conns (snd (recv_bytes fd n s)) = s_conns s"
  by (simp add: recv_bytes_def Let_def split_beta)

lemma payload_conns [simp]: "s_conns (snd (payload fd rq n s)) = s_conns s"
  by (simp add: payload_def)

lemma answer_conns [simp]:
  "s_conns (snd (answer fd st s)) = s_conns s" "s_conns (snd (answer_close fd st s)) = s_conns s"
  "s_conns (snd (answer_data fd bs s)) = s_conns s" "s_conns (snd (answer_list fd bs s)) = s_conns s"
  by (simp_all add: answer_def answer_close_def answer_data_def answer_list_def send_resp_def split_beta Let_def)

lemma answer_connsD:
  "answer fd st s = (rc, t) \<Longrightarrow> s_conns t = s_conns s" "answer_close fd st s = (rc, t) \<Longrightarrow> s_conns t = s_conns s"
  "answer_data fd bs s = (rc, t) \<Longrightarrow> s_conns t = s_conns s" "answer_list fd bs s = (rc, t) \<Longrightarrow> s_conns t = s_conns s"
  using answer_conns by (metis snd_conv)+

lemma helper_conns [simp]:
  "s_conns (audit_op now cred part pid s) = s_conns s" "s_conns (log_info wall msg s) = s_conns s"
  "s_conns (reject_write now s) = s_conns s" "s_conns (note_decode_fail now s) = s_conns s"
  "s_conns (snd (full_self_check now s)) = s_conns s"
  by (simp_all add: audit_op_def log_info_def reject_write_def note_decode_fail_def full_self_check_def split_beta Let_def)

lemma payload_cases:
  assumes "(case payload fd rq n s of
        (None, s1) \<Rightarrow> Some (answer_close fd RTDBD_ST_BAD_REQUEST s1)
      | (Some bs, s1) \<Rightarrow> body s1 bs) = Some (rc, t)"
    and "\<And>s1 bs. s_conns s1 = s_conns s \<Longrightarrow> body s1 bs = Some (rc, t) \<Longrightarrow> Q (s_conns t)" and "Q (s_conns s)"
  shows "Q (s_conns t)"
proof -
  obtain r s1 where p: "payload fd rq n s = (r, s1)" by (cases "payload fd rq n s")
  then have c: "s_conns s1 = s_conns s" using payload_conns [of fd rq n s] by simp
  show ?thesis
    using assms p c answer_conns(2) [of fd RTDBD_ST_BAD_REQUEST s1] by (cases r) auto
qed

text \<open>What a request may do to the table: keep its descriptors and its invariant.\<close>

definition table_step :: "conn list \<Rightarrow> conn list \<Rightarrow> bool" where
  "table_step cs cs' \<longleftrightarrow> length cs' = length cs \<and> map c_fd cs' = map c_fd cs \<and> (table_ok cs \<longrightarrow> table_ok cs')"

lemma table_step_refl [simp]: "table_step cs cs"
  by (simp add: table_step_def)

lemma table_step_update:
  assumes "k < length cs" "c_fd c = c_fd (cs ! k)" "conn_ok (cs ! k) \<Longrightarrow> conn_ok c"
  shows "table_step cs (cs[k := c])"
proof -
  have "map c_fd (cs[k := c]) = map c_fd cs"
    using assms(1,2) list_update_id [of "map c_fd cs" k] by (simp add: map_update)
  then show ?thesis using assms by (auto simp: table_step_def intro!: table_ok_update dest: table_okD)
qed

lemma payload_table:
  assumes "(case payload fd rq n s of
        (None, s1) \<Rightarrow> Some (answer_close fd RTDBD_ST_BAD_REQUEST s1)
      | (Some bs, s1) \<Rightarrow> body s1 bs) = Some (rc, t)"
    and "\<And>s1 bs. s_conns s1 = s_conns s \<Longrightarrow> body s1 bs = Some (rc, t) \<Longrightarrow> table_step (s_conns s1) (s_conns t)"
  shows "table_step (s_conns s) (s_conns t)"
proof (rule payload_cases [OF assms(1), where Q = "table_step (s_conns s)"], goal_cases)
  case (1 s1 bs)
  from assms(2) [OF 1] show ?case using 1(1) by simp
qed simp

lemma same_table: "s_conns t = s_conns s \<Longrightarrow> table_step (s_conns s) (s_conns t)"
  by simp

lemmas reply_splits = option.splits if_splits prod.splits

lemma op_write_table: "op_write e fd k rq s = Some (rc, t) \<Longrightarrow> table_step (s_conns s) (s_conns t)"
  unfolding op_write_def Let_def
proof (erule payload_table, goal_cases)
  case (1 s1 bs)
  let ?w = "write_req_of bs"
  have "s_conns t = s_conns s1 \<or> (\<exists>now nt v m g. s_conns t = fst (broadcast_loop now nt v m (s_conns s1) g))"
    using 1(2)
    by (auto simp: notify_broadcast_def Let_def split: reply_splits dest!: answer_connsD) (metis fst_conv)+
  then show ?case
  proof (elim disjE exE)
    fix now nt v m g assume b: "s_conns t = fst (broadcast_loop now nt v m (s_conns s1) g)"
    have "length (fst (broadcast_loop now nt v m cs g)) = length cs \<and> map c_fd (fst (broadcast_loop now nt v m cs g)) = map c_fd cs" for cs
    proof (induction cs arbitrary: g)
      case (Cons c cs)
      then show ?case using outq_push_fields(1) by (simp add: split_beta Let_def)
    qed simp
    then show ?thesis unfolding b table_step_def using broadcast_loop_ok by blast
  qed simp
qed

lemma op_subscribe_table:
  assumes "op_subscribe fd k rq s = Some (rc, t)" "k < length (s_conns s)" "0 \<le> c_fd (s_conns s ! k)"
  shows "table_step (s_conns s) (s_conns t)"
  using assms(1) unfolding op_subscribe_def Let_def
proof (rule payload_table, goal_cases)
  case (1 s1 bs)
  let ?c = "s_conns s1 ! k"
  have a: "c_fd (snd (conn_add_sub ?c pid)) = c_fd ?c" "c_fd (conn_del_sub ?c pid) = c_fd ?c" for pid
    by (simp_all add: conn_add_sub_def conn_del_sub_def Let_def split: option.split)
  have "\<exists>c. s_conns t = (s_conns s1)[k := c] \<and> c_fd c = c_fd ?c \<and> (conn_ok ?c \<longrightarrow> conn_ok c)"
    using 1 assms(3) a add_sub_ok [of ?c] del_sub_ok [of ?c]
    by (auto split: reply_splits dest!: answer_connsD) (metis snd_conv)+
  then show ?case using 1(1) assms(2) table_step_update by metis
qed

lemma op_select_table:
  assumes "op_select fd k rq s = Some (rc, t)" "k < length (s_conns s)"
  shows "table_step (s_conns s) (s_conns t)"
  using assms(1) unfolding op_select_def Let_def
proof (rule payload_table, goal_cases)
  case (1 s1 bs)
  then show ?case
    using assms(2) by (auto split: if_splits dest!: answer_connsD intro!: table_step_update)
qed

lemma other_table:
  "op_ping fd s = Some (rc, t) \<Longrightarrow> table_step (s_conns s) (s_conns t)"
  "op_audit_dump fd s = Some (rc, t) \<Longrightarrow> table_step (s_conns s) (s_conns t)"
  "op_find_by_name e fd rq s = Some (rc, t) \<Longrightarrow> table_step (s_conns s) (s_conns t)"
  "op_get_meta e fd rq s = Some (rc, t) \<Longrightarrow> table_step (s_conns s) (s_conns t)"
  "op_set_meta e fd k rq s = Some (rc, t) \<Longrightarrow> table_step (s_conns s) (s_conns t)"
  "op_create_point e fd rq s = Some (rc, t) \<Longrightarrow> table_step (s_conns s) (s_conns t)"
  "op_delete_point e fd rq s = Some (rc, t) \<Longrightarrow> table_step (s_conns s) (s_conns t)"
  "op_rename_point e fd rq s = Some (rc, t) \<Longrightarrow> table_step (s_conns s) (s_conns t)"
  "op_get e fd rq s = Some (rc, t) \<Longrightarrow> table_step (s_conns s) (s_conns t)"
  "op_list e fd rq s = Some (rc, t) \<Longrightarrow> table_step (s_conns s) (s_conns t)"
  "op_get_log fd rq s = Some (rc, t) \<Longrightarrow> table_step (s_conns s) (s_conns t)"
  "op_health e fd rq s = Some (rc, t) \<Longrightarrow> table_step (s_conns s) (s_conns t)"
proof -
  note D = answer_connsD
  show "op_ping fd s = Some (rc, t) \<Longrightarrow> table_step (s_conns s) (s_conns t)"
    "op_audit_dump fd s = Some (rc, t) \<Longrightarrow> table_step (s_conns s) (s_conns t)"
    by (auto simp: op_ping_def op_audit_dump_def dest!: D)
  show "op_health e fd rq s = Some (rc, t) \<Longrightarrow> table_step (s_conns s) (s_conns t)"
    using helper_conns(5) [of "en_now e" s] by (cases "full_self_check (en_now e) s") (auto simp: op_health_def split: if_splits dest!: D)
  show "op_find_by_name e fd rq s = Some (rc, t) \<Longrightarrow> table_step (s_conns s) (s_conns t)"
    unfolding op_find_by_name_def Let_def by (erule payload_table) (auto split: reply_splits dest!: D)
  show "op_get_meta e fd rq s = Some (rc, t) \<Longrightarrow> table_step (s_conns s) (s_conns t)"
    unfolding op_get_meta_def Let_def by (erule payload_table) (auto split: reply_splits dest!: D)
  show "op_set_meta e fd k rq s = Some (rc, t) \<Longrightarrow> table_step (s_conns s) (s_conns t)"
    unfolding op_set_meta_def Let_def by (erule payload_table) (auto split: reply_splits dest!: D)
  show "op_create_point e fd rq s = Some (rc, t) \<Longrightarrow> table_step (s_conns s) (s_conns t)"
    unfolding op_create_point_def Let_def by (erule payload_table) (auto split: reply_splits dest!: D)
  show "op_delete_point e fd rq s = Some (rc, t) \<Longrightarrow> table_step (s_conns s) (s_conns t)"
    unfolding op_delete_point_def Let_def by (erule payload_table) (auto split: reply_splits dest!: D)
  show "op_rename_point e fd rq s = Some (rc, t) \<Longrightarrow> table_step (s_conns s) (s_conns t)"
    unfolding op_rename_point_def Let_def by (erule payload_table) (auto split: reply_splits dest!: D)
  show "op_get e fd rq s = Some (rc, t) \<Longrightarrow> table_step (s_conns s) (s_conns t)"
    unfolding op_get_def by (erule payload_table) (auto split: reply_splits dest!: D)
  show "op_list e fd rq s = Some (rc, t) \<Longrightarrow> table_step (s_conns s) (s_conns t)"
    unfolding op_list_def Let_def by (erule payload_table) (auto split: reply_splits dest!: D)
  show "op_get_log fd rq s = Some (rc, t) \<Longrightarrow> table_step (s_conns s) (s_conns t)"
    unfolding op_get_log_def Let_def by (erule payload_table) (auto dest!: D)
qed

lemma handle_request_table:
  assumes "handle_request e fd k s = Some (rc, t)" "k < length (s_conns s)" "0 \<le> c_fd (s_conns s ! k)"
  shows "table_step (s_conns s) (s_conns t)"
proof -
  obtain r s1 where p: "recv_bytes fd 12 s = (r, s1)" by (cases "recv_bytes fd 12 s")
  have c: "s_conns s1 = s_conns s" using recv_bytes_conns [of fd 12 s] p by simp
  have "table_step (s_conns s1) (s_conns t)"
  proof (cases r)
    case None
    then show ?thesis using assms(1) p by (simp add: handle_request_def)
  next
    case (Some bs)
    let ?rq = "req_hdr_of bs"
    consider "t = note_decode_fail (en_now e) s1" | "t = snd (answer_close fd RTDBD_ST_BAD_REQUEST s1)"
      | fn where "map_of kOps (rq_opcode ?rq) = Some fn" "fn e fd k ?rq s1 = Some (rc, t)"
      using assms(1) p Some by (auto simp: handle_request_def Let_def split: if_splits option.splits)
    then show ?thesis
    proof cases
      case (3 fn)
      have k: "k < length (s_conns s1)" "0 \<le> c_fd (s_conns s1 ! k)" using assms(2,3) c by simp_all
      show ?thesis using 3 k
        by (auto simp: kOps_def split: if_splits intro: op_write_table op_subscribe_table op_select_table other_table)
    qed simp_all
  qed
  then show ?thesis using c by simp
qed

section \<open>The loop keeps the table\<close>

lemma table_step_ok: "table_step cs cs' \<Longrightarrow> table_ok cs \<Longrightarrow> table_ok cs'"
  by (simp add: table_step_def)

lemma table_step_fd:
  assumes "table_step cs cs'" "k < length cs"
  shows "k < length cs' \<and> c_fd (cs' ! k) = c_fd (cs ! k)"
proof -
  have "length cs' = length cs" "map c_fd cs' = map c_fd cs" using assms(1) by (simp_all add: table_step_def)
  then show ?thesis using assms(2) by (metis nth_map)
qed

lemma conn_index_Some: "conn_index fd cs = Some k \<Longrightarrow> k < length cs \<and> c_fd (cs ! k) = fd"
  by (auto simp: conn_index_def find_Some_iff)

lemma put_conn_sel [simp]: "s_conns (put_conn k c s) = (s_conns s)[k := c]"
  by (simp add: put_conn_def)

lemma discard_fields:
  "c_fd (fst (conn_discard_outq now c g)) = c_fd c" "c_subs (fst (conn_discard_outq now c g)) = c_subs c"
  "c_outq (fst (conn_discard_outq now c g)) = c_outq c"
  by (simp_all add: conn_discard_outq_def Let_def)

lemma flush_conn_table:
  assumes "table_ok (s_conns s)" "k < length (s_conns s)" "flush_conn now rs fd k s = (alive, t)"
  shows "table_ok (s_conns t) \<and> length (s_conns t) = length (s_conns s)
    \<and> (alive \<longrightarrow> c_fd (s_conns t ! k) = c_fd (s_conns s ! k))"
proof -
  obtain bs rc c g where f: "outq_flush now rs (s_conns s ! k) (s_stats s) = ((bs, rc), c, g)" by (metis prod.collapse)
  have c: "conn_ok c" "c_fd c = c_fd (s_conns s ! k)"
    using outq_flush_ok [OF table_okD [OF assms(1,2)], of now rs "s_stats s"]
      outq_flush_fields [of now rs "s_conns s ! k" "s_stats s"] f by simp_all
  then have "conn_ok (conn_init c)" by (simp add: conn_init_ok conn_ok_outq)
  then show ?thesis
    using assms f c by (auto simp: flush_conn_def Let_def table_ok_update split: if_splits)
qed

lemma close_conn_table:
  assumes "table_ok (s_conns s)" "k < length (s_conns s)"
  shows "table_ok (s_conns (close_conn now k s)) \<and> length (s_conns (close_conn now k s)) = length (s_conns s)"
proof -
  let ?c = "fst (conn_discard_outq now (s_conns s ! k) (s_stats s))"
  have "conn_ok (conn_init ?c)"
    using table_okD [OF assms] by (simp add: conn_init_ok conn_ok_outq discard_fields)
  then show ?thesis using assms(1) by (simp add: close_conn_def split_beta table_ok_update)
qed

lemma serve_conn_table:
  assumes ok: "table_ok (s_conns s)" and fd: "0 \<le> fst p" and res: "serve_conn r p s = Some t"
  shows "table_ok (s_conns t) \<and> length (s_conns t) = length (s_conns s)"
proof (cases "conn_index (fst p) (s_conns s)")
  case None
  then show ?thesis using ok res by (simp add: serve_conn_def)
next
  case (Some k)
  let ?e = "ro_env r (fst p)"
  note k = conn_index_Some [OF Some]
  let ?f = "case (if snd p then ro_out r (fst p) else None) of None \<Rightarrow> (True, s)
     | Some rs \<Rightarrow> if 0 < c_outq_count (s_conns s ! k) then flush_conn (en_now ?e) rs (fst p) k s else (True, s)"
  obtain alive s1 where f: "?f = (alive, s1)" by (metis prod.collapse)
  have s1: "table_ok (s_conns s1)" "length (s_conns s1) = length (s_conns s)"
    "alive \<Longrightarrow> c_fd (s_conns s1 ! k) = c_fd (s_conns s ! k)"
    using f ok flush_conn_table [OF ok, of k "en_now ?e" _ "fst p" alive s1] k
    by (auto split: option.splits if_splits)
  have r: "(if \<not> alive then Some s1 else if \<not> ro_in r (fst p) then Some s1
      else case handle_request ?e (fst p) k s1 of None \<Rightarrow> None
        | Some (rc, s) \<Rightarrow> Some (if rc \<noteq> 0 then close_conn (en_later ?e) k s else s)) = Some t"
    using res Some f by (simp add: serve_conn_def Let_def)
  show ?thesis
  proof (cases "alive \<and> ro_in r (fst p)")
    case False
    then have "t = s1" using r by (cases alive) simp_all
    then show ?thesis using s1 by simp
  next
    case True
    then obtain rc s2 where h: "handle_request ?e (fst p) k s1 = Some (rc, s2)"
        and t: "t = (if rc \<noteq> 0 then close_conn (en_later ?e) k s2 else s2)"
      using r by (auto split: option.splits)
    have "k < length (s_conns s1)" "0 \<le> c_fd (s_conns s1 ! k)" using s1 k fd True by simp_all
    note st = handle_request_table [OF h this]
    have "table_ok (s_conns s2)" "length (s_conns s2) = length (s_conns s1)"
      using st s1(1) by (simp_all add: table_step_def)
    then show ?thesis using t s1(2) k close_conn_table [of s2 k "en_later ?e"] by auto
  qed
qed

lemma serve_all_table:
  "table_ok (s_conns s) \<Longrightarrow> \<forall>p \<in> set ps. 0 \<le> fst p \<Longrightarrow> serve_all r ps s = Some t \<Longrightarrow>
     table_ok (s_conns t) \<and> length (s_conns t) = length (s_conns s)"
proof (induction ps arbitrary: s)
  case (Cons p ps)
  from Cons.prems(3) obtain s1 where s1: "serve_conn r p s = Some s1" "serve_all r ps s1 = Some t"
    by (auto split: option.splits)
  have "table_ok (s_conns s1) \<and> length (s_conns s1) = length (s_conns s)"
    using serve_conn_table [OF Cons.prems(1) _ s1(1)] Cons.prems(2) by simp
  then show ?case using Cons.IH [OF _ _ s1(2)] Cons.prems(2) by simp
qed simp

lemma place_conn_table: "table_ok cs \<Longrightarrow> 0 \<le> fd \<Longrightarrow> table_ok (place_conn fd cs) \<and> length (place_conn fd cs) = length cs"
proof (induction cs)
  case (Cons c cs)
  have "conn_ok ((conn_init c)\<lparr>c_fd := fd\<rparr>)" if "conn_ok c"
    using that by (simp add: conn_ok_def conn_init_def outq_inv_def)
  then show ?case using Cons by (auto simp: table_ok_def)
qed (simp add: table_ok_def)

lemma loop_round_table:
  assumes "table_ok (s_conns s)" "loop_round r s = Some t"
  shows "table_ok (s_conns t) \<and> length (s_conns t) = length (s_conns s)"
proof -
  let ?s = "if ro_dump r then snd (dump_stats (en_now (ro_env r 0)) s) else s"
  have d: "s_conns ?s = s_conns s" by (simp add: dump_stats_def split_beta Let_def)
  have a: "table_ok (s_conns (accept_conn (ro_accept r) ?s)) \<and> length (s_conns (accept_conn (ro_accept r) ?s)) = length (s_conns s)"
    using assms(1) d place_conn_table by (auto simp: accept_conn_def split: option.split)
  have "\<forall>p \<in> set (poll_set (s_conns s)). 0 \<le> fst p" by (auto simp: poll_set_def)
  from serve_all_table [OF _ this, of "accept_conn (ro_accept r) ?s" r t] a assms(2)
  show ?thesis by (simp add: loop_round_def Let_def)
qed

lemma main_loop_table:
  "table_ok (s_conns s) \<Longrightarrow> main_loop rs s = Some (ended, t) \<Longrightarrow> table_ok (s_conns t) \<and> length (s_conns t) = length (s_conns s)"
proof (induction rs arbitrary: s)
  case (Cons r rs)
  then show ?case
    by (auto split: if_splits poll_res.splits option.splits dest: loop_round_table)
qed simp

lemma boot_table:
  assumes "boot c e = Some (Boot_ok s)"
  shows "s_conns s = replicate 32 empty_conn"
  using assms by (auto simp: boot_def RTDBD_MAX_CLIENTS_def split: sum.splits option.splits prod.splits if_splits)

lemma empty_conn_ok: "conn_ok empty_conn"
  unfolding empty_conn_def by (rule conn_init_ok) simp

text \<open>
  C20. The connection table stays sound: from the start on, through any sequence of accepted and
  closed connections, requests, broadcasts, short writes and failed sends, the table has 32 slots,
  no slot has more than 32 subscriptions, a free slot has none, and the ring indices of every queue
  are consistent; so the table check of the health report never fails.
\<close>

theorem connection_table_sound:
  assumes "boot c e = Some (Boot_ok s)" "main_loop rounds s = Some (ended, s')"
  shows "length (s_conns s') = 32 \<and> conn_table_check (s_conns s') = 0
    \<and> (\<forall>x \<in> set (s_conns s'). length (c_subs x) \<le> 32 \<and> outq_inv x)"
proof -
  have "table_ok (s_conns s)" using boot_table [OF assms(1)] empty_conn_ok by (simp add: table_ok_def)
  from main_loop_table [OF this assms(2)] boot_table [OF assms(1)]
  have t: "table_ok (s_conns s')" "length (s_conns s') = 32" by simp_all
  then show ?thesis using conn_table_check_ok [OF t(1)] by (simp add: table_ok_def conn_ok_def)
qed

text \<open>A daemon on a fresh segment with one point; one client connects and then the daemon is stopped.\<close>

definition demo_boot_env :: boot_env where
  "demo_boot_env = \<lparr>be_policy = None, be_config = None,
     be_open = Some \<lparr>h_shm = fresh_shm 1 1 7, h_sub = irt_sub_init, initialized = True, h_owner_pid = 7,
       delta_fd = -1, default_partition = 0, delta_file = [], delta_env = [], last_error = []\<rparr>,
     be_delta = None, be_delta_io = None, be_delta_open = (-1, []), be_now = 1, be_wall = 2, be_d = 0,
     be_torn_check = (\<lambda>_. zero_meta), be_torn_warn = (\<lambda>_. zero_meta)\<rparr>"

definition demo_peer :: io where
  "demo_peer = \<lparr>io_rx = [], io_tx = [], io_env = [], io_cred = Some (77, 1000)\<rparr>"

definition demo_round :: "(int \<times> io) option \<Rightarrow> send_res list option \<Rightarrow> round" where
  "demo_round acc out = \<lparr>ro_stop = False, ro_poll = Poll_ready, ro_dump = False, ro_accept = acc,
     ro_out = (\<lambda>fd. out), ro_in = (\<lambda>fd. True),
     ro_env = (\<lambda>fd. \<lparr>en_now = 5, en_later = 6, en_wall = 7, en_write = 8, en_d = 0,
       en_ob = (\<lambda>pid. [(0, zero_point, 0)]), en_torn = zero_meta\<rparr>)\<rparr>"

lemma demo_boots: "\<exists>s. boot (cli_defaults\<lparr>cl_max_points := 1\<rparr>) demo_boot_env = Some (Boot_ok s)"
  by (simp add: boot_def load_phase_def data_phase_def demo_boot_env_def cli_defaults_def Let_def
      rtdbd_validate_config_def indurtdb_h_read_point_def irt_pm_read_def irt_pm_validate_id_def quiet_def
      fresh_shm_fields zero_point_def indurtdb_h_self_check_def INDURTDB_HEALTH_OK_def irt_layout_off_points_def)

theorem connection_table_sound_witness:
  "\<exists>s s'. boot (cli_defaults\<lparr>cl_max_points := 1\<rparr>) demo_boot_env = Some (Boot_ok s)
     \<and> main_loop [demo_round (Some (9, demo_peer)) None] s = Some (False, s') \<and> conn_table_check (s_conns s') = 0"
proof -
  obtain s where s: "boot (cli_defaults\<lparr>cl_max_points := 1\<rparr>) demo_boot_env = Some (Boot_ok s)" using demo_boots by blast
  have "s_conns s = replicate 32 empty_conn" by (rule boot_table [OF s])
  then have "\<exists>s'. main_loop [demo_round (Some (9, demo_peer)) None] s = Some (False, s')"
    by (simp add: demo_round_def loop_round_def poll_set_def empty_conn_def conn_init_def)
  then obtain s' where r: "main_loop [demo_round (Some (9, demo_peer)) None] s = Some (False, s')" by blast
  show ?thesis using s r connection_table_sound [OF s r] by blast
qed

section \<open>A response inside a notification\<close>

text \<open>A request header that is complete in the socket.\<close>

definition waiting :: "u8 list \<Rightarrow> int \<Rightarrow> srv \<Rightarrow> bool" where
  "waiting bs fd s \<longleftrightarrow> (\<exists>evs. io_rx (s_io s fd) = Data bs # evs)"

definition ping_bytes :: "u8 list" where
  "ping_bytes = hdr_bytes RTDBD_MAGIC RTDBD_PROTO_VERSION 1 0"

lemma handle_ping:
  assumes "waiting ping_bytes fd s" "io_env (s_io s fd) = []"
  shows "\<exists>s'. handle_request e fd k s = Some (0, s') \<and> s_conns s' = s_conns s
    \<and> io_tx (s_io s' fd) = io_tx (s_io s fd) @ hdr_bytes RTDBD_MAGIC RTDBD_PROTO_VERSION RTDBD_ST_OK 0"
proof -
  obtain evs where rx: "io_rx (s_io s fd) = Data ping_bytes # evs" using assms(1) by (auto simp: waiting_def)
  have "ping_bytes \<noteq> []" by (simp add: ping_bytes_def hdr_bytes_def le32_def)
  then have r: "recv_all 12 (Data ping_bytes # evs) = (Some ping_bytes, evs)"
    by (subst recv_all.simps) (simp add: ping_bytes_def recv_all.simps [of 0])
  have h: "req_hdr_of ping_bytes = \<lparr>rq_magic = RTDBD_MAGIC, rq_version = RTDBD_PROTO_VERSION, rq_opcode = 1, rq_len = 0\<rparr>"
    by (simp add: req_hdr_of_def hdr_bytes_def ping_bytes_def)
  show ?thesis
    using assms(2) by (simp add: handle_request_def recv_bytes_def rx r h kOps_def op_ping_def answer_def send_resp_def
        send_bytes_def Let_def)
qed

text \<open>
  A response can be written into the middle of a notification: when the socket takes only a part
  of the first queued frame and a request is waiting, the same round of the loop answers the request
  right after the partial frame, while the rest of the frame stays in the queue. A client that reads
  whole frames takes the response for the missing bytes of the notification.
\<close>

theorem response_splits_notification:
  assumes "outq_inv (s_conns s ! k)" "conn_index fd (s_conns s) = Some k" "c_outq_sent (s_conns s ! k) = 0"
    "pending (s_conns s ! k) = p # ps" "ro_out r fd = Some [Takes n]" "0 < n" "n < 44" "ro_in r fd"
    "waiting ping_bytes fd s" "io_env (s_io s fd) = []"
  shows "\<exists>t. serve_conn r (fd, True) s = Some t
    \<and> io_tx (s_io t fd) = io_tx (s_io s fd) @ take n (notify_frame p)
        @ hdr_bytes RTDBD_MAGIC RTDBD_PROTO_VERSION RTDBD_ST_OK 0
    \<and> pending (s_conns t ! k) = p # ps \<and> unat (c_outq_sent (s_conns t ! k)) = n"
proof -
  let ?c = "s_conns s ! k" and ?e = "ro_env r fd"
  let ?c' = "?c\<lparr>c_outq_sent := word_of_nat n\<rparr>"
  have "c_outq_count ?c \<noteq> 0" using assms(4) pending_length [of ?c] by auto
  then have cnt: "0 < c_outq_count ?c" using word_neq_0_conv by blast
  have "?c = s_conns s ! k" "c_outq ?c ! unat (c_outq_head ?c) = p"
    using assms(4) outq_pop(2) [OF assms(1) \<open>c_outq_count ?c \<noteq> 0\<close>] by simp_all
  moreover have "unat (word_of_nat n :: u16) = n" using assms(7) by (simp add: unat_of_nat)
  moreover have "take n (notify_frame p) \<noteq> []" using assms(6) by simp
  moreover have "length (take n (notify_frame p)) = n" using assms(7) by simp
  ultimately have fl: "outq_flush (en_now ?e) [Takes n] ?c (s_stats s) = ((take n (notify_frame p), 0), ?c', s_stats s)"
    using \<open>c_outq_count ?c \<noteq> 0\<close> assms(3,7) by (simp add: RTDBD_NOTIFY_FRAME_LEN_def Let_def)
  obtain t1 where t1: "flush_conn (en_now ?e) [Takes n] fd k s = (True, t1)" "s_conns t1 = (s_conns s)[k := ?c']"
      "s_io t1 = (s_io s)(fd := (s_io s fd)\<lparr>io_tx := io_tx (s_io s fd) @ take n (notify_frame p)\<rparr>)"
    by (simp add: flush_conn_def fl put_conn_def Let_def del: outq_flush.simps)
  have "waiting ping_bytes fd t1" "io_env (s_io t1 fd) = []" using assms(9,10) t1(3) by (simp_all add: waiting_def)
  from handle_ping [OF this, of ?e k] obtain t where t: "handle_request ?e fd k t1 = Some (0, t)"
      "s_conns t = s_conns t1"
      "io_tx (s_io t fd) = io_tx (s_io t1 fd) @ hdr_bytes RTDBD_MAGIC RTDBD_PROTO_VERSION RTDBD_ST_OK 0" by blast
  have k: "k < length (s_conns s)" using conn_index_Some [OF assms(2)] by simp
  have "serve_conn r (fd, True) s = Some t"
    using assms(2,5,8) cnt t1(1) t(1) by (simp add: serve_conn_def Let_def)
  moreover have "pending ?c' = p # ps" using assms(4) by (simp add: pending_def)
  ultimately show ?thesis
    using t t1 k \<open>unat (word_of_nat n :: u16) = n\<close> by simp
qed

text \<open>A daemon whose first connection has one queued notification and a waiting ping.\<close>

definition demo_split :: srv where
  "demo_split = \<lparr>s_h = the (be_open demo_boot_env), s_policy = irt_policy_init, s_conf = rtdbd_conf_init,
     s_audit = irt_audit_init, s_log = irt_logbuf_init, s_stats = zero_stats,
     s_conns = [fst (outq_push 1 (demo_notify 1) (demo_conn, zero_stats))],
     s_io = (\<lambda>fd. \<lparr>io_rx = [Data ping_bytes], io_tx = [], io_env = [], io_cred = Some (77, 1000)\<rparr>),
     g_max_points = 1\<rparr>"

lemma demo_split_conn:
  "outq_inv (s_conns demo_split ! 0)" "pending (s_conns demo_split ! 0) = [demo_notify 1]"
  "c_outq_sent (s_conns demo_split ! 0) = 0" "conn_index 5 (s_conns demo_split) = Some 0"
proof -
  let ?c = "fst (outq_push 1 (demo_notify 1) (demo_conn, zero_stats))"
  have c: "s_conns demo_split = [?c]" by (simp add: demo_split_def)
  have "pending demo_conn = []" by (simp add: pending_def demo_conn_def)
  then show "outq_inv (s_conns demo_split ! 0)" "pending (s_conns demo_split ! 0) = [demo_notify 1]"
    "c_outq_sent (s_conns demo_split ! 0) = 0"
    using outq_push_spec [OF demo_conn_inv(1), where now = 1 and nt = "demo_notify 1" and g = zero_stats]
    by (simp_all add: c outq_abst_def demo_conn_def outq_push_def RTDBD_OUTQ_CAP_def)
  show "conn_index 5 (s_conns demo_split) = Some 0"
    by (simp add: c conn_index_def outq_push_fields demo_conn_def)
qed

theorem response_splits_notification_witness:
  "\<exists>t. serve_conn (demo_round None (Some [Takes 20])) (5, True) demo_split = Some t
    \<and> io_tx (s_io t 5) = take 20 (notify_frame (demo_notify 1)) @ hdr_bytes RTDBD_MAGIC RTDBD_PROTO_VERSION RTDBD_ST_OK 0"
  using response_splits_notification [OF demo_split_conn(1,4,3,2), of "demo_round None (Some [Takes 20])" 20]
  by (auto simp: demo_round_def waiting_def demo_split_def)

end
