(* ===== verification/Supervisor.thy ===== *)
theory Supervisor
  imports Daemon
begin

text \<open>
  The supervisor (\<open>terminate_and_reap\<close> and \<open>supervise_loop\<close> of \<^verbatim>\<open>rtdbd/src/rtdbd.c\<close>): it starts a
  worker, waits for it, and starts another one unless it is told to stop or the worker reports a
  fatal configuration. What \<open>fork\<close> and \<open>waitpid\<close> answer is given round by round.
\<close>

section \<open>Terminating a worker\<close>

text \<open>
  A worker as a child process: it runs, it has exited and waits to be reaped, or it is no child any
  more, because it has been reaped. What a worker does on its own before a call of \<open>waitpid\<close> is an
  input; what \<open>waitpid\<close> answers follows from its state.
\<close>

datatype proc = Running | Exited | Reaped

datatype fate = Stays | Exits | Vanishes   \<comment> \<open>nothing, it exits, somebody else reaps it\<close>

fun proc_step :: "fate \<Rightarrow> proc \<Rightarrow> proc" where
  "proc_step Stays p = p"
| "proc_step Exits p = (if p = Running then Exited else p)"
| "proc_step Vanishes p = Reaped"

definition sigkill :: "proc \<Rightarrow> proc" where
  "sigkill p = (if p = Running then Exited else p)"

text \<open>
  The polling loop after SIGTERM, with what the worker does before each \<open>waitpid(WNOHANG)\<close>; it does
  nothing more when the list is exhausted. The result is the return code if the loop decides it, the
  total time slept in microseconds, and the worker.
\<close>

function term_poll :: "nat \<Rightarrow> nat \<Rightarrow> fate list \<Rightarrow> proc \<Rightarrow> int option \<times> nat \<times> proc" where
  "term_poll waited step fates p =
     (if 500000 \<le> waited \<or> step = 0 then (None, waited, p)
      else
        let p = (case fates of [] \<Rightarrow> p | f # _ \<Rightarrow> proc_step f p)
        in case p of
             Exited \<Rightarrow> (Some 0, waited, Reaped)
           | Reaped \<Rightarrow> (Some (-1), waited, Reaped)
           | Running \<Rightarrow> term_poll (waited + step) (if step < 10000 then step * 5 else step) (tl fates) p)"
  by pat_completeness auto
termination by (relation "measure (\<lambda>(waited, step, fates, p). 500000 - waited)") auto

declare term_poll.simps [simp del]

text \<open>
  The blocking wait after SIGKILL: it is interrupted by a signal, or it looks at the worker. The result
  is \<open>None\<close> while it lasts.
\<close>

datatype blocking = Bl_eintr | Bl_looks

fun kill_wait :: "blocking list \<Rightarrow> proc \<Rightarrow> int option \<times> proc" where
  "kill_wait [] p = (None, p)"
| "kill_wait (Bl_eintr # ws) p = kill_wait ws p"
| "kill_wait (Bl_looks # ws) p =
     (case p of Exited \<Rightarrow> (Some 0, Reaped) | Reaped \<Rightarrow> (Some (-1), Reaped) | Running \<Rightarrow> kill_wait ws p)"

definition terminate_and_reap :: "int \<Rightarrow> fate list \<Rightarrow> blocking list \<Rightarrow> proc \<Rightarrow> int option \<times> proc" where
  "terminate_and_reap pid fates kills p =
     (if pid \<le> 0 then (Some (-1), p)
      else case term_poll 0 200 fates p of
        (Some rc, _, p) \<Rightarrow> (Some rc, p)
      | (None, _, p) \<Rightarrow> kill_wait kills (sigkill p))"

text \<open>
  Terminating a worker always succeeds: whatever the worker does after SIGTERM, once the call has
  returned the worker is reaped; and it returns as soon as the blocking wait looks at the worker once,
  however often signals interrupt it.
\<close>

lemma term_poll_decided: "term_poll waited step fates p = (Some rc, us, q) \<Longrightarrow> q = Reaped"
proof (induction waited step fates p rule: term_poll.induct)
  case (1 waited step fates p)
  show ?case using 1(2) 1(1) [OF _ refl] unfolding term_poll.simps [of waited step fates p]
    by (simp add: Let_def split: if_splits proc.splits)
qed

lemma kill_wait_decided: "kill_wait ws p = (Some rc, q) \<Longrightarrow> q = Reaped"
  by (induction ws p rule: kill_wait.induct) (auto split: proc.splits)

lemma kill_wait_ends: "Bl_looks \<in> set ws \<Longrightarrow> p \<noteq> Running \<Longrightarrow> \<exists>rc. kill_wait ws p = (Some rc, Reaped)"
  by (induction ws p rule: kill_wait.induct) (auto split: proc.splits)

lemma term_poll_undecided:
  "term_poll waited step fates p = (None, us, q) \<Longrightarrow> q = (if 500000 \<le> waited \<or> step = 0 then p else Running)"
proof (induction waited step fates p rule: term_poll.induct)
  case (1 waited step fates p)
  show ?case using 1(2) 1(1) [OF _ refl] unfolding term_poll.simps [of waited step fates p]
    by (cases "500000 \<le> waited \<or> step = 0") (auto simp: Let_def split: if_splits proc.splits)
qed

lemma kill_wait_blocked: "kill_wait ws p = (None, q) \<Longrightarrow> q = p"
  by (induction ws p rule: kill_wait.induct) (auto split: proc.splits)

lemma terminate_blocked: "terminate_and_reap pid fates kills p = (None, q) \<Longrightarrow> q = Exited"
  using term_poll_undecided [of 0 200 fates p] kill_wait_blocked
  by (fastforce simp: terminate_and_reap_def sigkill_def split: prod.splits option.splits if_splits)

lemma terminate_reaps: "0 < pid \<Longrightarrow> terminate_and_reap pid fates kills p = (Some rc, q) \<Longrightarrow> q = Reaped"
  using term_poll_decided kill_wait_decided
  by (fastforce simp: terminate_and_reap_def split: prod.splits option.splits)

lemma terminate_ends:
  assumes "Bl_looks \<in> set kills"
  shows "\<exists>rc q. terminate_and_reap pid fates kills p = (Some rc, q)"
proof -
  have "sigkill q \<noteq> Running" for q by (cases q) (simp_all add: sigkill_def)
  then show ?thesis using kill_wait_ends [OF assms]
    by (auto simp: terminate_and_reap_def split: prod.split option.split) blast
qed

section \<open>The supervisor\<close>

text \<open>The arguments of the worker.\<close>

fun strip_args :: "string list \<Rightarrow> string list" where
  "strip_args [] = []"
| "strip_args (a # as) =
     (if a = ''--supervise'' then strip_args as
      else if a = ''--pidfile'' then strip_args (tl as)
      else a # strip_args as)"

definition worker_args :: "string list \<Rightarrow> string list" where
  "worker_args argv = ''/proc/self/exe'' # take 30 (strip_args (tl argv))"

text \<open>
  The answers of \<open>waitpid\<close> for the worker, each with the value of the stop flag when it is tested
  afterwards: an exit code, death by a signal, an interrupted call, a failed call with the state that
  the worker is in. The wait ends with the worker reaped (its exit code, the stop flag), or with a
  worker in some state that must be terminated.
\<close>

datatype wait_res = W_exit int | W_signal | W_eintr | W_error proc

datatype wait_end = Ended "int option" bool | To_kill proc

fun wait_worker :: "(wait_res \<times> bool) list \<Rightarrow> wait_end option" where
  "wait_worker [] = None"
| "wait_worker ((r, stop) # ws) =
     (case r of
        W_exit ec \<Rightarrow> Some (Ended (Some ec) stop)
      | W_signal \<Rightarrow> Some (Ended None stop)
      | W_eintr \<Rightarrow> if stop then Some (To_kill Running) else wait_worker ws
      | W_error p \<Rightarrow> Some (To_kill p))"

text \<open>
  One round of the loop: the stop flag at its start, what \<open>fork\<close> returns, whether the pid file can be
  opened for writing, the waiting, and what the worker and the blocking wait do when it is terminated.
\<close>

record sup_round =
  sr_stop :: bool
  sr_fork :: "int option"
  sr_pidfile :: bool
  sr_waits :: "(wait_res \<times> bool) list"
  sr_fates :: "fate list"
  sr_kills :: "blocking list"

record sup =
  sp_workers :: "int list"        \<comment> \<open>workers that were started and not reaped\<close>
  sp_started :: nat
  sp_pidpath :: bool              \<comment> \<open>a pid file was asked for\<close>
  sp_pidfile :: "string option"   \<comment> \<open>what the pid file holds, when it exists\<close>
  sp_socket :: bool               \<comment> \<open>the socket file has not been removed by the supervisor\<close>
  sp_log :: irt_logbuf

definition sup_log :: "u64 \<Rightarrow> u8 \<Rightarrow> string \<Rightarrow> sup \<Rightarrow> sup" where
  "sup_log wall level msg sp = sp\<lparr>sp_log := irt_logbuf_emit wall level msg (sp_log sp)\<rparr>"

definition pid_text :: "int \<Rightarrow> string" where
  "pid_text pid = dec_digits (nat pid) @ [CHR 0x0A]"

definition write_pidfile :: "bool \<Rightarrow> bool \<Rightarrow> int \<Rightarrow> string option \<Rightarrow> string option" where
  "write_pidfile path opens pid f =
     (if \<not> path then f
      else if \<not> opens then f
      else Some (pid_text pid))"

definition unlink_pidfile :: "sup \<Rightarrow> sup" where
  "unlink_pidfile sp = (if sp_pidpath sp then sp\<lparr>sp_pidfile := None\<rparr> else sp)"

definition supervisor_done :: "u64 \<Rightarrow> sup \<Rightarrow> int option \<times> sup" where
  "supervisor_done wall sp =
     (Some 0, sup_log wall RTDBD_LOG_INFO ''rtdbd supervisor stopped'' (unlink_pidfile sp))"

text \<open>
  After \<open>terminate_and_reap\<close> the supervisor goes on whatever its return code is; the worker is still
  there unless it has been reaped.
\<close>

definition still_there :: "int \<Rightarrow> proc \<Rightarrow> sup \<Rightarrow> sup" where
  "still_there child p sp = (if p = Reaped then sp\<lparr>sp_workers := remove1 child (sp_workers sp)\<rparr> else sp)"

definition stop_worker :: "u64 \<Rightarrow> int \<Rightarrow> sup_round \<Rightarrow> proc \<Rightarrow> sup \<Rightarrow> int option \<times> sup" where
  "stop_worker wall child r p sp =
     (case terminate_and_reap child (sr_fates r) (sr_kills r) p of
        (None, p) \<Rightarrow> (None, still_there child p sp)
      | (Some _, p) \<Rightarrow> supervisor_done wall (still_there child p sp))"

text \<open>
  The loop; the result is \<open>None\<close> while it runs. \<open>cur\<close> is -1 whenever the head of the loop is reached,
  so the termination that stands there never happens. Text of a negative pid does not occur.
\<close>

fun supervise_rounds :: "u64 \<Rightarrow> sup_round list \<Rightarrow> sup \<Rightarrow> int option \<times> sup" where
  "supervise_rounds wall [] sp = (None, sp)"
| "supervise_rounds wall (r # rs) sp =
     (if sr_stop r then supervisor_done wall sp
      else case sr_fork r of
        None \<Rightarrow> supervise_rounds wall rs sp
      | Some child \<Rightarrow>
          let sp = sup_log wall RTDBD_LOG_INFO (''rtdbd worker pid='' @ dec_digits (nat child))
                     (sp\<lparr>sp_workers := child # sp_workers sp, sp_started := sp_started sp + 1,
                         sp_pidfile := write_pidfile (sp_pidpath sp) (sr_pidfile r) child (sp_pidfile sp)\<rparr>)
          in case wait_worker (sr_waits r) of
               None \<Rightarrow> (None, sp)
             | Some (To_kill p) \<Rightarrow> stop_worker wall child r p sp
             | Some (Ended ec stop) \<Rightarrow>
                 let sp = sp\<lparr>sp_workers := remove1 child (sp_workers sp)\<rparr>
                 in if stop then supervisor_done wall sp
                    else if ec = Some RTDBD_EXIT_CONFIG \<or> ec = Some RTDBD_EXIT_SELFCHECK then
                      (ec,
                       (unlink_pidfile (sup_log wall RTDBD_LOG_ERROR ''rtdbd: supervisor stopped due to fatal config/self-check''
                         (sup_log wall RTDBD_LOG_ERROR
                           (''rtdbd: worker '' @ dec_digits (nat child) @ '' exited with fatal code ''
                             @ dec_digits (nat (the ec)) @ '', not respawning'') sp)))
                         \<lparr>sp_socket := False\<rparr>)
                    else
                      supervise_rounds wall rs
                        (sup_log wall RTDBD_LOG_WARN
                          (''rtdbd: worker '' @ dec_digits (nat child) @ '' exited, respawning'') sp))"

definition supervise_loop :: "u64 \<Rightarrow> sup_round list \<Rightarrow> sup \<Rightarrow> int option \<times> sup" where
  "supervise_loop wall rs sp =
     supervise_rounds wall rs (sup_log wall RTDBD_LOG_INFO ''rtdbd supervisor started'' sp)"

section \<open>Bounds and decisions\<close>

text \<open>The sleeps of the polling loop: 200, 1000, 5000 and then 25000 microseconds.\<close>

lemma term_poll_steady:
  "waited = 6200 + 25000 * k \<Longrightarrow> k \<le> 20 \<Longrightarrow> fst (snd (term_poll waited 25000 fates p)) \<le> 506200"
proof (induction "20 - k" arbitrary: k waited fates p)
  case 0
  then show ?case by (subst term_poll.simps) simp
next
  case (Suc m)
  have "fst (snd (term_poll (waited + 25000) 25000 fs q)) \<le> 506200" for fs q
    using Suc.hyps(1) [of "Suc k" "waited + 25000" fs q] Suc.hyps(2) Suc.prems by simp
  then show ?case
    using Suc.prems by (subst term_poll.simps) (simp add: Let_def split: list.split proc.split)
qed

text \<open>
  Stopping a worker is bounded: whatever the worker does after SIGTERM, the polling loop sleeps at
  most 506.2 milliseconds before it goes on to SIGKILL.
\<close>

theorem term_poll_bounded: "fst (snd (term_poll 0 200 fates p)) \<le> 506200"
proof -
  have s: "fst (snd (term_poll 6200 25000 fs q)) \<le> 506200" for fs q
    using term_poll_steady [of 6200 0] by simp
  have "fst (snd (term_poll 1200 5000 fs q)) \<le> 506200" for fs q
    using s by (subst term_poll.simps) (simp add: Let_def split: list.split proc.split)
  then have "fst (snd (term_poll 200 1000 fs q)) \<le> 506200" for fs q
    by (subst term_poll.simps) (simp add: Let_def split: list.split proc.split)
  then show ?thesis
    by (subst term_poll.simps) (simp add: Let_def split: list.split proc.split)
qed

lemma sup_log_fields [simp]:
  "sp_workers (sup_log wall level msg sp) = sp_workers sp" "sp_pidfile (sup_log wall level msg sp) = sp_pidfile sp"
  "sp_started (sup_log wall level msg sp) = sp_started sp" "sp_pidpath (sup_log wall level msg sp) = sp_pidpath sp"
  "sp_socket (sup_log wall level msg sp) = sp_socket sp"
  by (simp_all add: sup_log_def)

lemma unlink_pidfile_fields [simp]:
  "sp_workers (unlink_pidfile sp) = sp_workers sp" "sp_pidpath (unlink_pidfile sp) = sp_pidpath sp"
  "sp_pidpath sp \<Longrightarrow> sp_pidfile (unlink_pidfile sp) = None"
  by (simp_all add: unlink_pidfile_def)

text \<open>What the supervisor leaves; \<open>told\<close>: a pid file was asked for and can always be written.\<close>

definition sup_outcome :: "bool \<Rightarrow> bool \<Rightarrow> int option \<Rightarrow> sup \<Rightarrow> bool" where
  "sup_outcome path told res sp \<longleftrightarrow>
     (res = None \<and> (sp_workers sp = [] \<or>
        (\<exists>child. sp_workers sp = [child] \<and> (told \<longrightarrow> sp_pidfile sp = Some (pid_text child)))))
     \<or> (res \<in> {Some 0, Some RTDBD_EXIT_CONFIG, Some RTDBD_EXIT_SELFCHECK} \<and> sp_workers sp = []
        \<and> (path \<longrightarrow> sp_pidfile sp = None))"

lemma supervisor_done_outcome:
  "supervisor_done wall sp = (res, sp') \<Longrightarrow> sp_workers sp = [] \<Longrightarrow> sp_pidpath sp = path \<Longrightarrow>
     sup_outcome path told res sp'"
  by (auto simp: supervisor_done_def sup_outcome_def)

definition real_pids :: "sup_round list \<Rightarrow> bool" where
  "real_pids rs \<longleftrightarrow> (\<forall>r \<in> set rs. \<forall>child. sr_fork r = Some child \<longrightarrow> 0 < child)"

lemma stop_worker_outcome:
  assumes "stop_worker wall child r p sp = (res, sp')" "0 < child" "sp_workers sp = [child]" "sp_pidpath sp = path"
    "told \<Longrightarrow> sp_pidfile sp = Some (pid_text child)"
  shows "sup_outcome path told res sp'"
proof -
  obtain rc q where k: "terminate_and_reap child (sr_fates r) (sr_kills r) p = (rc, q)" by (metis prod.collapse)
  show ?thesis
  proof (cases rc)
    case None
    then have "res = None" "sp' = still_there child q sp" using assms(1) k by (simp_all add: stop_worker_def)
    then show ?thesis using assms(3,5) by (auto simp: sup_outcome_def still_there_def)
  next
    case (Some n)
    have "q = Reaped" using terminate_reaps [OF assms(2)] k Some by blast
    then have "sp_workers (still_there child q sp) = []" "sp_pidpath (still_there child q sp) = path"
      using assms(3,4) by (simp_all add: still_there_def)
    then show ?thesis
      using supervisor_done_outcome [of wall "still_there child q sp" res sp' path told] assms(1) k Some
      by (simp add: stop_worker_def)
  qed
qed

lemma supervise_rounds_workers:
  "supervise_rounds wall rs sp = (res, sp') \<Longrightarrow> real_pids rs \<Longrightarrow> sp_workers sp = [] \<Longrightarrow> sp_pidpath sp = path \<Longrightarrow>
     (told \<Longrightarrow> path \<and> list_all sr_pidfile rs) \<Longrightarrow> sup_outcome path told res sp'"
proof (induction rs arbitrary: sp)
  case (Cons r rs)
  have IH: "sup_outcome path told res sp'"
    if "supervise_rounds wall rs sp1 = (res, sp')" "sp_workers sp1 = []" "sp_pidpath sp1 = path" for sp1
    using Cons.IH [OF that(1) _ that(2,3)] Cons.prems(2,5) by (auto simp: real_pids_def)
  note ended = supervisor_done_outcome [where told = told]
  show ?case
  proof (cases "sr_stop r \<or> sr_fork r = None")
    case True
    then show ?thesis
      using Cons.prems IH [of sp] ended [of wall sp res sp' path] by (auto split: if_splits)
  next
    case False
    then obtain child where child: "sr_fork r = Some child" "\<not> sr_stop r" by auto
    show ?thesis
    proof (cases "wait_worker (sr_waits r)")
      case None
      then show ?thesis using Cons.prems child by (auto simp: sup_outcome_def write_pidfile_def)
    next
      case (Some w)
      then show ?thesis
      proof (cases w)
        case (To_kill p)
        let ?sp = "sup_log wall RTDBD_LOG_INFO (''rtdbd worker pid='' @ dec_digits (nat child))
           (sp\<lparr>sp_workers := child # sp_workers sp, sp_started := sp_started sp + 1,
               sp_pidfile := write_pidfile (sp_pidpath sp) (sr_pidfile r) child (sp_pidfile sp)\<rparr>)"
        have "stop_worker wall child r p ?sp = (res, sp')" using Cons.prems(1) child Some To_kill by simp
        moreover have "0 < child" using Cons.prems(2) child by (simp add: real_pids_def)
        ultimately show ?thesis
          using Cons.prems(3-5) by (elim stop_worker_outcome) (auto simp: write_pidfile_def)
      next
        case (Ended ec stop)
        consider "stop" | "\<not> stop" "ec = Some RTDBD_EXIT_CONFIG \<or> ec = Some RTDBD_EXIT_SELFCHECK"
          | "\<not> stop" "\<not> (ec = Some RTDBD_EXIT_CONFIG \<or> ec = Some RTDBD_EXIT_SELFCHECK)" by blast
        then show ?thesis
        proof cases
          case 1
          then show ?thesis using Cons.prems child Some Ended by (auto intro: ended)
        next
          case 2
          then have "res = ec \<and> sp_workers sp' = [] \<and> (path \<longrightarrow> sp_pidfile sp' = None)"
            using Cons.prems child Some Ended by (auto simp: Let_def)
          then show ?thesis using 2(2) by (auto simp: sup_outcome_def)
        next
          case 3
          have "\<exists>sp1. supervise_rounds wall rs sp1 = (res, sp') \<and> sp_workers sp1 = [] \<and> sp_pidpath sp1 = path"
            using Cons.prems child Some Ended 3 by (auto simp: Let_def)
          then show ?thesis using IH by blast
        qed
      qed
    qed
  qed
qed (auto simp: sup_outcome_def)

text \<open>A supervisor that has gone through some rounds and has no worker goes on with the next round.\<close>

lemma supervise_rounds_append:
  "supervise_rounds wall pre sp = (None, sp1) \<Longrightarrow> sp_workers sp1 = [] \<Longrightarrow>
     supervise_rounds wall (pre @ rs) sp = supervise_rounds wall rs sp1"
proof (induction pre arbitrary: sp)
  case (Cons r pre)
  show ?case
  proof (cases "sr_stop r \<or> sr_fork r = None")
    case True
    then show ?thesis using Cons by (auto simp: supervisor_done_def split: if_splits)
  next
    case False
    then obtain child where child: "sr_fork r = Some child" "\<not> sr_stop r" by auto
    have there: "sp_workers s' \<noteq> []" if "stop_worker wall child r p s = (None, s')" "sp_workers s \<noteq> []" for p s s'
      using that terminate_blocked [of child "sr_fates r" "sr_kills r" p]
      by (fastforce simp: stop_worker_def supervisor_done_def still_there_def split: prod.splits option.splits)
    show ?thesis
    proof (cases "wait_worker (sr_waits r)")
      case None
      then show ?thesis using Cons.prems child by auto
    next
      case (Some w)
      then show ?thesis
        using Cons.prems Cons.IH child there
        by (cases w) (fastforce simp: Let_def supervisor_done_def split: if_splits)+
    qed
  qed
qed simp

text \<open>
  C29. The supervisor runs one worker at a time and leaves none behind, also when it is told to stop
  while a worker does not react to SIGTERM: at every moment at most one worker is unreaped, and the pid
  file, if one was asked for and can be written, holds its pid; when the supervisor ends, with success
  or with the fatal exit code of the worker, every worker that was started has been reaped and there is
  no pid file. And a supervisor that is told to stop while it waits does end, with success, as soon as
  the wait after SIGKILL looks at the worker once: \<open>r\<close> is the round that it has reached then. (\<open>fork\<close> returns positive pids to the parent.)
\<close>

theorem supervisor_leaves_no_worker:
  assumes "supervise_loop wall rs sp = (res, sp')" "real_pids rs" "sp_workers sp = []"
  shows "((res = None \<and> (sp_workers sp' = [] \<or> (\<exists>child. sp_workers sp' = [child] \<and>
        (sp_pidpath sp \<and> list_all sr_pidfile rs \<longrightarrow> sp_pidfile sp' = Some (pid_text child)))))
    \<or> (res \<in> {Some 0, Some RTDBD_EXIT_CONFIG, Some RTDBD_EXIT_SELFCHECK} \<and> sp_workers sp' = []
        \<and> (sp_pidpath sp \<longrightarrow> sp_pidfile sp' = None)))
    \<and> (\<forall>pre sp1 r rest child p. rs = pre @ r # rest
        \<and> supervise_loop wall pre sp = (None, sp1) \<and> sp_workers sp1 = [] \<and> \<not> sr_stop r \<and> sr_fork r = Some child
        \<and> wait_worker (sr_waits r) = Some (To_kill p) \<and> Bl_looks \<in> set (sr_kills r) \<longrightarrow> res = Some 0)"
proof -
  have "res = Some 0" if "rs = pre @ r # rest" "supervise_loop wall pre sp = (None, sp1)" "sp_workers sp1 = []"
      "\<not> sr_stop r" "sr_fork r = Some child" "wait_worker (sr_waits r) = Some (To_kill p)" "Bl_looks \<in> set (sr_kills r)"
    for pre sp1 r rest child p
  proof -
    have "supervise_rounds wall (r # rest) sp1 = (res, sp')"
      using assms(1) supervise_rounds_append [OF that(2) [unfolded supervise_loop_def] that(3), of "r # rest"] that(1)
      by (simp add: supervise_loop_def)
    then show ?thesis
      using that(4-6) terminate_ends [OF that(7), of child "sr_fates r" p]
      by (auto simp: stop_worker_def supervisor_done_def)
  qed
  then show ?thesis
    using supervise_rounds_workers [of wall rs "sup_log wall RTDBD_LOG_INFO ''rtdbd supervisor started'' sp" res sp'
        "sp_pidpath sp" "sp_pidpath sp \<and> list_all sr_pidfile rs"] assms
    unfolding supervise_loop_def sup_outcome_def by (auto simp only: sup_log_fields simp_thms)
qed

definition demo_sup :: sup where
  "demo_sup = \<lparr>sp_workers = [], sp_started = 0, sp_pidpath = True, sp_pidfile = None, sp_socket = True, sp_log = irt_logbuf_init\<rparr>"

text \<open>
  The first worker dies, a \<open>fork\<close> fails, the second worker does not react when the supervisor is told
  to stop: it has to be killed, and the wait for it is interrupted once.
\<close>

definition demo_rounds :: "sup_round list" where
  "demo_rounds =
     [\<lparr>sr_stop = False, sr_fork = Some 11, sr_pidfile = True, sr_waits = [(W_eintr, False), (W_signal, False)],
       sr_fates = [], sr_kills = []\<rparr>,
      \<lparr>sr_stop = False, sr_fork = None, sr_pidfile = True, sr_waits = [], sr_fates = [], sr_kills = []\<rparr>,
      \<lparr>sr_stop = False, sr_fork = Some 12, sr_pidfile = True, sr_waits = [(W_eintr, True)],
       sr_fates = [Stays, Stays], sr_kills = [Bl_eintr, Bl_looks]\<rparr>]"

lemma term_poll_deaf: "term_poll 6200 25000 [] Running = (None, 506200, Running)"
  by (simp add: term_poll.simps)

lemma demo_kill: "terminate_and_reap 12 [Stays, Stays] [Bl_eintr, Bl_looks] Running = (Some 0, Reaped)"
  by (simp add: terminate_and_reap_def term_poll.simps [of 0] term_poll.simps [of 200] term_poll.simps [of 1200]
      term_poll_deaf sigkill_def)

lemma demo_supervise: "fst (supervise_loop 1 demo_rounds demo_sup) = Some 0"
  by (simp add: supervise_loop_def demo_rounds_def Let_def stop_worker_def demo_kill supervisor_done_def)

theorem supervisor_leaves_no_worker_witness:
  "sp_workers (snd (supervise_loop 1 demo_rounds demo_sup)) = [] \<and> sp_pidfile (snd (supervise_loop 1 demo_rounds demo_sup)) = None"
proof -
  obtain sp' where r: "supervise_loop 1 demo_rounds demo_sup = (Some 0, sp')"
    using demo_supervise by (metis prod.collapse)
  have "real_pids demo_rounds" "sp_workers demo_sup = []" "sp_pidpath demo_sup"
    by (simp_all add: demo_sup_def real_pids_def demo_rounds_def)
  with supervisor_leaves_no_worker [OF r this(1,2)] show ?thesis unfolding r by simp
qed

end
