(* ===== verification/Client.thy ===== *)
theory Client
  imports Server
begin

text \<open>
  The client library (\<^verbatim>\<open>client/src/client.c\<close>) and its command line front end
  (\<^verbatim>\<open>client/src/irtcli_main.c\<close>): the coalescing write queue, the submission of writes with one
  reconnection, the synchronous requests. The connection in use is a socket as in the daemon's model;
  what coming connection attempts yield is a list, and when it is exhausted they fail.
\<close>

section \<open>Constants and state\<close>

definition IRTCLI_OK :: int where "IRTCLI_OK = 0"
definition IRTCLI_QUEUED :: int where "IRTCLI_QUEUED = 1"
definition IRTCLI_ERR_ARG :: int where "IRTCLI_ERR_ARG = -1"
definition IRTCLI_ERR_FULL :: int where "IRTCLI_ERR_FULL = -2"
definition IRTCLI_ERR_IO :: int where "IRTCLI_ERR_IO = -3"
definition IRTCLI_ERR_DENIED :: int where "IRTCLI_ERR_DENIED = -4"
definition IRTCLI_ERR_PROTO :: int where "IRTCLI_ERR_PROTO = -5"
definition IRTCLI_ERR_NOT_FOUND :: int where "IRTCLI_ERR_NOT_FOUND = -6"

lemmas irtcli_codes = IRTCLI_OK_def IRTCLI_QUEUED_def IRTCLI_ERR_ARG_def IRTCLI_ERR_FULL_def IRTCLI_ERR_IO_def
  IRTCLI_ERR_DENIED_def IRTCLI_ERR_PROTO_def IRTCLI_ERR_NOT_FOUND_def

definition IRTCLI_QUEUE_CAP_DEFAULT :: u32 where "IRTCLI_QUEUE_CAP_DEFAULT = 256"
definition IRTCLI_QUEUE_CAP_MAX :: u32 where "IRTCLI_QUEUE_CAP_MAX = 4096"
definition IRTCLI_SOCK_PATH_MAX :: nat where "IRTCLI_SOCK_PATH_MAX = 108"

definition IRTCLI_TYPE_BOOL :: u8 where "IRTCLI_TYPE_BOOL = 0"
definition IRTCLI_TYPE_INT32 :: u8 where "IRTCLI_TYPE_INT32 = 1"
definition IRTCLI_TYPE_DOUBLE :: u8 where "IRTCLI_TYPE_DOUBLE = 2"

record irtcli_entry =
  e_point_id :: u32
  e_type :: u8
  e_value_bits :: u64
  e_source_ts_ns :: u64

datatype connect_res = Connects int io | Refused

record irtcli =
  cc_fd :: int
  cc_connected :: bool
  cc_sock_path :: string
  cc_queue :: "irtcli_entry list"
  cc_cap :: u32
  cc_head :: u32
  cc_count :: u32
  cc_async :: bool
  cc_alert :: bool                 \<comment> \<open>an alert callback is set\<close>
  cc_partition :: u32
  cc_alerts :: "string list"       \<comment> \<open>the messages it has been given\<close>
  cc_io :: io                      \<comment> \<open>the connection in use\<close>
  cc_net :: "connect_res list"     \<comment> \<open>what coming connection attempts yield\<close>

definition raise_alert :: "string \<Rightarrow> irtcli \<Rightarrow> irtcli" where
  "raise_alert msg c = (if cc_alert c then c\<lparr>cc_alerts := cc_alerts c @ [msg]\<rparr> else c)"

section \<open>The queue\<close>

definition q_start :: "irtcli \<Rightarrow> u32" where
  "q_start c = (cc_head c + cc_cap c - cc_count c) mod cc_cap c"

definition q_push :: "irtcli_entry \<Rightarrow> irtcli \<Rightarrow> int \<times> irtcli" where
  "q_push e c =
     (let n = cc_count c; start = q_start c;
          slot = (\<lambda>i. unat ((start + i) mod cc_cap c))
      in case find (\<lambda>i. e_point_id (cc_queue c ! slot i) = e_point_id e) (map word_of_nat [0..<unat n]) of
           Some i \<Rightarrow> (IRTCLI_OK, c\<lparr>cc_queue := (cc_queue c)[slot i := (cc_queue c ! slot i)
                       \<lparr>e_type := e_type e, e_value_bits := e_value_bits e, e_source_ts_ns := e_source_ts_ns e\<rparr>]\<rparr>)
         | None \<Rightarrow>
             if cc_cap c \<le> n then (IRTCLI_ERR_FULL, raise_alert ''irtcli: write queue full'' c)
             else (IRTCLI_OK, c\<lparr>cc_queue := (cc_queue c)[unat (cc_head c) := e],
                                cc_head := (cc_head c + 1) mod cc_cap c, cc_count := cc_count c + 1\<rparr>))"

definition q_pop :: "irtcli \<Rightarrow> (irtcli_entry \<times> irtcli) option" where
  "q_pop c =
     (if cc_count c = 0 then None
      else Some (cc_queue c ! unat (q_start c), c\<lparr>cc_count := cc_count c - 1\<rparr>))"

section \<open>Sending and receiving\<close>

definition cli_send_all :: "u8 list \<Rightarrow> irtcli \<Rightarrow> int \<times> irtcli" where
  "cli_send_all bs c =
     (let io = cc_io c; ((out, rc), rs) = send_all bs (io_env io)
      in (rc, c\<lparr>cc_io := io\<lparr>io_tx := io_tx io @ out, io_env := rs\<rparr>\<rparr>))"

definition cli_recv_all :: "nat \<Rightarrow> irtcli \<Rightarrow> u8 list option \<times> irtcli" where
  "cli_recv_all len c =
     (let io = cc_io c; (r, evs) = recv_all len (io_rx io) in (r, c\<lparr>cc_io := io\<lparr>io_rx := evs\<rparr>\<rparr>))"

text \<open>A request header; the response header has the status in the place of the operation.\<close>

definition RTDBD_OP_WRITE :: u16 where "RTDBD_OP_WRITE = 2"

definition req_bytes :: "u16 \<Rightarrow> nat \<Rightarrow> u8 list" where
  "req_bytes op len = hdr_bytes RTDBD_MAGIC RTDBD_PROTO_VERSION op (word_of_nat len)"

definition entry_bytes :: "irtcli_entry \<Rightarrow> u8 list" where
  "entry_bytes e = le32 (e_point_id e) @ [e_type e, 0, 0, 0] @ le64 (e_value_bits e) @ le64 (e_source_ts_ns e)"

definition submit_one :: "irtcli_entry \<Rightarrow> irtcli \<Rightarrow> int \<times> irtcli" where
  "submit_one e c =
     (let (rc, c) = cli_send_all (req_bytes RTDBD_OP_WRITE 24) c
      in if rc \<noteq> 0 then (IRTCLI_ERR_IO, c)
         else let (rc, c) = cli_send_all (entry_bytes e) c
              in if rc \<noteq> 0 then (IRTCLI_ERR_IO, c)
                 else case cli_recv_all 12 c of
                   (None, c) \<Rightarrow> (IRTCLI_ERR_IO, c)
                 | (Some bs, c) \<Rightarrow>
                     let resp = req_hdr_of bs
                     in if rq_magic resp \<noteq> RTDBD_MAGIC \<or> rq_version resp \<noteq> RTDBD_PROTO_VERSION
                        then (IRTCLI_ERR_PROTO, c)
                        else if rq_opcode resp = RTDBD_ST_OK then (IRTCLI_OK, c)
                        else if rq_opcode resp = RTDBD_ST_DENIED then (IRTCLI_ERR_DENIED, c)
                        else (IRTCLI_ERR_PROTO, c))"

section \<open>Life cycle\<close>

definition zero_entry :: irtcli_entry where
  "zero_entry = \<lparr>e_point_id = 0, e_type = 0, e_value_bits = 0, e_source_ts_ns = 0\<rparr>"

text \<open>
  \<open>mem\<close>: the queue could be allocated. The fields that stand for the world (messages, connections) are
  kept.
\<close>

definition irtcli_init :: "string option \<Rightarrow> u32 \<Rightarrow> bool \<Rightarrow> bool \<Rightarrow> irtcli \<Rightarrow> int \<times> irtcli" where
  "irtcli_init path cap alert mem c =
     (case path of
        None \<Rightarrow> (IRTCLI_ERR_ARG, c)
      | Some p \<Rightarrow>
          let real_cap = (if cap = 0 then IRTCLI_QUEUE_CAP_DEFAULT else cap)
          in if IRTCLI_QUEUE_CAP_MAX < real_cap then (IRTCLI_ERR_ARG, c)
             else if IRTCLI_SOCK_PATH_MAX \<le> length p then (IRTCLI_ERR_ARG, c)
             else
               (if mem then IRTCLI_OK else IRTCLI_ERR_IO,
                c\<lparr>cc_fd := -1, cc_connected := False, cc_sock_path := p,
                  cc_queue := (if mem then replicate (unat real_cap) zero_entry else []), cc_cap := real_cap,
                  cc_head := 0, cc_count := 0, cc_async := True, cc_alert := alert, cc_partition := 0\<rparr>))"

definition irtcli_close :: "irtcli \<Rightarrow> irtcli" where
  "irtcli_close c = c\<lparr>cc_fd := 0, cc_connected := False, cc_sock_path := [], cc_queue := [], cc_cap := 0,
     cc_head := 0, cc_count := 0, cc_async := False, cc_alert := False, cc_partition := 0\<rparr>"

definition irtcli_connect :: "irtcli \<Rightarrow> int \<times> irtcli" where
  "irtcli_connect c =
     (let c = (if 0 \<le> cc_fd c then c\<lparr>cc_fd := -1, cc_connected := False\<rparr> else c)
      in if 108 \<le> length (cc_sock_path c) then (IRTCLI_ERR_ARG, c)
         else case cc_net c of
           [] \<Rightarrow> (IRTCLI_ERR_IO, c)
         | Refused # net \<Rightarrow> (IRTCLI_ERR_IO, c\<lparr>cc_net := net\<rparr>)
         | Connects fd io # net \<Rightarrow> (IRTCLI_OK, c\<lparr>cc_fd := fd, cc_connected := True, cc_io := io, cc_net := net\<rparr>))"

definition irtcli_set_async :: "bool \<Rightarrow> irtcli \<Rightarrow> irtcli" where
  "irtcli_set_async a c = c\<lparr>cc_async := a\<rparr>"

text \<open>\<open>if (!c->connected && irtcli_connect(c) != OK)\<close>: whether there is a connection.\<close>

definition ensure_connected :: "irtcli \<Rightarrow> bool \<times> irtcli" where
  "ensure_connected c =
     (if cc_connected c then (True, c) else let (rc, c) = irtcli_connect c in (rc = IRTCLI_OK, c))"

section \<open>Writes and the flush\<close>

definition write_entry :: "irtcli_entry \<Rightarrow> irtcli \<Rightarrow> int \<times> irtcli" where
  "write_entry e c =
     (if cc_async c then let (rc, c) = q_push e c in (if rc = IRTCLI_OK then IRTCLI_QUEUED else rc, c)
      else
        let (ok, c) = ensure_connected c
        in if \<not> ok then (IRTCLI_ERR_IO, c)
           else let (rc, c) = submit_one e c
                in (rc, if rc = IRTCLI_ERR_IO then c\<lparr>cc_connected := False\<rparr> else c))"

definition irtcli_write_bool :: "u32 \<Rightarrow> bool \<Rightarrow> u64 \<Rightarrow> irtcli \<Rightarrow> int \<times> irtcli" where
  "irtcli_write_bool pid v ts = write_entry
     \<lparr>e_point_id = pid, e_type = IRTCLI_TYPE_BOOL, e_value_bits = (if v then 1 else 0), e_source_ts_ns = ts\<rparr>"

definition irtcli_write_int32 :: "u32 \<Rightarrow> u32 \<Rightarrow> u64 \<Rightarrow> irtcli \<Rightarrow> int \<times> irtcli" where
  "irtcli_write_int32 pid v ts = write_entry
     \<lparr>e_point_id = pid, e_type = IRTCLI_TYPE_INT32, e_value_bits = scast v, e_source_ts_ns = ts\<rparr>"

definition irtcli_write_double :: "u32 \<Rightarrow> u64 \<Rightarrow> u64 \<Rightarrow> irtcli \<Rightarrow> int \<times> irtcli" where
  "irtcli_write_double pid bits ts = write_entry
     \<lparr>e_point_id = pid, e_type = IRTCLI_TYPE_DOUBLE, e_value_bits = bits, e_source_ts_ns = ts\<rparr>"

text \<open>One entry of the flush: submission, and one more after a reconnection when the I/O fails.\<close>

definition submit_retry :: "irtcli_entry \<Rightarrow> irtcli \<Rightarrow> int \<times> irtcli" where
  "submit_retry e c =
     (let (rc, c) = submit_one e c
      in if rc = IRTCLI_ERR_IO
         then let (crc, c) = irtcli_connect (c\<lparr>cc_connected := False\<rparr>)
              in if crc = IRTCLI_OK then submit_one e c else (rc, c)
         else (rc, c))"

lemma raise_alert_queue [simp]:
  "cc_queue (raise_alert m c) = cc_queue c" "cc_cap (raise_alert m c) = cc_cap c"
  "cc_head (raise_alert m c) = cc_head c" "cc_count (raise_alert m c) = cc_count c"
  by (simp_all add: raise_alert_def)

text \<open>Submitting does not touch the queue.\<close>

definition same_queue :: "irtcli \<Rightarrow> irtcli \<Rightarrow> bool" where
  "same_queue c d \<longleftrightarrow> cc_queue d = cc_queue c \<and> cc_cap d = cc_cap c \<and> cc_head d = cc_head c \<and> cc_count d = cc_count c"

lemma io_same_queue [simp]:
  "same_queue c (snd (cli_send_all bs c))" "same_queue c (snd (cli_recv_all n c))" "same_queue c (snd (irtcli_connect c))"
  by (simp_all add: same_queue_def cli_send_all_def cli_recv_all_def irtcli_connect_def Let_def split_beta
      split: list.split connect_res.split)

lemma same_queue_trans: "same_queue c d \<Longrightarrow> same_queue d e \<Longrightarrow> same_queue c e"
  by (simp add: same_queue_def)

lemma submit_one_same_queue [simp]: "same_queue c (snd (submit_one e c))"
proof -
  let ?c1 = "snd (cli_send_all (req_bytes RTDBD_OP_WRITE 24) c)"
  let ?c2 = "snd (cli_send_all (entry_bytes e) ?c1)"
  have "same_queue c ?c1" by simp
  moreover from same_queue_trans [OF this io_same_queue(1)] have q: "same_queue c ?c2" .
  moreover from same_queue_trans [OF q io_same_queue(2)] have "same_queue c (snd (cli_recv_all 12 ?c2))" .
  ultimately show ?thesis
    by (auto simp: submit_one_def split_beta Let_def split: option.split)
qed

lemma submit_retry_same_queue: "same_queue c (snd (submit_retry e c))"
proof -
  have d: "same_queue x (x\<lparr>cc_connected := False\<rparr>)" for x by (simp add: same_queue_def)
  let ?c1 = "snd (submit_one e c)"
  have q: "same_queue c (snd (irtcli_connect (?c1\<lparr>cc_connected := False\<rparr>)))"
    by (rule same_queue_trans [OF submit_one_same_queue same_queue_trans [OF d io_same_queue(3)]])
  then show ?thesis
    using same_queue_trans [OF q submit_one_same_queue] by (simp add: submit_retry_def split_beta Let_def)
qed

function flush_loop :: "irtcli \<Rightarrow> int \<Rightarrow> int \<times> irtcli" where
  "flush_loop c submitted =
     (case q_pop c of
        None \<Rightarrow> (submitted, c)
      | Some (e, c) \<Rightarrow>
          case submit_retry e c of (rc, c) \<Rightarrow>
            if rc \<noteq> IRTCLI_OK
            then (submitted, (raise_alert ''irtcli: submit failed, entry retained'' c)\<lparr>cc_count := cc_count c + 1\<rparr>)
            else flush_loop c (submitted + 1))"
  by pat_completeness auto
termination
proof (relation "measure (\<lambda>(c, submitted). unat (cc_count c))", goal_cases)
  case (2 c submitted x e c1 rc c2)
  have "cc_count c \<noteq> 0" "cc_count c1 = cc_count c - 1" using 2(1,2) by (auto simp: q_pop_def split: if_splits)
  moreover have "cc_count c2 = cc_count c1" using submit_retry_same_queue [of c1 e] 2(3) [symmetric] by (simp add: same_queue_def)
  ultimately show ?case using unat_gt_0 by (simp add: measure_unat)
qed simp

declare flush_loop.simps [simp del]

definition irtcli_flush :: "irtcli \<Rightarrow> int \<times> irtcli" where
  "irtcli_flush c =
     (if cc_count c = 0 then (0, c)
      else let (ok, c) = ensure_connected c in if \<not> ok then (0, c) else flush_loop c 0)"

definition irtcli_queue_count :: "irtcli \<Rightarrow> u32" where
  "irtcli_queue_count c = cc_count c"

section \<open>Synchronous requests\<close>

text \<open>
  \<open>rt_submit\<close>: the return code, the status of the daemon (\<open>ST_INTERNAL\<close> until a response is complete)
  and the response, which is expected to have \<open>resp_len\<close> bytes when the status is OK.
\<close>

definition lose :: "irtcli \<Rightarrow> irtcli" where
  "lose c = c\<lparr>cc_connected := False\<rparr>"

definition rt_submit :: "u16 \<Rightarrow> u8 list \<Rightarrow> nat \<Rightarrow> irtcli \<Rightarrow> (int \<times> u16 \<times> u8 list) \<times> irtcli" where
  "rt_submit opc req resp_len c =
     (let (ok, c) = ensure_connected c; st = RTDBD_ST_INTERNAL
      in if \<not> ok then ((IRTCLI_ERR_IO, st, []), c)
         else let (rc, c) = cli_send_all (req_bytes opc (length req)) c
         in if rc \<noteq> 0 then ((IRTCLI_ERR_IO, st, []), lose c)
         else let (rc, c) = (if req \<noteq> [] then cli_send_all req c else (0, c))
         in if rc \<noteq> 0 then ((IRTCLI_ERR_IO, st, []), lose c)
         else case cli_recv_all 12 c of
           (None, c) \<Rightarrow> ((IRTCLI_ERR_IO, st, []), lose c)
         | (Some bs, c) \<Rightarrow>
             let resp = req_hdr_of bs
             in if rq_magic resp \<noteq> RTDBD_MAGIC \<or> rq_version resp \<noteq> RTDBD_PROTO_VERSION
                then ((IRTCLI_ERR_PROTO, st, []), c)
                else if rq_opcode resp = RTDBD_ST_OK \<and> 0 < resp_len
                then case cli_recv_all resp_len c of
                  (None, c) \<Rightarrow> ((IRTCLI_ERR_IO, st, []), lose c)
                | (Some r, c) \<Rightarrow> ((IRTCLI_OK, rq_opcode resp, r), c)
                else ((IRTCLI_OK, rq_opcode resp, []), c))"

definition status_to_cli :: "u16 \<Rightarrow> int" where
  "status_to_cli st =
     (if st = RTDBD_ST_OK then IRTCLI_OK
      else if st = RTDBD_ST_DENIED then IRTCLI_ERR_DENIED
      else if st = RTDBD_ST_NOT_FOUND then IRTCLI_ERR_NOT_FOUND
      else IRTCLI_ERR_PROTO)"

definition find_bytes :: "string \<Rightarrow> u32 \<Rightarrow> u8 list" where
  "find_bytes name part = c_buf 64 name @ le32 part"

definition irtcli_find_by_name_in :: "u32 \<Rightarrow> string option \<Rightarrow> irtcli \<Rightarrow> (int \<times> u32 option) \<times> irtcli" where
  "irtcli_find_by_name_in part name c =
     (case name of
        None \<Rightarrow> ((IRTCLI_ERR_ARG, None), c)
      | Some nm \<Rightarrow>
          let ((rc, st, r), c) = rt_submit 7 (find_bytes nm part) 4 c
          in if rc \<noteq> IRTCLI_OK then ((rc, None), c)
             else ((status_to_cli st, if st = RTDBD_ST_OK then Some (of_le r) else None), c))"

definition irtcli_find_by_name :: "string option \<Rightarrow> irtcli \<Rightarrow> (int \<times> u32 option) \<times> irtcli" where
  "irtcli_find_by_name name c = irtcli_find_by_name_in (cc_partition c) name c"

definition irtcli_select :: "u32 \<Rightarrow> irtcli \<Rightarrow> int \<times> irtcli" where
  "irtcli_select part c =
     (let ((rc, st, _), c) = rt_submit 17 (le32 part) 0 c
      in if rc \<noteq> IRTCLI_OK then (rc, c)
         else let cr = status_to_cli st in (cr, if cr = IRTCLI_OK then c\<lparr>cc_partition := part\<rparr> else c))"

record irtcli_point_info =
  pi_point_id :: u32
  pi_type :: u8
  pi_access :: u8
  pi_name :: string
  pi_partition :: u32

definition point_info_of :: "u8 list \<Rightarrow> irtcli_point_info" where
  "point_info_of bs = \<lparr>pi_point_id = of_le (take 4 bs), pi_type = bs ! 4, pi_access = bs ! 5,
     pi_name = c_string (take 64 (drop 8 bs)), pi_partition = of_le (take 4 (drop 72 bs))\<rparr>"

fun point_infos :: "nat \<Rightarrow> u8 list \<Rightarrow> irtcli_point_info list" where
  "point_infos 0 bs = []"
| "point_infos (Suc n) bs = point_info_of (take 76 bs) # point_infos n (drop 76 bs)"

definition list_bytes :: "u32 \<Rightarrow> u32 \<Rightarrow> u32 \<Rightarrow> u8 list" where
  "list_bytes mx offset part = le32 mx @ le32 offset @ le32 part"

definition irtcli_list_in :: "u32 \<Rightarrow> u32 \<Rightarrow> u32 \<Rightarrow> u32 \<Rightarrow> irtcli \<Rightarrow> (int \<times> irtcli_point_info list) \<times> irtcli" where
  "irtcli_list_in part offset mx cap c =
     (let (ok, c) = ensure_connected c
      in if \<not> ok then ((IRTCLI_ERR_IO, []), c)
         else let (rc, c) = cli_send_all (req_bytes 11 12) c
         in if rc \<noteq> 0 then ((IRTCLI_ERR_IO, []), lose c)
         else let (rc, c) = cli_send_all (list_bytes mx offset part) c
         in if rc \<noteq> 0 then ((IRTCLI_ERR_IO, []), lose c)
         else case cli_recv_all 12 c of
           (None, c) \<Rightarrow> ((IRTCLI_ERR_IO, []), lose c)
         | (Some bs, c) \<Rightarrow>
             let resp = req_hdr_of bs
             in if rq_magic resp \<noteq> RTDBD_MAGIC \<or> rq_version resp \<noteq> RTDBD_PROTO_VERSION
                then ((IRTCLI_ERR_PROTO, []), c)
                else if rq_opcode resp \<noteq> RTDBD_ST_OK then ((status_to_cli (rq_opcode resp), []), c)
                else
                  let n = rq_len resp div 76
                  in if cap < n then ((IRTCLI_ERR_ARG, []), c)
                     else if n = 0 then ((IRTCLI_OK, []), c)
                     else case cli_recv_all (unat n * 76) c of
                       (None, c) \<Rightarrow> ((IRTCLI_ERR_IO, []), lose c)
                     | (Some r, c) \<Rightarrow> ((IRTCLI_OK, point_infos (unat n) r), c))"

definition irtcli_get_meta :: "u32 \<Rightarrow> irtcli \<Rightarrow> (int \<times> meta option) \<times> irtcli" where
  "irtcli_get_meta pid c =
     (let ((rc, st, r), c) = rt_submit 8 (le32 pid) 32 c
      in if rc \<noteq> IRTCLI_OK then ((rc, None), c)
         else ((status_to_cli st, if st = RTDBD_ST_OK then Some (meta_of r) else None), c))"

definition irtcli_set_meta :: "u32 \<Rightarrow> meta \<Rightarrow> irtcli \<Rightarrow> int \<times> irtcli" where
  "irtcli_set_meta pid m c =
     (let ((rc, st, _), c) = rt_submit 9 (le32 pid @ [0, 0, 0, 0] @ meta_bytes m) 0 c
      in (if rc \<noteq> IRTCLI_OK then rc else status_to_cli st, c))"

section \<open>The command line\<close>

definition cli_to_exit :: "int \<Rightarrow> int" where
  "cli_to_exit rc =
     (if rc = IRTCLI_OK then 0 else if rc = IRTCLI_ERR_ARG then 1 else if rc = IRTCLI_ERR_FULL then 2
      else if rc = IRTCLI_ERR_IO then 3 else if rc = IRTCLI_ERR_DENIED then 4 else if rc = IRTCLI_ERR_PROTO then 5
      else if rc = IRTCLI_ERR_NOT_FOUND then 6 else 1)"

definition main_parse_u32 :: "string \<Rightarrow> u32 option" where
  "main_parse_u32 s =
     (if s = [] then None
      else let r = c_strtoul s 10
           in if su_erange r then None
              else case su_end r of
                None \<Rightarrow> None
              | Some rest \<Rightarrow> if rest \<noteq> [] then None else if 0xFFFFFFFF < su_value r then None else Some (ucast (su_value r)))"

definition IRTCLI_LIST_CAP :: u32 where "IRTCLI_LIST_CAP = 4096"

definition info_line :: "irtcli_point_info \<Rightarrow> string" where
  "info_line p = u32_text (pi_point_id p) @ '' '' @ u32_text (pi_partition p) @ '' '' @ pi_name p"

definition list_cmd :: "irtcli \<Rightarrow> (int \<times> string list) \<times> irtcli" where
  "list_cmd c =
     (let ((rc, ps), c) = irtcli_list_in (cc_partition c) 0 IRTCLI_LIST_CAP IRTCLI_LIST_CAP c
      in ((rc, if rc = IRTCLI_OK then map info_line ps else []), c))"

text \<open>
  The options, up to the first command: an exit code, or the socket, the partition and the commands.
  The command stream: the exit code and the lines on standard output.
\<close>

fun main_options :: "string list \<Rightarrow> string \<Rightarrow> u32 option \<Rightarrow> int + string \<times> u32 option \<times> string list" where
  "main_options [] sock part = Inl 1"
| "main_options (a # as) sock part =
     (if a = ''--help'' then Inl 0
      else if a = ''--sock'' then (case as of [] \<Rightarrow> Inl 1 | p # as \<Rightarrow> main_options as p part)
      else if a = ''--partition'' then
        (case as of [] \<Rightarrow> Inl 1
         | p # as \<Rightarrow> (case main_parse_u32 p of None \<Rightarrow> Inl 1 | Some n \<Rightarrow> main_options as sock (Some n)))
      else if a \<noteq> [] \<and> hd a = CHR ''-'' \<and> tl a \<noteq> [] then Inl 1
      else Inr (sock, part, a # as))"

fun main_commands :: "string list \<Rightarrow> irtcli \<Rightarrow> string list \<Rightarrow> (int \<times> string list) \<times> irtcli" where
  "main_commands [] c out = ((0, out), irtcli_close c)"
| "main_commands (cmd # as) c out =
     (if cmd = ''select'' then
        (case as of [] \<Rightarrow> ((1, out), irtcli_close c)
         | p # as \<Rightarrow>
             (case main_parse_u32 p of
                None \<Rightarrow> ((1, out), irtcli_close c)
              | Some n \<Rightarrow>
                  case irtcli_select n c of (rc, c) \<Rightarrow>
                    if rc \<noteq> IRTCLI_OK then ((cli_to_exit rc, out), irtcli_close c) else main_commands as c out))
      else if cmd = ''find'' then
        (case as of [] \<Rightarrow> ((1, out), irtcli_close c)
         | name # as \<Rightarrow>
             (case irtcli_find_by_name (Some name) c of ((rc, found), c) \<Rightarrow>
                if rc \<noteq> IRTCLI_OK then ((cli_to_exit rc, out), irtcli_close c)
                else main_commands as c (out @ [u32_text (case found of Some pid \<Rightarrow> pid | None \<Rightarrow> 0)])))
      else if cmd = ''list'' then
        (case list_cmd c of ((rc, ls), c) \<Rightarrow>
           if rc \<noteq> IRTCLI_OK then ((cli_to_exit rc, out), irtcli_close c) else main_commands as c (out @ ls))
      else ((1, out), irtcli_close c))"

definition irtcli_main :: "string list \<Rightarrow> bool \<Rightarrow> irtcli \<Rightarrow> (int \<times> string list) \<times> irtcli" where
  "irtcli_main argv mem c =
     (case main_options (tl argv) ''/run/indurtdb/default.sock'' None of
        Inl ec \<Rightarrow> ((ec, []), c)
      | Inr (sock, part, cmds) \<Rightarrow>
          let (rc, c) = irtcli_init (Some sock) 0 False mem c
          in if rc \<noteq> IRTCLI_OK then ((cli_to_exit rc, []), c)
             else case part of
               None \<Rightarrow> main_commands cmds c []
             | Some n \<Rightarrow>
                 let (rc, c) = irtcli_select n c
                 in if rc \<noteq> IRTCLI_OK then ((cli_to_exit rc, []), irtcli_close c) else main_commands cmds c [])"

end
