(* ===== verification/Client_Props.thy ===== *)
theory Client_Props
  imports Client Server_Props
begin

text \<open>
  Properties of the client: its ring is a bounded queue that coalesces the writes of one point, a
  flush submits a prefix of it and loses nothing, and what the client encodes is what the daemon's
  handlers decode, and the other way round.
\<close>

section \<open>The queue as a list\<close>

definition queued :: "irtcli \<Rightarrow> irtcli_entry list" where
  "queued c = window (cc_queue c) (unat (q_start c)) (unat (cc_count c))"

definition ring_inv :: "irtcli \<Rightarrow> bool" where
  "ring_inv c \<longleftrightarrow> length (cc_queue c) = unat (cc_cap c) \<and> 0 < unat (cc_cap c) \<and> unat (cc_cap c) \<le> 4096
     \<and> unat (cc_head c) < unat (cc_cap c) \<and> unat (cc_count c) \<le> unat (cc_cap c)"

definition queue_inv :: "irtcli \<Rightarrow> bool" where
  "queue_inv c \<longleftrightarrow> ring_inv c \<and> distinct (map e_point_id (queued c))"

datatype queue_cmd = Enqueue irtcli_entry | Dequeue

definition coalesce :: "irtcli_entry \<Rightarrow> irtcli_entry list \<Rightarrow> irtcli_entry list" where
  "coalesce e = map (\<lambda>x. if e_point_id x = e_point_id e then e else x)"

fun queue_spec :: "queue_cmd \<Rightarrow> nat \<times> irtcli_entry list \<Rightarrow> (int \<times> irtcli_entry option) \<times> nat \<times> irtcli_entry list" where
  "queue_spec (Enqueue e) (cap, xs) =
     (if e_point_id e \<in> e_point_id ` set xs then ((0, None), cap, coalesce e xs)
      else if cap \<le> length xs then ((-2, None), cap, xs)
      else ((0, None), cap, xs @ [e]))"
| "queue_spec Dequeue (cap, []) = ((0, None), cap, [])"
| "queue_spec Dequeue (cap, x # xs) = ((0, Some x), cap, xs)"

fun queue_step :: "queue_cmd \<Rightarrow> irtcli \<Rightarrow> (int \<times> irtcli_entry option) \<times> irtcli" where
  "queue_step (Enqueue e) c = (let (rc, c) = q_push e c in ((rc, None), c))"
| "queue_step Dequeue c = (case q_pop c of None \<Rightarrow> ((0, None), c) | Some (e, c) \<Rightarrow> ((0, Some e), c))"

lemma ring_invD:
  assumes "ring_inv c"
  shows "length (cc_queue c) = unat (cc_cap c)" "0 < unat (cc_cap c)" "unat (cc_cap c) \<le> 4096"
    "unat (cc_head c) < unat (cc_cap c)" "unat (cc_count c) \<le> unat (cc_cap c)"
  using assms by (simp_all add: ring_inv_def)

lemma queued_length [simp]: "length (queued c) = unat (cc_count c)"
  by (simp add: queued_def)

lemma q_start_nat:
  assumes "ring_inv c"
  shows "unat (q_start c) = (unat (cc_head c) + unat (cc_cap c) - unat (cc_count c)) mod unat (cc_cap c)"
proof -
  note I = ring_invD [OF assms]
  have s: "unat (cc_head c + cc_cap c) = unat (cc_head c) + unat (cc_cap c)"
    using I by (subst unat_add_lem [THEN iffD1]) simp_all
  have "cc_count c \<le> cc_head c + cc_cap c" using I s by (simp add: word_le_nat_alt)
  then show ?thesis by (simp add: q_start_def unat_mod unat_sub s)
qed

lemma q_slot_nat:
  assumes "ring_inv c" "i \<le> unat (cc_cap c)"
  shows "unat ((q_start c + word_of_nat i) mod cc_cap c) = (unat (q_start c) + i) mod unat (cc_cap c)"
proof -
  note I = ring_invD [OF assms(1)]
  have "unat (q_start c) < unat (cc_cap c)" using I(2) by (simp add: q_start_nat [OF assms(1)])
  moreover have "unat (word_of_nat i :: u32) = i" using assms(2) I(3) by (simp add: unat_of_nat)
  ultimately have "unat (q_start c + word_of_nat i) = unat (q_start c) + i"
    using I(3) assms(2) by (subst unat_add_lem [THEN iffD1]) simp_all
  then show ?thesis by (simp add: unat_mod)
qed

lemma head_after_queue:
  assumes "ring_inv c"
  shows "(unat (q_start c) + unat (cc_count c)) mod unat (cc_cap c) = unat (cc_head c)"
proof -
  note I = ring_invD [OF assms]
  have "(unat (q_start c) + unat (cc_count c)) mod unat (cc_cap c)
      = (unat (cc_head c) + unat (cc_cap c) - unat (cc_count c) + unat (cc_count c)) mod unat (cc_cap c)"
    by (simp add: q_start_nat [OF assms] mod_simps)
  also have "\<dots> = unat (cc_head c)" using I(4,5) by simp
  finally show ?thesis .
qed

lemma queued_nth:
  assumes "ring_inv c" "i < unat (cc_count c)"
  shows "queued c ! i = cc_queue c ! unat ((q_start c + word_of_nat i) mod cc_cap c)"
  using assms ring_invD(1,5) [OF assms(1)] by (simp add: queued_def window_nth q_slot_nat)

lemma queued_distinct:
  assumes "queue_inv c" "i < unat (cc_count c)" "j < unat (cc_count c)" "e_point_id (queued c ! i) = e_point_id (queued c ! j)"
  shows "i = j"
  using nth_eq_iff_index_eq [of "map e_point_id (queued c)" i j] assms by (simp add: queue_inv_def)

text \<open>The scan for an entry of the same point.\<close>

lemma q_push_hit:
  assumes "queue_inv c" "e_point_id e \<in> e_point_id ` set (queued c)"
  shows "\<exists>c'. q_push e c = (IRTCLI_OK, c') \<and> ring_inv c' \<and> queued c' = coalesce e (queued c) \<and> cc_cap c' = cc_cap c"
proof -
  have r: "ring_inv c" using assms(1) by (simp add: queue_inv_def)
  note I = ring_invD [OF r]
  let ?slot = "\<lambda>i. unat ((q_start c + i) mod cc_cap c)"
  let ?P = "\<lambda>i. e_point_id (cc_queue c ! ?slot i) = e_point_id e"
  obtain k where k: "k < unat (cc_count c)" "e_point_id (queued c ! k) = e_point_id e"
    using assms(2) by (auto simp: in_set_conv_nth)
  have "find ?P (map word_of_nat [0..<unat (cc_count c)]) \<noteq> None"
    using k by (auto simp: find_None_iff queued_nth [OF r k(1)])
  then obtain w where f: "find ?P (map word_of_nat [0..<unat (cc_count c)]) = Some w" by blast
  then obtain i where i: "i < unat (cc_count c)" "w = word_of_nat i" "?P w"
    by (auto simp: find_Some_iff)
  have "e_point_id (queued c ! i) = e_point_id (queued c ! k)" using i k(2) by (simp add: queued_nth [OF r])
  then have ik: "i = k" by (rule queued_distinct [OF assms(1) i(1) k(1)])
  have slot: "?slot w = (unat (q_start c) + i) mod length (cc_queue c)"
    using q_slot_nat [OF r, of i] i I by simp
  let ?x = "(cc_queue c ! ?slot w)\<lparr>e_type := e_type e, e_value_bits := e_value_bits e, e_source_ts_ns := e_source_ts_ns e\<rparr>"
  have x: "?x = e" using i(3) by (cases e) simp
  let ?c = "c\<lparr>cc_queue := (cc_queue c)[?slot w := e]\<rparr>"
  have q: "q_push e c = (IRTCLI_OK, ?c)"
    unfolding q_push_def Let_def f option.case x by simp
  have st: "q_start ?c = q_start c" by (simp add: q_start_def)
  have "queued ?c = (queued c)[i := e]"
    unfolding queued_def st using window_update_inside [of "unat (cc_count c)" "cc_queue c" i "unat (q_start c)" e] i(1) I slot
    by simp
  also have "\<dots> = coalesce e (queued c)"
  proof (rule nth_equalityI)
    fix j assume "j < length ((queued c)[i := e])"
    then have j: "j < unat (cc_count c)" by simp
    have "e_point_id (queued c ! j) = e_point_id e \<longleftrightarrow> j = i"
      using queued_distinct [OF assms(1) j i(1)] k(2) ik by auto
    then show "(queued c)[i := e] ! j = coalesce e (queued c) ! j" using j by (auto simp: coalesce_def)
  qed (simp add: coalesce_def)
  finally have "queued ?c = coalesce e (queued c)" .
  moreover have "ring_inv ?c" using I by (simp add: ring_inv_def)
  ultimately show ?thesis using q by (intro exI [of _ ?c]) simp
qed

lemma q_push_miss:
  assumes "ring_inv c" "e_point_id e \<notin> e_point_id ` set (queued c)"
  shows "find (\<lambda>i. e_point_id (cc_queue c ! unat ((q_start c + i) mod cc_cap c)) = e_point_id e)
    (map word_of_nat [0..<unat (cc_count c)]) = None"
  unfolding find_None_iff
proof (safe)
  fix w assume "w \<in> set (map word_of_nat [0..<unat (cc_count c)])"
    and h: "e_point_id (cc_queue c ! unat ((q_start c + w) mod cc_cap c)) = e_point_id e"
  then obtain i where i: "i < unat (cc_count c)" "w = word_of_nat i" by auto
  then have "e_point_id (queued c ! i) = e_point_id e" using h by (simp add: queued_nth [OF assms(1)])
  moreover have "queued c ! i \<in> set (queued c)" using i(1) by simp
  ultimately show False using assms(2) by (metis image_eqI)
qed

lemma q_push_append:
  assumes r: "ring_inv c" and miss: "e_point_id e \<notin> e_point_id ` set (queued c)" and room: "unat (cc_count c) < unat (cc_cap c)"
  shows "\<exists>c'. q_push e c = (IRTCLI_OK, c') \<and> ring_inv c' \<and> queued c' = queued c @ [e] \<and> cc_cap c' = cc_cap c"
proof -
  note I = ring_invD [OF r]
  let ?c = "c\<lparr>cc_queue := (cc_queue c)[unat (cc_head c) := e], cc_head := (cc_head c + 1) mod cc_cap c,
     cc_count := cc_count c + 1\<rparr>"
  have q: "q_push e c = (IRTCLI_OK, ?c)"
    using room unfolding q_push_def Let_def q_push_miss [OF r miss] option.case by (simp add: word_le_nat_alt)
  have cnt: "unat (cc_count c + 1) = Suc (unat (cc_count c))" using room I(3) by (simp add: unat_word_ariths)
  have "unat (cc_head c + 1) = Suc (unat (cc_head c))" using I(3,4) by (simp add: unat_word_ariths)
  then have hd': "unat ((cc_head c + 1) mod cc_cap c) = Suc (unat (cc_head c)) mod unat (cc_cap c)"
    by (simp add: unat_mod)
  have inv: "ring_inv ?c" using I room cnt hd' by (simp add: ring_inv_def)
  have "unat (q_start ?c) = (Suc (unat (cc_head c)) mod unat (cc_cap c) + (unat (cc_cap c) - Suc (unat (cc_count c)))) mod unat (cc_cap c)"
    using q_start_nat [OF inv] room cnt hd' by simp
  also have "\<dots> = (Suc (unat (cc_head c)) + (unat (cc_cap c) - Suc (unat (cc_count c)))) mod unat (cc_cap c)"
    by (simp add: mod_simps)
  also have "\<dots> = unat (q_start c)"
  proof -
    have "Suc (unat (cc_head c)) + (unat (cc_cap c) - Suc (unat (cc_count c))) = unat (cc_head c) + unat (cc_cap c) - unat (cc_count c)"
      using room by arith
    then show ?thesis by (simp only: q_start_nat [OF r])
  qed
  finally have st: "unat (q_start ?c) = unat (q_start c)" .
  have "queued ?c = queued c @ [e]"
    unfolding queued_def st
    using window_push [of "unat (cc_count c)" "cc_queue c" "unat (q_start c)" e] room I(1) cnt head_after_queue [OF r] by simp
  then show ?thesis using q inv by (intro exI [of _ ?c]) simp
qed

lemma q_pop_spec:
  assumes r: "ring_inv c" and ne: "cc_count c \<noteq> 0"
  shows "\<exists>e c'. q_pop c = Some (e, c') \<and> ring_inv c' \<and> queued c = e # queued c' \<and> cc_cap c' = cc_cap c
    \<and> cc_count c' + 1 = cc_count c \<and> unat (cc_count c') < unat (cc_cap c)"
proof -
  note I = ring_invD [OF r]
  let ?c = "c\<lparr>cc_count := cc_count c - 1\<rparr>"
  have pos: "0 < unat (cc_count c)" using ne by (simp add: unat_gt_0)
  have cnt: "unat (cc_count c - 1) = unat (cc_count c) - 1" using ne by (rule unat_minus_one)
  have inv: "ring_inv ?c" using I cnt by (simp add: ring_inv_def)
  have "unat (q_start ?c) = (unat (cc_head c) + unat (cc_cap c) - (unat (cc_count c) - 1)) mod unat (cc_cap c)"
    using q_start_nat [OF inv] cnt by simp
  also have "\<dots> = Suc (unat (cc_head c) + unat (cc_cap c) - unat (cc_count c)) mod unat (cc_cap c)"
    using I(5) pos by (simp add: Suc_diff_le)
  also have "\<dots> = Suc (unat (q_start c)) mod unat (cc_cap c)"
    by (simp add: q_start_nat [OF r] mod_simps)
  finally have st: "unat (q_start ?c) = Suc (unat (q_start c)) mod unat (cc_cap c)" .
  have "unat (q_start c) < unat (cc_cap c)" using I(2) by (simp add: q_start_nat [OF r])
  then have "queued c = cc_queue c ! unat (q_start c) # queued ?c"
    unfolding queued_def st using window_pop [OF pos, of "cc_queue c" "unat (q_start c)"] I(1) cnt by simp
  moreover have "q_pop c = Some (cc_queue c ! unat (q_start c), ?c)" using ne by (simp add: q_pop_def)
  ultimately show ?thesis using inv cnt I(5) pos by simp
qed

lemma queue_pop_inv: "queue_inv c \<Longrightarrow> ring_inv c' \<Longrightarrow> queued c = e # queued c' \<Longrightarrow> queue_inv c'"
  by (simp add: queue_inv_def)

lemma coalesce_ids [simp]: "map e_point_id (coalesce e xs) = map e_point_id xs"
  by (induction xs) (simp_all add: coalesce_def)

definition queue_abst :: "irtcli \<Rightarrow> nat \<times> irtcli_entry list" where
  "queue_abst c = (unat (cc_cap c), queued c)"

lemma queue_step_refines:
  assumes "queue_inv c"
  shows "queue_inv (snd (queue_step cmd c)) \<and> queue_spec cmd (queue_abst c) = (fst (queue_step cmd c), queue_abst (snd (queue_step cmd c)))"
proof (cases cmd)
  case (Enqueue e)
  have r: "ring_inv c" and d: "distinct (map e_point_id (queued c))" using assms by (simp_all add: queue_inv_def)
  consider "e_point_id e \<in> e_point_id ` set (queued c)"
    | "e_point_id e \<notin> e_point_id ` set (queued c)" "unat (cc_count c) < unat (cc_cap c)"
    | "e_point_id e \<notin> e_point_id ` set (queued c)" "unat (cc_cap c) \<le> unat (cc_count c)" by linarith
  then show ?thesis
  proof cases
    case 1
    with q_push_hit [OF assms 1] d show ?thesis
      by (auto simp: Enqueue queue_abst_def queue_inv_def IRTCLI_OK_def)
  next
    case 2
    with q_push_append [OF r 2] d show ?thesis
      by (auto simp: Enqueue queue_abst_def queue_inv_def IRTCLI_OK_def)
  next
    case 3
    let ?c = "raise_alert ''irtcli: write queue full'' c"
    have q: "q_push e c = (IRTCLI_ERR_FULL, ?c)"
      using 3(2) unfolding q_push_def Let_def q_push_miss [OF r 3(1)] option.case by (simp add: word_le_nat_alt)
    have "queued ?c = queued c" "ring_inv ?c = ring_inv c" by (simp_all add: queued_def q_start_def ring_inv_def)
    then show ?thesis using 3 q assms by (simp add: Enqueue queue_abst_def queue_inv_def IRTCLI_ERR_FULL_def)
  qed
next
  case Dequeue
  show ?thesis
  proof (cases "cc_count c = 0")
    case True
    then have "queued c = []" by (simp add: queued_def)
    then show ?thesis using True assms by (simp add: Dequeue q_pop_def queue_abst_def)
  next
    case False
    have "ring_inv c" using assms by (simp add: queue_inv_def)
    from q_pop_spec [OF this False] obtain e c' where p: "q_pop c = Some (e, c')" "ring_inv c'" "queued c = e # queued c'"
        "cc_cap c' = cc_cap c" by blast
    then show ?thesis using queue_pop_inv [OF assms p(2,3)] by (simp add: Dequeue queue_abst_def)
  qed
qed

interpretation cliq: refinement queue_step queue_spec queue_inv queue_abst "\<lambda>_. True"
  using queue_step_refines by unfold_locales blast+

lemma init_queue:
  assumes "irtcli_init path cap alert True c0 = (IRTCLI_OK, c)"
  shows "queue_inv c" "queued c = []"
proof -
  obtain real where r: "real = (if cap = 0 then IRTCLI_QUEUE_CAP_DEFAULT else cap)" by simp
  have c: "real \<le> IRTCLI_QUEUE_CAP_MAX" "cc_cap c = real" "cc_head c = 0" "cc_count c = 0"
    "cc_queue c = replicate (unat real) zero_entry"
    using assms by (auto simp: irtcli_init_def r Let_def irtcli_codes split: option.splits if_splits)
  have "real \<noteq> 0" by (simp add: r IRTCLI_QUEUE_CAP_DEFAULT_def)
  then have "0 < unat real" by (simp add: unat_gt_0)
  moreover have "unat real \<le> 4096" using c(1) by (simp add: word_le_nat_alt IRTCLI_QUEUE_CAP_MAX_def)
  moreover show "queued c = []" by (simp add: queued_def c)
  ultimately show "queue_inv c" by (simp add: queue_inv_def ring_inv_def c)
qed

text \<open>
  C28. The write queue of the client is a bounded queue without duplicates: from its initialisation on,
  any sequence of enqueued and dequeued writes behaves as on a list, where a write of a point that is
  already queued replaces the queued one at its place, another one is appended, a full queue refuses
  it and keeps everything, and the oldest entry is taken first.
\<close>

theorem client_queue_coalesces:
  assumes "irtcli_init path cap alert True c0 = (IRTCLI_OK, c)"
  shows "run queue_spec cmds (unat (cc_cap c), []) =
      (fst (run queue_step cmds c), queue_abst (snd (run queue_step cmds c)))
    \<and> distinct (map e_point_id (queued (snd (run queue_step cmds c))))
    \<and> length (queued (snd (run queue_step cmds c))) \<le> unat (cc_cap (snd (run queue_step cmds c)))"
proof -
  note i = init_queue [OF assms]
  have "list_all (\<lambda>_. True) cmds" by (simp add: list_all_iff)
  note l = cliq.run_spec [OF i(1) this] cliq.run_inv [OF i(1) this]
  then show ?thesis using i(2) by (simp add: queue_abst_def queue_inv_def ring_inv_def)
qed

definition new_client :: irtcli where
  "new_client = \<lparr>cc_fd = 0, cc_connected = False, cc_sock_path = [], cc_queue = [], cc_cap = 0, cc_head = 0,
     cc_count = 0, cc_async = False, cc_alert = False, cc_partition = 0, cc_alerts = [],
     cc_io = \<lparr>io_rx = [], io_tx = [], io_env = [], io_cred = None\<rparr>, cc_net = []\<rparr>"

definition demo_entry :: "u32 \<Rightarrow> u64 \<Rightarrow> irtcli_entry" where
  "demo_entry pid v = \<lparr>e_point_id = pid, e_type = 1, e_value_bits = v, e_source_ts_ns = 3\<rparr>"

definition demo_client :: irtcli where
  "demo_client = snd (irtcli_init (Some ''s'') 2 True True new_client)"

lemma demo_client_init: "irtcli_init (Some ''s'') 2 True True new_client = (IRTCLI_OK, demo_client)"
  by (simp add: demo_client_def irtcli_init_def Let_def IRTCLI_QUEUE_CAP_MAX_def IRTCLI_SOCK_PATH_MAX_def)

theorem client_queue_coalesces_witness:
  "fst (run queue_step [Enqueue (demo_entry 1 10), Enqueue (demo_entry 2 20), Enqueue (demo_entry 1 11),
      Enqueue (demo_entry 3 30), Dequeue] demo_client)
    = [(0, None), (0, None), (0, None), (-2, None), (0, Some (demo_entry 1 11))]"
proof -
  have "cc_cap demo_client = 2" by (simp add: demo_client_def irtcli_init_def Let_def IRTCLI_QUEUE_CAP_MAX_def IRTCLI_SOCK_PATH_MAX_def)
  then show ?thesis
    using client_queue_coalesces [OF demo_client_init, of "[Enqueue (demo_entry 1 10), Enqueue (demo_entry 2 20),
        Enqueue (demo_entry 1 11), Enqueue (demo_entry 3 30), Dequeue]"]
    by (simp add: demo_entry_def coalesce_def)
qed

section \<open>Acknowledged writes on the wire\<close>

text \<open>
  What it means, independently of the client, that the daemon has acknowledged a write: all bytes of
  the request went out on a connection, and the next twelve bytes that came in on it are a header with
  the magic number, the version and the status OK.
\<close>

definition write_frame :: "irtcli_entry \<Rightarrow> u8 list" where
  "write_frame e = req_bytes RTDBD_OP_WRITE 24 @ entry_bytes e"

definition ok_header :: "u8 list \<Rightarrow> bool" where
  "ok_header bs \<longleftrightarrow> length bs = 12 \<and> rq_magic (req_hdr_of bs) = RTDBD_MAGIC
     \<and> rq_version (req_hdr_of bs) = RTDBD_PROTO_VERSION \<and> rq_opcode (req_hdr_of bs) = RTDBD_ST_OK"

definition acked :: "irtcli_entry \<Rightarrow> io \<Rightarrow> io \<Rightarrow> bool" where
  "acked e io io' \<longleftrightarrow> io_tx io' = io_tx io @ write_frame e
     \<and> (\<exists>bs. ok_header bs \<and> rx_data (io_rx io) = bs @ rx_data (io_rx io'))"

text \<open>
  The entries \<open>es\<close> were acknowledged in this order, starting on the connection \<open>io\<close> with the coming
  connections \<open>net\<close>; before an entry the connection may be given up for the next one that is accepted.
\<close>

inductive acknowledged ::
  "io \<times> connect_res list \<Rightarrow> irtcli_entry list \<Rightarrow> io \<times> connect_res list \<Rightarrow> bool" where
  acknowledged_none: "acknowledged w [] w"
| acknowledged_here: "acked e io io1 \<Longrightarrow> acknowledged (io1, net) es w \<Longrightarrow> acknowledged (io, net) (e # es) w"
| acknowledged_again: "acked e io1 io2 \<Longrightarrow> acknowledged (io2, net) es w \<Longrightarrow>
    acknowledged (io, Connects fd io1 # net) (e # es) w"

inductive_simps acknowledged_Nil [simp]: "acknowledged w [] w'"

lemma send_all_complete: "send_all bs rs = ((out, 0), rs') \<Longrightarrow> out = bs"
proof (induction bs rs arbitrary: out rs' rule: send_all.induct)
  case (2 bs r rs)
  show ?case
  proof (cases "bs \<noteq> [] \<and> (\<exists>k. r = Takes k)")
    case True
    then obtain k where k: "r = Takes k" "bs \<noteq> []" by blast
    then have tk: "take k bs \<noteq> []" using 2(3) by (auto split: if_splits)
    obtain out1 rc rs1 where s: "send_all (drop k bs) rs = ((out1, rc), rs1)" by (metis prod.collapse)
    then have "rc = 0" "out = take k bs @ out1" using 2(3) k tk by (auto split: if_splits)
    then show ?thesis using 2(1) [OF k(2,1) tk, of out1 rs1] s by simp
  qed (use 2 in \<open>auto split: send_res.splits if_splits\<close>)
qed simp

lemma recv_all_data: "recv_all n evs = (Some bs, evs') \<Longrightarrow> length bs = n \<and> rx_data evs = bs @ rx_data evs'"
proof (induction n evs arbitrary: bs evs' rule: recv_all.induct)
  case (1 len evs)
  show ?case
  proof (cases "len = 0")
    case False
    note r = 1(3) [unfolded recv_all.simps [of len evs]]
    show ?thesis
    proof (cases evs)
      case (Cons ev rest)
      show ?thesis
      proof (cases ev)
        case Rx_eintr
        then show ?thesis using r 1(2) [OF False Cons Rx_eintr, of bs evs'] Cons False by simp
      next
        case (Data xs)
        have ne: "xs \<noteq> []" using r Cons Data False by auto
        let ?rest = "if length xs \<le> len then rest else Data (drop len xs) # rest"
        obtain o1 evs1 where s: "recv_all (len - length (take len xs)) ?rest = (o1, evs1)" by (metis prod.collapse)
        then obtain ys where y: "o1 = Some ys" "bs = take len xs @ ys" "evs' = evs1"
          using r Cons Data False ne by (cases o1) (auto split: if_splits)
        from 1(1) [OF False Cons Data ne, of ys evs1] s y(1) have
          ih: "length ys = len - length (take len xs)" "rx_data ?rest = ys @ rx_data evs1" by auto
        have "rx_data evs = take len xs @ rx_data ?rest" using Cons Data by simp
        then show ?thesis using ih y(2,3) by simp
      qed (use r Cons False in simp)
    qed (use r False in simp)
  qed (use 1(3) in simp)
qed

lemma cli_send_complete:
  assumes "cli_send_all bs c = (0, d)"
  shows "\<exists>env. d = c\<lparr>cc_io := (cc_io c)\<lparr>io_tx := io_tx (cc_io c) @ bs, io_env := env\<rparr>\<rparr>"
proof -
  obtain out rc rs where s: "send_all bs (io_env (cc_io c)) = ((out, rc), rs)" by (metis prod.collapse)
  then have "rc = 0" "d = c\<lparr>cc_io := (cc_io c)\<lparr>io_tx := io_tx (cc_io c) @ out, io_env := rs\<rparr>\<rparr>"
    using assms by (auto simp: cli_send_all_def Let_def)
  then show ?thesis using s send_all_complete by blast
qed

lemma cli_recv_complete:
  assumes "cli_recv_all n c = (Some bs, d)"
  shows "\<exists>evs. d = c\<lparr>cc_io := (cc_io c)\<lparr>io_rx := evs\<rparr>\<rparr> \<and> length bs = n \<and> rx_data (io_rx (cc_io c)) = bs @ rx_data evs"
proof -
  obtain r evs where s: "recv_all n (io_rx (cc_io c)) = (r, evs)" by (metis prod.collapse)
  then have "r = Some bs" "d = c\<lparr>cc_io := (cc_io c)\<lparr>io_rx := evs\<rparr>\<rparr>" using assms by (auto simp: cli_recv_all_def Let_def)
  then show ?thesis using s recv_all_data by blast
qed

lemma submit_one_acked:
  assumes "submit_one e c = (IRTCLI_OK, d)"
  shows "acked e (cc_io c) (cc_io d) \<and> cc_net d = cc_net c"
proof -
  obtain rc1 c1 where s1: "cli_send_all (req_bytes RTDBD_OP_WRITE 24) c = (rc1, c1)" by (metis prod.collapse)
  obtain rc2 c2 where s2: "cli_send_all (entry_bytes e) c1 = (rc2, c2)" by (metis prod.collapse)
  obtain r c3 where s3: "cli_recv_all 12 c2 = (r, c3)" by (metis prod.collapse)
  have rc: "rc1 = 0" "rc2 = 0" and r: "r \<noteq> None"
    using assms s1 s2 s3 by (auto simp: submit_one_def irtcli_codes Let_def split: if_splits option.splits)
  from r obtain bs where bs: "r = Some bs" by blast
  have d: "d = c3" "rq_magic (req_hdr_of bs) = RTDBD_MAGIC" "rq_version (req_hdr_of bs) = RTDBD_PROTO_VERSION"
      "rq_opcode (req_hdr_of bs) = RTDBD_ST_OK"
    using assms s1 s2 s3 rc bs by (auto simp: submit_one_def irtcli_codes Let_def split: if_splits)
  from cli_send_complete [OF s1 [unfolded rc(1)]] cli_send_complete [OF s2 [unfolded rc(2)]]
    cli_recv_complete [OF s3 [unfolded bs]] d(1)
  have "io_tx (cc_io d) = io_tx (cc_io c) @ write_frame e" "cc_net d = cc_net c" "length bs = 12"
      "rx_data (io_rx (cc_io c)) = bs @ rx_data (io_rx (cc_io d))"
    by (auto simp: write_frame_def)
  then show ?thesis using d(2-4) by (auto simp: acked_def ok_header_def)
qed

lemma cli_io_net:
  "cc_net (snd (cli_send_all bs c)) = cc_net c" "cc_net (snd (cli_recv_all n c)) = cc_net c"
  by (simp_all add: cli_send_all_def cli_recv_all_def Let_def split_beta)

lemma submit_one_net: "cc_net (snd (submit_one e c)) = cc_net c"
  by (auto simp: submit_one_def split_beta Let_def cli_io_net split: option.split)

lemma irtcli_connect_ok:
  "irtcli_connect c = (IRTCLI_OK, d) \<Longrightarrow> \<exists>fd. cc_net c = Connects fd (cc_io d) # cc_net d"
  by (auto simp: irtcli_connect_def Let_def irtcli_codes split: if_splits list.splits connect_res.splits)

text \<open>A submission that succeeds, on the connection in use or on the next one.\<close>

lemma submit_retry_acked:
  assumes "submit_retry e c = (IRTCLI_OK, d)"
  shows "acked e (cc_io c) (cc_io d) \<and> cc_net d = cc_net c
    \<or> (\<exists>fd io1. cc_net c = Connects fd io1 # cc_net d \<and> acked e io1 (cc_io d))"
proof -
  obtain rc c1 where s: "submit_one e c = (rc, c1)" by (metis prod.collapse)
  show ?thesis
  proof (cases "rc = IRTCLI_ERR_IO")
    case False
    then show ?thesis using assms s submit_one_acked [of e c d] by (simp add: submit_retry_def)
  next
    case True
    obtain crc c2 where k: "irtcli_connect (c1\<lparr>cc_connected := False\<rparr>) = (crc, c2)" by (metis prod.collapse)
    have "crc = IRTCLI_OK" "submit_one e c2 = (IRTCLI_OK, d)"
      using assms s True k by (auto simp: submit_retry_def irtcli_codes split: if_splits)
    then show ?thesis
      using irtcli_connect_ok [of "c1\<lparr>cc_connected := False\<rparr>" c2] k submit_one_acked [of e c2 d] submit_one_net [of e c] s
      by auto
  qed
qed

section \<open>What a flush submits\<close>

text \<open>From \<open>c\<close> to \<open>d\<close> the entries \<open>es\<close> were taken from the queue and acknowledged, in this order.\<close>

inductive submits :: "irtcli \<Rightarrow> irtcli_entry list \<Rightarrow> irtcli \<Rightarrow> bool" where
  submits_none: "submits c [] c"
| submits_next: "q_pop c = Some (e, c1) \<Longrightarrow> submit_retry e c1 = (IRTCLI_OK, c2) \<Longrightarrow> submits c2 es d \<Longrightarrow> submits c (e # es) d"

inductive_cases submits_NilE: "submits c [] d"
inductive_cases submits_ConsE: "submits c (e # es) d"

lemma same_queue_queued:
  assumes "same_queue c d"
  shows "queued d = queued c" "ring_inv d = ring_inv c" "queue_inv d = queue_inv c"
proof -
  show "queued d = queued c" "ring_inv d = ring_inv c"
    using assms by (simp_all add: queued_def q_start_def ring_inv_def same_queue_def)
  then show "queue_inv d = queue_inv c" by (simp add: queue_inv_def)
qed

lemma submits_queue: "submits c es d \<Longrightarrow> ring_inv c \<Longrightarrow> ring_inv d \<and> queued c = es @ queued d"
proof (induction rule: submits.induct)
  case (submits_next c e c1 c2 es d)
  have "cc_count c \<noteq> 0" using submits_next.hyps(1) by (auto simp: q_pop_def)
  from q_pop_spec [OF submits_next.prems this] submits_next.hyps(1)
  have p: "ring_inv c1" "queued c = e # queued c1" by auto
  have "same_queue c1 c2" using submit_retry_same_queue [of c1 e] submits_next.hyps(2) by simp
  from submits_next.IH same_queue_queued [OF this] p show ?case by simp
qed simp

lemma submits_acknowledged: "submits c es d \<Longrightarrow> acknowledged (cc_io c, cc_net c) es (cc_io d, cc_net d)"
proof (induction rule: submits.induct)
  case (submits_next c e c1 c2 es d)
  have "cc_io c1 = cc_io c" "cc_net c1 = cc_net c" using submits_next.hyps(1) by (auto simp: q_pop_def split: if_splits)
  then show ?case
    using submit_retry_acked [OF submits_next.hyps(2)] submits_next.IH
    by (auto intro: acknowledged_here acknowledged_again)
qed simp

text \<open>How a flush stops at an entry that cannot be submitted: the entry goes back to the queue.\<close>

definition retained :: "irtcli \<Rightarrow> irtcli" where
  "retained c = (raise_alert ''irtcli: submit failed, entry retained'' c)\<lparr>cc_count := cc_count c + 1\<rparr>"

definition stops_at :: "irtcli_entry \<Rightarrow> irtcli \<Rightarrow> irtcli \<Rightarrow> bool" where
  "stops_at e d c' \<longleftrightarrow> (\<exists>d1 rc d2. q_pop d = Some (e, d1) \<and> submit_retry e d1 = (rc, d2) \<and> rc \<noteq> IRTCLI_OK \<and> c' = retained d2)"

lemma pop_restore:
  assumes "ring_inv c" "q_pop c = Some (e, c1)" "same_queue c1 c2"
  shows "same_queue c ((raise_alert m c2)\<lparr>cc_count := cc_count c2 + 1\<rparr>)"
  using assms by (auto simp: q_pop_def same_queue_def split: if_splits)

lemma flush_loop_submits:
  "ring_inv c \<Longrightarrow> flush_loop c k = (n, c') \<Longrightarrow>
     \<exists>es d. submits c es d \<and> n = k + int (length es) \<and> same_queue d c'
       \<and> (queued c' = [] \<and> c' = d \<or> (\<exists>e. stops_at e d c'))"
proof (induction c k rule: flush_loop.induct)
  case (1 c k)
  show ?case
  proof (cases "q_pop c")
    case None
    then have "c' = c" "n = k" using 1(3) by (simp_all add: flush_loop.simps)
    moreover have "queued c = []" using None by (simp add: q_pop_def queued_def split: if_splits)
    ultimately have "submits c [] c \<and> n = k + int (length ([] :: irtcli_entry list)) \<and> same_queue c c' \<and> queued c' = [] \<and> c' = c"
      by (auto intro: submits_none simp: same_queue_def)
    then show ?thesis by blast
  next
    case (Some p)
    obtain e c1 where p: "p = (e, c1)" by (cases p)
    obtain rc c2 where s: "submit_retry e c1 = (rc, c2)" by (metis prod.collapse)
    have sq: "same_queue c1 c2" using submit_retry_same_queue [of c1 e] s by simp
    show ?thesis
    proof (cases "rc = IRTCLI_OK")
      case False
      have c': "c' = retained c2" "n = k" using 1(3) Some p s False by (simp_all add: flush_loop.simps retained_def)
      moreover have "same_queue c c'" using pop_restore [OF 1(2) _ sq] Some p c'(1) by (simp add: retained_def)
      ultimately have "submits c [] c \<and> n = k + int (length ([] :: irtcli_entry list)) \<and> same_queue c c' \<and> stops_at e c c'"
        using Some p s False by (auto intro: submits_none simp: stops_at_def)
      then show ?thesis by blast
    next
      case True
      have ne: "cc_count c \<noteq> 0" using Some p by (auto simp: q_pop_def)
      have r1: "ring_inv c1" using q_pop_spec [OF 1(2) ne] Some p by auto
      have "ring_inv c2" using same_queue_queued(2) [OF sq] r1 by simp
      moreover have "flush_loop c2 (k + 1) = (n, c')" using 1(3) Some p s True by (simp add: flush_loop.simps [of c])
      ultimately obtain es d where d: "submits c2 es d" "n = (k + 1) + int (length es)" "same_queue d c'"
        "queued c' = [] \<and> c' = d \<or> (\<exists>e. stops_at e d c')"
        using 1(1) [OF Some p [symmetric] s [symmetric]] True by blast
      have "submits c (e # es) d" using submits_next [of c e c1 c2 es d] Some p s True d(1) by simp
      then show ?thesis using d(2-4) by (intro exI [of _ "e # es"] exI [of _ d]) simp
    qed
  qed
qed

lemma ensure_connected_same: "same_queue c (snd (ensure_connected c))"
  using io_same_queue(3) [of c] by (simp add: ensure_connected_def same_queue_def split_beta Let_def)

text \<open>
  C15. A flush loses nothing and reorders nothing: whatever the network does, the entries that left the
  queue are a prefix of it, the result is their number, and the rest is queued as before. Each of them
  was acknowledged on the wire, in order, on the connections that the client really has: its request
  was written completely and a positive response was read, beginning with the connection in use (the
  one that is established first when there is none) and going on with those that the network offers.
  The flush does nothing else to the client: it does not run at all with an empty queue or without a
  connection; it ends with the queue empty, or at the first entry whose submission, with one
  reconnection, fails, and that entry is the first of the queue again.
\<close>

theorem flush_submits_prefix:
  assumes "queue_inv c" "irtcli_flush c = (n, c')"
  defines "c0 \<equiv> snd (ensure_connected c)"
  shows "queue_inv c' \<and>
    (if queued c = [] then n = 0 \<and> c' = c
     else if \<not> fst (ensure_connected c) then n = 0 \<and> c' = c0 \<and> queued c' = queued c
     else \<exists>es d. submits c0 es d \<and> acknowledged (cc_io c0, cc_net c0) es (cc_io d, cc_net d)
       \<and> n = int (length es) \<and> queued c = es @ queued c'
       \<and> (queued c' = [] \<and> c' = d \<or> queued c' \<noteq> [] \<and> stops_at (hd (queued c')) d c'))"
proof -
  obtain ok where e: "ensure_connected c = (ok, c0)" unfolding c0_def by (metis prod.collapse)
  have sq: "same_queue c c0" using ensure_connected_same [of c] e by simp
  have r: "ring_inv c0" using assms(1) same_queue_queued [OF sq] by (simp add: queue_inv_def)
  have empty: "queued c = [] \<longleftrightarrow> cc_count c = 0" using queued_length [of c] by (metis length_0_conv unat_eq_zero)
  consider "queued c = []" "n = 0" "c' = c" | "queued c \<noteq> []" "\<not> ok" "n = 0" "c' = c0"
    | "queued c \<noteq> []" "ok" "flush_loop c0 0 = (n, c')"
    using assms(2) e empty by (auto simp: irtcli_flush_def split: if_splits)
  then show ?thesis
  proof cases
    case 1
    then show ?thesis using assms(1) by simp
  next
    case 2
    then show ?thesis using assms(1) e same_queue_queued [OF sq] by simp
  next
    case 3
    from flush_loop_submits [OF r 3(3)] obtain es d where d: "submits c0 es d" "n = int (length es)" "same_queue d c'"
      "queued c' = [] \<and> c' = d \<or> (\<exists>e. stops_at e d c')"
      by auto
    have q: "ring_inv c'" "ring_inv d" "queued d = queued c'" "queued c = es @ queued c'"
      using submits_queue [OF d(1) r] same_queue_queued [OF d(3)] same_queue_queued [OF sq] by simp_all
    have inv: "queue_inv c'" using assms(1) q by (simp add: queue_inv_def)
    have "queued c' \<noteq> [] \<and> stops_at (hd (queued c')) d c'" if "stops_at e d c'" for e
    proof -
      have "cc_count d \<noteq> 0" using that by (auto simp: stops_at_def q_pop_def)
      from q_pop_spec [OF q(2) this] that have "queued d \<noteq> []" "hd (queued d) = e" by (auto simp: stops_at_def)
      then show ?thesis using that q(3) by simp
    qed
    then show ?thesis using inv 3(1,2) e d(1,2,4) submits_acknowledged [OF d(1)] q(4) by auto
  qed
qed

section \<open>A flush against a daemon that answers\<close>

definition ack_bytes :: "u8 list" where
  "ack_bytes = hdr_bytes RTDBD_MAGIC RTDBD_PROTO_VERSION RTDBD_ST_OK 0"

text \<open>The connection takes what is sent and delivers \<open>n\<close> positive responses, in any pieces.\<close>

definition answers_ok :: "nat \<Rightarrow> io \<Rightarrow> bool" where
  "answers_ok n io \<longleftrightarrow> io_env io = [] \<and> rx_sound (io_rx io) \<and> rx_data (io_rx io) = concat (replicate n ack_bytes)"

lemma ack_bytes_length [simp]: "length ack_bytes = 12"
  by (simp add: ack_bytes_def)

lemma req_hdr_of_bytes [simp]:
  "req_hdr_of (hdr_bytes mg v opc len) = \<lparr>rq_magic = mg, rq_version = v, rq_opcode = opc, rq_len = len\<rparr>"
  by (simp add: req_hdr_of_def hdr_bytes_def)

lemma submit_ok:
  assumes "answers_ok (Suc n) (cc_io c)"
  shows "\<exists>io. submit_one e c = (IRTCLI_OK, c\<lparr>cc_io := io\<rparr>) \<and> answers_ok n io \<and> io_tx io = io_tx (cc_io c) @ write_frame e"
proof -
  note a = assms [unfolded answers_ok_def]
  from recv_all_take [of "io_rx (cc_io c)" 12] a obtain evs where
    r: "recv_all 12 (io_rx (cc_io c)) = (Some ack_bytes, evs)" "rx_data evs = concat (replicate n ack_bytes)" "rx_sound evs"
    by auto
  let ?io = "(cc_io c)\<lparr>io_tx := io_tx (cc_io c) @ write_frame e, io_rx := evs\<rparr>"
  have "submit_one e c = (IRTCLI_OK, c\<lparr>cc_io := ?io\<rparr>)"
    using a r(1) by (simp add: submit_one_def cli_send_all_def cli_recv_all_def Let_def write_frame_def ack_bytes_def)
  moreover have "answers_ok n ?io" using a r by (simp add: answers_ok_def)
  ultimately show ?thesis by (intro exI [of _ ?io]) simp
qed

lemma retry_ok: "submit_one e c = (IRTCLI_OK, c') \<Longrightarrow> submit_retry e c = (IRTCLI_OK, c')"
  by (simp add: submit_retry_def irtcli_codes)

lemma flush_loop_ok:
  "ring_inv c \<Longrightarrow> queued c = es \<Longrightarrow> answers_ok (length es) (cc_io c) \<Longrightarrow>
     \<exists>c'. flush_loop c k = (k + int (length es), c') \<and> queued c' = [] \<and> io_tx (cc_io c') = io_tx (cc_io c) @ concat (map write_frame es)"
proof (induction es arbitrary: c k)
  case Nil
  then have "q_pop c = None" using queued_length [of c] by (simp add: q_pop_def unat_eq_0)
  then show ?case using Nil by (simp add: flush_loop.simps [of c])
next
  case (Cons e es)
  have ne: "cc_count c \<noteq> 0" using Cons.prems(2) queued_length [of c] by auto
  from q_pop_spec [OF Cons.prems(1) ne] Cons.prems(2) obtain c1 where
    p: "q_pop c = Some (e, c1)" "ring_inv c1" "queued c1 = es" by auto
  have io: "cc_io c1 = cc_io c" using p(1) by (auto simp: q_pop_def split: if_splits)
  have "answers_ok (Suc (length es)) (cc_io c1)" using Cons.prems(3) io by simp
  from submit_ok [OF this, of e] obtain io where
    s: "submit_one e c1 = (IRTCLI_OK, c1\<lparr>cc_io := io\<rparr>)" "answers_ok (length es) io" "io_tx io = io_tx (cc_io c) @ write_frame e"
    using io by auto
  let ?c2 = "c1\<lparr>cc_io := io\<rparr>"
  have sq: "same_queue c1 ?c2" by (simp add: same_queue_def)
  from Cons.IH [of ?c2 "k + 1"] same_queue_queued [OF sq] p s obtain c' where
    f: "flush_loop ?c2 (k + 1) = (k + 1 + int (length es), c')" "queued c' = []"
      "io_tx (cc_io c') = io_tx io @ concat (map write_frame es)" by auto
  have "flush_loop c k = flush_loop ?c2 (k + 1)"
    using p(1) retry_ok [OF s(1)] by (simp add: flush_loop.simps [of c])
  then show ?case using f s(3) by simp
qed

text \<open>
  A connection whose daemon is gone: no complete response comes any more, because the peer has closed
  or reset it; whether the sends still succeed, fail or are cut short makes no difference.
\<close>

definition daemon_gone :: "io \<Rightarrow> bool" where
  "daemon_gone io \<longleftrightarrow> length (rx_data (io_rx io)) < 12"

lemma send_gone:
  assumes "daemon_gone (cc_io x)" "cli_send_all bs x = (rc, y)"
  shows "\<exists>io. y = x\<lparr>cc_io := io\<rparr> \<and> daemon_gone io"
proof -
  obtain out rc' rs where s: "send_all bs (io_env (cc_io x)) = ((out, rc'), rs)" by (metis prod.collapse)
  then have "y = x\<lparr>cc_io := (cc_io x)\<lparr>io_tx := io_tx (cc_io x) @ out, io_env := rs\<rparr>\<rparr>"
    using assms(2) by (auto simp: cli_send_all_def Let_def)
  then show ?thesis using assms(1) by (intro exI [of _ "(cc_io x)\<lparr>io_tx := io_tx (cc_io x) @ out, io_env := rs\<rparr>"])
      (simp add: daemon_gone_def)
qed

lemma recv_gone:
  assumes "daemon_gone (cc_io x)" "cli_recv_all 12 x = (r, y)"
  shows "r = None \<and> (\<exists>io. y = x\<lparr>cc_io := io\<rparr>)"
proof
  show "r = None" using cli_recv_complete [of 12 x _ y] assms by (cases r) (auto simp: daemon_gone_def)
  show "\<exists>io. y = x\<lparr>cc_io := io\<rparr>" using assms(2) by (auto simp: cli_recv_all_def Let_def split_beta)
qed

lemma submit_dead:
  assumes "daemon_gone (cc_io c)"
  shows "\<exists>io. submit_one e c = (IRTCLI_ERR_IO, c\<lparr>cc_io := io\<rparr>)"
proof -
  obtain rc1 c1 where s1: "cli_send_all (req_bytes RTDBD_OP_WRITE 24) c = (rc1, c1)" by (metis prod.collapse)
  obtain rc2 c2 where s2: "cli_send_all (entry_bytes e) c1 = (rc2, c2)" by (metis prod.collapse)
  obtain r c3 where s3: "cli_recv_all 12 c2 = (r, c3)" by (metis prod.collapse)
  from send_gone [OF assms s1] obtain io1 where 1: "c1 = c\<lparr>cc_io := io1\<rparr>" "daemon_gone io1" by blast
  with send_gone [OF _ s2] obtain io2 where 2: "c2 = c\<lparr>cc_io := io2\<rparr>" "daemon_gone io2" by auto
  with recv_gone [OF _ s3] obtain io3 where 3: "r = None" "c3 = c\<lparr>cc_io := io3\<rparr>" by auto
  show ?thesis using s1 s2 s3 1(1) 2(1) 3 by (auto simp: submit_one_def)
qed

text \<open>
  C27. One flush replays the whole queue after the daemon was restarted: when the client is not
  connected, or still holds the connection to the daemon that is gone, whether its sends still seem to
  work or fail, and the new daemon accepts the connection and acknowledges the writes, a single flush
  submits every queued entry once on the new connection, in order, with its original time stamp, and
  leaves the queue empty.
\<close>

theorem flush_replays_after_restart:
  assumes "queue_inv c" "queued c \<noteq> []" "length (cc_sock_path c) < 108"
    "cc_connected c \<Longrightarrow> daemon_gone (cc_io c)"
    "cc_net c = Connects fd io # net" "answers_ok (length (queued c)) io"
  shows "\<exists>c'. irtcli_flush c = (int (length (queued c)), c') \<and> queued c' = []
    \<and> io_tx (cc_io c') = io_tx io @ concat (map write_frame (queued c))"
proof -
  have r: "ring_inv c" using assms(1) by (simp add: queue_inv_def)
  have ne: "cc_count c \<noteq> 0" using assms(2) by (auto simp: queued_def)
  have conn: "\<exists>d. irtcli_connect x = (IRTCLI_OK, d) \<and> same_queue x d \<and> cc_io d = io"
    if "cc_net x = Connects fd io # net" "cc_sock_path x = cc_sock_path c" for x
    using that assms(3) by (auto simp: irtcli_connect_def Let_def same_queue_def)
  show ?thesis
  proof (cases "cc_connected c")
    case False
    from conn [of c] assms(5) obtain d where d: "irtcli_connect c = (IRTCLI_OK, d)" "same_queue c d" "cc_io d = io" by auto
    have "irtcli_flush c = flush_loop d 0"
      using ne False d(1) by (simp add: irtcli_flush_def ensure_connected_def)
    then show ?thesis
      using flush_loop_ok [of d "queued c" 0] same_queue_queued [OF d(2)] r d(3) assms(6) by simp
  next
    case True
    from q_pop_spec [OF r ne] obtain e c1 where p: "q_pop c = Some (e, c1)" "ring_inv c1" "queued c = e # queued c1" by blast
    have c1: "cc_io c1 = cc_io c" "cc_net c1 = cc_net c" "cc_sock_path c1 = cc_sock_path c"
      using p(1) by (auto simp: q_pop_def split: if_splits)
    from submit_dead [of c1 e] c1(1) assms(4) [OF True] obtain io1 where
      s: "submit_one e c1 = (IRTCLI_ERR_IO, c1\<lparr>cc_io := io1\<rparr>)" by auto
    let ?c2 = "c1\<lparr>cc_io := io1, cc_connected := False\<rparr>"
    from conn [of ?c2] c1 assms(5) obtain d where d: "irtcli_connect ?c2 = (IRTCLI_OK, d)" "same_queue ?c2 d" "cc_io d = io" by auto
    have "answers_ok (Suc (length (queued c1))) (cc_io d)" using assms(6) p(3) d(3) by simp
    from submit_ok [OF this, of e] obtain io2 where
      o: "submit_one e d = (IRTCLI_OK, d\<lparr>cc_io := io2\<rparr>)" "answers_ok (length (queued c1)) io2"
        "io_tx io2 = io_tx io @ write_frame e" using d(3) by auto
    have sr: "submit_retry e c1 = (IRTCLI_OK, d\<lparr>cc_io := io2\<rparr>)"
      using s d(1) o(1) by (simp add: submit_retry_def irtcli_codes)
    let ?d = "d\<lparr>cc_io := io2\<rparr>"
    have sq: "same_queue c1 ?d" using d(2) by (simp add: same_queue_def)
    from flush_loop_ok [of ?d "queued c1" 1] same_queue_queued [OF sq] p(2) o(2) obtain c' where
      f: "flush_loop ?d 1 = (1 + int (length (queued c1)), c')" "queued c' = []"
        "io_tx (cc_io c') = io_tx io2 @ concat (map write_frame (queued c1))" by auto
    have "irtcli_flush c = flush_loop ?d 1"
      using ne True p(1) sr by (simp add: irtcli_flush_def ensure_connected_def flush_loop.simps [of c])
    then show ?thesis using f o(3) p(3) by simp
  qed
qed

text \<open>Two queued writes and a daemon that will accept a connection and acknowledge them.\<close>

definition demo_answers :: io where
  "demo_answers = \<lparr>io_rx = [Data (ack_bytes @ take 5 ack_bytes), Rx_eintr, Data (drop 5 ack_bytes)], io_tx = [], io_env = [],
     io_cred = None\<rparr>"

definition demo_flush :: irtcli where
  "demo_flush = (snd (run queue_step [Enqueue (demo_entry 1 10), Enqueue (demo_entry 2 20)] demo_client))
     \<lparr>cc_net := [Connects 4 demo_answers]\<rparr>"

lemma q_push_world: "cc_connected (snd (q_push e c)) = cc_connected c \<and> cc_sock_path (snd (q_push e c)) = cc_sock_path c"
  by (simp add: q_push_def raise_alert_def Let_def split: option.split)

lemma demo_flush:
  "queue_inv demo_flush" "queued demo_flush = [demo_entry 1 10, demo_entry 2 20]"
  "\<not> cc_connected demo_flush" "cc_sock_path demo_flush = ''s''" "cc_net demo_flush = [Connects 4 demo_answers]"
proof -
  let ?cmds = "[Enqueue (demo_entry 1 10), Enqueue (demo_entry 2 20)]"
  have init: "cc_cap demo_client = 2" "cc_connected demo_client = False" "cc_sock_path demo_client = ''s''"
    by (simp_all add: demo_client_def irtcli_init_def Let_def IRTCLI_QUEUE_CAP_MAX_def IRTCLI_SOCK_PATH_MAX_def)
  note i = init_queue [OF demo_client_init]
  have "list_all (\<lambda>_. True) ?cmds" by simp
  note l = cliq.run_spec [OF i(1) this] cliq.run_inv [OF i(1) this]
  have sq: "same_queue (snd (run queue_step ?cmds demo_client)) demo_flush"
    by (simp add: demo_flush_def same_queue_def)
  show "queue_inv demo_flush" using l(2) same_queue_queued(3) [OF sq] by simp
  show "queued demo_flush = [demo_entry 1 10, demo_entry 2 20]"
    using l(1) i(2) init(1) same_queue_queued(1) [OF sq] by (simp add: queue_abst_def demo_entry_def split_beta Let_def)
  show "\<not> cc_connected demo_flush" "cc_sock_path demo_flush = ''s''"
    using init q_push_world by (simp_all add: demo_flush_def split_beta Let_def)
  show "cc_net demo_flush = [Connects 4 demo_answers]" by (simp add: demo_flush_def)
qed

lemma demo_answers_ok: "answers_ok 2 demo_answers"
proof -
  have "drop 5 ack_bytes \<noteq> []" using ack_bytes_length by (simp add: ack_bytes_def)
  then have "rx_sound (io_rx demo_answers)" by (simp add: demo_answers_def rx_sound_def) (metis ack_bytes_length list.size(3) zero_neq_numeral)
  moreover have "rx_data (io_rx demo_answers) = ack_bytes @ ack_bytes"
    by (simp add: demo_answers_def)
  ultimately show ?thesis by (simp add: answers_ok_def demo_answers_def numeral_2_eq_2)
qed

text \<open>The same client still connected to a daemon that has gone: its next send fails.\<close>

definition demo_stale :: irtcli where
  "demo_stale = demo_flush\<lparr>cc_fd := 3, cc_connected := True,
     cc_io := \<lparr>io_rx = [], io_tx = [], io_env = [Send_fails], io_cred = None\<rparr>\<rparr>"

lemma demo_stale:
  "queue_inv demo_stale" "queued demo_stale = [demo_entry 1 10, demo_entry 2 20]" "daemon_gone (cc_io demo_stale)"
  "cc_sock_path demo_stale = ''s''" "cc_net demo_stale = [Connects 4 demo_answers]"
proof -
  have "same_queue demo_flush demo_stale" by (simp add: demo_stale_def same_queue_def)
  from same_queue_queued [OF this] show "queue_inv demo_stale" "queued demo_stale = [demo_entry 1 10, demo_entry 2 20]"
    using demo_flush(1,2) by simp_all
  show "daemon_gone (cc_io demo_stale)" "cc_sock_path demo_stale = ''s''" "cc_net demo_stale = [Connects 4 demo_answers]"
    using demo_flush(4,5) by (simp_all add: demo_stale_def daemon_gone_def)
qed

theorem flush_replays_after_restart_witness:
  "\<exists>c'. irtcli_flush demo_stale = (2, c') \<and> queued c' = []
     \<and> io_tx (cc_io c') = write_frame (demo_entry 1 10) @ write_frame (demo_entry 2 20)"
  using flush_replays_after_restart [OF demo_stale(1), of 4 demo_answers "[]"] demo_stale demo_answers_ok
  by (simp add: numeral_2_eq_2) (simp add: demo_answers_def)

text \<open>A daemon that acknowledges one write and then closes the connection.\<close>

definition demo_one_ack :: io where
  "demo_one_ack = \<lparr>io_rx = [Data ack_bytes], io_tx = [], io_env = [], io_cred = None\<rparr>"

definition demo_half :: irtcli where
  "demo_half = demo_flush\<lparr>cc_net := [Connects 4 demo_one_ack]\<rparr>"

definition demo_half_connected :: irtcli where
  "demo_half_connected = demo_half\<lparr>cc_fd := 4, cc_connected := True, cc_io := demo_one_ack, cc_net := []\<rparr>"

lemma demo_half:
  "queue_inv demo_half" "queued demo_half = [demo_entry 1 10, demo_entry 2 20]"
  "ensure_connected demo_half = (True, demo_half_connected)"
proof -
  have "same_queue demo_flush demo_half" by (simp add: demo_half_def same_queue_def)
  from same_queue_queued [OF this] show "queue_inv demo_half" "queued demo_half = [demo_entry 1 10, demo_entry 2 20]"
    using demo_flush(1,2) by simp_all
  show "ensure_connected demo_half = (True, demo_half_connected)"
    using demo_flush(3,4) by (cases "0 \<le> cc_fd demo_flush")
      (simp_all add: demo_half_connected_def demo_half_def ensure_connected_def irtcli_connect_def irtcli_codes Let_def)
qed

lemma acknowledged_data:
  "acknowledged w es w' \<Longrightarrow> snd w = [] \<Longrightarrow>
     snd w' = [] \<and> length (rx_data (io_rx (fst w))) = 12 * length es + length (rx_data (io_rx (fst w')))"
  by (induction rule: acknowledged.induct) (auto simp: acked_def ok_header_def)

lemma demo_first_ack: "\<exists>d. submit_retry e (demo_half_connected\<lparr>cc_count := n\<rparr>) = (IRTCLI_OK, d)"
proof -
  have "ack_bytes \<noteq> []" using ack_bytes_length by (metis list.size(3) zero_neq_numeral)
  then have "answers_ok (Suc 0) demo_one_ack" by (simp add: answers_ok_def demo_one_ack_def rx_sound_def)
  then show ?thesis
    using submit_ok [of 0 "demo_half_connected\<lparr>cc_count := n\<rparr>" e] retry_ok by (fastforce simp: demo_half_connected_def)
qed

theorem flush_submits_prefix_witness:
  "\<exists>c' io. irtcli_flush demo_half = (1, c') \<and> queued c' = [demo_entry 2 20]
     \<and> acknowledged (demo_one_ack, []) [demo_entry 1 10] (io, [])"
proof -
  obtain n c' where f: "irtcli_flush demo_half = (n, c')" by (metis prod.collapse)
  note p = flush_submits_prefix [OF demo_half(1) f, unfolded demo_half(2,3) fst_conv snd_conv, THEN conjunct2]
  have "\<exists>es d. submits demo_half_connected es d
      \<and> acknowledged (cc_io demo_half_connected, cc_net demo_half_connected) es (cc_io d, cc_net d)
      \<and> n = int (length es) \<and> [demo_entry 1 10, demo_entry 2 20] = es @ queued c'
      \<and> (queued c' = [] \<and> c' = d \<or> queued c' \<noteq> [] \<and> stops_at (hd (queued c')) d c')"
    using p by (simp only: list.distinct if_False not_True_eq_False)
  then obtain es d where
    d: "submits demo_half_connected es d" "acknowledged (cc_io demo_half_connected, cc_net demo_half_connected) es (cc_io d, cc_net d)"
      "n = int (length es)" "[demo_entry 1 10, demo_entry 2 20] = es @ queued c'"
      "queued c' = [] \<and> c' = d \<or> queued c' \<noteq> [] \<and> stops_at (hd (queued c')) d c'"
    by (elim exE conjE)
  have io: "(cc_io demo_half_connected, cc_net demo_half_connected) = (demo_one_ack, [])"
    by (simp add: demo_half_connected_def)
  have "length es \<le> 1"
    using acknowledged_data [OF d(2) [unfolded io]] by (simp add: demo_one_ack_def)
  moreover have "es \<noteq> []"
  proof
    assume e: "es = []"
    then have "d = demo_half_connected" "stops_at (hd (queued c')) d c'" using d(1,4,5) by (auto elim: submits_NilE)
    then obtain d1 rc d2 where "q_pop demo_half_connected = Some (hd (queued c'), d1)"
        "submit_retry (hd (queued c')) d1 = (rc, d2)" "rc \<noteq> IRTCLI_OK"
      by (auto simp: stops_at_def)
    moreover from this(1) have "d1 = demo_half_connected\<lparr>cc_count := cc_count demo_half_connected - 1\<rparr>"
      by (simp add: q_pop_def split: if_splits)
    ultimately show False
      using demo_first_ack [of "hd (queued c')" "cc_count demo_half_connected - 1"] by auto
  qed
  ultimately have es: "es = [demo_entry 1 10]" "queued c' = [demo_entry 2 20]"
    using d(4) by (cases es; cases "tl es"; auto)+
  have "cc_net d = []" using acknowledged_data [OF d(2) [unfolded io]] by simp
  then show ?thesis using f d(2,3) es io by auto
qed

section \<open>Requests and responses across the wire\<close>

lemma entry_bytes_length [simp]: "length (entry_bytes e) = 24"
  by (simp add: entry_bytes_def)

lemma of_le_le64 [simp]: "of_le (le64 w) = w"
proof (rule bit_word_eqI)
  fix n :: nat
  assume "n < LENGTH(64)"
  then consider "n < 8" | "8 \<le> n" "n < 16" | "16 \<le> n" "n < 24" | "24 \<le> n" "n < 32"
    | "32 \<le> n" "n < 40" | "40 \<le> n" "n < 48" | "48 \<le> n" "n < 56" | "56 \<le> n" "n < 64"
    by fastforce
  then show "bit (of_le (le64 w) :: u64) n = bit w n"
    by cases (auto simp: of_le_def le64_def le32_def bit_or_iff bit_push_bit_iff bit_ucast_iff bit_drop_bit_eq)
qed

lemma write_req_of_entry:
  "write_req_of (entry_bytes e) = \<lparr>w_point_id = e_point_id e, w_type = e_type e, w_value_bits = e_value_bits e,
     w_source_ts_ns = e_source_ts_ns e\<rparr>"
  by (simp add: write_req_of_def entry_bytes_def nth_append)

lemma c_buf_64 [simp]: "length (c_buf 64 s) = 64"
  by (simp add: c_buf_def Let_def)

lemma point_info_bytes_length [simp]: "length (point_info_bytes pid pt) = 76"
  by (simp add: point_info_bytes_def)

definition info_of :: "u32 \<times> point \<Rightarrow> irtcli_point_info" where
  "info_of p = \<lparr>pi_point_id = fst p, pi_type = pt_type (snd p), pi_access = access (snd p),
     pi_name = pt_name (snd p), pi_partition = partition (snd p)\<rparr>"

lemma point_info_of_bytes:
  assumes "length (pt_name pt) \<le> 63" "no_nul (pt_name pt)"
  shows "point_info_of (point_info_bytes pid pt) = info_of (pid, pt)"
proof -
  have "c_string (c_buf 64 (pt_name pt)) = pt_name pt" using assms by (intro c_string_c_buf) simp_all
  then show ?thesis by (simp add: point_info_of_def point_info_bytes_def info_of_def nth_append)
qed

text \<open>
  The client decodes a list answer of the daemon to the listed points: the records that the daemon
  encodes, one after the other, are read back as the same ids, types, access modes, names and
  partitions in the same order, and the number of records that the client computes from the length
  in the response header is their number.
\<close>

theorem list_answer_decodes:
  assumes "\<forall>p \<in> set ps. length (pt_name (snd p)) \<le> 63 \<and> no_nul (pt_name (snd p))" "length ps \<le> 1024"
  shows "point_infos (length ps) (concat (map (\<lambda>(pid, pt). point_info_bytes pid pt) ps)) = map info_of ps
    \<and> unat ((word_of_nat (length (concat (map (\<lambda>(pid, pt). point_info_bytes pid pt) ps))) :: u32) div 76) = length ps"
proof -
  have "point_infos (length ps) (concat (map (\<lambda>(pid, pt). point_info_bytes pid pt) ps)) = map info_of ps"
    using assms(1) by (induction ps) (auto simp: point_info_of_bytes)
  moreover have len: "length (concat (map (\<lambda>(pid, pt). point_info_bytes pid pt) ps)) = 76 * length ps"
    by (induction ps) auto
  have "unat (word_of_nat (76 * length ps) :: u32) = 76 * length ps"
    using assms(2) by (simp add: unat_of_nat del: of_nat_mult)
  then have "unat ((word_of_nat (76 * length ps) :: u32) div 76) = length ps"
    by (simp add: unat_div)
  ultimately show ?thesis unfolding len by simp
qed

theorem list_answer_decodes_witness:
  "point_infos 1 (point_info_bytes 3 (zero_point\<lparr>pt_name := ''pump''\<rparr>)) = [info_of (3, zero_point\<lparr>pt_name := ''pump''\<rparr>)]"
  using list_answer_decodes [of "[(3, zero_point\<lparr>pt_name := ''pump''\<rparr>)]"] by (simp add: no_nul_def)

end
