(* ===== verification/Instances.thy ===== *)
theory Instances
  imports Attach Api
begin

text \<open>
  The instances of one process (\<^verbatim>\<open>src/api/indurtdb.c\<close>) over named shared memory segments
  (\<^verbatim>\<open>src/osal/posix/irt_osal_posix.c\<close>): the fixed table of instances with its bitmap, opening and
  closing, the default instance of the old interface, and what mapping and unmapping do to the names.
  Segments are kept in a store, so several handles of a process may share one; an operation on a
  handle reads its segment from the store and writes it back.
\<close>

section \<open>Shared memory objects\<close>

text \<open>
  \<open>w_names\<close> are the existing names, \<open>w_segs\<close> the segments by their address; a segment stays mapped
  after its name was removed. \<open>w_error\<close> is the error text of the thread.
\<close>

record irt_shm_os =
  os_name :: string
  os_mapped :: "nat option"
  os_owner :: bool

record inst =
  in_h :: indurtdb
  in_os :: irt_shm_os

record world =
  w_pid :: u32
  w_alive :: "u32 \<Rightarrow> bool"
  w_names :: "string \<Rightarrow> nat option"
  w_segs :: "nat \<Rightarrow> segment"
  w_next :: nat
  w_registry :: "inst list"
  w_used :: u32
  w_default :: "nat option"
  w_error :: string

text \<open>What the operating system refuses in a call of \<open>irt_shm_os_map\<close>.\<close>

datatype map_fault = No_fault | Open_fails | Truncate_fails | Map_fails

definition irt_shm_os_map ::
  "map_fault \<Rightarrow> irt_shm_os \<Rightarrow> string \<Rightarrow> segment \<Rightarrow> world \<Rightarrow> nat option \<times> irt_shm_os \<times> world" where
  "irt_shm_os_map flt s name zero w =
     (if name = [] then (None, s, w)
      else if os_mapped s \<noteq> None then (os_mapped s, s, w)
      else
        let s = s\<lparr>os_name := strncpy_to 63 name\<rparr>
        in if 64 \<le> length name then (None, s, w)
           else if flt = Open_fails then (None, s, w)
           else case w_names w name of
             Some k \<Rightarrow> if flt = Map_fails then (None, s, w) else (Some k, s\<lparr>os_mapped := Some k\<rparr>, w)
           | None \<Rightarrow>
               let s = s\<lparr>os_owner := True\<rparr>; k = w_next w
               in if flt = Truncate_fails \<or> flt = Map_fails then (None, s, w)
                  else (Some k, s\<lparr>os_mapped := Some k\<rparr>,
                        w\<lparr>w_names := (w_names w)(name \<mapsto> k), w_segs := (w_segs w)(k := zero), w_next := Suc k\<rparr>))"

definition irt_shm_os_unmap :: "irt_shm_os \<Rightarrow> world \<Rightarrow> irt_shm_os \<times> world" where
  "irt_shm_os_unmap s w =
     (s\<lparr>os_mapped := None, os_owner := False\<rparr>,
      if os_owner s then w\<lparr>w_names := (w_names w)(os_name s := None)\<rparr> else w)"

definition irt_shm_os_is_owner :: "irt_shm_os \<Rightarrow> bool" where
  "irt_shm_os_is_owner s = os_owner s"

definition irt_shm_os_claim_ownership :: "irt_shm_os \<Rightarrow> irt_shm_os" where
  "irt_shm_os_claim_ownership s = (if \<not> os_owner s then s\<lparr>os_owner := True\<rparr> else s)"

section \<open>Clocks\<close>

text \<open>
  The answers of \<open>clock_gettime\<close>, seconds and nanoseconds, are arguments (\<open>None\<close>: the clock fails); so
  are the interruptions of \<open>nanosleep\<close>, each with the remaining time. Sleeping is the list of the
  requests that were made.
\<close>

definition timespec_ns :: "u64 \<times> u64 \<Rightarrow> u64" where
  "timespec_ns ts = fst ts * 1000000000 + snd ts"

definition irt_time_now_ns :: "(u64 \<times> u64) option \<Rightarrow> (u64 \<times> u64) option \<Rightarrow> u64" where
  "irt_time_now_ns monotonic realtime =
     (case monotonic of Some ts \<Rightarrow> timespec_ns ts
      | None \<Rightarrow> (case realtime of Some ts \<Rightarrow> timespec_ns ts | None \<Rightarrow> 0))"

definition irt_time_realtime_ns ::
  "(u64 \<times> u64) option \<Rightarrow> (u64 \<times> u64) option \<Rightarrow> (u64 \<times> u64) option \<Rightarrow> u64" where
  "irt_time_realtime_ns realtime monotonic realtime' =
     (case realtime of Some ts \<Rightarrow> timespec_ns ts | None \<Rightarrow> irt_time_now_ns monotonic realtime')"

fun sleep_requests :: "u64 \<times> u64 \<Rightarrow> (u64 \<times> u64) list \<Rightarrow> (u64 \<times> u64) list" where
  "sleep_requests req [] = [req]"
| "sleep_requests req (rem # interrupted) = req # sleep_requests rem interrupted"

definition irt_time_sleep_ns :: "u64 \<Rightarrow> (u64 \<times> u64) list \<Rightarrow> (u64 \<times> u64) list" where
  "irt_time_sleep_ns duration interrupted = sleep_requests (duration div 1000000000, duration mod 1000000000) interrupted"

lemma sleep_request_exact: "timespec_ns (hd (irt_time_sleep_ns duration interrupted)) = duration"
  by (cases interrupted) (simp_all add: irt_time_sleep_ns_def timespec_ns_def word_mod_div_equality)

section \<open>The table of instances\<close>

definition IRT_MAX_INSTANCES :: nat where "IRT_MAX_INSTANCES = 64"

definition zero_shm :: shm where
  "zero_shm = (handle_on (zero_segment 0 0) 0 0)\<lparr>points := [], slots := [], metas := [], subs := []\<rparr>"

definition zero_handle :: indurtdb where
  "zero_handle = \<lparr>h_shm = zero_shm, h_sub = irt_sub_init, initialized = False, h_owner_pid = 0, delta_fd = 0,
     default_partition = 0, delta_file = [], delta_env = [], last_error = []\<rparr>"

definition zero_os :: irt_shm_os where
  "zero_os = \<lparr>os_name = [], os_mapped = None, os_owner = False\<rparr>"

definition zero_instance :: inst where
  "zero_instance = \<lparr>in_h = zero_handle, in_os = zero_os\<rparr>"

definition put_inst :: "nat \<Rightarrow> inst \<Rightarrow> world \<Rightarrow> world" where
  "put_inst i x w = w\<lparr>w_registry := (w_registry w)[i := x]\<rparr>"

definition werr :: "string \<Rightarrow> world \<Rightarrow> world" where
  "werr msg w = w\<lparr>w_error := strncpy_to 255 msg\<rparr>"

text \<open>
  The scan for a free slot. The bitmap has 32 bits, but the table 64 slots: \<open>1u << i\<close> is undefined
  from 32 on (\<open>None\<close>).
\<close>

fun alloc_scan :: "u32 \<Rightarrow> nat list \<Rightarrow> nat option option" where
  "alloc_scan used [] = Some None"
| "alloc_scan used (i # is) =
     (if 32 \<le> i then None
      else if used AND push_bit i 1 = 0 then Some (Some i)
      else alloc_scan used is)"

definition inst_alloc :: "world \<Rightarrow> (nat option \<times> world) option" where
  "inst_alloc w =
     (case alloc_scan (w_used w) [0..<IRT_MAX_INSTANCES] of
        None \<Rightarrow> None
      | Some None \<Rightarrow> Some (None, w)
      | Some (Some i) \<Rightarrow>
          Some (Some i, put_inst i (zero_instance\<lparr>in_h := zero_handle\<lparr>delta_fd := -1\<rparr>\<rparr>)
            (w\<lparr>w_used := w_used w OR push_bit i 1\<rparr>)))"

definition inst_free :: "nat \<Rightarrow> world \<Rightarrow> world" where
  "inst_free i w = w\<lparr>w_used := w_used w AND NOT (push_bit i 1)\<rparr>"

definition inst_shutdown :: "nat \<Rightarrow> world \<Rightarrow> world" where
  "inst_shutdown i w =
     (let x = w_registry w ! i
      in if \<not> initialized (in_h x) then w
         else put_inst i zero_instance (snd (irt_shm_os_unmap (in_os x) w)))"

text \<open>
  \<open>irt_shm_init\<close> with its calls of the OS layer: the result, the handle on the segment and the OS
  handle. A rejected segment is unmapped; a created or attached one is written back.
\<close>

definition shm_init :: "map_fault \<Rightarrow> string \<Rightarrow> u32 \<Rightarrow> u32 \<Rightarrow> world \<Rightarrow> int \<times> (shm \<times> irt_shm_os) option \<times> world" where
  "shm_init flt instance_id mp ms w =
     (let name = IRT_SHM_PREFIX @ instance_id
      in if instance_id = [] \<or> mp = 0 \<or> 128 \<le> length name
         then (fst (irt_shm_init instance_id mp ms (w_pid w) (w_alive w) None), None, w)
         else
           let (m, os, w) = irt_shm_os_map flt zero_os name (zero_segment mp ms) w
           in case irt_shm_init instance_id mp ms (w_pid w) (w_alive w)
                     (map_option (\<lambda>k. (irt_shm_os_is_owner os, w_segs w k)) m) of
                (rc, None) \<Rightarrow> (rc, None, if m = None then w else snd (irt_shm_os_unmap os w))
              | (rc, Some (s, owner)) \<Rightarrow>
                  (rc, Some (s, if owner then irt_shm_os_claim_ownership os else os),
                   case m of None \<Rightarrow> w | Some k \<Rightarrow> w\<lparr>w_segs := (w_segs w)(k := segment.truncate s)\<rparr>))"

definition forked :: "world \<Rightarrow> indurtdb \<Rightarrow> bool" where
  "forked w h \<longleftrightarrow> initialized h \<and> h_owner_pid h \<noteq> 0 \<and> h_owner_pid h \<noteq> w_pid w"

text \<open>A child drops the inherited mapping, without removing the name.\<close>

definition disown :: "nat \<Rightarrow> world \<Rightarrow> world" where
  "disown i w = put_inst i ((w_registry w ! i)\<lparr>in_os := (in_os (w_registry w ! i))\<lparr>os_owner := False\<rparr>\<rparr>) w"

definition inst_init :: "map_fault \<Rightarrow> nat \<Rightarrow> string \<Rightarrow> u32 \<Rightarrow> u32 \<Rightarrow> world \<Rightarrow> int \<times> world" where
  "inst_init flt i instance_id mp ms w =
     (let w = (if forked w (in_h (w_registry w ! i)) then inst_shutdown i (disown i w) else w)
      in if initialized (in_h (w_registry w ! i)) then (INDURTDB_ERR_ARG, werr ''already initialized'' w)
         else if instance_id = [] \<or> mp = 0 then (INDURTDB_ERR_ARG, werr ''invalid argument'' w)
         else
           let h = zero_handle\<lparr>delta_fd := -1, default_partition := 0\<rparr>
           in case shm_init flt instance_id mp ms w of
                (rc, None, w) \<Rightarrow> (INDURTDB_ERR_ARG, werr ''shm init failed'' (put_inst i \<lparr>in_h = h, in_os = zero_os\<rparr> w))
              | (rc, Some (s, os), w) \<Rightarrow>
                  (0, put_inst i \<lparr>in_h = h\<lparr>h_shm := s, h_sub := irt_sub_init, initialized := True, h_owner_pid := w_pid w\<rparr>,
                                  in_os = os\<rparr> w))"

section \<open>Opening and closing\<close>

text \<open>A handle is the index of its slot; \<open>None\<close> as result of a whole call is the undefined shift.\<close>

definition indurtdb_h_open ::
  "map_fault \<Rightarrow> string \<Rightarrow> (u32 \<times> u32) option \<Rightarrow> world \<Rightarrow> ((int \<times> nat option) \<times> world) option" where
  "indurtdb_h_open flt instance_id cfg w =
     (if instance_id = [] then Some ((INDURTDB_ERR_ARG, None), werr ''invalid argument'' w)
      else
        let mp = (case cfg of Some (mp, ms) \<Rightarrow> mp | None \<Rightarrow> 0); ms = (case cfg of Some (mp, ms) \<Rightarrow> ms | None \<Rightarrow> 0)
        in if mp = 0 then Some ((INDURTDB_ERR_ARG, None), werr ''max_points must be > 0'' w)
           else case inst_alloc w of
             None \<Rightarrow> None
           | Some (None, w) \<Rightarrow> Some ((INDURTDB_ERR_FULL, None), werr ''instance slots exhausted'' w)
           | Some (Some i, w) \<Rightarrow>
               let (rc, w) = inst_init flt i instance_id mp ms w
               in Some (if rc \<noteq> 0 then ((rc, None), inst_free i w) else ((0, Some i), w)))"

definition indurtdb_h_close :: "nat option \<Rightarrow> world \<Rightarrow> world" where
  "indurtdb_h_close h w =
     (case h of
        None \<Rightarrow> w
      | Some i \<Rightarrow>
          let w = inst_shutdown i w;
              w = (if w_default w = Some i then w\<lparr>w_default := None\<rparr> else w)
          in inst_free i w)"

definition indurtdb_h_is_initialized :: "nat option \<Rightarrow> world \<Rightarrow> bool" where
  "indurtdb_h_is_initialized h w = (case h of None \<Rightarrow> False | Some i \<Rightarrow> initialized (in_h (w_registry w ! i)))"

definition indurtdb_initialize :: "map_fault \<Rightarrow> string \<Rightarrow> u32 \<Rightarrow> u32 \<Rightarrow> world \<Rightarrow> (int \<times> world) option" where
  "indurtdb_initialize flt instance_id mp ms w =
     (let start = (\<lambda>i w. let (rc, w) = inst_init flt i instance_id mp ms w
                        in Some (if rc \<noteq> 0 then (rc, (inst_free i w)\<lparr>w_default := None\<rparr>) else (rc, w)))
      in case w_default w of
           Some i \<Rightarrow>
             if initialized (in_h (w_registry w ! i)) then
               if forked w (in_h (w_registry w ! i)) then start i (inst_shutdown i (disown i w))
               else Some (INDURTDB_ERR_ARG, werr ''already initialized'' w)
             else start i w
         | None \<Rightarrow>
             case inst_alloc w of
               None \<Rightarrow> None
             | Some (None, w) \<Rightarrow> Some (INDURTDB_ERR_FULL, werr ''instance slots exhausted'' w)
             | Some (Some i, w) \<Rightarrow> start i (w\<lparr>w_default := Some i\<rparr>))"

definition indurtdb_shutdown :: "world \<Rightarrow> world" where
  "indurtdb_shutdown w = indurtdb_h_close (w_default w) w"

definition indurtdb_detach :: "world \<Rightarrow> world" where
  "indurtdb_detach w =
     (case w_default w of None \<Rightarrow> w | Some i \<Rightarrow> indurtdb_h_close (Some i) (disown i w))"

definition indurtdb_is_initialized :: "world \<Rightarrow> bool" where
  "indurtdb_is_initialized w = indurtdb_h_is_initialized (w_default w) w"

section \<open>Operations on a handle\<close>

text \<open>The handle of slot \<open>i\<close> as an operation sees it, with the segment of the store.\<close>

definition view :: "world \<Rightarrow> nat \<Rightarrow> indurtdb" where
  "view w i =
     (let x = w_registry w ! i; s = h_shm (in_h x)
      in (in_h x)\<lparr>last_error := w_error w,
           h_shm := (case os_mapped (in_os x) of
                       None \<Rightarrow> s
                     | Some k \<Rightarrow> (handle_on (w_segs w k) (s_max_points s) (s_max_subscribers s))\<lparr>lock_env := lock_env s\<rparr>)\<rparr>)"

definition write_back :: "nat \<Rightarrow> indurtdb \<Rightarrow> world \<Rightarrow> world" where
  "write_back i h w =
     (let x = w_registry w ! i;
          w = (put_inst i (x\<lparr>in_h := h\<rparr>) w)\<lparr>w_error := last_error h\<rparr>
      in case os_mapped (in_os x) of
           None \<Rightarrow> w
         | Some k \<Rightarrow> w\<lparr>w_segs := (w_segs w)(k := segment.truncate (h_shm h))\<rparr>)"

text \<open>A null handle behaves as one that is not initialized: every operation tests both first.\<close>

definition on_handle :: "(indurtdb \<Rightarrow> 'r \<times> indurtdb) \<Rightarrow> nat option \<Rightarrow> world \<Rightarrow> 'r \<times> world" where
  "on_handle f href w =
     (case href of
        None \<Rightarrow> let (r, h) = f (zero_handle\<lparr>last_error := w_error w\<rparr>) in (r, w\<lparr>w_error := last_error h\<rparr>)
      | Some i \<Rightarrow> let (r, h) = f (view w i) in (r, write_back i h w))"

definition on_handle_opt :: "(indurtdb \<Rightarrow> ('r \<times> indurtdb) option) \<Rightarrow> nat option \<Rightarrow> world \<Rightarrow> ('r \<times> world) option" where
  "on_handle_opt f href w =
     (case href of
        None \<Rightarrow> map_option (\<lambda>(r, h). (r, w\<lparr>w_error := last_error h\<rparr>)) (f (zero_handle\<lparr>last_error := w_error w\<rparr>))
      | Some i \<Rightarrow> map_option (\<lambda>(r, h). (r, write_back i h w)) (f (view w i)))"

definition v1_int :: "int \<Rightarrow> int" where
  "v1_int rc = (if rc = INDURTDB_ERR_NOT_INIT then -1 else rc)"

definition indurtdb_get_last_error :: "world \<Rightarrow> string" where
  "indurtdb_get_last_error w = w_error w"

end
