(* ===== verification/Api_V1.thy ===== *)
theory Api_V1
  imports Instances
begin

text \<open>
  The old interface (\<^verbatim>\<open>src/api/indurtdb.c\<close>, from \<open>indurtdb_write_bool\<close> on): every function
  calls its counterpart on the default instance, and returns -1 where that one reports that it is not
  initialized.
\<close>

definition indurtdb_write_bool :: "reaction \<Rightarrow> u64 \<Rightarrow> u32 \<Rightarrow> bool \<Rightarrow> world \<Rightarrow> (int \<times> sub_call list) \<times> world" where
  "indurtdb_write_bool react now pid v w =
     (let ((rc, cs), w) = on_handle (\<lambda>h. case indurtdb_h_write_bool react h now pid v of (rc, cs, h) \<Rightarrow> ((rc, cs), h)) (w_default w) w
      in ((v1_int rc, cs), w))"

definition indurtdb_write_int32 :: "reaction \<Rightarrow> u64 \<Rightarrow> u32 \<Rightarrow> u32 \<Rightarrow> world \<Rightarrow> (int \<times> sub_call list) \<times> world" where
  "indurtdb_write_int32 react now pid v w =
     (let ((rc, cs), w) = on_handle (\<lambda>h. case indurtdb_h_write_int32 react h now pid v of (rc, cs, h) \<Rightarrow> ((rc, cs), h)) (w_default w) w
      in ((v1_int rc, cs), w))"

definition indurtdb_write_double :: "reaction \<Rightarrow> u64 \<Rightarrow> u32 \<Rightarrow> u64 \<Rightarrow> world \<Rightarrow> (int \<times> sub_call list) \<times> world" where
  "indurtdb_write_double react now pid v w =
     (let ((rc, cs), w) = on_handle (\<lambda>h. case indurtdb_h_write_double react h now pid v of (rc, cs, h) \<Rightarrow> ((rc, cs), h)) (w_default w) w
      in ((v1_int rc, cs), w))"

definition indurtdb_write_string :: "reaction \<Rightarrow> u64 \<Rightarrow> u32 \<Rightarrow> string \<Rightarrow> world \<Rightarrow> (int \<times> sub_call list) \<times> world" where
  "indurtdb_write_string react now pid v w =
     (let ((rc, cs), w) = on_handle (\<lambda>h. case indurtdb_h_write_string react h now pid v of (rc, cs, h) \<Rightarrow> ((rc, cs), h)) (w_default w) w
      in ((v1_int rc, cs), w))"

definition indurtdb_write_int64 :: "reaction \<Rightarrow> u64 \<Rightarrow> u32 \<Rightarrow> u64 \<Rightarrow> world \<Rightarrow> (int \<times> sub_call list) \<times> world" where
  "indurtdb_write_int64 react now pid v w =
     (let ((rc, cs), w) = on_handle (\<lambda>h. case indurtdb_h_write_int64 react h now pid v of (rc, cs, h) \<Rightarrow> ((rc, cs), h)) (w_default w) w
      in ((v1_int rc, cs), w))"

definition indurtdb_write_uint32 :: "reaction \<Rightarrow> u64 \<Rightarrow> u32 \<Rightarrow> u32 \<Rightarrow> world \<Rightarrow> (int \<times> sub_call list) \<times> world" where
  "indurtdb_write_uint32 react now pid v w =
     (let ((rc, cs), w) = on_handle (\<lambda>h. case indurtdb_h_write_uint32 react h now pid v of (rc, cs, h) \<Rightarrow> ((rc, cs), h)) (w_default w) w
      in ((v1_int rc, cs), w))"

definition indurtdb_write_float :: "reaction \<Rightarrow> u64 \<Rightarrow> u32 \<Rightarrow> u32 \<Rightarrow> world \<Rightarrow> (int \<times> sub_call list) \<times> world" where
  "indurtdb_write_float react now pid v w =
     (let ((rc, cs), w) = on_handle (\<lambda>h. case indurtdb_h_write_float react h now pid v of (rc, cs, h) \<Rightarrow> ((rc, cs), h)) (w_default w) w
      in ((v1_int rc, cs), w))"

definition indurtdb_write_bool_ts :: "reaction \<Rightarrow> u64 \<Rightarrow> u32 \<Rightarrow> bool \<Rightarrow> u64 \<Rightarrow> world \<Rightarrow> (int \<times> sub_call list) \<times> world" where
  "indurtdb_write_bool_ts react now pid v ts w =
     (let ((rc, cs), w) = on_handle (\<lambda>h. case indurtdb_h_write_bool_ts react h now pid v ts of (rc, cs, h) \<Rightarrow> ((rc, cs), h)) (w_default w) w
      in ((v1_int rc, cs), w))"

definition indurtdb_write_int32_ts :: "reaction \<Rightarrow> u64 \<Rightarrow> u32 \<Rightarrow> u32 \<Rightarrow> u64 \<Rightarrow> world \<Rightarrow> (int \<times> sub_call list) \<times> world" where
  "indurtdb_write_int32_ts react now pid v ts w =
     (let ((rc, cs), w) = on_handle (\<lambda>h. case indurtdb_h_write_int32_ts react h now pid v ts of (rc, cs, h) \<Rightarrow> ((rc, cs), h)) (w_default w) w
      in ((v1_int rc, cs), w))"

definition indurtdb_write_double_ts :: "reaction \<Rightarrow> u64 \<Rightarrow> u32 \<Rightarrow> u64 \<Rightarrow> u64 \<Rightarrow> world \<Rightarrow> (int \<times> sub_call list) \<times> world" where
  "indurtdb_write_double_ts react now pid v ts w =
     (let ((rc, cs), w) = on_handle (\<lambda>h. case indurtdb_h_write_double_ts react h now pid v ts of (rc, cs, h) \<Rightarrow> ((rc, cs), h)) (w_default w) w
      in ((v1_int rc, cs), w))"

definition indurtdb_write_string_ts :: "reaction \<Rightarrow> u64 \<Rightarrow> u32 \<Rightarrow> string \<Rightarrow> u64 \<Rightarrow> world \<Rightarrow> (int \<times> sub_call list) \<times> world" where
  "indurtdb_write_string_ts react now pid v ts w =
     (let ((rc, cs), w) = on_handle (\<lambda>h. case indurtdb_h_write_string_ts react h now pid v ts of (rc, cs, h) \<Rightarrow> ((rc, cs), h)) (w_default w) w
      in ((v1_int rc, cs), w))"

definition indurtdb_write_int64_ts :: "reaction \<Rightarrow> u64 \<Rightarrow> u32 \<Rightarrow> u64 \<Rightarrow> u64 \<Rightarrow> world \<Rightarrow> (int \<times> sub_call list) \<times> world" where
  "indurtdb_write_int64_ts react now pid v ts w =
     (let ((rc, cs), w) = on_handle (\<lambda>h. case indurtdb_h_write_int64_ts react h now pid v ts of (rc, cs, h) \<Rightarrow> ((rc, cs), h)) (w_default w) w
      in ((v1_int rc, cs), w))"

definition indurtdb_write_uint32_ts :: "reaction \<Rightarrow> u64 \<Rightarrow> u32 \<Rightarrow> u32 \<Rightarrow> u64 \<Rightarrow> world \<Rightarrow> (int \<times> sub_call list) \<times> world" where
  "indurtdb_write_uint32_ts react now pid v ts w =
     (let ((rc, cs), w) = on_handle (\<lambda>h. case indurtdb_h_write_uint32_ts react h now pid v ts of (rc, cs, h) \<Rightarrow> ((rc, cs), h)) (w_default w) w
      in ((v1_int rc, cs), w))"

definition indurtdb_write_float_ts :: "reaction \<Rightarrow> u64 \<Rightarrow> u32 \<Rightarrow> u32 \<Rightarrow> u64 \<Rightarrow> world \<Rightarrow> (int \<times> sub_call list) \<times> world" where
  "indurtdb_write_float_ts react now pid v ts w =
     (let ((rc, cs), w) = on_handle (\<lambda>h. case indurtdb_h_write_float_ts react h now pid v ts of (rc, cs, h) \<Rightarrow> ((rc, cs), h)) (w_default w) w
      in ((v1_int rc, cs), w))"

definition indurtdb_write_quality_ts :: "reaction \<Rightarrow> u64 \<Rightarrow> u32 \<Rightarrow> u8 \<Rightarrow> u8 list \<Rightarrow> u64 \<Rightarrow> u8 \<Rightarrow> world \<Rightarrow> (int \<times> sub_call list) \<times> world" where
  "indurtdb_write_quality_ts react now pid t v ts q w =
     (let ((rc, cs), w) = on_handle (\<lambda>h. case indurtdb_h_write_quality_ts react h now pid t v ts q of (rc, cs, h) \<Rightarrow> ((rc, cs), h)) (w_default w) w
      in ((v1_int rc, cs), w))"

definition indurtdb_read_bool :: "obs \<Rightarrow> u32 \<Rightarrow> world \<Rightarrow> ((int \<times> bool option) \<times> world) option" where
  "indurtdb_read_bool ob pid w =
     map_option (map_prod (map_prod v1_int id) id) (on_handle_opt (\<lambda>h. indurtdb_h_read_bool h ob pid) (w_default w) w)"

definition indurtdb_read_int32 :: "obs \<Rightarrow> u32 \<Rightarrow> world \<Rightarrow> ((int \<times> u32 option) \<times> world) option" where
  "indurtdb_read_int32 ob pid w =
     map_option (map_prod (map_prod v1_int id) id) (on_handle_opt (\<lambda>h. indurtdb_h_read_int32 h ob pid) (w_default w) w)"

definition indurtdb_read_double :: "obs \<Rightarrow> u32 \<Rightarrow> world \<Rightarrow> ((int \<times> u64 option) \<times> world) option" where
  "indurtdb_read_double ob pid w =
     map_option (map_prod (map_prod v1_int id) id) (on_handle_opt (\<lambda>h. indurtdb_h_read_double h ob pid) (w_default w) w)"

definition indurtdb_read_string :: "obs \<Rightarrow> u32 \<Rightarrow> nat \<Rightarrow> world \<Rightarrow> ((int \<times> string option) \<times> world) option" where
  "indurtdb_read_string ob pid buffer_size w =
     map_option (map_prod (map_prod v1_int id) id) (on_handle_opt (\<lambda>h. indurtdb_h_read_string h ob pid buffer_size) (w_default w) w)"

definition indurtdb_read_int64 :: "obs \<Rightarrow> u32 \<Rightarrow> world \<Rightarrow> ((int \<times> u64 option) \<times> world) option" where
  "indurtdb_read_int64 ob pid w =
     map_option (map_prod (map_prod v1_int id) id) (on_handle_opt (\<lambda>h. indurtdb_h_read_int64 h ob pid) (w_default w) w)"

definition indurtdb_read_uint32 :: "obs \<Rightarrow> u32 \<Rightarrow> world \<Rightarrow> ((int \<times> u32 option) \<times> world) option" where
  "indurtdb_read_uint32 ob pid w =
     map_option (map_prod (map_prod v1_int id) id) (on_handle_opt (\<lambda>h. indurtdb_h_read_uint32 h ob pid) (w_default w) w)"

definition indurtdb_read_float :: "obs \<Rightarrow> u32 \<Rightarrow> world \<Rightarrow> ((int \<times> u32 option) \<times> world) option" where
  "indurtdb_read_float ob pid w =
     map_option (map_prod (map_prod v1_int id) id) (on_handle_opt (\<lambda>h. indurtdb_h_read_float h ob pid) (w_default w) w)"

definition indurtdb_read_point :: "obs \<Rightarrow> u32 \<Rightarrow> point \<Rightarrow> world \<Rightarrow> ((int \<times> point) \<times> world) option" where
  "indurtdb_read_point ob pid out w =
     map_option (map_prod (map_prod v1_int id) id) (on_handle_opt (\<lambda>h. indurtdb_h_read_point h ob pid out) (w_default w) w)"

definition indurtdb_peek :: "obs \<Rightarrow> u32 \<Rightarrow> point \<Rightarrow> world \<Rightarrow> (point option \<times> world) option" where
  "indurtdb_peek ob pid buf w =
     on_handle_opt (\<lambda>h. indurtdb_h_peek h ob pid buf) (w_default w) w"

definition indurtdb_read_range :: "u32 \<Rightarrow> u16 \<Rightarrow> u16 \<Rightarrow> world \<Rightarrow> ((int \<times> point list) \<times> world) option" where
  "indurtdb_read_range start cnt out_cap w =
     map_option (map_prod (map_prod v1_int id) id) (on_handle_opt (\<lambda>h. indurtdb_h_read_range h start cnt out_cap) (w_default w) w)"

definition indurtdb_write_range_bool :: "reaction \<Rightarrow> u64 \<Rightarrow> u32 \<Rightarrow> bool list \<Rightarrow> world \<Rightarrow> (int \<times> sub_call list) \<times> world" where
  "indurtdb_write_range_bool react now start vs w =
     (let ((rc, cs), w) = on_handle (\<lambda>h. case indurtdb_h_write_range_bool react h now start vs of (rc, cs, h) \<Rightarrow> ((rc, cs), h)) (w_default w) w
      in ((v1_int rc, cs), w))"

definition indurtdb_write_range_int32 :: "reaction \<Rightarrow> u64 \<Rightarrow> u32 \<Rightarrow> u32 list \<Rightarrow> world \<Rightarrow> (int \<times> sub_call list) \<times> world" where
  "indurtdb_write_range_int32 react now start vs w =
     (let ((rc, cs), w) = on_handle (\<lambda>h. case indurtdb_h_write_range_int32 react h now start vs of (rc, cs, h) \<Rightarrow> ((rc, cs), h)) (w_default w) w
      in ((v1_int rc, cs), w))"

definition indurtdb_write_range_double :: "reaction \<Rightarrow> u64 \<Rightarrow> u32 \<Rightarrow> u64 list \<Rightarrow> world \<Rightarrow> (int \<times> sub_call list) \<times> world" where
  "indurtdb_write_range_double react now start vs w =
     (let ((rc, cs), w) = on_handle (\<lambda>h. case indurtdb_h_write_range_double react h now start vs of (rc, cs, h) \<Rightarrow> ((rc, cs), h)) (w_default w) w
      in ((v1_int rc, cs), w))"

definition indurtdb_subscribe :: "u32 \<Rightarrow> nat \<Rightarrow> nat \<Rightarrow> world \<Rightarrow> int \<times> world" where
  "indurtdb_subscribe pid cb ud w =
     map_prod v1_int id (on_handle (\<lambda>h. indurtdb_h_subscribe h pid cb ud) (w_default w) w)"

definition indurtdb_unsubscribe :: "u32 \<Rightarrow> world \<Rightarrow> int \<times> world" where
  "indurtdb_unsubscribe pid w =
     map_prod v1_int id (on_handle (\<lambda>h. indurtdb_h_unsubscribe h pid) (w_default w) w)"

definition indurtdb_load_config :: "string option \<Rightarrow> world \<Rightarrow> int \<times> world" where
  "indurtdb_load_config f w =
     map_prod v1_int id (on_handle (\<lambda>h. indurtdb_h_load_config h f) (w_default w) w)"

definition indurtdb_set_quality :: "u32 \<Rightarrow> u8 \<Rightarrow> world \<Rightarrow> int \<times> world" where
  "indurtdb_set_quality pid q w =
     map_prod v1_int id (on_handle (\<lambda>h. indurtdb_h_set_quality h pid q) (w_default w) w)"

definition indurtdb_update_heartbeat :: "u32 \<Rightarrow> u64 \<Rightarrow> world \<Rightarrow> world" where
  "indurtdb_update_heartbeat mypid now w =
     snd (on_handle (\<lambda>h. ((), indurtdb_h_update_heartbeat h mypid now)) (w_default w) w)"

definition indurtdb_find_by_name :: "nat \<Rightarrow> string \<Rightarrow> world \<Rightarrow> (int \<times> u32 option) \<times> world" where
  "indurtdb_find_by_name d name w =
     map_prod (map_prod v1_int id) id (on_handle (\<lambda>h. indurtdb_h_find_by_name d h name) (w_default w) w)"

definition indurtdb_get_meta :: "nat \<Rightarrow> u32 \<Rightarrow> world \<Rightarrow> (int \<times> meta option) \<times> world" where
  "indurtdb_get_meta d pid w =
     map_prod (map_prod v1_int id) id (on_handle (\<lambda>h. indurtdb_h_get_meta d h pid) (w_default w) w)"

definition indurtdb_set_meta :: "u32 \<Rightarrow> meta \<Rightarrow> world \<Rightarrow> int \<times> world" where
  "indurtdb_set_meta pid m w =
     map_prod v1_int id (on_handle (\<lambda>h. indurtdb_h_set_meta h pid m) (w_default w) w)"

definition indurtdb_create_point :: "nat \<Rightarrow> u32 \<Rightarrow> string \<Rightarrow> int \<Rightarrow> int \<Rightarrow> world \<Rightarrow> int \<times> world" where
  "indurtdb_create_point d pid name ty acc w =
     map_prod v1_int id (on_handle (\<lambda>h. indurtdb_h_create_point d h pid name ty acc) (w_default w) w)"

definition indurtdb_enable_delta :: "string \<Rightarrow> int \<times> u8 list \<Rightarrow> world \<Rightarrow> int \<times> world" where
  "indurtdb_enable_delta path opened w =
     map_prod v1_int id (on_handle (\<lambda>h. indurtdb_h_enable_delta h path opened) (w_default w) w)"

definition indurtdb_delete_point :: "u32 \<Rightarrow> world \<Rightarrow> int \<times> world" where
  "indurtdb_delete_point pid w =
     map_prod v1_int id (on_handle (\<lambda>h. indurtdb_h_delete_point h pid) (w_default w) w)"

definition indurtdb_delta_replay :: "string \<Rightarrow> u8 list option \<Rightarrow> nat option \<Rightarrow> world \<Rightarrow> int \<times> world" where
  "indurtdb_delta_replay path f io w =
     map_prod v1_int id (on_handle (\<lambda>h. indurtdb_h_delta_replay h path f io) (w_default w) w)"

definition indurtdb_rename_point :: "nat \<Rightarrow> u32 \<Rightarrow> string \<Rightarrow> world \<Rightarrow> int \<times> world" where
  "indurtdb_rename_point d pid name w =
     map_prod v1_int id (on_handle (\<lambda>h. indurtdb_h_rename_point d h pid name) (w_default w) w)"

definition indurtdb_check_timeouts :: "u64 \<Rightarrow> u64 \<Rightarrow> world \<Rightarrow> (int \<times> world) option" where
  "indurtdb_check_timeouts now timeout_ns w =
     map_option (map_prod v1_int id) (on_handle_opt (\<lambda>h. indurtdb_h_check_timeouts h now timeout_ns) (w_default w) w)"

definition indurtdb_get_write_count :: "world \<Rightarrow> u64" where
  "indurtdb_get_write_count  w =
     fst (on_handle (\<lambda>h. (indurtdb_h_get_write_count h, h)) (w_default w) w)"

definition indurtdb_get_timeout_count :: "world \<Rightarrow> u64" where
  "indurtdb_get_timeout_count  w =
     fst (on_handle (\<lambda>h. (indurtdb_h_get_timeout_count h, h)) (w_default w) w)"

definition indurtdb_get_scan_skipped :: "world \<Rightarrow> u64" where
  "indurtdb_get_scan_skipped  w =
     fst (on_handle (\<lambda>h. (indurtdb_h_get_scan_skipped h, h)) (w_default w) w)"

definition indurtdb_validate_id :: "u32 \<Rightarrow> world \<Rightarrow> int" where
  "indurtdb_validate_id pid w =
     v1_int (fst (on_handle (\<lambda>h. (indurtdb_h_validate_id h pid, h)) (w_default w) w))"

text \<open>The health of the default instance is not an error code and passed on as it is.\<close>

definition indurtdb_self_check :: "world \<Rightarrow> int \<times> world" where
  "indurtdb_self_check w = on_handle indurtdb_h_self_check (w_default w) w"

end
