(* ===== verification/Instances_Props.thy ===== *)
theory Instances_Props
  imports Api_V1 Directory
begin

text \<open>
  Properties of the instances of a process: the invariant of the table over all sequences of calls,
  fresh handles, handles that share a segment, and what detaching, closing and forking do to it.
\<close>

section \<open>The slots\<close>

definition slot_init :: "world \<Rightarrow> nat \<Rightarrow> bool" where
  "slot_init w i \<longleftrightarrow> initialized (in_h (w_registry w ! i))"

definition world_ok :: "world \<Rightarrow> bool" where
  "world_ok w \<longleftrightarrow> length (w_registry w) = 64
     \<and> (\<forall>i < 64. slot_init w i \<longrightarrow> i < 32 \<and> bit (w_used w) i
          \<and> (\<exists>k. os_mapped (in_os (w_registry w ! i)) = Some k \<and> k < w_next w))
     \<and> (\<forall>i. w_default w = Some i \<longrightarrow> i < 32 \<and> slot_init w i)
     \<and> (\<forall>n k. w_names w n = Some k \<longrightarrow> k < w_next w)"

lemma used_test: "used AND 2 ^ i = 0 \<longleftrightarrow> \<not> bit (used :: u32) i"
  using bit_iff_and_push_bit_not_eq_0 [of used i] by simp

lemma nth_upd: "xs[i := x] ! j = (if i = j \<and> i < length xs then x else xs ! j)"
  by (cases "i < length xs") (simp_all add: list_update_beyond)

lemma alloc_scan_free:
  "alloc_scan used [k..<64] = Some r \<Longrightarrow> k \<le> 32 \<Longrightarrow> \<exists>i. r = Some i \<and> k \<le> i \<and> i < 32 \<and> \<not> bit used i"
proof (induction "32 - k" arbitrary: k)
  case 0
  then show ?case by (simp add: upt_conv_Cons)
next
  case (Suc m)
  then have k: "k < 32" "[k..<64] = k # [Suc k..<64]" by (simp_all add: upt_conv_Cons)
  show ?case
  proof (cases "bit used k")
    case True
    have "alloc_scan used [Suc k..<64] = Some r" using Suc.prems(1) True k by (simp add: used_test)
    moreover have "m = 32 - Suc k" using Suc.hyps(2) by arith
    ultimately obtain i where "r = Some i" "Suc k \<le> i" "i < 32" "\<not> bit used i" using Suc.hyps(1) [of "Suc k"] k(1) by auto
    then show ?thesis by auto
  next
    case False
    then show ?thesis using Suc.prems k by (auto simp: used_test)
  qed
qed

lemma alloc_scan_defined:
  "\<not> bit used i \<Longrightarrow> k \<le> i \<Longrightarrow> i < 32 \<Longrightarrow> alloc_scan used [k..<64] \<noteq> None"
proof (induction "32 - k" arbitrary: k)
  case (Suc m)
  then have k: "k < 32" "[k..<64] = k # [Suc k..<64]" by (simp_all add: upt_conv_Cons)
  show ?case
  proof (cases "k = i")
    case False
    then show ?thesis using Suc.hyps(1) [of "Suc k"] Suc.hyps(2) Suc.prems k by (auto simp: used_test)
  qed (use Suc.prems k in \<open>simp add: used_test\<close>)
qed simp

lemma alloc_scan_full:
  "\<forall>i < 32. bit used i \<Longrightarrow> k \<le> 32 \<Longrightarrow> alloc_scan used [k..<64] = None"
proof (induction "32 - k" arbitrary: k)
  case 0
  then show ?case by (simp add: upt_conv_Cons)
next
  case (Suc m)
  then have k: "k < 32" "[k..<64] = k # [Suc k..<64]" by (simp_all add: upt_conv_Cons)
  then show ?case using Suc.hyps(1) [of "Suc k"] Suc.hyps(2) Suc.prems by (simp add: used_test)
qed

lemma inst_alloc_cases:
  assumes "inst_alloc w = Some (r, w')"
  obtains i where "r = Some i" "i < 32" "\<not> bit (w_used w) i"
    "w' = put_inst i (zero_instance\<lparr>in_h := zero_handle\<lparr>delta_fd := -1\<rparr>\<rparr>) (w\<lparr>w_used := w_used w OR push_bit i 1\<rparr>)"
proof -
  obtain x where x: "alloc_scan (w_used w) [0..<64] = Some x"
    using assms by (auto simp: inst_alloc_def IRT_MAX_INSTANCES_def split: option.splits)
  from alloc_scan_free [OF this] obtain i where "x = Some i" "i < 32" "\<not> bit (w_used w) i" by auto
  then show thesis using assms x that by (auto simp: inst_alloc_def IRT_MAX_INSTANCES_def)
qed

text \<open>
  Opening a 33rd instance runs into an undefined shift: the bitmap has 32 bits for 64 slots, so the
  answer FULL is never given.
\<close>

lemma open_33rd_undefined:
  assumes "\<forall>i < 32. bit (w_used w) i" "instance_id \<noteq> []" "mp \<noteq> 0"
  shows "indurtdb_h_open flt instance_id (Some (mp, ms)) w = None"
  using assms alloc_scan_full [of "w_used w" 0] by (simp add: indurtdb_h_open_def inst_alloc_def IRT_MAX_INSTANCES_def)

section \<open>The invariant of the table\<close>

lemma put_inst_sel [simp]:
  "w_registry (put_inst i x w) = (w_registry w)[i := x]" "w_used (put_inst i x w) = w_used w"
  "w_default (put_inst i x w) = w_default w" "w_names (put_inst i x w) = w_names w" "w_next (put_inst i x w) = w_next w"
  "w_pid (put_inst i x w) = w_pid w" "w_segs (put_inst i x w) = w_segs w" "w_alive (put_inst i x w) = w_alive w"
  by (simp_all add: put_inst_def)

lemma werr_sel [simp]:
  "w_registry (werr m w) = w_registry w" "w_used (werr m w) = w_used w" "w_default (werr m w) = w_default w"
  "w_names (werr m w) = w_names w" "w_next (werr m w) = w_next w" "w_pid (werr m w) = w_pid w"
  "w_segs (werr m w) = w_segs w" "w_alive (werr m w) = w_alive w"
  by (simp_all add: werr_def)

lemma unmap_sel [simp]:
  "w_registry (snd (irt_shm_os_unmap s w)) = w_registry w" "w_used (snd (irt_shm_os_unmap s w)) = w_used w"
  "w_default (snd (irt_shm_os_unmap s w)) = w_default w" "w_next (snd (irt_shm_os_unmap s w)) = w_next w"
  "w_pid (snd (irt_shm_os_unmap s w)) = w_pid w" "w_segs (snd (irt_shm_os_unmap s w)) = w_segs w"
  "w_alive (snd (irt_shm_os_unmap s w)) = w_alive w"
  "w_names (snd (irt_shm_os_unmap s w)) n = (if os_owner s \<and> n = os_name s then None else w_names w n)"
  by (simp_all add: irt_shm_os_unmap_def)

lemma zero_instance_off [simp]: "initialized (in_h zero_instance) = False" "initialized zero_handle = False"
  by (simp_all add: zero_instance_def zero_handle_def)

text \<open>The invariant without the default instance, which a failing start leaves behind for a moment.\<close>

definition slots_ok :: "world \<Rightarrow> bool" where
  "slots_ok w \<longleftrightarrow> length (w_registry w) = 64
     \<and> (\<forall>i < 64. slot_init w i \<longrightarrow> i < 32 \<and> bit (w_used w) i
          \<and> (\<exists>k. os_mapped (in_os (w_registry w ! i)) = Some k \<and> k < w_next w))
     \<and> (\<forall>n k. w_names w n = Some k \<longrightarrow> k < w_next w)"

definition default_ok :: "world \<Rightarrow> bool" where
  "default_ok w \<longleftrightarrow> (\<forall>i. w_default w = Some i \<longrightarrow> i < 32 \<and> slot_init w i)"

lemma world_ok_parts: "world_ok w \<longleftrightarrow> slots_ok w \<and> default_ok w"
  by (auto simp: world_ok_def slots_ok_def default_ok_def)

lemma slots_ok_put_off:
  "slots_ok w \<Longrightarrow> \<not> initialized (in_h x) \<Longrightarrow> slots_ok (put_inst i x w)"
  by (auto simp: slots_ok_def slot_init_def nth_upd)

lemma slots_ok_put_on:
  "slots_ok w \<Longrightarrow> i < 32 \<Longrightarrow> bit (w_used w) i \<Longrightarrow> os_mapped (in_os x) = Some k \<Longrightarrow> k < w_next w \<Longrightarrow> slots_ok (put_inst i x w)"
  by (auto simp: slots_ok_def slot_init_def nth_upd)

lemma slots_ok_unmap: "slots_ok w \<Longrightarrow> slots_ok (snd (irt_shm_os_unmap s w))"
  by (auto simp: slots_ok_def slot_init_def irt_shm_os_unmap_def split: if_splits)

lemma slots_ok_shutdown: "slots_ok w \<Longrightarrow> slots_ok (inst_shutdown i w)"
  by (simp add: inst_shutdown_def Let_def slots_ok_put_off slots_ok_unmap)

lemma shutdown_off: "slots_ok w \<Longrightarrow> i < 64 \<Longrightarrow> \<not> slot_init (inst_shutdown i w) i"
  by (simp add: inst_shutdown_def Let_def slot_init_def slots_ok_def)

lemma shutdown_other: "j \<noteq> i \<Longrightarrow> w_registry (inst_shutdown i w) ! j = w_registry w ! j"
  by (simp add: inst_shutdown_def Let_def)

lemma shutdown_sel [simp]:
  "w_used (inst_shutdown i w) = w_used w" "w_default (inst_shutdown i w) = w_default w"
  "w_pid (inst_shutdown i w) = w_pid w" "w_next (inst_shutdown i w) = w_next w" "w_segs (inst_shutdown i w) = w_segs w"
  "w_alive (inst_shutdown i w) = w_alive w"
  by (simp_all add: inst_shutdown_def Let_def)

lemma disown_sel [simp]:
  "w_used (disown i w) = w_used w" "w_default (disown i w) = w_default w" "w_pid (disown i w) = w_pid w"
  "w_next (disown i w) = w_next w" "w_names (disown i w) = w_names w" "w_segs (disown i w) = w_segs w"
  "w_alive (disown i w) = w_alive w"
  "j \<noteq> i \<Longrightarrow> w_registry (disown i w) ! j = w_registry w ! j"
  by (simp_all add: disown_def)

lemma disown_init [simp]: "slot_init (disown i w) j = slot_init w j"
  by (simp add: disown_def slot_init_def nth_upd)

lemma slots_ok_disown: "slots_ok w \<Longrightarrow> slots_ok (disown i w)"
  unfolding slots_ok_def disown_init by (auto simp: disown_def nth_upd)

text \<open>What the mapping does to the names and the other slots.\<close>

lemma os_map_slots:
  assumes "irt_shm_os_map flt zero_os name zero w = (m, s, w')" "slots_ok w"
  shows "slots_ok w'" "w_registry w' = w_registry w" "w_used w' = w_used w" "w_default w' = w_default w" "w_pid w' = w_pid w"
    "m = os_mapped s" "\<And>k. m = Some k \<Longrightarrow> k < w_next w'" "w_alive w' = w_alive w"
  using assms
  by (auto simp: irt_shm_os_map_def zero_os_def slots_ok_def slot_init_def Let_def less_Suc_eq split: if_splits option.splits; fastforce?)+

lemma shm_init_slots:
  assumes "shm_init flt instance_id mp ms w = (rc, r, w')" "slots_ok w"
  shows "slots_ok w' \<and> w_registry w' = w_registry w \<and> w_used w' = w_used w \<and> w_default w' = w_default w \<and> w_pid w' = w_pid w
    \<and> (\<forall>s os. r = Some (s, os) \<longrightarrow> (\<exists>k. os_mapped os = Some k \<and> k < w_next w'))"
proof -
  have segs: "slots_ok (x\<lparr>w_segs := g\<rparr>) = slots_ok x" for x g by (simp add: slots_ok_def slot_init_def)
  let ?name = "IRT_SHM_PREFIX @ instance_id"
  show ?thesis
  proof (cases "instance_id = [] \<or> mp = 0 \<or> 128 \<le> length ?name")
    case True
    then show ?thesis using assms by (auto simp: shm_init_def Let_def)
  next
    case False
    obtain m os w1 where m: "irt_shm_os_map flt zero_os ?name (zero_segment mp ms) w = (m, os, w1)" by (metis prod_cases3)
    note o = os_map_slots [OF m assms(2)]
    obtain rc' r' where i: "irt_shm_init instance_id mp ms (w_pid w1) (w_alive w1)
        (map_option (\<lambda>k. (irt_shm_os_is_owner os, w_segs w1 k)) m) = (rc', r')" by (metis prod.collapse)
    have r0: "r' = None" if "m = None" using i that by (auto simp: irt_shm_init_def split: if_splits)
    show ?thesis
    proof (cases r')
      case None
      then have "r = None" "w' = (if m = None then w1 else snd (irt_shm_os_unmap os w1))"
        using assms(1) False m i by (auto simp: shm_init_def Let_def)
      then show ?thesis using o slots_ok_unmap by auto
    next
      case (Some p)
      obtain s own where p: "p = (s, own)" by (cases p)
      obtain k where k: "m = Some k" using r0 Some by (cases m) auto
      have "r = Some (s, if own then irt_shm_os_claim_ownership os else os)" "w' = w1\<lparr>w_segs := (w_segs w1)(k := segment.truncate s)\<rparr>"
        using assms(1) False m i Some p k by (auto simp: shm_init_def Let_def)
      moreover have "os_mapped (irt_shm_os_claim_ownership os) = os_mapped os" by (simp add: irt_shm_os_claim_ownership_def)
      moreover have "os_mapped os = Some k" "k < w_next w1" using o(6) o(7) [OF k] k by simp_all
      ultimately show ?thesis using o(1-5) segs by simp
    qed
  qed
qed

lemma inst_init_slots:
  assumes "inst_init flt i instance_id mp ms w = (rc, w')" "slots_ok w" "i < 32" "bit (w_used w) i"
  shows "slots_ok w' \<and> w_used w' = w_used w \<and> w_default w' = w_default w \<and> w_pid w' = w_pid w
    \<and> (\<forall>j. j \<noteq> i \<longrightarrow> w_registry w' ! j = w_registry w ! j)
    \<and> (rc = 0 \<longrightarrow> slot_init w' i) \<and> (\<not> slot_init w i \<longrightarrow> rc \<noteq> 0 \<longrightarrow> \<not> slot_init w' i)"
proof -
  let ?w = "if forked w (in_h (w_registry w ! i)) then inst_shutdown i (disown i w) else w"
  have w: "slots_ok ?w" "w_used ?w = w_used w" "w_default ?w = w_default w" "w_pid ?w = w_pid w"
    "\<And>j. j \<noteq> i \<Longrightarrow> w_registry ?w ! j = w_registry w ! j"
    using assms(2) by (simp_all add: slots_ok_shutdown slots_ok_disown shutdown_other)
  have off: "\<not> slot_init ?w i" if "\<not> slot_init w i" using that by (simp add: forked_def slot_init_def)
  have len: "length (w_registry ?w) = 64" using w(1) by (simp add: slots_ok_def)
  have wslots: "slots_ok (werr m x) = slots_ok x" for m x by (simp add: slots_ok_def slot_init_def)
  have wslot: "slot_init (werr m x) j = slot_init x j" for m x j by (simp add: slot_init_def)
  show ?thesis
  proof (cases "initialized (in_h (w_registry ?w ! i)) \<or> instance_id = [] \<or> mp = 0")
    case True
    then have "\<exists>m. w' = werr m ?w" "rc \<noteq> 0"
      using assms(1) unfolding inst_init_def Let_def by (auto simp: irt_codes split: if_splits)
    then show ?thesis using w off wslots wslot by auto
  next
    case False
    let ?h = "zero_handle\<lparr>delta_fd := -1, default_partition := 0\<rparr>"
    obtain rc1 r w1 where s: "shm_init flt instance_id mp ms ?w = (rc1, r, w1)" by (metis prod_cases3)
    note o = shm_init_slots [OF s w(1)]
    have "slots_ok w1" using o by (rule conjunct1)
    then have len1: "length (w_registry w1) = 64" by (simp add: slots_ok_def)
    show ?thesis
    proof (cases r)
      case None
      have r: "rc = INDURTDB_ERR_ARG" "w' = werr ''shm init failed'' (put_inst i \<lparr>in_h = ?h, in_os = zero_os\<rparr> w1)"
        using assms(1) False s None unfolding inst_init_def Let_def by simp_all
      have "slots_ok (put_inst i \<lparr>in_h = ?h, in_os = zero_os\<rparr> w1)" using o by (intro slots_ok_put_off) simp_all
      moreover have "\<not> slot_init w' i" using len1 assms(3) by (simp add: r slot_init_def)
      ultimately show ?thesis using r o w wslots by (simp add: irt_codes)
    next
      case (Some p)
      obtain sh os where p: "p = (sh, os)" by (cases p)
      let ?x = "\<lparr>in_h = ?h\<lparr>h_shm := sh, h_sub := irt_sub_init, initialized := True, h_owner_pid := w_pid w1\<rparr>, in_os = os\<rparr>"
      have r: "rc = 0" "w' = put_inst i ?x w1"
        using assms(1) False s Some p unfolding inst_init_def Let_def by simp_all
      obtain k where k: "os_mapped os = Some k" "k < w_next w1" using o Some p by blast
      have "slots_ok w'" unfolding r(2) using o w assms(3,4) k by (intro slots_ok_put_on) simp_all
      moreover have "slot_init w' i" using len1 assms(3) by (simp add: r slot_init_def)
      ultimately show ?thesis using r o w by simp
    qed
  qed
qed

lemma free_bit: "bit (w_used (inst_free i w)) j \<longleftrightarrow> bit (w_used w) j \<and> i \<noteq> j"
  by (auto simp: inst_free_def bit_and_iff bit_not_iff bit_exp_iff dest: bit_imp_le_length)

lemma free_sel [simp]:
  "w_registry (inst_free i w) = w_registry w" "w_default (inst_free i w) = w_default w" "w_names (inst_free i w) = w_names w"
  "w_next (inst_free i w) = w_next w" "w_pid (inst_free i w) = w_pid w" "slot_init (inst_free i w) j = slot_init w j"
  "w_segs (inst_free i w) = w_segs w" "w_alive (inst_free i w) = w_alive w"
  by (simp_all add: inst_free_def slot_init_def)

lemma slots_ok_free: "slots_ok w \<Longrightarrow> \<not> slot_init w i \<Longrightarrow> slots_ok (inst_free i w)"
  by (auto simp: slots_ok_def free_bit)

lemma slots_ok_default: "slots_ok (w\<lparr>w_default := d\<rparr>) = slots_ok w"
  by (simp add: slots_ok_def slot_init_def)

lemma alloc_slots:
  assumes "slots_ok w" "i < 32" "\<not> bit (w_used w) i"
  defines "w1 \<equiv> put_inst i (zero_instance\<lparr>in_h := zero_handle\<lparr>delta_fd := -1\<rparr>\<rparr>) (w\<lparr>w_used := w_used w OR push_bit i 1\<rparr>)"
  shows "slots_ok w1 \<and> bit (w_used w1) i \<and> \<not> slot_init w1 i \<and> \<not> slot_init w i \<and> w_default w1 = w_default w
    \<and> (\<forall>j. j \<noteq> i \<longrightarrow> w_registry w1 ! j = w_registry w ! j)"
proof -
  have b: "bit (w_used w OR push_bit i 1) j \<longleftrightarrow> bit (w_used w) j \<or> j = i" for j
    using assms(2) by (auto simp: bit_or_iff bit_exp_iff)
  have n: "\<not> slot_init w i" using assms(1-3) by (auto simp: slots_ok_def)
  have "slots_ok (w\<lparr>w_used := w_used w OR push_bit i 1\<rparr>)"
    using assms(1) b by (auto simp: slots_ok_def slot_init_def)
  then have "slots_ok w1" unfolding w1_def by (rule slots_ok_put_off) simp
  moreover have "\<not> slot_init w1 i" using assms(1,2) by (simp add: w1_def slot_init_def slots_ok_def)
  ultimately show ?thesis using n b by (simp add: w1_def)
qed

lemma default_frame:
  assumes "default_ok w" "w_default w' = w_default w" "\<And>j. w_default w = Some j \<Longrightarrow> slot_init w' j = slot_init w j"
  shows "default_ok w'"
  using assms by (simp add: default_ok_def)

lemma open_ok:
  assumes "world_ok w" "indurtdb_h_open flt instance_id cfg w = Some ((rc, h), w')"
  shows "world_ok w' \<and> w_default w' = w_default w
    \<and> (case h of None \<Rightarrow> rc \<noteq> 0 \<and> (\<forall>j. slot_init w' j = slot_init w j)
       | Some i \<Rightarrow> rc = 0 \<and> i < 32 \<and> \<not> slot_init w i \<and> slot_init w' i \<and> (\<forall>j. j \<noteq> i \<longrightarrow> w_registry w' ! j = w_registry w ! j))"
proof -
  have ok: "slots_ok w" "default_ok w" using assms(1) by (simp_all add: world_ok_parts)
  have ws: "world_ok (werr m w)" "slot_init (werr m w) j = slot_init w j" for m j
    using assms(1) by (simp_all add: world_ok_def slot_init_def)
  show ?thesis
  proof (cases "\<exists>m. w' = werr m w \<and> h = None \<and> rc \<noteq> 0")
    case True
    then show ?thesis using ws by auto
  next
    case False
    then obtain r w1 mp ms where a: "inst_alloc w = Some (r, w1)" "instance_id \<noteq> []" "mp \<noteq> 0" "cfg = Some (mp, ms)"
      using assms(2) by (auto simp: indurtdb_h_open_def Let_def irt_codes split: if_splits option.splits)
    from inst_alloc_cases [OF a(1)] obtain i where
      i: "r = Some i" "i < 32" "\<not> bit (w_used w) i"
        "w1 = put_inst i (zero_instance\<lparr>in_h := zero_handle\<lparr>delta_fd := -1\<rparr>\<rparr>) (w\<lparr>w_used := w_used w OR push_bit i 1\<rparr>)"
      by blast
    note al = alloc_slots [OF ok(1) i(2,3), folded i(4)]
    obtain rc2 w2 where n: "inst_init flt i instance_id mp ms w1 = (rc2, w2)" by (metis prod.collapse)
    have "slots_ok w1" "bit (w_used w1) i" using al by simp_all
    note o = inst_init_slots [OF n this(1) i(2) this(2)]
    have dn: "w_default w \<noteq> Some i" using ok(2) al by (auto simp: default_ok_def)
    have oth: "slot_init w2 j = slot_init w j" if "j \<noteq> i" for j using o al that by (simp add: slot_init_def)
    show ?thesis
    proof (cases "rc2 = 0")
      case True
      then have r: "rc = 0" "h = Some i" "w' = w2"
        using assms(2) a i(1) n by (auto simp: indurtdb_h_open_def Let_def)
      have "default_ok w2" using ok(2) oth dn o al by (intro default_frame [OF ok(2)]) auto
      then show ?thesis using r o al i True by (simp add: world_ok_parts)
    next
      case F: False
      then have r: "rc \<noteq> 0" "h = None" "w' = inst_free i w2"
        using assms(2) a i(1) n by (auto simp: indurtdb_h_open_def Let_def)
      have off: "\<not> slot_init w2 i" using o al F by simp
      have "default_ok w'" using ok(2) oth dn o al r by (intro default_frame [OF ok(2)]) auto
      moreover have "slot_init w' j = slot_init w j" for j using oth [of j] off al r(3) by (cases "j = i") auto
      ultimately show ?thesis using r o al off slots_ok_free by (simp add: world_ok_parts)
    qed
  qed
qed

lemma close_ok:
  assumes "world_ok w" "\<forall>i. h = Some i \<longrightarrow> i < 64"
  shows "world_ok (indurtdb_h_close h w)"
proof (cases h)
  case None
  then show ?thesis using assms by (simp add: indurtdb_h_close_def)
next
  case (Some i)
  let ?w = "inst_shutdown i w"
  let ?w1 = "if w_default ?w = Some i then ?w\<lparr>w_default := None\<rparr> else ?w"
  have ok: "slots_ok w" "default_ok w" using assms(1) by (simp_all add: world_ok_parts)
  have s: "slots_ok ?w" "\<not> slot_init ?w i" using slots_ok_shutdown [OF ok(1)] shutdown_off [OF ok(1)] assms(2) Some by simp_all
  have "slots_ok (inst_free i ?w1)"
    using s slots_ok_default by (intro slots_ok_free) (auto simp: slot_init_def)
  moreover have "slot_init ?w j = slot_init w j" if "j \<noteq> i" for j
    using shutdown_other [OF that] by (simp add: slot_init_def)
  then have "default_ok (inst_free i ?w1)"
    using ok(2) by (auto simp: default_ok_def slot_init_def inst_free_def)
  ultimately show ?thesis by (simp add: indurtdb_h_close_def Some Let_def world_ok_parts)
qed

lemma disown_ok: "world_ok w \<Longrightarrow> world_ok (disown i w)"
  by (simp add: world_ok_parts slots_ok_disown default_ok_def)

lemma initialize_ok:
  assumes "world_ok w" "indurtdb_initialize flt instance_id mp ms w = Some (rc, w')"
  shows "world_ok w'"
proof -
  have ok: "slots_ok w" "default_ok w" using assms(1) by (simp_all add: world_ok_parts)
  have ws: "world_ok (werr m w)" for m using assms(1) by (simp add: world_ok_def slot_init_def)
  text \<open>The start of the default instance in a slot that is its own.\<close>
  have start: "world_ok (if r \<noteq> 0 then (inst_free i x')\<lparr>w_default := None\<rparr> else x')"
    if "inst_init flt i instance_id mp ms x = (r, x')" "slots_ok x" "i < 32" "bit (w_used x) i"
      "\<not> slot_init x i" "w_default x = Some i" for i x r x'
  proof -
    note o = inst_init_slots [OF that(1-4)]
    show ?thesis
    proof (cases "r = 0")
      case True
      then show ?thesis using o that(3,6) by (simp add: world_ok_parts default_ok_def)
    next
      case False
      have "\<not> slot_init x' i" using o that(5) False by simp
      then show ?thesis using o False slots_ok_free slots_ok_default by (simp add: world_ok_parts default_ok_def)
    qed
  qed
  show ?thesis
  proof (cases "w_default w")
    case (Some i)
    have i: "i < 32" "slot_init w i" "bit (w_used w) i" using ok Some by (auto simp: default_ok_def slots_ok_def)
    show ?thesis
    proof (cases "forked w (in_h (w_registry w ! i))")
      case False
      then have "w' = werr ''already initialized'' w"
        using assms(2) Some i(2) by (simp add: indurtdb_initialize_def slot_init_def)
      then show ?thesis using ws by simp
    next
      case True
      let ?x = "inst_shutdown i (disown i w)"
      obtain r x' where x: "inst_init flt i instance_id mp ms ?x = (r, x')" by (metis prod.collapse)
      have "slots_ok (disown i w)" using ok(1) by (rule slots_ok_disown)
      then have "slots_ok ?x" "\<not> slot_init ?x i" using i slots_ok_shutdown shutdown_off by simp_all
      from start [OF x this(1) i(1) _ this(2)] i Some have "world_ok (if r \<noteq> 0 then (inst_free i x')\<lparr>w_default := None\<rparr> else x')"
        by simp
      moreover have "w' = (if r \<noteq> 0 then (inst_free i x')\<lparr>w_default := None\<rparr> else x')"
        using assms(2) Some i(2) True x by (auto simp: indurtdb_initialize_def slot_init_def Let_def)
      ultimately show ?thesis by simp
    qed
  next
    case None
    obtain r w1 where a: "inst_alloc w = Some (r, w1)"
      using assms(2) None by (auto simp: indurtdb_initialize_def Let_def split: option.splits)
    from inst_alloc_cases [OF a] obtain i where
      i: "r = Some i" "i < 32" "\<not> bit (w_used w) i"
        "w1 = put_inst i (zero_instance\<lparr>in_h := zero_handle\<lparr>delta_fd := -1\<rparr>\<rparr>) (w\<lparr>w_used := w_used w OR push_bit i 1\<rparr>)"
      by blast
    note al = alloc_slots [OF ok(1) i(2,3), folded i(4)]
    let ?x = "w1\<lparr>w_default := Some i\<rparr>"
    obtain r2 x' where x: "inst_init flt i instance_id mp ms ?x = (r2, x')" by (metis prod.collapse)
    have "slots_ok ?x" "bit (w_used ?x) i" "\<not> slot_init ?x i" using al slots_ok_default by (simp_all add: slot_init_def)
    from start [OF x this(1) i(2) this(2,3)] have "world_ok (if r2 \<noteq> 0 then (inst_free i x')\<lparr>w_default := None\<rparr> else x')" by simp
    moreover have "w' = (if r2 \<noteq> 0 then (inst_free i x')\<lparr>w_default := None\<rparr> else x')"
      using assms(2) None a i(1) x by (auto simp: indurtdb_initialize_def Let_def)
    ultimately show ?thesis by simp
  qed
qed

section \<open>Sequences of calls\<close>

text \<open>An operation on a handle neither starts nor stops it.\<close>

definition is_operation :: "(indurtdb \<Rightarrow> 'r \<times> indurtdb) \<Rightarrow> bool" where
  "is_operation f \<longleftrightarrow> (\<forall>h. initialized (snd (f h)) = initialized h)"

inductive inst_step :: "world \<Rightarrow> world \<Rightarrow> bool" where
  step_open: "indurtdb_h_open flt instance_id cfg w = Some (r, w') \<Longrightarrow> inst_step w w'"
| step_close: "\<forall>i. h = Some i \<longrightarrow> i < 64 \<Longrightarrow> inst_step w (indurtdb_h_close h w)"
| step_initialize: "indurtdb_initialize flt instance_id mp ms w = Some (rc, w') \<Longrightarrow> inst_step w w'"
| step_shutdown: "inst_step w (indurtdb_shutdown w)"
| step_detach: "inst_step w (indurtdb_detach w)"
| step_operation: "is_operation f \<Longrightarrow> inst_step w (snd (on_handle (f :: indurtdb \<Rightarrow> int \<times> indurtdb) h w))"
| step_fork: "inst_step w (w\<lparr>w_pid := p\<rparr>)"

inductive inst_reachable :: "world \<Rightarrow> world \<Rightarrow> bool" for w0 where
  reach_start: "inst_reachable w0 w0"
| reach_step: "inst_reachable w0 w \<Longrightarrow> inst_step w w' \<Longrightarrow> inst_reachable w0 w'"

definition fresh_world :: "u32 \<Rightarrow> world" where
  "fresh_world pid = \<lparr>w_pid = pid, w_alive = (\<lambda>_. True), w_names = (\<lambda>_. None), w_segs = (\<lambda>_. zero_segment 0 0), w_next = 0,
     w_registry = replicate 64 zero_instance, w_used = 0, w_default = None, w_error = []\<rparr>"

lemma fresh_world_ok: "world_ok (fresh_world pid)"
  by (simp add: world_ok_def fresh_world_def slot_init_def)

lemma operation_ok:
  assumes "world_ok w" "is_operation f"
  shows "world_ok (snd (on_handle f h w))"
proof (cases h)
  case None
  then show ?thesis using assms(1) by (simp add: on_handle_def split_beta Let_def world_ok_def slot_init_def)
next
  case (Some i)
  let ?w' = "snd (on_handle f h w)"
  have ini: "initialized (snd (f (view w i))) = slot_init w i"
    using assms(2) by (simp add: is_operation_def view_def slot_init_def Let_def)
  have sel: "w_registry ?w' = (w_registry w)[i := (w_registry w ! i)\<lparr>in_h := snd (f (view w i))\<rparr>]"
    "w_used ?w' = w_used w" "w_default ?w' = w_default w" "w_next ?w' = w_next w" "w_names ?w' = w_names w"
    by (simp_all add: on_handle_def Some split_beta Let_def write_back_def split: option.split)
  have s: "slot_init ?w' j = slot_init w j" for j
    using ini by (auto simp: slot_init_def sel(1) nth_upd)
  have m: "in_os (w_registry ?w' ! j) = in_os (w_registry w ! j)" for j by (simp add: sel(1) nth_upd)
  show ?thesis using assms(1) unfolding world_ok_def s m unfolding sel by simp
qed

lemma step_ok: "inst_step w w' \<Longrightarrow> world_ok w \<Longrightarrow> world_ok w'"
proof (induction rule: inst_step.induct)
  case (step_open flt instance_id cfg w r w')
  then show ?case using open_ok [of w flt instance_id cfg "fst r" "snd r" w'] by simp
next
  case (step_shutdown w)
  have "\<forall>i. w_default w = Some i \<longrightarrow> i < 64" using step_shutdown by (auto simp: world_ok_def)
  then show ?case using close_ok step_shutdown by (simp add: indurtdb_shutdown_def)
next
  case (step_detach w)
  have "\<forall>i. w_default w = Some i \<longrightarrow> i < 64" using step_detach by (auto simp: world_ok_def)
  then show ?case
    using close_ok [OF disown_ok] step_detach by (simp add: indurtdb_detach_def split: option.split)
next
  case (step_fork w p)
  then show ?case by (simp add: world_ok_def slot_init_def)
qed (auto intro: close_ok initialize_ok operation_ok)

lemma reachable_ok: "inst_reachable w0 w \<Longrightarrow> world_ok w0 \<Longrightarrow> world_ok w"
  by (induction rule: inst_reachable.induct) (auto intro: step_ok)

text \<open>
  C32. Opening returns a fresh handle: after any sequence of opening, closing, starting, stopping,
  detaching, operating and forking in a process, a successful open yields one of 32 slots that no
  open handle uses, leaves every other handle and the default instance alone, and the table keeps its
  invariant: open instances own their bit and a mapped segment, and the default instance is open.
\<close>

theorem open_returns_fresh_handle:
  assumes "inst_reachable (fresh_world pid) w" "indurtdb_h_open flt instance_id cfg w = Some ((0, Some i), w')"
  shows "i < 32 \<and> \<not> slot_init w i \<and> slot_init w' i \<and> w_default w \<noteq> Some i \<and> w_default w' = w_default w
    \<and> (\<forall>j. j \<noteq> i \<longrightarrow> w_registry w' ! j = w_registry w ! j) \<and> world_ok w'"
proof -
  have ok: "world_ok w" by (rule reachable_ok [OF assms(1) fresh_world_ok])
  from open_ok [OF ok assms(2)] show ?thesis using ok by (auto simp: world_ok_def)
qed

theorem open_returns_fresh_handle_witness:
  "\<exists>w'. indurtdb_h_open No_fault ''plc'' (Some (4, 1)) (fresh_world 7) = Some ((0, Some 0), w') \<and> slot_init w' 0"
proof -
  have "alloc_scan 0 [0..<64] = Some (Some 0)" by (simp add: upt_conv_Cons)
  then have "\<exists>w'. indurtdb_h_open No_fault ''plc'' (Some (4, 1)) (fresh_world 7) = Some ((0, Some 0), w')"
    by (simp add: indurtdb_h_open_def inst_alloc_def IRT_MAX_INSTANCES_def fresh_world_def inst_init_def Let_def forked_def
        put_inst_def zero_instance_def zero_handle_def shm_init_def IRT_SHM_PREFIX_def irt_shm_os_map_def zero_os_def
        irt_shm_init_def irt_shm_os_is_owner_def)
  then show ?thesis using open_returns_fresh_handle [OF reach_start [of "fresh_world 7"]] by blast
qed

section \<open>Creating and attaching\<close>

lemma handle_on_truncate: "(handle_on (segment.truncate s) (s_max_points s) (s_max_subscribers s))\<lparr>lock_env := lock_env s\<rparr> = s"
  by (cases s) (simp add: handle_on_def segment.defs)

lemma shm_init_create:
  assumes "w_names x (IRT_SHM_PREFIX @ instance_id) = None" "instance_id \<noteq> []" "mp \<noteq> 0" "length (IRT_SHM_PREFIX @ instance_id) < 64"
  shows "\<exists>os. shm_init No_fault instance_id mp ms x = (0, Some (fresh_shm mp ms (w_pid x), os),
      x\<lparr>w_names := (w_names x)(IRT_SHM_PREFIX @ instance_id \<mapsto> w_next x),
        w_segs := (w_segs x)(w_next x := segment.truncate (fresh_shm mp ms (w_pid x))), w_next := Suc (w_next x)\<rparr>)
    \<and> os_mapped os = Some (w_next x) \<and> os_owner os \<and> os_name os = IRT_SHM_PREFIX @ instance_id"
  using assms
  by (simp add: shm_init_def Let_def irt_shm_os_map_def zero_os_def irt_shm_init_def fresh_shm_def irt_shm_os_is_owner_def
      irt_shm_os_claim_ownership_def)

lemma shm_init_attach:
  fixes x :: world and instance_id :: string
  defines "name \<equiv> IRT_SHM_PREFIX @ instance_id"
  assumes "w_names x name = Some k" "instance_id \<noteq> []" "mp \<noteq> 0" "length name < 64"
    "magic (w_segs x k) = IRT_MAGIC" "version (w_segs x k) = IRT_SHM_VERSION" "mp \<le> max_points (w_segs x k)"
    "ms \<le> max_subscribers (w_segs x k)" "irt_header_verify (handle_on (w_segs x k) mp ms)"
  shows "\<exists>s os. shm_init No_fault instance_id mp ms x = (0, Some (s, os), x\<lparr>w_segs := (w_segs x)(k := segment.truncate s)\<rparr>)
    \<and> os_mapped os = Some k \<and> points s = points (w_segs x k) \<and> slots s = slots (w_segs x k) \<and> metas s = metas (w_segs x k)"
proof -
  let ?h = "handle_on (w_segs x k) mp ms"
  obtain s own where a: "init_attach ?h (w_pid x) (w_alive x) = (s, own)" by (metis prod.collapse)
  have i: "irt_shm_init instance_id mp ms (w_pid x) (w_alive x) (Some (False, w_segs x k)) = (0, Some (s, own))"
    using assms a by (simp add: irt_shm_init_def Let_def not_less)
  have "points s = points ?h \<and> slots s = slots ?h \<and> metas s = metas ?h"
    using init_attach_fields(1-3) [OF a] by simp
  then show ?thesis
    using assms i by (auto simp: shm_init_def Let_def irt_shm_os_map_def zero_os_def irt_shm_os_is_owner_def
        irt_shm_os_claim_ownership_def name_def)
qed

text \<open>The start of the default instance in a process without one.\<close>

lemma initialize_start:
  assumes "slots_ok w" "w_default w = None" "i < 32" "\<not> bit (w_used w) i" "instance_id \<noteq> []" "mp \<noteq> 0"
  obtains j x where "w_names x = w_names w" "w_segs x = w_segs w" "w_next x = w_next w" "w_pid x = w_pid w" "w_alive x = w_alive w"
    "\<And>s os x' k. shm_init flt instance_id mp ms x = (0, Some (s, os), x') \<Longrightarrow> os_mapped os = Some k \<Longrightarrow>
       w_segs x' k = segment.truncate s \<Longrightarrow>
       \<exists>w'. indurtdb_initialize flt instance_id mp ms w = Some (0, w') \<and> w_default w' = Some j \<and> h_shm (view w' j) = s"
proof -
  have "alloc_scan (w_used w) [0..<64] \<noteq> None" using assms(3,4) by (intro alloc_scan_defined) simp_all
  then have "inst_alloc w \<noteq> None" by (auto simp: inst_alloc_def IRT_MAX_INSTANCES_def split: option.split)
  then obtain r w1 where a: "inst_alloc w = Some (r, w1)" by (metis not_None_eq prod.collapse)
  from inst_alloc_cases [OF a] obtain j where
    j: "r = Some j" "j < 32" "\<not> bit (w_used w) j"
      "w1 = put_inst j (zero_instance\<lparr>in_h := zero_handle\<lparr>delta_fd := -1\<rparr>\<rparr>) (w\<lparr>w_used := w_used w OR push_bit j 1\<rparr>)"
    by blast
  let ?x = "w1\<lparr>w_default := Some j\<rparr>"
  note al = alloc_slots [OF assms(1) j(2,3), folded j(4)]
  have sx: "slots_ok ?x" using al by (simp add: slots_ok_default)
  have off: "\<not> initialized (in_h (w_registry ?x ! j))" using al by (simp add: slot_init_def)
  then have nf: "\<not> forked ?x (in_h (w_registry ?x ! j))" by (simp add: forked_def)
  show thesis
  proof (rule that [of ?x j])
    fix s os x' k
    assume s: "shm_init flt instance_id mp ms ?x = (0, Some (s, os), x')" "os_mapped os = Some k" "w_segs x' k = segment.truncate s"
    note o = shm_init_slots [OF s(1) sx]
    let ?h = "zero_handle\<lparr>delta_fd := -1, default_partition := 0\<rparr>"
    let ?w' = "put_inst j \<lparr>in_h = ?h\<lparr>h_shm := s, h_sub := irt_sub_init, initialized := True, h_owner_pid := w_pid x'\<rparr>, in_os = os\<rparr> x'"
    have "inst_init flt j instance_id mp ms ?x = (0, ?w')"
      using nf off assms(5,6) s unfolding inst_init_def Let_def by simp
    then have "indurtdb_initialize flt instance_id mp ms w = Some (0, ?w')"
      using assms(2) a j(1) by (simp add: indurtdb_initialize_def Let_def)
    moreover have "w_default ?w' = Some j" using o by simp
    moreover have "slots_ok x'" using o by (rule conjunct1)
    then have "j < length (w_registry x')" using j(2) by (simp add: slots_ok_def)
    then have "h_shm (view ?w' j) = s" using s(2,3) handle_on_truncate by (simp add: view_def Let_def)
    ultimately show "\<exists>w'. indurtdb_initialize flt instance_id mp ms w = Some (0, w') \<and> w_default w' = Some j \<and> h_shm (view w' j) = s"
      by blast
  qed (simp_all add: j(4))
qed

section \<open>Detaching, stopping and forking\<close>

lemma detach_frame:
  assumes "w_default w = Some i" "world_ok w"
  shows "slots_ok (indurtdb_detach w)" "w_default (indurtdb_detach w) = None" "\<not> bit (w_used (indurtdb_detach w)) i"
    "w_segs (indurtdb_detach w) = w_segs w" "w_pid (indurtdb_detach w) = w_pid w" "w_alive (indurtdb_detach w) = w_alive w"
    "w_names (indurtdb_detach w) = w_names w"
proof -
  have i: "i < 32" "slot_init w i" "length (w_registry w) = 64" using assms by (auto simp: world_ok_def)
  have "\<forall>j. Some i = Some j \<longrightarrow> j < 64" using i by auto
  then have "world_ok (indurtdb_h_close (Some i) (disown i w))" by (rule close_ok [OF disown_ok [OF assms(2)]])
  then show "slots_ok (indurtdb_detach w)" by (simp add: indurtdb_detach_def assms(1) world_ok_parts)
  show "w_default (indurtdb_detach w) = None" "\<not> bit (w_used (indurtdb_detach w)) i"
    "w_segs (indurtdb_detach w) = w_segs w" "w_pid (indurtdb_detach w) = w_pid w" "w_alive (indurtdb_detach w) = w_alive w"
    using assms(1) by (simp_all add: indurtdb_detach_def indurtdb_h_close_def Let_def free_bit)
  have "initialized (in_h (w_registry (disown i w) ! i))" "\<not> os_owner (in_os (w_registry (disown i w) ! i))"
    using i disown_init [of i w i] by (simp_all add: slot_init_def disown_def)
  then show "w_names (indurtdb_detach w) = w_names w"
    using assms(1) by (simp add: indurtdb_detach_def indurtdb_h_close_def Let_def inst_shutdown_def fun_eq_iff)
qed

lemma shutdown_frame:
  assumes "w_default w = Some i" "world_ok w" "os_owner (in_os (w_registry w ! i))"
  shows "slots_ok (indurtdb_shutdown w)" "w_default (indurtdb_shutdown w) = None" "\<not> bit (w_used (indurtdb_shutdown w)) i"
    "w_names (indurtdb_shutdown w) = (w_names w)(os_name (in_os (w_registry w ! i)) := None)" "w_pid (indurtdb_shutdown w) = w_pid w"
proof -
  have i: "i < 32" "slot_init w i" using assms(1,2) by (auto simp: world_ok_def)
  have "\<forall>j. Some i = Some j \<longrightarrow> j < 64" using i by auto
  then have "world_ok (indurtdb_h_close (Some i) w)" by (rule close_ok [OF assms(2)])
  then show "slots_ok (indurtdb_shutdown w)" by (simp add: indurtdb_shutdown_def assms(1) world_ok_parts)
  show "w_default (indurtdb_shutdown w) = None" "\<not> bit (w_used (indurtdb_shutdown w)) i" "w_pid (indurtdb_shutdown w) = w_pid w"
    using assms(1) by (simp_all add: indurtdb_shutdown_def indurtdb_h_close_def Let_def free_bit)
  show "w_names (indurtdb_shutdown w) = (w_names w)(os_name (in_os (w_registry w ! i)) := None)"
    using assms(1,3) i(2) by (simp add: indurtdb_shutdown_def indurtdb_h_close_def Let_def inst_shutdown_def slot_init_def fun_eq_iff)
qed

text \<open>A process with two handles on one segment; the first one is the default instance and the owner.\<close>

definition demo_os :: "bool \<Rightarrow> irt_shm_os" where
  "demo_os own = \<lparr>os_name = IRT_SHM_PREFIX @ ''plc'', os_mapped = Some 0, os_owner = own\<rparr>"

definition demo_world :: world where
  "demo_world = (fresh_world 7)\<lparr>w_names := [IRT_SHM_PREFIX @ ''plc'' \<mapsto> 0],
     w_segs := (\<lambda>_. segment.truncate (fresh_shm 4 1 7)), w_next := 1, w_used := 3, w_default := Some 0,
     w_registry := (replicate 64 zero_instance)
       [0 := \<lparr>in_h = demo_handle, in_os = demo_os True\<rparr>, 1 := \<lparr>in_h = demo_handle, in_os = demo_os False\<rparr>]\<rparr>"

lemma demo_registry: "w_registry demo_world ! i = (if i = 0 then \<lparr>in_h = demo_handle, in_os = demo_os True\<rparr>
    else if i = 1 then \<lparr>in_h = demo_handle, in_os = demo_os False\<rparr> else replicate 64 zero_instance ! i)"
  by (simp add: demo_world_def nth_upd)

lemma demo_world_ok: "world_ok demo_world"
proof -
  have s: "slot_init demo_world i \<longleftrightarrow> i < 2" if "i < 64" for i
    using that by (auto simp: slot_init_def demo_registry demo_handle_def)
  have b: "bit (3 :: u32) i" if "i < 2" for i using that by (auto simp: less_2_cases_iff bit_iff_odd)
  have "length (w_registry demo_world) = 64" "w_used demo_world = 3" "w_next demo_world = 1" "w_default demo_world = Some 0"
    "w_names demo_world = [IRT_SHM_PREFIX @ ''plc'' \<mapsto> 0]" by (simp_all add: demo_world_def)
  then show ?thesis using s b by (auto simp: world_ok_def demo_registry demo_os_def)
qed

lemma demo_view: "i < 2 \<Longrightarrow> view demo_world i = demo_handle"
proof -
  assume i: "i < 2"
  have "(handle_on (segment.truncate (fresh_shm 4 1 7)) 4 1)\<lparr>lock_env := []\<rparr> = fresh_shm 4 1 7"
    using handle_on_truncate [of "fresh_shm 4 1 7"] by (simp add: fresh_shm_fields)
  moreover have "w_segs demo_world 0 = segment.truncate (fresh_shm 4 1 7)" "w_error demo_world = []"
    by (simp_all add: demo_world_def fresh_world_def)
  ultimately show ?thesis
    using i by (auto simp: view_def Let_def demo_registry demo_os_def demo_handle_def fresh_shm_fields)
qed

text \<open>The default instance is the owner of a sound segment of the given name and size.\<close>

definition owns_segment :: "world \<Rightarrow> nat \<Rightarrow> nat \<Rightarrow> string \<Rightarrow> u32 \<Rightarrow> u32 \<Rightarrow> bool" where
  "owns_segment w i k instance_id mp ms \<longleftrightarrow>
     world_ok w \<and> w_default w = Some i \<and> os_mapped (in_os (w_registry w ! i)) = Some k
     \<and> os_owner (in_os (w_registry w ! i)) \<and> os_name (in_os (w_registry w ! i)) = IRT_SHM_PREFIX @ instance_id
     \<and> w_names w (IRT_SHM_PREFIX @ instance_id) = Some k
     \<and> instance_id \<noteq> [] \<and> length (IRT_SHM_PREFIX @ instance_id) < 64 \<and> mp \<noteq> 0 \<and> unat mp \<le> 2 ^ 24
     \<and> version (w_segs w k) = IRT_SHM_VERSION \<and> mp \<le> max_points (w_segs w k) \<and> ms \<le> max_subscribers (w_segs w k)
     \<and> irt_header_verify (handle_on (w_segs w k) mp ms)"

text \<open>
  C23. Detaching keeps the points, stopping the owner discards them: when the default instance owns its
  segment, then after a detach a new start under the same name attaches to the same segment, with
  every point, index slot and metadata record, and so the whole directory, as before; after a
  shutdown it creates a new segment with an empty directory.
\<close>

theorem detach_keeps_shutdown_discards:
  assumes "owns_segment w i k instance_id mp ms"
  shows "(\<exists>w' j. indurtdb_initialize No_fault instance_id mp ms (indurtdb_detach w) = Some (0, w') \<and> w_default w' = Some j
      \<and> points (h_shm (view w' j)) = points (h_shm (view w i)) \<and> slots (h_shm (view w' j)) = slots (h_shm (view w i))
      \<and> metas (h_shm (view w' j)) = metas (h_shm (view w i)) \<and> dir_map (view w' j) = dir_map (view w i))
    \<and> (\<exists>w' j. indurtdb_initialize No_fault instance_id mp ms (indurtdb_shutdown w) = Some (0, w') \<and> w_default w' = Some j
      \<and> dir_map (view w' j) = Map.empty)"
proof -
  note a = assms [unfolded owns_segment_def]
  have i32: "i < 32" using a by (auto simp: world_ok_def)
  have v: "points (h_shm (view w i)) = points (w_segs w k)" "slots (h_shm (view w i)) = slots (w_segs w k)"
    "metas (h_shm (view w i)) = metas (w_segs w k)"
    using a by (simp_all add: view_def Let_def)
  have id: "instance_id \<noteq> []" "mp \<noteq> 0" using a by simp_all
  have "\<exists>w' j. indurtdb_initialize No_fault instance_id mp ms (indurtdb_detach w) = Some (0, w') \<and> w_default w' = Some j
      \<and> points (h_shm (view w' j)) = points (w_segs w k) \<and> slots (h_shm (view w' j)) = slots (w_segs w k)
      \<and> metas (h_shm (view w' j)) = metas (w_segs w k)"
  proof -
    have d: "w_default w = Some i" "world_ok w" using a by simp_all
    note f = detach_frame [OF d]
    obtain j x where x: "w_names x = w_names w" "w_segs x = w_segs w"
      "\<And>s os x' k. shm_init No_fault instance_id mp ms x = (0, Some (s, os), x') \<Longrightarrow> os_mapped os = Some k \<Longrightarrow>
         w_segs x' k = segment.truncate s \<Longrightarrow> \<exists>w'. indurtdb_initialize No_fault instance_id mp ms (indurtdb_detach w) = Some (0, w')
           \<and> w_default w' = Some j \<and> h_shm (view w' j) = s"
      using initialize_start [OF f(1,2) i32 f(3) id, of No_fault ms] f(4,7) by metis
    have "magic (w_segs w k) = IRT_MAGIC" using a by (simp add: irt_header_verify_def)
    with shm_init_attach [of x instance_id k mp ms] x(1,2) a obtain s os where
      s: "shm_init No_fault instance_id mp ms x = (0, Some (s, os), x\<lparr>w_segs := (w_segs x)(k := segment.truncate s)\<rparr>)"
        "os_mapped os = Some k" "points s = points (w_segs w k)" "slots s = slots (w_segs w k)" "metas s = metas (w_segs w k)"
      by auto
    obtain w' where "indurtdb_initialize No_fault instance_id mp ms (indurtdb_detach w) = Some (0, w')"
        "w_default w' = Some j" "h_shm (view w' j) = s"
      using x(3) [OF s(1,2)] by auto
    then show ?thesis using s(3-5) by auto
  qed
  moreover have "\<exists>w' j. indurtdb_initialize No_fault instance_id mp ms (indurtdb_shutdown w) = Some (0, w') \<and> w_default w' = Some j
      \<and> dir_map (view w' j) = Map.empty"
  proof -
    have d: "w_default w = Some i" "world_ok w" "os_owner (in_os (w_registry w ! i))" using a by simp_all
    note f = shutdown_frame [OF d]
    obtain j x where x: "w_names x = w_names (indurtdb_shutdown w)"
      "\<And>s os x' k. shm_init No_fault instance_id mp ms x = (0, Some (s, os), x') \<Longrightarrow> os_mapped os = Some k \<Longrightarrow>
         w_segs x' k = segment.truncate s \<Longrightarrow> \<exists>w'. indurtdb_initialize No_fault instance_id mp ms (indurtdb_shutdown w) = Some (0, w')
           \<and> w_default w' = Some j \<and> h_shm (view w' j) = s"
      using initialize_start [OF f(1,2) i32 f(3) id, of No_fault ms] by metis
    let ?s = "fresh_shm mp ms (w_pid x)"
    have "w_names x (IRT_SHM_PREFIX @ instance_id) = None" using x(1) f(4) a by simp
    with shm_init_create [of x instance_id mp ms] a obtain os where
      s: "shm_init No_fault instance_id mp ms x = (0, Some (?s, os), x\<lparr>w_names := (w_names x)(IRT_SHM_PREFIX @ instance_id \<mapsto> w_next x),
        w_segs := (w_segs x)(w_next x := segment.truncate ?s), w_next := Suc (w_next x)\<rparr>)" "os_mapped os = Some (w_next x)" by auto
    obtain w' where w': "indurtdb_initialize No_fault instance_id mp ms (indurtdb_shutdown w) = Some (0, w')"
        "w_default w' = Some j" "h_shm (view w' j) = ?s"
      using x(2) [OF s] by auto
    have "name_map ?s = Map.empty"
      using a by (auto simp: fun_eq_iff name_map_def find_None_iff fresh_shm_fields zero_point_def reg_def)
    then show ?thesis using w' by (auto simp: dir_map_def)
  qed
  ultimately show ?thesis unfolding dir_map_def v using name_map_cong v(1) by metis
qed

theorem detach_keeps_shutdown_discards_witness:
  "\<exists>w' j. indurtdb_initialize No_fault ''plc'' 4 1 (indurtdb_detach demo_world) = Some (0, w') \<and> w_default w' = Some j
     \<and> points (h_shm (view w' j)) = points (fresh_shm 4 1 7)"
proof -
  have s: "w_segs demo_world 0 = segment.truncate (fresh_shm 4 1 7)" by (simp add: demo_world_def)
  have t: "handle_on (segment.truncate (fresh_shm 4 1 7)) 4 1 = fresh_shm 4 1 7"
    by (cases "fresh_shm 4 1 7") (use fresh_shm_fields [of 4 1 7] in \<open>simp add: handle_on_def segment.defs\<close>)
  have f: "version (segment.truncate x) = version x" "max_points (segment.truncate x) = max_points x"
    "max_subscribers (segment.truncate x) = max_subscribers x" for x :: shm by (simp_all add: segment.defs)
  have "owns_segment demo_world 0 0 ''plc'' 4 1"
    unfolding owns_segment_def
    using demo_world_ok fresh_header_verifies [of 4 1 7]
    by (simp add: s t f demo_registry demo_os_def fresh_shm_fields) (simp add: demo_world_def IRT_SHM_PREFIX_def)
  then show ?thesis
    using detach_keeps_shutdown_discards [of demo_world 0 0 "''plc''" 4 1] demo_view [of 0] by (auto simp: demo_handle_def)
qed

text \<open>
  A forked child that stops the inherited instance removes the name of its parent's segment: only a
  new start tests who is running, stopping does not.
\<close>

lemma forked_child_shutdown_unlinks:
  assumes "owns_segment w i k instance_id mp ms"
  shows "w_names (indurtdb_shutdown (w\<lparr>w_pid := child\<rparr>)) (IRT_SHM_PREFIX @ instance_id) = None"
proof -
  have "world_ok (w\<lparr>w_pid := child\<rparr>)" using assms by (simp add: owns_segment_def world_ok_def slot_init_def)
  then show ?thesis
    using shutdown_frame(4) [of "w\<lparr>w_pid := child\<rparr>" i] assms by (simp add: owns_segment_def)
qed

section \<open>Two handles on one segment\<close>

lemma lookup_handle_independent:
  "irt_index_lookup (s\<lparr>s_max_subscribers := a, lock_env := e\<rparr>) d part name = irt_index_lookup s d part name"
  by (simp add: irt_index_lookup_def irt_index_bind_def irt_index_probe_def stable_window_def Let_def)

lemma view_shared:
  assumes "i \<noteq> j" "j < length (w_registry w)" "os_mapped (in_os (w_registry w ! i)) = Some k"
    "os_mapped (in_os (w_registry w ! j)) = Some k" "s_max_points (h_shm (in_h (w_registry w ! j))) = s_max_points (h_shm h)"
  shows "\<exists>a e. h_shm (view (write_back i h w) j) = (h_shm h)\<lparr>s_max_subscribers := a, lock_env := e\<rparr>"
    "initialized (view (write_back i h w) j) = slot_init w j"
proof -
  let ?w' = "write_back i h w" and ?s = "h_shm (in_h (w_registry w ! j))"
  have r: "w_registry ?w' ! j = w_registry w ! j" "w_segs ?w' k = segment.truncate (h_shm h)"
    using assms by (simp_all add: write_back_def Let_def)
  have "h_shm (view ?w' j) = (handle_on (segment.truncate (h_shm h)) (s_max_points ?s) (s_max_subscribers ?s))\<lparr>lock_env := lock_env ?s\<rparr>"
    using r assms(4) by (simp add: view_def Let_def)
  also have "\<dots> = (h_shm h)\<lparr>s_max_subscribers := s_max_subscribers ?s, lock_env := lock_env ?s\<rparr>"
    unfolding assms(5) by (cases "h_shm h") (simp add: handle_on_def segment.defs)
  finally show "\<exists>a e. h_shm (view (write_back i h w) j) = (h_shm h)\<lparr>s_max_subscribers := a, lock_env := e\<rparr>" by blast
  show "initialized (view ?w' j) = slot_init w j" using r(1) by (simp add: view_def Let_def slot_init_def)
qed

text \<open>
  A point created through one handle is found through every other handle on the same segment: when
  two handles of a process are mapped to one segment and the creation through the first one returns
  success, looking up the name in its partition through the second one returns the id.
\<close>

theorem created_point_found_through_other_handle:
  assumes "i \<noteq> j" "j < length (w_registry w)" "os_mapped (in_os (w_registry w ! i)) = Some k"
    "os_mapped (in_os (w_registry w ! j)) = Some k" "slot_init w j" "s_max_points (h_shm (in_h (w_registry w ! j))) = N"
    "dir_inv N (view w i)" "quiet_handle (view w i)" "name \<noteq> []" "length name \<le> 63" "d < 16" "d' < 16"
    "on_handle (\<lambda>h. indurtdb_h_create_point_in d h part pid name ty acc) (Some i) w = (0, w')"
  shows "fst (on_handle (\<lambda>h. indurtdb_h_find_by_name_in d' h part name) (Some j) w') = (0, Some pid)"
proof -
  obtain rc h where c: "indurtdb_h_create_point_in d (view w i) part pid name ty acc = (rc, h)" by (metis prod.collapse)
  have r: "rc = 0" "w' = write_back i h w" using assms(13) c by (simp_all add: on_handle_def)
  from create_outcome [OF assms(7,10,11) c] assms(8) r(1)
  have o: "dir_inv N h" "dir_map h (part, name) = Some pid" by auto
  have "s_max_points (h_shm (in_h (w_registry w ! j))) = s_max_points (h_shm h)" using assms(6) dir_invD(4) [OF o(1)] by simp
  note v = view_shared [OF assms(1-4) this, folded r(2)]
  have w: "write_seq (h_shm h) AND 1 = 0" "index_wf (h_shm h)" using dir_invD [OF o(1)] by simp_all
  have "irt_index_lookup (h_shm h) d' part name = (0, Some pid)"
    using irt_index_lookup_correct [OF w(2) assms(9,10), of d' part] o(2) w(1) assms(12)
    by (simp add: dir_map_def stable_window_iff)
  then have "irt_index_lookup (h_shm (view w' j)) d' part name = (0, Some pid)"
    using v(1) lookup_handle_independent by metis
  then show ?thesis
    using v(2) assms(5,9) by (simp add: on_handle_def indurtdb_h_find_by_name_in_def irt_codes Let_def split: prod.split)
qed

theorem created_point_found_through_other_handle_witness:
  "fst (on_handle (\<lambda>h. indurtdb_h_find_by_name_in 3 h 9 ''pump'') (Some 1)
     (snd (on_handle (\<lambda>h. indurtdb_h_create_point_in 3 h 9 2 ''pump'' 1 3) (Some 0) demo_world))) = (0, Some 2)"
proof -
  let ?f = "\<lambda>h. indurtdb_h_create_point_in 3 h 9 2 ''pump'' 1 3"
  obtain rc h' where c: "?f demo_handle = (rc, h')" by (cases "?f demo_handle")
  have "rc = 0" using create_outcome [OF demo_handle_inv(1) _ _ c] demo_create_error demo_handle_inv by simp
  then have o: "on_handle ?f (Some 0) demo_world = (0, write_back 0 h' demo_world)"
    using c by (simp add: on_handle_def demo_view)
  have "slot_init demo_world 1" "length (w_registry demo_world) = 64" by (simp_all add: slot_init_def demo_registry demo_handle_def demo_world_def)
  then show ?thesis
    using created_point_found_through_other_handle [of 0 1 demo_world 0 4 "''pump''" 3 3 9 2 1 3 "write_back 0 h' demo_world"]
      demo_handle_inv o by (simp add: demo_view demo_registry demo_os_def) (simp add: demo_handle_def fresh_shm_fields)
qed

end
