(* ===== verification/Seqlock.thy ===== *)
theory Seqlock
  imports Point_Manager
begin

text \<open>
  The sequence lock of \<^verbatim>\<open>src/internal/irt_seqlock.h\<close> under concurrency: the calls of a writer
  (\<^verbatim>\<open>irt_seqlock_write_begin\<close>, the stores to a point, \<^verbatim>\<open>irt_seqlock_write_end\<close>) and of a reader
  (the loop of \<^verbatim>\<open>irt_pm_read\<close>) as programs whose memory accesses interleave in any order. Any number
  of writers and readers take part, each makes one call. Memory is sequentially consistent, which the
  acquire and release operations of the code ask for; a point is a block of words that are read and
  written one at a time.
\<close>

section \<open>Writers and readers\<close>

datatype writer_pc = W_begin | W_try | W_store nat | W_done | W_busy

record writer =
  wr_pc :: writer_pc
  wr_expected :: u64
  wr_retry :: nat
  wr_attempt :: nat
  wr_data :: "u64 list"

text \<open>
  \<open>rd_start\<close> and \<open>rd_end\<close> are no variables of the code: the number of contents that had been committed
  at the first and at the last load of the counter.
\<close>

datatype reader_pc = R_load | R_copy nat | R_done

record reader =
  rd_pc :: reader_pc
  rd_s0 :: u64
  rd_s1 :: u64
  rd_buf :: "u64 list"
  rd_start :: nat
  rd_end :: nat

text \<open>The shared memory; \<open>committed\<close> are all contents of the block so far, the oldest first.\<close>

record lock_sys =
  seq_word :: u64
  block :: "u64 list"
  committed :: "u64 list list"
  writers :: "nat \<Rightarrow> writer"
  readers :: "nat \<Rightarrow> reader"

text \<open>After a refused \<open>irt_seqlock_write_begin\<close>: the next of the attempts, or the code for a busy lock.\<close>

definition next_attempt :: "writer \<Rightarrow> writer" where
  "next_attempt w =
     w\<lparr>wr_attempt := wr_attempt w + 1,
       wr_pc := (if wr_attempt w + 1 < IRT_SEQLOCK_MAX_RETRY then W_begin else W_busy)\<rparr>"

definition writer_step :: "nat \<Rightarrow> lock_sys \<Rightarrow> lock_sys" where
  "writer_step i s =
     (let w = writers s i;
          put = (\<lambda>w s. s\<lparr>writers := (writers s)(i := w)\<rparr>)
      in case wr_pc w of
           W_begin \<Rightarrow> put (w\<lparr>wr_expected := seq_word s, wr_retry := 0, wr_pc := W_try\<rparr>) s
         | W_try \<Rightarrow>
             if wr_expected w AND 1 = 0 then
               if seq_word s = wr_expected w
               then put (w\<lparr>wr_pc := W_store 0\<rparr>) (s\<lparr>seq_word := wr_expected w + 1\<rparr>)
               else put (w\<lparr>wr_expected := seq_word s, wr_retry := 0\<rparr>) s
             else if IRT_SEQLOCK_MAX_RETRY < wr_retry w + 1 then put (next_attempt w) s
             else put (w\<lparr>wr_retry := wr_retry w + 1\<rparr>) s
         | W_store k \<Rightarrow>
             if k < length (wr_data w)
             then put (w\<lparr>wr_pc := W_store (k + 1)\<rparr>) (s\<lparr>block := (block s)[k := wr_data w ! k]\<rparr>)
             else put (w\<lparr>wr_pc := W_done\<rparr>)
                    (s\<lparr>seq_word := wr_expected w + 2, committed := committed s @ [block s]\<rparr>)
         | W_done \<Rightarrow> s
         | W_busy \<Rightarrow> s)"

text \<open>
  The reader's loop: \<open>continue\<close> on an odd counter jumps to the condition, which compares it with the
  \<open>s1\<close> of the iteration before.
\<close>

definition reader_step :: "nat \<Rightarrow> lock_sys \<Rightarrow> lock_sys" where
  "reader_step j s =
     (let r = readers s j;
          put = (\<lambda>r. s\<lparr>readers := (readers s)(j := r)\<rparr>)
      in case rd_pc r of
           R_load \<Rightarrow>
             let r = r\<lparr>rd_s0 := seq_word s, rd_start := length (committed s)\<rparr>
             in if seq_word s AND 1 \<noteq> 0
                then put (if rd_s0 r \<noteq> rd_s1 r then r else r\<lparr>rd_pc := R_done\<rparr>)
                else put (r\<lparr>rd_pc := R_copy 0\<rparr>)
         | R_copy k \<Rightarrow>
             if k < length (block s)
             then put (r\<lparr>rd_buf := (rd_buf r)[k := block s ! k], rd_pc := R_copy (k + 1)\<rparr>)
             else let r = r\<lparr>rd_s1 := seq_word s, rd_end := length (committed s)\<rparr>
                  in put (r\<lparr>rd_pc := (if rd_s0 r \<noteq> rd_s1 r then R_load else R_done)\<rparr>)
         | R_done \<Rightarrow> s)"

text \<open>Who makes the next step; a schedule is the list of these choices.\<close>

datatype actor = Wr nat | Rd nat

fun actor_step :: "actor \<Rightarrow> lock_sys \<Rightarrow> lock_sys" where
  "actor_step (Wr i) s = writer_step i s"
| "actor_step (Rd j) s = reader_step j s"

definition schedule :: "actor list \<Rightarrow> lock_sys \<Rightarrow> lock_sys" where
  "schedule as s = fold actor_step as s"

text \<open>The start: the lock is free, every writer is about to store a point, the readers have not begun.\<close>

definition writer_start :: "u64 list \<Rightarrow> writer" where
  "writer_start bs = \<lparr>wr_pc = W_begin, wr_expected = 0, wr_retry = 0, wr_attempt = 0, wr_data = bs\<rparr>"

definition reader_start :: "u64 list \<Rightarrow> reader" where
  "reader_start buf = \<lparr>rd_pc = R_load, rd_s0 = 0, rd_s1 = 1, rd_buf = buf, rd_start = 0, rd_end = 0\<rparr>"

definition lock_start :: "u64 list \<Rightarrow> (nat \<Rightarrow> u64 list) \<Rightarrow> (nat \<Rightarrow> u64 list) \<Rightarrow> lock_sys" where
  "lock_start bs ws bufs =
     \<lparr>seq_word = 0, block = bs, committed = [bs], writers = (\<lambda>i. writer_start (ws i)),
      readers = (\<lambda>j. reader_start (bufs j))\<rparr>"

section \<open>The invariant\<close>

definition inside :: "writer \<Rightarrow> bool" where
  "inside w \<longleftrightarrow> (\<exists>k. wr_pc w = W_store k)"

text \<open>The counter that the commits would have made without wrap-around, for a free lock.\<close>

definition even_seq :: "nat \<Rightarrow> u64" where
  "even_seq n = word_of_nat (2 * (n - 1))"

definition writer_ok :: "lock_sys \<Rightarrow> writer \<Rightarrow> bool" where
  "writer_ok s w \<longleftrightarrow> length (wr_data w) = length (block s)
     \<and> (\<forall>k. wr_pc w = W_store k \<longrightarrow> k \<le> length (block s) \<and> wr_expected w = even_seq (length (committed s))
          \<and> take k (block s) = take k (wr_data w))
     \<and> (wr_pc w = W_done \<longrightarrow> wr_data w \<in> set (committed s))"

definition reader_ok :: "lock_sys \<Rightarrow> reader \<Rightarrow> bool" where
  "reader_ok s r \<longleftrightarrow> length (rd_buf r) = length (block s)
     \<and> (\<forall>k. rd_pc r = R_copy k \<longrightarrow> k \<le> length (block s) \<and> 0 < rd_start r \<and> rd_start r \<le> length (committed s)
          \<and> rd_s0 r = even_seq (rd_start r)
          \<and> (rd_start r = length (committed s) \<and> (\<forall>i. \<not> inside (writers s i)) \<longrightarrow> take k (rd_buf r) = take k (block s)))
     \<and> (rd_pc r = R_done \<and> rd_s0 r AND 1 = 0 \<and> rd_end r - rd_start r < 2 ^ 63 \<longrightarrow>
          0 < rd_start r \<and> rd_start r \<le> length (committed s) \<and> rd_buf r = committed s ! (rd_start r - 1))"

definition lock_inv :: "lock_sys \<Rightarrow> bool" where
  "lock_inv s \<longleftrightarrow> committed s \<noteq> []
     \<and> (\<forall>i j. inside (writers s i) \<and> inside (writers s j) \<longrightarrow> i = j)
     \<and> seq_word s = even_seq (length (committed s)) + (if \<exists>i. inside (writers s i) then 1 else 0)
     \<and> ((\<forall>i. \<not> inside (writers s i)) \<longrightarrow> block s = last (committed s))
     \<and> (\<forall>i. writer_ok s (writers s i)) \<and> (\<forall>j. reader_ok s (readers s j))"

lemma even_seq_even [simp]: "even_seq n AND 1 = 0"
  by (simp add: even_seq_def and_one_eq flip: even_iff_mod_2_eq_zero)

lemma even_seq_odd: "(even_seq n + 1) AND 1 \<noteq> 0"
  by (simp add: even_seq_def and_one_eq flip: even_iff_mod_2_eq_zero)

lemma even_seq_Suc: "0 < n \<Longrightarrow> even_seq n + 2 = even_seq (Suc n)"
  by (cases n) (simp_all add: even_seq_def)

lemma even_seq_eq:
  assumes "even_seq a = even_seq b" "0 < a" "a \<le> b" "b - a < 2 ^ 63"
  shows "a = b"
proof -
  have "unat (word_of_nat (2 * (b - 1)) :: u64) = unat (word_of_nat (2 * (a - 1)) :: u64)"
    using assms(1) unfolding even_seq_def by metis
  then have "(2 * (b - 1)) mod (2 * 2 ^ 63) = (2 * (a - 1)) mod (2 * 2 ^ 63)" unfolding unat_of_nat by simp
  then have "(b - 1) mod 2 ^ 63 = (a - 1) mod (2 ^ 63 :: nat)" unfolding mult_mod_right [symmetric] by simp
  then have "(2 ^ 63 :: nat) dvd (b - 1) - (a - 1)" using assms(3) by (metis diff_le_mono mod_eq_dvd_iff_nat)
  then have "(2 ^ 63 :: nat) dvd b - a" using assms(2,3) by (simp add: Suc_le_eq)
  then show ?thesis using assms(3,4) nat_dvd_not_less [of "b - a" "2 ^ 63"] by fastforce
qed

lemma lock_invD:
  assumes "lock_inv s"
  shows "committed s \<noteq> []" "inside (writers s i) \<Longrightarrow> inside (writers s j) \<Longrightarrow> i = j"
    "seq_word s = even_seq (length (committed s)) + (if \<exists>i. inside (writers s i) then 1 else 0)"
    "(\<forall>i. \<not> inside (writers s i)) \<Longrightarrow> block s = last (committed s)"
    "writer_ok s (writers s i)" "reader_ok s (readers s j)"
  using assms unfolding lock_inv_def by blast+

text \<open>The counter is even exactly while nobody is inside.\<close>

lemma seq_free: "lock_inv s \<Longrightarrow> seq_word s AND 1 = 0 \<longleftrightarrow> (\<forall>i. \<not> inside (writers s i))"
  using lock_invD(3) [of s] even_seq_odd by (cases "\<exists>i. inside (writers s i)") auto

text \<open>A step of a writer that leaves the memory alone and neither enters nor leaves.\<close>

lemma writer_moves:
  assumes "lock_inv s" "inside w = inside (writers s i)" "writer_ok s w"
  shows "lock_inv (s\<lparr>writers := (writers s)(i := w)\<rparr>)"
proof -
  have i: "inside (((writers s)(i := w)) j) = inside (writers s j)" for j using assms(2) by simp
  have w: "writer_ok (s\<lparr>writers := x\<rparr>) = writer_ok s" for x by (simp add: writer_ok_def fun_eq_iff)
  have r: "reader_ok (s\<lparr>writers := (writers s)(i := w)\<rparr>) = reader_ok s" by (simp add: reader_ok_def fun_eq_iff i del: fun_upd_apply)
  show ?thesis using assms(1,3) unfolding lock_inv_def w r by (simp add: i del: fun_upd_apply) simp
qed

lemma writer_step_inv:
  assumes inv: "lock_inv s"
  shows "lock_inv (writer_step i s)"
proof -
  let ?w = "writers s i"
  note w = lock_invD(5) [OF inv, of i]
  have other: "\<not> inside (writers s j)" if "inside ?w" "j \<noteq> i" for j using lock_invD(2) [OF inv that(1)] that(2) by blast
  show ?thesis
  proof (cases "wr_pc ?w")
    case W_begin
    have "lock_inv (s\<lparr>writers := (writers s)(i := ?w\<lparr>wr_expected := seq_word s, wr_retry := 0, wr_pc := W_try\<rparr>)\<rparr>)"
      by (rule writer_moves [OF inv]) (use W_begin w in \<open>simp_all add: inside_def writer_ok_def\<close>)
    then show ?thesis using W_begin by (simp add: writer_step_def Let_def)
  next
    case W_try
    show ?thesis
    proof (cases "wr_expected ?w AND 1 = 0 \<and> seq_word s = wr_expected ?w")
      case False
      have "\<exists>w. writer_step i s = s\<lparr>writers := (writers s)(i := w)\<rparr> \<and> \<not> inside w \<and> wr_data w = wr_data ?w \<and> wr_pc w \<noteq> W_done"
        using W_try False by (auto simp: writer_step_def Let_def inside_def next_attempt_def)
      moreover have "writer_ok s x" if "\<not> inside x" "wr_data x = wr_data ?w" "wr_pc x \<noteq> W_done" for x
        using w that by (auto simp: writer_ok_def inside_def)
      moreover have "\<not> inside ?w" using W_try by (simp add: inside_def)
      ultimately show ?thesis using writer_moves [OF inv] by metis
    next
      case True
      have free: "\<not> inside (writers s j)" for j using True seq_free [OF inv] by simp
      then have e: "wr_expected ?w = even_seq (length (committed s))" using True lock_invD(3) [OF inv] by simp
      let ?s' = "s\<lparr>seq_word := wr_expected ?w + 1, writers := (writers s)(i := ?w\<lparr>wr_pc := W_store 0\<rparr>)\<rparr>"
      have ws: "writer_step i s = ?s'" using W_try True by (simp add: writer_step_def Let_def)
      have i: "inside (writers ?s' j) \<longleftrightarrow> j = i" for j using free by (simp add: inside_def)
      moreover have "writer_ok ?s' (writers ?s' j)" for j
        using lock_invD(5) [OF inv, of j] w e by (simp add: writer_ok_def)
      moreover have "reader_ok ?s' (readers ?s' j)" for j
        using lock_invD(6) [OF inv, of j] i unfolding reader_ok_def by (simp del: fun_upd_apply)
      ultimately show ?thesis using lock_invD(1) [OF inv] e unfolding ws lock_inv_def i by simp
    qed
  next
    case (W_store k)
    have ins: "inside ?w" using W_store by (simp add: inside_def)
    have only: "inside (writers s j) \<longleftrightarrow> j = i" for j using ins other by blast
    have k: "k \<le> length (block s)" "wr_expected ?w = even_seq (length (committed s))" "take k (block s) = take k (wr_data ?w)"
      "length (wr_data ?w) = length (block s)" using w W_store by (simp_all add: writer_ok_def)
    show ?thesis
    proof (cases "k < length (wr_data ?w)")
      case True
      let ?s' = "s\<lparr>block := (block s)[k := wr_data ?w ! k], writers := (writers s)(i := ?w\<lparr>wr_pc := W_store (k + 1)\<rparr>)\<rparr>"
      have ws: "writer_step i s = ?s'" using W_store True by (simp add: writer_step_def Let_def)
      have i: "inside (writers ?s' j) \<longleftrightarrow> j = i" for j using only by (simp add: inside_def)
      moreover have "writer_ok ?s' (writers ?s' j)" for j
        using lock_invD(5) [OF inv, of j] only [of j] k True
        by (auto simp: writer_ok_def inside_def take_Suc_conv_app_nth)
      moreover have "reader_ok ?s' (readers ?s' j)" for j
        using lock_invD(6) [OF inv, of j] i unfolding reader_ok_def by (simp del: fun_upd_apply)
      moreover have "seq_word s = even_seq (length (committed s)) + 1" using lock_invD(3) [OF inv] ins by auto
      ultimately show ?thesis using lock_invD(1) [OF inv] unfolding ws lock_inv_def i by simp
    next
      case False
      then have bs: "block s = wr_data ?w" using k by simp
      let ?s' = "s\<lparr>seq_word := wr_expected ?w + 2, committed := committed s @ [block s],
        writers := (writers s)(i := ?w\<lparr>wr_pc := W_done\<rparr>)\<rparr>"
      have ws: "writer_step i s = ?s'" using W_store False by (simp add: writer_step_def Let_def)
      have i: "\<not> inside (writers ?s' j)" for j using only [of j] by (auto simp: inside_def)
      moreover have "writer_ok ?s' (writers ?s' j)" for j
        using lock_invD(5) [OF inv, of j] only [of j] bs by (auto simp: writer_ok_def inside_def)
      moreover have "reader_ok ?s' (readers ?s' j)" for j
        using lock_invD(6) [OF inv, of j] unfolding reader_ok_def by (auto simp: nth_append simp del: fun_upd_apply)
      moreover have "wr_expected ?w + 2 = even_seq (Suc (length (committed s)))"
        using k(2) even_seq_Suc lock_invD(1) [OF inv] by simp
      ultimately show ?thesis unfolding ws lock_inv_def by (simp del: fun_upd_apply)
    qed
  qed (use inv in \<open>simp_all add: writer_step_def\<close>)
qed

lemma reader_step_inv:
  assumes inv: "lock_inv s"
  shows "lock_inv (reader_step j s)"
proof -
  let ?r = "readers s j"
  note r = lock_invD(6) [OF inv, of j]
  have put: "lock_inv (s\<lparr>readers := (readers s)(j := x)\<rparr>)" if "reader_ok s x" for x
  proof -
    have "writer_ok (s\<lparr>readers := y\<rparr>) = writer_ok s" "reader_ok (s\<lparr>readers := y\<rparr>) = reader_ok s" for y
      by (simp_all add: writer_ok_def reader_ok_def fun_eq_iff)
    then show ?thesis using inv that by (simp add: lock_inv_def)
  qed
  have even: "seq_word s = even_seq (length (committed s))" "\<not> inside (writers s i)" if "seq_word s AND 1 = 0" for i
    using that seq_free [OF inv] lock_invD(3) [OF inv] by simp_all
  have ne: "0 < length (committed s)" using lock_invD(1) [OF inv] by simp
  show ?thesis
  proof (cases "rd_pc ?r")
    case R_load
    have "reader_ok s (?r\<lparr>rd_s0 := seq_word s, rd_start := length (committed s), rd_pc := R_copy 0\<rparr>)" if "seq_word s AND 1 = 0"
      using r even [OF that] ne by (simp add: reader_ok_def)
    moreover have "reader_ok s (?r\<lparr>rd_s0 := seq_word s, rd_start := length (committed s), rd_pc := x\<rparr>)"
      if "seq_word s AND 1 \<noteq> 0" "x = R_load \<or> x = R_done" for x
      using r that by (auto simp: reader_ok_def)
    moreover have "reader_ok s (?r\<lparr>rd_s0 := seq_word s, rd_start := length (committed s)\<rparr>)"
      using r R_load by (simp add: reader_ok_def)
    ultimately show ?thesis using R_load put by (auto simp: reader_step_def Let_def)
  next
    case (R_copy k)
    have c: "k \<le> length (block s)" "0 < rd_start ?r" "rd_start ?r \<le> length (committed s)" "rd_s0 ?r = even_seq (rd_start ?r)"
      "rd_start ?r = length (committed s) \<Longrightarrow> \<forall>i. \<not> inside (writers s i) \<Longrightarrow> take k (rd_buf ?r) = take k (block s)"
      "length (rd_buf ?r) = length (block s)" using r R_copy by (simp_all add: reader_ok_def)
    show ?thesis
    proof (cases "k < length (block s)")
      case True
      have "reader_ok s (?r\<lparr>rd_buf := (rd_buf ?r)[k := block s ! k], rd_pc := R_copy (k + 1)\<rparr>)"
        using c True by (auto simp: reader_ok_def take_Suc_conv_app_nth)
      then show ?thesis using R_copy True put by (simp add: reader_step_def Let_def)
    next
      case False
      have "rd_buf ?r = committed s ! (rd_start ?r - 1)"
        if "seq_word s = rd_s0 ?r" "length (committed s) - rd_start ?r < 2 ^ 63"
      proof -
        have "seq_word s AND 1 = 0" using that(1) c(4) by simp
        note f = even [OF this]
        have "rd_start ?r = length (committed s)" using even_seq_eq [OF _ c(2,3) that(2)] that(1) c(4) f(1) by simp
        moreover have "block s = last (committed s)" using lock_invD(4) [OF inv] f(2) by blast
        ultimately show ?thesis using c f(2) False ne by (simp add: last_conv_nth)
      qed
      then have "reader_ok s (?r\<lparr>rd_s1 := seq_word s, rd_end := length (committed s), rd_pc := x\<rparr>)"
        if "x = R_load \<or> x = R_done \<and> seq_word s = rd_s0 ?r" for x
        using that c by (auto simp: reader_ok_def)
      then show ?thesis using R_copy False put by (auto simp: reader_step_def Let_def)
    qed
  qed (use inv in \<open>simp add: reader_step_def\<close>)
qed

lemma actor_step_inv: "lock_inv s \<Longrightarrow> lock_inv (actor_step a s)"
  by (cases a) (simp_all add: writer_step_inv reader_step_inv)

lemma schedule_Nil [simp]: "schedule [] s = s" and schedule_Cons [simp]: "schedule (a # as) s = schedule as (actor_step a s)"
  by (simp_all add: schedule_def)

lemma schedule_inv: "lock_inv s \<Longrightarrow> lock_inv (schedule as s)"
  by (induction as arbitrary: s) (simp_all add: actor_step_inv)

lemma lock_start_inv:
  "\<forall>i. length (ws i) = length bs \<Longrightarrow> \<forall>j. length (bufs j) = length bs \<Longrightarrow> lock_inv (lock_start bs ws bufs)"
  by (simp add: lock_inv_def lock_start_def writer_start_def reader_start_def inside_def writer_ok_def reader_ok_def even_seq_def)

text \<open>What a writer stores never changes, and only such data are committed.\<close>

definition sources_ok :: "u64 list \<Rightarrow> (nat \<Rightarrow> u64 list) \<Rightarrow> lock_sys \<Rightarrow> bool" where
  "sources_ok bs ws s \<longleftrightarrow> (\<forall>i. wr_data (writers s i) = ws i) \<and> set (committed s) \<subseteq> insert bs (range ws)"

lemma actor_step_sources:
  assumes "lock_inv s" "sources_ok bs ws s"
  shows "sources_ok bs ws (actor_step a s)"
proof -
  have src: "block s \<in> range ws" if "wr_pc (writers s i) = W_store k" "\<not> k < length (wr_data (writers s i))" for i k
  proof -
    have "length (wr_data (writers s i)) = length (block s)" "take k (block s) = take k (wr_data (writers s i))"
      using lock_invD(5) [OF assms(1), of i] that(1) unfolding writer_ok_def by blast+
    then have "block s = wr_data (writers s i)" using that(2) by (metis not_less take_all)
    also have "\<dots> = ws i" using assms(2) unfolding sources_ok_def by blast
    finally show ?thesis by blast
  qed
  have "sources_ok bs ws (writer_step i s)" for i
    using assms(2) src [of i] by (cases "wr_pc (writers s i)") (simp_all add: sources_ok_def writer_step_def Let_def next_attempt_def)
  moreover have "sources_ok bs ws (reader_step j s)" for j
    using assms(2) by (simp add: sources_ok_def reader_step_def Let_def split: reader_pc.split)
  ultimately show ?thesis by (cases a) simp_all
qed

lemma schedule_sources: "lock_inv s \<Longrightarrow> sources_ok bs ws s \<Longrightarrow> sources_ok bs ws (schedule as s)"
  by (induction as arbitrary: s) (simp_all add: actor_step_inv actor_step_sources)

text \<open>
  C12. The sequence lock serialises the writers, and a read that ends on an even counter is a snapshot.
  However any number of writers and readers interleave: at most one writer is between acquiring and
  releasing the lock; the contents committed so far are the first one and whole contents of writers,
  and contain those of all writers that returned success; and a reader whose call ended with an even
  first counter has copied exactly the content that was current when it loaded that counter, unless
  2 to the 63 or more commits happened during its copy.
\<close>

theorem seqlock_snapshots:
  assumes "\<forall>i. length (ws i) = length bs" "\<forall>j. length (bufs j) = length bs" "s = schedule as (lock_start bs ws bufs)"
  shows "(inside (writers s i) \<and> inside (writers s j) \<longrightarrow> i = j)
    \<and> set (committed s) \<subseteq> insert bs (range ws) \<and> (wr_pc (writers s i) = W_done \<longrightarrow> ws i \<in> set (committed s))
    \<and> (rd_pc (readers s j) = R_done \<and> rd_s0 (readers s j) AND 1 = 0
         \<and> rd_end (readers s j) - rd_start (readers s j) < 2 ^ 63 \<longrightarrow>
       rd_start (readers s j) - 1 < length (committed s)
         \<and> rd_buf (readers s j) = committed s ! (rd_start (readers s j) - 1))"
proof -
  have inv: "lock_inv s" unfolding assms(3) by (rule schedule_inv [OF lock_start_inv [OF assms(1,2)]])
  have "sources_ok bs ws (lock_start bs ws bufs)" by (simp add: sources_ok_def lock_start_def writer_start_def)
  then have src: "sources_ok bs ws s" unfolding assms(3) by (rule schedule_sources [OF lock_start_inv [OF assms(1,2)]])
  have "inside (writers s i) \<and> inside (writers s j) \<longrightarrow> i = j" using lock_invD(2) [OF inv] by blast
  moreover have "set (committed s) \<subseteq> insert bs (range ws)" "wr_data (writers s i) = ws i"
    using src by (simp_all add: sources_ok_def)
  moreover have "wr_pc (writers s i) = W_done \<longrightarrow> wr_data (writers s i) \<in> set (committed s)"
    using lock_invD(5) [OF inv, of i] unfolding writer_ok_def by blast
  moreover have "rd_pc (readers s j) = R_done \<and> rd_s0 (readers s j) AND 1 = 0
      \<and> rd_end (readers s j) - rd_start (readers s j) < 2 ^ 63 \<longrightarrow>
    0 < rd_start (readers s j) \<and> rd_start (readers s j) \<le> length (committed s)
      \<and> rd_buf (readers s j) = committed s ! (rd_start (readers s j) - 1)"
    using lock_invD(6) [OF inv, of j] unfolding reader_ok_def by blast
  ultimately show ?thesis by (metis Suc_diff_1 Suc_le_eq diff_Suc_1)
qed

text \<open>Two words, all writers store ones, and buffers that hold what was in them before.\<close>

definition demo_lock :: lock_sys where
  "demo_lock = lock_start [0, 0] (\<lambda>i. [1, 1]) (\<lambda>j. [7, 7])"

lemmas lock_run = schedule_def writer_step_def reader_step_def lock_start_def writer_start_def reader_start_def
  demo_lock_def Let_def next_attempt_def IRT_SEQLOCK_MAX_RETRY_def

theorem seqlock_snapshots_witness:
  "rd_buf (readers (schedule [Rd 0, Rd 0, Wr 0, Wr 0, Wr 0, Rd 0, Wr 0, Wr 0, Rd 0, Rd 0, Rd 0, Rd 0, Rd 0] demo_lock) 0) = [1, 1]"
  using seqlock_snapshots [of "\<lambda>i. [1, 1]" "[0, 0]" "\<lambda>j. [7, 7]"
      "schedule [Rd 0, Rd 0, Wr 0, Wr 0, Wr 0, Rd 0, Wr 0, Wr 0, Rd 0, Rd 0, Rd 0, Rd 0, Rd 0] demo_lock"
      "[Rd 0, Rd 0, Wr 0, Wr 0, Wr 0, Rd 0, Wr 0, Wr 0, Rd 0, Rd 0, Rd 0, Rd 0, Rd 0]" 0 0]
  by (simp add: lock_run)

section \<open>When a reader ends\<close>

lemma schedule_append: "schedule (as @ bs) s = schedule bs (schedule as s)"
  by (simp add: schedule_def)

text \<open>
  Part of the copying loop of a reader that runs alone, and of the storing loop of a writer that runs
  alone.
\<close>

lemma copy_part:
  assumes "rd_pc (readers s j) = R_copy k" "k + d \<le> length (block s)" "length (rd_buf (readers s j)) = length (block s)"
  shows "schedule (replicate d (Rd j)) s = s\<lparr>readers := (readers s)(j := (readers s j)\<lparr>rd_pc := R_copy (k + d),
     rd_buf := take k (rd_buf (readers s j)) @ take d (drop k (block s)) @ drop (k + d) (rd_buf (readers s j))\<rparr>)\<rparr>"
  using assms
proof (induction d arbitrary: s k)
  case 0
  have "(readers s j)\<lparr>rd_pc := R_copy k\<rparr> = readers s j" using 0(1) by (cases "readers s j") simp
  then show ?case by (simp add: fun_upd_idem)
next
  case (Suc d)
  let ?buf = "rd_buf (readers s j)"
  let ?r = "(readers s j)\<lparr>rd_buf := ?buf[k := block s ! k], rd_pc := R_copy (k + 1)\<rparr>"
  let ?s = "s\<lparr>readers := (readers s)(j := ?r)\<rparr>"
  have st: "reader_step j s = ?s" using Suc.prems by (simp add: reader_step_def Let_def)
  have "schedule (replicate (Suc d) (Rd j)) s = schedule (replicate d (Rd j)) ?s" using st by simp
  also have "\<dots> = ?s\<lparr>readers := (readers ?s)(j := (readers ?s j)\<lparr>rd_pc := R_copy (k + 1 + d),
     rd_buf := take (k + 1) (rd_buf (readers ?s j)) @ take d (drop (k + 1) (block ?s)) @ drop (k + 1 + d) (rd_buf (readers ?s j))\<rparr>)\<rparr>"
    using Suc.prems by (intro Suc.IH) simp_all
  also have "\<dots> = s\<lparr>readers := (readers s)(j := (readers s j)\<lparr>rd_pc := R_copy (k + Suc d),
     rd_buf := take k ?buf @ take (Suc d) (drop k (block s)) @ drop (k + Suc d) ?buf\<rparr>)\<rparr>"
    using Suc.prems by (simp add: take_Suc_conv_app_nth take_Suc Cons_nth_drop_Suc [symmetric])
  finally show ?case .
qed

lemma store_part:
  assumes "wr_pc (writers s i) = W_store k" "k + d \<le> length (block s)" "length (wr_data (writers s i)) = length (block s)"
  shows "schedule (replicate d (Wr i)) s = s\<lparr>writers := (writers s)(i := (writers s i)\<lparr>wr_pc := W_store (k + d)\<rparr>),
     block := take k (block s) @ take d (drop k (wr_data (writers s i))) @ drop (k + d) (block s)\<rparr>"
  using assms
proof (induction d arbitrary: s k)
  case 0
  have "(writers s i)\<lparr>wr_pc := W_store k\<rparr> = writers s i" using 0(1) by (cases "writers s i") simp
  then show ?case by (simp add: fun_upd_idem)
next
  case (Suc d)
  let ?dat = "wr_data (writers s i)"
  let ?w = "(writers s i)\<lparr>wr_pc := W_store (k + 1)\<rparr>"
  let ?s = "s\<lparr>writers := (writers s)(i := ?w), block := (block s)[k := ?dat ! k]\<rparr>"
  have st: "writer_step i s = ?s" using Suc.prems by (simp add: writer_step_def Let_def)
  have "schedule (replicate (Suc d) (Wr i)) s = schedule (replicate d (Wr i)) ?s" using st by simp
  also have "\<dots> = ?s\<lparr>writers := (writers ?s)(i := (writers ?s i)\<lparr>wr_pc := W_store (k + 1 + d)\<rparr>),
     block := take (k + 1) (block ?s) @ take d (drop (k + 1) (wr_data (writers ?s i))) @ drop (k + 1 + d) (block ?s)\<rparr>"
    using Suc.prems by (intro Suc.IH) simp_all
  also have "\<dots> = s\<lparr>writers := (writers s)(i := (writers s i)\<lparr>wr_pc := W_store (k + Suc d)\<rparr>),
     block := take k (block s) @ take (Suc d) (drop k ?dat) @ drop (k + Suc d) (block s)\<rparr>"
    using Suc.prems by (simp add: take_Suc_conv_app_nth take_Suc Cons_nth_drop_Suc [symmetric])
  finally show ?case .
qed

lemma copy_alone:
  assumes "rd_pc (readers s j) = R_copy k" "k + d = length (block s)" "length (rd_buf (readers s j)) = length (block s)"
  shows "\<exists>r. schedule (replicate d (Rd j)) s = s\<lparr>readers := (readers s)(j := r)\<rparr> \<and> rd_pc r = R_copy (length (block s))
    \<and> rd_s0 r = rd_s0 (readers s j) \<and> rd_buf r = take k (rd_buf (readers s j)) @ drop k (block s)"
  using copy_part [OF assms(1) _ assms(3), of d] assms(2,3) by (intro exI conjI) (assumption | simp)+

lemma reader_alone:
  assumes "rd_pc (readers s j) = R_load" "seq_word s AND 1 = 0" "length (rd_buf (readers s j)) = length (block s)"
  shows "rd_pc (readers (schedule (replicate (length (block s) + 2) (Rd j)) s) j) = R_done
    \<and> rd_buf (readers (schedule (replicate (length (block s) + 2) (Rd j)) s) j) = block s"
proof -
  let ?r = "(readers s j)\<lparr>rd_s0 := seq_word s, rd_start := length (committed s), rd_pc := R_copy 0\<rparr>"
  let ?s = "s\<lparr>readers := (readers s)(j := ?r)\<rparr>"
  have st: "reader_step j s = ?s" using assms by (simp add: reader_step_def Let_def)
  have "\<exists>r. schedule (replicate (length (block s)) (Rd j)) ?s = ?s\<lparr>readers := (readers ?s)(j := r)\<rparr> \<and> rd_pc r = R_copy (length (block ?s))
      \<and> rd_s0 r = rd_s0 (readers ?s j) \<and> rd_buf r = take 0 (rd_buf (readers ?s j)) @ drop 0 (block ?s)"
    using assms(3) by (intro copy_alone) simp_all
  then obtain r where r: "schedule (replicate (length (block s)) (Rd j)) ?s = s\<lparr>readers := (readers s)(j := r)\<rparr>"
      "rd_pc r = R_copy (length (block s))" "rd_s0 r = seq_word s" "rd_buf r = block s"
    by auto
  have "replicate (length (block s) + 2) (Rd j) = Rd j # replicate (length (block s)) (Rd j) @ [Rd j]"
    by (simp add: replicate_append_same)
  then have "schedule (replicate (length (block s) + 2) (Rd j)) s = reader_step j (s\<lparr>readers := (readers s)(j := r)\<rparr>)"
    using st r(1) by (simp add: schedule_append)
  then show ?thesis using r(2-4) by (simp add: reader_step_def Let_def)
qed

lemma reader_spins:
  assumes "rd_pc (readers s j) = R_load" "seq_word s AND 1 \<noteq> 0" "seq_word s \<noteq> rd_s1 (readers s j)"
  shows "rd_pc (readers (schedule (replicate k (Rd j)) s) j) = R_load"
  using assms
proof (induction k arbitrary: s)
  case (Suc k)
  have "rd_pc (readers (schedule (replicate k (Rd j)) (reader_step j s)) j) = R_load"
    using Suc.prems by (intro Suc.IH) (simp_all add: reader_step_def Let_def)
  then show ?case by simp
qed simp

text \<open>
  C21. A reader ends exactly when no writer holds the lock. In every reachable state a reader at the head
  of its loop that runs on its own ends after as many steps as the point has words and two more, with
  the last committed content, if nobody is inside the lock; if a writer is inside and makes no more
  steps, because its process died, the reader never ends, however long it runs, unless the counter is
  the one its loop saw last.
\<close>

theorem reader_ends_iff_free:
  assumes "\<forall>i. length (ws i) = length bs" "\<forall>j. length (bufs j) = length bs" "s = schedule as (lock_start bs ws bufs)"
    "rd_pc (readers s j) = R_load"
  shows "if \<forall>i. \<not> inside (writers s i)
    then rd_pc (readers (schedule (replicate (length bs + 2) (Rd j)) s) j) = R_done
      \<and> rd_buf (readers (schedule (replicate (length bs + 2) (Rd j)) s) j) = last (committed s)
    else seq_word s \<noteq> rd_s1 (readers s j) \<longrightarrow> (\<forall>k. rd_pc (readers (schedule (replicate k (Rd j)) s) j) = R_load)"
proof -
  have inv: "lock_inv s" unfolding assms(3) by (rule schedule_inv [OF lock_start_inv [OF assms(1,2)]])
  have src: "sources_ok bs ws s"
    unfolding assms(3) by (rule schedule_sources [OF lock_start_inv [OF assms(1,2)]]) (simp add: sources_ok_def lock_start_def writer_start_def)
  have "length (wr_data (writers s 0)) = length (block s)" using lock_invD(5) [OF inv, of 0] unfolding writer_ok_def by blast
  then have len: "length (block s) = length bs" using src assms(1) by (simp add: sources_ok_def)
  have buf: "length (rd_buf (readers s j)) = length (block s)" using lock_invD(6) [OF inv, of j] unfolding reader_ok_def by blast
  show ?thesis
  proof (cases "\<forall>i. \<not> inside (writers s i)")
    case True
    then have "seq_word s AND 1 = 0" "block s = last (committed s)" using seq_free [OF inv] lock_invD(4) [OF inv] by blast+
    then show ?thesis using reader_alone [OF assms(4) _ buf] True unfolding len by simp
  next
    case False
    then have "seq_word s AND 1 \<noteq> 0" using seq_free [OF inv] by blast
    then show ?thesis using reader_spins [OF assms(4)] False by auto
  qed
qed

theorem reader_ends_iff_free_witness:
  "rd_pc (readers (schedule (replicate 4 (Rd 0)) (schedule [Wr 1, Wr 1, Wr 1, Wr 1, Wr 1] demo_lock)) 0) = R_done
   \<and> rd_buf (readers (schedule (replicate 4 (Rd 0)) (schedule [Wr 1, Wr 1, Wr 1, Wr 1, Wr 1] demo_lock)) 0) = [1, 1]"
proof -
  let ?s = "schedule [Wr 1, Wr 1, Wr 1, Wr 1, Wr 1] demo_lock"
  have "rd_pc (readers ?s 0) = R_load" "\<forall>i. \<not> inside (writers ?s i)" "last (committed ?s) = [1, 1]"
    by (simp_all add: lock_run inside_def)
  then show ?thesis
    using reader_ends_iff_free [of "\<lambda>i. [1, 1]" "[0, 0]" "\<lambda>j. [7, 7]" ?s "[Wr 1, Wr 1, Wr 1, Wr 1, Wr 1]" 0]
    by (simp add: demo_lock_def eval_nat_numeral)
qed

section \<open>Torn reads\<close>

lemma schedule_two: "schedule (a # b # as) s = schedule as (actor_step b (actor_step a s))"
  by (simp add: schedule_def)

lemma torn_read:
  assumes "length (ws i) = length bs" "length (bufs j) = length bs" "k \<le> length bs"
  defines "n \<equiv> length bs"
  defines "as \<equiv> Rd j # replicate k (Rd j) @ [Wr i, Wr i] @ replicate n (Wr i) @ replicate (n - k) (Rd j) @ [Rd j, Rd j]"
  defines "s \<equiv> schedule as (lock_start bs ws bufs)"
  shows "rd_pc (readers s j) = R_done \<and> rd_buf (readers s j) = take k bs @ drop k (ws i)
    \<and> committed (schedule [Wr i] s) = [bs, ws i]"
proof -
  let ?s0 = "lock_start bs ws bufs"
  let ?r1 = "(reader_start (bufs j))\<lparr>rd_s0 := 0, rd_start := 1, rd_pc := R_copy 0\<rparr>"
  let ?s1 = "?s0\<lparr>readers := (readers ?s0)(j := ?r1)\<rparr>"
  let ?r2 = "?r1\<lparr>rd_pc := R_copy k, rd_buf := take k bs @ drop k (bufs j)\<rparr>"
  let ?s2 = "?s0\<lparr>readers := (readers ?s0)(j := ?r2)\<rparr>"
  let ?w3 = "(writer_start (ws i))\<lparr>wr_pc := W_store 0\<rparr>"
  let ?s3 = "?s2\<lparr>seq_word := 1, writers := (writers ?s0)(i := ?w3)\<rparr>"
  let ?s4 = "?s3\<lparr>writers := (writers ?s0)(i := ?w3\<lparr>wr_pc := W_store n\<rparr>), block := ws i\<rparr>"
  let ?r5 = "?r2\<lparr>rd_pc := R_copy n, rd_buf := take k bs @ drop k (ws i)\<rparr>"
  let ?s5 = "?s4\<lparr>readers := (readers ?s0)(j := ?r5)\<rparr>"
  note start = lock_start_def reader_start_def writer_start_def
  have 1: "actor_step (Rd j) ?s0 = ?s1" by (simp add: reader_step_def start Let_def)
  have 2: "schedule (replicate k (Rd j)) ?s1 = ?s2"
    using copy_part [of ?s1 j 0 k] assms(2,3) by (simp add: start)
  have 3: "actor_step (Wr i) (actor_step (Wr i) ?s2) = ?s3"
    by (simp add: writer_step_def start Let_def)
  have 4: "schedule (replicate n (Wr i)) ?s3 = ?s4"
    using store_part [of ?s3 i 0 n] assms(1) by (simp add: start n_def)
  have "k + (n - k) = n" using assms(3) by (simp add: n_def)
  then have 5: "schedule (replicate (n - k) (Rd j)) ?s4 = ?s5"
    using copy_part [of ?s4 j k "n - k"] assms(1-3) by (simp add: start n_def)
  have s: "s = actor_step (Rd j) (actor_step (Rd j) ?s5)"
    unfolding s_def as_def schedule_Cons schedule_append schedule_two append.simps 1 2 3 4 5 schedule_Nil ..
  have "length (block ?s5) = n" using assms(1) by (simp add: n_def)
  then have fin: "rd_pc (readers s j) = R_done \<and> rd_buf (readers s j) = take k bs @ drop k (ws i)"
    and mem: "writers s i = ?w3\<lparr>wr_pc := W_store n\<rparr>" "block s = ws i" "committed s = [bs]"
    unfolding s by (simp_all add: reader_step_def start Let_def)
  have "committed (schedule [Wr i] s) = [bs, ws i]"
    using mem assms(1) by (simp add: schedule_def writer_step_def start Let_def n_def)
  then show ?thesis using fin by blast
qed

text \<open>
  C24. A read can return a torn or an untouched point. For any old and new content of a point, any
  writer and any reader, and at any word \<open>k\<close> of the point, there is an interleaving after which the
  reader has returned success with the first \<open>k\<close> words of the old content and the rest of the new one,
  although the only contents that are ever committed are the old and the new; and there is one after
  which a reader that meets the very first write has returned success with its buffer untouched. In
  both the counter is odd and equals the \<open>s1\<close> that the loop compares it with after \<open>continue\<close>.
\<close>

theorem reader_returns_torn_point:
  assumes "length (ws i) = length bs" "length (bufs j) = length bs" "k \<le> length bs"
  shows "(\<exists>as. rd_pc (readers (schedule as (lock_start bs ws bufs)) j) = R_done
      \<and> rd_buf (readers (schedule as (lock_start bs ws bufs)) j) = take k bs @ drop k (ws i)
      \<and> committed (schedule (as @ [Wr i]) (lock_start bs ws bufs)) = [bs, ws i])
    \<and> (\<exists>as. rd_pc (readers (schedule as (lock_start bs ws bufs)) j) = R_done
      \<and> rd_buf (readers (schedule as (lock_start bs ws bufs)) j) = bufs j
      \<and> committed (schedule as (lock_start bs ws bufs)) = [bs])"
proof -
  have "rd_pc (readers (schedule [Wr i, Wr i, Rd j] (lock_start bs ws bufs)) j) = R_done
      \<and> rd_buf (readers (schedule [Wr i, Wr i, Rd j] (lock_start bs ws bufs)) j) = bufs j
      \<and> committed (schedule [Wr i, Wr i, Rd j] (lock_start bs ws bufs)) = [bs]"
    by (simp add: schedule_def writer_step_def reader_step_def lock_start_def writer_start_def reader_start_def Let_def)
  then show ?thesis using torn_read [of ws i bs bufs j k, OF assms] unfolding schedule_append by blast
qed

theorem reader_returns_torn_point_witness:
  "\<exists>as. rd_pc (readers (schedule as (lock_start [1, 2, 3] (\<lambda>_. [4, 5, 6]) (\<lambda>_. [7, 7, 7]))) 1) = R_done
     \<and> rd_buf (readers (schedule as (lock_start [1, 2, 3] (\<lambda>_. [4, 5, 6]) (\<lambda>_. [7, 7, 7]))) 1) = [1, 5, 6]"
  using reader_returns_torn_point [of "\<lambda>_. [4, 5, 6]" 0 "[1, 2, 3]" "\<lambda>_. [7, 7, 7]" 1 1] by auto

end
