(* ===== verification/Typed_Values.thy ===== *)
theory Typed_Values
  imports Directory Server_Props
begin

text \<open>
  The values of points through the handle interface: a typed write is read back by the reading
  function of its type, and through all operations the value of every point keeps 32 bytes of which
  the last is 0, so that a string is read within its bounds whatever the point held before.
\<close>

section \<open>Typed values\<close>

text \<open>One constructor for each of the seven writing functions; doubles and floats by their bits.\<close>

datatype typed_value = V_bool bool | V_int32 u32 | V_double u64 | V_string string | V_int64 u64 | V_uint32 u32 | V_float u32

fun type_of_value :: "typed_value \<Rightarrow> u8" where
  "type_of_value (V_bool v) = INDURTDB_TYPE_BOOL"
| "type_of_value (V_int32 v) = INDURTDB_TYPE_INT32"
| "type_of_value (V_double v) = INDURTDB_TYPE_DOUBLE"
| "type_of_value (V_string v) = INDURTDB_TYPE_STRING"
| "type_of_value (V_int64 v) = INDURTDB_TYPE_INT64"
| "type_of_value (V_uint32 v) = INDURTDB_TYPE_UINT32"
| "type_of_value (V_float v) = INDURTDB_TYPE_FLOAT"

fun write_value :: "reaction \<Rightarrow> indurtdb \<Rightarrow> u64 \<Rightarrow> u32 \<Rightarrow> typed_value \<Rightarrow> int \<times> sub_call list \<times> indurtdb" where
  "write_value react h now pid (V_bool v) = indurtdb_h_write_bool react h now pid v"
| "write_value react h now pid (V_int32 v) = indurtdb_h_write_int32 react h now pid v"
| "write_value react h now pid (V_double v) = indurtdb_h_write_double react h now pid v"
| "write_value react h now pid (V_string v) = indurtdb_h_write_string react h now pid v"
| "write_value react h now pid (V_int64 v) = indurtdb_h_write_int64 react h now pid v"
| "write_value react h now pid (V_uint32 v) = indurtdb_h_write_uint32 react h now pid v"
| "write_value react h now pid (V_float v) = indurtdb_h_write_float react h now pid v"

text \<open>The result of the reading function for the type of \<open>v\<close>, with a buffer of 32 bytes for strings.\<close>

definition read_result :: "('v \<Rightarrow> typed_value) \<Rightarrow> ((int \<times> 'v option) \<times> indurtdb) option \<Rightarrow> (int \<times> typed_value option) option" where
  "read_result con r = map_option (\<lambda>((rc, v), h). (rc, map_option con v)) r"

fun read_like :: "typed_value \<Rightarrow> indurtdb \<Rightarrow> obs \<Rightarrow> u32 \<Rightarrow> (int \<times> typed_value option) option" where
  "read_like (V_bool v) h ob pid = read_result V_bool (indurtdb_h_read_bool h ob pid)"
| "read_like (V_int32 v) h ob pid = read_result V_int32 (indurtdb_h_read_int32 h ob pid)"
| "read_like (V_double v) h ob pid = read_result V_double (indurtdb_h_read_double h ob pid)"
| "read_like (V_string v) h ob pid = read_result V_string (indurtdb_h_read_string h ob pid 32)"
| "read_like (V_int64 v) h ob pid = read_result V_int64 (indurtdb_h_read_int64 h ob pid)"
| "read_like (V_uint32 v) h ob pid = read_result V_uint32 (indurtdb_h_read_uint32 h ob pid)"
| "read_like (V_float v) h ob pid = read_result V_float (indurtdb_h_read_float h ob pid)"

text \<open>What a point can hold of a value: 31 bytes of a string, everything of the others.\<close>

fun stored :: "typed_value \<Rightarrow> typed_value" where
  "stored (V_string v) = V_string (strncpy_to 31 v)"
| "stored v = v"

fun value_bytes :: "typed_value \<Rightarrow> u8 list" where
  "value_bytes (V_bool v) = bytes_of_bool v"
| "value_bytes (V_int32 v) = le32 v"
| "value_bytes (V_double v) = bytes_of_u64 v"
| "value_bytes (V_string v) = bytes_of_string v"
| "value_bytes (V_int64 v) = bytes_of_u64 v"
| "value_bytes (V_uint32 v) = le32 v"
| "value_bytes (V_float v) = le32 v"

lemma write_value_eq:
  "write_value react h now pid v = ensure_h3 h (h_write_and_notify react h
     (pm_write_impl (h_shm h) now pid (type_of_value v) (value_bytes v) 0) pid)"
  by (cases v) (simp_all add: indurtdb_h_write_bool_def indurtdb_h_write_int32_def indurtdb_h_write_double_def
      indurtdb_h_write_string_def indurtdb_h_write_int64_def indurtdb_h_write_uint32_def indurtdb_h_write_float_def
      irt_pm_write_bool_def irt_pm_write_int32_def irt_pm_write_double_def irt_pm_write_string_def irt_pm_write_int64_def
      irt_pm_write_uint32_def irt_pm_write_float_def)

lemma write_and_notify_shm: "h_shm (snd (snd (h_write_and_notify react h (rc, s) pid))) = s"
  "initialized (snd (snd (h_write_and_notify react h (rc, s) pid))) = initialized h"
  "fst (h_write_and_notify react h (rc, s) pid) = h_translate_write_rc rc"
  by (simp_all add: h_write_and_notify_def Let_def split: option.split prod.split)

lemma write_and_notify_error:
  "rc \<noteq> 0 \<Longrightarrow> h_write_and_notify react h (rc, s) pid = (h_translate_write_rc rc, [], h\<lparr>h_shm := s\<rparr>)"
  by (simp add: h_write_and_notify_def Let_def)

section \<open>Bytes of values\<close>

lemma bytes_of_u64_length [simp]: "length (bytes_of_u64 v) = 8"
  by (simp add: bytes_of_u64_def)

lemma of_le_bytes_of_u64 [simp]: "of_le (bytes_of_u64 v) = v"
proof (rule bit_word_eqI)
  fix n :: nat
  assume "n < LENGTH(64)"
  then consider "n < 8" | "8 \<le> n" "n < 16" | "16 \<le> n" "n < 24" | "24 \<le> n" "n < 32"
    | "32 \<le> n" "n < 40" | "40 \<le> n" "n < 48" | "48 \<le> n" "n < 56" | "56 \<le> n" "n < 64"
    by fastforce
  then show "bit (of_le (bytes_of_u64 v) :: u64) n = bit v n"
    by cases (auto simp: of_le_def bytes_of_u64_def upt_conv_Cons bit_or_iff bit_push_bit_iff bit_ucast_iff bit_drop_bit_eq)
qed

lemma c_str32_string:
  assumes "no_nul v"
  shows "c_str32 (bytes_of_string v) = map of_char (take 31 v) @ replicate (32 - length (take 31 v)) 0"
proof -
  have nz: "of_char c \<noteq> (0 :: u8)" if "c \<in> set v" for c
    using that assms of_char_zero [of c] by (auto simp: no_nul_def)
  have t: "takeWhile (\<lambda>b. b \<noteq> 0) (map of_char v @ [0 :: u8]) = map of_char v"
    by (subst takeWhile_append2) (use nz in auto)
  show ?thesis by (simp add: c_str32_def bytes_of_string_def t take_map Let_def)
qed

lemma c_string_str32:
  assumes "no_nul v"
  shows "c_string (c_str32 (bytes_of_string v)) = take 31 v"
proof -
  have n: "no_nul (take 31 v)" using assms by (auto simp: no_nul_def dest: in_set_takeD)
  have "c_str32 (bytes_of_string v) = c_buf 32 (take 31 v)"
    using c_str32_string [OF assms] by (simp add: c_buf_def Let_def)
  then show ?thesis using c_string_c_buf [OF n, of 32] by simp
qed

section \<open>What is written is read\<close>

lemma h_read_quiet:
  assumes "initialized h" "pid < max_points (h_shm h)" "off_points (h_shm h) \<noteq> 0" "write_seq (h_shm h) AND 1 = 0"
  shows "h_read get h (quiet (h_shm h) pid) pid = Some ((0, Some (get (points (h_shm h) ! unat pid))), h)"
  using assms pm_read_quiet [of "h_shm h" pid zero_point] by (simp add: h_read_def irt_pm_validate_id_def)

lemma read_like_point:
  assumes "initialized h" "pid < max_points (h_shm h)" "off_points (h_shm h) \<noteq> 0" "write_seq (h_shm h) AND 1 = 0"
    "pt_value (points (h_shm h) ! unat pid) = store_value (type_of_value v) (value_bytes v) old"
    "\<And>c. v = V_string c \<Longrightarrow> no_nul c"
  shows "read_like v h (quiet (h_shm h) pid) pid = Some (0, Some (stored v))"
proof -
  note r = h_read_quiet [OF assms(1-4)]
  show ?thesis
  proof (cases v)
    case (V_string c)
    have "c_string (c_str32 (bytes_of_string c)) = take 31 c" by (rule c_string_str32 [OF assms(6) [OF V_string]])
    then show ?thesis
      using V_string assms(1,5) r [of "\<lambda>p. strncpy_to 31 (c_string (pt_value p))"] by (simp add: read_result_def indurtdb_h_read_string_def store_value_def point_type_defs strncpy_to_def)
  next
    case (V_bool b)
    then show ?thesis
      using assms(5) r [of "\<lambda>p. pt_value p ! 0 \<noteq> 0"] by (simp add: read_result_def indurtdb_h_read_bool_def store_value_def point_type_defs bytes_of_bool_def)
  qed (use assms(5) in \<open>simp_all add: r read_result_def store_value_def point_type_defs indurtdb_h_read_int32_def
      indurtdb_h_read_double_def indurtdb_h_read_int64_def indurtdb_h_read_uint32_def indurtdb_h_read_float_def\<close>)
qed

lemma typed_write_outcome:
  assumes "dir_inv N h" "write_value react h now pid v = (rc, cs, h')" "\<forall>c. v = V_string c \<longrightarrow> no_nul c"
  shows "rc = (if N \<le> pid then INDURTDB_ERR_ARG else if \<not> lockable 3 (h_shm h) then INDURTDB_ERR_BUSY
               else if access (points (h_shm h) ! unat pid) = INDURTDB_ACCESS_READ_ONLY then INDURTDB_ERR_READ_ONLY else 0)
    \<and> (rc \<noteq> 0 \<longrightarrow> points (h_shm h') = points (h_shm h))
    \<and> (rc = 0 \<longrightarrow> read_like v h' (quiet (h_shm h') pid) pid = Some (0, Some (stored v))
         \<and> pt_type (points (h_shm h') ! unat pid) = type_of_value v
         \<and> (\<forall>j. j \<noteq> pid \<longrightarrow> points (h_shm h') ! unat j = points (h_shm h) ! unat j))"
proof -
  let ?s = "h_shm h" and ?t = "type_of_value v" and ?b = "value_bytes v"
  note inv = dir_invD [OF assms(1)]
  have pl: "length (points ?s) = unat N" and op: "off_points ?s \<noteq> 0" using inv(2,3) by (auto simp: index_wf_def index_wf_ex_def shm_wf_def)
  have w: "(rc, cs, h') = h_write_and_notify react h (pm_write_impl_q ?s now pid ?t ?b 0 QUALITY_GOOD) pid"
    using assms(2) inv(1) by (simp add: write_value_eq ensure_h3_def pm_write_impl_def)
  have val: "irt_pm_validate_id ?s pid \<longleftrightarrow> \<not> N \<le> pid" using inv(3) by (auto simp: irt_pm_validate_id_def)
  show ?thesis
  proof (cases rule: pm_write_cases [of ?s pid now ?t ?b 0 QUALITY_GOOD])
    case (ok e)
    obtain u where u: "pm_write_impl_q ?s now pid ?t ?b 0 QUALITY_GOOD = (0, u)"
        "u = ?s\<lparr>lock_env := e, points := (points ?s)[unat pid := written_point (points ?s ! unat pid) now ?t ?b 0 QUALITY_GOOD],
           write_seq := write_seq ?s + 2, st_writes := st_writes ?s + 1\<rparr>"
      using ok(5) by blast
    have h': "rc = fst (h_write_and_notify react h (0, u) pid)" "h' = snd (snd (h_write_and_notify react h (0, u) pid))"
      using w [symmetric] u(1) by simp_all
    then have r: "rc = 0" "h_shm h' = u" "initialized h'"
      using inv(1) by (simp_all add: write_and_notify_shm h_translate_write_rc_def irt_codes)
    have pid: "unat pid < length (points ?s)" using ok(1) val pl by (simp add: word_less_nat_alt not_le)
    have q: "pt_value (points u ! unat pid) = store_value ?t ?b (pt_value (points ?s ! unat pid))"
      "pt_type (points u ! unat pid) = ?t" "\<And>j. j \<noteq> pid \<Longrightarrow> points u ! unat j = points ?s ! unat j"
      "write_seq u AND 1 = 0" "pid < max_points u" "off_points u \<noteq> 0"
      using u(2) pid ok(1,2) lockable_even [OF ok(3)] by (auto simp: written_point_def add_two_even irt_pm_validate_id_def)
    have "read_like v h' (quiet (h_shm h') pid) pid = Some (0, Some (stored v))"
      by (rule read_like_point) (use q r assms(3) in auto)
    then show ?thesis using q r ok val by simp
  next
    case arg
    then show ?thesis using w val op by (simp add: write_and_notify_error h_translate_write_rc_def irt_codes)
  next
    case (busy e)
    then show ?thesis using w val op by (simp add: write_and_notify_error h_translate_write_rc_def irt_codes)
  next
    case (read_only e)
    then show ?thesis using w val op by (simp add: write_and_notify_error h_translate_write_rc_def irt_codes)
  qed
qed

text \<open>
  C22. What is written is read: on a handle with a sound directory a write of any of the seven types
  returns ARG, BUSY or READ_ONLY exactly when the id is out of range, the lock is not obtained or the
  point is read-only, and then changes no point; otherwise the function that reads this type returns
  the written value (a string up to its 31st byte), the point has the type of the write, and every
  other point is unchanged.
\<close>

theorem typed_write_read:
  assumes "dir_inv N h" "write_value react h now pid v = (rc, cs, h')" "\<forall>c. v = V_string c \<longrightarrow> no_nul c"
  shows "rc = (if N \<le> pid then INDURTDB_ERR_ARG else if \<not> lockable 3 (h_shm h) then INDURTDB_ERR_BUSY
               else if access (points (h_shm h) ! unat pid) = INDURTDB_ACCESS_READ_ONLY then INDURTDB_ERR_READ_ONLY else 0)
    \<and> (rc \<noteq> 0 \<longrightarrow> points (h_shm h') = points (h_shm h))
    \<and> (rc = 0 \<longrightarrow> read_like v h' (quiet (h_shm h') pid) pid = Some (0, Some (stored v))
         \<and> pt_type (points (h_shm h') ! unat pid) = type_of_value v
         \<and> (\<forall>j. j \<noteq> pid \<longrightarrow> points (h_shm h') ! unat j = points (h_shm h) ! unat j))"
  using typed_write_outcome [OF assms] .

lemma demo_handle1_access: "access (points (h_shm demo_handle1) ! 2) = 3"
proof -
  obtain rc h' where c: "indurtdb_h_create_point_in 3 demo_handle 9 2 ''pump'' 1 3 = (rc, h')" by (metis prod.collapse)
  note i = dir_invD [OF demo_handle_inv(1)]
  have body: "create_body demo_handle 9 2 ''pump'' 1 3 = (rc, h')" "lockable 3 (h_shm demo_handle)"
    "\<not> reg (points (h_shm demo_handle) ! unat (2 :: u32))"
    using create_checks [OF i(2,1), of "''pump''" 3 9 2 1 3] demo_create_error c by (auto simp: irt_codes split: if_splits)
  have "name_map (h_shm demo_handle) (9, ''pump'') = None" using demo_handle_inv(3) by (simp add: dir_map_def)
  then have "points h'' = (points (h_shm demo_handle))[unat (2 :: u32) := created_point (points (h_shm demo_handle) ! unat (2 :: u32)) 9 ''pump'' 1 3]"
    if "h'' = h_shm h'" for h''
    using create_body_outcome [OF i(2) _ _ _ _ body(1)] i(3) body(2,3) demo_handle_inv(2) that
    by (fastforce simp: quiet_handle_def)
  then show ?thesis using c i(6) by (simp add: demo_handle1_def created_point_def)
qed

theorem typed_write_read_witness:
  "\<exists>cs h'. write_value (\<lambda>c s. s) demo_handle1 5 2 (V_string ''on'') = (0, cs, h')
     \<and> read_like (V_string ''on'') h' (quiet (h_shm h') 2) 2 = Some (0, Some (V_string ''on''))"
proof -
  obtain rc cs h' where w: "write_value (\<lambda>c s. s) demo_handle1 5 2 (V_string ''on'') = (rc, cs, h')" by (metis prod_cases3)
  have "access (points (h_shm demo_handle1) ! 2) \<noteq> INDURTDB_ACCESS_READ_ONLY" "lockable 3 (h_shm demo_handle1)"
    using demo_handle1_access demo_handle1(2) dir_invD(5) [OF demo_handle1(1)]
    by (simp_all add: INDURTDB_ACCESS_READ_ONLY_def quiet_handle_def lockable_def)
  then show ?thesis using typed_write_read [OF demo_handle1(1) w] w by (simp add: no_nul_def)
qed

section \<open>Strings stay terminated\<close>

text \<open>A value as it may stand in a point: 32 bytes, the last one 0.\<close>

definition value_wf :: "u8 list \<Rightarrow> bool" where
  "value_wf v \<longleftrightarrow> length v = 32 \<and> v ! 31 = 0"

definition values_wf :: "shm \<Rightarrow> bool" where
  "values_wf s \<longleftrightarrow> (\<forall>p \<in> set (points s). value_wf (pt_value p))"

text \<open>The bytes that a caller has to pass for a type; a string is cut at its end or after 31 bytes.\<close>

definition value_arg :: "u8 \<Rightarrow> u8 list \<Rightarrow> bool" where
  "value_arg t v \<longleftrightarrow>
     (if t = INDURTDB_TYPE_BOOL then 1 \<le> length v
      else if t \<in> {INDURTDB_TYPE_INT32, INDURTDB_TYPE_UINT32, INDURTDB_TYPE_FLOAT} then 4 \<le> length v
      else if t \<in> {INDURTDB_TYPE_INT64, INDURTDB_TYPE_DOUBLE} then 8 \<le> length v
      else True)"

lemma store_value_wf: "value_wf old \<Longrightarrow> value_arg t v \<Longrightarrow> value_wf (store_value t v old)"
proof -
  assume old: "value_wf old" and v: "value_arg t v"
  have "value_wf (take k v @ drop k old)" if "k \<le> length v" "k \<le> 8" for k
    using old that by (simp add: value_wf_def nth_append)
  moreover have "value_wf (c_str32 v)" by (simp add: value_wf_def c_str32_def Let_def nth_append)
  ultimately show ?thesis using old v by (auto simp: store_value_def value_arg_def point_type_defs split: if_splits)
qed

lemma value_bytes_arg: "value_arg (type_of_value v) (value_bytes v)"
  by (cases v) (simp_all add: value_arg_def point_type_defs bytes_of_bool_def)

lemma values_wf_upd:
  assumes "values_wf s" "points t = (points s)[i := p]" "i < length (points s) \<Longrightarrow> value_wf (pt_value (points s ! i)) \<Longrightarrow> value_wf (pt_value p)"
  shows "values_wf t"
proof (cases "i < length (points s)")
  case True
  then have "value_wf (pt_value (points s ! i))" using assms(1) nth_mem unfolding values_wf_def by blast
  then have "value_wf (pt_value p)" using assms(3) True by blast
  then show ?thesis using assms(1,2) set_update_subset_insert [of "points s" i p] unfolding values_wf_def by auto
qed (use assms in \<open>simp add: values_wf_def list_update_beyond\<close>)

lemma values_wf_set:
  "values_wf s \<Longrightarrow> (value_wf (pt_value (points s ! i)) \<Longrightarrow> value_wf (pt_value p)) \<Longrightarrow> values_wf (s\<lparr>points := (points s)[i := p]\<rparr>)"
  by (rule values_wf_upd [of s _ i p]) simp_all

lemma values_wf_same: "points t = points s \<Longrightarrow> values_wf t = values_wf s"
  by (simp add: values_wf_def)

text \<open>The segment operations.\<close>

lemma insert_locked_values: "values_wf s \<Longrightarrow> values_wf (snd (irt_index_insert_locked s part name pid))"
proof -
  assume s: "values_wf s"
  have "\<exists>p. points (snd (irt_index_insert_locked s part name pid)) = (points s)[unat pid := p]
      \<and> pt_value p = pt_value (points s ! unat pid)"
    by (auto simp: irt_index_insert_locked_def Let_def intro: exI [of _ "points s ! unat pid"]
        split: sum.splits insert_dest.splits)
  then show ?thesis using values_wf_upd [OF s] by metis
qed

lemma values_wf_end [simp]: "values_wf (irt_seqlock_write_end s q) = values_wf s"
  by (rule values_wf_same) simp

lemma index_insert_values: "values_wf s \<Longrightarrow> values_wf (snd (irt_index_insert s part name pid))"
proof -
  assume s: "values_wf s"
  obtain q t where b: "irt_seqlock_write_begin s = (q, t)" by (cases "irt_seqlock_write_begin s")
  obtain rc u where i: "irt_index_insert_locked t part name pid = (rc, u)" by (cases "irt_index_insert_locked t part name pid")
  have t: "values_wf t" using s write_begin_pairD [OF b] by (simp add: values_wf_def)
  then have "values_wf u" using insert_locked_values [OF t, of part name pid] i by simp
  then show ?thesis using b i t by (auto simp: irt_index_insert_def)
qed

lemma rollback_values: "values_wf s \<Longrightarrow> values_wf (create_rollback s pid)"
proof -
  assume s: "values_wf s"
  obtain q t where b: "lock_retry IRT_SEQLOCK_MAX_RETRY s 0 = (q, t)" by (cases "lock_retry IRT_SEQLOCK_MAX_RETRY s 0")
  have t: "values_wf t" using s lock_retry_pairD [OF b] by (simp add: values_wf_def)
  then have "values_wf (t\<lparr>points := (points t)[unat pid := (points t ! unat pid)\<lparr>pt_name := []\<rparr>]\<rparr>)"
    by (rule values_wf_set) simp
  then show ?thesis using b t by (auto simp: create_rollback_def)
qed

lemma create_values: "values_wf (h_shm h) \<Longrightarrow> values_wf (h_shm (snd (indurtdb_h_create_point_in d h part pid name ty acc)))"
proof -
  assume s: "values_wf (h_shm h)"
  obtain q t where b: "lock_retry IRT_SEQLOCK_MAX_RETRY (h_shm h) 0 = (q, t)" by (cases "lock_retry IRT_SEQLOCK_MAX_RETRY (h_shm h) 0")
  have t: "values_wf t" using s lock_retry_pairD [OF b] by (simp add: values_wf_def)
  let ?r = "irt_seqlock_write_end (h_point_register t part pid name ty acc) q"
  obtain irc u where i: "irt_index_insert ?r part name pid = (irc, u)" by (cases "irt_index_insert ?r part name pid")
  have "values_wf (h_point_register t part pid name ty acc)"
    using values_wf_set [OF t] by (simp add: h_point_register_def value_wf_def)
  then have r: "values_wf ?r" by simp
  have u: "values_wf u" using index_insert_values [OF r, of part name pid] i by simp
  have "values_wf (h_shm (snd (create_body h part pid name ty acc)))"
    using b t i u rollback_values [OF u] by (auto simp: create_body_def Let_def)
  then show ?thesis using s by (auto simp: indurtdb_h_create_point_in_def ensure_h_def split: prod.split)
qed

lemma delete_values: "values_wf (h_shm h) \<Longrightarrow> values_wf (h_shm (snd (indurtdb_h_delete_point_in h part pid)))"
proof -
  assume s: "values_wf (h_shm h)"
  obtain q t where b: "lock_retry IRT_SEQLOCK_MAX_RETRY (h_shm h) 0 = (q, t)" by (cases "lock_retry IRT_SEQLOCK_MAX_RETRY (h_shm h) 0")
  have t: "values_wf t" using s lock_retry_pairD [OF b] by (simp add: values_wf_def)
  let ?p = "points t ! unat pid"
  obtain rc u where r: "irt_index_remove_locked t (partition ?p) (pt_name ?p) = (rc, u)"
    by (cases "irt_index_remove_locked t (partition ?p) (pt_name ?p)")
  have u: "values_wf u" using remove_locked_regions(1) [of t "partition ?p" "pt_name ?p"] r t by (simp add: values_wf_def)
  have "values_wf (u\<lparr>points := (points u)[unat pid := (points u ! unat pid)\<lparr>pt_name := []\<rparr>]\<rparr>)"
    using u by (rule values_wf_set) simp
  then show ?thesis using b s t r by (auto simp: indurtdb_h_delete_point_in_def ensure_h_def Let_def)
qed

lemma rename_values: "values_wf (h_shm h) \<Longrightarrow> values_wf (h_shm (snd (indurtdb_h_rename_point_in d h part pid name)))"
proof -
  assume s: "values_wf (h_shm h)"
  obtain q t where b: "lock_retry IRT_SEQLOCK_MAX_RETRY (h_shm h) 0 = (q, t)" by (cases "lock_retry IRT_SEQLOCK_MAX_RETRY (h_shm h) 0")
  have t: "values_wf t" using s lock_retry_pairD [OF b] by (simp add: values_wf_def)
  obtain irc u where i: "irt_index_insert_locked t part name pid = (irc, u)" by (cases "irt_index_insert_locked t part name pid")
  have u: "values_wf u" using insert_locked_values [OF t, of part name pid] i by simp
  let ?old = "pt_name (points u ! unat pid)"
  obtain rc v where r: "irt_index_remove_locked u part ?old = (rc, v)" by (cases "irt_index_remove_locked u part ?old")
  have v: "values_wf v" using remove_locked_regions(1) [of u part ?old] r u by (simp add: values_wf_def)
  have "values_wf (v\<lparr>points := (points v)[unat pid := (points v ! unat pid)\<lparr>pt_name := strncpy_to 63 name\<rparr>]\<rparr>)"
    using v by (rule values_wf_set) simp
  then have "values_wf (h_shm (snd (rename_body h part pid name)))"
    using b t i u r by (auto simp: rename_body_def Let_def)
  then show ?thesis using s by (simp add: indurtdb_h_rename_point_in_def ensure_h_def split: prod.split)
qed

lemma pm_write_values: "values_wf s \<Longrightarrow> value_arg t v \<Longrightarrow> values_wf (snd (pm_write_impl_q s now pid t v ts q))"
proof -
  assume s: "values_wf s" and v: "value_arg t v"
  have "values_wf (s\<lparr>lock_env := e, points := (points s)[unat pid := written_point (points s ! unat pid) now t v ts q],
      write_seq := w, st_writes := c\<rparr>)" for e w c
    by (rule values_wf_upd [OF s, of _ "unat pid" "written_point (points s ! unat pid) now t v ts q"])
       (simp_all add: written_point_def store_value_wf v)
  then show ?thesis using s by (cases rule: pm_write_cases [of s pid now t v ts q]) (simp_all add: values_wf_def)
qed

lemma notify_values: "values_wf (snd w) \<Longrightarrow> values_wf (h_shm (snd (snd (h_write_and_notify react h w pid))))"
  using write_and_notify_shm(1) [of react h "fst w" "snd w" pid] by simp

lemma set_quality_values: "values_wf s \<Longrightarrow> values_wf (snd (irt_pm_set_quality s pid q))"
proof -
  assume s: "values_wf s"
  obtain q0 t where b: "irt_seqlock_write_begin s = (q0, t)" by (cases "irt_seqlock_write_begin s")
  have t: "values_wf t" using s write_begin_pairD [OF b] by (simp add: values_wf_def)
  have "values_wf (t\<lparr>points := (points t)[unat pid := (points t ! unat pid)\<lparr>quality := q\<rparr>]\<rparr>)"
    using t by (rule values_wf_set) simp
  then show ?thesis using s t b by (simp add: irt_pm_set_quality_def Let_def)
qed

lemma check_timeout_at_values:
  "values_wf s \<Longrightarrow> check_timeout_at now tmo pid (d, s) = Some (d', s') \<Longrightarrow> values_wf s'"
proof -
  assume s: "values_wf s" and c: "check_timeout_at now tmo pid (d, s) = Some (d', s')"
  obtain q0 t where b: "irt_seqlock_write_begin s = (q0, t)" by (cases "irt_seqlock_write_begin s")
  have t: "values_wf t" using s write_begin_pairD [OF b] by (simp add: values_wf_def)
  have m: "values_wf (t\<lparr>points := (points t)[unat pid := (points t ! unat pid)\<lparr>quality := x\<rparr>]\<rparr>)" for x
    using t by (rule values_wf_set) simp
  have w: "values_wf (x\<lparr>scan_skipped := n\<rparr>) = values_wf x" "values_wf (x\<lparr>st_timeouts := n'\<rparr>) = values_wf x" for x n n'
    by (simp_all add: values_wf_def)
  show ?thesis using c s t m b by (auto simp: check_timeout_at_def Let_def w split: if_splits option.splits)
qed

lemma check_timeouts_from_values:
  "check_timeouts_from now tmo pids (d, s) = Some (d', s') \<Longrightarrow> values_wf s \<Longrightarrow> values_wf s'"
proof (induction pids arbitrary: d s)
  case (Cons pid pids)
  then obtain e t where "check_timeout_at now tmo pid (d, s) = Some (e, t)" "check_timeouts_from now tmo pids (e, t) = Some (d', s')"
    by (auto split: option.splits)
  then show ?case using Cons.IH check_timeout_at_values Cons.prems(2) by blast
qed simp

lemma check_timeouts_values: "irt_pm_check_timeouts s now tmo = Some (n, s') \<Longrightarrow> values_wf s \<Longrightarrow> values_wf s'"
  by (auto simp: irt_pm_check_timeouts_def split: if_splits dest: check_timeouts_from_values)

section \<open>Sequences of operations\<close>

text \<open>The operations on a handle that change points; \<open>point_step\<close> is \<open>None\<close> when a scan never ends.\<close>

datatype point_op =
    Write typed_value
  | Write_quality u8 "u8 list" u64 u8
  | Set_quality u8
  | Create nat u32 string int int
  | Delete u32
  | Rename nat u32 string
  | Set_meta meta
  | Check_timeouts u64

fun point_step :: "reaction \<Rightarrow> u64 \<times> u32 \<times> point_op \<Rightarrow> indurtdb \<Rightarrow> indurtdb option" where
  "point_step react (now, pid, Write v) h = Some (snd (snd (write_value react h now pid v)))"
| "point_step react (now, pid, Write_quality t v ts q) h = Some (snd (snd (indurtdb_h_write_quality_ts react h now pid t v ts q)))"
| "point_step react (now, pid, Set_quality q) h = Some (snd (indurtdb_h_set_quality h pid q))"
| "point_step react (now, pid, Create d part name ty acc) h = Some (snd (indurtdb_h_create_point_in d h part pid name ty acc))"
| "point_step react (now, pid, Delete part) h = Some (snd (indurtdb_h_delete_point_in h part pid))"
| "point_step react (now, pid, Rename d part name) h = Some (snd (indurtdb_h_rename_point_in d h part pid name))"
| "point_step react (now, pid, Set_meta m) h = Some (snd (indurtdb_h_set_meta h pid m))"
| "point_step react (now, pid, Check_timeouts tmo) h = map_option snd (indurtdb_h_check_timeouts h now tmo)"

fun point_run :: "reaction \<Rightarrow> (u64 \<times> u32 \<times> point_op) list \<Rightarrow> indurtdb \<Rightarrow> indurtdb option" where
  "point_run react [] h = Some h"
| "point_run react (c # cs) h = (case point_step react c h of None \<Rightarrow> None | Some h \<Rightarrow> point_run react cs h)"

fun op_arg :: "point_op \<Rightarrow> bool" where
  "op_arg (Write_quality t v ts q) = value_arg t v"
| "op_arg _ = True"

lemma set_meta_values: "values_wf (h_shm h) \<Longrightarrow> values_wf (h_shm (snd (indurtdb_h_set_meta h pid m)))"
proof -
  assume s: "values_wf (h_shm h)"
  obtain rc t where t: "irt_meta_set (h_shm h) pid m = (rc, t)" by (cases "irt_meta_set (h_shm h) pid m")
  have "points t = points (h_shm h)"
    using write_begin_frame(1) [of "h_shm h"] t by (auto simp: irt_meta_set_def Let_def split: prod.splits if_splits)
  then have "values_wf t" using s by (simp add: values_wf_def)
  then show ?thesis using s t by (auto simp: indurtdb_h_set_meta_def ensure_h_def Let_def split: prod.split)
qed

lemma point_step_values:
  "values_wf (h_shm h) \<Longrightarrow> op_arg oper \<Longrightarrow> point_step react (now, pid, oper) h = Some h' \<Longrightarrow> values_wf (h_shm h')"
proof (cases oper)
  case (Write v)
  assume a: "values_wf (h_shm h)" "point_step react (now, pid, oper) h = Some h'"
  have "values_wf (snd (pm_write_impl (h_shm h) now pid (type_of_value v) (value_bytes v) 0))"
    unfolding pm_write_impl_def by (rule pm_write_values [OF a(1) value_bytes_arg])
  from notify_values [OF this] show ?thesis using a Write by (auto simp: write_value_eq ensure_h3_def)
next
  case (Write_quality t v ts q)
  assume a: "values_wf (h_shm h)" "op_arg oper" "point_step react (now, pid, oper) h = Some h'"
  have "values_wf (snd (irt_pm_write_quality_ts (h_shm h) now pid t v ts q))"
    unfolding irt_pm_write_quality_ts_def using a(2) Write_quality by (intro pm_write_values [OF a(1)]) simp
  from notify_values [OF this] show ?thesis using a Write_quality by (auto simp: indurtdb_h_write_quality_ts_def ensure_h3_def)
next
  case (Set_quality q)
  assume a: "values_wf (h_shm h)" "point_step react (now, pid, oper) h = Some h'"
  then show ?thesis
    using Set_quality set_quality_values [OF a(1), of pid q]
    by (auto simp: indurtdb_h_set_quality_def ensure_h_def Let_def split: prod.splits if_splits)
next
  case (Check_timeouts tmo)
  assume a: "values_wf (h_shm h)" "point_step react (now, pid, oper) h = Some h'"
  then show ?thesis
    using Check_timeouts by (auto simp: indurtdb_h_check_timeouts_def split: if_splits dest: check_timeouts_values)
qed (auto intro: create_values delete_values rename_values set_meta_values)

lemma point_run_values:
  "point_run react cs h = Some h' \<Longrightarrow> values_wf (h_shm h) \<Longrightarrow> \<forall>(now, pid, oper) \<in> set cs. op_arg oper \<Longrightarrow> values_wf (h_shm h')"
proof (induction cs arbitrary: h)
  case (Cons c cs)
  then obtain g where g: "point_step react c h = Some g" "point_run react cs g = Some h'" by (auto split: option.splits)
  obtain now pid oper where c: "c = (now, pid, oper)" by (cases c)
  have "values_wf (h_shm g)" using point_step_values [of h oper react now pid g] Cons.prems g(1) c by simp
  then show ?case using Cons.IH [OF g(2)] Cons.prems(3) by simp
qed simp

text \<open>
  C25. A string is read within its bounds whatever was stored before: from the creation of a segment on,
  after any sequence of writes of all types, writes with quality and any type, quality changes,
  creations, deletions, renamings, metadata changes and timeout scans, the value of every point has 32
  bytes of which the last is 0; so reading any point as a string returns at most 31 characters and
  never runs past the value, also when the point holds the bytes of another type.
\<close>

theorem strings_stay_terminated:
  assumes "h_shm h = fresh_shm mp ms me" "unat mp \<le> 2 ^ 24" "point_run react cs h = Some h'" "\<forall>(now, pid, oper) \<in> set cs. op_arg oper"
  shows "values_wf (h_shm h')
    \<and> (\<forall>pid str g. initialized h' \<and> pid < max_points (h_shm h') \<and> length (points (h_shm h')) = unat (max_points (h_shm h'))
         \<and> indurtdb_h_read_string h' (quiet (h_shm h') pid) pid 64 = Some ((0, Some str), g) \<longrightarrow> length str \<le> 31)"
proof -
  have "values_wf (h_shm h)" by (simp add: values_wf_def assms(1) fresh_shm_fields(1) [OF assms(2)] zero_point_def value_wf_def)
  then have w: "values_wf (h_shm h')" by (rule point_run_values [OF assms(3) _ assms(4)])
  have "length str \<le> 31"
    if "pid < max_points (h_shm h')" "length (points (h_shm h')) = unat (max_points (h_shm h'))"
      "indurtdb_h_read_string h' (quiet (h_shm h') pid) pid 64 = Some ((0, Some str), g)" for pid str g
  proof -
    let ?p = "points (h_shm h') ! unat pid"
    have "?p \<in> set (points (h_shm h'))" using that(1,2) by (simp add: word_less_nat_alt)
    then have v: "value_wf (pt_value ?p)" using w unfolding values_wf_def by blast
    have "length (takeWhile (\<lambda>b. b \<noteq> 0) (pt_value ?p)) \<le> 31"
    proof (rule ccontr)
      assume "\<not> ?thesis"
      then have l: "31 < length (takeWhile (\<lambda>b. b \<noteq> 0) (pt_value ?p))" by simp
      then have "takeWhile (\<lambda>b. b \<noteq> 0) (pt_value ?p) ! 31 \<noteq> 0" using nth_mem [OF l] set_takeWhileD by metis
      then show False using v takeWhile_nth [OF l] by (simp add: value_wf_def)
    qed
    moreover have "pm_read_loop (quiet (h_shm h') pid) 1 zero_point = Some q \<Longrightarrow> q = ?p \<or> q = zero_point" for q
      by (auto simp: quiet_def split: if_splits)
    moreover have "c_string (pt_value zero_point) = []" by (simp add: c_string_def zero_point_def)
    ultimately show ?thesis
      using that(3) by (auto simp: indurtdb_h_read_string_def h_read_def irt_pm_read_def c_string_def strncpy_to_def split: if_splits option.splits)
  qed
  then show ?thesis using w by blast
qed

theorem strings_stay_terminated_witness:
  "\<exists>h'. point_run (\<lambda>c s. s) [(5, 1, Write (V_string ''on'')), (6, 1, Write_quality 2 [1, 2, 3, 4, 5, 6, 7, 8] 0 3),
       (7, 1, Set_quality 0)] demo_handle = Some h' \<and> values_wf (h_shm h')"
proof -
  let ?cs = "[(5, 1, Write (V_string ''on'')), (6, 1, Write_quality 2 [1, 2, 3, 4, 5, 6, 7, 8] 0 3), (7, 1, Set_quality 0)]"
  obtain h' where h': "point_run (\<lambda>c s. s) ?cs demo_handle = Some h'" by simp
  have "h_shm demo_handle = fresh_shm 4 1 7" by (simp add: demo_handle_def)
  then show ?thesis
    using strings_stay_terminated [OF _ _ h', of 4 1 7] h' by (simp add: value_arg_def point_type_defs)
qed

end
