(* ===== verification/Daemon_Grants.thy ===== *)
theory Daemon_Grants
  imports Daemon_Props Server_Props
begin

text \<open>
  What a whole run of the daemon may change: the rules of a request (theory \<open>Server_Props\<close>) carried
  through the poll loop (\<open>main\<close> of \<^verbatim>\<open>rtdbd/src/rtdbd.c\<close>), over every connection that is accepted, and
  through the shutdown.
\<close>

section \<open>Peers without a grant\<close>

text \<open>The peer of a socket may not write point \<open>q\<close> in any partition.\<close>

definition no_grant :: "irt_policy \<Rightarrow> rtdbd_conf \<Rightarrow> u32 \<Rightarrow> io \<Rightarrow> bool" where
  "no_grant pol conf q io \<longleftrightarrow>
     (\<forall>cred part. io_cred io = Some cred \<longrightarrow> irt_policy_allows pol (snd cred) part q \<longrightarrow> \<not> rtdbd_conf_partition_allowed conf part)"

definition shut_out :: "u32 \<Rightarrow> srv \<Rightarrow> bool" where
  "shut_out q s \<longleftrightarrow> (\<forall>fd. no_grant (s_policy s) (s_conf s) q (s_io s fd))"

text \<open>A step that keeps the rules, the record of point \<open>q\<close> and that nobody may write it.\<close>

definition spares :: "u32 \<Rightarrow> srv \<Rightarrow> srv \<Rightarrow> bool" where
  "spares q s t \<longleftrightarrow> s_policy t = s_policy s \<and> s_conf t = s_conf s
     \<and> points (h_shm (s_h t)) ! unat q = points (h_shm (s_h s)) ! unat q
     \<and> metas (h_shm (s_h t)) ! unat q = metas (h_shm (s_h s)) ! unat q
     \<and> shut_out q t"

lemma spares_refl: "shut_out q s \<Longrightarrow> spares q s s"
  by (simp add: spares_def)

lemma spares_trans: "spares q s t \<Longrightarrow> spares q t u \<Longrightarrow> spares q s u"
  by (simp add: spares_def)

lemma spares_shut_out: "spares q s t \<Longrightarrow> shut_out q t"
  by (simp add: spares_def)

lemma spares_quiet:
  "shut_out q s \<Longrightarrow> h_shm (s_h t) = h_shm (s_h s) \<Longrightarrow> same_rules s t \<Longrightarrow> spares q s t"
  by (auto simp: spares_def shut_out_def no_grant_def same_rules_def)

lemma spares_lawful:
  assumes "shut_out q s" "lawful fd s t"
  shows "spares q s t"
proof (cases "untouched s t")
  case True
  then show ?thesis using assms by (intro spares_quiet) (auto simp: lawful_def untouched_def)
next
  case False
  then obtain part pid where g: "granted s fd part pid" "confined pid (h_shm (s_h s)) (h_shm (s_h t))" and r: "same_rules s t"
    using assms(2) by (auto simp: lawful_def)
  have "q \<noteq> pid" using assms(1) g(1) by (auto simp: shut_out_def no_grant_def granted_def)
  from confined_others [OF g(2) this] r assms(1) show ?thesis
    by (auto simp: spares_def shut_out_def no_grant_def same_rules_def)
qed

section \<open>The loop\<close>

lemma flush_conn_spares:
  assumes "shut_out q s" "flush_conn now rs fd k s = (alive, t)"
  shows "spares q s t"
proof (rule spares_quiet [OF assms(1)])
  show "h_shm (s_h t) = h_shm (s_h s)" "same_rules s t"
    using assms(2) by (auto simp: flush_conn_def put_conn_def same_rules_def Let_def split: prod.splits if_splits)
qed

lemma close_conn_spares: "shut_out q s \<Longrightarrow> spares q s (close_conn now k s)"
  by (rule spares_quiet) (simp_all add: close_conn_def put_conn_def same_rules_def split_beta)

lemma serve_conn_spares:
  assumes "shut_out q s" "serve_conn r p s = Some t"
  shows "spares q s t"
proof (cases "conn_index (fst p) (s_conns s)")
  case None
  then show ?thesis using assms by (simp add: serve_conn_def spares_refl)
next
  case (Some k)
  let ?e = "ro_env r (fst p)"
  let ?f = "case (if snd p then ro_out r (fst p) else None) of None \<Rightarrow> (True, s)
     | Some rs \<Rightarrow> if 0 < c_outq_count (s_conns s ! k) then flush_conn (en_now ?e) rs (fst p) k s else (True, s)"
  obtain alive s1 where f: "?f = (alive, s1)" by (metis prod.collapse)
  then have s1: "spares q s s1"
    using flush_conn_spares [OF assms(1)] spares_refl [OF assms(1)] by (auto split: option.splits if_splits)
  have r: "(if \<not> alive then Some s1 else if \<not> ro_in r (fst p) then Some s1
      else case handle_request ?e (fst p) k s1 of None \<Rightarrow> None
        | Some (rc, s) \<Rightarrow> Some (if rc \<noteq> 0 then close_conn (en_later ?e) k s else s)) = Some t"
    using assms(2) Some f by (simp add: serve_conn_def Let_def)
  show ?thesis
  proof (cases "alive \<and> ro_in r (fst p)")
    case False
    then have "t = s1" using r by (cases alive) simp_all
    then show ?thesis using s1 by simp
  next
    case True
    then obtain rc s2 where h: "handle_request ?e (fst p) k s1 = Some (rc, s2)"
        and t: "t = (if rc \<noteq> 0 then close_conn (en_later ?e) k s2 else s2)"
      using r by (auto split: option.splits)
    have "spares q s s2"
      using spares_trans [OF s1 spares_lawful [OF spares_shut_out [OF s1] handle_request_lawful [OF h]]] .
    then show ?thesis using t close_conn_spares spares_trans spares_shut_out by metis
  qed
qed

lemma serve_all_spares: "shut_out q s \<Longrightarrow> serve_all r ps s = Some t \<Longrightarrow> spares q s t"
proof (induction ps arbitrary: s)
  case (Cons p ps)
  from Cons.prems(2) obtain s1 where "serve_conn r p s = Some s1" "serve_all r ps s1 = Some t"
    by (auto split: option.splits)
  then show ?case using Cons.IH Cons.prems(1) serve_conn_spares spares_trans spares_shut_out by metis
qed (simp add: spares_refl)

lemma accept_conn_spares:
  assumes "shut_out q s" "\<And>fd io. a = Some (fd, io) \<Longrightarrow> no_grant (s_policy s) (s_conf s) q io"
  shows "spares q s (accept_conn a s)"
  using assms by (auto simp: accept_conn_def spares_def shut_out_def split: option.split)

lemma loop_round_spares:
  assumes "shut_out q s" "loop_round r s = Some t"
    "\<And>fd io. ro_accept r = Some (fd, io) \<Longrightarrow> no_grant (s_policy s) (s_conf s) q io"
  shows "spares q s t"
proof -
  let ?s = "if ro_dump r then snd (dump_stats (en_now (ro_env r 0)) s) else s"
  have d: "spares q s ?s"
  proof (rule spares_quiet [OF assms(1)])
    have "quiet_step s (snd (full_self_check now s))" for now by (rule full_self_check_quiet)
    then show "h_shm (s_h ?s) = h_shm (s_h s)" "same_rules s ?s"
      by (auto simp: dump_stats_def quiet_step_def untouched_def same_rules_def split_beta Let_def)
  qed
  then have "spares q ?s (accept_conn (ro_accept r) ?s)"
    using assms(3) by (intro accept_conn_spares) (auto simp: spares_def)
  then have a: "spares q s (accept_conn (ro_accept r) ?s)" by (rule spares_trans [OF d])
  have "serve_all r (poll_set (s_conns s)) (accept_conn (ro_accept r) ?s) = Some t"
    using assms(2) by (simp add: loop_round_def Let_def)
  then show ?thesis using a serve_all_spares spares_trans spares_shut_out by metis
qed

lemma main_loop_spares:
  "shut_out q s \<Longrightarrow> main_loop rs s = Some (ended, t) \<Longrightarrow>
     \<forall>r \<in> set rs. \<forall>fd io. ro_accept r = Some (fd, io) \<longrightarrow> no_grant (s_policy s) (s_conf s) q io \<Longrightarrow> spares q s t"
proof (induction rs arbitrary: s)
  case (Cons r rs)
  consider "t = s" | "main_loop rs s = Some (ended, t)"
    | s1 where "loop_round r s = Some s1" "main_loop rs s1 = Some (ended, t)"
    using Cons.prems(2) by (auto split: if_splits poll_res.splits option.splits)
  then show ?case
  proof cases
    case 1
    then show ?thesis using Cons.prems(1) by (simp add: spares_refl)
  next
    case 2
    then show ?thesis using Cons by simp
  next
    case 3
    have s1: "spares q s s1" using Cons.prems by (intro loop_round_spares [OF _ 3(1)]) auto
    then have "spares q s1 t" using Cons.prems(3) by (intro Cons.IH [OF _ 3(2)]) (auto simp: spares_def)
    then show ?thesis by (rule spares_trans [OF s1])
  qed
qed (simp add: spares_refl)

lemma drain_conns_h: "s_h (drain_conns r fds s) = s_h s"
  by (induction r fds s rule: drain_conns.induct) (auto simp: put_conn_def Let_def split: option.split prod.split)

lemma drain_h: "s_h (drain d rs s) = s_h s"
  by (induction d rs s rule: drain.induct) (auto simp: drain_conns_h Let_def split: poll_res.split)

lemma shutdown_h: "s_h (shutdown now rs s) = s_h s"
  by (simp add: shutdown_def drain_h split_beta Let_def)

lemma boot_sockets:
  assumes "boot c e = Some (Boot_ok s)"
  shows "io_cred (s_io s fd) = None"
  using assms by (auto simp: boot_def split: sum.splits option.splits prod.splits if_splits)

lemma boot_shut_out: "boot c e = Some (Boot_ok s) \<Longrightarrow> shut_out q s"
  by (simp add: shut_out_def no_grant_def boot_sockets)

text \<open>
  C7. A point that nobody may write keeps its record through the whole life of the daemon: from the
  end of the start, over any number of rounds with any accepted connections and any requests, to the
  end of the shutdown, the point table and the metadata table have the same record for every point
  that no accepted peer is granted in any partition of the white list; and the rules themselves do
  not change.
\<close>

theorem daemon_spares_ungranted_points:
  assumes "boot c e = Some (Boot_ok s)" "main_loop rounds s = Some (ended, t)"
    "\<forall>r \<in> set rounds. \<forall>fd io. ro_accept r = Some (fd, io) \<longrightarrow> no_grant (s_policy s) (s_conf s) q io"
  shows "points (h_shm (s_h (shutdown now rs t))) ! unat q = points (h_shm (s_h s)) ! unat q
    \<and> metas (h_shm (s_h (shutdown now rs t))) ! unat q = metas (h_shm (s_h s)) ! unat q
    \<and> s_policy t = s_policy s \<and> s_conf t = s_conf s"
proof -
  have "spares q s t" by (rule main_loop_spares [OF boot_shut_out [OF assms(1)] assms(2,3)])
  then show ?thesis by (simp add: spares_def shutdown_h)
qed

theorem daemon_spares_ungranted_points_witness:
  "\<exists>s t. boot (cli_defaults\<lparr>cl_max_points := 1\<rparr>) demo_boot_env = Some (Boot_ok s)
     \<and> main_loop [demo_round (Some (9, demo_peer)) None] s = Some (False, t)
     \<and> points (h_shm (s_h t)) ! 0 = points (h_shm (s_h s)) ! 0"
proof -
  let ?rs = "[demo_round (Some (9, demo_peer)) None]"
  obtain s where s: "boot (cli_defaults\<lparr>cl_max_points := 1\<rparr>) demo_boot_env = Some (Boot_ok s)" using demo_boots by blast
  have p: "s_policy s = irt_policy_init"
    using s by (auto simp: boot_def load_phase_def cli_defaults_def Let_def split: option.splits prod.splits if_splits)
  have "s_conns s = replicate 32 empty_conn" by (rule boot_table [OF s])
  then have "\<exists>t. main_loop ?rs s = Some (False, t)"
    by (simp add: demo_round_def loop_round_def poll_set_def empty_conn_def conn_init_def)
  then obtain t where t: "main_loop ?rs s = Some (False, t)" by blast
  have "\<forall>r \<in> set ?rs. \<forall>fd io. ro_accept r = Some (fd, io) \<longrightarrow> no_grant (s_policy s) (s_conf s) 0 io"
    by (simp add: demo_round_def no_grant_def p irt_policy_init_def)
  from daemon_spares_ungranted_points [OF s t this, of 0 "[]"] s t show ?thesis by (auto simp: shutdown_h)
qed

end
