(* ===== verification/Rtdbd_Main.thy ===== *)
theory Rtdbd_Main
  imports Daemon Instances
begin

text \<open>
  The daemon as a process (\<open>main\<close> of \<^verbatim>\<open>rtdbd/src/rtdbd.c\<close>): the command line, the start on an
  instance that it opens by name, the listening socket, the loop and the shutdown, over the segments
  and socket files of its host. Between opening and the end the daemon is the only writer of its
  segment; what others write meanwhile enters through the observations of the read loops.
\<close>

section \<open>The host\<close>

record host =
  ho_world :: world
  ho_sockets :: "string set"      \<comment> \<open>the paths of existing socket files\<close>

datatype listen_res = Listens | Socket_fails | Bind_fails | Listen_fails

text \<open>What the process meets besides the files of the start: the mapping, the socket calls, the rounds.\<close>

record main_env =
  me_boot :: boot_env
  me_map :: map_fault
  me_listen :: listen_res
  me_rounds :: "round list"
  me_drain :: "round list"
  me_end :: u64

text \<open>How the process stands: an exit code, still in its loop, or it has become the supervisor.\<close>

datatype main_res = M_exit int | M_running srv | M_supervises

section \<open>Opening and listening\<close>

text \<open>
  The phases up to the self check. A start that fails before the instance is opened touches nothing;
  one that fails later leaves its writes in the segment and does not close the handle.
\<close>

definition rtdbd_open :: "cli \<Rightarrow> main_env \<Rightarrow> world \<Rightarrow> ((boot_res \<times> nat option) \<times> world) option" where
  "rtdbd_open c e w =
     (case load_phase c (me_boot e) of
        Inl rc \<Rightarrow> Some ((Boot_exit rc None, None), w)
      | Inr _ \<Rightarrow>
          case indurtdb_h_open (me_map e) (cl_instance c) (Some (cl_max_points c, cl_max_subs c)) w of
            None \<Rightarrow> None
          | Some ((_, href), w) \<Rightarrow>
              case boot c ((me_boot e)\<lparr>be_open := map_option (view w) href\<rparr>) of
                None \<Rightarrow> None
              | Some (Boot_exit rc (Some h)) \<Rightarrow>
                  Some ((Boot_exit rc (Some h), href), (case href of None \<Rightarrow> w | Some i \<Rightarrow> write_back i h w))
              | Some b \<Rightarrow> Some ((b, href), w))"

text \<open>
  The socket file: an old one is removed, binding creates it. When \<open>listen\<close> fails the descriptor is
  closed, but the file that binding has created stays.
\<close>

definition rtdbd_listen :: "listen_res \<Rightarrow> string \<Rightarrow> host \<Rightarrow> bool \<times> host" where
  "rtdbd_listen l path ho =
     (let ho = ho\<lparr>ho_sockets := ho_sockets ho - {path}\<rparr>
      in case l of
           Listens \<Rightarrow> (True, ho\<lparr>ho_sockets := insert path (ho_sockets ho)\<rparr>)
         | Listen_fails \<Rightarrow> (False, ho\<lparr>ho_sockets := insert path (ho_sockets ho)\<rparr>)
         | Socket_fails \<Rightarrow> (False, ho)
         | Bind_fails \<Rightarrow> (False, ho))"

text \<open>The end after the loop: the sockets are drained and closed, the socket file goes, the handle is closed.\<close>

definition rtdbd_close :: "nat option \<Rightarrow> string \<Rightarrow> host \<Rightarrow> host" where
  "rtdbd_close href path ho =
     ho\<lparr>ho_sockets := ho_sockets ho - {path}, ho_world := indurtdb_h_close href (ho_world ho)\<rparr>"

section \<open>The process\<close>

definition store_handle :: "nat option \<Rightarrow> indurtdb \<Rightarrow> host \<Rightarrow> host" where
  "store_handle href h ho =
     (case href of None \<Rightarrow> ho | Some i \<Rightarrow> ho\<lparr>ho_world := write_back i h (ho_world ho)\<rparr>)"

text \<open>\<open>None\<close>: a read loop of the start or of a request does not end.\<close>

definition rtdbd_serve :: "cli \<Rightarrow> main_env \<Rightarrow> nat option \<Rightarrow> srv \<Rightarrow> host \<Rightarrow> (main_res \<times> host) option" where
  "rtdbd_serve c e href s ho =
     (let (listens, ho) = rtdbd_listen (me_listen e) (cl_socket c) ho
      in if \<not> listens then Some (M_exit RTDBD_EXIT_ERROR, store_handle href (s_h s) ho)
         else case main_loop (me_rounds e) s of
           None \<Rightarrow> None
         | Some (False, s) \<Rightarrow> Some (M_running s, store_handle href (s_h s) ho)
         | Some (True, s) \<Rightarrow>
             Some (M_exit RTDBD_EXIT_OK,
               rtdbd_close href (cl_socket c) (store_handle href (s_h (shutdown (me_end e) (me_drain e) s)) ho)))"

definition rtdbd_main :: "(char \<times> string) list \<Rightarrow> main_env \<Rightarrow> host \<Rightarrow> (main_res \<times> host) option" where
  "rtdbd_main opts e ho =
     (case parse_opts opts cli_defaults of
        Inl rc \<Rightarrow> Some (M_exit rc, ho)
      | Inr c \<Rightarrow>
          case check_cli c of
            Some rc \<Rightarrow> Some (M_exit rc, ho)
          | None \<Rightarrow>
              if cl_supervise c then Some (M_supervises, ho)
              else case rtdbd_open c e (ho_world ho) of
                None \<Rightarrow> None
              | Some ((Boot_exit rc _, _), w) \<Rightarrow> Some (M_exit rc, ho\<lparr>ho_world := w\<rparr>)
              | Some ((Boot_ok s, href), w) \<Rightarrow> rtdbd_serve c e href s (ho\<lparr>ho_world := w\<rparr>))"

end
