(* ===== verification/Handle_Frame.thy ===== *)
theory Handle_Frame
  imports Instances_Props Daemon_Grants
begin

text \<open>
  No operation on a handle starts or stops it (\<^verbatim>\<open>src/api/indurtdb.c\<close>): the flag that closing tests is
  written by opening and closing only. With this the operations of the daemon are operations in the
  sense of theory \<open>Instances_Props\<close>, and a daemon closes the handle that it opened.
\<close>

section \<open>The operations of the library\<close>

lemma set_error_init [simp]: "initialized (set_error h msg) = initialized h"
  by (simp add: set_error_def)

lemma ensure_h_init: "initialized (snd r) = initialized h \<Longrightarrow> initialized (snd (ensure_h h r)) = initialized h"
  by (simp add: ensure_h_def)

lemma delta_log_init [simp]: "initialized (delta_log h op pid ty acc name) = initialized h"
  by (simp add: delta_log_def Let_def split: list.split prod.split)

lemma create_body_init [simp]: "initialized (snd (create_body h part pid name ty acc)) = initialized h"
  by (simp add: create_body_def Let_def split: prod.split)

lemma create_point_init [simp]: "initialized (snd (indurtdb_h_create_point_in d h part pid name ty acc)) = initialized h"
  by (simp add: indurtdb_h_create_point_in_def ensure_h_def split: prod.split)

lemma delete_point_init [simp]: "initialized (snd (indurtdb_h_delete_point_in h part pid)) = initialized h"
  by (simp add: indurtdb_h_delete_point_in_def ensure_h_def Let_def split: prod.split)

lemma rename_body_init [simp]: "initialized (snd (rename_body h part pid name)) = initialized h"
  by (simp add: rename_body_def Let_def split: prod.split)

lemma rename_point_init [simp]: "initialized (snd (indurtdb_h_rename_point_in d h part pid name)) = initialized h"
  by (simp add: indurtdb_h_rename_point_in_def ensure_h_def split: prod.split)

lemma set_meta_init [simp]: "initialized (snd (indurtdb_h_set_meta h pid m)) = initialized h"
  by (simp add: indurtdb_h_set_meta_def ensure_h_def Let_def split: prod.split)

lemma get_meta_init [simp]: "initialized (snd (indurtdb_h_get_meta d h pid)) = initialized h"
  by (simp add: indurtdb_h_get_meta_def split: prod.split)

lemma find_by_name_init [simp]: "initialized (snd (indurtdb_h_find_by_name_in d h part name)) = initialized h"
  by (simp add: indurtdb_h_find_by_name_in_def split: prod.split)

lemma self_check_init [simp]: "initialized (snd (indurtdb_h_self_check h)) = initialized h"
  by (simp add: indurtdb_h_self_check_def)

lemma write_and_notify_init: "initialized (snd (snd (h_write_and_notify react h w pid))) = initialized h"
  by (simp add: h_write_and_notify_def Let_def split: prod.split option.split)

lemma write_quality_init [simp]: "initialized (snd (snd (indurtdb_h_write_quality_ts react h now pid t v ts q))) = initialized h"
  by (simp add: indurtdb_h_write_quality_ts_def ensure_h3_def write_and_notify_init)

lemma read_point_init: "indurtdb_h_read_point h ob pid out = Some (r, h') \<Longrightarrow> initialized h' = initialized h"
  by (auto simp: indurtdb_h_read_point_def split: if_splits)

lemma load_points_init: "initialized (snd (load_points pms (rc, h))) = initialized h"
proof (induction pms "(rc, h)" arbitrary: rc h rule: load_points.induct)
  case (2 pm pms overall h)
  then show ?case by (auto simp: Let_def split: prod.splits option.splits)
qed simp

lemma load_config_init [simp]: "initialized (snd (indurtdb_h_load_config h f)) = initialized h"
  using load_points_init by (simp add: indurtdb_h_load_config_def ensure_h_def split: prod.split)

lemma enable_delta_init [simp]: "initialized (snd (indurtdb_h_enable_delta h path opened)) = initialized h"
  by (simp add: indurtdb_h_enable_delta_def ensure_h_def)

lemma delta_apply_init: "initialized (snd (delta_apply r h)) = initialized h"
  by (simp add: delta_apply_def)

text \<open>The operations of the interface that the daemon calls are operations on an instance.\<close>

lemma operations:
  "is_operation (\<lambda>h. indurtdb_h_create_point_in d h part pid name ty acc)"
  "is_operation (\<lambda>h. indurtdb_h_delete_point_in h part pid)"
  "is_operation (\<lambda>h. indurtdb_h_rename_point_in d h part pid name)"
  "is_operation (\<lambda>h. indurtdb_h_set_meta h pid m)"
  "is_operation (\<lambda>h. indurtdb_h_load_config h f)"
  "is_operation (\<lambda>h. indurtdb_h_enable_delta h path opened)"
  by (simp_all add: is_operation_def)

lemma replay_init:
  "(\<And>r h. initialized (snd (app r h)) = initialized h) \<Longrightarrow> initialized (snd (replay_loop app io bs n h)) = initialized h"
proof (induction app io bs n h rule: replay_loop.induct)
  case (1 app io bs n h)
  obtain rc h1 where a: "app (delta_of_bytes (take 80 bs)) h = (rc, h1)" by (metis prod.collapse)
  then have "initialized h1 = initialized h" using "1.prems" [of "delta_of_bytes (take 80 bs)" h] by simp
  then show ?case using "1.IH" [OF _ _ _ refl _ _ a [symmetric] refl] "1.prems" a by (subst replay_loop.simps) (auto simp: Let_def)
qed

lemma delta_replay_init [simp]: "initialized (snd (indurtdb_h_delta_replay h path f io)) = initialized h"
proof -
  have "initialized (snd (irt_delta_replay delta_apply path f io (h\<lparr>delta_fd := -1\<rparr>))) = initialized h"
    using replay_init [of delta_apply] delta_apply_init by (simp add: irt_delta_replay_def split: option.split)
  then show ?thesis by (auto simp: indurtdb_h_delta_replay_def ensure_h_def Let_def split: prod.split)
qed

section \<open>The daemon\<close>

lemma do_write_init: "initialized (snd (snd (do_write e h w))) = initialized h"
  using get_meta_init [of "en_d e" h "w_point_id w"] by (simp add: do_write_def Let_def split_beta)

lemma do_get_init: "do_get e h pid = Some (r, h') \<Longrightarrow> initialized h' = initialized h"
  by (auto simp: do_get_def split: option.splits dest: read_point_init)

lemma list_loop_init: "list_loop e filt cap pids h out = Some (r, h') \<Longrightarrow> initialized h' = initialized h"
proof (induction pids arbitrary: h out)
  case (Cons pid pids)
  then show ?case by (auto split: if_splits option.splits dest: read_point_init)
qed simp

lemma do_list_init: "do_list e mx h filt n off = Some (r, h') \<Longrightarrow> initialized h' = initialized h"
  by (auto simp: do_list_def Let_def split: if_splits dest: list_loop_init)

lemma notify_broadcast_init: "notify_broadcast now ob h conns w m g = Some (h', r) \<Longrightarrow> initialized h' = initialized h"
  by (auto simp: notify_broadcast_def Let_def split: option.splits prod.splits dest: read_point_init)

text \<open>The helpers of the handlers leave the handle alone.\<close>

lemma socket_handle [simp]:
  "s_h (snd (send_bytes fd bs s)) = s_h s" "s_h (snd (recv_bytes fd n s)) = s_h s" "s_h (snd (payload fd rq n s)) = s_h s"
  by (simp_all add: send_bytes_def recv_bytes_def payload_def Let_def split_beta)

lemma answer_handle [simp]:
  "s_h (snd (answer fd st s)) = s_h s" "s_h (snd (answer_close fd st s)) = s_h s"
  "s_h (snd (answer_data fd bs s)) = s_h s" "s_h (snd (answer_list fd bs s)) = s_h s"
  by (simp_all add: answer_def answer_close_def answer_data_def answer_list_def send_resp_def split_beta Let_def)

lemma helper_handle [simp]:
  "s_h (audit_op now cred part pid s) = s_h s" "s_h (log_info wall msg s) = s_h s"
  "s_h (reject_write now s) = s_h s" "s_h (note_decode_fail now s) = s_h s"
  by (simp_all add: audit_op_def log_info_def reject_write_def note_decode_fail_def)

lemma full_self_check_init: "initialized (s_h (snd (full_self_check now s))) = initialized (s_h s)"
  using self_check_init [of "s_h s"] by (simp add: full_self_check_def rtdbd_self_check_core_def split_beta Let_def)

lemma answer_handleD:
  "answer fd st s = (rc, t) \<Longrightarrow> s_h t = s_h s" "answer_close fd st s = (rc, t) \<Longrightarrow> s_h t = s_h s"
  "answer_data fd bs s = (rc, t) \<Longrightarrow> s_h t = s_h s" "answer_list fd bs s = (rc, t) \<Longrightarrow> s_h t = s_h s"
  using answer_handle by (metis snd_conv)+

lemma payload_init:
  assumes "(case payload fd rq n s of
        (None, s1) \<Rightarrow> Some (answer_close fd RTDBD_ST_BAD_REQUEST s1)
      | (Some bs, s1) \<Rightarrow> body s1 bs) = Some (rc, t)"
    and "\<And>s1 bs. body s1 bs = Some (rc, t) \<Longrightarrow> initialized (s_h t) = initialized (s_h s1)"
  shows "initialized (s_h t) = initialized (s_h s)"
proof -
  obtain r s1 where p: "payload fd rq n s = (r, s1)" by (cases "payload fd rq n s")
  then have "s_h s1 = s_h s" using socket_handle(3) [of fd rq n s] by simp
  then show ?thesis using assms p by (cases r) (auto dest: answer_handleD)
qed

lemma op_write_init: "op_write e fd k rq s = Some (rc, t) \<Longrightarrow> initialized (s_h t) = initialized (s_h s)"
  unfolding op_write_def Let_def
proof (erule payload_init, goal_cases)
  case (1 s1 bs)
  obtain wrc m h where w: "do_write e (s_h s1) (write_req_of bs) = (wrc, m, h)" by (metis prod_cases3)
  then have "initialized h = initialized (s_h s1)" using do_write_init [of e "s_h s1" "write_req_of bs"] by simp
  then show ?case using 1 w
    by (auto split: option.splits if_splits prod.splits dest!: answer_handleD notify_broadcast_init)
qed

lemma op_create_point_init: "op_create_point e fd rq s = Some (rc, t) \<Longrightarrow> initialized (s_h t) = initialized (s_h s)"
  unfolding op_create_point_def Let_def
  by (erule payload_init) (auto split: option.splits if_splits prod.splits dest!: answer_handleD arg_cong [of "indurtdb_h_create_point_in _ _ _ _ _ _ _" _ "\<lambda>r. initialized (snd r)"])

lemma op_delete_point_init: "op_delete_point e fd rq s = Some (rc, t) \<Longrightarrow> initialized (s_h t) = initialized (s_h s)"
  unfolding op_delete_point_def Let_def
  by (erule payload_init) (auto split: option.splits if_splits prod.splits dest!: answer_handleD arg_cong [of "indurtdb_h_delete_point_in _ _ _" _ "\<lambda>r. initialized (snd r)"])

lemma op_rename_point_init: "op_rename_point e fd rq s = Some (rc, t) \<Longrightarrow> initialized (s_h t) = initialized (s_h s)"
  unfolding op_rename_point_def Let_def
  by (erule payload_init) (auto split: option.splits if_splits prod.splits dest!: answer_handleD arg_cong [of "indurtdb_h_rename_point_in _ _ _ _ _" _ "\<lambda>r. initialized (snd r)"])

lemma op_set_meta_init: "op_set_meta e fd k rq s = Some (rc, t) \<Longrightarrow> initialized (s_h t) = initialized (s_h s)"
  unfolding op_set_meta_def Let_def
  by (erule payload_init) (auto split: option.splits if_splits prod.splits dest!: answer_handleD arg_cong [of "indurtdb_h_set_meta _ _ _" _ "\<lambda>r. initialized (snd r)"])

lemma op_find_by_name_init: "op_find_by_name e fd rq s = Some (rc, t) \<Longrightarrow> initialized (s_h t) = initialized (s_h s)"
  unfolding op_find_by_name_def Let_def
  by (erule payload_init) (auto split: option.splits if_splits prod.splits dest!: answer_handleD arg_cong [of "indurtdb_h_find_by_name_in _ _ _ _" _ "\<lambda>r. initialized (snd r)"])

lemma op_get_meta_init: "op_get_meta e fd rq s = Some (rc, t) \<Longrightarrow> initialized (s_h t) = initialized (s_h s)"
  unfolding op_get_meta_def Let_def
  by (erule payload_init) (auto split: option.splits if_splits prod.splits dest!: answer_handleD arg_cong [of "indurtdb_h_get_meta _ _ _" _ "\<lambda>r. initialized (snd r)"])

lemma op_get_init: "op_get e fd rq s = Some (rc, t) \<Longrightarrow> initialized (s_h t) = initialized (s_h s)"
  unfolding op_get_def
  by (erule payload_init) (auto split: option.splits prod.splits dest!: answer_handleD do_get_init)

lemma op_list_init: "op_list e fd rq s = Some (rc, t) \<Longrightarrow> initialized (s_h t) = initialized (s_h s)"
  unfolding op_list_def Let_def
  by (erule payload_init) (auto split: option.splits if_splits prod.splits dest!: answer_handleD do_list_init)

lemma op_health_init: "op_health e fd rq s = Some (rc, t) \<Longrightarrow> initialized (s_h t) = initialized (s_h s)"
  using full_self_check_init [of "en_now e" s]
  by (cases "full_self_check (en_now e) s") (auto simp: op_health_def split: if_splits dest!: answer_handleD)

lemma op_quiet_init:
  "op_ping fd s = Some (rc, t) \<Longrightarrow> initialized (s_h t) = initialized (s_h s)"
  "op_audit_dump fd s = Some (rc, t) \<Longrightarrow> initialized (s_h t) = initialized (s_h s)"
  "op_subscribe fd k rq s = Some (rc, t) \<Longrightarrow> initialized (s_h t) = initialized (s_h s)"
  "op_select fd k rq s = Some (rc, t) \<Longrightarrow> initialized (s_h t) = initialized (s_h s)"
  "op_get_log fd rq s = Some (rc, t) \<Longrightarrow> initialized (s_h t) = initialized (s_h s)"
proof -
  note D = answer_handleD
  show "op_ping fd s = Some (rc, t) \<Longrightarrow> initialized (s_h t) = initialized (s_h s)"
    "op_audit_dump fd s = Some (rc, t) \<Longrightarrow> initialized (s_h t) = initialized (s_h s)"
    by (auto simp: op_ping_def op_audit_dump_def dest!: D)
  show "op_subscribe fd k rq s = Some (rc, t) \<Longrightarrow> initialized (s_h t) = initialized (s_h s)"
    unfolding op_subscribe_def Let_def by (erule payload_init) (auto split: prod.splits dest!: D)
  show "op_select fd k rq s = Some (rc, t) \<Longrightarrow> initialized (s_h t) = initialized (s_h s)"
    unfolding op_select_def Let_def by (erule payload_init) (auto split: if_splits dest!: D)
  show "op_get_log fd rq s = Some (rc, t) \<Longrightarrow> initialized (s_h t) = initialized (s_h s)"
    unfolding op_get_log_def Let_def by (erule payload_init) (auto dest!: D)
qed

lemma handle_request_init:
  assumes "handle_request e fd k s = Some (rc, t)"
  shows "initialized (s_h t) = initialized (s_h s)"
proof -
  obtain r s1 where p: "recv_bytes fd 12 s = (r, s1)" by (cases "recv_bytes fd 12 s")
  then have s1: "s_h s1 = s_h s" using socket_handle(2) [of fd 12 s] by simp
  have "initialized (s_h t) = initialized (s_h s1)"
    if "map_of kOps op = Some fn" "fn e fd k rq s1 = Some (rc, t)" for op fn rq
    using that by (auto simp: kOps_def split: if_splits
        intro: op_write_init op_create_point_init op_delete_point_init op_rename_point_init op_set_meta_init
          op_find_by_name_init op_get_meta_init op_get_init op_list_init op_health_init op_quiet_init
        dest: op_write_init op_create_point_init op_delete_point_init op_rename_point_init op_set_meta_init
          op_find_by_name_init op_get_meta_init op_get_init op_list_init op_health_init op_quiet_init)
  then show ?thesis
    using assms p s1 by (auto simp: handle_request_def Let_def split: option.splits if_splits dest: answer_handleD)
qed

section \<open>The loop and the start\<close>

lemma flush_conn_handle: "flush_conn now rs fd k s = (alive, t) \<Longrightarrow> s_h t = s_h s"
  by (auto simp: flush_conn_def put_conn_def Let_def split: prod.splits if_splits)

lemma close_conn_handle [simp]: "s_h (close_conn now k s) = s_h s"
  by (simp add: close_conn_def put_conn_def split_beta)

lemma serve_conn_init: "serve_conn r p s = Some t \<Longrightarrow> initialized (s_h t) = initialized (s_h s)"
  by (auto simp: serve_conn_def Let_def split: option.splits prod.splits if_splits
      dest!: handle_request_init flush_conn_handle)

lemma serve_all_init: "serve_all r ps s = Some t \<Longrightarrow> initialized (s_h t) = initialized (s_h s)"
  by (induction ps arbitrary: s) (auto split: option.splits dest!: serve_conn_init)

lemma loop_round_init:
  assumes "loop_round r s = Some t"
  shows "initialized (s_h t) = initialized (s_h s)"
proof -
  have d: "initialized (s_h (snd (dump_stats now s))) = initialized (s_h s)" for now
    using full_self_check_init [of now s] by (simp add: dump_stats_def split_beta Let_def)
  have a: "s_h (accept_conn c x) = s_h x" for c x by (simp add: accept_conn_def split: option.split)
  show ?thesis using serve_all_init [of r] assms d a by (auto simp: loop_round_def Let_def split: if_splits)
qed

lemma main_loop_init: "main_loop rs s = Some (ended, t) \<Longrightarrow> initialized (s_h t) = initialized (s_h s)"
  by (induction rs arbitrary: s) (auto split: if_splits poll_res.splits option.splits dest!: loop_round_init)

lemma data_phase_init: "data_phase c e h lg = (rc, h', lg') \<Longrightarrow> initialized h' = initialized h"
  by (auto simp: data_phase_def Let_def split: if_splits option.splits prod.splits
      dest!: arg_cong [of "indurtdb_h_load_config _ _" _ "\<lambda>r. initialized (snd r)"]
        arg_cong [of "indurtdb_h_delta_replay _ _ _ _" _ "\<lambda>r. initialized (snd r)"]
        arg_cong [of "indurtdb_h_enable_delta _ _ _" _ "\<lambda>r. initialized (snd r)"])

lemma boot_init:
  assumes "boot c e = Some b" "be_open e = Some h"
  shows "case b of Boot_exit rc h' \<Rightarrow> (\<forall>x. h' = Some x \<longrightarrow> initialized x = initialized h) | Boot_ok s \<Rightarrow> initialized (s_h s) = initialized h"
proof -
  obtain drc h1 lg where d: "data_phase c e h irt_logbuf_init = (drc, h1, lg)" by (metis prod_cases3)
  note i = data_phase_init [OF d]
  show ?thesis
    using assms d i by (auto simp: boot_def Let_def split: sum.splits option.splits prod.splits if_splits)
qed

end
