(* ===== verification/Rtdbd_Main_Props.thy ===== *)
theory Rtdbd_Main_Props
  imports Rtdbd_Main Handle_Frame
begin

text \<open>
  What a run of the daemon leaves on its host (\<open>main\<close> of \<^verbatim>\<open>rtdbd/src/rtdbd.c\<close>): the exit codes, the
  names and the contents of segments, the socket file.
\<close>

section \<open>Opening an instance\<close>

text \<open>Segment \<open>k\<close> under the name: attached with its contents, or created by this process.\<close>

definition opened :: "world \<Rightarrow> string \<Rightarrow> u32 \<Rightarrow> u32 \<Rightarrow> nat \<Rightarrow> shm \<Rightarrow> bool \<Rightarrow> bool" where
  "opened w name mp ms k s own \<longleftrightarrow>
     w_names w name = Some k \<and> (s, own) = init_attach (handle_on (w_segs w k) mp ms) (w_pid w) (w_alive w)
     \<or> w_names w name = None \<and> k = w_next w \<and> own \<and> s = fresh_shm mp ms (w_pid w)"

text \<open>Opening creates the segment or attaches it; when it fails nothing is changed.\<close>

lemma shm_init_effect:
  assumes "shm_init flt instance_id mp ms w = (rc, r, w')" "instance_id \<noteq> []" "mp \<noteq> 0"
  defines "name \<equiv> IRT_SHM_PREFIX @ instance_id"
  shows "case r of
      None \<Rightarrow> w' = w \<and> rc \<noteq> 0
    | Some (s, os) \<Rightarrow> rc = 0 \<and> os_name os = name \<and>
        (\<exists>k. os_mapped os = Some k \<and> w_names w' = (w_names w)(name \<mapsto> k)
           \<and> w_segs w' = (w_segs w)(k := segment.truncate s) \<and> opened w name mp ms k s (os_owner os))"
proof (cases "64 \<le> length name \<or> flt = Open_fails")
  case True
  then show ?thesis
    using assms by (auto simp: shm_init_def Let_def irt_shm_os_map_def zero_os_def irt_shm_init_def IRT_SHM_ERR_ARG_def split: if_splits)
next
  case False
  show ?thesis
  proof (cases "w_names w name")
    case None
    then show ?thesis
      using assms False by (cases flt) (auto simp: opened_def shm_init_def Let_def irt_shm_os_map_def zero_os_def irt_shm_init_def
          fresh_shm_def irt_shm_os_is_owner_def irt_shm_os_claim_ownership_def)
  next
    case (Some k)
    let ?h = "handle_on (w_segs w k) mp ms"
    obtain s own where a: "init_attach ?h (w_pid w) (w_alive w) = (s, own)" by (metis prod.collapse)
    show ?thesis
      using assms False Some a
      by (cases flt) (auto simp: opened_def shm_init_def Let_def irt_shm_os_map_def zero_os_def irt_shm_init_def irt_shm_os_unmap_def
          irt_shm_os_is_owner_def irt_shm_os_claim_ownership_def IRT_SHM_ERR_ARG_def IRT_SHM_ERR_VERSION_def
          IRT_SHM_ERR_CRC_def fun_upd_idem split: if_splits)
  qed
qed

definition handle_of :: "shm \<Rightarrow> u32 \<Rightarrow> indurtdb" where
  "handle_of s pid = zero_handle\<lparr>delta_fd := -1, h_shm := s, h_sub := irt_sub_init, initialized := True, h_owner_pid := pid\<rparr>"

lemma open_effect:
  assumes "world_ok w" "indurtdb_h_open flt instance_id (Some (mp, ms)) w = Some ((rc, href), w')"
  defines "name \<equiv> IRT_SHM_PREFIX @ instance_id"
  shows "case href of
      None \<Rightarrow> w_names w' = w_names w \<and> w_segs w' = w_segs w
    | Some i \<Rightarrow> (\<exists>k s os. w_registry w' ! i = \<lparr>in_h = handle_of s (w_pid w), in_os = os\<rparr>
        \<and> i < length (w_registry w') \<and> os_name os = name \<and> os_mapped os = Some k
        \<and> w_names w' = (w_names w)(name \<mapsto> k) \<and> w_segs w' = (w_segs w)(k := segment.truncate s)
        \<and> opened w name mp ms k s (os_owner os))"
proof (cases "\<exists>m. w' = werr m w \<and> href = None")
  case True
  then show ?thesis by auto
next
  case False
  have ok: "slots_ok w" using assms(1) by (simp add: world_ok_parts)
  obtain r w1 where a: "inst_alloc w = Some (r, w1)" "instance_id \<noteq> []" "mp \<noteq> 0"
    using assms(2) False by (auto simp: indurtdb_h_open_def Let_def irt_codes split: if_splits option.splits)
  from inst_alloc_cases [OF a(1)] obtain i where
    i: "r = Some i" "i < 32" "\<not> bit (w_used w) i"
      "w1 = put_inst i (zero_instance\<lparr>in_h := zero_handle\<lparr>delta_fd := -1\<rparr>\<rparr>) (w\<lparr>w_used := w_used w OR push_bit i 1\<rparr>)"
    using assms(2) False a by (auto simp: indurtdb_h_open_def Let_def)
  note al = alloc_slots [OF ok i(2,3), folded i(4)]
  have w1: "w_names w1 = w_names w" "w_segs w1 = w_segs w" "w_pid w1 = w_pid w" "w_alive w1 = w_alive w" "w_next w1 = w_next w"
    by (simp_all add: i(4))
  have off: "\<not> initialized (in_h (w_registry w1 ! i))" using al by (simp add: slot_init_def)
  have op: "opened w1 n p q k s own = opened w n p q k s own" for n p q k s own by (simp add: opened_def w1)
  let ?h = "zero_handle\<lparr>delta_fd := -1, default_partition := 0\<rparr>"
  obtain rc1 r1 w2 where s: "shm_init flt instance_id mp ms w1 = (rc1, r1, w2)" by (metis prod_cases3)
  note e = shm_init_effect [OF s a(2,3), folded name_def, unfolded op w1]
  have s1: "slots_ok w1" using al by simp
  note o = shm_init_slots [OF s s1]
  have pid: "w_pid w2 = w_pid w" using o w1 by simp
  have "slots_ok w2" using o by (rule conjunct1)
  then have len: "i < length (w_registry w2)" using i(2) by (simp add: slots_ok_def)
  show ?thesis
  proof (cases r1)
    case None
    have "inst_init flt i instance_id mp ms w1 = (INDURTDB_ERR_ARG, werr ''shm init failed'' (put_inst i \<lparr>in_h = ?h, in_os = zero_os\<rparr> w2))"
      using off a s None unfolding inst_init_def Let_def by (simp add: forked_def)
    then have "href = None" "w_names w' = w_names w2" "w_segs w' = w_segs w2"
      using assms(2) a i(1) by (auto simp: indurtdb_h_open_def Let_def irt_codes)
    then show ?thesis using e None w1 by simp
  next
    case (Some p)
    obtain sh os where p: "p = (sh, os)" by (cases p)
    have "inst_init flt i instance_id mp ms w1 = (0, put_inst i \<lparr>in_h = handle_of sh (w_pid w2), in_os = os\<rparr> w2)"
      using off a s Some p unfolding inst_init_def Let_def handle_of_def by (simp add: forked_def zero_handle_def)
    then have h: "href = Some i" "w' = put_inst i \<lparr>in_h = handle_of sh (w_pid w2), in_os = os\<rparr> w2"
      using assms(2) a i(1) by (auto simp: indurtdb_h_open_def Let_def)
    then show ?thesis using e Some p len pid by (auto simp: h)
  qed
qed

section \<open>The open handle of the daemon\<close>

text \<open>
  World \<open>w'\<close> is world \<open>w\<close> with the segment \<open>k\<close> open under the name in slot \<open>i\<close>; of the segments only
  \<open>k\<close> may differ.
\<close>

definition holds :: "world \<Rightarrow> string \<Rightarrow> nat \<Rightarrow> nat \<Rightarrow> bool \<Rightarrow> world \<Rightarrow> bool" where
  "holds w name i k own w' \<longleftrightarrow>
     i < length (w_registry w') \<and> os_name (in_os (w_registry w' ! i)) = name \<and> os_mapped (in_os (w_registry w' ! i)) = Some k
     \<and> os_owner (in_os (w_registry w' ! i)) = own \<and> w_names w' = (w_names w)(name \<mapsto> k)
     \<and> (\<forall>j. j \<noteq> k \<longrightarrow> w_segs w' j = w_segs w j)"

lemma holds_write_back:
  assumes "holds w name i k own w'"
  shows "holds w name i k own (write_back i h w')" "in_h (w_registry (write_back i h w') ! i) = h"
    "w_segs (write_back i h w') k = segment.truncate (h_shm h)"
  using assms by (simp_all add: holds_def write_back_def Let_def)

text \<open>Closing removes the name of an owner and nothing else.\<close>

lemma holds_close:
  assumes "holds w name i k own w'" "initialized (in_h (w_registry w' ! i))"
  shows "w_names (indurtdb_h_close (Some i) w') = (if own then (w_names w')(name := None) else w_names w')"
    "w_segs (indurtdb_h_close (Some i) w') = w_segs w'"
  using assms by (auto simp: holds_def indurtdb_h_close_def inst_shutdown_def Let_def)

lemma load_phase_code: "load_phase c e = Inl rc \<Longrightarrow> rc = RTDBD_EXIT_CONFIG"
  by (auto simp: load_phase_def Let_def split: if_splits prod.splits)

lemma data_phase_code: "data_phase c e h lg = (rc, h', lg') \<Longrightarrow> rc \<noteq> RTDBD_EXIT_OK \<Longrightarrow> rc = RTDBD_EXIT_CONFIG"
  by (auto simp: data_phase_def Let_def split: option.splits prod.splits if_splits)

lemma boot_exit_codes: "boot c e = Some (Boot_exit rc h) \<Longrightarrow> rc \<in> {RTDBD_EXIT_CONFIG, RTDBD_EXIT_SHM, RTDBD_EXIT_SELFCHECK}"
  by (auto simp: boot_def Let_def dest: load_phase_code data_phase_code split: sum.splits option.splits prod.splits if_splits)

lemma boot_without_handle: "be_open e = None \<Longrightarrow> boot c e = Some b \<Longrightarrow> \<exists>rc. b = Boot_exit rc None"
  by (auto simp: boot_def split: sum.splits)

lemma rtdbd_open_effect:
  assumes "world_ok w" "rtdbd_open c e w = Some ((b, href), w')"
  defines "name \<equiv> IRT_SHM_PREFIX @ cl_instance c"
  shows "(case b of Boot_exit rc _ \<Rightarrow> rc \<in> {RTDBD_EXIT_CONFIG, RTDBD_EXIT_SHM, RTDBD_EXIT_SELFCHECK} | _ \<Rightarrow> True) \<and>
    (case href of
      None \<Rightarrow> w_names w' = w_names w \<and> w_segs w' = w_segs w \<and> (\<exists>rc. b = Boot_exit rc None)
    | Some i \<Rightarrow> (\<exists>k s own. holds w name i k own w' \<and> opened w name (cl_max_points c) (cl_max_subs c) k s own
        \<and> (case b of Boot_ok t \<Rightarrow> initialized (s_h t) | _ \<Rightarrow> True)))"
proof (cases "load_phase c (me_boot e)")
  case (Inl rc)
  then show ?thesis using assms by (auto simp: rtdbd_open_def dest: load_phase_code)
next
  case (Inr x)
  obtain rc w1 where o: "indurtdb_h_open (me_map e) (cl_instance c) (Some (cl_max_points c, cl_max_subs c)) w = Some ((rc, href), w1)"
    using assms(2) Inr by (auto simp: rtdbd_open_def split: option.splits boot_res.splits)
  let ?e = "(me_boot e)\<lparr>be_open := map_option (view w1) href\<rparr>"
  have b: "boot c ?e = Some b" and w': "w' = (case (b, href) of (Boot_exit rc (Some h), Some i) \<Rightarrow> write_back i h w1 | _ \<Rightarrow> w1)"
    using assms(2) Inr o by (auto simp: rtdbd_open_def split: option.splits boot_res.splits)
  note oe = open_effect [OF assms(1) o, folded name_def]
  have codes: "case b of Boot_exit rc _ \<Rightarrow> rc \<in> {RTDBD_EXIT_CONFIG, RTDBD_EXIT_SHM, RTDBD_EXIT_SELFCHECK} | _ \<Rightarrow> True"
    using boot_exit_codes b by (cases b) auto
  show ?thesis
  proof (cases href)
    case None
    then obtain rc where "b = Boot_exit rc None" using boot_without_handle [of ?e c b] b by auto
    then show ?thesis using codes oe None w' by simp
  next
    case (Some i)
    then obtain k s os where
      r: "w_registry w1 ! i = \<lparr>in_h = handle_of s (w_pid w), in_os = os\<rparr>" "i < length (w_registry w1)" "os_name os = name"
        "os_mapped os = Some k" "w_names w1 = (w_names w)(name \<mapsto> k)" "w_segs w1 = (w_segs w)(k := segment.truncate s)"
        "opened w name (cl_max_points c) (cl_max_subs c) k s (os_owner os)"
      using oe by auto
    have h: "holds w name i k (os_owner os) w1" using r by (simp add: holds_def)
    then have h': "holds w name i k (os_owner os) w'"
      using holds_write_back(1) [OF h] Some w' by (auto split: boot_res.splits option.splits)
    have "initialized (view w1 i)" by (simp add: view_def r(1) handle_of_def Let_def)
    moreover have "be_open ?e = Some (view w1 i)" using Some by simp
    ultimately have "case b of Boot_ok t \<Rightarrow> initialized (s_h t) | _ \<Rightarrow> True"
      using boot_init [OF b] by (auto split: boot_res.splits)
    then show ?thesis using codes h' r(7) Some by auto
  qed
qed

lemma opened_key: "opened w name mp ms k s own \<Longrightarrow> w_names w name = Some k \<or> w_names w name = None \<and> k = w_next w"
  by (auto simp: opened_def)

text \<open>
  A start without a configuration file and without a change log writes no point: the handle that it
  passes on is the one that it opened.
\<close>

lemma boot_plain:
  assumes "boot c e = Some b" "be_open e = Some h" "cl_config c = None" "cl_delta c = None"
  shows "case b of Boot_exit rc h' \<Rightarrow> (\<forall>x. h' = Some x \<longrightarrow> x = h) | Boot_ok s \<Rightarrow> s_h s = h"
  using assms by (auto simp: boot_def data_phase_def Let_def split: sum.splits option.splits prod.splits if_splits)

definition same_data :: "'a segment_scheme \<Rightarrow> 'b segment_scheme \<Rightarrow> bool" where
  "same_data g g' \<longleftrightarrow> points g' = points g \<and> slots g' = slots g \<and> metas g' = metas g"

lemma same_data_truncate: "same_data g (segment.truncate s) = same_data g s"
  by (simp add: same_data_def segment.defs)

lemma opened_data: "opened w name mp ms k s own \<Longrightarrow> w_names w name = Some k \<Longrightarrow> same_data (w_segs w k) s"
  using init_attach_fields(1-3) by (auto simp: opened_def same_data_def) (metis handle_on_sel(7-9))+

lemma rtdbd_open_plain:
  assumes "world_ok w" "rtdbd_open c e w = Some ((b, Some i), w')" "cl_config c = None" "cl_delta c = None"
    "w_names w (IRT_SHM_PREFIX @ cl_instance c) = Some k"
  shows "same_data (w_segs w k) (w_segs w' k) \<and> (case b of Boot_ok t \<Rightarrow> same_data (w_segs w k) (h_shm (s_h t)) | _ \<Rightarrow> True)"
proof -
  let ?name = "IRT_SHM_PREFIX @ cl_instance c"
  obtain x rc w1 where l: "load_phase c (me_boot e) = Inr x"
      and o: "indurtdb_h_open (me_map e) (cl_instance c) (Some (cl_max_points c, cl_max_subs c)) w = Some ((rc, Some i), w1)"
    using assms(2) by (auto simp: rtdbd_open_def split: option.splits boot_res.splits sum.splits)
  let ?h = "view w1 i"
  have b: "boot c ((me_boot e)\<lparr>be_open := Some ?h\<rparr>) = Some b"
      and w': "w' = (case b of Boot_exit rc (Some h) \<Rightarrow> write_back i h w1 | _ \<Rightarrow> w1)"
    using assms(2) l o by (auto simp: rtdbd_open_def split: option.splits boot_res.splits)
  obtain k' s os where
    r: "w_registry w1 ! i = \<lparr>in_h = handle_of s (w_pid w), in_os = os\<rparr>" "os_mapped os = Some k'"
      "w_segs w1 = (w_segs w)(k' := segment.truncate s)" "opened w ?name (cl_max_points c) (cl_max_subs c) k' s (os_owner os)"
    using open_effect [OF assms(1) o] by auto
  have k: "k' = k" using opened_key [OF r(4)] assms(5) by auto
  have d: "same_data (w_segs w k) s" using opened_data [OF r(4)] assms(5) k by simp
  have "h_shm ?h = s"
    using handle_on_truncate [of s] by (simp add: view_def r handle_of_def Let_def)
  then have hd: "same_data (w_segs w k) (h_shm ?h)" using d by simp
  note p = boot_plain [OF b _ assms(3,4), of ?h, simplified]
  have "w_segs (write_back i ?h w1) k = segment.truncate (h_shm ?h)"
    by (simp add: write_back_def r(1,2) k Let_def)
  then have "same_data (w_segs w k) (w_segs w' k)"
    using p hd d r(3) k w' by (auto simp: same_data_truncate split: boot_res.splits option.splits)
  moreover have "case b of Boot_ok t \<Rightarrow> same_data (w_segs w k) (h_shm (s_h t)) | _ \<Rightarrow> True"
    using p hd by (auto split: boot_res.splits)
  ultimately show ?thesis by blast
qed

section \<open>The end of a run\<close>

text \<open>A process becomes the owner of a segment that it creates, or whose recorded owner is dead.\<close>

definition becomes_owner :: "world \<Rightarrow> string \<Rightarrow> bool" where
  "becomes_owner w name \<longleftrightarrow>
     (case w_names w name of
        None \<Rightarrow> True
      | Some k \<Rightarrow> 0 < sint (owner_pid (w_segs w k)) \<and> owner_pid (w_segs w k) \<noteq> w_pid w \<and> \<not> w_alive w (owner_pid (w_segs w k)))"

lemma opened_owner: "opened w name mp ms k s own \<Longrightarrow> own = becomes_owner w name"
  by (auto simp: opened_def becomes_owner_def init_attach_def Let_def)

lemma check_cli_code: "check_cli c = Some rc \<Longrightarrow> rc = RTDBD_EXIT_ERROR"
  by (auto simp: check_cli_def split: if_splits)

text \<open>What a run leaves, by its exit code.\<close>

definition left_behind :: "string \<Rightarrow> int \<Rightarrow> world \<Rightarrow> world \<Rightarrow> bool" where
  "left_behind name rc w w' \<longleftrightarrow>
     (\<forall>n. n \<noteq> name \<longrightarrow> w_names w' n = w_names w n)
     \<and> (\<forall>j < w_next w. w_names w name \<noteq> Some j \<longrightarrow> w_segs w' j = w_segs w j)
     \<and> (rc \<noteq> RTDBD_EXIT_OK \<longrightarrow> w_names w name \<noteq> None \<longrightarrow> w_names w' name = w_names w name)
     \<and> (rc = RTDBD_EXIT_OK \<longrightarrow> w_names w' name = (if becomes_owner w name then None else w_names w name))"

lemma left_behind_same:
  "rc \<noteq> RTDBD_EXIT_OK \<Longrightarrow> w_names w' = w_names w \<Longrightarrow> w_segs w' = w_segs w \<Longrightarrow> left_behind name rc w w'"
  by (simp add: left_behind_def)

lemma left_behind_holds:
  assumes "holds w name i k own w'" "opened w name mp ms k s own" "rc \<noteq> RTDBD_EXIT_OK"
  shows "left_behind name rc w w'"
  using assms opened_key [OF assms(2)] by (auto simp: left_behind_def holds_def)

lemma left_behind_close:
  assumes "holds w name i k own w'" "opened w name mp ms k s own" "initialized (in_h (w_registry w' ! i))"
  shows "left_behind name RTDBD_EXIT_OK w (indurtdb_h_close (Some i) w')"
proof -
  have "w_names w name = None \<Longrightarrow> becomes_owner w name" by (simp add: becomes_owner_def)
  then show ?thesis
    using assms(1) opened_key [OF assms(2)] opened_owner [OF assms(2)] holds_close [OF assms(1,3)]
    by (auto simp: left_behind_def holds_def)
qed

lemma rtdbd_serve_effect:
  assumes "rtdbd_serve c e (Some i) s ho = Some (M_exit rc, ho')" "holds w name i k own (ho_world ho)"
    "opened w name mp ms k x own" "initialized (s_h s)"
  shows "rc \<in> {RTDBD_EXIT_OK, RTDBD_EXIT_ERROR} \<and> left_behind name rc w (ho_world ho')
    \<and> (rc = RTDBD_EXIT_OK \<longrightarrow> cl_socket c \<notin> ho_sockets ho')"
proof -
  obtain listens ho1 where l: "rtdbd_listen (me_listen e) (cl_socket c) ho = (listens, ho1)" by (metis prod.collapse)
  have w1: "ho_world ho1 = ho_world ho"
    using l by (auto simp: rtdbd_listen_def Let_def split: listen_res.splits)
  show ?thesis
  proof (cases listens)
    case False
    then have r: "rc = RTDBD_EXIT_ERROR" "ho' = store_handle (Some i) (s_h s) ho1"
      using assms(1) l by (simp_all add: rtdbd_serve_def)
    have "left_behind name rc w (write_back i (s_h s) (ho_world ho))"
      by (rule left_behind_holds [OF holds_write_back(1) [OF assms(2)] assms(3)])
         (simp add: r RTDBD_EXIT_ERROR_def RTDBD_EXIT_OK_def)
    then show ?thesis using r w1 by (simp add: store_handle_def RTDBD_EXIT_ERROR_def RTDBD_EXIT_OK_def)
  next
    case True
    then obtain t where m: "main_loop (me_rounds e) s = Some (True, t)" "rc = RTDBD_EXIT_OK"
        "ho' = rtdbd_close (Some i) (cl_socket c) (store_handle (Some i) (s_h (shutdown (me_end e) (me_drain e) t)) ho1)"
      using assms(1) l by (auto simp: rtdbd_serve_def split: option.splits prod.splits bool.splits)
    let ?h = "s_h t"
    note wb = holds_write_back [OF assms(2), of ?h]
    have "initialized (in_h (w_registry (write_back i ?h (ho_world ho)) ! i))"
      using main_loop_init [OF m(1)] assms(4) by (simp add: wb(2))
    from left_behind_close [OF wb(1) assms(3) this] show ?thesis
      using m w1 by (simp add: rtdbd_close_def store_handle_def shutdown_h)
  qed
qed

text \<open>An error before the loop, with neither a configuration file nor a change log: no point was written.\<close>

lemma rtdbd_main_plain:
  assumes "world_ok (ho_world ho)" "parse_opts opts cli_defaults = Inr c" "rtdbd_main opts e ho = Some (M_exit rc, ho')"
    "rc \<noteq> RTDBD_EXIT_OK" "cl_config c = None" "cl_delta c = None" "w_names (ho_world ho) (IRT_SHM_PREFIX @ cl_instance c) = Some k"
  shows "same_data (w_segs (ho_world ho) k) (w_segs (ho_world ho') k)"
proof (cases "ho' = ho")
  case True
  then show ?thesis by (simp add: same_data_def)
next
  case False
  then have cc: "check_cli c = None" using assms(2,3) by (auto simp: rtdbd_main_def split: option.splits)
  then obtain b href w' where o: "rtdbd_open c e (ho_world ho) = Some ((b, href), w')"
      and r: "(case b of Boot_exit rc _ \<Rightarrow> Some (M_exit rc, ho\<lparr>ho_world := w'\<rparr>)
        | Boot_ok s \<Rightarrow> rtdbd_serve c e href s (ho\<lparr>ho_world := w'\<rparr>)) = Some (M_exit rc, ho')"
    using assms(2,3) by (auto simp: rtdbd_main_def split: option.splits boot_res.splits if_splits)
  note eff = rtdbd_open_effect [OF assms(1) o]
  show ?thesis
  proof (cases href)
    case None
    then show ?thesis using eff r by (auto simp: same_data_def)
  next
    case (Some i)
    note pl = rtdbd_open_plain [OF assms(1) o [unfolded Some] assms(5-7)]
    obtain k' s own where h: "holds (ho_world ho) (IRT_SHM_PREFIX @ cl_instance c) i k' own w'"
        "opened (ho_world ho) (IRT_SHM_PREFIX @ cl_instance c) (cl_max_points c) (cl_max_subs c) k' s own"
      using eff Some by auto
    have k: "k' = k" using opened_key [OF h(2)] assms(7) by auto
    show ?thesis
    proof (cases b)
      case (Boot_exit rc' x)
      then show ?thesis using pl r by auto
    next
      case (Boot_ok t)
      then have sv: "rtdbd_serve c e (Some i) t (ho\<lparr>ho_world := w'\<rparr>) = Some (M_exit rc, ho')" using r Some by simp
      then have "ho_world ho' = write_back i (s_h t) w'"
        using assms(4) by (auto simp: rtdbd_serve_def rtdbd_listen_def store_handle_def Let_def
            split: listen_res.splits option.splits prod.splits bool.splits if_splits)
      then show ?thesis
        using pl Boot_ok holds_write_back(3) [OF h(1), of "s_h t"] by (simp add: k same_data_truncate)
    qed
  qed
qed

lemmas exit_codes = RTDBD_EXIT_OK_def RTDBD_EXIT_ERROR_def RTDBD_EXIT_CONFIG_def RTDBD_EXIT_SHM_def RTDBD_EXIT_SELFCHECK_def

lemma rtdbd_main_effect:
  assumes "world_ok (ho_world ho)" "parse_opts opts cli_defaults = Inr c" "rtdbd_main opts e ho = Some (M_exit rc, ho')"
  shows "rc \<in> {RTDBD_EXIT_OK, RTDBD_EXIT_ERROR, RTDBD_EXIT_CONFIG, RTDBD_EXIT_SHM, RTDBD_EXIT_SELFCHECK}
    \<and> left_behind (IRT_SHM_PREFIX @ cl_instance c) rc (ho_world ho) (ho_world ho')
    \<and> (rc = RTDBD_EXIT_OK \<longrightarrow> cl_socket c \<notin> ho_sockets ho')"
proof (cases "check_cli c")
  case (Some x)
  then have "rc = RTDBD_EXIT_ERROR" "ho' = ho" using assms(2,3) check_cli_code by (auto simp: rtdbd_main_def)
  then show ?thesis by (simp add: left_behind_same exit_codes)
next
  case None
  then obtain b href w' where o: "rtdbd_open c e (ho_world ho) = Some ((b, href), w')"
      and r: "(case b of Boot_exit rc _ \<Rightarrow> Some (M_exit rc, ho\<lparr>ho_world := w'\<rparr>)
        | Boot_ok s \<Rightarrow> rtdbd_serve c e href s (ho\<lparr>ho_world := w'\<rparr>)) = Some (M_exit rc, ho')"
    using assms(2,3) by (auto simp: rtdbd_main_def split: option.splits boot_res.splits if_splits)
  note eff = rtdbd_open_effect [OF assms(1) o]
  show ?thesis
  proof (cases href)
    case None
    then show ?thesis using eff r by (auto simp: left_behind_same exit_codes)
  next
    case (Some i)
    then obtain k s own where h: "holds (ho_world ho) (IRT_SHM_PREFIX @ cl_instance c) i k own w'"
        "opened (ho_world ho) (IRT_SHM_PREFIX @ cl_instance c) (cl_max_points c) (cl_max_subs c) k s own"
        "case b of Boot_ok t \<Rightarrow> initialized (s_h t) | _ \<Rightarrow> True"
      using eff by auto
    show ?thesis
    proof (cases b)
      case (Boot_exit rc' x)
      then show ?thesis using eff r left_behind_holds [OF h(1,2)] by (auto simp: exit_codes)
    next
      case (Boot_ok t)
      then show ?thesis
        using rtdbd_serve_effect [of c e i t "ho\<lparr>ho_world := w'\<rparr>" rc ho', OF _ _ h(2)] h r Some by (auto simp: exit_codes)
    qed
  qed
qed

text \<open>
  C10. What a run of the daemon leaves on its host, by its exit code: no other name and no segment but
  that of its instance is touched; when it ends with an error code, an existing segment keeps its
  name; when it ends with 0 the socket file is gone, and the name of the segment exactly when the
  daemon had become its owner, which it does when it created the segment or found its owner dead.
  When it ends with an error and was given neither a configuration file nor a change log, the points,
  the index and the metadata of an existing segment are as before. There are no other exit codes than
  0 to 4.
\<close>

theorem daemon_exit_on_host:
  assumes "world_ok (ho_world ho)" "parse_opts opts cli_defaults = Inr c" "rtdbd_main opts e ho = Some (M_exit rc, ho')"
  shows "rc \<in> {RTDBD_EXIT_OK, RTDBD_EXIT_ERROR, RTDBD_EXIT_CONFIG, RTDBD_EXIT_SHM, RTDBD_EXIT_SELFCHECK}
    \<and> left_behind (IRT_SHM_PREFIX @ cl_instance c) rc (ho_world ho) (ho_world ho')
    \<and> (rc = RTDBD_EXIT_OK \<longrightarrow> cl_socket c \<notin> ho_sockets ho')
    \<and> (rc \<noteq> RTDBD_EXIT_OK \<longrightarrow> cl_config c = None \<longrightarrow> cl_delta c = None \<longrightarrow>
        (\<forall>k. w_names (ho_world ho) (IRT_SHM_PREFIX @ cl_instance c) = Some k \<longrightarrow>
          same_data (w_segs (ho_world ho) k) (w_segs (ho_world ho') k)))"
  using rtdbd_main_effect [OF assms] rtdbd_main_plain [OF assms] by blast

text \<open>A daemon that creates the segment of one point and is then told to stop.\<close>

definition demo_main_env :: main_env where
  "demo_main_env = \<lparr>me_boot = demo_boot_env, me_map = No_fault, me_listen = Listens,
     me_rounds = [(demo_round None None)\<lparr>ro_stop := True\<rparr>], me_drain = [], me_end = 9\<rparr>"

definition demo_host :: host where
  "demo_host = \<lparr>ho_world = fresh_world 7, ho_sockets = {}\<rparr>"

lemma demo_number: "parse_u32_cli ''1'' = Some 1"
  by (simp add: parse_u32_cli_def c_strtoul_def Let_def is_digit_def digits_val_def digit_val_def isspace_def code_def)

lemma demo_cli: "parse_opts [(CHR ''m'', ''1'')] cli_defaults = Inr (cli_defaults\<lparr>cl_max_points := 1\<rparr>)"
  "check_cli (cli_defaults\<lparr>cl_max_points := 1\<rparr>) = None"
  by (simp_all add: demo_number cli_defaults_def check_cli_def instance_char_def code_def RTDBD_MAX_POINTS_LIMIT_def RTDBD_SUB_MAX_def)

lemma demo_open:
  "\<exists>w. indurtdb_h_open No_fault ''default'' (Some (1, 32)) (fresh_world 7) = Some ((0, Some 0), w)
     \<and> view w 0 = handle_of (fresh_shm 1 32 7) 7"
proof -
  let ?w1 = "put_inst 0 (zero_instance\<lparr>in_h := zero_handle\<lparr>delta_fd := -1\<rparr>\<rparr>) ((fresh_world 7)\<lparr>w_used := 1\<rparr>)"
  have a: "inst_alloc (fresh_world 7) = Some (Some 0, ?w1)"
    by (simp add: inst_alloc_def IRT_MAX_INSTANCES_def upt_rec fresh_world_def)
  have p: "w_pid ?w1 = 7" "w_pid (fresh_world 7) = 7" "\<not> initialized (in_h (w_registry ?w1 ! 0))" by (simp_all add: fresh_world_def)
  have "w_names ?w1 (IRT_SHM_PREFIX @ ''default'') = None" "length (IRT_SHM_PREFIX @ ''default'') < 64"
    by (simp_all add: fresh_world_def IRT_SHM_PREFIX_def)
  from shm_init_create [OF this(1) _ _ this(2), of 1 32] obtain os where
    s: "shm_init No_fault ''default'' 1 32 ?w1 = (0, Some (fresh_shm 1 32 7, os),
      ?w1\<lparr>w_names := (w_names ?w1)(IRT_SHM_PREFIX @ ''default'' \<mapsto> w_next ?w1),
        w_segs := (w_segs ?w1)(w_next ?w1 := segment.truncate (fresh_shm 1 32 7)), w_next := Suc (w_next ?w1)\<rparr>)"
    "os_mapped os = Some (w_next ?w1)" by (auto simp: p)
  have i: "\<exists>w. inst_init No_fault 0 ''default'' 1 32 ?w1 = (0, w) \<and> view w 0 = handle_of (fresh_shm 1 32 7) 7"
    using p s handle_on_truncate [of "fresh_shm 1 32 7"]
    unfolding inst_init_def Let_def
    by (simp add: forked_def view_def handle_of_def zero_handle_def fresh_world_def fresh_shm_fields put_inst_def Let_def)
  then show ?thesis using a by (auto simp: indurtdb_h_open_def Let_def)
qed

theorem daemon_exit_on_host_witness:
  "\<exists>ho'. rtdbd_main [(CHR ''m'', ''1'')] demo_main_env demo_host = Some (M_exit 0, ho')
     \<and> w_names (ho_world ho') (IRT_SHM_PREFIX @ ''default'') = None"
proof -
  let ?c = "cli_defaults\<lparr>cl_max_points := 1\<rparr>"
  have c: "cl_instance ?c = ''default''" "cl_max_points ?c = 1" "cl_max_subs ?c = 32" "\<not> cl_supervise ?c"
    by (simp_all add: cli_defaults_def)
  obtain w where w: "indurtdb_h_open No_fault ''default'' (Some (1, 32)) (fresh_world 7) = Some ((0, Some 0), w)"
      "view w 0 = handle_of (fresh_shm 1 32 7) 7" using demo_open by blast
  have "\<exists>t. boot ?c (demo_boot_env\<lparr>be_open := Some (handle_of (fresh_shm 1 32 7) 7)\<rparr>) = Some (Boot_ok t)"
    by (simp add: boot_def load_phase_def data_phase_def demo_boot_env_def cli_defaults_def Let_def handle_of_def
        rtdbd_validate_config_def indurtdb_h_read_point_def irt_pm_read_def irt_pm_validate_id_def quiet_def
        fresh_shm_fields zero_point_def indurtdb_h_self_check_def INDURTDB_HEALTH_OK_def irt_layout_off_points_def)
  then obtain t where t: "boot ?c (demo_boot_env\<lparr>be_open := Some (handle_of (fresh_shm 1 32 7) 7)\<rparr>) = Some (Boot_ok t)" by blast
  have l: "\<exists>x. load_phase ?c demo_boot_env = Inr x"
    by (simp add: load_phase_def cli_defaults_def Let_def)
  have o: "rtdbd_open ?c demo_main_env (fresh_world 7) = Some ((Boot_ok t, Some 0), w)"
    using l t w c by (auto simp: rtdbd_open_def demo_main_env_def)
  have "\<exists>ho'. rtdbd_serve ?c demo_main_env (Some 0) t (demo_host\<lparr>ho_world := w\<rparr>) = Some (M_exit 0, ho')"
    by (simp add: rtdbd_serve_def demo_main_env_def rtdbd_listen_def Let_def RTDBD_EXIT_OK_def)
  then obtain ho' where r: "rtdbd_main [(CHR ''m'', ''1'')] demo_main_env demo_host = Some (M_exit 0, ho')"
    using o c(4) demo_cli by (auto simp: rtdbd_main_def demo_host_def)
  have "world_ok (ho_world demo_host)" by (simp add: demo_host_def fresh_world_ok)
  from daemon_exit_on_host [OF this demo_cli(1) r] r show ?thesis
    by (auto simp: left_behind_def becomes_owner_def RTDBD_EXIT_OK_def c demo_host_def fresh_world_def)
qed

end
