(* ===== verification/Codec.thy ===== *)
theory Codec
  imports IRT_Prelude
begin

text \<open>
  The contract of a record of fixed size in a byte stream: a writer and a reader of one record, and
  what a stream of records gives a reader that takes them one after the other.
\<close>

fun records :: "nat \<Rightarrow> (u8 list \<Rightarrow> 'b) \<Rightarrow> nat \<Rightarrow> u8 list \<Rightarrow> 'b list" where
  "records sz dec 0 bs = []"
| "records sz dec (Suc n) bs = dec (take sz bs) # records sz dec n (drop sz bs)"

locale codec =
  fixes enc :: "'a \<Rightarrow> u8 list" and dec :: "u8 list \<Rightarrow> 'b" and view :: "'a \<Rightarrow> 'b" and ok :: "'a \<Rightarrow> bool" and sz :: nat
  assumes enc_length: "ok x \<Longrightarrow> length (enc x) = sz" and dec_enc: "ok x \<Longrightarrow> dec (enc x) = view x" and sz_pos: "0 < sz"
begin

lemma stream_length: "list_all ok xs \<Longrightarrow> length (concat (map enc xs)) = sz * length xs"
  by (induction xs) (simp_all add: enc_length)

lemma record_count: "list_all ok xs \<Longrightarrow> length (concat (map enc xs)) div sz = length xs"
  using sz_pos by (simp add: stream_length)

lemma records_stream: "list_all ok xs \<Longrightarrow> records sz dec (length xs) (concat (map enc xs) @ rest) = map view xs"
  by (induction xs) (simp_all add: enc_length dec_enc)

text \<open>What was read determines what was written, up to what the reader sees of a record.\<close>

lemma stream_injective:
  assumes "list_all ok xs" "list_all ok ys" "concat (map enc xs) = concat (map enc ys)"
  shows "map view xs = map view ys"
proof -
  have "length xs = length ys" using record_count [OF assms(1)] record_count [OF assms(2)] assms(3) by simp
  then show ?thesis using records_stream [OF assms(1), of "[]"] records_stream [OF assms(2), of "[]"] assms(3) by simp
qed

text \<open>A stream cut in the middle of a record still gives the records before the cut.\<close>

lemma records_of_prefix:
  assumes "list_all ok xs" "k \<le> length xs" "sz * k \<le> n"
  shows "records sz dec k (take n (concat (map enc xs))) = map view (take k xs)"
proof -
  have ok: "list_all ok (take k xs)" using assms(1) by (simp add: list_all_iff) (meson in_set_takeD)
  have "concat (map enc xs) = concat (map enc (take k xs)) @ concat (map enc (drop k xs))"
    by (metis append_take_drop_id concat_append map_append)
  moreover have "length (concat (map enc (take k xs))) = sz * k" using stream_length [OF ok] assms(2) by simp
  moreover have k: "length (take k xs) = k" using assms(2) by simp
  ultimately have "take n (concat (map enc xs)) = concat (map enc (take k xs)) @ take (n - sz * k) (concat (map enc (drop k xs)))"
    using assms(3) by simp
  then show ?thesis using records_stream [OF ok, unfolded k] by simp
qed

end

end
