(* ===== verification/End_To_End.thy ===== *)
theory End_To_End
  imports Client_Props Typed_Values
begin

text \<open>
  A write from the client library to the point table: \<open>submit_one\<close> of \<^verbatim>\<open>client/src/client.c\<close>, the
  handler of \<^verbatim>\<open>rtdbd/src/rtdbd.c\<close> and the write of \<^verbatim>\<open>src/core/irt_point_manager.c\<close>, composed
  over a connection that may cut the bytes of both directions anywhere.
\<close>

section \<open>The write of the daemon\<close>

definition bad_write_type :: "u8 \<Rightarrow> bool" where
  "bad_write_type t \<longleftrightarrow> t = INDURTDB_TYPE_STRING \<or> INDURTDB_TYPE_FLOAT < t"

text \<open>The code of the library for a write to a point, as the contract states it.\<close>

definition write_code :: "u32 \<Rightarrow> shm \<Rightarrow> u32 \<Rightarrow> int" where
  "write_code N s pid =
     (if N \<le> pid then INDURTDB_ERR_ARG else if \<not> lockable 3 s then INDURTDB_ERR_BUSY
      else if access (points s ! unat pid) = INDURTDB_ACCESS_READ_ONLY then INDURTDB_ERR_READ_ONLY else 0)"

lemma write_quality_outcome:
  assumes "dir_inv N h" "indurtdb_h_write_quality_ts react h now pid t v ts q = (rc, cs, h')"
  shows "rc = write_code N (h_shm h) pid
    \<and> (rc \<noteq> 0 \<longrightarrow> points (h_shm h') = points (h_shm h))
    \<and> (rc = 0 \<longrightarrow> points (h_shm h') ! unat pid = written_point (points (h_shm h) ! unat pid) now t v ts q
         \<and> (\<forall>j. j \<noteq> pid \<longrightarrow> points (h_shm h') ! unat j = points (h_shm h) ! unat j))"
proof -
  let ?s = "h_shm h"
  note inv = dir_invD [OF assms(1)]
  have pl: "length (points ?s) = unat N" and op: "off_points ?s \<noteq> 0" using inv(2,3) by (auto simp: index_wf_def index_wf_ex_def shm_wf_def)
  have w: "(rc, cs, h') = h_write_and_notify react h (pm_write_impl_q ?s now pid t v ts q) pid"
    using assms(2) inv(1) by (simp add: indurtdb_h_write_quality_ts_def irt_pm_write_quality_ts_def ensure_h3_def)
  have val: "irt_pm_validate_id ?s pid \<longleftrightarrow> \<not> N \<le> pid" using inv(3) by (auto simp: irt_pm_validate_id_def)
  show ?thesis
  proof (cases rule: pm_write_cases [of ?s pid now t v ts q])
    case (ok e)
    obtain u where u: "pm_write_impl_q ?s now pid t v ts q = (0, u)"
        "points u = (points ?s)[unat pid := written_point (points ?s ! unat pid) now t v ts q]"
      using ok(5) by simp
    have h': "rc = fst (h_write_and_notify react h (0, u) pid)" "h' = snd (snd (h_write_and_notify react h (0, u) pid))"
      using w [symmetric] u(1) by simp_all
    then have r: "rc = 0" "h_shm h' = u" by (simp_all add: write_and_notify_shm h_translate_write_rc_def irt_codes)
    have "unat pid < length (points ?s)" using ok(1) val pl by (simp add: word_less_nat_alt not_le)
    then show ?thesis using u(2) r ok val by (simp add: write_code_def)
  qed (use w val op in \<open>simp_all add: write_code_def write_and_notify_error h_translate_write_rc_def irt_codes\<close>)
qed

lemma do_write_outcome:
  assumes "dir_inv N h" "do_write e h w = (rc, m, h')"
  shows "rc = (if bad_write_type (w_type w) then -99 else write_code N (h_shm h) (w_point_id w))
    \<and> (rc \<noteq> 0 \<longrightarrow> points (h_shm h') = points (h_shm h))
    \<and> (rc = 0 \<longrightarrow> (\<exists>q. points (h_shm h') ! unat (w_point_id w) = written_point (points (h_shm h) ! unat (w_point_id w))
           (en_write e) (w_type w) (le64 (w_value_bits w)) (w_source_ts_ns w) q)
         \<and> (\<forall>j. j \<noteq> w_point_id w \<longrightarrow> points (h_shm h') ! unat j = points (h_shm h) ! unat j))"
proof (cases "bad_write_type (w_type w)")
  case True
  then show ?thesis using assms(2) by (simp add: do_write_def bad_write_type_def)
next
  case False
  obtain g h1 where g: "indurtdb_h_get_meta (en_d e) h (w_point_id w) = (g, h1)" by (metis prod.collapse)
  have s: "h_shm h1 = h_shm h" using get_meta_shm [of "en_d e" h "w_point_id w"] g by simp
  have "initialized h1 = initialized h" using g by (auto simp: indurtdb_h_get_meta_def set_error_def split: if_splits prod.splits)
  then have d: "dir_inv N h1" using assms(1) s by (simp add: dir_inv_def)
  obtain q cs where "indurtdb_h_write_quality_ts no_reaction h1 (en_write e) (w_point_id w) (w_type w) (le64 (w_value_bits w))
      (w_source_ts_ns w) q = (rc, cs, h')"
    using assms(2) g False by (auto simp: do_write_def bad_write_type_def Let_def split: prod.splits if_splits)
  from write_quality_outcome [OF d this] show ?thesis using False s by auto
qed

section \<open>The request on its way\<close>

definition with_rx :: "int \<Rightarrow> rx_event list \<Rightarrow> srv \<Rightarrow> srv" where
  "with_rx fd evs s = s\<lparr>s_io := (s_io s)(fd := (s_io s fd)\<lparr>io_rx := evs\<rparr>)\<rparr>"

lemma with_rx_sel [simp]:
  "s_h (with_rx fd evs s) = s_h s" "s_policy (with_rx fd evs s) = s_policy s" "s_conf (with_rx fd evs s) = s_conf s"
  "s_conns (with_rx fd evs s) = s_conns s" "io_cred (s_io (with_rx fd evs s) fd) = io_cred (s_io s fd)"
  "io_tx (s_io (with_rx fd evs s) fd) = io_tx (s_io s fd)" "io_env (s_io (with_rx fd evs s) fd) = io_env (s_io s fd)"
  "io_rx (s_io (with_rx fd evs s) fd) = evs"
  by (simp_all add: with_rx_def)

text \<open>However the bytes of a queued write are cut, they reach the write handler of the daemon unchanged.\<close>

lemma write_request_read:
  assumes "rx_sound (io_rx (s_io s fd))" "rx_data (io_rx (s_io s fd)) = write_frame e @ later"
  shows "\<exists>rq evs1 evs2. handle_request env fd k s = op_write env fd k rq (with_rx fd evs1 s)
    \<and> payload fd rq 24 (with_rx fd evs1 s) = (Some (entry_bytes e), with_rx fd evs2 s) \<and> rx_data evs2 = later"
proof -
  let ?hdr = "req_bytes RTDBD_OP_WRITE 24"
  let ?rq = "\<lparr>rq_magic = RTDBD_MAGIC, rq_version = RTDBD_PROTO_VERSION, rq_opcode = 2, rq_len = 24\<rparr>"
  have l: "length ?hdr = 12" by (simp add: req_bytes_def)
  from recv_all_take [OF assms(1), of 12] assms(2) l obtain evs1 where
    r1: "recv_all 12 (io_rx (s_io s fd)) = (Some ?hdr, evs1)" "rx_data evs1 = entry_bytes e @ later" "rx_sound evs1"
    by (auto simp: write_frame_def)
  from recv_all_take [OF r1(3), of 24] r1(2) obtain evs2 where
    r2: "recv_all 24 evs1 = (Some (entry_bytes e), evs2)" "rx_data evs2 = later" by auto
  have "req_hdr_of ?hdr = ?rq" by (simp add: req_bytes_def RTDBD_OP_WRITE_def)
  then have "handle_request env fd k s = op_write env fd k ?rq (with_rx fd evs1 s)"
    using r1(1) by (simp add: handle_request_def recv_bytes_def kOps_def Let_def with_rx_def)
  moreover have "payload fd ?rq 24 (with_rx fd evs1 s) = (Some (entry_bytes e), with_rx fd evs2 s)"
    using r2(1) by (simp add: payload_def recv_bytes_def Let_def with_rx_def)
  ultimately show ?thesis using r2(2) by blast
qed

section \<open>The answer\<close>

text \<open>A socket that takes everything gets the whole header.\<close>

lemma answer_free:
  assumes "io_env (s_io s fd) = []" "answer fd st s = (rc, t)"
  shows "rc = 0" "s_h t = s_h s" "io_tx (s_io t fd) = io_tx (s_io s fd) @ hdr_bytes RTDBD_MAGIC RTDBD_PROTO_VERSION st 0"
  using assms by (auto simp: answer_def send_resp_def send_bytes_def Let_def)

definition write_status :: "srv \<Rightarrow> u32 \<Rightarrow> u32 \<Rightarrow> u32 \<Rightarrow> irtcli_entry \<Rightarrow> u16" where
  "write_status s N uid part e =
     (if \<not> irt_policy_allows (s_policy s) uid part (e_point_id e) \<or> \<not> rtdbd_conf_partition_allowed (s_conf s) part
      then RTDBD_ST_DENIED
      else if bad_write_type (e_type e) then RTDBD_ST_BAD_REQUEST
      else if write_code N (h_shm (s_h s)) (e_point_id e) \<noteq> 0 then RTDBD_ST_INTERNAL
      else RTDBD_ST_OK)"

text \<open>What a submitted entry does to the points of the daemon's segment.\<close>

definition entry_applied :: "u64 \<Rightarrow> irtcli_entry \<Rightarrow> point list \<Rightarrow> point list \<Rightarrow> bool" where
  "entry_applied now e ps ps' \<longleftrightarrow>
     (\<exists>q. ps' ! unat (e_point_id e) =
        written_point (ps ! unat (e_point_id e)) now (e_type e) (le64 (e_value_bits e)) (e_source_ts_ns e) q)
     \<and> (\<forall>j. j \<noteq> e_point_id e \<longrightarrow> ps' ! unat j = ps ! unat j)"

lemma broadcast_points: "notify_broadcast now ob h conns w m g = Some (h', r) \<Longrightarrow> points (h_shm h') = points (h_shm h)"
  using notify_broadcast_shm by fastforce

lemma write_performed:
  assumes inv: "dir_inv N (s_h s)" and sock: "io_env (s_io s fd) = []" "io_cred (s_io s fd) = Some (pid, uid)"
    and p: "payload fd rq 24 (with_rx fd evs1 s) = (Some (entry_bytes e), with_rx fd evs2 s)"
    and op: "op_write env fd k rq (with_rx fd evs1 s) = Some (rc, t)"
    and grant: "irt_policy_allows (s_policy s) uid (c_partition (s_conns s ! k)) (e_point_id e)
      \<and> rtdbd_conf_partition_allowed (s_conf s) (c_partition (s_conns s ! k))"
  defines "st \<equiv> write_status s N uid (c_partition (s_conns s ! k)) e"
  shows "rc = 0 \<and> io_tx (s_io t fd) = io_tx (s_io s fd) @ hdr_bytes RTDBD_MAGIC RTDBD_PROTO_VERSION st 0
    \<and> (if st = RTDBD_ST_OK then entry_applied (en_write env) e (points (h_shm (s_h s))) (points (h_shm (s_h t)))
       else points (h_shm (s_h t)) = points (h_shm (s_h s)))"
proof -
  let ?s = "with_rx fd evs2 s" and ?part = "c_partition (s_conns s ! k)"
  let ?w = "\<lparr>w_point_id = e_point_id e, w_type = e_type e, w_value_bits = e_value_bits e, w_source_ts_ns = e_source_ts_ns e\<rparr>"
  obtain wrc m h where w: "do_write env (s_h s) ?w = (wrc, m, h)" by (metis prod_cases3)
  note o = do_write_outcome [OF inv w, simplified]
  let ?s3 = "?s\<lparr>s_h := h\<rparr>"
  have env: "io_env (s_io ?s3 fd) = []" "io_tx (s_io ?s3 fd) = io_tx (s_io s fd)" using sock(1) by simp_all
  consider (bad) "wrc = -99" | (err) "wrc \<noteq> -99" "wrc \<noteq> 0" | (ok) "wrc = 0" by blast
  then show ?thesis
  proof cases
    case bad
    then have a: "answer fd RTDBD_ST_BAD_REQUEST ?s3 = (rc, t)"
      using op grant p sock(2) w by (simp add: op_write_def write_req_of_entry Let_def)
    have "st = RTDBD_ST_BAD_REQUEST" using bad o grant by (simp add: st_def write_status_def write_code_def irt_codes split: if_splits)
    then show ?thesis using answer_free [OF env(1) a] env(2) o bad by (simp add: RTDBD_ST_BAD_REQUEST_def RTDBD_ST_OK_def)
  next
    case err
    let ?s4 = "?s3\<lparr>s_stats := rtdbd_stats_note_error (en_now env) ((s_stats s)\<lparr>write_error := write_error (s_stats s) + 1\<rparr>)\<rparr>"
    have a: "answer fd RTDBD_ST_INTERNAL ?s4 = (rc, t)"
      using op grant p sock(2) w err by (simp add: op_write_def write_req_of_entry Let_def with_rx_def)
    have "st = RTDBD_ST_INTERNAL" using err o grant by (simp add: st_def write_status_def split: if_splits)
    moreover have "io_env (s_io ?s4 fd) = []" using env by simp
    ultimately show ?thesis using answer_free [OF _ a] env(2) o err by (simp add: RTDBD_ST_INTERNAL_def RTDBD_ST_OK_def)
  next
    case ok
    let ?s4 = "(audit_op (en_now env) (pid, uid) ?part (e_point_id e) ?s3)\<lparr>s_stats := (s_stats s)\<lparr>n_writes := n_writes (s_stats s) + 1\<rparr>\<rparr>"
    have "io_env (s_io ?s4 fd) = []" "io_tx (s_io ?s4 fd) = io_tx (s_io s fd)" "s_h ?s4 = h" using env by (simp_all add: audit_op_def)
    moreover obtain arc u where a: "answer fd RTDBD_ST_OK ?s4 = (arc, u)" by (metis prod.collapse)
    ultimately have u: "arc = 0" "s_h u = h" "io_tx (s_io u fd) = io_tx (s_io s fd) @ hdr_bytes RTDBD_MAGIC RTDBD_PROTO_VERSION RTDBD_ST_OK 0"
      using answer_free [of ?s4] by simp_all
    obtain h' conns g where n: "notify_broadcast (en_later env) (en_ob env (e_point_id e)) (s_h u) (s_conns u) ?w m (s_stats u) = Some (h', conns, g)"
        "rc = 0" "t = u\<lparr>s_h := h', s_conns := conns, s_stats := g\<rparr>"
      using op grant p sock(2) w ok a u(1)
      by (auto simp: op_write_def write_req_of_entry audit_op_def Let_def with_rx_def split: option.splits prod.splits)
    have "points (h_shm h') = points (h_shm h)" using broadcast_points [OF n(1)] u(2) by simp
    moreover have "st = RTDBD_ST_OK" using ok o grant by (simp add: st_def write_status_def split: if_splits)
    ultimately show ?thesis using u(3) n(2,3) o ok by (simp add: entry_applied_def)
  qed
qed

lemma write_request_outcome:
  assumes inv: "dir_inv N (s_h s)" and rx: "rx_sound (io_rx (s_io s fd))" "rx_data (io_rx (s_io s fd)) = write_frame e @ later"
    and sock: "io_env (s_io s fd) = []" "io_cred (s_io s fd) = Some (pid, uid)"
    and req: "handle_request env fd k s = Some (rc, t)"
  defines "st \<equiv> write_status s N uid (c_partition (s_conns s ! k)) e"
  shows "rc = 0 \<and> io_tx (s_io t fd) = io_tx (s_io s fd) @ hdr_bytes RTDBD_MAGIC RTDBD_PROTO_VERSION st 0
    \<and> (if st = RTDBD_ST_OK then entry_applied (en_write env) e (points (h_shm (s_h s))) (points (h_shm (s_h t)))
       else points (h_shm (s_h t)) = points (h_shm (s_h s)))"
proof -
  obtain rq evs1 evs2 where p: "handle_request env fd k s = op_write env fd k rq (with_rx fd evs1 s)"
      "payload fd rq 24 (with_rx fd evs1 s) = (Some (entry_bytes e), with_rx fd evs2 s)"
    using write_request_read [OF rx] by blast
  have op: "op_write env fd k rq (with_rx fd evs1 s) = Some (rc, t)" using p(1) req by simp
  let ?part = "c_partition (s_conns s ! k)"
  show ?thesis
  proof (cases "irt_policy_allows (s_policy s) uid ?part (e_point_id e) \<and> rtdbd_conf_partition_allowed (s_conf s) ?part")
    case False
    then have st: "st = RTDBD_ST_DENIED" by (auto simp: st_def write_status_def)
    have a: "answer fd RTDBD_ST_DENIED (reject_write (en_now env) (with_rx fd evs2 s)) = (rc, t)"
      using op False p(2) sock(2) by (auto simp: op_write_def write_req_of_entry Let_def split: if_splits)
    show ?thesis
      using answer_free [OF _ a] sock(1) st by (simp add: reject_write_def RTDBD_ST_DENIED_def RTDBD_ST_OK_def)
  next
    case True
    from write_performed [OF inv sock p(2) op True] show ?thesis by (simp add: st_def)
  qed
qed

section \<open>From end to end\<close>

text \<open>What the client makes of a response.\<close>

definition submit_code :: "u16 \<Rightarrow> int" where
  "submit_code st = (if st = RTDBD_ST_OK then IRTCLI_OK else if st = RTDBD_ST_DENIED then IRTCLI_ERR_DENIED else IRTCLI_ERR_PROTO)"

lemma submit_answered:
  assumes "io_env (cc_io c) = []" "rx_sound (io_rx (cc_io c))"
    "rx_data (io_rx (cc_io c)) = hdr_bytes RTDBD_MAGIC RTDBD_PROTO_VERSION st 0 @ rest"
  shows "\<exists>io. submit_one e c = (submit_code st, c\<lparr>cc_io := io\<rparr>) \<and> io_tx io = io_tx (cc_io c) @ write_frame e \<and> rx_data (io_rx io) = rest"
proof -
  let ?hdr = "hdr_bytes RTDBD_MAGIC RTDBD_PROTO_VERSION st 0"
  from recv_all_take [OF assms(2), of 12] assms(3) obtain evs where
    r: "recv_all 12 (io_rx (cc_io c)) = (Some ?hdr, evs)" "rx_data evs = rest"
    by auto
  let ?io = "(cc_io c)\<lparr>io_tx := io_tx (cc_io c) @ write_frame e, io_rx := evs\<rparr>"
  have "submit_one e c = (submit_code st, c\<lparr>cc_io := ?io\<rparr>)"
    using assms(1) r(1)
    by (simp add: submit_one_def cli_send_all_def cli_recv_all_def Let_def write_frame_def submit_code_def)
  then show ?thesis using r(2) by (intro exI [of _ ?io]) simp
qed

lemma submit_sends:
  "io_env (cc_io c) = [] \<Longrightarrow> io_tx (cc_io (snd (submit_one e c))) = io_tx (cc_io c) @ write_frame e"
  by (auto simp: submit_one_def cli_send_all_def cli_recv_all_def Let_def write_frame_def split: prod.split option.split)

text \<open>
  C2. A write from end to end. A client submits an entry on a connection to the daemon, and the bytes
  of both directions may be cut anywhere. Then the code that the client returns is decided by the
  policy and the white list, by the type, and by whether the point exists, can be locked and may be
  written; when it is success, the point in the segment holds the type, the value and the source time
  stamp of the entry with the time of the write, and every other point is as before; otherwise no
  point has changed. The connection is kept, and nothing of the streams is lost or left over.
\<close>

theorem client_write_end_to_end:
  assumes inv: "dir_inv N (s_h s)"
    and client: "io_env (cc_io c) = []" "rx_sound (io_rx (cc_io c))" "submit_one e c = (crc, c')"
    and daemon: "io_env (s_io s fd) = []" "rx_sound (io_rx (s_io s fd))" "io_cred (s_io s fd) = Some (pid, uid)"
      "handle_request env fd k s = Some (rc, t)"
    and request: "rx_data (io_rx (s_io s fd)) = drop (length (io_tx (cc_io c))) (io_tx (cc_io c')) @ later"
    and reply: "rx_data (io_rx (cc_io c)) = drop (length (io_tx (s_io s fd))) (io_tx (s_io t fd)) @ rest"
  shows "crc = submit_code (write_status s N uid (c_partition (s_conns s ! k)) e)
    \<and> (if crc = IRTCLI_OK then entry_applied (en_write env) e (points (h_shm (s_h s))) (points (h_shm (s_h t)))
       else points (h_shm (s_h t)) = points (h_shm (s_h s)))
    \<and> rc = 0 \<and> rx_data (io_rx (cc_io c')) = rest"
proof -
  let ?st = "write_status s N uid (c_partition (s_conns s ! k)) e"
  have "io_tx (cc_io c') = io_tx (cc_io c) @ write_frame e" using submit_sends [OF client(1), of e] client(3) by simp
  then have "rx_data (io_rx (s_io s fd)) = write_frame e @ later" using request by simp
  note d = write_request_outcome [OF inv daemon(2) this daemon(1,3,4)]
  then have "rx_data (io_rx (cc_io c)) = hdr_bytes RTDBD_MAGIC RTDBD_PROTO_VERSION ?st 0 @ rest" using reply by simp
  from submit_answered [OF client(1,2) this, of e] client(3) have
    "crc = submit_code ?st" "rx_data (io_rx (cc_io c')) = rest" by auto
  moreover have "submit_code ?st = IRTCLI_OK \<longleftrightarrow> ?st = RTDBD_ST_OK" by (simp add: submit_code_def irtcli_codes)
  ultimately show ?thesis using d by simp
qed

text \<open>
  A daemon in whose segment point 2 of partition 9 is registered, and a client of uid 1000 that has
  selected the partition and writes 7 to the point; the request arrives in two pieces.
\<close>

definition demo_daemon :: srv where
  "demo_daemon = (demo_srv [Data (take 5 (write_frame (demo_entry 2 7))), Data (drop 5 (write_frame (demo_entry 2 7)))])
     \<lparr>s_h := demo_handle1, s_conns := [demo_conn\<lparr>c_partition := 9\<rparr>]\<rparr>"

definition demo_peer_client :: irtcli where
  "demo_peer_client = demo_client\<lparr>cc_io := \<lparr>io_rx = [Data (hdr_bytes RTDBD_MAGIC RTDBD_PROTO_VERSION RTDBD_ST_OK 0)], io_tx = [],
     io_env = [], io_cred = None\<rparr>\<rparr>"

lemma read_point_ends: "indurtdb_h_read_point h [(0, p, 0)] pid out \<noteq> None"
  by (simp add: indurtdb_h_read_point_def irt_pm_read_def)

lemma demo_daemon_answers: "handle_request demo_env 5 0 demo_daemon \<noteq> None"
proof -
  have ne: "notify_broadcast now [(0, p, 0)] h conns w m g = None \<longleftrightarrow> False" for now p h conns w m g
    using read_point_ends [of h p "w_point_id w" zero_point] by (auto simp: notify_broadcast_def Let_def split: option.splits prod.splits)
  have "op_write demo_env 5 0 rq s \<noteq> None" for rq s
    by (auto simp: op_write_def demo_env_def ne Let_def split: option.splits prod.splits)
  moreover have "rx_sound (io_rx (s_io demo_daemon 5))" "rx_data (io_rx (s_io demo_daemon 5)) = write_frame (demo_entry 2 7) @ []"
    by (simp_all add: demo_daemon_def demo_srv_def rx_sound_def write_frame_def req_bytes_def hdr_bytes_def le32_def)
  ultimately show ?thesis using write_request_read by metis
qed

theorem client_write_end_to_end_witness:
  "\<exists>c' t. submit_one (demo_entry 2 7) demo_peer_client = (IRTCLI_OK, c')
     \<and> handle_request demo_env 5 0 demo_daemon = Some (0, t)
     \<and> entry_applied 8 (demo_entry 2 7) (points (h_shm demo_handle1)) (points (h_shm (s_h t)))"
proof -
  let ?e = "demo_entry 2 7" and ?s = demo_daemon
  obtain crc c' where c: "submit_one ?e demo_peer_client = (crc, c')" by (metis prod.collapse)
  obtain rc t where t: "handle_request demo_env 5 0 ?s = Some (rc, t)" using demo_daemon_answers by auto
  have inv: "dir_inv 4 (s_h ?s)" by (simp add: demo_daemon_def demo_handle1(1))
  have rx: "rx_sound (io_rx (s_io ?s 5))" "rx_data (io_rx (s_io ?s 5)) = write_frame ?e @ []"
    by (simp_all add: demo_daemon_def demo_srv_def rx_sound_def write_frame_def req_bytes_def hdr_bytes_def le32_def)
  have io: "io_env (s_io ?s 5) = []" "io_cred (s_io ?s 5) = Some (77, 1000)" "io_tx (s_io ?s 5) = []" "s_h ?s = demo_handle1"
    by (simp_all add: demo_daemon_def demo_srv_def)
  have cl: "io_env (cc_io demo_peer_client) = []" "rx_sound (io_rx (cc_io demo_peer_client))" "io_tx (cc_io demo_peer_client) = []"
    "rx_data (io_rx (cc_io demo_peer_client)) = hdr_bytes RTDBD_MAGIC RTDBD_PROTO_VERSION RTDBD_ST_OK 0"
    by (simp_all add: demo_peer_client_def rx_sound_def hdr_bytes_def le32_def)
  have st: "write_status ?s 4 1000 (c_partition (s_conns ?s ! 0)) ?e = RTDBD_ST_OK"
  proof -
    have "access (points (h_shm demo_handle1) ! 2) \<noteq> INDURTDB_ACCESS_READ_ONLY" "lockable 3 (h_shm demo_handle1)"
      using demo_handle1_access demo_handle1(2) dir_invD(5) [OF demo_handle1(1)]
      by (auto simp: INDURTDB_ACCESS_READ_ONLY_def quiet_handle_def lockable_def)
    then show ?thesis
      by (simp add: write_status_def demo_daemon_def demo_srv_def demo_entry_def bad_write_type_def point_type_defs write_code_def
          rtdbd_conf_init_def rtdbd_conf_partition_allowed_def)
  qed
  have "io_tx (s_io t 5) = hdr_bytes RTDBD_MAGIC RTDBD_PROTO_VERSION RTDBD_ST_OK 0"
    using write_request_outcome [OF inv rx io(1,2) t] st io(3) by simp
  moreover have "io_tx (cc_io c') = write_frame ?e" using submit_sends [OF cl(1), of ?e] c cl(3) by simp
  moreover have en: "en_write demo_env = 8" by (simp add: demo_env_def)
  ultimately show ?thesis
    using client_write_end_to_end [OF inv cl(1,2) c io(1) rx(1) io(2) t, of "[]" "[]"] rx(2) cl st c t io(3,4) en
    by (auto simp: submit_code_def irtcli_codes)
qed

end
