(* ===== verification/Wire_Codecs.thy ===== *)
theory Wire_Codecs
  imports Codec End_To_End
begin

text \<open>
  The records of the wire protocol and of the change log as codecs, and the list request from end to
  end: the scan of the daemon (\<^verbatim>\<open>rtdbd/src/rtdbd.c\<close>, \<open>do_list\<close>, \<open>op_list\<close>), the stream of records and
  the reader of the client (\<^verbatim>\<open>client/src/client.c\<close>, \<open>irtcli_list_in\<close>).
\<close>

section \<open>The codecs\<close>

definition plain_name :: "u32 \<times> point \<Rightarrow> bool" where
  "plain_name p \<longleftrightarrow> length (pt_name (snd p)) \<le> 63 \<and> no_nul (pt_name (snd p))"

interpretation pinfo: codec "\<lambda>(pid, pt). point_info_bytes pid pt" point_info_of info_of plain_name 76
  by unfold_locales (auto simp: plain_name_def point_info_of_bytes)

lemma point_infos_records: "point_infos n bs = records 76 point_info_of n bs"
  by (induction n arbitrary: bs) simp_all

definition write_of_entry :: "irtcli_entry \<Rightarrow> write_req" where
  "write_of_entry e = \<lparr>w_point_id = e_point_id e, w_type = e_type e, w_value_bits = e_value_bits e,
     w_source_ts_ns = e_source_ts_ns e\<rparr>"

interpretation wreq: codec entry_bytes write_req_of write_of_entry "\<lambda>_. True" 24
  by unfold_locales (simp_all add: write_req_of_entry write_of_entry_def)

interpretation wmeta: codec meta_bytes meta_of "\<lambda>m. m" "\<lambda>_. True" 32
  by unfold_locales (simp_all add: meta_bytes_def meta_of_def)

definition hdr_of :: "u32 \<times> u16 \<times> u16 \<times> u32 \<Rightarrow> req_hdr" where
  "hdr_of r = (case r of (mg, v, op, len) \<Rightarrow> \<lparr>rq_magic = mg, rq_version = v, rq_opcode = op, rq_len = len\<rparr>)"

interpretation whdr: codec "\<lambda>(mg, v, op, len). hdr_bytes mg v op len" req_hdr_of hdr_of "\<lambda>_. True" 12
  by unfold_locales (auto simp: hdr_of_def)

interpretation drec: codec delta_bytes delta_of_bytes "\<lambda>r. r" "\<lambda>r. length (d_name r) \<le> 63 \<and> no_nul (d_name r)" 80
  by unfold_locales (auto intro: delta_bytes_inverse)

section \<open>The page of a list request\<close>

definition listed :: "u32 \<Rightarrow> shm \<Rightarrow> u32 \<Rightarrow> bool" where
  "listed filt s pid \<longleftrightarrow> pt_name (points s ! unat pid) \<noteq> []
     \<and> (filt = RTDBD_PARTITION_ALL \<or> partition (points s ! unat pid) = filt)"

definition page_size :: "u32 \<Rightarrow> nat" where
  "page_size mx = (if mx = 0 \<or> RTDBD_LIST_CHUNK < mx then unat RTDBD_LIST_CHUNK else unat mx)"

text \<open>The registered points of a partition from an id on, at most one page of them.\<close>

definition page :: "shm \<Rightarrow> u32 \<Rightarrow> u32 \<Rightarrow> u32 \<Rightarrow> u32 \<Rightarrow> u32 list" where
  "page s N filt mx offset = take (page_size mx) (filter (listed filt s) (map word_of_nat [unat offset..<unat N]))"

definition page_points :: "shm \<Rightarrow> u32 list \<Rightarrow> (u32 \<times> point) list" where
  "page_points s pids = map (\<lambda>pid. (pid, points s ! unat pid)) pids"

lemma list_loop_quiet:
  assumes "dir_inv N h" "\<And>pid. en_ob e pid = quiet (h_shm h) pid" "\<forall>pid \<in> set pids. pid < N"
  shows "list_loop e filt cap pids h out =
    Some (out @ map (\<lambda>(pid, pt). point_info_bytes pid pt)
      (page_points (h_shm h) (take (cap - length out) (filter (listed filt (h_shm h)) pids))), h)"
  using assms(3)
proof (induction pids arbitrary: out)
  case Nil
  then show ?case by (simp add: page_points_def)
next
  case (Cons pid pids)
  note inv = dir_invD [OF assms(1)]
  have "shm_wf (h_shm h)" using inv(7) by (simp only: index_wf_ex_def)
  then have op: "off_points (h_shm h) \<noteq> 0" by (simp add: shm_wf_def)
  have val: "irt_pm_validate_id (h_shm h) pid" using Cons.prems inv(3) by (simp add: irt_pm_validate_id_def)
  have r: "indurtdb_h_read_point h (en_ob e pid) pid zero_point = Some ((0, points (h_shm h) ! unat pid), h)"
    using inv(1) pm_read_quiet [OF val op inv(5)] assms(2) by (simp add: indurtdb_h_read_point_def)
  show ?case
  proof (cases "cap \<le> length out")
    case True
    then show ?thesis by (simp add: page_points_def)
  next
    case False
    then have "cap - length out = Suc (cap - Suc (length out))" by simp
    then show ?thesis using False r Cons.IH Cons.prems by (auto simp: listed_def page_points_def)
  qed
qed

lemma do_list_quiet:
  assumes "dir_inv N h" "\<And>pid. en_ob e pid = quiet (h_shm h) pid"
  shows "do_list e N h filt mx offset =
    Some (concat (map (\<lambda>(pid, pt). point_info_bytes pid pt) (page_points (h_shm h) (page (h_shm h) N filt mx offset))), h)"
proof (cases "N \<le> offset")
  case True
  then show ?thesis by (simp add: do_list_def page_def page_points_def word_le_nat_alt)
next
  case False
  have "\<forall>pid \<in> set (map word_of_nat [unat offset..<unat N]). pid < N"
  proof
    fix pid :: u32
    assume "pid \<in> set (map word_of_nat [unat offset..<unat N])"
    then obtain n where n: "pid = word_of_nat n" "n < unat N" by auto
    have "unat N < 2 ^ 32" using unsigned_less [of N, where ?'a = nat] by simp
    then show "pid < N" using n by (simp add: word_less_nat_alt unat_of_nat)
  qed
  note l = list_loop_quiet [where cap = "page_size mx" and out = "[]", OF assms this]
  consider "mx = 0" "page_size mx = unat RTDBD_LIST_CHUNK" | "mx \<noteq> 0" "RTDBD_LIST_CHUNK < mx" "page_size mx = unat RTDBD_LIST_CHUNK"
    | "mx \<noteq> 0" "\<not> RTDBD_LIST_CHUNK < mx" "page_size mx = unat mx" by (auto simp: page_size_def)
  then show ?thesis
  proof cases
    case 1
    then show ?thesis using False l [of filt] by (simp add: do_list_def page_def)
  next
    case 2
    then show ?thesis using False l [of filt] by (simp add: do_list_def page_def)
  next
    case 3
    then show ?thesis using False l [of filt] by (simp add: do_list_def page_def)
  qed
qed

lemma sorted_tail:
  fixes xs :: "nat list"
  assumes "sorted_wrt (<) xs" "take k xs \<noteq> []"
  shows "drop k xs = filter (\<lambda>x. last (take k xs) < x) xs"
proof -
  let ?l = "last (take k xs)"
  have xs: "xs = (butlast (take k xs) @ [?l]) @ drop k xs" using assms(2) by simp
  then have "sorted_wrt (<) ((butlast (take k xs) @ [?l]) @ drop k xs)" using assms(1) by simp
  then have o: "x < ?l" if "x \<in> set (butlast (take k xs))" for x
    using that unfolding sorted_wrt_append by simp
  have a: "?l < x" if "x \<in> set (drop k xs)" for x
    using that \<open>sorted_wrt (<) ((butlast (take k xs) @ [?l]) @ drop k xs)\<close> unfolding sorted_wrt_append by simp
  have "filter (\<lambda>x. ?l < x) ((butlast (take k xs) @ [?l]) @ drop k xs) = drop k xs"
  proof -
    have "filter (\<lambda>x. ?l < x) (butlast (take k xs)) = []" unfolding filter_empty_conv using o less_asym by blast
    moreover have "filter (\<lambda>x. ?l < x) (drop k xs) = drop k xs" using a by (simp add: filter_id_conv)
    ultimately show ?thesis by simp
  qed
  then show ?thesis unfolding xs [symmetric] by simp
qed

text \<open>Asking on behind the last listed id gives what is missing: no point is lost between pages.\<close>

lemma page_continues:
  assumes "page s N filt mx offset = ps" "ps \<noteq> []"
  shows "filter (listed filt s) (map word_of_nat [unat offset..<unat N]) =
    ps @ filter (listed filt s) (map word_of_nat [Suc (unat (last ps))..<unat N])"
proof -
  let ?P = "listed filt s \<circ> word_of_nat"
  let ?f = "filter ?P [unat offset..<unat N]" and ?k = "page_size mx"
  have ps: "ps = map word_of_nat (take ?k ?f)" using assms(1) by (simp add: page_def filter_map take_map)
  then have ne: "take ?k ?f \<noteq> []" using assms(2) by auto
  let ?l = "last (take ?k ?f)"
  have "?l \<in> set (take ?k ?f)" using ne by simp
  then have "?l \<in> set ?f" by (rule in_set_takeD)
  then have lin: "unat offset \<le> ?l" "?l < unat N" by auto
  have "unat N < 2 ^ 32" using unsigned_less [of N, where ?'a = nat] by simp
  then have l: "unat (last ps) = ?l" using lin ne by (simp add: ps last_map unat_of_nat)
  have "drop ?k ?f = filter (\<lambda>x. ?l < x) ?f" by (rule sorted_tail [OF _ ne]) (simp add: sorted_wrt_filter)
  also have "\<dots> = filter ?P (filter (\<lambda>x. ?l < x) [unat offset..<unat N])" by (simp add: conj_commute)
  also have "filter (\<lambda>x. ?l < x) [unat offset..<unat N] = [Suc ?l..<unat N]"
    using lin by (intro sorted_distinct_set_unique) (auto simp: sorted_wrt_filter)
  finally have d: "drop ?k ?f = filter ?P [Suc ?l..<unat N]" .
  have "filter (listed filt s) (map word_of_nat [unat offset..<unat N]) = map word_of_nat (take ?k ?f @ drop ?k ?f)"
    by (simp add: filter_map)
  also have "\<dots> = ps @ filter (listed filt s) (map word_of_nat [Suc ?l..<unat N])"
    unfolding d ps by (simp add: filter_map)
  finally show ?thesis unfolding l .
qed

section \<open>The list request from end to end\<close>

text \<open>However the bytes of a request are cut, its handler gets header and payload.\<close>

lemma request_read:
  assumes "rx_sound (io_rx (s_io s fd))" "rx_data (io_rx (s_io s fd)) = req_bytes opc n @ body @ later"
    "length body = n" "map_of kOps opc = Some fn"
  shows "\<exists>rq evs1 evs2. handle_request env fd k s = fn env fd k rq (with_rx fd evs1 s)
    \<and> payload fd rq n (with_rx fd evs1 s) = (Some body, with_rx fd evs2 s) \<and> rx_data evs2 = later"
proof -
  let ?hdr = "req_bytes opc n"
  let ?rq = "\<lparr>rq_magic = RTDBD_MAGIC, rq_version = RTDBD_PROTO_VERSION, rq_opcode = opc, rq_len = word_of_nat n\<rparr>"
  have l: "length ?hdr = 12" by (simp add: req_bytes_def)
  from recv_all_take [OF assms(1), of 12] assms(2) l obtain evs1 where
    r1: "recv_all 12 (io_rx (s_io s fd)) = (Some ?hdr, evs1)" "rx_data evs1 = body @ later" "rx_sound evs1"
    by auto
  from recv_all_take [OF r1(3), of n] r1(2) assms(3) obtain evs2 where
    r2: "recv_all n evs1 = (Some body, evs2)" "rx_data evs2 = later" by auto
  have h: "req_hdr_of ?hdr = ?rq" by (simp add: req_bytes_def)
  have "handle_request env fd k s = fn env fd k ?rq (with_rx fd evs1 s)"
    using r1(1) h assms(4) by (simp add: handle_request_def recv_bytes_def Let_def with_rx_def)
  moreover have "payload fd ?rq n (with_rx fd evs1 s) = (Some body, with_rx fd evs2 s)"
    using r2(1) by (simp add: payload_def recv_bytes_def Let_def with_rx_def)
  ultimately show ?thesis using r2(2) by blast
qed

text \<open>The points that the daemon lists: none when the partition is not on the white list.\<close>

definition answered :: "srv \<Rightarrow> u32 \<Rightarrow> u32 \<Rightarrow> u32 \<Rightarrow> (u32 \<times> point) list" where
  "answered s part mx offset =
     (if part = RTDBD_PARTITION_ALL \<or> rtdbd_conf_partition_allowed (s_conf s) part
      then page_points (h_shm (s_h s)) (page (h_shm (s_h s)) (g_max_points s) part mx offset) else [])"

definition list_reply :: "(u32 \<times> point) list \<Rightarrow> u8 list" where
  "list_reply ps = hdr_bytes RTDBD_MAGIC RTDBD_PROTO_VERSION RTDBD_ST_OK (word_of_nat (76 * length ps))
     @ concat (map (\<lambda>(pid, pt). point_info_bytes pid pt) ps)"

lemma info_stream_length: "length (concat (map (\<lambda>(pid, pt). point_info_bytes pid pt) ps)) = 76 * length ps"
  by (induction ps) auto

lemma list_handled:
  assumes inv: "dir_inv (g_max_points s) (s_h s)" "\<And>pid. en_ob env pid = quiet (h_shm (s_h s)) pid"
    and rx: "rx_sound (io_rx (s_io s fd))" "rx_data (io_rx (s_io s fd)) = req_bytes 11 12 @ list_bytes mx offset part @ later"
    and sock: "io_env (s_io s fd) = []" and req: "handle_request env fd k s = Some (rc, t)"
  shows "rc = 0 \<and> s_h t = s_h s \<and> io_tx (s_io t fd) = io_tx (s_io s fd) @ list_reply (answered s part mx offset)"
proof -
  have "length (list_bytes mx offset part) = 12" by (simp add: list_bytes_def)
  moreover have "map_of kOps 11 = Some (\<lambda>e fd k. op_list e fd)" by (simp add: kOps_def)
  ultimately obtain rq evs1 evs2 where p: "handle_request env fd k s = op_list env fd rq (with_rx fd evs1 s)"
      "payload fd rq 12 (with_rx fd evs1 s) = (Some (list_bytes mx offset part), with_rx fd evs2 s)"
    using request_read [OF rx] by blast
  have b: "of_le (take 4 (list_bytes mx offset part)) = mx" "of_le (take 4 (drop 4 (list_bytes mx offset part))) = offset"
    "of_le (drop 8 (list_bytes mx offset part)) = part"
    by (simp_all add: list_bytes_def)
  show ?thesis
  proof (cases "part = RTDBD_PARTITION_ALL \<or> rtdbd_conf_partition_allowed (s_conf s) part")
    case True
    let ?bs = "concat (map (\<lambda>(pid, pt). point_info_bytes pid pt) (answered s part mx offset))"
    have s: "s_h (with_rx fd evs2 s) = s_h s" "g_max_points (with_rx fd evs2 s) = g_max_points s"
      "s_conf (with_rx fd evs2 s) = s_conf s" "with_rx fd evs2 s\<lparr>s_h := s_h s\<rparr> = with_rx fd evs2 s"
      by (simp_all add: with_rx_def)
    have "op_list env fd rq (with_rx fd evs1 s) = Some (answer_list fd ?bs (with_rx fd evs2 s))"
      using True do_list_quiet [OF inv, of part mx offset] by (auto simp: op_list_def p(2) b s answered_def)
    then have a: "answer_list fd ?bs (with_rx fd evs2 s) = (rc, t)" using p(1) req by simp
    have l: "length ?bs = 76 * length (answered s part mx offset)" by (rule info_stream_length)
    from a show ?thesis
      using sock by (auto simp: answer_list_def send_resp_def send_bytes_def list_reply_def l Let_def simp del: of_nat_mult split: if_splits)
  next
    case False
    then have a: "answer fd RTDBD_ST_OK (with_rx fd evs2 s) = (rc, t)"
      using p req b by (simp add: op_list_def)
    have "io_env (s_io (with_rx fd evs2 s) fd) = []" using sock by simp
    from answer_free [OF this a] False show ?thesis by (simp add: list_reply_def answered_def)
  qed
qed

text \<open>The client with the reply of the daemon in front of it.\<close>

lemma list_received:
  assumes conn: "cc_connected c" "io_env (cc_io c) = []" "rx_sound (io_rx (cc_io c))"
    and reply: "rx_data (io_rx (cc_io c)) = list_reply ps @ rest" "list_all plain_name ps" "length ps \<le> 1024"
    and call: "irtcli_list_in part offset mx cap c = ((crc, infos), c')"
  shows "if length ps \<le> unat cap then crc = IRTCLI_OK \<and> infos = map info_of ps \<and> rx_data (io_rx (cc_io c')) = rest
    else crc = IRTCLI_ERR_ARG \<and> infos = []"
proof -
  let ?bs = "concat (map (\<lambda>(pid, pt). point_info_bytes pid pt) ps)"
  define len where "len = (word_of_nat (76 * length ps) :: u32)"
  have un: "unat (len div 76) = length ps"
    using reply(3) by (simp add: len_def unat_div unat_of_nat del: of_nat_mult)
  from recv_all_take [OF conn(3), of 12] reply(1) obtain evs where
    r: "recv_all 12 (io_rx (cc_io c)) = (Some (hdr_bytes RTDBD_MAGIC RTDBD_PROTO_VERSION RTDBD_ST_OK len), evs)"
      "rx_data evs = ?bs @ rest" "rx_sound evs"
    by (auto simp: list_reply_def len_def)
  from recv_all_take [OF r(3), of "length ps * 76"] r(2) info_stream_length [of ps] obtain evs2 where
    r2: "recv_all (length ps * 76) evs = (Some ?bs, evs2)" "rx_data evs2 = rest" by (auto simp: mult.commute)
  have infos: "point_infos (length ps) ?bs = map info_of ps"
    using pinfo.records_stream [OF reply(2), of "[]"] by (simp add: point_infos_records)
  have z: "len div 76 = 0 \<longleftrightarrow> ps = []" using un by (metis length_0_conv unat_eq_zero)
  have k: "cap < len div 76 \<longleftrightarrow> unat cap < length ps" by (simp only: word_less_nat_alt un)
  show ?thesis
    using call conn(1,2) r(1) r2 infos r(2)
    by (auto simp: irtcli_list_in_def ensure_connected_def cli_send_all_def cli_recv_all_def Let_def un z k split: if_splits)
qed

lemma list_request_sent:
  assumes "cc_connected c" "io_env (cc_io c) = []"
  shows "io_tx (cc_io (snd (irtcli_list_in part offset mx cap c))) = io_tx (cc_io c) @ req_bytes 11 12 @ list_bytes mx offset part"
  using assms
  by (auto simp: irtcli_list_in_def ensure_connected_def cli_send_all_def cli_recv_all_def lose_def Let_def
      split: prod.split option.split if_split)

lemma page_length: "length (answered s part mx offset) \<le> 1024"
proof -
  have "page_size mx \<le> 1024"
    by (auto simp: page_size_def RTDBD_LIST_CHUNK_def word_less_nat_alt not_less)
  then show ?thesis by (auto simp: answered_def page_points_def page_def min_le_iff_disj)
qed

lemma page_names:
  assumes "index_wf (h_shm (s_h s))" "g_max_points s = max_points (h_shm (s_h s))"
    "list_all (\<lambda>p. no_nul (pt_name p)) (points (h_shm (s_h s)))"
  shows "list_all plain_name (answered s part mx offset)"
proof -
  let ?s = "h_shm (s_h s)" and ?N = "g_max_points s"
  have wf: "shm_wf ?s" "\<forall>i < length (points ?s). length (pt_name (points ?s ! i)) \<le> 63"
    using assms(1) by (simp_all add: index_wf_def index_wf_ex_def)
  have "plain_name (pid, points ?s ! unat pid)" if "pid \<in> set (map word_of_nat [unat offset..<unat ?N])" for pid
  proof -
    from that obtain n where n: "pid = word_of_nat n" "n < unat ?N" by auto
    have "unat ?N < 2 ^ 32" using unsigned_less [of ?N, where ?'a = nat] by simp
    then have "unat pid < length (points ?s)" using n wf(1) assms(2) by (simp add: shm_wf_def unat_of_nat)
    then show ?thesis using wf(2) assms(3) by (simp add: plain_name_def list_all_length)
  qed
  then show ?thesis
    by (auto simp: answered_def page_points_def page_def list_all_iff dest!: in_set_takeD)
qed

text \<open>
  C3. Listing from end to end. A client asks for the points of a partition from an id on, and the
  bytes of both directions may be cut anywhere. Then it gets exactly the registered points of the
  partition (of all partitions for the reserved number) with their ids, types, access modes, names and
  partitions, in the order of their ids from the given one on and at most the requested number of them
  (1024 when that is 0 or more); a partition outside the white list gives the empty list. When they do
  not fit its buffer it refuses them all. The daemon changes nothing and keeps the connection.
\<close>

theorem list_end_to_end:
  assumes inv: "dir_inv (g_max_points s) (s_h s)" "\<forall>pid. en_ob env pid = quiet (h_shm (s_h s)) pid"
      "list_all (\<lambda>p. no_nul (pt_name p)) (points (h_shm (s_h s)))"
    and client: "cc_connected c" "io_env (cc_io c) = []" "rx_sound (io_rx (cc_io c))"
      "irtcli_list_in part offset mx cap c = ((crc, infos), c')"
    and daemon: "io_env (s_io s fd) = []" "rx_sound (io_rx (s_io s fd))" "handle_request env fd k s = Some (rc, t)"
    and request: "rx_data (io_rx (s_io s fd)) = drop (length (io_tx (cc_io c))) (io_tx (cc_io c')) @ later"
    and reply: "rx_data (io_rx (cc_io c)) = drop (length (io_tx (s_io s fd))) (io_tx (s_io t fd)) @ rest"
  shows "(if length (answered s part mx offset) \<le> unat cap
      then crc = IRTCLI_OK \<and> infos = map info_of (answered s part mx offset) \<and> rx_data (io_rx (cc_io c')) = rest
      else crc = IRTCLI_ERR_ARG \<and> infos = [])
    \<and> rc = 0 \<and> s_h t = s_h s"
proof -
  have "io_tx (cc_io c') = io_tx (cc_io c) @ req_bytes 11 12 @ list_bytes mx offset part"
    using list_request_sent [OF client(1,2), of part offset mx cap] client(4) by simp
  then have "rx_data (io_rx (s_io s fd)) = req_bytes 11 12 @ list_bytes mx offset part @ later" using request by simp
  note d = list_handled [OF inv(1) _ daemon(2) this daemon(1,3)]
  then have "rx_data (io_rx (cc_io c)) = list_reply (answered s part mx offset) @ rest" using reply inv(2) by simp
  moreover have "list_all plain_name (answered s part mx offset)"
    by (rule page_names) (use dir_invD [OF inv(1)] inv(3) in simp_all)
  ultimately show ?thesis
    using list_received [OF client(1,2,3) _ _ page_length client(4)] d inv(2) by simp
qed

text \<open>The daemon of the example lists its only point, in partition 9, to a client in two pieces.\<close>

definition demo_list_env :: req_env where
  "demo_list_env = demo_env\<lparr>en_ob := quiet (h_shm demo_handle1)\<rparr>"

definition demo_list_daemon :: srv where
  "demo_list_daemon = (demo_srv [Data (req_bytes 11 12 @ le32 0), Data (le32 0 @ le32 9)])\<lparr>s_h := demo_handle1, g_max_points := 4\<rparr>"

definition demo_lister :: irtcli where
  "demo_lister = demo_client\<lparr>cc_connected := True,
     cc_io := \<lparr>io_rx = [Data (list_reply (answered demo_list_daemon 9 0 0))], io_tx = [], io_env = [], io_cred = None\<rparr>\<rparr>"

lemma demo_reg:
  fixes pid :: u32
  assumes "pt_name (points (h_shm demo_handle1) ! unat pid) \<noteq> []" "unat pid < 4"
  shows "pid = 2" "pt_name (points (h_shm demo_handle1) ! unat pid) = ''pump''"
proof -
  let ?p = "points (h_shm demo_handle1) ! unat pid"
  note inv = dir_invD [OF demo_handle1(1)]
  have "name_map (h_shm demo_handle1) (partition ?p, pt_name ?p) = Some pid"
    using index_wf_name_map_iff [OF inv(2), of "(partition ?p, pt_name ?p)" pid] assms inv(6)
    by (simp add: reg_ids_def pkey_def reg_def)
  moreover have "name_map (h_shm demo_handle1) = [(9, ''pump'') \<mapsto> 2]" using demo_handle1(3) by (simp add: dir_map_def)
  ultimately show "pid = 2" "pt_name ?p = ''pump''" by (simp_all split: if_splits)
qed

lemma demo_listed: "answered demo_list_daemon 9 0 0 = [(2, points (h_shm demo_handle1) ! 2)]"
proof -
  have l: "listed 9 (h_shm demo_handle1) (word_of_nat n) \<longleftrightarrow> n = 2" if "n < 4" for n
    using demo_reg(1) [of "word_of_nat n"] demo_point that
    by (auto simp: listed_def reg_def unat_of_nat word_unat_eq_iff RTDBD_PARTITION_ALL_def)
  have u: "[0..<4] = [0, 1, 2, 3 :: nat]" by (simp add: upt_rec)
  have "filter (listed 9 (h_shm demo_handle1)) (map word_of_nat [0..<4]) = [2]"
    using l [of 0] l [of 1] l [of 2] l [of 3] by (simp add: u)
  then show ?thesis
    by (simp add: answered_def demo_list_daemon_def demo_srv_def page_def page_points_def page_size_def RTDBD_LIST_CHUNK_def
        rtdbd_conf_partition_allowed_def rtdbd_conf_init_def)
qed

lemma demo_names: "list_all (\<lambda>p. no_nul (pt_name p)) (points (h_shm demo_handle1))"
  unfolding list_all_length
proof (intro allI impI)
  fix i
  assume "i < length (points (h_shm demo_handle1))"
  then have "i < 4" using dir_invD(6) [OF demo_handle1(1)] by simp
  then show "no_nul (pt_name (points (h_shm demo_handle1) ! i))"
    using demo_reg(2) [of "word_of_nat i :: u32"] by (cases "pt_name (points (h_shm demo_handle1) ! i) = []") (simp_all add: no_nul_def unat_of_nat)
qed

theorem list_end_to_end_witness:
  "\<exists>c' t. irtcli_list_in 9 0 0 8 demo_lister = ((IRTCLI_OK, [info_of (2, points (h_shm demo_handle1) ! 2)]), c')
     \<and> handle_request demo_list_env 5 0 demo_list_daemon = Some (0, t)"
proof -
  let ?s = demo_list_daemon and ?c = demo_lister
  obtain crc infos c' where c: "irtcli_list_in 9 0 0 8 ?c = ((crc, infos), c')" by (metis prod.collapse)
  have cl: "cc_connected ?c" "io_env (cc_io ?c) = []" "io_tx (cc_io ?c) = []" "rx_sound (io_rx (cc_io ?c))"
    "rx_data (io_rx (cc_io ?c)) = list_reply (answered ?s 9 0 0)"
    by (simp_all add: demo_lister_def rx_sound_def list_reply_def hdr_bytes_def le32_def)
  have inv: "dir_inv (g_max_points ?s) (s_h ?s)" "\<forall>pid. en_ob demo_list_env pid = quiet (h_shm (s_h ?s)) pid"
    by (simp_all add: demo_list_daemon_def demo_srv_def demo_handle1(1) demo_list_env_def)
  have io: "io_env (s_io ?s 5) = []" "io_tx (s_io ?s 5) = []" "rx_sound (io_rx (s_io ?s 5))"
    "rx_data (io_rx (s_io ?s 5)) = req_bytes 11 12 @ list_bytes 0 0 9 @ []"
    by (simp_all add: demo_list_daemon_def demo_srv_def rx_sound_def req_bytes_def hdr_bytes_def le32_def list_bytes_def)
  obtain rc t where t: "handle_request demo_list_env 5 0 ?s = Some (rc, t)"
  proof -
    have "length (list_bytes 0 0 9) = 12" by (simp add: list_bytes_def)
    moreover have "map_of kOps 11 = Some (\<lambda>e fd k. op_list e fd)" by (simp add: kOps_def)
    ultimately obtain rq evs1 evs2 where p: "handle_request demo_list_env 5 0 ?s = op_list demo_list_env 5 rq (with_rx 5 evs1 ?s)"
        "payload 5 rq 12 (with_rx 5 evs1 ?s) = (Some (list_bytes 0 0 9), with_rx 5 evs2 ?s)"
      using request_read [OF io(3,4)] by blast
    have "g_max_points (with_rx 5 evs2 ?s) = g_max_points ?s" by (simp add: with_rx_def)
    then have "op_list demo_list_env 5 rq (with_rx 5 evs1 ?s) \<noteq> None"
      using do_list_quiet [OF inv(1), of demo_list_env] inv(2) by (simp add: op_list_def p(2) Let_def)
    then show ?thesis using p(1) that by auto
  qed
  have tx: "io_tx (cc_io c') = req_bytes 11 12 @ list_bytes 0 0 9"
    using list_request_sent [OF cl(1,2), of 9 0 0 8] c cl(3) by simp
  have out: "io_tx (s_io t 5) = list_reply (answered ?s 9 0 0)"
    using list_handled [OF inv(1) _ io(3,4,1) t] inv(2) io(2) by simp
  have nn: "list_all (\<lambda>p. no_nul (pt_name p)) (points (h_shm (s_h ?s)))"
    using demo_names by (simp add: demo_list_daemon_def)
  have rq: "rx_data (io_rx (s_io ?s 5)) = drop (length (io_tx (cc_io ?c))) (io_tx (cc_io c')) @ []"
    using io(4) tx cl(3) by simp
  have rp: "rx_data (io_rx (cc_io ?c)) = drop (length (io_tx (s_io ?s 5))) (io_tx (s_io t 5)) @ []"
    using cl(5) out io(2) by simp
  from list_end_to_end [OF inv nn cl(1,2,4) c io(1,3) t rq rp] show ?thesis
    using c t by (simp add: demo_listed)
qed

end
