(* ===== verification/Abi_Layout.thy ===== *)
theory Abi_Layout
  imports Client Delta Subscription
begin

text \<open>
  The C layout of the structures that leave the process: the records of a shared segment
  (\<^verbatim>\<open>src/internal/irt_types.h\<close>, \<^verbatim>\<open>include/indurtdb/indurtdb.h\<close>), of the change log
  (\<^verbatim>\<open>src/core/irt_delta.h\<close>) and of the wire protocol (\<^verbatim>\<open>rtdbd/protocol.h\<close>), with the sizes and
  offsets that the static assertions of the sources claim, and the byte encodings of the other
  theories compared with them. The rules are those of the 64-bit ABIs the program is built for:
  every scalar type is aligned to its size.
\<close>

section \<open>Sizes, alignments and offsets\<close>

text \<open>\<open>C_Struct packed al names types\<close> has the attributes \<open>packed\<close> and \<open>aligned(al)\<close>, 1 for none.\<close>

datatype c_type = C_Int nat | C_Arr nat c_type | C_Union "c_type list" | C_Struct bool nat "string list" "c_type list"

definition align_up :: "nat \<Rightarrow> nat \<Rightarrow> nat" where
  "align_up n a = (n + a - 1) div a * a"

text \<open>The offsets of members with the given sizes and alignments, and where the last one ends.\<close>

fun place :: "nat \<Rightarrow> (nat \<times> nat) list \<Rightarrow> nat list \<times> nat" where
  "place n [] = ([], n)"
| "place n ((sz, al) # ms) = (let o1 = align_up n al; (os, e) = place (o1 + sz) ms in (o1 # os, e))"

definition members :: "bool \<Rightarrow> (nat \<times> nat) list \<Rightarrow> (nat \<times> nat) list" where
  "members packed ms = (if packed then map (\<lambda>(sz, al). (sz, 1)) ms else ms)"

definition max_align :: "nat \<Rightarrow> (nat \<times> nat) list \<Rightarrow> nat" where
  "max_align al ms = fold max (map snd ms) al"

fun c_layout :: "c_type \<Rightarrow> nat \<times> nat" where
  "c_layout (C_Int n) = (n, n)"
| "c_layout (C_Arr k t) = (let (sz, al) = c_layout t in (k * sz, al))"
| "c_layout (C_Union ts) =
     (let ms = map c_layout ts; al = max_align 1 ms in (align_up (fold max (map fst ms) 0) al, al))"
| "c_layout (C_Struct packed al ns ts) =
     (let ms = members packed (map c_layout ts); al = max_align al ms in (align_up (snd (place 0 ms)) al, al))"

definition c_sizeof :: "c_type \<Rightarrow> nat" where
  "c_sizeof t = fst (c_layout t)"

definition c_alignof :: "c_type \<Rightarrow> nat" where
  "c_alignof t = snd (c_layout t)"

text \<open>Name, offset and size of the members of a structure.\<close>

fun c_fields :: "c_type \<Rightarrow> (string \<times> nat \<times> nat) list" where
  "c_fields (C_Struct packed al ns ts) =
     (let ms = members packed (map c_layout ts) in zip ns (zip (fst (place 0 ms)) (map fst ms)))"
| "c_fields _ = []"

definition c_offsetof :: "c_type \<Rightarrow> string \<Rightarrow> nat" where
  "c_offsetof t f = (case map_of (c_fields t) f of Some (n, _) \<Rightarrow> n | None \<Rightarrow> 0)"

text \<open>The bytes of a member in the bytes of a structure.\<close>

definition c_get :: "c_type \<Rightarrow> string \<Rightarrow> u8 list \<Rightarrow> u8 list" where
  "c_get t f bs = (case map_of (c_fields t) f of Some (n, sz) \<Rightarrow> take sz (drop n bs) | None \<Rightarrow> [])"

text \<open>A structure without padding: every byte belongs to a member.\<close>

definition unpadded :: "c_type \<Rightarrow> bool" where
  "unpadded t \<longleftrightarrow> sum_list (map (snd \<circ> snd) (c_fields t)) = c_sizeof t"

abbreviation "c_u8 \<equiv> C_Int 1"
abbreviation "c_u16 \<equiv> C_Int 2"
abbreviation "c_u32 \<equiv> C_Int 4"
abbreviation "c_u64 \<equiv> C_Int 8"

section \<open>The shared segment and the change log\<close>

definition indurtdb_point_t :: c_type where
  "indurtdb_point_t = C_Struct True 128
     [''value'', ''timestamp_ns'', ''type'', ''quality'', ''unit'', ''access'', ''name'', ''padding'',
      ''source_timestamp_ns'', ''partition'', ''reserved'']
     [C_Union [c_u8, c_u32, c_u64, c_u32, c_u32, c_u64, C_Arr 32 c_u8], c_u64, c_u8, c_u8, c_u16, c_u8,
      C_Arr 64 c_u8, C_Arr 3 c_u8, c_u64, c_u32, C_Arr 4 c_u8]"

definition indurtdb_meta_t :: c_type where
  "indurtdb_meta_t = C_Struct True 32 [''eur_min'', ''eur_max'', ''deadband'', ''flags'', ''reserved'']
     [c_u64, c_u64, c_u32, c_u32, C_Arr 8 c_u8]"

definition irt_header_t :: c_type where
  "irt_header_t = C_Struct True 64
     [''magic'', ''version'', ''max_points'', ''max_subscribers'', ''write_seq'', ''owner_pid'', ''stats'',
      ''crc32'', ''flags'', ''reserved_scan'', ''off_points'', ''off_index'', ''off_meta'', ''off_subs'',
      ''index_count'', ''scan_skipped'', ''reserved'']
     [c_u32, c_u32, c_u32, c_u32, c_u64, c_u32, C_Struct False 1 [''writes'', ''timeouts''] [c_u64, c_u64],
      c_u32, c_u32, c_u32, c_u32, c_u32, c_u32, c_u32, c_u32, c_u32, C_Arr 48 c_u8]"

definition irt_subscriber_entry_t :: c_type where
  "irt_subscriber_entry_t = C_Struct True 16 [''pid'', ''last_heartbeat_ns'', ''padding''] [c_u32, c_u64, C_Arr 4 c_u8]"

definition irt_index_slot_t :: c_type where
  "irt_index_slot_t = C_Struct True 8 [''hash'', ''point_id''] [c_u32, c_u32]"

definition irt_delta_rec_t :: c_type where
  "irt_delta_rec_t = C_Struct False 1
     [''magic'', ''version'', ''op'', ''point_id'', ''type'', ''access'', ''reserved'', ''name'']
     [c_u32, c_u16, c_u16, c_u32, c_u8, c_u8, C_Arr 2 c_u8, C_Arr 64 c_u8]"

section \<open>The wire protocol\<close>

definition rtdbd_req_hdr_t :: c_type where
  "rtdbd_req_hdr_t = C_Struct False 1 [''magic'', ''version'', ''opcode'', ''payload_len''] [c_u32, c_u16, c_u16, c_u32]"

definition rtdbd_resp_hdr_t :: c_type where
  "rtdbd_resp_hdr_t = C_Struct False 1 [''magic'', ''version'', ''status'', ''payload_len''] [c_u32, c_u16, c_u16, c_u32]"

definition rtdbd_write_req_t :: c_type where
  "rtdbd_write_req_t = C_Struct False 1 [''point_id'', ''type'', ''reserved'', ''value_bits'', ''source_ts_ns'']
     [c_u32, c_u8, C_Arr 3 c_u8, c_u64, c_u64]"

definition rtdbd_audit_entry_t :: c_type where
  "rtdbd_audit_entry_t = C_Struct False 1 [''pid'', ''uid'', ''point_id'', ''partition'', ''ts_ns'']
     [c_u32, c_u32, c_u32, c_u32, c_u64]"

definition rtdbd_notify_t :: c_type where
  "rtdbd_notify_t = C_Struct False 1 [''point_id'', ''type'', ''reserved'', ''value_bits'', ''timestamp_ns'', ''source_ts_ns'']
     [c_u32, c_u8, C_Arr 3 c_u8, c_u64, c_u64, c_u64]"

definition rtdbd_find_req_t :: c_type where
  "rtdbd_find_req_t = C_Struct False 1 [''name'', ''partition''] [C_Arr 64 c_u8, c_u32]"

definition rtdbd_meta_payload_t :: c_type where
  "rtdbd_meta_payload_t = C_Struct False 1 [''eur_min'', ''eur_max'', ''deadband'', ''flags'', ''reserved'']
     [c_u64, c_u64, c_u32, c_u32, C_Arr 8 c_u8]"

definition rtdbd_set_meta_req_t :: c_type where
  "rtdbd_set_meta_req_t = C_Struct False 1 [''point_id'', ''meta''] [c_u32, rtdbd_meta_payload_t]"

text \<open>SUBSCRIBE, UNSUBSCRIBE, GET_META and GET send, and FIND_BY_NAME returns, one point id.\<close>

definition rtdbd_sub_req_t :: c_type where "rtdbd_sub_req_t = C_Struct False 1 [''point_id''] [c_u32]"
definition rtdbd_find_resp_t :: c_type where "rtdbd_find_resp_t = C_Struct False 1 [''point_id''] [c_u32]"
definition rtdbd_meta_req_t :: c_type where "rtdbd_meta_req_t = C_Struct False 1 [''point_id''] [c_u32]"
definition rtdbd_get_req_t :: c_type where "rtdbd_get_req_t = C_Struct False 1 [''point_id''] [c_u32]"
definition rtdbd_log_req_t :: c_type where "rtdbd_log_req_t = C_Struct False 1 [''max''] [c_u32]"

definition rtdbd_get_resp_t :: c_type where
  "rtdbd_get_resp_t = C_Struct False 1
     [''point_id'', ''type'', ''quality'', ''reserved'', ''value_bits'', ''value_str'', ''timestamp_ns'', ''source_ts_ns'']
     [c_u32, c_u8, c_u8, C_Arr 2 c_u8, c_u64, C_Arr 32 c_u8, c_u64, c_u64]"

definition rtdbd_list_req_t :: c_type where
  "rtdbd_list_req_t = C_Struct False 1 [''max'', ''offset'', ''partition''] [c_u32, c_u32, c_u32]"

definition rtdbd_point_info_t :: c_type where
  "rtdbd_point_info_t = C_Struct False 1 [''point_id'', ''type'', ''access'', ''reserved'', ''name'', ''partition'']
     [c_u32, c_u8, c_u8, C_Arr 2 c_u8, C_Arr 64 c_u8, c_u32]"

definition rtdbd_create_req_t :: c_type where
  "rtdbd_create_req_t = C_Struct False 1 [''point_id'', ''type'', ''access'', ''reserved'', ''name'', ''partition'']
     [c_u32, c_u8, c_u8, C_Arr 2 c_u8, C_Arr 64 c_u8, c_u32]"

definition rtdbd_delete_req_t :: c_type where
  "rtdbd_delete_req_t = C_Struct False 1 [''point_id'', ''partition''] [c_u32, c_u32]"

definition rtdbd_rename_req_t :: c_type where
  "rtdbd_rename_req_t = C_Struct False 1 [''point_id'', ''name'', ''partition''] [c_u32, C_Arr 64 c_u8, c_u32]"

definition rtdbd_log_entry_t :: c_type where
  "rtdbd_log_entry_t = C_Struct False 1 [''ts_ns'', ''level'', ''reserved'', ''msg'']
     [c_u64, c_u8, C_Arr 3 c_u8, C_Arr RTDBD_LOG_ENTRY_MSG_MAX c_u8]"

definition rtdbd_health_t :: c_type where
  "rtdbd_health_t = C_Struct False 1
     [''n_writes'', ''n_notifies'', ''decode_fail'', ''write_rejected'', ''write_error'', ''notify_drop'',
      ''notify_send_fail'', ''uptime_ns'', ''health'', ''n_conns'']
     [c_u64, c_u64, c_u64, c_u64, c_u64, c_u64, c_u64, c_u64, c_u32, c_u32]"

text \<open>The client declares the list entry again, for callers that do not include the protocol.\<close>

definition irtcli_point_info_t :: c_type where
  "irtcli_point_info_t = C_Struct False 1 [''point_id'', ''type'', ''access'', ''reserved'', ''name'', ''partition'']
     [c_u32, c_u8, c_u8, C_Arr 2 c_u8, C_Arr 64 c_u8, c_u32]"

section \<open>The static assertions\<close>

lemma segment_assertions:
  "c_sizeof irt_header_t = 128" "c_sizeof indurtdb_point_t = 128" "c_sizeof indurtdb_meta_t = 32"
  "c_sizeof irt_index_slot_t = 8" "c_sizeof irt_subscriber_entry_t = 16" "c_sizeof irt_delta_rec_t = 80"
  "map (c_offsetof irt_header_t) [''magic'', ''version'', ''max_points'', ''max_subscribers'', ''write_seq'',
     ''owner_pid'', ''stats'', ''crc32'', ''index_count'', ''scan_skipped''] = [0, 4, 8, 12, 16, 24, 28, 44, 72, 76]"
  "map (c_offsetof indurtdb_point_t) [''quality'', ''name'', ''source_timestamp_ns'', ''partition''] = [41, 45, 112, 120]"
  by code_simp+

lemma wire_assertions:
  "map c_sizeof [rtdbd_req_hdr_t, rtdbd_resp_hdr_t, rtdbd_write_req_t, rtdbd_audit_entry_t, rtdbd_notify_t,
     rtdbd_find_req_t, rtdbd_meta_payload_t, rtdbd_get_resp_t, rtdbd_list_req_t, rtdbd_point_info_t,
     rtdbd_create_req_t, rtdbd_delete_req_t, rtdbd_rename_req_t, rtdbd_log_req_t, rtdbd_log_entry_t, rtdbd_health_t]
   = [12, 12, 24, 24, 32, 68, 32, 64, 12, 76, 76, 8, 72, 4, 128, 72]"
  "map c_sizeof [rtdbd_sub_req_t, rtdbd_find_resp_t, rtdbd_meta_req_t, rtdbd_get_req_t] = [4, 4, 4, 4]"
  "c_sizeof rtdbd_meta_payload_t = c_sizeof indurtdb_meta_t"
  by code_simp+

lemma segment_alignments:
  "c_alignof irt_header_t = 64" "c_alignof indurtdb_point_t = 128" "c_alignof indurtdb_meta_t = 32"
  "c_alignof irt_index_slot_t = 8" "c_alignof irt_subscriber_entry_t = 16"
  by code_simp+

text \<open>No structure has padding except the request that sets metadata, which has no assertion.\<close>

lemma structures_unpadded:
  "list_all unpadded [irt_header_t, indurtdb_point_t, indurtdb_meta_t, irt_index_slot_t, irt_subscriber_entry_t,
     irt_delta_rec_t, rtdbd_req_hdr_t, rtdbd_resp_hdr_t, rtdbd_write_req_t, rtdbd_audit_entry_t, rtdbd_notify_t,
     rtdbd_find_req_t, rtdbd_meta_payload_t, rtdbd_get_resp_t, rtdbd_list_req_t, rtdbd_point_info_t,
     rtdbd_create_req_t, rtdbd_delete_req_t, rtdbd_rename_req_t, rtdbd_log_entry_t, rtdbd_health_t]"
  by code_simp

lemma client_copy_agrees:
  "c_sizeof irtcli_point_info_t = 76" "c_fields irtcli_point_info_t = c_fields rtdbd_point_info_t"
  by code_simp+

text \<open>
  The request that sets metadata is documented as 36 bytes; its doubles are aligned to 8, so it has
  40 bytes, four of them padding.
\<close>

lemma set_meta_is_padded:
  "c_sizeof rtdbd_set_meta_req_t = 40" "c_offsetof rtdbd_set_meta_req_t ''meta'' = 8" "\<not> unpadded rtdbd_set_meta_req_t"
  by code_simp+

text \<open>
  The counters of the header are 64-bit objects of atomic operations at offsets that are not multiples
  of 8; the sequence counter and the 32-bit ones are aligned.
\<close>

lemma statistics_misaligned:
  "c_offsetof irt_header_t ''stats'' mod 8 = 4"
  "(c_offsetof irt_header_t ''stats'' + c_offsetof (C_Struct False 1 [''writes'', ''timeouts''] [c_u64, c_u64]) ''timeouts'') mod 8 = 4"
  "c_offsetof irt_header_t ''write_seq'' mod 8 = 0" "c_offsetof irt_header_t ''index_count'' mod 4 = 0"
  "c_offsetof irt_header_t ''scan_skipped'' mod 4 = 0"
  by code_simp+

section \<open>The properties\<close>

text \<open>
  C40. For every number of points up to \<open>2 ^ 24\<close> the offsets that the owner writes into the header
  place the regions one after the other, each as long as its records in the C layout say, with no
  overlap and no wrap-around of the 32-bit arithmetic: header, points, a power-of-two number of index
  slots that is at least twice the number of points, metadata, subscriber entries up to the mapped
  size. In a segment mapped at a page every record of every region has the alignment of its type.
\<close>

theorem segment_layout_sound:
  assumes "unat mp \<le> 2 ^ 24"
  shows "unat irt_layout_off_points = c_sizeof irt_header_t
    \<and> unat (irt_layout_off_index mp) = unat irt_layout_off_points + c_sizeof indurtdb_point_t * unat mp
    \<and> unat (irt_layout_off_meta mp) = unat (irt_layout_off_index mp) + c_sizeof irt_index_slot_t * unat (irt_layout_buckets mp)
    \<and> unat (irt_layout_off_subs mp) = unat (irt_layout_off_meta mp) + c_sizeof indurtdb_meta_t * unat mp
    \<and> unat (irt_shm_total_size mp ms) = unat (irt_layout_off_subs mp) + c_sizeof irt_subscriber_entry_t * unat ms
    \<and> 2 * unat mp \<le> unat (irt_layout_buckets mp)
    \<and> (\<exists>k. unat (irt_layout_buckets mp) = 2 ^ k)
    \<and> (\<forall>j. c_alignof indurtdb_point_t dvd unat irt_layout_off_points + c_sizeof indurtdb_point_t * j)
    \<and> (\<forall>j. c_alignof irt_index_slot_t dvd unat (irt_layout_off_index mp) + c_sizeof irt_index_slot_t * j)
    \<and> (\<forall>j. c_alignof indurtdb_meta_t dvd unat (irt_layout_off_meta mp) + c_sizeof indurtdb_meta_t * j)
    \<and> (\<forall>j. c_alignof irt_subscriber_entry_t dvd unat (irt_layout_off_subs mp) + c_sizeof irt_subscriber_entry_t * j)"
proof -
  have b: "32 dvd 8 * unat (irt_layout_buckets mp)" by (rule buckets_mult8)
  then have b8: "8 dvd 8 * unat (irt_layout_buckets mp)" "16 dvd 8 * unat (irt_layout_buckets mp)"
    by (auto elim: dvd_trans [rotated])
  note o = off_index_nat [OF assms] off_meta_nat [OF assms] off_subs_nat [OF assms] total_size_nat [OF assms]
  have "32 dvd unat (irt_layout_off_meta mp)" "16 dvd unat (irt_layout_off_subs mp)" "8 dvd unat (irt_layout_off_index mp)"
    unfolding o by (intro dvd_add b b8; simp add: dvd_mult2)+
  moreover have "2 * unat mp \<le> unat (irt_layout_buckets mp)"
    using assms by (intro buckets_ge) simp
  moreover have "\<exists>k. unat (irt_layout_buckets mp) = 2 ^ k"
    by (rule buckets_pow2 [of mp]) blast
  moreover have "unat irt_layout_off_points = 128" by (simp add: irt_layout_off_points_def)
  ultimately show ?thesis
    unfolding segment_assertions segment_alignments by (simp add: o)
qed

theorem segment_layout_sound_witness:
  "unat (irt_layout_off_index 512) = 128 + 128 * 512
    \<and> unat (irt_layout_off_subs 512) = unat (irt_layout_off_meta 512) + 32 * 512
    \<and> 128 dvd 128 + 128 * (511 :: nat)"
  using segment_layout_sound [of 512 16] unfolding segment_assertions segment_alignments
  by (simp add: irt_layout_off_points_def)

text \<open>
  An attacher that asks for fewer points than the segment has is let in, but maps only the size for its
  own number; the regions that the header names lie behind that mapping.
\<close>

lemma smaller_attach_maps_too_little:
  "unat (irt_shm_total_size 10 8) < 4096" "unat (irt_layout_off_index 100) = 12928" "unat (irt_layout_off_meta 100) = 14976"
proof -
  have "unat (irt_layout_buckets 10) = 32" "unat (irt_layout_buckets 100) = 256" by code_simp+
  then show "unat (irt_shm_total_size 10 8) < 4096" "unat (irt_layout_off_index 100) = 12928"
    "unat (irt_layout_off_meta 100) = 14976"
    using total_size_nat [of 10 8] off_index_nat [of 100] off_meta_nat [of 100] by simp_all
qed

section \<open>The addresses of the regions\<close>

text \<open>The base of the mapping is \<open>None\<close> for a handle that is not attached.\<close>

definition irt_shm_header :: "nat option \<Rightarrow> nat option" where
  "irt_shm_header base = base"

definition irt_shm_points :: "nat option \<Rightarrow> shm \<Rightarrow> nat option" where
  "irt_shm_points base s =
     (case irt_shm_header base of
        None \<Rightarrow> None
      | Some hdr \<Rightarrow> if off_points s = 0 then None else Some (hdr + unat (off_points s)))"

definition irt_shm_subscribers :: "nat option \<Rightarrow> shm \<Rightarrow> nat option" where
  "irt_shm_subscribers base s =
     (case irt_shm_header base of
        None \<Rightarrow> None
      | Some hdr \<Rightarrow> if s_max_subscribers s = 0 then None
                    else if off_subs s = 0 then None else Some (hdr + unat (off_subs s)))"

definition irt_shm_meta :: "nat option \<Rightarrow> shm \<Rightarrow> nat option" where
  "irt_shm_meta base s =
     (case irt_shm_header base of
        None \<Rightarrow> None
      | Some hdr \<Rightarrow> if off_meta s = 0 then None else Some (hdr + unat (off_meta s)))"

text \<open>Record \<open>j\<close> of the table at \<open>p\<close> lies inside the mapping and is aligned when the base is.\<close>

definition record_fits :: "c_type \<Rightarrow> nat \<Rightarrow> nat \<Rightarrow> nat \<Rightarrow> nat \<Rightarrow> bool" where
  "record_fits t base len p j \<longleftrightarrow>
     base \<le> p + c_sizeof t * j \<and> p + c_sizeof t * j + c_sizeof t \<le> base + len
     \<and> (4096 dvd base \<longrightarrow> c_alignof t dvd p + c_sizeof t * j)"

lemma dvd_page: "4096 dvd (b :: nat) \<Longrightarrow> a dvd 4096 \<Longrightarrow> a dvd c \<Longrightarrow> a dvd b + c"
  by (meson dvd_add dvd_trans)

lemma records_in_segment:
  assumes "unat mp \<le> 2 ^ 24" "off_points s = irt_layout_off_points" "off_meta s = irt_layout_off_meta mp"
    "off_subs s = irt_layout_off_subs mp" "s_max_subscribers s = ms"
  shows "j < unat mp \<Longrightarrow> \<exists>p. irt_shm_points (Some b) s = Some p
      \<and> record_fits indurtdb_point_t b (unat (irt_shm_total_size mp ms)) p j"
    "j < unat mp \<Longrightarrow> \<exists>p. irt_shm_meta (Some b) s = Some p
      \<and> record_fits indurtdb_meta_t b (unat (irt_shm_total_size mp ms)) p j"
    "j < unat ms \<Longrightarrow> \<exists>p. irt_shm_subscribers (Some b) s = Some p
      \<and> record_fits irt_subscriber_entry_t b (unat (irt_shm_total_size mp ms)) p j"
proof -
  have b: "32 dvd 8 * unat (irt_layout_buckets mp)" by (rule buckets_mult8)
  then have b16: "16 dvd 8 * unat (irt_layout_buckets mp)" by (auto elim: dvd_trans [rotated])
  note o = off_meta_nat [OF assms(1)] off_subs_nat [OF assms(1)]
  note n = o total_size_nat [OF assms(1), of ms]
  have p: "unat irt_layout_off_points = 128" by (simp add: irt_layout_off_points_def)
  have nz: "irt_layout_off_points \<noteq> 0" "irt_layout_off_meta mp \<noteq> 0" "irt_layout_off_subs mp \<noteq> 0"
    using p o by (auto simp flip: unat_eq_zero)
  have al: "32 dvd unat (irt_layout_off_meta mp) + 32 * j" "16 dvd unat (irt_layout_off_subs mp) + 16 * j" for j
    unfolding o by (intro dvd_add b b16; simp add: dvd_mult2)+
  show "\<exists>p. irt_shm_points (Some b) s = Some p \<and> record_fits indurtdb_point_t b (unat (irt_shm_total_size mp ms)) p j"
    if "j < unat mp"
    using that nz p n assms(2) dvd_page [of b 128 "128 + 128 * j"]
    by (simp add: irt_shm_points_def irt_shm_header_def record_fits_def segment_assertions segment_alignments add.assoc)
  show "\<exists>p. irt_shm_meta (Some b) s = Some p \<and> record_fits indurtdb_meta_t b (unat (irt_shm_total_size mp ms)) p j"
    if "j < unat mp"
    using that nz n assms(3) dvd_page [of b 32, OF _ _ al(1) [of j]]
    by (simp add: irt_shm_meta_def irt_shm_header_def record_fits_def segment_assertions segment_alignments add.assoc)
  show "\<exists>p. irt_shm_subscribers (Some b) s = Some p
      \<and> record_fits irt_subscriber_entry_t b (unat (irt_shm_total_size mp ms)) p j"
    if "j < unat ms"
    using that nz n assms(4,5) dvd_page [of b 16, OF _ _ al(2) [of j]]
    by (auto simp: irt_shm_subscribers_def irt_shm_header_def record_fits_def segment_assertions segment_alignments add.assoc)
qed

section \<open>Encodings and layouts\<close>

text \<open>The bytes hold these members, all of the structure in its order, each at its offset.\<close>

definition encodes :: "c_type \<Rightarrow> u8 list \<Rightarrow> (string \<times> u8 list) list \<Rightarrow> bool" where
  "encodes t bs vs \<longleftrightarrow> length bs = c_sizeof t \<and> map fst vs = map fst (c_fields t)
     \<and> list_all (\<lambda>(f, v). c_get t f bs = v) vs"

lemma member_tables:
  "c_fields rtdbd_req_hdr_t = [(''magic'', 0, 4), (''version'', 4, 2), (''opcode'', 6, 2), (''payload_len'', 8, 4)]"
  "c_fields rtdbd_write_req_t = [(''point_id'', 0, 4), (''type'', 4, 1), (''reserved'', 5, 3), (''value_bits'', 8, 8), (''source_ts_ns'', 16, 8)]"
  "c_fields rtdbd_audit_entry_t = [(''pid'', 0, 4), (''uid'', 4, 4), (''point_id'', 8, 4), (''partition'', 12, 4), (''ts_ns'', 16, 8)]"
  "c_fields rtdbd_notify_t = [(''point_id'', 0, 4), (''type'', 4, 1), (''reserved'', 5, 3), (''value_bits'', 8, 8), (''timestamp_ns'', 16, 8), (''source_ts_ns'', 24, 8)]"
  "c_fields rtdbd_find_req_t = [(''name'', 0, 64), (''partition'', 64, 4)]"
  "c_fields rtdbd_meta_payload_t = [(''eur_min'', 0, 8), (''eur_max'', 8, 8), (''deadband'', 16, 4), (''flags'', 20, 4), (''reserved'', 24, 8)]"
  "c_fields rtdbd_set_meta_req_t = [(''point_id'', 0, 4), (''meta'', 8, 32)]"
  "c_fields rtdbd_get_resp_t = [(''point_id'', 0, 4), (''type'', 4, 1), (''quality'', 5, 1), (''reserved'', 6, 2), (''value_bits'', 8, 8), (''value_str'', 16, 32), (''timestamp_ns'', 48, 8), (''source_ts_ns'', 56, 8)]"
  "c_fields rtdbd_list_req_t = [(''max'', 0, 4), (''offset'', 4, 4), (''partition'', 8, 4)]"
  "c_fields rtdbd_point_info_t = [(''point_id'', 0, 4), (''type'', 4, 1), (''access'', 5, 1), (''reserved'', 6, 2), (''name'', 8, 64), (''partition'', 72, 4)]"
  "c_fields rtdbd_log_entry_t = [(''ts_ns'', 0, 8), (''level'', 8, 1), (''reserved'', 9, 3), (''msg'', 12, 116)]"
  "c_fields rtdbd_health_t = [(''n_writes'', 0, 8), (''n_notifies'', 8, 8), (''decode_fail'', 16, 8), (''write_rejected'', 24, 8), (''write_error'', 32, 8), (''notify_drop'', 40, 8), (''notify_send_fail'', 48, 8), (''uptime_ns'', 56, 8), (''health'', 64, 4), (''n_conns'', 68, 4)]"
  "c_fields irt_delta_rec_t = [(''magic'', 0, 4), (''version'', 4, 2), (''op'', 6, 2), (''point_id'', 8, 4), (''type'', 12, 1), (''access'', 13, 1), (''reserved'', 14, 2), (''name'', 16, 64)]"
  by code_simp+

lemmas encode_simps = encodes_def c_get_def member_tables segment_assertions wire_assertions set_meta_is_padded length_c_buf

lemma sizes_single:
  "c_sizeof rtdbd_req_hdr_t = 12" "c_sizeof rtdbd_write_req_t = 24" "c_sizeof rtdbd_audit_entry_t = 24"
  "c_sizeof rtdbd_notify_t = 32" "c_sizeof rtdbd_find_req_t = 68" "c_sizeof rtdbd_meta_payload_t = 32"
  "c_sizeof rtdbd_get_resp_t = 64" "c_sizeof rtdbd_list_req_t = 12" "c_sizeof rtdbd_point_info_t = 76"
  "c_sizeof rtdbd_log_entry_t = 128" "c_sizeof rtdbd_health_t = 72"
  using wire_assertions(1) by simp_all

lemma le16_length [simp]: "length (le16 w) = 2"
  by (simp add: le16_def)

lemma encode_header:
  "encodes rtdbd_req_hdr_t (hdr_bytes mg v op len)
     [(''magic'', le32 mg), (''version'', le16 v), (''opcode'', le16 op), (''payload_len'', le32 len)]"
  by (simp add: encode_simps sizes_single hdr_bytes_def)

lemma encode_notify:
  "encodes rtdbd_notify_t (notify_bytes nt)
     [(''point_id'', le32 (nt_point_id nt)), (''type'', [nt_type nt]), (''reserved'', [0, 0, 0]),
      (''value_bits'', le64 (nt_value_bits nt)), (''timestamp_ns'', le64 (nt_timestamp_ns nt)),
      (''source_ts_ns'', le64 (nt_source_ts_ns nt))]"
  by (simp add: encode_simps sizes_single notify_bytes_def)

lemma encode_audit:
  "encodes rtdbd_audit_entry_t (audit_entry_bytes a)
     [(''pid'', le32 (ae_pid a)), (''uid'', le32 (ae_uid a)), (''point_id'', le32 (ae_point_id a)),
      (''partition'', le32 (ae_partition a)), (''ts_ns'', le64 (ae_ts_ns a))]"
  by (simp add: encode_simps sizes_single audit_entry_bytes_def)

lemma encode_get_resp:
  assumes "length (pt_value pt) = 32"
  shows "encodes rtdbd_get_resp_t (get_resp_bytes pid pt)
     [(''point_id'', le32 pid), (''type'', [pt_type pt]), (''quality'', [quality pt]), (''reserved'', [0, 0]),
      (''value_bits'', take 8 (pt_value pt)),
      (''value_str'', if pt_type pt = INDURTDB_TYPE_STRING then pt_value pt else replicate 32 0),
      (''timestamp_ns'', le64 (timestamp_ns pt)), (''source_ts_ns'', le64 (source_timestamp_ns pt))]"
  using assms by (simp add: encode_simps sizes_single get_resp_bytes_def)

lemma encode_point_info:
  "encodes rtdbd_point_info_t (point_info_bytes pid pt)
     [(''point_id'', le32 pid), (''type'', [pt_type pt]), (''access'', [access pt]), (''reserved'', [0, 0]),
      (''name'', c_buf 64 (pt_name pt)), (''partition'', le32 (partition pt))]"
  by (simp add: encode_simps sizes_single point_info_bytes_def)

lemma encode_meta:
  "encodes rtdbd_meta_payload_t (meta_bytes m)
     [(''eur_min'', le64 (eur_min m)), (''eur_max'', le64 (eur_max m)), (''deadband'', le32 (deadband m)),
      (''flags'', le32 (m_flags m)), (''reserved'', replicate 8 0)]"
  by (simp add: encode_simps sizes_single meta_bytes_def)

lemma encode_log_entry:
  "encodes rtdbd_log_entry_t (log_entry_bytes l)
     [(''ts_ns'', le64 (le_ts_ns l)), (''level'', [le_level l]), (''reserved'', [0, 0, 0]),
      (''msg'', c_buf RTDBD_LOG_ENTRY_MSG_MAX (le_msg l))]"
  by (simp add: encode_simps sizes_single log_entry_bytes_def RTDBD_LOG_ENTRY_MSG_MAX_def)

lemma encode_health:
  "encodes rtdbd_health_t (health_bytes g hl nc)
     [(''n_writes'', le64 (n_writes g)), (''n_notifies'', le64 (n_notifies g)), (''decode_fail'', le64 (decode_fail g)),
      (''write_rejected'', le64 (write_rejected g)), (''write_error'', le64 (write_error g)),
      (''notify_drop'', le64 (notify_drop g)), (''notify_send_fail'', le64 (notify_send_fail g)),
      (''uptime_ns'', le64 (uptime_ns g)), (''health'', le32 (word_of_int hl)), (''n_conns'', le32 (word_of_nat nc))]"
  by (simp add: encode_simps sizes_single health_bytes_def)

lemma encode_delta:
  "encodes irt_delta_rec_t (delta_bytes r)
     [(''magic'', le32 (d_magic r)), (''version'', le16 (d_version r)), (''op'', le16 (d_op r)),
      (''point_id'', le32 (d_point_id r)), (''type'', [d_type r]), (''access'', [d_access r]),
      (''reserved'', [0, 0]), (''name'', c_buf 64 (d_name r))]"
  by (simp add: encode_simps delta_bytes_def)

lemma encode_entry:
  "encodes rtdbd_write_req_t (entry_bytes e)
     [(''point_id'', le32 (e_point_id e)), (''type'', [e_type e]), (''reserved'', [0, 0, 0]),
      (''value_bits'', le64 (e_value_bits e)), (''source_ts_ns'', le64 (e_source_ts_ns e))]"
  by (simp add: encode_simps sizes_single entry_bytes_def)

lemma encode_find:
  "encodes rtdbd_find_req_t (find_bytes nm part) [(''name'', c_buf 64 nm), (''partition'', le32 part)]"
  by (simp add: encode_simps sizes_single find_bytes_def)

lemma encode_list:
  "encodes rtdbd_list_req_t (list_bytes mx offset part)
     [(''max'', le32 mx), (''offset'', le32 offset), (''partition'', le32 part)]"
  by (simp add: encode_simps sizes_single list_bytes_def)

lemma of_le_byte: "of_le [b] = (b :: u8)"
  by (simp add: of_le_def)

lemma nth_take_drop: "n < length bs \<Longrightarrow> take 1 (drop n bs) = [bs ! n]"
  by (simp add: take_Suc hd_drop_conv_nth)

lemma decode_header:
  assumes "length bs = c_sizeof rtdbd_req_hdr_t"
  shows "req_hdr_of bs =
     \<lparr>rq_magic = of_le (c_get rtdbd_req_hdr_t ''magic'' bs), rq_version = of_le (c_get rtdbd_req_hdr_t ''version'' bs),
      rq_opcode = of_le (c_get rtdbd_req_hdr_t ''opcode'' bs), rq_len = of_le (c_get rtdbd_req_hdr_t ''payload_len'' bs)\<rparr>"
  by (simp add: c_get_def member_tables req_hdr_of_def)

lemma decode_write:
  assumes "length bs = c_sizeof rtdbd_write_req_t"
  shows "write_req_of bs =
     \<lparr>w_point_id = of_le (c_get rtdbd_write_req_t ''point_id'' bs), w_type = of_le (c_get rtdbd_write_req_t ''type'' bs),
      w_value_bits = of_le (c_get rtdbd_write_req_t ''value_bits'' bs),
      w_source_ts_ns = of_le (c_get rtdbd_write_req_t ''source_ts_ns'' bs)\<rparr>"
  using assms nth_take_drop [of 4 bs] by (simp add: c_get_def member_tables write_req_of_def sizes_single of_le_byte)

lemma decode_meta:
  "meta_of bs =
     \<lparr>eur_min = of_le (c_get rtdbd_meta_payload_t ''eur_min'' bs), eur_max = of_le (c_get rtdbd_meta_payload_t ''eur_max'' bs),
      deadband = of_le (c_get rtdbd_meta_payload_t ''deadband'' bs), m_flags = of_le (c_get rtdbd_meta_payload_t ''flags'' bs)\<rparr>"
  by (simp add: c_get_def member_tables meta_of_def)

lemma decode_set_meta:
  "length bs = 40 \<Longrightarrow> take 4 bs = c_get rtdbd_set_meta_req_t ''point_id'' bs"
  "length bs = 40 \<Longrightarrow> drop 8 bs = c_get rtdbd_set_meta_req_t ''meta'' bs"
  by (simp_all add: c_get_def member_tables)

lemma decode_delta:
  assumes "length bs = c_sizeof irt_delta_rec_t"
  shows "delta_of_bytes bs =
     \<lparr>d_magic = of_le (c_get irt_delta_rec_t ''magic'' bs), d_version = of_le (c_get irt_delta_rec_t ''version'' bs),
      d_op = of_le (c_get irt_delta_rec_t ''op'' bs), d_point_id = of_le (c_get irt_delta_rec_t ''point_id'' bs),
      d_type = of_le (c_get irt_delta_rec_t ''type'' bs), d_access = of_le (c_get irt_delta_rec_t ''access'' bs),
      d_name = c_string (c_get irt_delta_rec_t ''name'' bs)\<rparr>"
  using assms nth_take_drop [of 12 bs] nth_take_drop [of 13 bs]
  by (simp add: c_get_def member_tables delta_of_bytes_def segment_assertions of_le_byte)

text \<open>
  C19. What the daemon and the client send and what the change log holds has the C layout of the
  structure that the headers declare: request headers, notifications, audit entries, point values,
  list entries, metadata, log entries, health snapshots, queued writes, searches and list requests and
  change log records have the size of their structure with every member at its offset and no other
  byte; the decoders of headers, writes, metadata and change log records read every member at its
  offset.
\<close>

theorem wire_bytes_follow_layout:
  assumes "length (pt_value pt) = 32" "length hb = c_sizeof rtdbd_req_hdr_t" "length wb = c_sizeof rtdbd_write_req_t"
    "length db = c_sizeof irt_delta_rec_t"
  shows "encodes rtdbd_req_hdr_t (hdr_bytes mg v op len)
     [(''magic'', le32 mg), (''version'', le16 v), (''opcode'', le16 op), (''payload_len'', le32 len)]
   \<and> encodes rtdbd_notify_t (notify_bytes nt)
     [(''point_id'', le32 (nt_point_id nt)), (''type'', [nt_type nt]), (''reserved'', [0, 0, 0]),
      (''value_bits'', le64 (nt_value_bits nt)), (''timestamp_ns'', le64 (nt_timestamp_ns nt)),
      (''source_ts_ns'', le64 (nt_source_ts_ns nt))]
   \<and> encodes rtdbd_audit_entry_t (audit_entry_bytes a)
     [(''pid'', le32 (ae_pid a)), (''uid'', le32 (ae_uid a)), (''point_id'', le32 (ae_point_id a)),
      (''partition'', le32 (ae_partition a)), (''ts_ns'', le64 (ae_ts_ns a))]
   \<and> encodes rtdbd_get_resp_t (get_resp_bytes pid pt)
     [(''point_id'', le32 pid), (''type'', [pt_type pt]), (''quality'', [quality pt]), (''reserved'', [0, 0]),
      (''value_bits'', take 8 (pt_value pt)),
      (''value_str'', if pt_type pt = INDURTDB_TYPE_STRING then pt_value pt else replicate 32 0),
      (''timestamp_ns'', le64 (timestamp_ns pt)), (''source_ts_ns'', le64 (source_timestamp_ns pt))]
   \<and> encodes rtdbd_point_info_t (point_info_bytes pid pt)
     [(''point_id'', le32 pid), (''type'', [pt_type pt]), (''access'', [access pt]), (''reserved'', [0, 0]),
      (''name'', c_buf 64 (pt_name pt)), (''partition'', le32 (partition pt))]
   \<and> encodes rtdbd_meta_payload_t (meta_bytes m)
     [(''eur_min'', le64 (eur_min m)), (''eur_max'', le64 (eur_max m)), (''deadband'', le32 (deadband m)),
      (''flags'', le32 (m_flags m)), (''reserved'', replicate 8 0)]
   \<and> encodes rtdbd_log_entry_t (log_entry_bytes l)
     [(''ts_ns'', le64 (le_ts_ns l)), (''level'', [le_level l]), (''reserved'', [0, 0, 0]),
      (''msg'', c_buf RTDBD_LOG_ENTRY_MSG_MAX (le_msg l))]
   \<and> encodes rtdbd_health_t (health_bytes g hl nc)
     [(''n_writes'', le64 (n_writes g)), (''n_notifies'', le64 (n_notifies g)), (''decode_fail'', le64 (decode_fail g)),
      (''write_rejected'', le64 (write_rejected g)), (''write_error'', le64 (write_error g)),
      (''notify_drop'', le64 (notify_drop g)), (''notify_send_fail'', le64 (notify_send_fail g)),
      (''uptime_ns'', le64 (uptime_ns g)), (''health'', le32 (word_of_int hl)), (''n_conns'', le32 (word_of_nat nc))]
   \<and> encodes irt_delta_rec_t (delta_bytes r)
     [(''magic'', le32 (d_magic r)), (''version'', le16 (d_version r)), (''op'', le16 (d_op r)),
      (''point_id'', le32 (d_point_id r)), (''type'', [d_type r]), (''access'', [d_access r]),
      (''reserved'', [0, 0]), (''name'', c_buf 64 (d_name r))]
   \<and> encodes rtdbd_write_req_t (entry_bytes e)
     [(''point_id'', le32 (e_point_id e)), (''type'', [e_type e]), (''reserved'', [0, 0, 0]),
      (''value_bits'', le64 (e_value_bits e)), (''source_ts_ns'', le64 (e_source_ts_ns e))]
   \<and> encodes rtdbd_find_req_t (find_bytes nm part) [(''name'', c_buf 64 nm), (''partition'', le32 part)]
   \<and> encodes rtdbd_list_req_t (list_bytes mx offset part)
     [(''max'', le32 mx), (''offset'', le32 offset), (''partition'', le32 part)]
   \<and> req_hdr_of hb =
     \<lparr>rq_magic = of_le (c_get rtdbd_req_hdr_t ''magic'' hb), rq_version = of_le (c_get rtdbd_req_hdr_t ''version'' hb),
      rq_opcode = of_le (c_get rtdbd_req_hdr_t ''opcode'' hb), rq_len = of_le (c_get rtdbd_req_hdr_t ''payload_len'' hb)\<rparr>
   \<and> write_req_of wb =
     \<lparr>w_point_id = of_le (c_get rtdbd_write_req_t ''point_id'' wb), w_type = of_le (c_get rtdbd_write_req_t ''type'' wb),
      w_value_bits = of_le (c_get rtdbd_write_req_t ''value_bits'' wb),
      w_source_ts_ns = of_le (c_get rtdbd_write_req_t ''source_ts_ns'' wb)\<rparr>
   \<and> meta_of mb =
     \<lparr>eur_min = of_le (c_get rtdbd_meta_payload_t ''eur_min'' mb), eur_max = of_le (c_get rtdbd_meta_payload_t ''eur_max'' mb),
      deadband = of_le (c_get rtdbd_meta_payload_t ''deadband'' mb), m_flags = of_le (c_get rtdbd_meta_payload_t ''flags'' mb)\<rparr>
   \<and> delta_of_bytes db =
     \<lparr>d_magic = of_le (c_get irt_delta_rec_t ''magic'' db), d_version = of_le (c_get irt_delta_rec_t ''version'' db),
      d_op = of_le (c_get irt_delta_rec_t ''op'' db), d_point_id = of_le (c_get irt_delta_rec_t ''point_id'' db),
      d_type = of_le (c_get irt_delta_rec_t ''type'' db), d_access = of_le (c_get irt_delta_rec_t ''access'' db),
      d_name = c_string (c_get irt_delta_rec_t ''name'' db)\<rparr>"
  by (intro conjI encode_header encode_notify encode_audit encode_get_resp encode_point_info encode_meta
      encode_log_entry encode_health encode_delta encode_entry encode_find encode_list decode_header decode_write
      decode_meta decode_delta assms)

theorem wire_bytes_follow_layout_witness:
  "c_get rtdbd_notify_t ''value_bits'' (notify_bytes \<lparr>nt_point_id = 1, nt_type = 2, nt_value_bits = 3,
     nt_timestamp_ns = 4, nt_source_ts_ns = 5\<rparr>) = le64 3
   \<and> w_type (write_req_of (replicate 4 0 @ [2] @ replicate 19 0)) = 2"
proof -
  have l: "length (pt_value zero_point) = 32" "length (replicate 12 0 :: u8 list) = c_sizeof rtdbd_req_hdr_t"
    "length (replicate 4 0 @ [2 :: u8] @ replicate 19 0) = c_sizeof rtdbd_write_req_t"
    "length (replicate 80 0 :: u8 list) = c_sizeof irt_delta_rec_t"
    by (simp_all add: zero_point_def sizes_single segment_assertions)
  show ?thesis
    using wire_bytes_follow_layout [OF l, of 0 0 0 0 "\<lparr>nt_point_id = 1, nt_type = 2, nt_value_bits = 3,
        nt_timestamp_ns = 4, nt_source_ts_ns = 5\<rparr>"]
    by (simp add: encodes_def c_get_def member_tables of_le_byte)
qed

end
