(* ===== verification/Osal.thy ===== *)
theory Osal
  imports Instances
begin

text \<open>
  The OS layer at the level of its system calls (\<^verbatim>\<open>src/osal/sylixos/irt_osal_sylixos.c\<close>; the functions
  of the POSIX file are the same but for the clock they ask first): descriptors, mappings, names and
  lengths of shared memory objects. It refines the layer that the instances use, leaks nothing on
  its error paths, and both satisfy one contract.
\<close>

section \<open>The kernel\<close>

text \<open>
  Names of objects, their lengths, the open descriptors and the mappings of the process. Which
  descriptor and which object number a call gets, and whether it fails, are answers of the kernel.
\<close>

record kernel =
  k_names :: "string \<Rightarrow> nat option"
  k_len :: "nat \<Rightarrow> nat"
  k_fds :: "nat \<Rightarrow> nat option"
  k_maps :: "(nat \<times> nat) list"

record os_answers =
  an_create :: bool
  an_open :: bool
  an_trunc :: bool
  an_mmap :: bool
  an_fd :: nat
  an_obj :: nat

datatype open_error = Eexist | Eother

definition shm_open_excl :: "os_answers \<Rightarrow> string \<Rightarrow> kernel \<Rightarrow> (open_error + nat) \<times> kernel" where
  "shm_open_excl a name k =
     (if \<not> an_create a then (Inl Eother, k)
      else if k_names k name \<noteq> None then (Inl Eexist, k)
      else (Inr (an_fd a), k\<lparr>k_names := (k_names k)(name \<mapsto> an_obj a), k_len := (k_len k)(an_obj a := 0),
              k_fds := (k_fds k)(an_fd a \<mapsto> an_obj a)\<rparr>))"

definition shm_open_existing :: "os_answers \<Rightarrow> string \<Rightarrow> kernel \<Rightarrow> (open_error + nat) \<times> kernel" where
  "shm_open_existing a name k =
     (case k_names k name of
        None \<Rightarrow> (Inl Eother, k)
      | Some ob \<Rightarrow> if an_open a then (Inr (an_fd a), k\<lparr>k_fds := (k_fds k)(an_fd a \<mapsto> ob)\<rparr>) else (Inl Eother, k))"

definition sys_close :: "nat \<Rightarrow> kernel \<Rightarrow> kernel" where
  "sys_close fd k = k\<lparr>k_fds := (k_fds k)(fd := None)\<rparr>"

definition sys_ftruncate :: "os_answers \<Rightarrow> nat \<Rightarrow> nat \<Rightarrow> kernel \<Rightarrow> bool \<times> kernel" where
  "sys_ftruncate a fd len k =
     (case k_fds k fd of
        None \<Rightarrow> (False, k)
      | Some ob \<Rightarrow> if an_trunc a then (True, k\<lparr>k_len := (k_len k)(ob := len)\<rparr>) else (False, k))"

definition sys_mmap :: "os_answers \<Rightarrow> nat \<Rightarrow> nat \<Rightarrow> kernel \<Rightarrow> nat option \<times> kernel" where
  "sys_mmap a fd len k =
     (case k_fds k fd of
        None \<Rightarrow> (None, k)
      | Some ob \<Rightarrow> if an_mmap a then (Some ob, k\<lparr>k_maps := (ob, len) # k_maps k\<rparr>) else (None, k))"

definition sys_munmap :: "nat \<Rightarrow> nat \<Rightarrow> kernel \<Rightarrow> kernel" where
  "sys_munmap ob len k = k\<lparr>k_maps := remove1 (ob, len) (k_maps k)\<rparr>"

definition sys_shm_unlink :: "string \<Rightarrow> kernel \<Rightarrow> kernel" where
  "sys_shm_unlink name k = k\<lparr>k_names := (k_names k)(name := None)\<rparr>"

section \<open>The OS layer\<close>

record shm_os_t =
  xs_name :: string
  xs_fd :: int
  xs_mapped :: "nat option"
  xs_size :: nat
  xs_owner :: bool

definition sx_size_and_map :: "os_answers \<Rightarrow> shm_os_t \<Rightarrow> kernel \<Rightarrow> nat option \<times> shm_os_t \<times> kernel" where
  "sx_size_and_map a s k =
     (let fd = nat (xs_fd s); (sized, k) = (if xs_owner s then sys_ftruncate a fd (xs_size s) k else (True, k))
      in if xs_owner s \<and> \<not> sized
         then (None, s\<lparr>xs_fd := -1\<rparr>, sys_shm_unlink (xs_name s) (sys_close fd k))
         else case sys_mmap a fd (xs_size s) k of
           (None, k) \<Rightarrow>
             let k = sys_close fd k
             in (None, s\<lparr>xs_fd := -1, xs_mapped := None\<rparr>, if xs_owner s then sys_shm_unlink (xs_name s) k else k)
         | (Some ob, k) \<Rightarrow> (Some ob, s\<lparr>xs_mapped := Some ob\<rparr>, k))"

definition sx_shm_os_map :: "os_answers \<Rightarrow> shm_os_t \<Rightarrow> string \<Rightarrow> nat \<Rightarrow> kernel \<Rightarrow> nat option \<times> shm_os_t \<times> kernel" where
  "sx_shm_os_map a s name len k =
     (if name = [] \<or> len = 0 then (None, s, k)
      else if xs_mapped s \<noteq> None then (xs_mapped s, s, k)
      else
        let s = s\<lparr>xs_name := strncpy_to 63 name\<rparr>
        in if 64 \<le> length name then (None, s, k)
           else
             let s = s\<lparr>xs_size := len\<rparr>
             in case shm_open_excl a (xs_name s) k of
                  (Inr fd, k) \<Rightarrow> sx_size_and_map a (s\<lparr>xs_fd := int fd, xs_owner := True\<rparr>) k
                | (Inl Eother, k) \<Rightarrow> (None, s\<lparr>xs_fd := -1\<rparr>, k)
                | (Inl Eexist, k) \<Rightarrow>
                    (case shm_open_existing a (xs_name s) k of
                       (Inl _, k) \<Rightarrow> (None, s\<lparr>xs_fd := -1\<rparr>, k)
                     | (Inr fd, k) \<Rightarrow> sx_size_and_map a (s\<lparr>xs_fd := int fd\<rparr>) k))"

definition sx_shm_os_unmap :: "shm_os_t \<Rightarrow> kernel \<Rightarrow> shm_os_t \<times> kernel" where
  "sx_shm_os_unmap s k =
     (let k = (case xs_mapped s of Some ob \<Rightarrow> if 0 < xs_size s then sys_munmap ob (xs_size s) k else k | None \<Rightarrow> k);
          (s, k) = (if 0 \<le> xs_fd s then (s\<lparr>xs_fd := -1\<rparr>, sys_close (nat (xs_fd s)) k) else (s, k));
          k = (if xs_owner s then sys_shm_unlink (xs_name s) k else k)
      in (s\<lparr>xs_mapped := None, xs_size := 0, xs_owner := False\<rparr>, k))"

definition sx_shm_os_is_owner :: "shm_os_t \<Rightarrow> bool" where
  "sx_shm_os_is_owner s = xs_owner s"

definition sx_shm_os_claim_ownership :: "shm_os_t \<Rightarrow> shm_os_t" where
  "sx_shm_os_claim_ownership s = (if \<not> xs_owner s then s\<lparr>xs_owner := True\<rparr> else s)"

text \<open>The clocks; \<open>CLOCK_MONOTONIC\<close> is asked in the place of \<open>CLOCK_MONOTONIC_RAW\<close>.\<close>

definition sx_time_now_ns :: "(u64 \<times> u64) option \<Rightarrow> (u64 \<times> u64) option \<Rightarrow> u64" where
  "sx_time_now_ns monotonic realtime =
     (case monotonic of Some ts \<Rightarrow> timespec_ns ts
      | None \<Rightarrow> (case realtime of Some ts \<Rightarrow> timespec_ns ts | None \<Rightarrow> 0))"

definition sx_time_realtime_ns ::
  "(u64 \<times> u64) option \<Rightarrow> (u64 \<times> u64) option \<Rightarrow> (u64 \<times> u64) option \<Rightarrow> u64" where
  "sx_time_realtime_ns realtime monotonic realtime' =
     (case realtime of Some ts \<Rightarrow> timespec_ns ts | None \<Rightarrow> sx_time_now_ns monotonic realtime')"

definition sx_time_sleep_ns :: "u64 \<Rightarrow> (u64 \<times> u64) list \<Rightarrow> (u64 \<times> u64) list" where
  "sx_time_sleep_ns duration interrupted = sleep_requests (duration div 1000000000, duration mod 1000000000) interrupted"

lemma clocks_agree:
  "sx_time_now_ns = irt_time_now_ns" "sx_time_realtime_ns = irt_time_realtime_ns" "sx_time_sleep_ns = irt_time_sleep_ns"
proof -
  show now: "sx_time_now_ns = irt_time_now_ns" by (simp add: fun_eq_iff sx_time_now_ns_def irt_time_now_ns_def)
  show "sx_time_realtime_ns = irt_time_realtime_ns"
    by (simp add: fun_eq_iff sx_time_realtime_ns_def irt_time_realtime_ns_def now split: option.split)
  show "sx_time_sleep_ns = irt_time_sleep_ns" by (simp add: fun_eq_iff sx_time_sleep_ns_def irt_time_sleep_ns_def)
qed

section \<open>The contract\<close>

text \<open>
  What the instances rely on: mapping a name that nobody uses creates it and makes the caller its
  owner, mapping a used one gives its object, a failure changes no name, and unmapping removes the
  name exactly for the owner.
\<close>

locale os_layer =
  fixes map_seg :: "string \<Rightarrow> 'o \<Rightarrow> 'w \<Rightarrow> nat option \<times> 'o \<times> 'w" and unmap_seg :: "'o \<Rightarrow> 'w \<Rightarrow> 'o \<times> 'w"
    and claim :: "'o \<Rightarrow> 'o" and owner :: "'o \<Rightarrow> bool" and seg_name :: "'o \<Rightarrow> string" and unused :: "'o \<Rightarrow> bool"
    and names :: "'w \<Rightarrow> string \<Rightarrow> nat option"
  assumes map_failed: "unused x \<Longrightarrow> map_seg n x w = (None, y, v) \<Longrightarrow> names v = names w"
    and map_created: "unused x \<Longrightarrow> names w n = None \<Longrightarrow> map_seg n x w = (Some b, y, v) \<Longrightarrow>
      owner y \<and> seg_name y = n \<and> names v = (names w)(n \<mapsto> b)"
    and map_attached: "unused x \<Longrightarrow> names w n = Some b' \<Longrightarrow> map_seg n x w = (Some b, y, v) \<Longrightarrow>
      b = b' \<and> \<not> owner y \<and> seg_name y = n \<and> names v = names w"
    and unmap_names: "names (snd (unmap_seg y v)) = (if owner y then (names v)(seg_name y := None) else names v)"
    and unmap_owner: "\<not> owner (fst (unmap_seg y v))"
    and claim_owner: "owner (claim y)" "seg_name (claim y) = seg_name y"
begin

lemma map_unmap_names:
  assumes "unused x" "map_seg n x w = (Some b, y, v)"
  shows "names (snd (unmap_seg y v)) = names w"
proof (cases "names w n")
  case None
  then show ?thesis using map_created [OF assms(1) None assms(2)] by (simp add: unmap_names fun_eq_iff)
next
  case (Some b')
  then show ?thesis using map_attached [OF assms(1) Some assms(2)] by (simp add: unmap_names)
qed

lemma second_map_shares:
  assumes "unused x" "unused x'" "map_seg n x w = (Some b, y, v)" "map_seg n x' v = (Some b', y', v')"
  shows "b' = b \<and> \<not> owner y'"
proof (cases "names w n")
  case None
  from map_created [OF assms(1) None assms(3)] have "names v n = Some b" by simp
  from map_attached [OF assms(2) this assms(4)] show ?thesis by simp
next
  case (Some c)
  from map_attached [OF assms(1) Some assms(3)] have "b = c" "names v n = Some c" using Some by simp_all
  with map_attached [OF assms(2) this(2) assms(4)] show ?thesis by simp
qed

lemma claimed_unmap_removes:
  assumes "unused x" "map_seg n x w = (Some b, y, v)"
  shows "names (snd (unmap_seg (claim y) v)) n = None"
  using map_created [OF assms(1) _ assms(2)] map_attached [OF assms(1) _ assms(2)]
  by (cases "names w n") (auto simp: unmap_names claim_owner)

end

interpretation posix: os_layer "\<lambda>n x w. irt_shm_os_map flt x n zero w" irt_shm_os_unmap irt_shm_os_claim_ownership
  irt_shm_os_is_owner os_name "\<lambda>x. os_mapped x = None \<and> \<not> os_owner x" w_names
  for flt zero
  by unfold_locales
    (auto simp: irt_shm_os_map_def irt_shm_os_unmap_def irt_shm_os_claim_ownership_def irt_shm_os_is_owner_def Let_def
      split: if_splits option.splits)

interpretation sylix: os_layer "\<lambda>n x k. sx_shm_os_map a x n len k" sx_shm_os_unmap sx_shm_os_claim_ownership
  sx_shm_os_is_owner xs_name "\<lambda>x. xs_mapped x = None \<and> \<not> xs_owner x" k_names
  for a len
  by unfold_locales
    (auto simp: sx_shm_os_map_def sx_size_and_map_def sx_shm_os_unmap_def sx_shm_os_claim_ownership_def sx_shm_os_is_owner_def
      shm_open_excl_def shm_open_existing_def sys_ftruncate_def sys_mmap_def sys_munmap_def sys_close_def sys_shm_unlink_def
      Let_def fun_eq_iff split: if_splits option.splits open_error.splits)

section \<open>Refinement\<close>

definition abs_os :: "shm_os_t \<Rightarrow> irt_shm_os" where
  "abs_os s = \<lparr>os_name = xs_name s, os_mapped = xs_mapped s, os_owner = xs_owner s\<rparr>"

text \<open>The failure of the whole call that a set of answers amounts to.\<close>

definition fault_of :: "os_answers \<Rightarrow> string \<Rightarrow> kernel \<Rightarrow> map_fault" where
  "fault_of a name k =
     (case k_names k name of
        None \<Rightarrow> if \<not> an_create a then Open_fails else if \<not> an_trunc a then Truncate_fails
                else if \<not> an_mmap a then Map_fails else No_fault
      | Some _ \<Rightarrow> if \<not> an_create a \<or> \<not> an_open a then Open_fails else if \<not> an_mmap a then Map_fails else No_fault)"

lemmas os_layer_defs = sx_shm_os_map_def sx_size_and_map_def shm_open_excl_def shm_open_existing_def sys_ftruncate_def
  sys_mmap_def sys_close_def sys_shm_unlink_def

lemma map_refines:
  assumes "xs_mapped s = None" "\<not> xs_owner s" "0 < len" "k_names k = w_names w" "an_obj a = w_next w"
    "sx_shm_os_map a s name len k = (r, s', k')"
  shows "\<exists>w'. irt_shm_os_map (fault_of a name k) (abs_os s) name zero w = (r, abs_os s', w') \<and> w_names w' = k_names k'"
  using assms
  by (cases "w_names w name")
    (auto simp: os_layer_defs irt_shm_os_map_def abs_os_def fault_of_def Let_def fun_eq_iff
      split: if_splits option.splits open_error.splits)

lemma map_resources:
  assumes "xs_mapped s = None" "\<not> xs_owner s" "k_fds k (an_fd a) = None" "sx_shm_os_map a s name len k = (r, s', k')"
  shows "r = None \<Longrightarrow> k_fds k' = k_fds k \<and> k_maps k' = k_maps k"
    "r = Some b \<Longrightarrow> k_fds k' = (k_fds k)(an_fd a \<mapsto> b) \<and> k_maps k' = (b, len) # k_maps k
      \<and> xs_fd s' = int (an_fd a) \<and> xs_mapped s' = Some b \<and> xs_size s' = len \<and> 0 < len"
  using assms
  by (auto simp: os_layer_defs Let_def fun_eq_iff split: if_splits option.splits open_error.splits)

lemma unmap_refines:
  assumes "w_names w = k_names k" "sx_shm_os_unmap s k = (s', k')"
  shows "irt_shm_os_unmap (abs_os s) w = (abs_os s', w\<lparr>w_names := k_names k'\<rparr>)"
  using assms
  by (auto simp: sx_shm_os_unmap_def irt_shm_os_unmap_def abs_os_def sys_munmap_def sys_close_def sys_shm_unlink_def Let_def
      split: if_splits option.splits)

lemma unmap_resources:
  assumes "xs_mapped s = Some b" "0 < xs_size s" "xs_fd s = int fd"
  shows "k_fds (snd (sx_shm_os_unmap s k)) = (k_fds k)(fd := None)"
    "k_maps (snd (sx_shm_os_unmap s k)) = remove1 (b, xs_size s) (k_maps k)"
  using assms by (simp_all add: sx_shm_os_unmap_def sys_munmap_def sys_close_def sys_shm_unlink_def Let_def)

text \<open>
  C18. The OS layer at the level of system calls refines the layer that the instances are verified
  over, and leaks nothing. With an unused structure and whatever calls fail, mapping gives the same
  result, structure and names; after a failure the descriptors and mappings of the process are as
  before; after a success there is exactly one more of each, and unmapping refines the abstract
  unmapping, closes the one and removes the other, and leaves the names as they were before.
\<close>

theorem os_layer_refines:
  assumes "xs_mapped s = None" "\<not> xs_owner s" "0 < len" "k_names k = w_names w" "an_obj a = w_next w" "k_fds k (an_fd a) = None"
    "sx_shm_os_map a s name len k = (r, s', k')" "sx_shm_os_unmap s' k' = (s'', k'')"
  shows "\<exists>w'. irt_shm_os_map (fault_of a name k) (abs_os s) name zero w = (r, abs_os s', w') \<and> w_names w' = k_names k'
    \<and> (case r of
         None \<Rightarrow> k_fds k' = k_fds k \<and> k_maps k' = k_maps k \<and> k_names k' = k_names k
       | Some b \<Rightarrow> k_fds k' = (k_fds k)(an_fd a \<mapsto> b) \<and> k_maps k' = (b, len) # k_maps k
           \<and> irt_shm_os_unmap (abs_os s') w' = (abs_os s'', w'\<lparr>w_names := k_names k''\<rparr>)
           \<and> k_fds k'' = k_fds k \<and> k_maps k'' = k_maps k \<and> k_names k'' = k_names k)"
proof -
  obtain w' where w': "irt_shm_os_map (fault_of a name k) (abs_os s) name zero w = (r, abs_os s', w')" "w_names w' = k_names k'"
    using map_refines [OF assms(1-5,7)] by blast
  show ?thesis
  proof (cases r)
    case None
    then show ?thesis
      using w' map_resources(1) [OF assms(1,2,6,7)] sylix.map_failed [of s a name len k s' k'] assms(1,2,7)
      by (simp add: sx_shm_os_is_owner_def)
  next
    case (Some b)
    note m = map_resources(2) [OF assms(1,2,6,7) Some]
    have "k_fds k'' = k_fds k" "k_maps k'' = k_maps k"
      using unmap_resources [of s' b "an_fd a" k'] m assms(6,8) by (simp_all add: fun_eq_iff)
    moreover have "k_names k'' = k_names k"
      using sylix.map_unmap_names [of s a name len k b s' k'] assms(1,2,7,8) Some by (simp add: sx_shm_os_is_owner_def)
    ultimately show ?thesis using w' m unmap_refines [OF w'(2) assms(8)] Some by simp
  qed
qed

definition demo_kernel :: kernel where
  "demo_kernel = \<lparr>k_names = Map.empty, k_len = (\<lambda>_. 0), k_fds = [0 \<mapsto> 90], k_maps = []\<rparr>"

definition demo_os_answers :: os_answers where
  "demo_os_answers = \<lparr>an_create = True, an_open = True, an_trunc = True, an_mmap = True, an_fd = 3, an_obj = 0\<rparr>"

definition zero_shm_os :: shm_os_t where
  "zero_shm_os = \<lparr>xs_name = [], xs_fd = 0, xs_mapped = None, xs_size = 0, xs_owner = False\<rparr>"

text \<open>A world without segments, whose next one has the number that the kernel hands out.\<close>

definition demo_world :: world where
  "demo_world = \<lparr>w_pid = 7, w_alive = (\<lambda>_. True), w_names = Map.empty, w_segs = (\<lambda>_. zero_segment 0 0), w_next = 0,
     w_registry = [], w_used = 0, w_default = None, w_error = []\<rparr>"

theorem os_layer_refines_witness:
  "k_fds (snd (snd (sx_shm_os_map demo_os_answers zero_shm_os ''/a'' 4096 demo_kernel))) = [0 \<mapsto> 90, 3 \<mapsto> 0]"
proof -
  obtain r s' k' where m: "sx_shm_os_map demo_os_answers zero_shm_os ''/a'' 4096 demo_kernel = (r, s', k')" by (metis prod_cases3)
  obtain s'' k'' where u: "sx_shm_os_unmap s' k' = (s'', k'')" by (metis prod.collapse)
  have "r = Some 0"
    using m by (simp add: os_layer_defs demo_os_answers_def zero_shm_os_def demo_kernel_def Let_def)
  moreover have "k_names demo_kernel = w_names demo_world" "an_obj demo_os_answers = w_next demo_world"
    "k_fds demo_kernel (an_fd demo_os_answers) = None" "xs_mapped zero_shm_os = None" "\<not> xs_owner zero_shm_os"
    by (simp_all add: demo_kernel_def demo_world_def demo_os_answers_def zero_shm_os_def)
  ultimately show ?thesis
    using os_layer_refines [OF _ _ _ _ _ _ m u, of demo_world undefined] m by (auto simp: demo_kernel_def demo_os_answers_def)
qed

section \<open>The end of a handle on a segment\<close>

definition irt_shm_shutdown :: "irt_shm_os \<Rightarrow> world \<Rightarrow> irt_shm_os \<times> world" where
  "irt_shm_shutdown os w = (zero_os, snd (irt_shm_os_unmap os w))"

definition irt_shm_is_owner :: "irt_shm_os \<Rightarrow> bool" where
  "irt_shm_is_owner os = irt_shm_os_is_owner os"

text \<open>Shutting down removes the name exactly for the owner; a second shutdown changes no name.\<close>

lemma shutdown_names:
  "w_names (snd (irt_shm_shutdown os w)) = (if irt_shm_is_owner os then (w_names w)(os_name os := None) else w_names w)"
  using posix.unmap_names [of os w] by (simp add: irt_shm_shutdown_def irt_shm_is_owner_def)

text \<open>
  At the level of the system calls the structure that a shutdown has zeroed names descriptor 0, which
  a second shutdown closes; the instances never do that, because they ask \<open>initialized\<close> first.
\<close>

lemma unmap_zeroed_closes_0: "k_fds (snd (sx_shm_os_unmap zero_shm_os k)) = (k_fds k)(0 := None)"
  by (simp add: sx_shm_os_unmap_def zero_shm_os_def sys_close_def)

lemma shutdown_twice: "irt_shm_shutdown (fst (irt_shm_shutdown os w)) v = (zero_os, v)"
  by (simp add: irt_shm_shutdown_def irt_shm_os_unmap_def zero_os_def)

lemma instance_shutdown:
  "initialized (in_h (w_registry w ! i)) \<Longrightarrow>
     inst_shutdown i w = put_inst i zero_instance (snd (irt_shm_shutdown (in_os (w_registry w ! i)) w))"
  by (simp add: inst_shutdown_def irt_shm_shutdown_def)

section \<open>A segment whose creation was interrupted\<close>

text \<open>
  The creator opens the object and gives it its length in two calls. When it stops in between, every
  later process finds the name, maps the object as attacher without asking for its length, and has a
  mapping of which no byte exists: its first access, the read of the header, is a bus error.
\<close>

lemma interrupted_creation_is_mapped:
  assumes "shm_open_excl a0 name k0 = (Inr fd, k)"
    and "xs_mapped s = None" "\<not> xs_owner s" "name \<noteq> []" "length name < 64" "0 < len" "an_create a" "an_open a" "an_mmap a"
  shows "\<exists>ob s' k'. sx_shm_os_map a s name len k = (Some ob, s', k') \<and> (ob, len) \<in> set (k_maps k')
    \<and> k_len k' ob = 0 \<and> \<not> xs_owner s'"
  using assms by (auto simp: os_layer_defs Let_def split: if_splits)

end
