(* ===== verification/Config_Load.thy ===== *)
theory Config_Load
  imports Directory Policy_Props
begin

text \<open>
  Loading a point configuration into a segment: the YAML reader of \<^verbatim>\<open>src/core/irt_config.c\<close>,
  \<open>indurtdb_h_load_config\<close> of \<^verbatim>\<open>src/api/indurtdb.c\<close> and the name index, composed.
\<close>

section \<open>Configuring one point\<close>

definition config_point :: "point \<Rightarrow> irt_point_meta \<Rightarrow> point" where
  "config_point p pm =
     p\<lparr>pt_type := pm_type pm, pt_unit := pm_unit pm, access := pm_access pm, partition := 0, pt_name := pm_name pm\<rparr>"

lemma configure_free:
  assumes wf: "index_wf s" and quiet: "lock_env s = []" "write_seq s AND 1 = 0"
    and pid: "unat (pm_id pm) < length (points s)" "\<not> reg (points s ! unat (pm_id pm))"
    and name: "pm_name pm \<noteq> []" "length (pm_name pm) \<le> 63" and fresh: "name_map s (0, pm_name pm) = None"
  shows "\<exists>t. configure_loop 3 pm s = (None, True, t) \<and> index_wf t
    \<and> points t = (points s)[unat (pm_id pm) := config_point (points s ! unat (pm_id pm)) pm]
    \<and> lock_env t = [] \<and> write_seq t AND 1 = 0 \<and> max_points t = max_points s \<and> metas t = metas s"
proof -
  let ?j = "unat (pm_id pm)" and ?p = "config_point (points s ! unat (pm_id pm)) pm"
  have lf: "lock_free s" using quiet by (simp add: lock_free_def)
  let ?s1 = "s\<lparr>write_seq := write_seq s + 1\<rparr>"
  have b: "irt_seqlock_write_begin s = (write_seq s, ?s1)" using write_begin_free [OF lf] quiet(1) by simp
  have trim: "strncpy_to 63 (pm_name pm) = pm_name pm" using name(2) by (simp add: strncpy_to_def)
  let ?t = "s\<lparr>points := (points s)[?j := ?p], write_seq := write_seq s + 2\<rparr>"
  have e: "irt_seqlock_write_end (?s1\<lparr>points := (points s)[?j := ?p]\<rparr>) (write_seq s) = ?t"
    using quiet(2) by (simp add: irt_seqlock_write_end_def)
  have "index_wf_ex (insert ?j {}) (s\<lparr>points := (points s)[?j := ?p]\<rparr>)"
  proof (rule index_set_point)
    show "index_wf_ex {} s" using wf by (simp add: index_wf_def)
    show "?j \<notin> reg_ids (points s) - {}" using pid(2) by (simp add: reg_ids_def)
    show "pkey (points s ! i) \<noteq> pkey ?p" if "i \<in> reg_ids (points s)" for i
      using fresh that unfolding name_map_eq_None_iff by (simp add: config_point_def pkey_def)
  qed (use pid name(2) in \<open>simp_all add: config_point_def\<close>)
  then have "index_wf_ex {?j} ((s\<lparr>points := (points s)[?j := ?p]\<rparr>)\<lparr>write_seq := write_seq s + 2\<rparr>)"
    using index_wf_ex_frame(3) by simp
  then have wf1: "index_wf_ex {?j} ?t" by simp
  have r: "?j \<in> reg_ids (points ?t)" "pkey (points ?t ! ?j) = (0, pm_name pm)"
    using pid(1) name(1) by (simp_all add: reg_ids_def config_point_def reg_def pkey_def)
  have lft: "lock_free ?t" using quiet add_two_even [of "write_seq s"] by (simp add: lock_free_def)
  from wf1 r show ?thesis
  proof (cases rule: index_insert_registered)
    case (free u)
    have u: "points u = points ?t" "lock_env u = []" "max_points u = max_points s" "metas u = metas s" "write_seq u = write_seq s + 2 + 2"
      by (subst free(4), simp add: quiet)+
    have "configure_loop 3 pm s = (None, True, u)"
      using free(2) e b quiet(2) trim
      by (simp add: numeral_3_eq_3 config_point_def Let_def irt_codes)
    then show ?thesis
      using u free(3) add_two_even [of "write_seq s + 2"] add_two_even [of "write_seq s"] quiet(2)
      by (intro exI [of _ u]) auto
  next
    case busy
    then show ?thesis using lft by simp
  qed
qed

section \<open>Loading a list of points\<close>

text \<open>
  A list of points without metadata that fits a handle: types and names are valid, ids are in range,
  distinct and free, names are distinct and unused in partition 0.
\<close>

definition plain_pm :: "irt_point_meta \<Rightarrow> bool" where
  "plain_pm pm \<longleftrightarrow> pm_type pm \<le> INDURTDB_TYPE_FLOAT \<and> pm_name pm \<noteq> [] \<and> length (pm_name pm) \<le> 63
     \<and> \<not> bad_value pm \<and> \<not> has_meta pm"

definition fits :: "u32 \<Rightarrow> indurtdb \<Rightarrow> irt_point_meta list \<Rightarrow> bool" where
  "fits N h pms \<longleftrightarrow> (\<forall>pm \<in> set pms. plain_pm pm \<and> pm_id pm < N \<and> \<not> reg (points (h_shm h) ! unat (pm_id pm))
        \<and> dir_map h (0, pm_name pm) = None)
     \<and> distinct (map pm_id pms) \<and> distinct (map pm_name pms)"

definition entries_of :: "irt_point_meta list \<Rightarrow> ((u32 \<times> string) \<times> u32) list" where
  "entries_of pms = map (\<lambda>pm. ((0, pm_name pm), pm_id pm)) pms"

text \<open>What the loaded handle holds.\<close>

definition loaded :: "u32 \<Rightarrow> indurtdb \<Rightarrow> irt_point_meta list \<Rightarrow> indurtdb \<Rightarrow> bool" where
  "loaded N h pms h' \<longleftrightarrow> dir_inv N h' \<and> quiet_handle h' \<and> dir_map h' = dir_map h ++ map_of (entries_of pms)
     \<and> (\<forall>pm \<in> set pms. points (h_shm h') ! unat (pm_id pm) = config_point (points (h_shm h) ! unat (pm_id pm)) pm)
     \<and> (\<forall>j. j \<notin> pm_id ` set pms \<longrightarrow> points (h_shm h') ! unat j = points (h_shm h) ! unat j)
     \<and> metas (h_shm h') = metas (h_shm h)"

lemma load_points_fits:
  "dir_inv N h \<Longrightarrow> quiet_handle h \<Longrightarrow> fits N h pms \<Longrightarrow> \<exists>h'. load_points pms (0, h) = (0, h') \<and> loaded N h pms h'"
proof (induction pms arbitrary: h)
  case Nil
  then show ?case by (simp add: loaded_def entries_of_def)
next
  case (Cons pm pms)
  let ?s = "h_shm h" and ?p = "config_point (points (h_shm h) ! unat (pm_id pm)) pm"
  note inv = dir_invD [OF Cons.prems(1)]
  have pm: "plain_pm pm" "pm_id pm < N" "\<not> reg (points ?s ! unat (pm_id pm))" "name_map ?s (0, pm_name pm) = None"
    using Cons.prems(3) by (auto simp: fits_def dir_map_def)
  have name: "pm_name pm \<noteq> []" "length (pm_name pm) \<le> 63" using pm(1) by (simp_all add: plain_pm_def)
  have pl: "unat (pm_id pm) < length (points ?s)" using pm(2) inv(6) by (simp add: word_less_nat_alt)
  have q: "lock_env ?s = []" using Cons.prems(2) by (simp add: quiet_handle_def)
  obtain t where t: "configure_loop 3 pm ?s = (None, True, t)" "index_wf t" "points t = (points ?s)[unat (pm_id pm) := ?p]"
      "lock_env t = []" "write_seq t AND 1 = 0" "max_points t = max_points ?s" "metas t = metas ?s"
    using configure_free [OF inv(2) q inv(5) pl pm(3) name pm(4)] by blast
  let ?h = "h\<lparr>h_shm := t\<rparr>"
  have inv': "dir_inv N ?h" "quiet_handle ?h" using t inv by (simp_all add: dir_inv_def quiet_handle_def)
  have "name_map t = (name_map ?s)(pkey ?p \<mapsto> pm_id pm)"
    by (rule name_map_set [OF inv(2) t(2,3) pl]) (use name(1) pm(3) in \<open>simp_all add: reg_def config_point_def\<close>)
  then have dm: "dir_map ?h = (dir_map h)((0, pm_name pm) \<mapsto> pm_id pm)"
    by (simp add: dir_map_def pkey_def config_point_def)
  have other: "points t ! unat j = points ?s ! unat j" if "j \<noteq> pm_id pm" for j
    using that by (simp add: t(3) word_unat_eq_iff)
  have "fits N ?h pms"
    using Cons.prems(3) other by (auto simp: fits_def dm) (metis image_eqI)+
  from Cons.IH [OF inv' this] obtain h' where h': "load_points pms (0, ?h) = (0, h')" "loaded N ?h pms h'" by blast
  have "load_points (pm # pms) (0, h) = load_points pms (0, ?h)"
    using pm(1,2) t(1) inv(4)
    by (auto simp: plain_pm_def configure_meta_def IRT_SEQLOCK_MAX_RETRY_def)
  moreover have "loaded N h (pm # pms) h'"
  proof -
    have d: "pm_id pm \<notin> pm_id ` set pms" "(0, pm_name pm) \<notin> dom (map_of (entries_of pms))"
      using Cons.prems(3) by (auto simp: fits_def entries_of_def dom_map_of_conv_image_fst)
    then have "dir_map h' = dir_map h ++ map_of (entries_of (pm # pms))"
      using h'(2) by (simp add: loaded_def dm entries_of_def map_add_upd_left)
    moreover have "points (h_shm h') ! unat (pm_id pm) = ?p"
      using h'(2) d(1) pl by (simp add: loaded_def t(3))
    moreover have "points (h_shm h') ! unat (pm_id x) = config_point (points ?s ! unat (pm_id x)) x" if "x \<in> set pms" for x
      using h'(2) that d(1) other [of "pm_id x"] by (auto simp: loaded_def) (metis image_eqI)
    ultimately show ?thesis using h'(2) other t(7) by (auto simp: loaded_def)
  qed
  ultimately show ?case using h'(1) by auto
qed

section \<open>The text of a configuration\<close>

lemma digit_not_space: "is_digit 10 c \<Longrightarrow> \<not> isspace c"
  by (auto simp: is_digit_def digit_val_def code_def isspace_def)

lemma digit_not_sign: "is_digit 10 c \<Longrightarrow> c \<noteq> CHR ''-'' \<and> c \<noteq> CHR ''+'' \<and> c \<noteq> CHR 0x22 \<and> c \<noteq> CHR 0x27"
  by (auto simp: is_digit_def digit_val_def code_def)

lemma digits_val_dec: "digits_val 10 (dec_digits n) = n"
proof (induction n rule: dec_digits.induct)
  case (1 n)
  have v: "digit_val (char_of (k + 48)) = Some k" if "k < 10" for k
    using that digit_char [OF that] by (simp add: digit_val_def code_zero code_def)
  show ?case
  proof (cases "n < 10")
    case True
    then show ?thesis by (subst dec_digits.simps) (simp add: digits_val_def v)
  next
    case False
    then have "fold (\<lambda>c n. n * 10 + the (digit_val c)) (dec_digits (n div 10)) 0 = n div 10"
      using 1 by (simp add: digits_val_def)
    then show ?thesis using False by (subst dec_digits.simps) (simp add: digits_val_def v)
  qed
qed

lemma strtoul_dec:
  assumes "n < 2 ^ 64"
  shows "su_value (c_strtoul (dec_digits n) 10) = word_of_nat n"
proof -
  let ?d = "dec_digits n"
  have d: "is_digit 10 c" if "c \<in> set ?d" for c using dec_digits_digits that by blast
  have ws: "dropWhile isspace ?d = ?d" by (rule dropWhile_none) (use d digit_not_space in blast)
  have h: "hd ?d \<noteq> CHR ''-''" "hd ?d \<noteq> CHR ''+''" using d [of "hd ?d"] digit_not_sign by auto
  have t: "takeWhile (is_digit 10) ?d = ?d" using d by (simp add: takeWhile_eq_all_conv)
  show ?thesis using assms by (simp add: c_strtoul_def ws h t Let_def digits_val_dec)
qed

lemma fgets_lines_text:
  assumes "\<And>w. w \<in> set ws \<Longrightarrow> CHR 0x0A \<notin> set w \<and> length w + 1 < n"
  shows "fgets_lines n (concat (map (\<lambda>w. w @ [CHR 0x0A]) ws)) = map (\<lambda>w. w @ [CHR 0x0A]) ws"
  using assms
proof (induction ws)
  case Nil
  then show ?case by (simp add: fgets_lines.simps)
next
  case (Cons w ws)
  let ?r = "concat (map (\<lambda>w. w @ [CHR 0x0A]) ws)"
  have w: "CHR 0x0A \<notin> set w" "length w + 1 < n" using Cons.prems [of w] by auto
  have n: "\<not> n \<le> Suc 0" using w(2) by linarith
  have "fgets_lines n (w @ CHR 0x0A # ?r) = (w @ [CHR 0x0A]) # fgets_lines n ?r"
    by (subst fgets_lines.simps) (simp add: fgets_piece_line [OF w] n Let_def)
  then show ?case using Cons by simp
qed

text \<open>A value that the reader takes over as it is: no blank and no quote at its ends.\<close>

definition plain_value :: "string \<Rightarrow> bool" where
  "plain_value v \<longleftrightarrow> v \<noteq> [] \<and> length v \<le> 63 \<and> CHR 0x0A \<notin> set v \<and> \<not> isspace (hd v) \<and> \<not> isspace (last v)
     \<and> hd v \<noteq> CHR 0x22 \<and> hd v \<noteq> CHR 0x27"

lemma plain_value_dec: "n < 10 ^ 63 \<Longrightarrow> plain_value (dec_digits n)"
  using dec_digits_digits [of "hd (dec_digits n)" n] dec_digits_digits [of "last (dec_digits n)" n]
    digit_not_space digit_not_sign dec_digits_length [of n 63] dec_digits_digits [of "CHR 0x0A" n]
  by (auto simp: plain_value_def isspace_def)

lemma trim_line:
  assumes "w \<noteq> []" "\<not> isspace (hd w)" "\<not> isspace (last w)"
  shows "yaml_trim w = w" "yaml_trim (w @ [CHR 0x0A]) = w" "yaml_trim (CHR '' '' # w) = w"
    "yaml_trim (CHR '' '' # CHR '' '' # w @ [CHR 0x0A]) = w"
proof -
  have d: "dropWhile isspace (w @ x) = w @ x" for x using assms(1,2) by (cases w) simp_all
  have r: "dropWhile isspace (rev w) = rev w" using assms(1,3) by (cases w rule: rev_cases) simp_all
  have s: "isspace CHR '' ''" "isspace CHR 0x0A" by (simp_all add: isspace_def)
  show "yaml_trim w = w" "yaml_trim (w @ [CHR 0x0A]) = w" "yaml_trim (CHR '' '' # w) = w"
    "yaml_trim (CHR '' '' # CHR '' '' # w @ [CHR 0x0A]) = w"
    using d [of "[]"] d [of "[CHR 0x0A]"] by (simp_all add: yaml_trim_def rtrim_def r s)
qed

lemma plain_value_read:
  assumes "plain_value v"
  shows "yaml_strip_quotes (yaml_trim (take 127 (CHR '' '' # v))) = v"
  using assms trim_line [of v] by (simp add: plain_value_def yaml_strip_quotes_def)

definition field_text :: "string \<Rightarrow> string \<Rightarrow> string" where
  "field_text key v = key @ '': '' @ v"

definition yaml_keys :: "string list" where
  "yaml_keys = [''id'', ''name'', ''type'', ''unit'', ''access'']"

lemma parse_field_text:
  assumes "key \<in> set yaml_keys" "plain_value v"
  shows "yaml_parse_kv (field_text key v) 64 128 = Some (key, v)"
proof -
  have k: "CHR '':'' \<notin> set key" "length key \<le> 63" "key \<noteq> []" "\<not> isspace (hd key)" "\<not> isspace (last key)"
    using assms(1) by (auto simp: yaml_keys_def isspace_def)
  have tw: "takeWhile (\<lambda>c. c \<noteq> CHR '':'') (field_text key v) = key"
    unfolding field_text_def using k(1) by (subst takeWhile_append2) auto
  have dw: "dropWhile (\<lambda>c. c \<noteq> CHR '':'') (field_text key v) = '': '' @ v"
    unfolding field_text_def using k(1) by (subst dropWhile_append2) auto
  have "rtrim key = key" using k(3,5) by (cases key rule: rev_cases) (simp_all add: rtrim_def)
  moreover have "\<not> list_all isspace key" using k(3,4) by (cases key) simp_all
  moreover have "CHR '':'' \<in> set (field_text key v)" by (simp add: field_text_def)
  ultimately show ?thesis
    using k(2) plain_value_read [OF assms(2)] by (simp add: yaml_parse_kv_def tw dw)
qed

lemma yaml_line_field:
  assumes "key \<in> set yaml_keys" "plain_value v" "in_points st"
  shows "yaml_line (''  '' @ field_text key v @ [CHR 0x0A]) st = st\<lparr>cur_point := yaml_field key v (cur_point st)\<rparr>"
proof -
  have v: "v \<noteq> []" "\<not> isspace (last v)" using assms(2) by (simp_all add: plain_value_def)
  have t: "yaml_trim (''  '' @ field_text key v @ [CHR 0x0A]) = field_text key v"
    using trim_line(4) [of "field_text key v"] assms(1) v
    by (auto simp: field_text_def yaml_keys_def isspace_def)
  have k: "field_text key v \<noteq> []" "hd (field_text key v) \<noteq> CHR ''#''" "hd (field_text key v) \<noteq> CHR ''-''"
    "\<not> strncmp_eq 7 (field_text key v) ''points:''"
    using assms(1) by (auto simp: field_text_def yaml_keys_def strncmp_eq_def)
  have "field_text key v ! 0 \<noteq> CHR ''-''" using k(1,3) by (simp add: hd_conv_nth)
  then show ?thesis
    unfolding yaml_line_def t using k assms(3) parse_field_text [OF assms(1,2)] by simp
qed

lemma yaml_line_item:
  assumes "plain_value v" "in_points st"
  shows "yaml_line (''- '' @ field_text ''id'' v @ [CHR 0x0A]) st =
    (yaml_push st)\<lparr>cur_point := yaml_field ''id'' v zero_pm\<rparr>"
proof -
  have v: "v \<noteq> []" "\<not> isspace (last v)" using assms(1) by (simp_all add: plain_value_def)
  have t: "yaml_trim (''- '' @ field_text ''id'' v @ [CHR 0x0A]) = ''- '' @ field_text ''id'' v"
    using trim_line(2) [of "''- '' @ field_text ''id'' v"] v by (simp add: field_text_def isspace_def)
  have "in_points (yaml_push st)" using assms(2) by (simp add: yaml_push_def)
  then show ?thesis
    unfolding yaml_line_def t using assms parse_field_text [of "''id''" v]
    by (simp add: field_text_def yaml_keys_def strncmp_eq_def)
qed

definition type_text :: "u8 \<Rightarrow> string" where
  "type_text t =
     (if t = INDURTDB_TYPE_BOOL then ''bool'' else if t = INDURTDB_TYPE_INT32 then ''int32''
      else if t = INDURTDB_TYPE_DOUBLE then ''double'' else if t = INDURTDB_TYPE_STRING then ''string''
      else if t = INDURTDB_TYPE_INT64 then ''int64'' else ''uint32'')"

definition point_text :: "irt_point_meta \<Rightarrow> string list" where
  "point_text pm =
     [''- '' @ field_text ''id'' (dec_digits (unat (pm_id pm))),
      ''  '' @ field_text ''name'' (pm_name pm),
      ''  '' @ field_text ''type'' (type_text (pm_type pm)),
      ''  '' @ field_text ''unit'' (dec_digits (unat (pm_unit pm))),
      ''  '' @ field_text ''access'' (dec_digits (unat (pm_access pm)))]"

definition yaml_text :: "irt_point_meta list \<Rightarrow> string" where
  "yaml_text pms = concat (map (\<lambda>w. w @ [CHR 0x0A]) (''points:'' # concat (map point_text pms)))"

text \<open>The points that the file format can say: every type but FLOAT, which has no word of its own.\<close>

definition yaml_point :: "irt_point_meta \<Rightarrow> bool" where
  "yaml_point pm \<longleftrightarrow> plain_value (pm_name pm) \<and> pm_type pm < INDURTDB_TYPE_FLOAT \<and>
     pm = zero_pm\<lparr>pm_id := pm_id pm, pm_type := pm_type pm, pm_unit := pm_unit pm, pm_access := pm_access pm, pm_name := pm_name pm\<rparr>"


lemma type_text_facts:
  assumes "t < INDURTDB_TYPE_FLOAT"
  shows "irt_config_parse_type (type_text t) = t" "plain_value (type_text t)"
proof -
  have n: "unat t < 6" using assms by (simp add: INDURTDB_TYPE_FLOAT_def word_less_nat_alt)
  then have "unat t \<in> {0, 1, 2, 3, 4, 5}" by auto
  then have t: "t = 0 \<or> t = 1 \<or> t = 2 \<or> t = 3 \<or> t = 4 \<or> t = 5"
    by (auto simp: word_unat_eq_iff)
  show "irt_config_parse_type (type_text t) = t" "plain_value (type_text t)"
    using t by (auto simp: type_text_def irt_config_parse_type_def plain_value_def isspace_def point_type_defs)
qed

lemma point_text_lines:
  assumes "yaml_point pm" "w \<in> set (point_text pm)"
  shows "CHR 0x0A \<notin> set w \<and> length w + 1 < 512"
proof -
  have u: "unat (pm_id pm) < 2 ^ 32" "unat (pm_unit pm) < 2 ^ 16" "unat (pm_access pm) < 2 ^ 8"
    using unsigned_less [of "pm_id pm", where ?'a = nat] unsigned_less [of "pm_unit pm", where ?'a = nat]
      unsigned_less [of "pm_access pm", where ?'a = nat] by simp_all
  have "plain_value (dec_digits (unat (pm_id pm)))" "plain_value (dec_digits (unat (pm_unit pm)))"
    "plain_value (dec_digits (unat (pm_access pm)))" "plain_value (pm_name pm)" "plain_value (type_text (pm_type pm))"
    using u assms(1) type_text_facts [of "pm_type pm"] by (auto simp: yaml_point_def intro!: plain_value_dec)
  then show ?thesis using assms(2) by (auto simp: point_text_def field_text_def plain_value_def)
qed

lemma yaml_point_lines:
  assumes "yaml_point pm" "in_points st"
  shows "fold yaml_line (map (\<lambda>w. w @ [CHR 0x0A]) (point_text pm)) st = (yaml_push st)\<lparr>cur_point := pm\<rparr>"
proof -
  have u: "unat (pm_id pm) < 2 ^ 32" "unat (pm_unit pm) < 2 ^ 16" "unat (pm_access pm) < 2 ^ 8"
    using unsigned_less [of "pm_id pm", where ?'a = nat] unsigned_less [of "pm_unit pm", where ?'a = nat]
      unsigned_less [of "pm_access pm", where ?'a = nat] by simp_all
  have v: "plain_value (dec_digits (unat (pm_id pm)))" "plain_value (dec_digits (unat (pm_unit pm)))"
    "plain_value (dec_digits (unat (pm_access pm)))" "plain_value (pm_name pm)" "plain_value (type_text (pm_type pm))"
    using u assms(1) type_text_facts [of "pm_type pm"] by (auto simp: yaml_point_def intro!: plain_value_dec)
  have ty: "pm_type pm < INDURTDB_TYPE_FLOAT" using assms(1) by (simp add: yaml_point_def)
  have ip: "in_points (yaml_push st)" using assms(2) by (simp add: yaml_push_def)
  have k: "''name'' \<in> set yaml_keys" "''type'' \<in> set yaml_keys" "''unit'' \<in> set yaml_keys" "''access'' \<in> set yaml_keys"
    by (simp_all add: yaml_keys_def)
  note f = yaml_line_field [OF k(1) v(4)] yaml_line_field [OF k(2) v(5)] yaml_line_field [OF k(3) v(2)]
    yaml_line_field [OF k(4) v(3)]
  have n: "ucast (su_value (c_strtoul (dec_digits (unat (pm_id pm))) 10)) = pm_id pm"
    "ucast (su_value (c_strtoul (dec_digits (unat (pm_unit pm))) 10)) = pm_unit pm"
    "ucast (su_value (c_strtoul (dec_digits (unat (pm_access pm))) 10)) = pm_access pm"
    using u by (simp_all add: strtoul_dec bit_eq_iff bit_simps)
  have "fold yaml_line (map (\<lambda>w. w @ [CHR 0x0A]) (point_text pm)) st =
    (yaml_push st)\<lparr>cur_point := yaml_field ''access'' (dec_digits (unat (pm_access pm)))
       (yaml_field ''unit'' (dec_digits (unat (pm_unit pm))) (yaml_field ''type'' (type_text (pm_type pm))
         (yaml_field ''name'' (pm_name pm) (yaml_field ''id'' (dec_digits (unat (pm_id pm))) zero_pm))))\<rparr>"
    using yaml_line_item [OF v(1) assms(2)] f ip by (simp add: point_text_def)
  also have "yaml_field ''access'' (dec_digits (unat (pm_access pm)))
       (yaml_field ''unit'' (dec_digits (unat (pm_unit pm))) (yaml_field ''type'' (type_text (pm_type pm))
         (yaml_field ''name'' (pm_name pm) (yaml_field ''id'' (dec_digits (unat (pm_id pm))) zero_pm)))) =
    zero_pm\<lparr>pm_id := pm_id pm, pm_type := pm_type pm, pm_unit := pm_unit pm, pm_access := pm_access pm, pm_name := pm_name pm\<rparr>"
    using n v(4) ty by (simp add: yaml_field_def type_text_facts plain_value_def)
  also have "\<dots> = pm" using assms(1) by (simp add: yaml_point_def)
  finally show ?thesis .
qed

lemma yaml_fold_points:
  assumes "list_all yaml_point pms" "in_points st"
  shows "done_points (yaml_push (fold yaml_line (map (\<lambda>w. w @ [CHR 0x0A]) (concat (map point_text pms))) st))
    = done_points (yaml_push st) @ pms"
  using assms
proof (induction pms arbitrary: st)
  case (Cons pm pms)
  have pm: "yaml_point pm" using Cons.prems by simp
  have "in_points ((yaml_push st)\<lparr>cur_point := pm\<rparr>)" using Cons.prems(2) by (simp add: yaml_push_def)
  then have "done_points (yaml_push (fold yaml_line (map (\<lambda>w. w @ [CHR 0x0A]) (concat (map point_text pms)))
      ((yaml_push st)\<lparr>cur_point := pm\<rparr>))) = done_points (yaml_push ((yaml_push st)\<lparr>cur_point := pm\<rparr>)) @ pms"
    using Cons.IH Cons.prems(1) by simp
  moreover have "done_points (yaml_push ((yaml_push st)\<lparr>cur_point := pm\<rparr>)) = done_points (yaml_push st) @ [pm]"
    using pm by (simp add: yaml_push_def yaml_point_def plain_value_def)
  ultimately show ?case using yaml_point_lines [OF pm Cons.prems(2)] by simp
qed simp

lemma parse_yaml_text:
  assumes "list_all yaml_point pms"
  shows "irt_point_config_parse_yaml (Some (yaml_text pms)) = (int (length pms), pms)"
proof -
  let ?ws = "''points:'' # concat (map point_text pms)"
  let ?st = "\<lparr>in_points = False, cur_point = zero_pm, done_points = []\<rparr>"
  have "CHR 0x0A \<notin> set w \<and> length w + 1 < 512" if "w \<in> set ?ws" for w
    using that assms point_text_lines by (auto simp: list_all_iff)
  then have l: "fgets_lines 512 (yaml_text pms) = map (\<lambda>w. w @ [CHR 0x0A]) ?ws"
    unfolding yaml_text_def by (rule fgets_lines_text)
  have "yaml_line (''points:'' @ [CHR 0x0A]) ?st = ?st\<lparr>in_points := True\<rparr>"
    using trim_line(2) [of "''points:''"] by (simp add: yaml_line_def isspace_def strncmp_eq_def)
  then show ?thesis
    using yaml_fold_points [OF assms, of "?st\<lparr>in_points := True\<rparr>"]
    by (simp add: irt_point_config_parse_yaml_def l yaml_push_def zero_pm_def)
qed

section \<open>The property\<close>

text \<open>
  C17. Loading a configuration file registers what it says. For every list of points that fits the
  handle (ids in range, distinct and free; names distinct and unused in partition 0) and is written
  in the format of the file, \<open>indurtdb_h_load_config\<close> on a quiet well-formed handle returns 0, the
  directory gains exactly these names with their ids, each configured record has the type, unit,
  access and name of its entry and otherwise what it had, all other records and the metadata stay,
  and the name index is well formed again.
\<close>

theorem config_file_registers_points:
  assumes "dir_inv N h" "quiet_handle h" "list_all yaml_point pms" "fits N h pms"
  shows "\<exists>h'. indurtdb_h_load_config h (Some (yaml_text pms)) = (0, h') \<and> loaded N h pms h'"
proof -
  note inv = dir_invD [OF assms(1)]
  have "shm_wf (h_shm h)" using inv(7) by (simp only: index_wf_ex_def)
  then have "off_points (h_shm h) \<noteq> 0" "s_max_points (h_shm h) \<noteq> 0" by (auto simp: shm_wf_def)
  then have "indurtdb_h_load_config h (Some (yaml_text pms)) = load_points pms (0, h)"
    using inv(1) parse_yaml_text [OF assms(3)] by (simp add: indurtdb_h_load_config_def ensure_h_def)
  then show ?thesis using load_points_fits [OF assms(1,2,4)] by simp
qed

definition demo_pms :: "irt_point_meta list" where
  "demo_pms = [zero_pm\<lparr>pm_id := 3, pm_type := 2, pm_unit := 7, pm_access := 3, pm_name := ''boiler 1: temp''\<rparr>,
     zero_pm\<lparr>pm_id := 0, pm_type := 4, pm_access := 1, pm_name := ''hours''\<rparr>]"

theorem config_file_registers_points_witness:
  "\<exists>h'. indurtdb_h_load_config demo_handle (Some (yaml_text demo_pms)) = (0, h') \<and> loaded 4 demo_handle demo_pms h'"
proof (rule config_file_registers_points)
  show "list_all yaml_point demo_pms"
    by (simp add: demo_pms_def yaml_point_def plain_value_def isspace_def point_type_defs)
  show "fits 4 demo_handle demo_pms"
    using demo_handle_inv
    by (simp add: demo_pms_def fits_def plain_pm_def point_type_defs zero_pm_def)
      (simp add: demo_handle_def fresh_shm_fields reg_def zero_point_def)
qed (use demo_handle_inv in simp_all)


section \<open>Configurations that the reader takes differently from what they say\<close>

text \<open>
  An entry whose id is not a number is not skipped, as the comment beside the test says, but becomes
  an entry of point 0.
\<close>

lemma bad_id_becomes_point_0:
  "irt_point_config_parse_yaml (Some (''points:'' @ CHR 0x0A # ''- id: abc'' @ CHR 0x0A # ''  name: x''))
    = (1, [zero_pm\<lparr>pm_name := ''x''\<rparr>])"
  by code_simp

text \<open>
  Loading another name for a registered id leaves the slot of the old name in the index: two slots
  are counted for one point.
\<close>

lemma reload_other_name_keeps_slot:
  "(let s0 = \<lparr>magic = IRT_MAGIC, version = 3, max_points = 4, max_subscribers = 0, write_seq = 0,
       owner_pid = 1, st_writes = 0, st_timeouts = 0, hdr_crc32 = 0, hdr_flags = 0,
       reserved_scan = 0, off_points = 128, off_index = 640, off_meta = 704, off_subs = 832,
       index_count = 0, scan_skipped = 0, points = [zero_point, zero_point, zero_point, zero_point],
       slots = replicate 8 \<lparr>sl_hash = 0, sl_pid = IRT_INDEX_EMPTY\<rparr>,
       metas = [], subs = [], s_max_points = 4, s_max_subscribers = 0, lock_env = []\<rparr>;
        pm = zero_pm\<lparr>pm_id := 1, pm_name := ''a''\<rparr>;
        s = snd (snd (configure_loop 3 (pm\<lparr>pm_name := ''b''\<rparr>) (snd (snd (configure_loop 3 pm s0)))))
    in (index_count s, length (filter (\<lambda>sl. sl_pid sl = 1) (slots s)), map pt_name (points s)))
   = (2, 2, [[], ''b'', [], []])"
  by code_simp

end
