(* ===== verification/Delta_Recovery.thy ===== *)
theory Delta_Recovery
  imports Directory Server_Props Daemon
begin

text \<open>
  The change log end to end: what creating, deleting and renaming points append through
  \<open>delta_log\<close> (\<^verbatim>\<open>src/api/indurtdb.c\<close>) and \<^verbatim>\<open>src/core/irt_delta.c\<close>, and what the daemon gets back
  when it replays the log at its start (\<open>data_phase\<close>, \<^verbatim>\<open>rtdbd.c\<close>). A start on a fresh segment
  recovers the directory that the commands built, over any number of restarts and with a torn last
  record; a start on a segment that was kept does not.
\<close>

section \<open>The types and access modes of the points\<close>

definition kinds :: "indurtdb \<Rightarrow> (u8 \<times> u8) list" where
  "kinds h = map (\<lambda>p. (pt_type p, access p)) (points (h_shm h))"

text \<open>A directory with what a client knows of each point: id, type and access mode.\<close>

definition dir_defs :: "indurtdb \<Rightarrow> u32 \<times> string \<Rightarrow> (u32 \<times> u8 \<times> u8) option" where
  "dir_defs h k = map_option (\<lambda>pid. (pid, kinds h ! unat pid)) (dir_map h k)"

lemma map_update_same: "f y = f (xs ! i) \<Longrightarrow> map f (xs[i := y]) = map f xs"
  by (cases "i < length xs") (simp_all add: map_update list_update_beyond, metis list_update_id map_update)

lemma kinds_set_error [simp]: "kinds (set_error h m) = kinds h"
  by (simp add: kinds_def)

lemma kinds_cong: "points (h_shm h') = points (h_shm h) \<Longrightarrow> kinds h' = kinds h"
  by (simp add: kinds_def)

abbreviation kind_of :: "point \<Rightarrow> u8 \<times> u8" where
  "kind_of \<equiv> \<lambda>p. (pt_type p, access p)"

lemma insert_locked_kinds:
  "map kind_of (points (snd (irt_index_insert_locked s part name pid))) = map kind_of (points s)"
  by (simp add: irt_index_insert_locked_def Let_def map_update_same split: sum.split insert_dest.split)

lemma insert_kinds: "map kind_of (points (snd (irt_index_insert s part name pid))) = map kind_of (points s)"
  using insert_locked_kinds [of "snd (irt_seqlock_write_begin s)" part name pid]
  by (auto simp: irt_index_insert_def irt_seqlock_write_end_def write_begin_frame(1) Let_def split: prod.split
      dest: write_begin_pairD)

lemma delta_log_kinds [simp]: "kinds (delta_log h op pid ty acc name) = kinds h"
  by (simp add: kinds_def)

lemma remove_locked_points: "irt_index_remove_locked s part name = (rc, t) \<Longrightarrow> points t = points s"
  by (auto simp: irt_index_remove_locked_def Let_def split: if_splits sum.splits option.splits)

lemma insert_locked_pairD:
  "irt_index_insert_locked s part name pid = (rc, t) \<Longrightarrow> map kind_of (points t) = map kind_of (points s)"
  using insert_locked_kinds [of s part name pid] by simp

lemma insert_pairD:
  "irt_index_insert s part name pid = (rc, t) \<Longrightarrow> map kind_of (points t) = map kind_of (points s)"
  using insert_kinds [of s part name pid] by simp

lemmas step_pairD = lock_retry_pairD remove_locked_points insert_locked_pairD insert_pairD

lemma delete_kinds: "kinds (snd (indurtdb_h_delete_point_in h part pid)) = kinds h"
  by (auto simp: indurtdb_h_delete_point_in_def ensure_h_def kinds_def Let_def map_update_same
      split: prod.split dest!: step_pairD)

lemma rename_body_kinds: "kinds (snd (rename_body h part pid name)) = kinds h"
  by (auto simp: rename_body_def kinds_def Let_def map_update_same split: prod.split dest!: step_pairD)

lemma rename_kinds: "kinds (snd (indurtdb_h_rename_point_in d h part pid name)) = kinds h"
  by (simp add: indurtdb_h_rename_point_in_def ensure_h_def rename_body_kinds split: prod.split)

lemma rollback_kinds: "map kind_of (points (create_rollback s pid)) = map kind_of (points s)"
  by (auto simp: create_rollback_def Let_def map_update_same split: prod.split dest!: step_pairD)

lemma create_body_kinds:
  assumes "create_body h part pid name ty acc = (rc, h')"
  shows "kinds h' = (kinds h)[unat pid := (word_of_int ty, word_of_int acc)]
    \<or> rc \<noteq> 0 \<and> kinds h' = kinds h"
    "rc \<noteq> 0 \<Longrightarrow> reg (points (h_shm h) ! unat pid) \<Longrightarrow> kinds h' = kinds h"
  using assms
  by (auto simp: create_body_def kinds_def Let_def h_point_register_def map_update rollback_kinds reg_def irt_codes
      split: prod.splits if_splits dest!: step_pairD)

lemma create_kinds:
  assumes "indurtdb_h_create_point_in d h part pid name ty acc = (rc, h')"
  shows "rc = 0 \<Longrightarrow> kinds h' = (kinds h)[unat pid := (word_of_int ty, word_of_int acc)]"
    "rc \<noteq> 0 \<Longrightarrow> reg (points (h_shm h) ! i) \<Longrightarrow> kinds h' ! i = kinds h ! i"
proof -
  have body: "create_body h part pid name ty acc = (rc, h') \<or> rc \<noteq> 0 \<and> kinds h' = kinds h"
    using assms by (auto simp: indurtdb_h_create_point_in_def ensure_h_def irt_codes split: prod.splits if_splits)
  then show "rc = 0 \<Longrightarrow> kinds h' = (kinds h)[unat pid := (word_of_int ty, word_of_int acc)]"
    using create_body_kinds(1) by blast
  assume rc: "rc \<noteq> 0" and reg: "reg (points (h_shm h) ! i)"
  show "kinds h' ! i = kinds h ! i"
  proof (cases "create_body h part pid name ty acc = (rc, h')")
    case True
    show ?thesis
      using create_body_kinds [OF True] rc reg by (cases "i = unat pid") auto
  qed (use body in simp)
qed

section \<open>Steps of the directory on definitions\<close>

text \<open>Two handles with the same definitions have them after the same command, however its reads are disturbed.\<close>

primrec undisturbed :: "dir_cmd \<Rightarrow> dir_cmd" where
  "undisturbed (Create d part pid name ty acc) = Create 0 part pid name ty acc"
| "undisturbed (Delete part pid) = Delete part pid"
| "undisturbed (Rename d part pid name) = Rename 0 part pid name"
| "undisturbed (Find d part name) = Find 0 part name"

lemma spec_undisturbed: "dir_spec N (undisturbed c) m = dir_spec N c m"
  by (cases c) simp_all

lemma admissible_undisturbed: "dir_admissible c \<Longrightarrow> dir_admissible (undisturbed c)"
  by (cases c) simp_all

lemma dir_defs_map: "dir_map h = (\<lambda>k. map_option fst (dir_defs h k))"
  by (rule ext) (simp add: dir_defs_def option.map_comp o_def option.map_ident)

lemma dir_defs_kinds:
  assumes "dir_defs h = dir_defs g" "dir_map h k = Some pid"
  shows "kinds h ! unat pid = kinds g ! unat pid"
proof -
  have "dir_map g k = Some pid" using assms by (simp add: dir_defs_map)
  then show ?thesis using fun_cong [OF assms(1), of k] assms(2) by (simp add: dir_defs_def)
qed

lemma dir_defs_eqI:
  assumes "dir_map h = dir_map g" "\<And>k pid. dir_map h k = Some pid \<Longrightarrow> kinds h ! unat pid = kinds g ! unat pid"
  shows "dir_defs h = dir_defs g"
  using assms by (auto simp: dir_defs_def fun_eq_iff map_option_case split: option.split)

text \<open>What the specification maps after a command was mapped before it, or is the point it created.\<close>

lemma spec_range:
  assumes "snd (dir_spec N c m) k = Some pid" "\<nexists>k. m k = Some pid"
  obtains d part name ty acc where "c = Create d part pid name ty acc" "fst (fst (dir_spec N c m)) = 0"
proof -
  have no: "m k \<noteq> Some pid" "\<And>part. \<not> owns m part pid" using assms(2) unfolding owns_def by blast+
  show ?thesis
  proof (cases c)
    case (Create d part pid' name ty acc)
    have "pid' = pid" "fst (fst (dir_spec N c m)) = 0" using assms(1) no by (auto simp: Create split: if_splits)
    then show ?thesis using that Create by blast
  qed (use assms(1) no in \<open>auto simp: without_def split: if_splits option.splits\<close>)
qed

primrec new_kind :: "int \<Rightarrow> dir_cmd \<Rightarrow> u32 \<Rightarrow> u8 \<times> u8 \<Rightarrow> u8 \<times> u8" where
  "new_kind rc (Create d part pid name ty acc) j k =
     (if rc = 0 \<and> j = pid then (word_of_int ty, word_of_int acc) else k)"
| "new_kind rc (Delete part pid) j k = k"
| "new_kind rc (Rename d part pid name) j k = k"
| "new_kind rc (Find d part name) j k = k"

lemma new_kind_undisturbed: "new_kind rc (undisturbed c) j k = new_kind rc c j k"
  by (cases c) simp_all

lemma find_same: "snd (indurtdb_h_find_by_name_in d h part name) = h \<or>
    (\<exists>m. snd (indurtdb_h_find_by_name_in d h part name) = set_error h m)"
  by (auto simp: indurtdb_h_find_by_name_in_def split: prod.split)

lemma find_kinds: "kinds (snd (indurtdb_h_find_by_name_in d h part name)) = kinds h"
  using find_same [of d h part name] by (elim disjE exE) simp_all

lemma step_kinds:
  assumes "unat j < length (kinds h)" "reg (points (h_shm h) ! unat j) \<or> fst (fst (dir_step c h)) = 0"
  shows "kinds (snd (dir_step c h)) ! unat j = new_kind (fst (fst (dir_step c h))) c j (kinds h ! unat j)"
proof (cases c)
  case (Create d part pid name ty acc)
  obtain rc h' where s: "indurtdb_h_create_point_in d h part pid name ty acc = (rc, h')"
    by (cases "indurtdb_h_create_point_in d h part pid name ty acc")
  show ?thesis
    using create_kinds(1) [OF s] create_kinds(2) [OF s, of "unat j"] assms s
    by (cases "rc = 0") (auto simp: Create nth_list_update word_unat_eq_iff)
next
  case (Delete part pid)
  then show ?thesis using delete_kinds [of h part pid] by (simp add: split_beta)
next
  case (Rename d part pid name)
  then show ?thesis using rename_kinds [of d h part pid name] by (simp add: split_beta)
next
  case (Find d part name)
  then show ?thesis using find_kinds [of d h part name] by simp
qed

definition quiet_dir :: "u32 \<Rightarrow> indurtdb \<Rightarrow> bool" where
  "quiet_dir N h \<longleftrightarrow> dir_inv N h \<and> quiet_handle h"

lemma quiet_dir_step:
  assumes "quiet_dir N h" "dir_admissible c"
  shows "quiet_dir N (snd (dir_step c h))"
    "fst (dir_step c h) = fst (dir_spec N c (dir_map h))"
    "dir_map (snd (dir_step c h)) = snd (dir_spec N c (dir_map h))"
  using dir_step_refines [of N h c] assms by (simp_all add: quiet_dir_def)

lemma kinds_length: "quiet_dir N h \<Longrightarrow> length (kinds h) = unat N"
  by (simp add: kinds_def quiet_dir_def dir_invD(6))

lemma mapped_range:
  assumes "quiet_dir N h" "dir_map h k = Some pid"
  shows "pid < N" "reg (points (h_shm h) ! unat pid)"
proof -
  have "unat pid \<in> reg_ids (points (h_shm h))"
    using index_wf_name_map_iff [OF dir_invD(2), of N h k pid] assms by (simp add: quiet_dir_def dir_map_def)
  then show "pid < N" "reg (points (h_shm h) ! unat pid)"
    using assms(1) dir_invD(6) by (auto simp: quiet_dir_def reg_ids_def word_less_nat_alt)
qed

lemma dir_defs_step:
  assumes h: "quiet_dir N h" and g: "quiet_dir N g" and adm: "dir_admissible c"
    and same: "dir_defs h = dir_defs g"
  shows "dir_defs (snd (dir_step c h)) = dir_defs (snd (dir_step (undisturbed c) g))"
proof (rule dir_defs_eqI)
  let ?m = "dir_map h" and ?c = "undisturbed c"
  have m: "dir_map g = ?m" using same by (simp add: dir_defs_map)
  note sh = quiet_dir_step [OF h adm]
  note sg = quiet_dir_step [OF g admissible_undisturbed [OF adm], unfolded m spec_undisturbed]
  show "dir_map (snd (dir_step c h)) = dir_map (snd (dir_step ?c g))" using sh sg by simp
  fix k pid
  assume k: "dir_map (snd (dir_step c h)) k = Some pid"
  have "pid < N" using mapped_range(1) [OF sh(1) k] .
  then have len: "unat pid < length (kinds h)" "unat pid < length (kinds g)"
    using kinds_length [OF h] kinds_length [OF g] by (simp_all add: word_less_nat_alt)
  have rc: "fst (fst (dir_step ?c g)) = fst (fst (dir_step c h))" using sh(2) sg(2) by simp
  show "kinds (snd (dir_step c h)) ! unat pid = kinds (snd (dir_step ?c g)) ! unat pid"
  proof (cases "\<exists>k. ?m k = Some pid")
    case True
    then obtain k' where k': "?m k' = Some pid" by blast
    show ?thesis
      using step_kinds [OF len(1), of c] step_kinds [OF len(2), of ?c] rc new_kind_undisturbed
        mapped_range(2) [OF h k'] mapped_range(2) [OF g, unfolded m, OF k'] dir_defs_kinds [OF same k']
      by simp
  next
    case False
    have "snd (dir_spec N c ?m) k = Some pid" using k sh(3) by simp
    then obtain d part name ty acc where c: "c = Create d part pid name ty acc" "fst (fst (dir_spec N c ?m)) = 0"
      using spec_range False by metis
    then have "fst (fst (dir_step c h)) = 0" using sh(2) by simp
    then show ?thesis
      using step_kinds [OF len(1), of c] step_kinds [OF len(2), of ?c] rc by (simp add: c(1))
  qed
qed

lemma dir_defs_refused:
  assumes h: "quiet_dir N h" and adm: "dir_admissible c" and rc: "fst (fst (dir_step c h)) \<noteq> 0"
  shows "dir_defs (snd (dir_step c h)) = dir_defs h"
proof (rule dir_defs_eqI)
  note sh = quiet_dir_step [OF h adm]
  show m: "dir_map (snd (dir_step c h)) = dir_map h"
    using rc sh(2,3) by (cases c) (auto split: if_splits option.splits)
  fix k pid
  assume "dir_map (snd (dir_step c h)) k = Some pid"
  then have k: "dir_map h k = Some pid" using m by simp
  then have "unat pid < length (kinds h)"
    using mapped_range(1) [OF h] kinds_length [OF h] by (simp add: word_less_nat_alt)
  then show "kinds (snd (dir_step c h)) ! unat pid = kinds h ! unat pid"
    using step_kinds [of pid h c] mapped_range(2) [OF h k] rc by (cases c) simp_all
qed

section \<open>What a command appends\<close>

definition cmd_rec :: "u16 \<Rightarrow> u32 \<Rightarrow> u8 \<Rightarrow> u8 \<Rightarrow> string \<Rightarrow> irt_delta_rec" where
  "cmd_rec op pid ty acc name = \<lparr>d_magic = IRT_DELTA_MAGIC, d_version = IRT_DELTA_VERSION, d_op = op,
     d_point_id = pid, d_type = ty, d_access = acc, d_name = strncpy_to 63 name\<rparr>"

text \<open>The log of a handle: descriptor, contents, and that the appends succeed.\<close>

definition log_state :: "indurtdb \<Rightarrow> int \<times> u8 list \<times> (int \<times> bool) list" where
  "log_state h = (delta_fd h, delta_file h, delta_env h)"

definition logging :: "int \<Rightarrow> u8 list \<Rightarrow> indurtdb \<Rightarrow> bool" where
  "logging fd f h \<longleftrightarrow> log_state h = (fd, f, [])"

lemma log_state_simps [simp]: "log_state (set_error h m) = log_state h" "log_state (h\<lparr>h_shm := s\<rparr>) = log_state h"
  by (simp_all add: log_state_def set_error_def)

lemma delta_log_logging:
  assumes "0 \<le> fd" "logging fd f h"
  shows "logging fd (f @ delta_bytes (cmd_rec op pid ty acc name)) (delta_log h op pid ty acc name)"
  using assms
  by (simp add: logging_def log_state_def delta_log_def Let_def cmd_rec_def irt_delta_append_def)

lemma delta_log_off: "delta_fd h < 0 \<Longrightarrow> delta_log h op pid ty acc name = h"
  by (simp add: delta_log_def)

lemma create_log:
  assumes "indurtdb_h_create_point_in d h part pid name ty acc = (rc, h')"
  shows "rc \<noteq> 0 \<and> log_state h' = log_state h
    \<or> rc = 0 \<and> (\<exists>s. h' = delta_log (h\<lparr>h_shm := s\<rparr>) IRT_DELTA_OP_CREATE pid (word_of_int ty) (word_of_int acc) name)"
  using assms
  by (auto simp: indurtdb_h_create_point_in_def create_body_def ensure_h_def irt_codes Let_def
      split: prod.splits if_splits)

lemma delete_log:
  assumes "indurtdb_h_delete_point_in h part pid = (rc, h')"
  shows "rc \<noteq> 0 \<and> log_state h' = log_state h
    \<or> rc = 0 \<and> (\<exists>s. h' = delta_log (h\<lparr>h_shm := s\<rparr>) IRT_DELTA_OP_DELETE pid 0 0 [])"
  using assms
  by (auto simp: indurtdb_h_delete_point_in_def ensure_h_def irt_codes Let_def split: prod.splits if_splits)

lemma rename_log:
  assumes "indurtdb_h_rename_point_in d h part pid name = (rc, h')"
  shows "log_state h' = log_state h \<and> (rc = 0 \<longrightarrow> points (h_shm h') = points (h_shm h))
    \<or> rc = 0 \<and> (\<exists>s ty acc. h' = delta_log (h\<lparr>h_shm := s\<rparr>) IRT_DELTA_OP_RENAME pid ty acc name)"
  using assms
  by (auto simp: indurtdb_h_rename_point_in_def rename_body_def ensure_h_def irt_codes Let_def
      split: prod.splits if_splits dest!: lock_retry_pairD)

section \<open>What the replay makes of it\<close>

definition delta_cmd :: "irt_delta_rec \<Rightarrow> dir_cmd" where
  "delta_cmd r =
     (if d_op r = IRT_DELTA_OP_CREATE
      then Create 0 0 (d_point_id r) (d_name r) (uint (d_type r)) (uint (d_access r))
      else if d_op r = IRT_DELTA_OP_DELETE then Delete 0 (d_point_id r)
      else Rename 0 0 (d_point_id r) (d_name r))"

lemma delta_apply_cmd:
  "delta_ok r \<Longrightarrow> delta_apply r g = (0, snd (dir_step (delta_cmd r) g))"
  by (auto simp: delta_ok_def delta_apply_def delta_cmd_def split: prod.split)

lemma delta_cmd_admissible: "delta_ok r \<Longrightarrow> dir_admissible (delta_cmd r)"
  by (simp add: delta_ok_def delta_cmd_def)

text \<open>
  The commands that the format of a record can express: those on partition 0, because a record has no
  field for the partition, with names without NUL of at most 63 bytes.
\<close>

primrec loggable :: "dir_cmd \<Rightarrow> bool" where
  "loggable (Create d part pid name ty acc) = (part = 0 \<and> no_nul name \<and> length name \<le> 63 \<and> d < 16)"
| "loggable (Delete part pid) = (part = 0)"
| "loggable (Rename d part pid name) = (part = 0 \<and> no_nul name \<and> length name \<le> 63 \<and> d < 16)"
| "loggable (Find d part name) = (length name \<le> 63 \<and> d < 16)"

lemma loggable_admissible: "loggable c \<Longrightarrow> dir_admissible c"
  by (cases c) simp_all

lemma cmd_rec_ok:
  "op \<in> {IRT_DELTA_OP_CREATE, IRT_DELTA_OP_DELETE, IRT_DELTA_OP_RENAME} \<Longrightarrow> no_nul name \<Longrightarrow> length name \<le> 63 \<Longrightarrow>
     delta_ok (cmd_rec op pid ty acc name)"
  by (simp add: delta_ok_def cmd_rec_def strncpy_to_def)

lemma kind_roundtrip: "0 \<le> ty \<Longrightarrow> ty \<le> 6 \<Longrightarrow> uint (word_of_int ty :: u8) = ty"
  "acc \<in> {1, 3} \<Longrightarrow> uint (word_of_int acc :: u8) = acc"
  by (auto simp: uint_word_of_int)

lemma create_ok_args:
  assumes "quiet_dir N h" "dir_admissible (Create d part pid name ty acc)"
    "indurtdb_h_create_point_in d h part pid name ty acc = (0, h')"
  shows "0 \<le> ty" "ty \<le> 6" "acc \<in> {1, 3}"
  using quiet_dir_step(2) [OF assms(1,2)] assms(3) by (auto simp: irt_codes split: if_splits)

text \<open>
  Each command appends at most one record, which stands for the command itself; a command that
  appends none leaves the definitions alone.
\<close>

lemma dir_step_log:
  assumes h: "quiet_dir N h" and c: "loggable c" and fd: "0 \<le> fd" and log: "logging fd f h"
  obtains (silent) "logging fd f (snd (dir_step c h))" "dir_defs (snd (dir_step c h)) = dir_defs h"
  | (appended) r where "delta_ok r" "logging fd (f @ delta_bytes r) (snd (dir_step c h))" "delta_cmd r = undisturbed c"
proof -
  note adm = loggable_admissible [OF c]
  have app: "logging fd (f @ delta_bytes (cmd_rec op pid ty acc name)) (delta_log (h\<lparr>h_shm := s\<rparr>) op pid ty acc name)"
    for op pid ty acc name s
    using log by (intro delta_log_logging [OF fd]) (simp add: logging_def)
  have kept: thesis if "log_state (snd (dir_step c h)) = log_state h"
    "dir_defs (snd (dir_step c h)) = dir_defs h"
  proof (rule silent)
    show "logging fd f (snd (dir_step c h))" using that(1) log by (simp add: logging_def)
  qed (rule that(2))
  have refused: thesis if "fst (fst (dir_step c h)) \<noteq> 0" "log_state (snd (dir_step c h)) = log_state h"
    using kept that dir_defs_refused [OF h adm] by blast
  show thesis
  proof (cases c)
    case (Create d part pid name ty acc)
    obtain rc h' where s: "indurtdb_h_create_point_in d h part pid name ty acc = (rc, h')"
      by (cases "indurtdb_h_create_point_in d h part pid name ty acc")
    let ?r = "cmd_rec IRT_DELTA_OP_CREATE pid (word_of_int ty) (word_of_int acc) name"
    from create_log [OF s] show thesis
    proof (elim disjE conjE exE)
      fix t
      assume rc: "rc = 0" and h': "h' = delta_log (h\<lparr>h_shm := t\<rparr>) IRT_DELTA_OP_CREATE pid (word_of_int ty) (word_of_int acc) name"
      have "delta_cmd ?r = undisturbed c"
        using create_ok_args [OF h adm [unfolded Create] s [unfolded rc]] c
        by (simp add: Create delta_cmd_def cmd_rec_def strncpy_to_def kind_roundtrip)
      then show thesis
        using appended [of ?r] cmd_rec_ok c app s by (simp add: Create h')
    qed (use refused s in \<open>simp add: Create\<close>)
  next
    case (Delete part pid)
    obtain rc h' where s: "indurtdb_h_delete_point_in h part pid = (rc, h')"
      by (cases "indurtdb_h_delete_point_in h part pid")
    let ?r = "cmd_rec IRT_DELTA_OP_DELETE pid 0 0 []"
    have "delta_cmd ?r = undisturbed c" "delta_ok ?r"
      using c cmd_rec_ok by (simp_all add: Delete delta_cmd_def cmd_rec_def no_nul_def delta_const_defs)
    with delete_log [OF s] show thesis
    proof (elim disjE conjE exE)
      fix t
      assume "h' = delta_log (h\<lparr>h_shm := t\<rparr>) IRT_DELTA_OP_DELETE pid 0 0 []"
        "delta_cmd ?r = undisturbed c" "delta_ok ?r"
      then show thesis using appended [of ?r] app s by (simp add: Delete)
    qed (use refused s in \<open>simp add: Delete\<close>)
  next
    case (Rename d part pid name)
    obtain rc h' where s: "indurtdb_h_rename_point_in d h part pid name = (rc, h')"
      by (cases "indurtdb_h_rename_point_in d h part pid name")
    from rename_log [OF s] show thesis
    proof (elim disjE conjE exE)
      assume l: "log_state h' = log_state h" and p: "rc = 0 \<longrightarrow> points (h_shm h') = points (h_shm h)"
      show thesis
      proof (cases "rc = 0")
        case True
        then have "points (h_shm h') = points (h_shm h)" using p by simp
        from name_map_cong [OF this] kinds_cong [OF this] have "dir_defs h' = dir_defs h"
          by (simp add: dir_defs_def dir_map_def fun_eq_iff)
        then show thesis using kept l s by (simp add: Rename)
      qed (use refused l s in \<open>simp add: Rename\<close>)
    next
      fix t ty acc
      assume h': "h' = delta_log (h\<lparr>h_shm := t\<rparr>) IRT_DELTA_OP_RENAME pid ty acc name"
      let ?r = "cmd_rec IRT_DELTA_OP_RENAME pid ty acc name"
      have "delta_cmd ?r = undisturbed c" "delta_ok ?r"
        using c cmd_rec_ok by (simp_all add: Rename delta_cmd_def cmd_rec_def strncpy_to_def delta_const_defs)
      then show thesis using appended [of ?r] app s by (simp add: Rename h')
    qed
  next
    case (Find d part name)
    from find_same [of d h part name] show thesis
    proof (elim disjE exE)
      fix m
      assume "snd (indurtdb_h_find_by_name_in d h part name) = set_error h m"
      then have "snd (dir_step c h) = set_error h m" by (simp add: Find)
      then show thesis by (intro kept) (simp_all add: dir_defs_def dir_map_def fun_eq_iff)
    qed (use kept in \<open>simp add: Find\<close>)
  qed
qed

text \<open>A handle that replays does not log, and each record acts on the definitions as its command does.\<close>

abbreviation replayed :: "irt_delta_rec list \<Rightarrow> indurtdb \<Rightarrow> indurtdb" where
  "replayed \<equiv> fold (\<lambda>r g. snd (delta_apply r g))"

lemma replay_records:
  assumes "quiet_dir N g" "quiet_dir N g'" "list_all delta_ok rs" "dir_defs g = dir_defs g'"
  shows "quiet_dir N (replayed rs g) \<and>
    dir_defs (replayed rs g) = dir_defs (replayed rs g')"
  using assms
proof (induction rs arbitrary: g g')
  case (Cons r rs)
  have r: "delta_ok r" "list_all delta_ok rs" using Cons.prems(3) by simp_all
  have und: "undisturbed (delta_cmd r) = delta_cmd r" by (simp add: delta_cmd_def)
  have step: "quiet_dir N (snd (delta_apply r g))" "quiet_dir N (snd (delta_apply r g'))"
    "dir_defs (snd (delta_apply r g)) = dir_defs (snd (delta_apply r g'))"
    using quiet_dir_step(1) [OF Cons.prems(1) delta_cmd_admissible] quiet_dir_step(1) [OF Cons.prems(2) delta_cmd_admissible]
      dir_defs_step [OF Cons.prems(1,2) delta_cmd_admissible Cons.prems(4)] r(1)
    by (simp_all add: delta_apply_cmd und)
  then show ?case using Cons.IH [OF step(1,2) r(2) step(3)] by simp
qed simp

lemma run_log:
  assumes "quiet_dir N h" "quiet_dir N g" "list_all loggable cs" "0 \<le> fd" "logging fd f h"
    "dir_defs h = dir_defs g"
  shows "\<exists>rs. list_all delta_ok rs \<and> logging fd (f @ concat (map delta_bytes rs)) (snd (run dir_step cs h))
    \<and> dir_defs (replayed rs g) = dir_defs (snd (run dir_step cs h))"
  using assms
proof (induction cs arbitrary: h g f)
  case Nil
  then show ?case by (intro exI [of _ "[]"]) simp
next
  case (Cons c cs)
  have c: "loggable c" "list_all loggable cs" using Cons.prems(3) by simp_all
  let ?h = "snd (dir_step c h)"
  note qh = quiet_dir_step(1) [OF Cons.prems(1) loggable_admissible [OF c(1)]]
  have run: "snd (run dir_step (c # cs) h) = snd (run dir_step cs ?h)" by (simp add: split_beta)
  from Cons.prems(1) c(1) Cons.prems(4,5) show ?case
  proof (cases rule: dir_step_log)
    case silent
    then show ?thesis
      unfolding run using Cons.IH [OF qh Cons.prems(2) c(2) Cons.prems(4) silent(1)] Cons.prems(6) by simp
  next
    case (appended r)
    let ?g = "snd (delta_apply r g)"
    have g': "?g = snd (dir_step (undisturbed c) g)" using appended by (simp add: delta_apply_cmd)
    have "dir_defs ?h = dir_defs ?g"
      unfolding g' by (rule dir_defs_step [OF Cons.prems(1,2) loggable_admissible [OF c(1)] Cons.prems(6)])
    moreover have "quiet_dir N ?g"
      unfolding g' by (intro quiet_dir_step(1) Cons.prems(2) admissible_undisturbed loggable_admissible c(1))
    ultimately obtain rs where "list_all delta_ok rs"
      "logging fd ((f @ delta_bytes r) @ concat (map delta_bytes rs)) (snd (run dir_step cs ?h))"
      "dir_defs (replayed rs ?g) = dir_defs (snd (run dir_step cs ?h))"
      using Cons.IH [OF qh _ c(2) Cons.prems(4) appended(2)] by blast
    then show ?thesis
      unfolding run using appended(1) by (intro exI [of _ "r # rs"]) simp
  qed
qed

lemma run_defs:
  assumes "quiet_dir N h" "quiet_dir N g" "list_all dir_admissible cs" "dir_defs h = dir_defs g"
  shows "dir_defs (snd (run dir_step cs h)) = dir_defs (snd (run dir_step cs g))
    \<and> quiet_dir N (snd (run dir_step cs h))"
  using assms
proof (induction cs arbitrary: h g)
  case (Cons c cs)
  have c: "dir_admissible c" "list_all dir_admissible cs" using Cons.prems(3) by simp_all
  have "dir_defs (snd (dir_step c h)) = dir_defs (snd (dir_step c g))"
    using dir_defs_step [OF Cons.prems(1,2) c(1) Cons.prems(4)] dir_defs_step [OF Cons.prems(2,2) c(1) refl] by simp
  then show ?case
    using Cons.IH [OF quiet_dir_step(1) [OF Cons.prems(1) c(1)] quiet_dir_step(1) [OF Cons.prems(2) c(1)] c(2)]
    by (simp add: split_beta)
qed simp

section \<open>Starting the daemon on a log\<close>

lemma step_off:
  assumes "delta_fd h < 0"
  shows "log_state (snd (dir_step c h)) = log_state h"
proof (cases c)
  case (Create d part pid name ty acc)
  then show ?thesis
    using create_log [of d h part pid name ty acc] assms
    by (cases "indurtdb_h_create_point_in d h part pid name ty acc") (auto simp: delta_log_off)
next
  case (Delete part pid)
  then show ?thesis
    using delete_log [of h part pid] assms
    by (cases "indurtdb_h_delete_point_in h part pid") (auto simp: delta_log_off)
next
  case (Rename d part pid name)
  then show ?thesis
    using rename_log [of d h part pid name] assms
    by (cases "indurtdb_h_rename_point_in d h part pid name") (auto simp: delta_log_off)
next
  case (Find d part name)
  then show ?thesis using find_same [of d h part name] by auto
qed

lemma replay_off:
  assumes "list_all delta_ok rs" "delta_fd h < 0"
  shows "log_state (replayed rs h) = log_state h"
  using assms
proof (induction rs arbitrary: h)
  case (Cons r rs)
  have off: "log_state (snd (delta_apply r h)) = log_state h"
    using Cons.prems step_off [of h "delta_cmd r"] by (simp add: delta_apply_cmd)
  then have "delta_fd (snd (delta_apply r h)) < 0" using Cons.prems(2) by (simp add: log_state_def)
  then show ?case using Cons off by simp
qed simp

lemma quiet_dir_cong:
  "h_shm h = h_shm g \<Longrightarrow> initialized h = initialized g \<Longrightarrow> quiet_dir N h = quiet_dir N g"
  "h_shm h = h_shm g \<Longrightarrow> dir_defs h = dir_defs g"
  by (simp_all add: quiet_dir_def dir_inv_def quiet_handle_def dir_defs_def dir_map_def kinds_def fun_eq_iff)

text \<open>The start of the daemon with a file of configuration and the log in which \<open>file\<close> is found.\<close>

definition log_env :: "boot_env \<Rightarrow> int \<Rightarrow> u8 list \<Rightarrow> boot_env" where
  "log_env e fd file = e\<lparr>be_delta := Some file, be_delta_io := None, be_delta_open := (fd, file)\<rparr>"

definition base_config :: "cli \<Rightarrow> boot_env \<Rightarrow> indurtdb \<Rightarrow> int \<times> indurtdb" where
  "base_config c e h = (if cl_config c = None then (0, h) else indurtdb_h_load_config h (be_config e))"

lemma start_on_log:
  assumes c: "cl_delta c = Some path" "path \<noteq> []" and base: "base_config c e g = (0, b)"
    and b: "quiet_dir N b" "delta_env b = []" and fd: "0 \<le> fd"
    and rs: "list_all delta_ok rs" and torn: "length torn < 80"
  shows "\<exists>h lg'. data_phase c (log_env e fd (concat (map delta_bytes rs) @ torn)) g lg = (RTDBD_EXIT_OK, h, lg')
    \<and> quiet_dir N h \<and> logging fd (concat (map delta_bytes rs) @ torn) h
    \<and> dir_defs h = dir_defs (replayed rs b)"
proof -
  let ?f = "concat (map delta_bytes rs) @ torn" and ?b = "b\<lparr>delta_fd := -1\<rparr>"
  let ?fold = "replayed rs"
  have qb: "quiet_dir N ?b" "dir_defs ?b = dir_defs b" using quiet_dir_cong [of ?b b] b(1) by simp_all
  note fold = conjunct1 [OF replay_records [OF qb(1) b(1) rs qb(2)]] conjunct2 [OF replay_records [OF qb(1) b(1) rs qb(2)]]
  have env: "delta_env (?fold ?b) = []" using replay_off [OF rs, of ?b] b(2) by (simp add: log_state_def)
  have init: "initialized b" "initialized (?fold ?b)"
    using b(1) fold(1) by (simp_all add: quiet_dir_def dir_inv_def)
  have ok: "fst (delta_apply r st) = 0" if "delta_ok r" for r st using that by (simp add: delta_apply_cmd)
  have "replay_loop delta_apply None ?f 0 ?b = (0 + int (length rs), ?fold ?b)"
    using rs by (intro replay_loop_records ok torn) (simp_all add: list_all_iff)
  then have "indurtdb_h_delta_replay b path (Some ?f) None = (int (length rs), (?fold ?b)\<lparr>delta_fd := delta_fd b\<rparr>)"
    using init c(2) by (simp add: indurtdb_h_delta_replay_def ensure_h_def irt_delta_replay_def)
  moreover have "cl_config c = None \<Longrightarrow> b = g" "cl_config c \<noteq> None \<Longrightarrow> indurtdb_h_load_config g (be_config e) = (0, b)"
    using base by (auto simp: base_config_def)
  ultimately have "\<exists>lg'. data_phase c (log_env e fd ?f) g lg =
      (RTDBD_EXIT_OK, (?fold ?b)\<lparr>delta_fd := fd, delta_file := ?f\<rparr>, lg')"
    using c fd init
    by (cases "cl_config c = None")
      (auto simp: data_phase_def log_env_def indurtdb_h_enable_delta_def ensure_h_def)
  then show ?thesis
    using fold env quiet_dir_cong [of "(?fold ?b)\<lparr>delta_fd := fd, delta_file := ?f\<rparr>" "?fold ?b"]
    by (auto simp: logging_def log_state_def)
qed

text \<open>
  The lives of the daemon between power cuts: each starts with the configuration on a fresh segment
  and the log as the last one left it, and carries out commands.
\<close>

primrec log_after ::
  "cli \<Rightarrow> boot_env \<Rightarrow> irt_logbuf \<Rightarrow> int \<Rightarrow> indurtdb \<Rightarrow> dir_cmd list list \<Rightarrow> u8 list \<Rightarrow> u8 list" where
  "log_after c e lg fd g [] log = log"
| "log_after c e lg fd g (cs # css) log =
     (let (_, h, _) = data_phase c (log_env e fd log) g lg
      in log_after c e lg fd g css (delta_file (snd (run dir_step cs h))))"

lemma log_after_records:
  assumes c: "cl_delta c = Some path" "path \<noteq> []" and base: "base_config c e g = (0, b)"
    and b: "quiet_dir N b" "delta_env b = []" and fd: "0 \<le> fd"
    and "list_all loggable (concat css)" "list_all delta_ok rs" "quiet_dir N h0" "dir_defs h0 = dir_defs (replayed rs b)"
  shows "\<exists>rs'. list_all delta_ok rs' \<and> log_after c e lg fd g css (concat (map delta_bytes rs)) = concat (map delta_bytes rs')
    \<and> dir_defs (replayed rs' b) = dir_defs (snd (run dir_step (concat css) h0))"
  using assms(7-)
proof (induction css arbitrary: rs h0)
  case Nil
  then show ?case by auto
next
  case (Cons cs css)
  let ?f = "concat (map delta_bytes rs)"
  have cs: "list_all loggable cs" "list_all loggable (concat css)" using Cons.prems(1) by simp_all
  have adm: "list_all dir_admissible cs" using cs(1) by (auto simp: list_all_iff intro: loggable_admissible)
  note q = conjunct1 [OF replay_records [OF b(1) b(1) Cons.prems(2) refl]]
  obtain h lg' where h: "data_phase c (log_env e fd ?f) g lg = (RTDBD_EXIT_OK, h, lg')"
    "quiet_dir N h" "logging fd ?f h" "dir_defs h = dir_defs (replayed rs b)"
    using start_on_log [OF c base b fd Cons.prems(2), of "[]" lg] by auto
  obtain rs2 where rs2: "list_all delta_ok rs2"
    "logging fd (?f @ concat (map delta_bytes rs2)) (snd (run dir_step cs h))"
    "dir_defs (replayed rs2 (replayed rs b)) = dir_defs (snd (run dir_step cs h))"
    using run_log [OF h(2) q cs(1) fd h(3,4)] by blast
  have "dir_defs h0 = dir_defs h" using Cons.prems(4) h(4) by simp
  note same = run_defs [OF Cons.prems(3) h(2) adm this]
  have bytes: "delta_file (snd (run dir_step cs h)) = concat (map delta_bytes (rs @ rs2))"
    using rs2(2) by (simp add: logging_def log_state_def)
  have "\<exists>rs'. list_all delta_ok rs' \<and> log_after c e lg fd g css (concat (map delta_bytes (rs @ rs2))) = concat (map delta_bytes rs')
    \<and> dir_defs (replayed rs' b) = dir_defs (snd (run dir_step (concat css) (snd (run dir_step cs h0))))"
    by (rule Cons.IH [OF cs(2)]) (use Cons.prems(2) rs2 same in simp_all)
  then show ?case by (simp add: h(1) bytes run_append)
qed

text \<open>
  C11. The change log recovers the directory when all commands are on partition 0 (\<open>loggable\<close>: partition
  0, names of at most 63 bytes without NUL, fewer than 16 disturbed attempts of a lock): after any
  number of lives of the daemon, each started with the configuration and the log on a fresh segment and
  ended by a power cut, with the bytes of a record that was not completely written behind them, the next
  start succeeds and gives the directory, with ids, types and access modes, that one daemon would have
  after all the commands without any restart. The restriction is needed: records carry no partition,
  and a point that is created in another one does not come back there (\<open>delta_log_forgets_partition\<close>).
\<close>

theorem delta_log_recovers:
  assumes "cl_delta c = Some path" "path \<noteq> []" "base_config c e g = (0, b)" "quiet_dir N b" "delta_env b = []"
    and "0 \<le> fd" "list_all loggable (concat css)" "length torn < 80"
  shows "case data_phase c (log_env e fd (log_after c e lg fd g css [] @ torn)) g lg of (ec, h, _) \<Rightarrow>
    ec = RTDBD_EXIT_OK \<and> dir_defs h = dir_defs (snd (run dir_step (concat css) b))"
proof -
  obtain rs where rs: "list_all delta_ok rs" "log_after c e lg fd g css [] = concat (map delta_bytes rs)"
    "dir_defs (replayed rs b) = dir_defs (snd (run dir_step (concat css) b))"
    using log_after_records [OF assms(1-7) _ assms(4), of "[]" lg] by auto
  then show ?thesis using start_on_log [OF assms(1-6) rs(1) assms(8), of lg] by auto
qed

definition recovery_cli :: cli where
  "recovery_cli = cli_defaults\<lparr>cl_delta := Some ''/d''\<rparr>"

definition recovery_env :: boot_env where
  "recovery_env = \<lparr>be_policy = None, be_config = None, be_open = None, be_delta = None, be_delta_io = None,
     be_delta_open = (-1, []), be_now = 0, be_wall = 0, be_d = 0,
     be_torn_check = (\<lambda>_. zero_meta), be_torn_warn = (\<lambda>_. zero_meta)\<rparr>"

definition recovery_lives :: "dir_cmd list list" where
  "recovery_lives = [[Create 0 0 1 ''pump'' 1 3, Create 0 0 2 ''fan'' 6 1], [Rename 0 0 1 ''valve''], [Delete 0 2]]"

lemma demo_recovery: "quiet_dir 4 demo_handle" "delta_env demo_handle = []" "cl_delta recovery_cli = Some ''/d''"
  "base_config recovery_cli e demo_handle = (0, demo_handle)" "list_all loggable (concat recovery_lives)"
  using demo_handle_inv
  by (simp_all add: quiet_dir_def demo_handle_def recovery_cli_def cli_defaults_def base_config_def recovery_lives_def no_nul_def)

lemma run_map:
  assumes "quiet_dir N h" "list_all dir_admissible cs"
  shows "dir_map (snd (run dir_step cs h)) = snd (run (dir_spec N) cs (dir_map h))"
  using dir.run_spec [of N h cs] assms by (simp add: quiet_dir_def)

text \<open>The specification on association lists, where it can be evaluated.\<close>

primrec dir_list :: "u32 \<Rightarrow> dir_cmd \<Rightarrow> ((u32 \<times> string) \<times> u32) list \<Rightarrow>
    (int \<times> u32 option) \<times> ((u32 \<times> string) \<times> u32) list" where
  "dir_list N (Create d part pid name ty acc) xs =
     (if name = [] \<or> ty < 0 \<or> 6 < ty \<or> acc \<notin> {1, 3} \<or> N \<le> pid \<or> map_of xs (part, name) \<notin> {None, Some pid}
      then ((INDURTDB_ERR_ARG, None), xs)
      else if pid \<in> set (map snd xs) then ((INDURTDB_ERR_FULL, None), xs)
      else ((0, None), ((part, name), pid) # xs))"
| "dir_list N (Delete part pid) xs =
     (if N \<le> pid then ((INDURTDB_ERR_ARG, None), xs)
      else if (part, pid) \<notin> set (map (\<lambda>((p, n), j). (p, j)) xs) then ((INDURTDB_ERR_NOT_FOUND, None), xs)
      else ((0, None), filter (\<lambda>kj. snd kj \<noteq> pid) xs))"
| "dir_list N (Rename d part pid name) xs =
     (if name = [] \<or> N \<le> pid \<or> map_of xs (part, name) \<notin> {None, Some pid} then ((INDURTDB_ERR_ARG, None), xs)
      else if (part, pid) \<notin> set (map (\<lambda>((p, n), j). (p, j)) xs) then ((INDURTDB_ERR_NOT_FOUND, None), xs)
      else ((0, None), ((part, name), pid) # filter (\<lambda>kj. snd kj \<noteq> pid) xs))"
| "dir_list N (Find d part name) xs =
     (if name = [] then ((INDURTDB_ERR_ARG, None), xs)
      else case map_of xs (part, name) of Some j \<Rightarrow> ((0, Some j), xs) | None \<Rightarrow> ((INDURTDB_ERR_NOT_FOUND, None), xs))"

lemma without_map_of:
  assumes "distinct (map fst xs)"
  shows "without (map_of xs) pid = map_of (filter (\<lambda>kj. snd kj \<noteq> pid) xs)"
proof (rule map_ext_Some)
  fix k j
  show "without (map_of xs) pid k = Some j \<longleftrightarrow> map_of (filter (\<lambda>kj. snd kj \<noteq> pid) xs) k = Some j"
    using assms distinct_map_filter [OF assms] by (auto simp: without_def dest: eq_key_imp_eq_value)
qed

lemma owns_map_of:
  "distinct (map fst xs) \<Longrightarrow> owns (map_of xs) part pid \<longleftrightarrow> (part, pid) \<in> set (map (\<lambda>((p, n), j). (p, j)) xs)"
  by (force simp: owns_def)

lemma range_map_of: "distinct (map fst xs) \<Longrightarrow> (\<exists>k. map_of xs k = Some pid) \<longleftrightarrow> pid \<in> set (map snd xs)"
  by (force simp del: split_paired_Ex)

lemma other_owner: "(\<exists>j. m k = Some j \<and> j \<noteq> pid) \<longleftrightarrow> m k \<notin> {None, Some pid}"
  by auto

lemma dir_list_refines:
  assumes "distinct (map fst xs)"
  shows "distinct (map fst (snd (dir_list N c xs)))"
    "dir_spec N c (map_of xs) = (fst (dir_list N c xs), map_of (snd (dir_list N c xs)))"
proof -
  note list = without_map_of [OF assms] owns_map_of [OF assms] range_map_of [OF assms]
  have free: "k \<notin> fst ` set xs" if "(\<forall>y. (k, y) \<notin> set xs) \<or> (k, pid) \<in> set xs" "pid \<notin> snd ` set xs" for k pid
    using that by force
  have moved: "k \<notin> fst ` {kj \<in> set xs. snd kj \<noteq> pid}" if "(\<forall>y. (k, y) \<notin> set xs) \<or> (k, pid) \<in> set xs" for k pid
    using that assms by (auto dest: eq_key_imp_eq_value)
  show "distinct (map fst (snd (dir_list N c xs)))"
    using assms free moved
    by (cases c) (simp_all add: distinct_map_filter split: option.split, blast)
  show "dir_spec N c (map_of xs) = (fst (dir_list N c xs), map_of (snd (dir_list N c xs)))"
    by (cases c) (simp_all only: dir_spec.simps dir_list.simps list other_owner, auto split: option.split)
qed

interpretation dir_assoc: refinement "dir_list N" "dir_spec N" "\<lambda>xs. distinct (map fst xs)" map_of "\<lambda>_. True" for N
  by unfold_locales (use dir_list_refines in blast)+

lemma dir_list_eval:
  "distinct (map fst xs) \<Longrightarrow> snd (run (dir_spec N) cs (map_of xs)) = map_of (snd (run (dir_list N) cs xs))"
  using dir_assoc.run_spec [of xs cs N] by (simp add: list.pred_True)

lemma small_id: "\<not> (4 :: u32) \<le> 1"
  by (simp add: word_le_nat_alt)

lemma recovery_spec: "snd (run (dir_spec 4) (concat recovery_lives) Map.empty) = [(0, ''valve'') \<mapsto> 1]"
  using dir_list_eval [of "[]" 4 "concat recovery_lives"] by (simp add: recovery_lives_def small_id)

theorem delta_log_recovers_witness:
  "case data_phase recovery_cli (log_env recovery_env 5
      (log_after recovery_cli recovery_env irt_logbuf_init 5 demo_handle recovery_lives [] @ [0x41, 0x54])) demo_handle irt_logbuf_init
    of (ec, h, _) \<Rightarrow> ec = 0 \<and> dir_map h = [(0, ''valve'') \<mapsto> 1]"
proof -
  have "list_all dir_admissible (concat recovery_lives)" by (simp add: recovery_lives_def)
  from run_map [OF demo_recovery(1) this] have m: "dir_map (snd (run dir_step (concat recovery_lives) demo_handle)) = [(0, ''valve'') \<mapsto> 1]"
    by (simp add: demo_handle_inv(3) recovery_spec)
  have "dir_map h = [(0, ''valve'') \<mapsto> 1]" if "dir_defs h = dir_defs (snd (run dir_step (concat recovery_lives) demo_handle))" for h
    using that m by (simp add: dir_defs_map)
  then show ?thesis
    using delta_log_recovers [of recovery_cli "''/d''" recovery_env demo_handle demo_handle 4 5 recovery_lives "[0x41, 0x54]" irt_logbuf_init]
      demo_recovery by (auto simp: RTDBD_EXIT_OK_def split: prod.splits)
qed

section \<open>Starting on a segment that was kept\<close>

text \<open>
  After a crash of the daemon alone the segment is still there and the next start attaches to it. It
  replays the log all the same, so the commands run again on the directory that they produced.
\<close>

primrec alters :: "u32 \<Rightarrow> dir_cmd \<Rightarrow> (u32 \<times> string \<Rightarrow> u32 option) \<Rightarrow> bool" where
  "alters N (Create d part pid name ty acc) m = (fst (fst (dir_spec N (Create d part pid name ty acc) m)) = 0)"
| "alters N (Delete part pid) m = (fst (fst (dir_spec N (Delete part pid) m)) = 0)"
| "alters N (Rename d part pid name) m =
     (fst (fst (dir_spec N (Rename d part pid name) m)) = 0 \<and> m (part, name) = None)"
| "alters N (Find d part name) m = False"

primrec altering :: "u32 \<Rightarrow> dir_cmd list \<Rightarrow> (u32 \<times> string \<Rightarrow> u32 option) \<Rightarrow> bool" where
  "altering N [] m = True"
| "altering N (c # cs) m = (alters N c m \<and> altering N cs (snd (dir_spec N c m)))"

lemma alters_map: "alters N c m \<Longrightarrow> snd (dir_spec N c m) \<noteq> m"
proof (cases c)
  case (Create d part pid name ty acc)
  assume "alters N c m"
  then have "m (part, name) \<noteq> Some pid" "snd (dir_spec N c m) = m((part, name) \<mapsto> pid)"
    by (auto simp: Create irt_codes split: if_splits)
  then show ?thesis by (auto dest: fun_upd_eqD simp: fun_upd_idem_iff)
next
  case (Delete part pid)
  assume "alters N c m"
  then obtain name where "m (part, name) = Some pid" "snd (dir_spec N c m) = without m pid"
    by (auto simp: Delete irt_codes owns_def split: if_splits)
  then have "snd (dir_spec N c m) (part, name) \<noteq> m (part, name)" by (simp add: without_def)
  then show ?thesis by auto
next
  case (Rename d part pid name)
  assume "alters N c m"
  then have "m (part, name) = None" "snd (dir_spec N c m) (part, name) = Some pid"
    by (auto simp: Rename irt_codes split: if_splits)
  then show ?thesis by (auto dest: fun_cong)
qed simp

lemma run_log_altering:
  assumes "quiet_dir N h" "list_all loggable cs" "0 \<le> fd" "logging fd f h" "altering N cs (dir_map h)"
  shows "\<exists>rs. list_all delta_ok rs \<and> map delta_cmd rs = map undisturbed cs \<and>
    logging fd (f @ concat (map delta_bytes rs)) (snd (run dir_step cs h))"
  using assms
proof (induction cs arbitrary: h f)
  case (Cons c cs)
  have c: "loggable c" "list_all loggable cs" using Cons.prems(2) by simp_all
  note step = quiet_dir_step [OF Cons.prems(1) loggable_admissible [OF c(1)]]
  have alt: "dir_map (snd (dir_step c h)) \<noteq> dir_map h" "altering N cs (dir_map (snd (dir_step c h)))"
    using Cons.prems(5) alters_map step(3) by simp_all
  from Cons.prems(1) c(1) Cons.prems(3,4) show ?case
  proof (cases rule: dir_step_log)
    case silent
    then show ?thesis using alt(1) by (simp add: dir_defs_map)
  next
    case (appended r)
    obtain rs where "list_all delta_ok rs" "map delta_cmd rs = map undisturbed cs"
      "logging fd ((f @ delta_bytes r) @ concat (map delta_bytes rs)) (snd (run dir_step cs (snd (dir_step c h))))"
      using Cons.IH [OF step(1) c(2) Cons.prems(3) appended(2) alt(2)] by blast
    then show ?thesis using appended(1,3) by (intro exI [of _ "r # rs"]) (simp add: split_beta)
  qed
qed simp

lemma replayed_map:
  "quiet_dir N g \<Longrightarrow> list_all delta_ok rs \<Longrightarrow>
    dir_map (replayed rs g) = snd (run (dir_spec N) (map delta_cmd rs) (dir_map g))"
proof (induction rs arbitrary: g)
  case (Cons r rs)
  have r: "delta_ok r" "list_all delta_ok rs" using Cons.prems(2) by simp_all
  note step = quiet_dir_step [OF Cons.prems(1) delta_cmd_admissible [OF r(1)]]
  show ?case using Cons.IH [OF step(1) r(2)] step(3) r(1) by (simp add: delta_apply_cmd split_beta)
qed simp

lemma run_undisturbed: "run (dir_spec N) (map undisturbed cs) m = run (dir_spec N) cs m"
  by (induction cs arbitrary: m) (simp_all add: spec_undisturbed)

theorem kept_segment_reruns_log:
  assumes c: "cl_delta c = Some path" "path \<noteq> []" "cl_config c = None"
    and g: "quiet_dir N g" "delta_env g = []" and fd: "0 \<le> fd"
    and cs: "list_all loggable cs" "altering N cs (dir_map g)"
    and start: "data_phase c (log_env e fd []) g lg = (ec, h, lg')"
    and again: "data_phase c (log_env e fd (delta_file (snd (run dir_step cs h)))) (snd (run dir_step cs h)) lg = (ec2, h2, lg2)"
  shows "dir_map (snd (run dir_step cs h)) = snd (run (dir_spec N) cs (dir_map g))"
    "dir_map h2 = snd (run (dir_spec N) cs (snd (run (dir_spec N) cs (dir_map g))))"
proof -
  let ?h1 = "snd (run dir_step cs h)"
  have adm: "list_all dir_admissible cs" using cs(1) by (auto simp: list_all_iff intro: loggable_admissible)
  have base: "base_config c e x = (0, x)" for x using c(3) by (simp add: base_config_def)
  have h: "quiet_dir N h" "logging fd [] h" "dir_defs h = dir_defs g"
    using start_on_log [OF c(1,2) base g fd, of "[]" "[]" lg] start by auto
  have m: "dir_map h = dir_map g" using h(3) by (simp add: dir_defs_map)
  show h1: "dir_map ?h1 = snd (run (dir_spec N) cs (dir_map g))" using run_map [OF h(1) adm] m by simp
  obtain rs where rs: "list_all delta_ok rs" "map delta_cmd rs = map undisturbed cs"
    "logging fd (concat (map delta_bytes rs)) ?h1"
    using run_log_altering [OF h(1) cs(1) fd h(2)] cs(2) m by auto
  have q: "quiet_dir N ?h1" using run_defs [OF h(1) h(1) adm refl] by simp
  have "delta_env ?h1 = []" "delta_file ?h1 = concat (map delta_bytes rs)"
    using rs(3) by (simp_all add: logging_def log_state_def)
  then have "dir_defs h2 = dir_defs (replayed rs ?h1)"
    using start_on_log [OF c(1,2) base q _ fd rs(1), of "[]" lg] again by auto
  then show "dir_map h2 = snd (run (dir_spec N) cs (snd (run (dir_spec N) cs (dir_map g))))"
    using replayed_map [OF q rs(1)] h1 by (simp add: dir_defs_map rs(2) run_undisturbed)
qed

text \<open>
  The log forgets partitions: a point that is created in another partition than 0 is not there after
  the next start; instead its id is created in partition 0, unless its name is taken there.
\<close>

theorem delta_log_forgets_partition:
  assumes c: "cl_delta c = Some path" "path \<noteq> []" and base: "base_config c e g = (0, b)"
    and b: "quiet_dir N b" "delta_env b = []" and fd: "0 \<le> fd"
    and first: "data_phase c (log_env e fd []) g lg = (ec, h, lg1)"
    and create: "indurtdb_h_create_point_in d h part pid name ty acc = (0, h1)"
    and arg: "part \<noteq> 0" "no_nul name" "length name \<le> 63" "d < 16"
    and again: "data_phase c (log_env e fd (delta_file h1)) g lg = (ec2, h2, lg2)"
  shows "dir_map h1 (part, name) = Some pid" "dir_map h2 (part, name) = None"
    "dir_map h2 = (if dir_map b (0, name) = None then (dir_map b)((0, name) \<mapsto> pid) else dir_map b)"
proof -
  let ?r = "cmd_rec IRT_DELTA_OP_CREATE pid (word_of_int ty) (word_of_int acc) name"
  have h: "quiet_dir N h" "logging fd [] h" "dir_defs h = dir_defs b"
    using start_on_log [OF c base b fd, of "[]" "[]" lg] first by auto
  have m: "dir_map h = dir_map b" using h(3) by (simp add: dir_defs_map)
  have adm: "dir_admissible (Create d part pid name ty acc)" using arg by simp
  note step = quiet_dir_step(2,3) [OF h(1) adm]
  have ok: "name \<noteq> []" "0 \<le> ty" "ty \<le> 6" "acc \<in> {1, 3}" "\<not> N \<le> pid" "dir_map b (part, name) \<in> {None, Some pid}"
    "\<nexists>k. dir_map b k = Some pid"
    using step(1) create by (cases "dir_map b (part, name)"; auto simp: m irt_codes split: if_splits)+
  then show "dir_map h1 (part, name) = Some pid"
    using step(2) create by (auto simp: m split: if_splits)
  obtain s where "h1 = delta_log (h\<lparr>h_shm := s\<rparr>) IRT_DELTA_OP_CREATE pid (word_of_int ty) (word_of_int acc) name"
    using create_log [OF create] by auto
  then have "logging fd ([] @ delta_bytes ?r) h1"
    using delta_log_logging [OF fd, of "[]" "h\<lparr>h_shm := s\<rparr>"] h(2) by (simp add: logging_def)
  then have log: "delta_file h1 = concat (map delta_bytes [?r]) @ []" by (simp add: logging_def log_state_def)
  have r: "list_all delta_ok [?r]" "delta_cmd ?r = Create 0 0 pid name ty acc"
    using cmd_rec_ok [of IRT_DELTA_OP_CREATE name] arg ok(2-4)
    by (simp_all add: delta_cmd_def cmd_rec_def strncpy_to_def kind_roundtrip)
  have "dir_defs h2 = dir_defs (replayed [?r] b)"
    using start_on_log [OF c base b fd r(1), of "[]" lg] again log by auto
  then have "dir_map h2 = snd (dir_spec N (Create 0 0 pid name ty acc) (dir_map b))"
    using replayed_map [OF b(1) r(1)] r(2) by (simp add: dir_defs_map split_beta Let_def)
  moreover have "dir_map b (0, name) \<noteq> Some pid" "dir_map b (part, name) \<noteq> Some pid" using ok(7) by blast+
  ultimately show map: "dir_map h2 = (if dir_map b (0, name) = None then (dir_map b)((0, name) \<mapsto> pid) else dir_map b)"
    using ok by auto
  then show "dir_map h2 (part, name) = None" using ok(6,7) arg(1) by auto
qed

text \<open>
  Running the commands again is not neutral. Here point 1 is called \<open>q\<close> and \<open>n\<close> again, and point 2 is
  called \<open>n\<close>, \<open>z\<close> and \<open>w\<close> in between. In the second run the renaming of 2 to \<open>z\<close> is refused, because
  point 3 already has its final name, so 2 keeps \<open>n\<close> and point 1 does not get its name back.
\<close>

definition juggle :: "dir_cmd list" where
  "juggle = [Create 0 0 1 ''a'' 1 3, Create 0 0 2 ''b'' 1 3, Create 0 0 3 ''c'' 1 3, Rename 0 0 1 ''q'',
     Rename 0 0 2 ''n'', Rename 0 0 2 ''z'', Rename 0 0 1 ''n'', Rename 0 0 2 ''w'', Rename 0 0 3 ''z'']"

lemma juggle_spec:
  "snd (run (dir_list 4) juggle []) = [((0, ''z''), 3), ((0, ''w''), 2), ((0, ''n''), 1)]"
  by (simp add: juggle_def small_id)

lemma juggle_again:
  "snd (run (dir_list 4) juggle [((0, ''z''), 3), ((0, ''w''), 2), ((0, ''n''), 1)]) =
     [((0, ''z''), 3), ((0, ''w''), 2), ((0, ''q''), 1)]"
  by (simp add: juggle_def small_id)

lemma juggle_altering: "altering 4 juggle (map_of [])"
  by (simp add: juggle_def small_id dir_list_refines(2) del: dir_spec.simps map_of.simps) simp

theorem kept_segment_loses_name:
  assumes "data_phase recovery_cli (log_env recovery_env 5 []) demo_handle lg = (ec, h, lg')"
    and "data_phase recovery_cli (log_env recovery_env 5 (delta_file (snd (run dir_step juggle h))))
      (snd (run dir_step juggle h)) lg = (ec2, h2, lg2)"
  shows "dir_map (snd (run dir_step juggle h)) (0, ''n'') = Some 1"
    "dir_map h2 (0, ''n'') = None" "dir_map h2 (0, ''q'') = Some 1"
proof -
  have "cl_config recovery_cli = None" by (simp add: recovery_cli_def cli_defaults_def)
  moreover have "list_all loggable juggle" by (simp add: juggle_def no_nul_def)
  moreover have "altering 4 juggle (dir_map demo_handle)"
    using juggle_altering by (simp only: demo_handle_inv(3) map_of.simps)
  ultimately have "dir_map (snd (run dir_step juggle h)) = snd (run (dir_spec 4) juggle (map_of []))"
    "dir_map h2 = snd (run (dir_spec 4) juggle (snd (run (dir_spec 4) juggle (map_of []))))"
    using kept_segment_reruns_log [OF demo_recovery(3) _ _ demo_recovery(1,2) _ _ _ assms] demo_handle_inv(3)
    by simp_all
  then have "dir_map (snd (run dir_step juggle h)) = map_of [((0, ''z''), 3), ((0, ''w''), 2), ((0, ''n''), 1)]"
    "dir_map h2 = map_of [((0, ''z''), 3), ((0, ''w''), 2), ((0, ''q''), 1)]"
    using dir_list_eval [of "[]" 4 juggle] dir_list_eval [of "[((0, ''z''), 3), ((0, ''w''), 2), ((0, ''n''), 1)]" 4 juggle]
    by (simp_all only: juggle_spec juggle_again) simp_all
  then show "dir_map (snd (run dir_step juggle h)) (0, ''n'') = Some 1"
    "dir_map h2 (0, ''n'') = None" "dir_map h2 (0, ''q'') = Some 1" by simp_all
qed

end
