(* ===== verification/Daemon_Args.thy ===== *)
theory Daemon_Args
  imports Rtdbd_Main Supervisor
begin

text \<open>
  The words of the daemon's command line (\<^verbatim>\<open>rtdbd.c\<close>, \<open>main\<close>): the option tables it hands to
  \<open>getopt_long\<close>, what \<open>getopt_long\<close> of the C library makes of the words, and the words that a
  supervisor passes on to its worker. A worker is started with the configuration of its supervisor.
\<close>

section \<open>The option tables\<close>

definition long_opts :: "(string \<times> bool \<times> char) list" where
  "long_opts = [(''socket'', True, CHR ''s''), (''instance'', True, CHR ''i''), (''policy'', True, CHR ''p''),
     (''config'', True, CHR ''c''), (''max-points'', True, CHR ''m''), (''max-subs'', True, CHR ''b''),
     (''supervise'', False, CHR ''S''), (''pidfile'', True, CHR ''P''), (''stats-file'', True, CHR ''F''),
     (''delta-file'', True, CHR ''D'')]"

definition short_opts :: "(char \<times> bool) list" where
  "short_opts = [(CHR ''s'', True), (CHR ''i'', True), (CHR ''p'', True), (CHR ''c'', True), (CHR ''m'', True),
     (CHR ''b'', True), (CHR ''S'', False), (CHR ''P'', True), (CHR ''F'', True), (CHR ''D'', True)]"

section \<open>The option parser of the C library\<close>

text \<open>
  \<open>getopt_long\<close> as documented: words that are not options are skipped, \<open>--\<close> ends the options, a
  long option may be abbreviated when it stays unique and may have its argument behind \<open>=\<close>, letters
  may be joined in one word, and an argument may be the rest of the word or the next word. Every
  error is the option \<open>?\<close>. The second component is an option that takes the next word.
\<close>

definition opt_error :: "char \<times> string" where
  "opt_error = (CHR ''?'', [])"

definition find_long :: "string \<Rightarrow> (bool \<times> char) option" where
  "find_long name =
     (case map_of long_opts name of
        Some o1 \<Rightarrow> Some o1
      | None \<Rightarrow> (case filter (\<lambda>(n, _). take (length name) n = name) long_opts of
                   [(_, o1)] \<Rightarrow> Some o1
                 | _ \<Rightarrow> None))"

definition long_word :: "string \<Rightarrow> (char \<times> string) list \<times> char option" where
  "long_word w =
     (let name = takeWhile (\<lambda>c. c \<noteq> CHR ''='') w; val = dropWhile (\<lambda>c. c \<noteq> CHR ''='') w
      in case find_long name of
           None \<Rightarrow> ([opt_error], None)
         | Some (needs, c) \<Rightarrow>
             if val = [] then if needs then ([], Some c) else ([(c, [])], None)
             else if needs then ([(c, tl val)], None) else ([opt_error], None))"

primrec short_word :: "string \<Rightarrow> (char \<times> string) list \<times> char option" where
  "short_word [] = ([], None)"
| "short_word (c # cs) =
     (case map_of short_opts c of
        None \<Rightarrow> map_prod (\<lambda>os. opt_error # os) id (short_word cs)
      | Some needs \<Rightarrow>
          if \<not> needs then map_prod (\<lambda>os. (c, []) # os) id (short_word cs)
          else if cs \<noteq> [] then ([(c, cs)], None)
          else ([], Some c))"

definition opt_word :: "string \<Rightarrow> (char \<times> string) list \<times> char option" where
  "opt_word w =
     (if take 2 w = ''--'' then long_word (drop 2 w)
      else if take 1 w = ''-'' \<and> 1 < length w then short_word (drop 1 w)
      else ([], None))"

fun getopt_long :: "string list \<Rightarrow> (char \<times> string) list" where
  "getopt_long [] = []"
| "getopt_long [w] =
     (if w = ''--'' then []
      else case opt_word w of (os, None) \<Rightarrow> os | (os, Some _) \<Rightarrow> os @ [opt_error])"
| "getopt_long (w # v # ws) =
     (if w = ''--'' then []
      else case opt_word w of (os, None) \<Rightarrow> os @ getopt_long (v # ws) | (os, Some c) \<Rightarrow> os @ (c, v) # getopt_long ws)"

definition rtdbd_command :: "string list \<Rightarrow> int + cli" where
  "rtdbd_command argv = parse_opts (getopt_long (tl argv)) cli_defaults"

text \<open>The process from its words on.\<close>

definition rtdbd_argv_main :: "string list \<Rightarrow> main_env \<Rightarrow> host \<Rightarrow> (main_res \<times> host) option" where
  "rtdbd_argv_main argv e ho = rtdbd_main (getopt_long (tl argv)) e ho"

section \<open>Parsing option by option\<close>

lemma parse_opts_append:
  "parse_opts (xs @ ys) c = (case parse_opts xs c of Inl rc \<Rightarrow> Inl rc | Inr c \<Rightarrow> parse_opts ys c)"
  by (induction xs c rule: parse_opts.induct) (simp_all split: option.split)

text \<open>Two configurations that differ at most in what a worker does not use.\<close>

definition same_service :: "cli \<Rightarrow> cli \<Rightarrow> bool" where
  "same_service c d \<longleftrightarrow> cl_socket c = cl_socket d \<and> cl_instance c = cl_instance d \<and> cl_policy c = cl_policy d
     \<and> cl_config c = cl_config d \<and> cl_max_points c = cl_max_points d \<and> cl_max_subs c = cl_max_subs d
     \<and> cl_stats_file c = cl_stats_file d \<and> cl_delta c = cl_delta d"

fun same_parse :: "int + cli \<Rightarrow> int + cli \<Rightarrow> bool" where
  "same_parse (Inl a) (Inl b) = (a = b)"
| "same_parse (Inr c) (Inr d) = same_service c d"
| "same_parse _ _ = False"

lemma parse_opts_same: "same_service c d \<Longrightarrow> same_parse (parse_opts os c) (parse_opts os d)"
proof (induction os arbitrary: c d)
  case (Cons o1 os)
  obtain opt arg where o1: "o1 = (opt, arg)" by (cases o1)
  have "same_parse (parse_opts os c') (parse_opts os d')" if "same_service c' d'" for c' d' using Cons.IH [OF that] .
  then show ?case
    using Cons.prems unfolding o1 parse_opts.simps same_service_def by (simp split: option.split)
qed simp

lemma same_parse_refl: "same_parse r r"
  by (cases r) (simp_all add: same_service_def)

lemma same_parse_trans: "same_parse a b \<Longrightarrow> same_parse b c \<Longrightarrow> same_parse a c"
  by (cases a; cases b; cases c) (simp_all add: same_service_def)

lemma same_parse_then:
  assumes "same_parse (parse_opts xs c) (parse_opts ys d)" "\<And>c d. same_service c d \<Longrightarrow> same_parse (parse_opts zs c) (parse_opts zs' d)"
  shows "same_parse (parse_opts (xs @ zs) c) (parse_opts (ys @ zs') d)"
  using assms by (cases "parse_opts xs c"; cases "parse_opts ys d") (simp_all add: parse_opts_append)

lemma supervise_same: "same_parse (parse_opts ((CHR ''S'', a) # os) c) (parse_opts os c)"
  by (simp, rule parse_opts_same) (simp add: same_service_def)

lemma pidfile_same: "same_parse (parse_opts ((CHR ''P'', a) # os) c) (parse_opts os c)"
  by (simp, rule parse_opts_same) (simp add: same_service_def)

section \<open>What the worker gets\<close>

text \<open>
  The command lines on which the textual removal of the two options agrees with the option parser:
  the options are spelled \<open>--supervise\<close> and \<open>--pidfile FILE\<close>, neither word is the argument of another
  option, and no other spelling asks for supervision. There are no operands, which \<open>getopt_long\<close>
  would move behind the options before the words are copied; the daemon has none.
\<close>

fun spelled :: "string list \<Rightarrow> bool" where
  "spelled [] = True"
| "spelled [w] =
     (w = ''--supervise'' \<or> w \<noteq> ''--pidfile'' \<and> opt_word w \<noteq> ([], None) \<and> CHR ''S'' \<notin> fst ` set (fst (opt_word w)) \<and> snd (opt_word w) = None)"
| "spelled (w # v # ws) =
     (if w = ''--supervise'' then spelled (v # ws)
      else if w = ''--pidfile'' then spelled ws
      else w \<noteq> ''--'' \<and> opt_word w \<noteq> ([], None) \<and> CHR ''S'' \<notin> fst ` set (fst (opt_word w)) \<and>
        (if snd (opt_word w) = None then spelled (v # ws)
         else v \<noteq> ''--supervise'' \<and> v \<noteq> ''--pidfile'' \<and> spelled ws))"

lemma opt_supervise: "opt_word ''--supervise'' = ([(CHR ''S'', [])], None)"
  by (simp add: opt_word_def long_word_def find_long_def long_opts_def)

lemma opt_pidfile: "opt_word ''--pidfile'' = ([], Some CHR ''P'')"
  by (simp add: opt_word_def long_word_def find_long_def long_opts_def)

lemmas arg_eval = rtdbd_command_def worker_args_def opt_word_def long_word_def find_long_def long_opts_def
  short_opts_def opt_error_def cli_defaults_def parse_u32_cli_def

lemma getopt_supervise: "getopt_long (''--supervise'' # ws) = (CHR ''S'', []) # getopt_long ws"
  by (cases ws) (simp_all add: opt_supervise)

lemma strip_same:
  "spelled ws \<Longrightarrow> same_service c d \<Longrightarrow>
     same_parse (parse_opts (getopt_long ws) c) (parse_opts (getopt_long (strip_args ws)) d)"
proof (induction ws arbitrary: c d rule: spelled.induct)
  case 1
  then show ?case by simp
next
  case (2 w)
  then show ?case
    using parse_opts_same [of c d] by (cases "w = ''--supervise''") (auto simp: opt_supervise same_service_def)
next
  case (3 w v ws)
  consider (sup) "w = ''--supervise''" | (pid) "w = ''--pidfile''"
    | (alone) "w \<noteq> ''--supervise''" "w \<noteq> ''--pidfile''" "w \<noteq> ''--''" "snd (opt_word w) = None" "spelled (v # ws)"
    | (arg) a where "w \<noteq> ''--supervise''" "w \<noteq> ''--pidfile''" "w \<noteq> ''--''" "snd (opt_word w) = Some a" "spelled ws"
        "v \<noteq> ''--supervise''" "v \<noteq> ''--pidfile''"
    using 3(5) by (auto split: if_splits)
  then show ?case
  proof cases
    case sup
    then have "same_parse (parse_opts (getopt_long (v # ws)) c) (parse_opts (getopt_long (strip_args (v # ws))) d)"
      using 3 by simp
    moreover have "getopt_long (w # v # ws) = (CHR ''S'', []) # getopt_long (v # ws)" by (simp only: sup getopt_supervise)
    ultimately show ?thesis using same_parse_trans [OF supervise_same] sup by simp
  next
    case pid
    then have "same_parse (parse_opts (getopt_long ws) c) (parse_opts (getopt_long (strip_args ws)) d)"
      using 3 by simp
    then show ?thesis using same_parse_trans [OF pidfile_same] pid by (simp add: opt_pidfile)
  next
    case alone
    let ?rest = "strip_args (v # ws)"
    have split: "getopt_long (w # us) = fst (opt_word w) @ getopt_long us" for us
      using alone by (cases us) (simp_all add: case_prod_beta)
    have strip: "strip_args (w # v # ws) = w # ?rest" using alone by (simp only: strip_args.simps if_False)
    have "same_parse (parse_opts (getopt_long (v # ws)) c) (parse_opts (getopt_long ?rest) d)" if "same_service c d" for c d
      using 3(3) [OF alone(1,2)] alone that by simp
    then show ?thesis
      unfolding strip split by (intro same_parse_then parse_opts_same 3(6))
  next
    case (arg a)
    have split: "getopt_long (w # v # us) = (fst (opt_word w) @ [(a, v)]) @ getopt_long us" for us
      using arg by (simp add: case_prod_beta)
    have strip: "strip_args (w # v # ws) = w # v # strip_args ws" using arg by simp
    have "same_parse (parse_opts (getopt_long ws) c) (parse_opts (getopt_long (strip_args ws)) d)" if "same_service c d" for c d
      using 3(4) [OF arg(1,2)] arg that by simp
    then show ?thesis
      unfolding strip split by (intro same_parse_then parse_opts_same 3(6))
  qed
qed

lemma parse_opts_supervise:
  "CHR ''S'' \<notin> fst ` set os \<Longrightarrow> parse_opts os c = Inr d \<Longrightarrow> cl_supervise d = cl_supervise c"
proof (induction os arbitrary: c)
  case (Cons o1 os)
  obtain opt arg where o1: "o1 = (opt, arg)" by (cases o1)
  have "cl_supervise d = cl_supervise c'" if "parse_opts os c' = Inr d" for c'
    using Cons.IH [OF _ that] Cons.prems(1) by simp
  from this [of "c\<lparr>cl_socket := arg\<rparr>"] this [of "c\<lparr>cl_instance := arg\<rparr>"] this [of "c\<lparr>cl_policy := Some arg\<rparr>"]
    this [of "c\<lparr>cl_config := Some arg\<rparr>"] this [of "c\<lparr>cl_max_points := the (parse_u32_cli arg)\<rparr>"]
    this [of "c\<lparr>cl_max_subs := the (parse_u32_cli arg)\<rparr>"] this [of "c\<lparr>cl_pidfile := Some arg\<rparr>"]
    this [of "c\<lparr>cl_stats_file := strncpy_to 255 arg\<rparr>"] this [of "c\<lparr>cl_delta := Some arg\<rparr>"] this [of c]
  show ?case
    using Cons.prems unfolding o1 parse_opts.simps by (simp split: if_splits option.splits)
qed simp

lemma short_word_pending: "snd (short_word cs) = Some c \<Longrightarrow> map_of short_opts c = Some True"
  by (induction cs) (auto split: option.splits if_splits)

lemma find_long_in: "find_long n = Some o1 \<Longrightarrow> o1 \<in> snd ` set long_opts"
proof -
  assume f: "find_long n = Some o1"
  show ?thesis
  proof (cases "map_of long_opts n")
    case None
    then obtain m where "filter (\<lambda>(k, _). take (length n) k = n) long_opts = [(m, o1)]"
      using f by (auto simp: find_long_def split: list.splits)
    then have "(m, o1) \<in> set (filter (\<lambda>(k, _). take (length n) k = n) long_opts)" by simp
    then show ?thesis by force
  next
    case (Some o2)
    then show ?thesis using f map_of_SomeD [OF Some] by (force simp: find_long_def)
  qed
qed

lemma pending_not_supervise: "snd (opt_word w) \<noteq> Some CHR ''S''"
proof -
  have "(True, CHR ''S'') \<notin> snd ` set long_opts" "map_of short_opts CHR ''S'' = Some False"
    by (simp_all add: long_opts_def short_opts_def)
  then show ?thesis
    using short_word_pending [of "drop 1 w" "CHR ''S''"] find_long_in [of "takeWhile (\<lambda>c. c \<noteq> CHR ''='') (drop 2 w)"]
    by (auto simp: opt_word_def long_word_def Let_def split: option.splits if_splits)
qed

lemma strip_no_supervise: "spelled ws \<Longrightarrow> CHR ''S'' \<notin> fst ` set (getopt_long (strip_args ws))"
proof (induction ws rule: spelled.induct)
  case (2 w)
  then show ?case by (auto simp: opt_error_def case_prod_beta split: option.split)
next
  case (3 w v ws)
  have S: "getopt_long (w # us) = fst (opt_word w) @ getopt_long us" if "snd (opt_word w) = None" "w \<noteq> ''--''" for us
    using that by (cases us) (simp_all add: case_prod_beta)
  show ?case
    using 3 S [of "strip_args (v # ws)"] pending_not_supervise [of w]
    by (auto simp: case_prod_beta split: if_splits option.splits)
qed simp

lemma check_cli_same: "same_service c d \<Longrightarrow> check_cli c = check_cli d"
  by (simp add: check_cli_def same_service_def)

text \<open>
  C30. A worker is started with the configuration of its supervisor: for every command line in which
  supervision and the pid file are asked for by their long names, in any place, and that leaves at
  most 30 words, the worker makes of its words the same settings or the same refusal as the
  supervisor made of its own, with the other spellings of all other options, and does not supervise.
\<close>

theorem worker_gets_same_service:
  assumes "spelled (tl argv)" "length (strip_args (tl argv)) \<le> 30"
  shows "case rtdbd_command argv of
      Inl rc \<Rightarrow> rtdbd_command (worker_args argv) = Inl rc
    | Inr c \<Rightarrow> \<exists>d. rtdbd_command (worker_args argv) = Inr d \<and> same_service c d \<and> \<not> cl_supervise d \<and> check_cli d = check_cli c"
proof -
  have w: "rtdbd_command (worker_args argv) = parse_opts (getopt_long (strip_args (tl argv))) cli_defaults"
    using assms(2) by (simp add: rtdbd_command_def worker_args_def)
  have "same_parse (rtdbd_command argv) (rtdbd_command (worker_args argv))"
    unfolding w unfolding rtdbd_command_def [of argv] by (rule strip_same [OF assms(1)]) (simp add: same_service_def)
  moreover have "\<not> cl_supervise d" if "rtdbd_command (worker_args argv) = Inr d" for d
    using parse_opts_supervise [OF strip_no_supervise [OF assms(1)]] that w by (simp add: cli_defaults_def)
  ultimately show ?thesis
    by (cases "rtdbd_command argv"; cases "rtdbd_command (worker_args argv)") (simp_all add: check_cli_same)
qed

definition demo_argv :: "string list" where
  "demo_argv = [''rtdbd'', ''--delta-file=/d'', ''--supervise'', ''-s/run/x'', ''--pidfile'', ''/run/p'', ''--conf'', ''/etc/c'']"

theorem worker_gets_same_service_witness:
  "\<exists>d. rtdbd_command (worker_args demo_argv) = Inr d \<and> cl_config d = Some ''/etc/c'' \<and> cl_socket d = ''/run/x''
     \<and> \<not> cl_supervise d"
proof -
  have "spelled (tl demo_argv)" "length (strip_args (tl demo_argv)) \<le> 30"
    by (simp_all add: demo_argv_def arg_eval)
  moreover have "map_sum id (\<lambda>c. (cl_config c, cl_socket c)) (rtdbd_command demo_argv) = Inr (Some ''/etc/c'', ''/run/x'')"
    by (simp add: demo_argv_def arg_eval)
  ultimately show ?thesis
    using worker_gets_same_service [of demo_argv] by (cases "rtdbd_command demo_argv") (auto simp: same_service_def)
qed

text \<open>
  The removal is by the spelling: supervision asked for by its letter or by an abbreviation reaches the
  worker, which supervises in its turn. And it stops at 30 words: what is behind is lost without a
  message, here the change log.
\<close>

theorem other_spelling_supervises:
  "map (\<lambda>w. map_sum id cl_supervise (rtdbd_command (worker_args [''rtdbd'', w]))) [''-S'', ''--sup'', ''--supervise''] =
     [Inr True, Inr True, Inr False]"
  by (simp add: arg_eval)

definition long_argv :: "string list" where
  "long_argv = ''rtdbd'' # replicate 30 ''-p/'' @ [''-D/d'']"

lemma many_policies:
  "getopt_long (replicate n ''-p/'' @ ws) = replicate n (CHR ''p'', ''/'') @ getopt_long ws"
  "strip_args (replicate n ''-p/'' @ ws) = replicate n ''-p/'' @ strip_args ws"
proof -
  have word: "getopt_long (''-p/'' # us) = (CHR ''p'', ''/'') # getopt_long us" for us
    by (cases us) (simp_all add: arg_eval)
  show "getopt_long (replicate n ''-p/'' @ ws) = replicate n (CHR ''p'', ''/'') @ getopt_long ws"
    by (induction n) (simp_all add: word del: getopt_long.simps)
  show "strip_args (replicate n ''-p/'' @ ws) = replicate n ''-p/'' @ strip_args ws"
    by (induction n) simp_all
qed

lemma command_policies:
  "rtdbd_command (x # replicate (Suc n) ''-p/'' @ ws) = parse_opts (getopt_long ws) (cli_defaults\<lparr>cl_policy := Some ''/''\<rparr>)"
proof -
  have "parse_opts (replicate n (CHR ''p'', ''/'') @ os) (c\<lparr>cl_policy := Some ''/''\<rparr>) =
      parse_opts os (c\<lparr>cl_policy := Some ''/''\<rparr>)" for os c
    by (induction n) simp_all
  then show ?thesis
    by (simp add: rtdbd_command_def many_policies(1) del: getopt_long.simps replicate.simps) simp
qed

lemma take_policies: "take n (replicate n w @ ws) = replicate n w"
  by simp

theorem long_command_line_is_cut:
  "map_sum id cl_delta (rtdbd_command long_argv) = Inr (Some ''/d'')"
  "map_sum id cl_delta (rtdbd_command (worker_args long_argv)) = Inr None"
proof -
  have n: "(30 :: nat) = Suc 29" by simp
  have opt: "getopt_long [''-D/d''] = [(CHR ''D'', ''/d'')]" by (simp add: arg_eval)
  show "map_sum id cl_delta (rtdbd_command long_argv) = Inr (Some ''/d'')"
    unfolding long_argv_def n command_policies opt by simp
  have "worker_args long_argv = ''/proc/self/exe'' # replicate 30 ''-p/'' @ []"
    unfolding worker_args_def long_argv_def list.sel many_policies(2) take_policies by simp
  then show "map_sum id cl_delta (rtdbd_command (worker_args long_argv)) = Inr None"
    unfolding n by (simp only: command_policies) (simp add: cli_defaults_def)
qed

end
