(* ===== verification/Diag_Harness.thy ===== *)
theory Diag_Harness
  imports Typed_Values Instances_Props
begin

text \<open>
  The harness behind the diagnostic commands (\<^verbatim>\<open>tools/irt_diag/c_harness/smoke_leak.c\<close>): a smoke run
  through the old interface, from starting to stopping, and repeated starts and stops. It is the whole
  library at work in one process: the smoke run passes on every host with a free slot, and neither
  mode leaves an instance, a slot or a name behind, whatever the system calls answer.
\<close>

section \<open>The command line\<close>

text \<open>\<open>atoi\<close> within the range of \<open>int\<close>; beyond it the C function is undefined.\<close>

definition c_atoi :: "string \<Rightarrow> int" where
  "c_atoi s =
     (let t = dropWhile isspace s;
          neg = (t \<noteq> [] \<and> hd t = CHR ''-'');
          t = (if t \<noteq> [] \<and> (hd t = CHR ''-'' \<or> hd t = CHR ''+'') then tl t else t);
          n = int (digits_val 10 (takeWhile (is_digit 10) t))
      in if neg then - n else n)"

record harness =
  hs_mode :: "string option"
  hs_id :: string
  hs_points :: int
  hs_subs :: int
  hs_cycles :: int

definition harness_defaults :: harness where
  "harness_defaults = \<lparr>hs_mode = None, hs_id = ''diag_smoke'', hs_points = 64, hs_subs = 4, hs_cycles = 20\<rparr>"

fun harness_args :: "string list \<Rightarrow> harness \<Rightarrow> harness option" where
  "harness_args [] h = Some h"
| "harness_args [a] h =
     (if a = ''--smoke'' then Some (h\<lparr>hs_mode := Some ''smoke''\<rparr>)
      else if a = ''--leak'' then Some (h\<lparr>hs_mode := Some ''leak''\<rparr>)
      else None)"
| "harness_args (a # v # as) h =
     (if a = ''--smoke'' then harness_args (v # as) (h\<lparr>hs_mode := Some ''smoke''\<rparr>)
      else if a = ''--leak'' then harness_args (v # as) (h\<lparr>hs_mode := Some ''leak''\<rparr>)
      else if a = ''--id'' then harness_args as (h\<lparr>hs_id := v\<rparr>)
      else if a = ''--points'' then harness_args as (h\<lparr>hs_points := c_atoi v\<rparr>)
      else if a = ''--subs'' then harness_args as (h\<lparr>hs_subs := c_atoi v\<rparr>)
      else if a = ''--cycles'' then harness_args as (h\<lparr>hs_cycles := c_atoi v\<rparr>)
      else None)"

section \<open>The two modes\<close>

text \<open>\<open>shm_unlink\<close> of the name that an earlier run may have left.\<close>

definition cleanup :: "string \<Rightarrow> world \<Rightarrow> world" where
  "cleanup hid w = w\<lparr>w_names := (w_names w)(strncpy_to 255 (''/indurtdb_'' @ hid) := None)\<rparr>"

text \<open>A run: the lines it prints, its exit code, the world it leaves; \<open>None\<close>: a loop of a read does not
  end, or the undefined shift that finds a slot.\<close>

type_synonym run_result = "(string list \<times> int \<times> world) option"

definition say :: "string \<Rightarrow> run_result \<Rightarrow> run_result" where
  "say l r = map_option (\<lambda>(ls, ec, w). (l # ls, ec, w)) r"

text \<open>The callback does nothing; its address is any but null. Nobody else uses the segment.\<close>

definition on_point :: reaction where
  "on_point call sub = sub"

definition own_read :: "world \<Rightarrow> u32 \<Rightarrow> obs" where
  "own_read w pid = (case w_default w of None \<Rightarrow> [] | Some i \<Rightarrow> quiet (h_shm (view w i)) pid)"

definition harness_start :: "map_fault \<Rightarrow> harness \<Rightarrow> world \<Rightarrow> (int \<times> world) option" where
  "harness_start flt h w = indurtdb_initialize flt (hs_id h) (word_of_int (hs_points h)) (word_of_int (hs_subs h)) w"

definition smoke_subscribe :: "nat \<Rightarrow> world \<Rightarrow> run_result" where
  "smoke_subscribe cb w =
     (let (rc, w) = indurtdb_subscribe 1 cb 0 w
      in if rc \<noteq> 0 then Some ([''SMOKE_FAIL step=subscribe''], 1, indurtdb_shutdown w)
         else say ''SMOKE_SUB ok''
           (let (rc, w) = indurtdb_unsubscribe 1 w
            in if rc \<noteq> 0 then Some ([''SMOKE_FAIL step=unsubscribe''], 1, indurtdb_shutdown w)
               else say ''SMOKE_UNSUB ok'' (Some ([''SMOKE_SHUTDOWN ok''], 0, indurtdb_shutdown w))))"

definition smoke_run :: "map_fault \<Rightarrow> harness \<Rightarrow> u64 \<Rightarrow> nat \<Rightarrow> world \<Rightarrow> run_result" where
  "smoke_run flt h now cb w =
     (case harness_start flt h w of
        None \<Rightarrow> None
      | Some (rc, w) \<Rightarrow>
          if rc \<noteq> 0 then Some ([''SMOKE_FAIL step=init''], 1, w)
          else say ''SMOKE_INIT ok''
            (let ((rc, _), w) = indurtdb_write_int32 on_point now 1 42 w
             in if rc \<noteq> 0 then Some ([''SMOKE_FAIL step=write''], 1, indurtdb_shutdown w)
                else say ''SMOKE_WRITE ok''
                  (case indurtdb_read_int32 (own_read w 1) 1 w of
                     None \<Rightarrow> None
                   | Some ((rc, v), w) \<Rightarrow>
                       if rc \<noteq> 0 \<or> v \<noteq> Some 42 then Some ([''SMOKE_FAIL step=read''], 1, indurtdb_shutdown w)
                       else say (''SMOKE_READ ok value='' @ dec_digits (unat (the v))) (smoke_subscribe cb w))))"

text \<open>The cycles of the other mode; the result is the cycle whose start failed.\<close>

primrec leak_loop :: "(nat \<Rightarrow> map_fault) \<Rightarrow> harness \<Rightarrow> nat \<Rightarrow> nat \<Rightarrow> world \<Rightarrow> (nat option \<times> world) option" where
  "leak_loop flt h 0 c w = Some (None, w)"
| "leak_loop flt h (Suc n) c w =
     (case harness_start (flt c) h w of
        None \<Rightarrow> None
      | Some (rc, w) \<Rightarrow>
          if rc \<noteq> 0 then Some (Some c, w) else leak_loop flt h n (Suc c) (indurtdb_shutdown w))"

definition dec_int :: "int \<Rightarrow> string" where
  "dec_int n = (if n < 0 then CHR ''-'' # dec_digits (nat (- n)) else dec_digits (nat n))"

text \<open>\<open>fds\<close> are the numbers of open descriptors that are counted before and after.\<close>

definition leak_run :: "(nat \<Rightarrow> map_fault) \<Rightarrow> harness \<Rightarrow> int \<times> int \<Rightarrow> world \<Rightarrow> run_result" where
  "leak_run flt h fds w =
     say (''LEAK_INIT_FD '' @ dec_int (fst fds))
       (case leak_loop flt h (nat (hs_cycles h)) 0 w of
          None \<Rightarrow> None
        | Some (Some c, w) \<Rightarrow> Some ([''LEAK_FAIL step=init cycle='' @ dec_digits c], 1, w)
        | Some (None, w) \<Rightarrow> Some ([''LEAK_FINAL_FD '' @ dec_int (snd fds)], 0, w))"

definition harness_main ::
  "string list \<Rightarrow> (nat \<Rightarrow> map_fault) \<Rightarrow> u64 \<Rightarrow> nat \<Rightarrow> int \<times> int \<Rightarrow> world \<Rightarrow> run_result" where
  "harness_main argv flt now cb fds w =
     (case harness_args (tl argv) harness_defaults of
        None \<Rightarrow> Some ([], 2, w)
      | Some h \<Rightarrow>
          (case hs_mode h of
             None \<Rightarrow> Some ([], 2, w)
           | Some m \<Rightarrow>
               let w = cleanup (hs_id h) w
               in if m = ''smoke'' then smoke_run (flt 0) h now cb w else leak_run flt h fds w))"

section \<open>Starting and stopping the default instance\<close>

text \<open>A process that has no default instance and a slot for one.\<close>

definition idle :: "world \<Rightarrow> bool" where
  "idle w \<longleftrightarrow> world_ok w \<and> w_default w = None \<and> (\<exists>i < 32. \<not> bit (w_used w) i)"

text \<open>Nothing is left behind: the names, the slots in use and the other instances are as before.\<close>

definition left_as :: "world \<Rightarrow> world \<Rightarrow> bool" where
  "left_as w w' \<longleftrightarrow> world_ok w' \<and> w_names w' = w_names w \<and> w_used w' = w_used w \<and> w_default w' = None
     \<and> (\<forall>i < 64. slot_init w' i = slot_init w i \<and> (slot_init w i \<longrightarrow> w_registry w' ! i = w_registry w ! i))"

lemma left_as_refl: "idle w \<Longrightarrow> left_as w w"
  by (simp add: idle_def left_as_def)

lemma left_as_trans: "left_as w v \<Longrightarrow> left_as v u \<Longrightarrow> left_as w u"
  by (simp add: left_as_def)

lemma left_as_idle: "idle w \<Longrightarrow> left_as w w' \<Longrightarrow> idle w'"
  by (simp add: idle_def left_as_def)

lemma left_asI:
  assumes "world_ok w'" "w_names w' = w_names w" "w_used w' = w_used w" "w_default w' = None"
    and "\<And>i. i \<noteq> j \<Longrightarrow> w_registry w' ! i = w_registry w ! i" "\<not> slot_init w' j" "\<not> slot_init w j"
  shows "left_as w w'"
proof -
  have "slot_init w' i = slot_init w i \<and> (slot_init w i \<longrightarrow> w_registry w' ! i = w_registry w ! i)" for i
    using assms(5-7) by (cases "i = j") (simp_all add: slot_init_def)
  then show ?thesis using assms(1-4) by (simp add: left_as_def)
qed

text \<open>Slot \<open>j\<close> holds the default instance with handle \<open>h\<close>; otherwise the process is as in \<open>w\<close>.\<close>

definition running :: "string \<Rightarrow> world \<Rightarrow> nat \<Rightarrow> indurtdb \<Rightarrow> world \<Rightarrow> bool" where
  "running nm w j h w' \<longleftrightarrow> world_ok w' \<and> w_default w' = Some j \<and> j < 32 \<and> \<not> bit (w_used w) j
     \<and> w_used w' = w_used w OR push_bit j 1
     \<and> (\<exists>k. os_mapped (in_os (w_registry w' ! j)) = Some k \<and> w_names w' = (w_names w)(nm \<mapsto> k))
     \<and> os_owner (in_os (w_registry w' ! j)) \<and> os_name (in_os (w_registry w' ! j)) = nm
     \<and> view w' j = h \<and> (\<forall>i. i \<noteq> j \<longrightarrow> w_registry w' ! i = w_registry w ! i)"

lemma used_back: "\<not> bit (u :: u32) j \<Longrightarrow> (u OR push_bit j 1) AND NOT (push_bit j 1) = u"
  by (rule bit_word_eqI) (auto simp: bit_simps)

lemma unused_slot: "world_ok w \<Longrightarrow> \<not> bit (w_used w) j \<Longrightarrow> j < 64 \<Longrightarrow> \<not> slot_init w j"
  by (auto simp: world_ok_def)

lemma stop_running:
  assumes w: "idle w" "w_names w nm = None" and r: "running nm w j h w'"
  shows "left_as w (indurtdb_shutdown w')"
proof -
  have d: "w_default w' = Some j" "world_ok w'" "os_owner (in_os (w_registry w' ! j))"
    and j: "j < 32" "\<not> bit (w_used w) j" "w_used w' = w_used w OR push_bit j 1"
    and nm: "os_name (in_os (w_registry w' ! j)) = nm" "\<exists>k. w_names w' = (w_names w)(nm \<mapsto> k)"
    and other: "\<And>i. i \<noteq> j \<Longrightarrow> w_registry w' ! i = w_registry w ! i"
    using r by (auto simp: running_def)
  have "w_names (indurtdb_shutdown w') = w_names w"
    unfolding shutdown_frame(4) [OF d] nm(1) using nm(2) w(2) by auto
  moreover have s: "indurtdb_shutdown w' = inst_free j ((inst_shutdown j w')\<lparr>w_default := None\<rparr>)"
    by (simp add: indurtdb_shutdown_def indurtdb_h_close_def d(1) Let_def)
  then have "w_used (indurtdb_shutdown w') = w_used w"
    using used_back [OF j(2)] j(3) by (simp add: inst_free_def)
  moreover have "world_ok (indurtdb_shutdown w')"
    unfolding indurtdb_shutdown_def using close_ok [OF d(2)] d(1) j(1) by simp
  moreover have reg: "w_registry (indurtdb_shutdown w') ! i = w_registry w ! i" if "i \<noteq> j" for i
    using shutdown_other [OF that, of w'] other [OF that] by (simp add: s)
  moreover have "\<not> slot_init (indurtdb_shutdown w') j"
    using shutdown_off [of w' j] d(2) j(1) by (simp add: s slot_init_def world_ok_parts)
  moreover have "\<not> slot_init w j" using unused_slot [of w j] w(1) j by (simp add: idle_def)
  moreover have "w_default (indurtdb_shutdown w') = None" using shutdown_frame(2) [OF d] .
  ultimately show ?thesis by (intro left_asI [of _ _ j])
qed

lemma op_running:
  assumes "running nm w j h w'" "initialized h'"
  shows "running nm w j h' (write_back j h' w')"
proof -
  obtain k where k: "os_mapped (in_os (w_registry w' ! j)) = Some k" using assms(1) by (auto simp: running_def)
  have len: "j < length (w_registry w')" and ok: "world_ok w'" and d: "w_default w' = Some j"
    using assms(1) by (auto simp: running_def world_ok_def)
  let ?w = "write_back j h' w'"
  have sel: "w_registry ?w = (w_registry w')[j := (w_registry w' ! j)\<lparr>in_h := h'\<rparr>]" "w_used ?w = w_used w'"
    "w_default ?w = w_default w'" "w_names ?w = w_names w'" "w_next ?w = w_next w'"
    "w_segs ?w k = segment.truncate (h_shm h')" "w_error ?w = last_error h'"
    by (simp_all add: write_back_def Let_def k put_inst_def)
  have os: "in_os (w_registry ?w ! i) = in_os (w_registry w' ! i)" for i by (simp add: sel(1) nth_upd)
  have "slot_init w' j" using ok d by (auto simp: world_ok_def)
  then have si: "slot_init ?w i = slot_init w' i" for i
    using assms(2) len by (auto simp: slot_init_def sel(1) nth_upd)
  have "world_ok ?w" using ok len unfolding world_ok_def os si unfolding sel by simp
  moreover have "view ?w j = h'"
    using handle_on_truncate [of "h_shm h'"] len by (simp add: view_def Let_def os k sel)
  moreover have "w_registry ?w ! i = w_registry w' ! i" if "i \<noteq> j" for i using that by (simp add: sel(1))
  ultimately show ?thesis using assms(1) unfolding running_def os sel(2-4) by simp
qed

text \<open>The handle right after the start on a new segment.\<close>

definition started_on :: "u32 \<Rightarrow> u32 \<Rightarrow> u32 \<Rightarrow> indurtdb \<Rightarrow> bool" where
  "started_on mp ms me h \<longleftrightarrow> h_shm h = fresh_shm mp ms me \<and> initialized h \<and> h_sub h = irt_sub_init"

lemma start_default:
  fixes hid :: string and w :: world
  defines "nm \<equiv> IRT_SHM_PREFIX @ hid"
  assumes w: "idle w" "w_names w nm = None"
  obtains (failed) rc w' where "indurtdb_initialize flt hid mp ms w = Some (rc, w')" "rc \<noteq> 0" "left_as w w'"
      "flt \<noteq> No_fault \<or> hid = [] \<or> mp = 0 \<or> 64 \<le> length nm"
  | (started) j h w' where "indurtdb_initialize flt hid mp ms w = Some (0, w')" "running nm w j h w'"
      "started_on mp ms (w_pid w) h" "flt = No_fault" "hid \<noteq> []" "mp \<noteq> 0" "length nm < 64"
proof -
  obtain i where "i < 32" "\<not> bit (w_used w) i" using w(1) by (auto simp: idle_def)
  then have "alloc_scan (w_used w) [0..<64] \<noteq> None" by (intro alloc_scan_defined) simp_all
  then have "inst_alloc w \<noteq> None" by (auto simp: inst_alloc_def IRT_MAX_INSTANCES_def split: option.split)
  then obtain r w1 where a: "inst_alloc w = Some (r, w1)" by (metis not_None_eq prod.collapse)
  from inst_alloc_cases [OF a] obtain j where
    j: "r = Some j" "j < 32" "\<not> bit (w_used w) j"
      "w1 = put_inst j (zero_instance\<lparr>in_h := zero_handle\<lparr>delta_fd := -1\<rparr>\<rparr>) (w\<lparr>w_used := w_used w OR push_bit j 1\<rparr>)"
    by blast
  have wok: "world_ok w" "slots_ok w" "w_default w = None" using w(1) by (simp_all add: idle_def world_ok_parts)
  note al = alloc_slots [OF wok(2) j(2,3), folded j(4)]
  let ?x = "w1\<lparr>w_default := Some j\<rparr>"
  have x: "w_names ?x = w_names w" "w_used ?x = w_used w OR push_bit j 1" "w_pid ?x = w_pid w"
    "\<And>i. i \<noteq> j \<Longrightarrow> w_registry ?x ! i = w_registry w ! i" "length (w_registry ?x) = 64"
    using j(4) al wok(1) by (simp_all add: world_ok_def)
  have off: "\<not> initialized (in_h (w_registry ?x ! j))" using al by (simp add: slot_init_def)
  then have nf: "\<not> forked ?x (in_h (w_registry ?x ! j))" by (simp add: forked_def)
  have offw: "\<not> slot_init w j" using al by simp
  obtain rc y where y: "inst_init flt j hid mp ms ?x = (rc, y)" by (metis prod.collapse)
  have ini: "indurtdb_initialize flt hid mp ms w = Some (if rc \<noteq> 0 then (rc, (inst_free j y)\<lparr>w_default := None\<rparr>) else (rc, y))"
    using wok(3) a j(1) y by (simp add: indurtdb_initialize_def Let_def)
  text \<open>A start that fails gives the slot back.\<close>
  have fail: thesis if rc: "rc \<noteq> 0" and names: "w_names y = w_names w"
    and why: "flt \<noteq> No_fault \<or> hid = [] \<or> mp = 0 \<or> 64 \<le> length nm"
  proof -
    let ?z = "(inst_free j y)\<lparr>w_default := None\<rparr>"
    have sx: "slots_ok ?x" "bit (w_used ?x) j" "\<not> slot_init ?x j"
      using al by (simp_all add: slots_ok_default slot_init_def)
    note o = inst_init_slots [OF y sx(1) j(2) sx(2)]
    have "world_ok ?z" using initialize_ok [OF wok(1)] ini rc by simp
    moreover have "w_used ?z = w_used w" using o x(2) used_back [OF j(3)] by (simp add: inst_free_def)
    moreover have "w_registry ?z ! i = w_registry w ! i" if "i \<noteq> j" for i using o x(4) that by simp
    moreover have "\<not> slot_init ?z j" using o sx(3) rc by (simp add: slot_init_def)
    ultimately have "left_as w ?z" using names offw by (intro left_asI [of _ _ j]) simp_all
    then show thesis using failed [of rc ?z] ini rc why by simp
  qed
  show thesis
  proof (cases "hid = [] \<or> mp = 0")
    case True
    then have "rc = INDURTDB_ERR_ARG" "y = werr ''invalid argument'' ?x"
      using y nf off by (auto simp: inst_init_def Let_def)
    then show thesis using True x(1) by (intro fail) (auto simp: irt_codes)
  next
    case args: False
    show thesis
    proof (cases "flt = No_fault \<and> length nm < 64")
      case True
      then have "w_names ?x nm = None" using w(2) x(1) by simp
      with shm_init_create [of ?x hid mp ms] args True nm_def obtain os where
        s: "shm_init flt hid mp ms ?x = (0, Some (fresh_shm mp ms (w_pid ?x), os),
             ?x\<lparr>w_names := (w_names ?x)(nm \<mapsto> w_next ?x), w_segs := (w_segs ?x)(w_next ?x := segment.truncate (fresh_shm mp ms (w_pid ?x))),
               w_next := Suc (w_next ?x)\<rparr>)"
          "os_mapped os = Some (w_next ?x)" "os_owner os" "os_name os = nm" by auto
      let ?h = "zero_handle\<lparr>delta_fd := -1, default_partition := 0, h_shm := fresh_shm mp ms (w_pid ?x),
          h_sub := irt_sub_init, initialized := True, h_owner_pid := w_pid ?x\<rparr>"
      have i: "rc = 0" "y = put_inst j \<lparr>in_h = ?h, in_os = os\<rparr> (?x\<lparr>w_names := (w_names ?x)(nm \<mapsto> w_next ?x),
          w_segs := (w_segs ?x)(w_next ?x := segment.truncate (fresh_shm mp ms (w_pid ?x))), w_next := Suc (w_next ?x)\<rparr>)"
        using y nf off args s(1) by (simp_all add: inst_init_def Let_def)
      have yj: "w_registry y ! j = \<lparr>in_h = ?h, in_os = os\<rparr>" using x(5) j(2) by (simp add: i(2))
      have other: "w_registry y ! i = w_registry w ! i" if "i \<noteq> j" for i
        using x(4) [OF that] that by (simp add: i(2))
      have "world_ok y" using initialize_ok [OF wok(1)] ini i(1) by simp
      moreover have "view y j = ?h\<lparr>last_error := w_error y\<rparr>"
        using handle_on_truncate [of "fresh_shm mp ms (w_pid ?x)"] s(2) by (simp add: view_def Let_def yj) (simp add: i(2))
      ultimately have "running nm w j (?h\<lparr>last_error := w_error y\<rparr>) y"
        using j(2,3) s(2-4) x(1,2) other by (simp add: running_def yj) (simp add: i(2))
      then show thesis
        using started [of y j "?h\<lparr>last_error := w_error y\<rparr>"] ini i(1) True args x(3) by (simp add: started_on_def)
    next
      case False
      have nm0: "nm \<noteq> []" by (simp add: nm_def IRT_SHM_PREFIX_def)
      have free: "length nm < 64 \<Longrightarrow> w_names w1 nm = None" using w(2) x(1) by simp
      have "fst (irt_shm_os_map flt zero_os nm (zero_segment mp ms) ?x) = None"
          "snd (snd (irt_shm_os_map flt zero_os nm (zero_segment mp ms) ?x)) = ?x"
        using False nm0 free
        by (cases "64 \<le> length nm"; cases flt; simp add: irt_shm_os_map_def zero_os_def Let_def)+
      then obtain s where m: "irt_shm_os_map flt zero_os nm (zero_segment mp ms) ?x = (None, s, ?x)"
        by (metis prod.collapse)
      have "\<exists>rc. shm_init flt hid mp ms ?x = (rc, None, ?x)"
        using m args by (auto simp: shm_init_def Let_def nm_def irt_shm_init_def)
      then have "rc = INDURTDB_ERR_ARG" "w_names y = w_names w"
        using y nf off args x(1) by (auto simp: inst_init_def Let_def)
      then show thesis using False by (intro fail) (auto simp: irt_codes)
    qed
  qed
qed

section \<open>The smoke run\<close>

lemma v1_int_zero: "v1_int rc = 0 \<longleftrightarrow> rc = 0"
  by (simp add: v1_int_def irt_codes)

lemma on_default:
  "on_handle f (Some j) w = (fst (f (view w j)), write_back j (snd (f (view w j))) w)"
  "on_handle_opt g (Some j) w = map_option (\<lambda>(r, h). (r, write_back j h w)) (g (view w j))"
  by (simp_all add: on_handle_def on_handle_opt_def split_beta)

lemma write_running:
  assumes "running nm w j h w'" "initialized h" "indurtdb_write_int32 react now pid v w' = ((rc, cs), w'')"
  shows "\<exists>rc0 cs0 h'. write_value react h now pid (V_int32 v) = (rc0, cs0, h') \<and> rc = v1_int rc0
    \<and> running nm w j h' w'' \<and> initialized h'"
proof -
  obtain rc0 cs0 h' where v: "indurtdb_h_write_int32 react h now pid v = (rc0, cs0, h')" by (metis prod_cases3)
  have d: "w_default w' = Some j" "view w' j = h" using assms(1) by (simp_all add: running_def)
  have r: "rc = v1_int rc0" "w'' = write_back j h' w'"
    using assms(3) v d by (simp_all add: indurtdb_write_int32_def on_default Let_def)
  have "initialized (snd (snd (indurtdb_h_write_int32 react h now pid v)))"
    using assms(2) write_and_notify_shm(2) [of react h "fst (irt_pm_write_int32 (h_shm h) now pid v)" "snd (irt_pm_write_int32 (h_shm h) now pid v)" pid]
    by (simp add: indurtdb_h_write_int32_def ensure_h3_def)
  then show ?thesis using op_running [OF assms(1)] r v by simp
qed

lemma h_read_init: "h_read get h ob pid = Some (r, h') \<Longrightarrow> initialized h' = initialized h"
  by (auto simp: h_read_def split: if_splits option.splits prod.splits)

lemma read_running:
  assumes "running nm w j h w'" "initialized h" "indurtdb_read_int32 ob pid w' = Some ((rc, v), w'')"
  shows "\<exists>h'. running nm w j h' w'' \<and> initialized h'"
proof -
  have d: "w_default w' = Some j" "view w' j = h" using assms(1) by (simp_all add: running_def)
  obtain r h' where "indurtdb_h_read_int32 h ob pid = Some (r, h')" "w'' = write_back j h' w'"
    using assms(3) d by (auto simp: indurtdb_read_int32_def on_default)
  then show ?thesis
    using op_running [OF assms(1), of h'] h_read_init assms(2) by (fastforce simp: indurtdb_h_read_int32_def)
qed

lemma subscribe_running:
  assumes "running nm w j h w'" "initialized h" "indurtdb_subscribe pid cb ud w' = (rc, w'')"
  shows "\<exists>sub. irt_sub_subscribe (h_sub h) pid cb ud = (rc, sub) \<and> running nm w j (h\<lparr>h_sub := sub\<rparr>) w''"
proof -
  have d: "w_default w' = Some j" "view w' j = h" using assms(1) by (simp_all add: running_def)
  obtain rc0 sub where s: "irt_sub_subscribe (h_sub h) pid cb ud = (rc0, sub)" by (metis prod.collapse)
  have "rc0 \<in> {0, -1}" using s by (auto simp: irt_sub_subscribe_def split: if_splits)
  then have "rc = rc0" "w'' = write_back j (h\<lparr>h_sub := sub\<rparr>) w'"
    using assms(2,3) d s by (auto simp: indurtdb_subscribe_def on_default indurtdb_h_subscribe_def ensure_h_def v1_int_def irt_codes)
  then show ?thesis using op_running [OF assms(1), of "h\<lparr>h_sub := sub\<rparr>"] s assms(2) by simp
qed

lemma unsubscribe_running:
  assumes "running nm w j h w'" "initialized h" "indurtdb_unsubscribe pid w' = (rc, w'')"
  shows "\<exists>h' rc0. fst (irt_sub_unsubscribe (h_sub h) pid) = rc0 \<and> rc = v1_int rc0 \<and> running nm w j h' w''"
proof -
  have d: "w_default w' = Some j" "view w' j = h" using assms(1) by (simp_all add: running_def)
  obtain rc0 sub where s: "irt_sub_unsubscribe (h_sub h) pid = (rc0, sub)" by (metis prod.collapse)
  have "rc = v1_int rc0" "w'' = write_back j (h\<lparr>h_sub := sub\<rparr>) w'"
    using assms(2,3) d s by (auto simp: indurtdb_unsubscribe_def on_default indurtdb_h_unsubscribe_def ensure_h_def)
  then show ?thesis using op_running [OF assms(1), of "h\<lparr>h_sub := sub\<rparr>"] s assms(2) by auto
qed

text \<open>Every end of the run stops the instance.\<close>

lemma smoke_subscribe_leaves:
  assumes "idle w" "w_names w nm = None" "running nm w j h w'" "initialized h"
  shows "\<exists>ls ec w''. smoke_subscribe cb w' = Some (ls, ec, w'') \<and> ec \<in> {0, 1} \<and> left_as w w''"
proof -
  obtain rc w1 where s: "indurtdb_subscribe 1 cb 0 w' = (rc, w1)" by (metis prod.collapse)
  obtain sub where r1: "running nm w j (h\<lparr>h_sub := sub\<rparr>) w1" using subscribe_running [OF assms(3,4) s] by blast
  obtain rc2 w2 where u: "indurtdb_unsubscribe 1 w1 = (rc2, w2)" by (metis prod.collapse)
  have "initialized (h\<lparr>h_sub := sub\<rparr>)" using assms(4) by simp
  then obtain h2 where r2: "running nm w j h2 w2" using unsubscribe_running [OF r1 _ u] by blast
  note stop = stop_running [OF assms(1,2)]
  show ?thesis using stop [OF r1] stop [OF r2] by (simp add: smoke_subscribe_def s u Let_def say_def)
qed

lemma smoke_subscribe_passes:
  assumes "running nm w j h w'" "initialized h" "h_sub h = irt_sub_init" "cb \<noteq> 0"
  shows "\<exists>w''. smoke_subscribe cb w' = Some ([''SMOKE_SUB ok'', ''SMOKE_UNSUB ok'', ''SMOKE_SHUTDOWN ok''], 0, w'')"
proof -
  obtain rc w1 where s: "indurtdb_subscribe 1 cb 0 w' = (rc, w1)" by (metis prod.collapse)
  obtain sub where sub: "irt_sub_subscribe irt_sub_init 1 cb 0 = (rc, sub)" and r1: "running nm w j (h\<lparr>h_sub := sub\<rparr>) w1"
    using subscribe_running [OF assms(1,2) s] assms(3) by auto
  obtain rc2 w2 where u: "indurtdb_unsubscribe 1 w1 = (rc2, w2)" by (metis prod.collapse)
  have "initialized (h\<lparr>h_sub := sub\<rparr>)" using assms(2) by simp
  then have rc2: "rc2 = v1_int (fst (irt_sub_unsubscribe sub 1))" using unsubscribe_running [OF r1 _ u] by auto
  have "rc = 0" and sub': "sub = irt_sub_init\<lparr>sub_slots := (sub_slots irt_sub_init)[0 := \<lparr>ss_point_id = 1, callback = cb, user_data = 0,
      ss_active = True\<rparr>], slot_count := 1\<rparr>"
    using sub assms(4) by (auto simp: irt_sub_subscribe_def irt_sub_init_def IRT_SUB_MAX_CALLBACKS_def)
  moreover have "fst (irt_sub_unsubscribe sub 1) = 0"
    unfolding sub' irt_sub_unsubscribe_def
    by (simp add: irt_sub_init_def IRT_SUB_MAX_CALLBACKS_def unsubscribe_loop.simps)
  ultimately show ?thesis by (simp add: smoke_subscribe_def s u Let_def say_def rc2 v1_int_def irt_codes)
qed

lemma say_Some: "say l r = Some (ls, ec, w) \<longleftrightarrow> (\<exists>ls'. ls = l # ls' \<and> r = Some (ls', ec, w))"
  by (auto simp: say_def)

lemma smoke_run_leaves:
  assumes w: "idle w" "w_names w (IRT_SHM_PREFIX @ hs_id h) = None" and run: "smoke_run flt h now cb w = Some (ls, ec, w')"
  shows "ec \<in> {0, 1} \<and> left_as w w'"
  using w
proof (cases rule: start_default [where flt = flt and mp = "word_of_int (hs_points h)" and ms = "word_of_int (hs_subs h)"])
  case (failed rc w1)
  then show ?thesis using run by (auto simp: smoke_run_def harness_start_def)
next
  case (started j h0 w1)
  note stop = stop_running [OF w]
  have i0: "initialized h0" using started(3) by (simp add: started_on_def)
  obtain rc cs w2 where wr: "indurtdb_write_int32 on_point now 1 42 w1 = ((rc, cs), w2)" by (metis prod.collapse)
  obtain h1 where h1: "running (IRT_SHM_PREFIX @ hs_id h) w j h1 w2" "initialized h1"
    using write_running [OF started(2) i0 wr] by blast
  have start: "harness_start flt h w = Some (0, w1)" using started(1) by (simp add: harness_start_def)
  show ?thesis
  proof (cases "rc = 0")
    case False
    then show ?thesis using run start wr stop [OF h1(1)] by (auto simp: smoke_run_def say_Some)
  next
    case True
    obtain rc3 v w3 where rd: "indurtdb_read_int32 (own_read w2 1) 1 w2 = Some ((rc3, v), w3)"
      using run start wr True by (auto simp: smoke_run_def say_Some split: option.splits)
    obtain h3 where h3: "running (IRT_SHM_PREFIX @ hs_id h) w j h3 w3" "initialized h3"
      using read_running [OF h1 rd] by blast
    obtain ls' ec' w4 where sub: "smoke_subscribe cb w3 = Some (ls', ec', w4)" "ec' \<in> {0, 1}" "left_as w w4"
      using smoke_subscribe_leaves [OF w h3] by blast
    show ?thesis
      using run start wr True rd sub stop [OF h3(1)] by (auto simp: smoke_run_def say_Some split: if_splits)
  qed
qed

definition smoke_lines :: "string list" where
  "smoke_lines = [''SMOKE_INIT ok'', ''SMOKE_WRITE ok'', ''SMOKE_READ ok value=42'', ''SMOKE_SUB ok'', ''SMOKE_UNSUB ok'',
     ''SMOKE_SHUTDOWN ok'']"

lemma write_value_no_subs:
  "h_sub h = irt_sub_init \<Longrightarrow> h_sub (snd (snd (write_value react h now pid v))) = irt_sub_init"
  by (simp add: write_value_eq ensure_h3_def h_write_and_notify_def irt_sub_notify_def irt_sub_init_def set_error_def Let_def
      split: prod.split option.split)

lemma started_dir_inv:
  assumes "started_on mp ms me h" "0 < mp" "unat mp \<le> 2 ^ 24"
  shows "dir_inv mp h" "lockable 3 (h_shm h)" "1 < mp \<Longrightarrow> access (points (h_shm h) ! 1) \<noteq> INDURTDB_ACCESS_READ_ONLY"
  using assms fresh_index_wf [OF assms(2,3)]
  by (simp_all add: started_on_def dir_inv_def fresh_shm_fields lockable_def zero_point_def INDURTDB_ACCESS_READ_ONLY_def word_less_nat_alt)

lemma smoke_run_passes:
  assumes w: "idle w" "w_names w (IRT_SHM_PREFIX @ hs_id h) = None" and "cb \<noteq> 0"
    and hid: "hs_id h \<noteq> []" "length (IRT_SHM_PREFIX @ hs_id h) < 64"
    and mp: "1 < (word_of_int (hs_points h) :: u32)" "unat (word_of_int (hs_points h) :: u32) \<le> 2 ^ 24"
  shows "\<exists>w'. smoke_run No_fault h now cb w = Some (smoke_lines, 0, w')"
  using w
proof (cases rule: start_default [where flt = No_fault and mp = "word_of_int (hs_points h)" and ms = "word_of_int (hs_subs h)"])
  case (failed rc w1)
  then show ?thesis using hid mp(1) by auto
next
  case (started j h0 w1)
  let ?mp = "word_of_int (hs_points h) :: u32"
  have pos: "0 < ?mp" using mp(1) by (simp add: word_less_nat_alt)
  have i0: "initialized h0" "h_sub h0 = irt_sub_init" using started(3) by (simp_all add: started_on_def)
  note d = started_dir_inv [OF started(3) pos mp(2)]
  obtain rc cs w2 where wr: "indurtdb_write_int32 on_point now 1 42 w1 = ((rc, cs), w2)" by (metis prod.collapse)
  obtain rc0 cs0 h1 where v: "write_value on_point h0 now 1 (V_int32 42) = (rc0, cs0, h1)" "rc = v1_int rc0"
      "running (IRT_SHM_PREFIX @ hs_id h) w j h1 w2" "initialized h1"
    using write_running [OF started(2) i0(1) wr] by blast
  note o = typed_write_outcome [OF d(1) v(1)]
  have "\<not> ?mp \<le> 1" using mp(1) by (simp add: not_le)
  then have rc0: "rc0 = 0" using o d(2,3) mp(1) by simp
  have rl: "read_like (V_int32 42) h1 (quiet (h_shm h1) 1) 1 = Some (0, Some (V_int32 42))" using o rc0 by simp
  then obtain h2 where h2: "indurtdb_h_read_int32 h1 (quiet (h_shm h1) 1) 1 = Some ((0, Some 42), h2)"
    by (auto simp: read_result_def)
  then have "h2 = h1" by (auto simp: indurtdb_h_read_int32_def h_read_def split: if_splits option.splits prod.splits)
  have own: "own_read w2 1 = quiet (h_shm h1) 1" and d2: "w_default w2 = Some j" "view w2 j = h1"
    using v(3) by (simp_all add: running_def own_read_def)
  have rd: "indurtdb_read_int32 (own_read w2 1) 1 w2 = Some ((0, Some 42), write_back j h1 w2)"
    using h2 \<open>h2 = h1\<close> by (simp add: indurtdb_read_int32_def on_default d2 own v1_int_def irt_codes)
  have "h_sub h1 = irt_sub_init" using write_value_no_subs [OF i0(2), of on_point now 1 "V_int32 42"] v(1) by simp
  then obtain w4 where "smoke_subscribe cb (write_back j h1 w2) =
      Some ([''SMOKE_SUB ok'', ''SMOKE_UNSUB ok'', ''SMOKE_SHUTDOWN ok''], 0, w4)"
    using smoke_subscribe_passes [OF op_running [OF v(3,4)] v(4)] assms(3) by blast
  then show ?thesis
    using started(1) wr v(2) rc0 rd
    by (simp add: smoke_run_def harness_start_def smoke_lines_def say_def v1_int_def irt_codes dec_digits.simps char_of_def bit_0)
qed

section \<open>Starting and stopping over and over\<close>

lemma leak_loop_leaves:
  "idle w \<Longrightarrow> w_names w (IRT_SHM_PREFIX @ hs_id h) = None \<Longrightarrow> leak_loop flt h n c w = Some (r, w') \<Longrightarrow> left_as w w'"
proof (induction n arbitrary: c w)
  case 0
  then show ?case by (simp add: left_as_refl)
next
  case (Suc n)
  note w = Suc.prems(1,2)
  from w show ?case
  proof (cases rule: start_default [where flt = "flt c" and mp = "word_of_int (hs_points h)" and ms = "word_of_int (hs_subs h)"])
    case (failed rc w1)
    then show ?thesis using Suc.prems(3) by (simp add: harness_start_def)
  next
    case (started j h0 w1)
    note stop = stop_running [OF w started(2)]
    have "leak_loop flt h n (Suc c) (indurtdb_shutdown w1) = Some (r, w')"
      using Suc.prems(3) started(1) by (simp add: harness_start_def)
    moreover have "w_names (indurtdb_shutdown w1) (IRT_SHM_PREFIX @ hs_id h) = None" using stop w(2) by (simp add: left_as_def)
    ultimately have "left_as (indurtdb_shutdown w1) w'" by (intro Suc.IH left_as_idle [OF w(1) stop])
    then show ?thesis by (rule left_as_trans [OF stop])
  qed
qed

lemma leak_loop_passes:
  assumes "hs_id h \<noteq> []" "length (IRT_SHM_PREFIX @ hs_id h) < 64" "(word_of_int (hs_points h) :: u32) \<noteq> 0"
  shows "idle w \<Longrightarrow> w_names w (IRT_SHM_PREFIX @ hs_id h) = None \<Longrightarrow> \<exists>w'. leak_loop (\<lambda>_. No_fault) h n c w = Some (None, w')"
proof (induction n arbitrary: c w)
  case (Suc n)
  from Suc.prems show ?case
  proof (cases rule: start_default [where flt = No_fault and mp = "word_of_int (hs_points h)" and ms = "word_of_int (hs_subs h)"])
    case (started j h0 w1)
    note stop = stop_running [OF Suc.prems started(2)]
    have "w_names (indurtdb_shutdown w1) (IRT_SHM_PREFIX @ hs_id h) = None" using stop Suc.prems(2) by (simp add: left_as_def)
    from Suc.IH [OF left_as_idle [OF Suc.prems(1) stop] this, of "Suc c"] show ?thesis
      using started(1) by (simp add: harness_start_def)
  qed (use assms in auto)
qed simp

lemma cleanup_idle:
  assumes "idle w" "length hid < 54"
  shows "idle (cleanup hid w)" "w_names (cleanup hid w) (IRT_SHM_PREFIX @ hid) = None"
  using assms by (simp_all add: idle_def cleanup_def world_ok_def slot_init_def IRT_SHM_PREFIX_def)

text \<open>
  C31. The harness leaves nothing behind and passes: for any command line with a mode, on a process with
  a free slot, whatever the system calls of the starts answer, a run that ends has exit code 0 or 1
  and leaves the names of segments (without the one it cleans up), the slots in use, the default
  instance and the other instances as they were. When no call fails and the number of points is more
  than the point it uses and at most \<open>2^24\<close>, it ends with exit code 0, and the smoke run prints
  its six lines with the value it wrote.
\<close>

theorem diag_harness_leaves_nothing:
  assumes "idle w" "harness_args (tl argv) harness_defaults = Some h" "hs_mode h = Some m" "length (hs_id h) < 54" "cb \<noteq> 0"
  shows "(\<forall>ls ec w'. harness_main argv flt now cb fds w = Some (ls, ec, w') \<longrightarrow>
      ec \<in> {0, 1} \<and> left_as (cleanup (hs_id h) w) w')
    \<and> (flt = (\<lambda>_. No_fault) \<and> hs_id h \<noteq> [] \<and> 1 < (word_of_int (hs_points h) :: u32)
        \<and> unat (word_of_int (hs_points h) :: u32) \<le> 2 ^ 24 \<longrightarrow>
      (\<exists>ls w'. harness_main argv flt now cb fds w = Some (ls, 0, w') \<and> (m = ''smoke'' \<longrightarrow> ls = smoke_lines)))"
proof -
  note w = cleanup_idle [OF assms(1,4)]
  have main: "harness_main argv flt now cb fds w = (if m = ''smoke'' then smoke_run (flt 0) h now cb (cleanup (hs_id h) w)
      else leak_run flt h fds (cleanup (hs_id h) w))"
    using assms(2,3) by (simp add: harness_main_def Let_def)
  have len: "length (IRT_SHM_PREFIX @ hs_id h) < 64" using assms(4) by (simp add: IRT_SHM_PREFIX_def)
  show ?thesis
  proof (cases "m = ''smoke''")
    case True
    then show ?thesis
      using smoke_run_leaves [OF w] smoke_run_passes [OF w assms(5) _ len] unfolding main by auto
  next
    case False
    have "ec \<in> {0, 1} \<and> left_as (cleanup (hs_id h) w) w'" if "leak_run flt h fds (cleanup (hs_id h) w) = Some (ls, ec, w')" for ls ec w'
      using that leak_loop_leaves [OF w] by (auto simp: leak_run_def say_Some split: option.splits)
    moreover have "\<exists>ls w'. leak_run (\<lambda>_. No_fault) h fds (cleanup (hs_id h) w) = Some (ls, 0, w')"
      if "hs_id h \<noteq> []" "1 < (word_of_int (hs_points h) :: u32)"
    proof -
      have nz: "hs_id h \<noteq> []" "(word_of_int (hs_points h) :: u32) \<noteq> 0" using that by auto
      then obtain w' where "leak_loop (\<lambda>_. No_fault) h (nat (hs_cycles h)) 0 (cleanup (hs_id h) w) = Some (None, w')"
        using leak_loop_passes [OF nz(1) len nz(2) w] by blast
      then show ?thesis by (simp add: leak_run_def say_def)
    qed
    ultimately show ?thesis using False unfolding main by auto
  qed
qed

theorem diag_harness_leaves_nothing_witness:
  "\<exists>w'. harness_main [''irt_diag'', ''--smoke'', ''--points'', ''16''] (\<lambda>_. No_fault) 5 1 (3, 3) (fresh_world 7) =
     Some (smoke_lines, 0, w') \<and> left_as (fresh_world 7) w'"
proof -
  let ?argv = "[''irt_diag'', ''--smoke'', ''--points'', ''16'']"
  let ?h = "harness_defaults\<lparr>hs_mode := Some ''smoke'', hs_points := 16\<rparr>"
  have "harness_args (tl ?argv) harness_defaults = Some ?h"
    by (simp add: c_atoi_def isspace_def is_digit_def digit_val_def digits_val_def code_def harness_defaults_def)
  moreover have "w_used (fresh_world 7) = 0" "w_default (fresh_world 7) = None" by (simp_all add: fresh_world_def)
  then have "idle (fresh_world 7)" using fresh_world_ok [of 7] by (auto simp: idle_def intro: exI [of _ 0])
  moreover have "cleanup x (fresh_world 7) = fresh_world 7" for x by (simp add: cleanup_def fresh_world_def fun_eq_iff)
  ultimately show ?thesis
    using diag_harness_leaves_nothing [of "fresh_world 7" ?argv ?h "''smoke''" 1 "\<lambda>_. No_fault" 5 "(3, 3)"]
    by (auto simp: harness_defaults_def)
qed

end
