(* ===== verification/Spec2Isabelle.thy ===== *)
theory Spec2Isabelle
  imports Quality Shm Name_Index Attach Point_Manager Subscription Delta Semantics Config Directory
    Rtdbd_Logs Policy_Props Rbe Conn Server_Props Daemon_Props Supervisor
    Client_Props Instances_Props Seqlock Typed_Values Daemon_Grants Rtdbd_Main_Props Wire_Codecs Abi_Layout Osal Config_Load Delta_Recovery Daemon_Args Diag_Harness
begin

text \<open>
  A verification library of InduRTDB, a real-time point database in shared memory with a daemon and a
  client library. Paths are relative to \<^verbatim>\<open>src/\<close>.

  \<^bold>\<open>The program.\<close> One shared memory segment holds a header, a table of points, an open-addressing hash
  index from (partition, name) to point id, a table of metadata and a table of heartbeats; a sequence
  lock in the header orders the writers and lets readers detect them. A process attaches a segment
  through a handle (an instance of a fixed table) and calls the functions of
  \<^verbatim>\<open>src/api/indurtdb.c\<close>, which use the core modules under \<^verbatim>\<open>src/core\<close>. The daemon
  \<^verbatim>\<open>rtdbd\<close> owns one handle and serves a binary protocol on a Unix socket: writes and management
  requests under a policy of user ids, subscriptions with notifications, metadata, lists, logs and
  health. The client library queues and submits writes and asks for the rest; the command line tool is
  built on it. A supervisor restarts the daemon.

  \<^bold>\<open>The core library.\<close>
  \<^item> \<open>IRT_Prelude\<close>: C integers as words, the return codes, bounded string copies, word lemmas.
    \<open>C_Lib\<close>: \<open>isspace\<close>, \<open>strtoul\<close>, \<open>fgets\<close>, decimal printing.
  \<^item> \<open>Quality\<close>: quality bytes and status codes. \<open>Semantics\<close> (\<^verbatim>\<open>irt_semantics.c\<close>): values as exact
    binary64 numbers, range limits, dead bands, metadata validation.
  \<^item> \<open>Shm\<close> (\<^verbatim>\<open>irt_types.h\<close>, \<^verbatim>\<open>irt_shm.c\<close>, \<^verbatim>\<open>irt_seqlock.h\<close>): the segment as the record \<open>shm\<close>, whose
    fields are those of the header and the four tables, with the two limits of the handle; the layout
    arithmetic, the checksum, the sequence lock, metadata. \<open>Attach\<close>: \<open>irt_shm_init\<close>, creating and
    attaching. \<open>Abi_Layout\<close>: sizes, alignments and offsets of all structures that leave the process,
    the addresses of the regions, and the agreement of the byte encoders with the structures.
  \<^item> \<open>Name_Index\<close> (\<^verbatim>\<open>irt_index.c\<close>): the hash index; \<open>index_wf\<close> is its invariant and \<open>name_map\<close> its
    abstraction, a finite map. \<open>Point_Manager\<close> (\<^verbatim>\<open>irt_point_manager.c\<close>): writes, reads, the timeout
    scan. \<open>Subscription\<close>, \<open>Delta\<close>: callbacks and heartbeats, the change log.
  \<^item> \<open>Config\<close>: the two configuration readers; \<open>Config_Load\<close>: a file that is printed in the format is
    read back, and loading it registers its points.
  \<^item> \<open>Seqlock\<close>: the lock under concurrency, a step relation of any number of writers and readers.
  \<^item> \<open>Api\<close>: the handle interface, one definition per function; \<open>Api_Directory\<close>, \<open>Directory\<close>: creating,
    deleting, renaming and finding refine a finite map; \<open>Typed_Values\<close>: typed writes and reads.
  \<^item> \<open>Instances\<close>, \<open>Instances_Props\<close>: the segments and names of the host (\<open>world\<close>), the table of
    instances, opening, closing, forking, detaching. \<open>Api_V1\<close>: the interface on the default instance.
    \<open>Diag_Harness\<close>: the program behind the diagnostic commands, which starts, uses and stops the library
    in one process. \<open>Osal\<close>: the OS layer at its system calls, its contract as the locale \<open>os_layer\<close> with both
    implementations, and the refinement between them. \<open>Handle_Frame\<close>: no operation starts or stops a
    handle.

  \<^bold>\<open>The daemon.\<close> The state is the record \<open>srv\<close>: the handle, policy, white list, audit trail, log,
  counters, connections, and for each descriptor an \<open>io\<close> with what arrives, what was sent and what the
  kernel answers.
  \<^item> \<open>Policy\<close>, \<open>Policy_Props\<close> (\<^verbatim>\<open>policy.c\<close>, \<^verbatim>\<open>rtdbd_conf.c\<close>): rules and white list, parsing, the decision.
  \<^item> \<open>Ring\<close>, \<open>Rtdbd_Logs\<close> (\<^verbatim>\<open>audit.c\<close>, \<^verbatim>\<open>logbuf.c\<close>, \<^verbatim>\<open>stats.c\<close>): two instances of the locale \<open>bounded_log\<close>.
  \<^item> \<open>Rbe\<close> (\<^verbatim>\<open>rbe.c\<close>), \<open>Conn\<close>: reporting by exception, with the rule it follows stated apart from the
    code (\<open>worth_reporting\<close>); connections, notification queues.
  \<^item> \<open>Server\<close>, \<open>Server_Props\<close>: \<open>handle_request\<close> with one definition per operation code; what a request
    may change and under which grant.
  \<^item> \<open>Daemon\<close>, \<open>Daemon_Props\<close>, \<open>Daemon_Grants\<close>: command line, start, the poll loop, shutdown; the
    connection table; what a whole life of the daemon may change. \<open>Rtdbd_Main\<close>, \<open>Rtdbd_Main_Props\<close>: the
    process with its effects on the names, segments and socket file of the host, by exit code.
    \<open>Supervisor\<close>: restarting, terminating and reaping workers (a worker runs, has exited or is reaped), the
    pid file. \<open>Daemon_Args\<close>: the words of the command
    line through \<open>getopt_long\<close>, and those a supervisor hands to its worker. \<open>Delta_Recovery\<close>: what starts
    on a change log recover, which is the whole directory only for commands on partition 0 (records carry
    no partition; a point created in another one comes back in partition 0).

  \<^bold>\<open>The client.\<close> \<open>Client\<close>, \<open>Client_Props\<close> (\<^verbatim>\<open>client.c\<close>, \<^verbatim>\<open>irtcli_main.c\<close>): the coalescing queue,
  connecting, flushing, synchronous requests, the tool; when a write is acknowledged is stated on the
  bytes of the connections (\<open>acked\<close>, \<open>acknowledged\<close>), not in terms of the client. \<open>End_To_End\<close>: a write through client, daemon
  and core; \<open>Wire_Codecs\<close>: the records of the protocol as instances of the locale \<open>codec\<close> and a list
  request from end to end.

  \<^bold>\<open>What the lemmas show.\<close> Component lemmas give each operation its cases (\<open>..._cases\<close>, \<open>..._outcome\<close>)
  and its frame; the invariants are \<open>shm_wf\<close>, \<open>index_wf\<close>, \<open>dir_inv\<close>, the tables of connections and
  instances, the queues. \<open>Refinement\<close> and \<open>Codec\<close> hold the contracts that are lifted to sequences: the
  locale \<open>refinement\<close> is interpreted for the directory, the notification queue and the client queue.
  The properties are numbered C1 to C40 where they stand: refinement of abstract machines (directory,
  queues, reporting, subscriptions, OS layer), what requests and runs may change, the end-to-end
  results, invariants, round trips of file formats and records, bounds of the layout,
  error codes, and liveness of flushing and draining. Lemmas that exhibit a defect of the code stand
  beside the model that shows it.

  \<^bold>\<open>Modelling decisions.\<close>
  \<^item> C strings are NUL-free lists of characters; the empty one also stands for NULL where the code treats
    them alike, an option where it does not. Values of points are lists of 32 bytes. A double is its
    64 bits, calculated with exactly. Machine integers are words; \<open>int\<close> return codes are \<open>int\<close>.
  \<^item> Everything outside is an argument: clocks, the answers of system calls, the pieces in which bytes
    arrive, signals as flags, the file contents. A socket with no answers left takes everything from a
    blocking send and would block a non-blocking one.
  \<^item> A retry loop with a bound takes the number of attempts that are disturbed (below 16 where a result
    is claimed); the read loop of a point, which has no bound, takes the list of what its iterations
    observe and is \<open>None\<close> when the list ends first. \<open>quiet\<close> is the observation of an undisturbed reader,
    and \<open>Seqlock\<close> proves what disturbed ones may see, over all interleavings of sequentially consistent
    steps.
  \<^item> The locks of other processes are the list \<open>lock_env\<close> that says for each attempt whether another one
    holds the lock; a write makes three attempts, the timeout scan one per point, as in the code.
  \<^item> Bounds: names of at most 63 bytes (longer ones are cut and lose their index entry, a finding), at most
    \<open>2^24\<close> points (for more the 32-bit offsets wrap at \<open>2^25\<close>), fewer than \<open>2^63\<close> commits of the counter.
    Recursions are structural or have a measure, but for the element loops \<open>partition_items\<close> and
    \<open>alias_items\<close> of the daemon's configuration, whose fuel is the length of their input and one more and
    never runs out (\<open>partition_items_fuel\<close>, \<open>alias_items_fuel\<close>).
  \<^item> A \<open>None\<close> of an operation on the table of instances is the undefined shift of the bitmap.
  \<^item> \<open>getopt_long\<close> is written out as the C library documents it (abbreviations, \<open>=\<close>, joined letters,
    \<open>--\<close>); the daemon has no operands.
  \<^item> \<open>rtdbd_main\<close> takes the daemon to be the only writer of its segment from opening to end.
  \<^item> Nobody else uses the segment of the diagnostic harness while it reads; the numbers of descriptors it
    counts are arguments, and \<open>atoi\<close> is taken within the range of \<open>int\<close>.
  \<^item> The reserved bytes of metadata are taken to be 0.

  \<^bold>\<open>Not modelled.\<close> Memory exhaustion; threads inside one process; messages on the standard streams;
  installing signal handlers and creating the socket (their results are arguments);
  \<open>SO_PEERCRED\<close> (its answer belongs to the connection). The unit and integration tests, the Python tools
  (monitor, migration, the diagnostic commands around the harness), examples, demo and starter template
  only call the library; scripts, packaging and build files have no behaviour of their own.
\<close>

end
